(* ===== verification/Prelude.thy ===== *)
theory Prelude
  imports Main "HOL-Library.Sublist" "HOL-Library.AList" "HOL-Library.Char_ord"
    "HOL-Library.List_Lexorder"
begin

text \<open>
  Shared vocabulary of the development: the error values, UTF-8 strings as byte lists with
  the operations of the Rust standard library that the sources call, saturating machine
  integers, and hash maps as association lists.
\<close>

named_theorems str_simps \<open>facts on the string library\<close>
named_theorems sat_simps \<open>facts on saturating integers\<close>

section \<open>Errors\<close>

text \<open>
  A fallible operation returns a sum \<open>error + 'a\<close>. \<open>Anyhow\<close> is a plain message
  (\<^verbatim>\<open>anyhow!\<close>, \<^verbatim>\<open>bail!\<close>); the other constructors are the typed errors that
  callers distinguish by downcasting, and the constraint failure of the database.
\<close>

type_synonym thread_id = string
type_synonym turn_id = string
type_synonym event_id = string

datatype error =
    Anyhow string
  | ThreadBusy thread_id
  | TurnRejected thread_id string
  | TurnInterruptedError thread_id turn_id
  | InvalidRequest string
  | ForeignKeyViolation string

definition bind_res :: "'err + 'x \<Rightarrow> ('x \<Rightarrow> 'err + 'y) \<Rightarrow> 'err + 'y" where
  "bind_res r k = case_sum Inl k r"

lemma bind_res_simps [simp]: "bind_res (Inr x) k = k x" "bind_res (Inl e) k = Inl e"
  by (simp_all add: bind_res_def)

lemma bind_res_eq_Inr: "bind_res r k = Inr y \<longleftrightarrow> (\<exists>x. r = Inr x \<and> k x = Inr y)"
  by (cases r) simp_all

section \<open>Bytes and characters\<close>

text \<open>
  A \<^verbatim>\<open>String\<close> is its UTF-8 encoding: \<^typ>\<open>char\<close> is a byte, so \<open>length\<close> is
  \<^verbatim>\<open>str::len\<close>. \<open>utf8_chars\<close> splits a string into its scalar values, each a byte that
  is not a continuation byte with the continuation bytes that follow it.
\<close>

definition byte :: "char \<Rightarrow> nat" where
  "byte c = of_char c"

definition is_cont :: "char \<Rightarrow> bool" where
  "is_cont c \<longleftrightarrow> 128 \<le> byte c \<and> byte c < 192"

function utf8_chars :: "string \<Rightarrow> string list" where
  "utf8_chars [] = []"
| "utf8_chars (b # bs) = (b # takeWhile is_cont bs) # utf8_chars (dropWhile is_cont bs)"
  by pat_completeness auto
termination
  by (relation "measure length") (auto simp: le_imp_less_Suc length_dropWhile_le)

lemma concat_utf8_chars [simp]: "concat (utf8_chars s) = s"
  by (induction s rule: utf8_chars.induct) simp_all

lemma utf8_chars_eq_Nil [simp]: "utf8_chars s = [] \<longleftrightarrow> s = []"
  by (cases s) simp_all

definition nl :: string where
  "nl = [CHR 0x0A]"

section \<open>Trimming\<close>

text \<open>
  \<^verbatim>\<open>str::trim\<close> removes characters with the Unicode property \<^verbatim>\<open>White_Space\<close>. Its
  members have encodings of one byte (9 to 13, 32), two bytes (U+0085, U+00A0) and three
  bytes (U+1680, U+2000 to U+200A, U+2028, U+2029, U+202F, U+205F, U+3000).
  \<open>ws_len\<close> is the length of the white-space character a string starts with (0 for none);
  \<open>ws_len_rev\<close> reads a reversed string, so it finds the character a string ends with.
\<close>

definition ws1 :: "char \<Rightarrow> bool" where
  "ws1 a \<longleftrightarrow> byte a = 32 \<or> (9 \<le> byte a \<and> byte a \<le> 13)"

definition ws2 :: "char \<Rightarrow> char \<Rightarrow> bool" where
  "ws2 a b \<longleftrightarrow> byte a = 0xC2 \<and> (byte b = 0x85 \<or> byte b = 0xA0)"

definition ws3 :: "char \<Rightarrow> char \<Rightarrow> char \<Rightarrow> bool" where
  "ws3 a b c \<longleftrightarrow>
     (byte a = 0xE1 \<and> byte b = 0x9A \<and> byte c = 0x80)
   \<or> (byte a = 0xE2 \<and> byte b = 0x80 \<and>
        (0x80 \<le> byte c \<and> byte c \<le> 0x8A \<or> byte c = 0xA8 \<or> byte c = 0xA9 \<or> byte c = 0xAF))
   \<or> (byte a = 0xE2 \<and> byte b = 0x81 \<and> byte c = 0x9F)
   \<or> (byte a = 0xE3 \<and> byte b = 0x80 \<and> byte c = 0x80)"

fun ws_len :: "string \<Rightarrow> nat" where
  "ws_len [] = 0"
| "ws_len [a] = (if ws1 a then 1 else 0)"
| "ws_len [a, b] = (if ws1 a then 1 else if ws2 a b then 2 else 0)"
| "ws_len (a # b # c # _) =
     (if ws1 a then 1 else if ws2 a b then 2 else if ws3 a b c then 3 else 0)"

fun ws_len_rev :: "string \<Rightarrow> nat" where
  "ws_len_rev [] = 0"
| "ws_len_rev [a] = (if ws1 a then 1 else 0)"
| "ws_len_rev [a, b] = (if ws1 a then 1 else if ws2 b a then 2 else 0)"
| "ws_len_rev (a # b # c # _) =
     (if ws1 a then 1 else if ws2 b a then 2 else if ws3 c b a then 3 else 0)"

function strip_ws :: "(string \<Rightarrow> nat) \<Rightarrow> string \<Rightarrow> string" where
  "strip_ws f s = (if f s = 0 \<or> s = [] then s else strip_ws f (drop (f s) s))"
  by pat_completeness auto
termination
  by (relation "measure (\<lambda>(f, s). length s)") auto

declare strip_ws.simps [simp del]

definition trim_start :: "string \<Rightarrow> string" where
  "trim_start s = strip_ws ws_len s"

definition trim_end :: "string \<Rightarrow> string" where
  "trim_end s = rev (strip_ws ws_len_rev (rev s))"

definition trim :: "string \<Rightarrow> string" where
  "trim s = trim_end (trim_start s)"

lemma strip_ws_stop: "strip_ws f s = [] \<or> f (strip_ws f s) = 0"
proof (induction f s rule: strip_ws.induct)
  case (1 f s)
  show ?case
  proof (cases "f s = 0 \<or> s = []")
    case True
    then show ?thesis by (auto simp: strip_ws.simps [of f s])
  next
    case False
    with 1 show ?thesis by (simp add: strip_ws.simps [of f s])
  qed
qed

lemma strip_ws_id: "f s = 0 \<Longrightarrow> strip_ws f s = s"
  by (simp add: strip_ws.simps)

lemma strip_ws_Nil [simp]: "strip_ws f [] = []"
  by (simp add: strip_ws.simps)

lemma strip_ws_suffix: "suffix (strip_ws f s) s"
proof (induction f s rule: strip_ws.induct)
  case (1 f s)
  show ?case
  proof (cases "f s = 0 \<or> s = []")
    case True
    then show ?thesis by (auto simp: strip_ws.simps [of f s])
  next
    case False
    with 1 have "suffix (strip_ws f (drop (f s) s)) (drop (f s) s)" by simp
    then have "suffix (strip_ws f (drop (f s) s)) s"
      using suffix_drop suffix_order.order_trans by blast
    with False show ?thesis by (simp add: strip_ws.simps [of f s])
  qed
qed

lemma trim_end_prefix: "prefix (trim_end s) s"
  using strip_ws_suffix [of ws_len_rev "rev s"] by (simp add: trim_end_def suffix_to_prefix)

lemma ws_len_append: "0 < ws_len p \<Longrightarrow> ws_len (p @ q) = ws_len p"
  by (induction p rule: ws_len.induct; cases q; cases "tl q") (auto split: if_splits)

lemma ws_len_prefix:
  assumes "prefix p s" "ws_len s = 0"
  shows "ws_len p = 0"
proof (rule ccontr)
  assume "ws_len p \<noteq> 0"
  with assms ws_len_append [of p] show False by (auto simp: prefix_def)
qed

lemma ws_len_trim: "ws_len (trim s) = 0"
  using strip_ws_stop [of ws_len s] ws_len_prefix [OF trim_end_prefix, of "trim_start s"]
  by (auto simp: trim_def trim_start_def trim_end_def)

lemma trim_end_idem: "trim_end (trim_end s) = trim_end s"
  using strip_ws_stop [of ws_len_rev "rev s"] by (auto simp: trim_end_def strip_ws_id)

lemma trim_idem [simp, str_simps]: "trim (trim s) = trim s"
proof -
  have "trim_start (trim s) = trim s"
    using ws_len_trim by (simp add: trim_start_def strip_ws_id)
  then show ?thesis by (simp add: trim_def trim_end_idem)
qed

lemma length_trim_le: "length (trim s) \<le> length s"
proof -
  have "length (trim_end (trim_start s)) \<le> length (trim_start s)"
    by (rule prefix_length_le [OF trim_end_prefix])
  also have "\<dots> \<le> length s"
    using suffix_length_le [OF strip_ws_suffix] by (simp add: trim_start_def)
  finally show ?thesis by (simp add: trim_def)
qed


section \<open>Substrings, joining, replacing\<close>

text \<open>\<^verbatim>\<open>str::contains\<close>, \<^verbatim>\<open>str::starts_with\<close>, \<^verbatim>\<open>[str]::join\<close>, replacement of one
  ASCII character, ASCII lower-casing, and trimming of trailing occurrences of a character.\<close>

fun str_contains :: "string \<Rightarrow> string \<Rightarrow> bool" where
  "str_contains pat [] = (pat = [])"
| "str_contains pat (c # cs) = (prefix pat (c # cs) \<or> str_contains pat cs)"

lemma str_contains_iff: "str_contains pat s \<longleftrightarrow> sublist pat s"
  by (induction s) (auto simp: sublist_Cons_right)

definition starts_with :: "string \<Rightarrow> string \<Rightarrow> bool" where
  "starts_with s pat = prefix pat s"

fun join :: "string \<Rightarrow> string list \<Rightarrow> string" where
  "join sep [] = []"
| "join sep [x] = x"
| "join sep (x # y # ys) = x @ sep @ join sep (y # ys)"

definition replace_char :: "char \<Rightarrow> string \<Rightarrow> string \<Rightarrow> string" where
  "replace_char c r s = concat (map (\<lambda>x. if x = c then r else [x]) s)"

lemma replace_char_simps [simp]:
  "replace_char c r [] = []"
  "replace_char c r (x # s) = (if x = c then r else [x]) @ replace_char c r s"
  by (simp_all add: replace_char_def)

definition ascii_lower :: "char \<Rightarrow> char" where
  "ascii_lower c = (if 65 \<le> byte c \<and> byte c \<le> 90 then char_of (byte c + 32) else c)"

definition to_ascii_lowercase :: "string \<Rightarrow> string" where
  "to_ascii_lowercase s = map ascii_lower s"

definition trim_end_char :: "char \<Rightarrow> string \<Rightarrow> string" where
  "trim_end_char c s = rev (dropWhile (\<lambda>x. x = c) (rev s))"

lemma trim_end_char_prefix: "prefix (trim_end_char c s) s"
  unfolding trim_end_char_def
  by (metis dropWhile_eq_drop rev_rev_ident suffix_drop suffix_to_prefix)

lemma trim_end_char_last: "trim_end_char c s \<noteq> [] \<Longrightarrow> last (trim_end_char c s) \<noteq> c"
  using hd_dropWhile [of "\<lambda>x. x = c" "rev s"] by (simp add: trim_end_char_def last_rev)

lemma trim_end_char_id: "s = [] \<or> last s \<noteq> c \<Longrightarrow> trim_end_char c s = s"
  by (cases s rule: rev_cases) (auto simp: trim_end_char_def)

section \<open>Decimal text\<close>

text \<open>\<^verbatim>\<open>to_string\<close> of an integer; \<open>show_nat\<close> is injective, so identifiers built from a
  counter are distinct.\<close>

definition digit_char :: "nat \<Rightarrow> char" where
  "digit_char d = char_of (48 + d)"

function show_nat :: "nat \<Rightarrow> string" where
  "show_nat n = (if n < 10 then [digit_char n] else show_nat (n div 10) @ [digit_char (n mod 10)])"
  by pat_completeness auto
termination
  by (relation "measure id") auto

declare show_nat.simps [simp del]

definition show_int :: "int \<Rightarrow> string" where
  "show_int i = (if i < 0 then ''-'' @ show_nat (nat (- i)) else show_nat (nat i))"

definition read_digits :: "string \<Rightarrow> nat" where
  "read_digits s = foldl (\<lambda>a c. 10 * a + (byte c - 48)) 0 s"

lemma byte_digit_char: "d < 10 \<Longrightarrow> byte (digit_char d) = 48 + d"
  by (simp add: byte_def digit_char_def)

lemma read_show_nat [str_simps]: "read_digits (show_nat n) = n"
proof (induction n rule: show_nat.induct)
  case (1 n)
  show ?case
  proof (cases "n < 10")
    case True
    then show ?thesis
      by (simp add: show_nat.simps [of n] read_digits_def byte_digit_char)
  next
    case False
    with 1 have "read_digits (show_nat (n div 10)) = n div 10" by simp
    with False show ?thesis
      by (simp add: show_nat.simps [of n] read_digits_def byte_digit_char)
  qed
qed

lemma show_nat_inj [str_simps]: "show_nat m = show_nat n \<longleftrightarrow> m = n"
  by (metis read_show_nat)

lemma show_nat_small:
  "show_nat 0 = ''0''" "show_nat (Suc 0) = ''1''" "show_nat 1 = ''1''" "show_nat 2 = ''2''"
  "show_nat 3 = ''3''" "show_nat 4 = ''4''"
  by code_simp+

lemma show_nat_not_Nil [simp]: "show_nat n \<noteq> []"
  by (subst show_nat.simps) simp

section \<open>Saturating and wrapping integers\<close>

text \<open>\<^verbatim>\<open>i64\<close> values are \<^typ>\<open>int\<close> with the bounds written out; \<^verbatim>\<open>u32\<close>,
  \<^verbatim>\<open>u64\<close> and \<^verbatim>\<open>usize\<close> values are \<^typ>\<open>nat\<close>. \<open>fetch_add\<close> on an
  \<^verbatim>\<open>AtomicU64\<close> wraps around.\<close>

definition i64_max :: int where "i64_max = 2 ^ 63 - 1"
definition i64_min :: int where "i64_min = - (2 ^ 63)"
definition u64_max :: nat where "u64_max = 2 ^ 64 - 1"
definition u32_max :: nat where "u32_max = 2 ^ 32 - 1"

definition is_i64 :: "int \<Rightarrow> bool" where
  "is_i64 x \<longleftrightarrow> i64_min \<le> x \<and> x \<le> i64_max"

definition clamp_i64 :: "int \<Rightarrow> int" where
  "clamp_i64 x = max i64_min (min i64_max x)"

definition sat_add :: "int \<Rightarrow> int \<Rightarrow> int" where
  "sat_add a b = clamp_i64 (a + b)"

definition sat_sub :: "int \<Rightarrow> int \<Rightarrow> int" where
  "sat_sub a b = clamp_i64 (a - b)"

definition u64_sat_add :: "nat \<Rightarrow> nat \<Rightarrow> nat" where
  "u64_sat_add a b = min u64_max (a + b)"

definition u32_sat_add :: "nat \<Rightarrow> nat \<Rightarrow> nat" where
  "u32_sat_add a b = min u32_max (a + b)"

definition u64_wrap_succ :: "nat \<Rightarrow> nat" where
  "u64_wrap_succ a = (a + 1) mod 2 ^ 64"

lemma is_i64_clamp [simp, sat_simps]: "is_i64 (clamp_i64 x)"
  by (auto simp: is_i64_def clamp_i64_def i64_max_def i64_min_def)

lemma is_i64_sat [simp, sat_simps]: "is_i64 (sat_add a b)" "is_i64 (sat_sub a b)"
  by (simp_all add: sat_add_def sat_sub_def)

lemma clamp_i64_id [sat_simps]: "is_i64 x \<Longrightarrow> clamp_i64 x = x"
  by (auto simp: is_i64_def clamp_i64_def)

lemma sat_add_mono: "a \<le> a' \<Longrightarrow> b \<le> b' \<Longrightarrow> sat_add a b \<le> sat_add a' b'"
  by (auto simp: sat_add_def clamp_i64_def)

lemma sat_add_nonneg [sat_simps]: "0 \<le> a \<Longrightarrow> 0 \<le> b \<Longrightarrow> 0 \<le> sat_add a b"
  by (auto simp: sat_add_def clamp_i64_def i64_max_def i64_min_def)

lemma sat_add_ge_left [sat_simps]: "is_i64 a \<Longrightarrow> 0 \<le> b \<Longrightarrow> a \<le> sat_add a b"
  by (auto simp: sat_add_def clamp_i64_def is_i64_def)

lemma sat_add_0 [sat_simps]: "is_i64 a \<Longrightarrow> sat_add a 0 = a" "is_i64 a \<Longrightarrow> sat_add 0 a = a"
  by (simp_all add: sat_add_def clamp_i64_id)

lemma sat_add_exact [sat_simps]: "is_i64 (a + b) \<Longrightarrow> sat_add a b = a + b"
  by (simp add: sat_add_def clamp_i64_id)

lemma is_i64_0 [simp]: "is_i64 0"
  by (simp add: is_i64_def i64_max_def i64_min_def)

section \<open>Hash maps\<close>

text \<open>
  A \<^verbatim>\<open>HashMap\<close> that the code iterates over is an association list with distinct keys, in
  the (unspecified) iteration order; one that is only looked up is a map. A
  \<^verbatim>\<open>BTreeMap\<close> is an association list kept sorted by key.
\<close>

type_synonym ('k, 'v) hmap = "('k \<times> 'v) list"

definition hm_ok :: "('k, 'v) hmap \<Rightarrow> bool" where
  "hm_ok m \<longleftrightarrow> distinct (map fst m)"

definition hm_values :: "('k, 'v) hmap \<Rightarrow> 'v list" where
  "hm_values m = map snd m"

definition hm_retain :: "('k \<Rightarrow> 'v \<Rightarrow> bool) \<Rightarrow> ('k, 'v) hmap \<Rightarrow> ('k, 'v) hmap" where
  "hm_retain p m = filter (\<lambda>(k, v). p k v) m"

lemma hm_ok_Nil [simp]: "hm_ok []"
  by (simp add: hm_ok_def)

lemma hm_ok_update [simp]: "hm_ok m \<Longrightarrow> hm_ok (AList.update k v m)"
  by (simp add: hm_ok_def distinct_update)

lemma hm_ok_delete [simp]: "hm_ok m \<Longrightarrow> hm_ok (AList.delete k m)"
  by (simp add: hm_ok_def distinct_delete)

lemma hm_ok_retain [simp]: "hm_ok m \<Longrightarrow> hm_ok (hm_retain p m)"
  by (auto simp: hm_ok_def hm_retain_def intro: distinct_map_filter)

lemma map_of_retain:
  "hm_ok m \<Longrightarrow> map_of (hm_retain p m) k =
     (case map_of m k of None \<Rightarrow> None | Some v \<Rightarrow> if p k v then Some v else None)"
  by (induction m) (auto simp: hm_ok_def hm_retain_def rev_image_eqI split: option.splits
      dest: map_of_SomeD)

lemma hm_values_iff: "hm_ok m \<Longrightarrow> v \<in> set (hm_values m) \<longleftrightarrow> (\<exists>k. map_of m k = Some v)"
  by (force simp: hm_values_def hm_ok_def)

end
