(* ===== verification/Codec.thy ===== *)
theory Codec
  imports Prelude
begin

text \<open>
  The interface between the enumerations and the text columns, environment variables and event
  payloads they are written to. A \<^verbatim>\<open>from_str\<close> that reads back every label
  \<^verbatim>\<open>as_str\<close> produces is a parser of the labels; when it accepts nothing else, the pair is a
  codec, and every stored value has exactly one text.
\<close>

locale label_parser =
  fixes as_str :: "'a \<Rightarrow> string"
    and from_str :: "string \<Rightarrow> error + 'a"
  assumes parse_label: "from_str (as_str x) = Inr x"
begin

lemma label_inj: "as_str x = as_str y \<longleftrightarrow> x = y"
  by (metis parse_label sum.inject(2))

end

locale label_codec = label_parser +
  assumes parse_sound: "from_str s = Inr x \<Longrightarrow> s = as_str x"
begin

lemma parse_iff: "from_str s = Inr x \<longleftrightarrow> s = as_str x"
  using parse_label parse_sound by auto

lemma parse_fails_iff: "(\<exists>e. from_str s = Inl e) \<longleftrightarrow> s \<notin> range as_str"
  by (metis parse_iff parse_label rangeE rangeI sum.exhaust_sel sum.disc(1,2) sum.distinct(1))

lemma label_eq_iff: "as_str x = s \<longleftrightarrow> from_str s = Inr x"
  using parse_iff by auto

end

end
