(* ===== verification/Types.thy ===== *)
theory Types
  imports Prelude
begin

text \<open>
  The provider-independent conversation types of \<^verbatim>\<open>src/model/types.rs\<close> (messages, tool
  calls, token usage) and the image handling of \<^verbatim>\<open>src/model/multimodal.rs\<close>. Paths and URLs
  are strings; a JSON number is its printed text.
\<close>

section \<open>JSON values, tool calls, reasoning\<close>

datatype json =
    JNull
  | JBool bool
  | JNumber string
  | JString string
  | JArray "json list"
  | JObject "(string \<times> json) list"

record tool_call =
  tc_id :: string
  tc_name :: string
  tc_arguments :: json
  tc_thought_signature :: "json option"

datatype reasoning_signature =
    OpenAiField string
  | ReasoningDetails json
  | GeminiThoughtSignature string
  | AnthropicSignature string
  | AnthropicRedactedData string

record reasoning_block =
  rb_text :: string
  rb_signature :: "reasoning_signature option"
  rb_redacted :: bool

datatype tool_status = ToolSuccess | ToolError | ToolReviewRequired

datatype message_role = System | User | Assistant | Tool

datatype image_detail = DetailAuto | DetailLow | DetailHigh | DetailOriginal

datatype input_modality = ModText | ModImage

datatype content_part =
    PartText string
  | PartLocalImage string "image_detail option"
  | PartImageUrl string "image_detail option"

datatype user_input =
    UiText string
  | UiLocalImage string "image_detail option"
  | UiImageUrl string "image_detail option"

record tool_result =
  tr_tool_call_id :: string
  tr_tool_name :: string
  tr_status :: tool_status
  tr_content :: string
  tr_meta :: "json option"
  tr_parts :: "content_part list"

record assistant_turn =
  at_text :: "string option"
  at_tool_calls :: "tool_call list"
  at_reasoning :: "reasoning_block list"

fun part_is_image :: "content_part \<Rightarrow> bool" where
  "part_is_image (PartLocalImage _ _) = True"
| "part_is_image (PartImageUrl _ _) = True"
| "part_is_image (PartText _) = False"

fun input_is_image :: "user_input \<Rightarrow> bool" where
  "input_is_image (UiLocalImage _ _) = True"
| "input_is_image (UiImageUrl _ _) = True"
| "input_is_image (UiText _) = False"

fun into_content_part :: "user_input \<Rightarrow> content_part" where
  "into_content_part (UiText t) = PartText t"
| "into_content_part (UiLocalImage p d) = PartLocalImage p d"
| "into_content_part (UiImageUrl u d) = PartImageUrl u d"

section \<open>Token usage\<close>

record token_usage =
  tu_input :: int
  tu_cached_input :: int
  tu_output :: int
  tu_reasoning_output :: int
  tu_total :: int

definition token_usage_default :: token_usage where
  "token_usage_default = \<lparr>tu_input = 0, tu_cached_input = 0, tu_output = 0,
     tu_reasoning_output = 0, tu_total = 0\<rparr>"

definition token_usage_add :: "token_usage \<Rightarrow> token_usage \<Rightarrow> token_usage" where
  "token_usage_add a b =
     \<lparr>tu_input = sat_add (tu_input a) (tu_input b),
      tu_cached_input = sat_add (tu_cached_input a) (tu_cached_input b),
      tu_output = sat_add (tu_output a) (tu_output b),
      tu_reasoning_output = sat_add (tu_reasoning_output a) (tu_reasoning_output b),
      tu_total = sat_add (tu_total a) (tu_total b)\<rparr>"

record token_usage_info =
  ti_total :: token_usage
  ti_last :: token_usage
  ti_context_window :: "int option"

definition new_or_append ::
  "token_usage_info option \<Rightarrow> token_usage option \<Rightarrow> int option \<Rightarrow> token_usage_info option" where
  "new_or_append info latest window =
     (if info = None \<and> latest = None \<and> window = None then None
      else
        let next0 = (case info of Some i \<Rightarrow> i
               | None \<Rightarrow> \<lparr>ti_total = token_usage_default, ti_last = token_usage_default,
                          ti_context_window = window\<rparr>);
            next1 = (case latest of None \<Rightarrow> next0
               | Some u \<Rightarrow> next0\<lparr>ti_total := token_usage_add (ti_total next0) u, ti_last := u\<rparr>);
            next2 = (if window \<noteq> None then next1\<lparr>ti_context_window := window\<rparr> else next1)
        in Some next2)"

definition full_context_window :: "int \<Rightarrow> token_usage_info" where
  "full_context_window w =
     (let usage = token_usage_default\<lparr>tu_total := w\<rparr>
      in \<lparr>ti_total = usage, ti_last = usage, ti_context_window = Some w\<rparr>)"

section \<open>Conversation messages\<close>

record conversation_message =
  cm_role :: message_role
  cm_content :: string
  cm_parts :: "content_part list"
  cm_tool_call_id :: "string option"
  cm_tool_calls :: "tool_call list"
  cm_reasoning :: "reasoning_block list"
  cm_injected :: bool
  cm_internal_source :: "string option"

definition msg_system :: "string \<Rightarrow> conversation_message" where
  "msg_system c = \<lparr>cm_role = System, cm_content = c, cm_parts = [], cm_tool_call_id = None,
     cm_tool_calls = [], cm_reasoning = [], cm_injected = False, cm_internal_source = None\<rparr>"

definition msg_injected_system :: "string \<Rightarrow> conversation_message" where
  "msg_injected_system c = (msg_system c)\<lparr>cm_injected := True\<rparr>"

definition msg_user :: "string \<Rightarrow> conversation_message" where
  "msg_user c = \<lparr>cm_role = User, cm_content = c, cm_parts = [], cm_tool_call_id = None,
     cm_tool_calls = [], cm_reasoning = [], cm_injected = False, cm_internal_source = None\<rparr>"

definition msg_injected_user_context :: "string \<Rightarrow> string \<Rightarrow> conversation_message" where
  "msg_injected_user_context source c =
     (msg_user c)\<lparr>cm_injected := True, cm_internal_source := Some source\<rparr>"

definition msg_assistant_with_reasoning ::
  "string option \<Rightarrow> reasoning_block list \<Rightarrow> tool_call list \<Rightarrow> conversation_message" where
  "msg_assistant_with_reasoning c rs calls =
     \<lparr>cm_role = Assistant, cm_content = (case c of None \<Rightarrow> [] | Some t \<Rightarrow> t), cm_parts = [],
      cm_tool_call_id = None, cm_tool_calls = calls, cm_reasoning = rs, cm_injected = False,
      cm_internal_source = None\<rparr>"

definition msg_assistant :: "string option \<Rightarrow> tool_call list \<Rightarrow> conversation_message" where
  "msg_assistant c calls = msg_assistant_with_reasoning c [] calls"

definition msg_tool_with_parts ::
  "string \<Rightarrow> string \<Rightarrow> content_part list \<Rightarrow> conversation_message" where
  "msg_tool_with_parts i c ps =
     \<lparr>cm_role = Tool, cm_content = c, cm_parts = ps, cm_tool_call_id = Some i,
      cm_tool_calls = [], cm_reasoning = [], cm_injected = False, cm_internal_source = None\<rparr>"

definition msg_tool :: "string \<Rightarrow> string \<Rightarrow> conversation_message" where
  "msg_tool i c = msg_tool_with_parts i c []"

fun part_text :: "content_part \<Rightarrow> string option" where
  "part_text (PartText t) = Some t"
| "part_text (PartLocalImage _ _) = None"
| "part_text (PartImageUrl _ _) = None"

definition text_preview_from_parts :: "content_part list \<Rightarrow> string" where
  "text_preview_from_parts ps = join nl (List.map_filter part_text ps)"

definition msg_user_parts :: "user_input list \<Rightarrow> conversation_message" where
  "msg_user_parts inp =
     (let parts = map into_content_part inp
      in (msg_user (text_preview_from_parts parts))\<lparr>cm_parts := parts\<rparr>)"

definition effective_parts :: "conversation_message \<Rightarrow> content_part list" where
  "effective_parts m =
     (if cm_parts m \<noteq> [] then cm_parts m
      else if cm_content m = [] then [] else [PartText (cm_content m)])"

definition sync_content_from_parts :: "conversation_message \<Rightarrow> conversation_message" where
  "sync_content_from_parts m = m\<lparr>cm_content := text_preview_from_parts (cm_parts m)\<rparr>"

section \<open>Images\<close>

definition image_omitted_placeholder :: string where
  "image_omitted_placeholder = ''[image omitted: selected model has no image input]''"

definition supports_images :: "input_modality list \<Rightarrow> bool" where
  "supports_images ms \<longleftrightarrow> ModImage \<in> set ms"

definition contains_image :: "content_part list \<Rightarrow> bool" where
  "contains_image ps \<longleftrightarrow> list_ex part_is_image ps"

definition validate_turn_input_modalities ::
  "user_input list \<Rightarrow> input_modality list \<Rightarrow> error + unit" where
  "validate_turn_input_modalities inp ms =
     (if list_ex input_is_image inp \<and> \<not> supports_images ms
      then Inl (Anyhow ''selected model does not support image input'') else Inr ())"

definition strip_images_in_place :: "content_part list \<Rightarrow> content_part list" where
  "strip_images_in_place ps =
     map (\<lambda>p. if part_is_image p then PartText image_omitted_placeholder else p) ps"

definition strip_images_from_message :: "conversation_message \<Rightarrow> conversation_message" where
  "strip_images_from_message m =
     (if contains_image (cm_parts m)
      then sync_content_from_parts (m\<lparr>cm_parts := strip_images_in_place (cm_parts m)\<rparr>)
      else m)"

definition strip_images_from_messages ::
  "conversation_message list \<Rightarrow> conversation_message list" where
  "strip_images_from_messages ms = map strip_images_from_message ms"

section \<open>Lemmas\<close>

lemma token_usage_add_total [simp]:
  "tu_total (token_usage_add a b) = sat_add (tu_total a) (tu_total b)"
  by (simp add: token_usage_add_def)

lemma part_is_image_into [simp]: "part_is_image (into_content_part x) = input_is_image x"
  by (cases x) simp_all

lemma contains_image_strip [simp]: "\<not> contains_image (strip_images_in_place ps)"
  by (auto simp: contains_image_def strip_images_in_place_def list_ex_iff)

lemma strip_images_no_image [simp]: "\<not> contains_image (cm_parts (strip_images_from_message m))"
  by (simp add: strip_images_from_message_def sync_content_from_parts_def)

lemma strip_images_role [simp]:
  "cm_role (strip_images_from_message m) = cm_role m"
  "cm_tool_call_id (strip_images_from_message m) = cm_tool_call_id m"
  "cm_tool_calls (strip_images_from_message m) = cm_tool_calls m"
  by (simp_all add: strip_images_from_message_def sync_content_from_parts_def)

lemma effective_parts_user_parts: "effective_parts (msg_user_parts inp) = map into_content_part inp"
  by (cases inp) (simp_all add: effective_parts_def msg_user_parts_def msg_user_def Let_def
      text_preview_from_parts_def map_filter_def)

section \<open>Properties\<close>

text \<open>Accumulating the usage of a sequence of model calls: when the call totals are
  non-negative and their sum fits in 64 bits, the recorded running total is exactly the sum and
  the last usage is that of the last call; the context window stays the given one.\<close>

theorem token_usage_accumulates:
  assumes "\<forall>u \<in> set us. 0 \<le> tu_total u" and "(\<Sum>u\<leftarrow>us. tu_total u) \<le> i64_max" and "us \<noteq> []"
  shows "\<exists>i. fold (\<lambda>u acc. new_or_append acc (Some u) w) us None = Some i
     \<and> tu_total (ti_total i) = (\<Sum>u\<leftarrow>us. tu_total u)
     \<and> ti_last i = last us \<and> ti_context_window i = w"
  using assms
proof (induction us rule: rev_induct)
  case Nil
  then show ?case by simp
next
  case (snoc u us)
  have nn: "0 \<le> (\<Sum>u\<leftarrow>us. tu_total u)"
    using snoc.prems(1) by (intro sum_list_nonneg) auto
  show ?case
  proof (cases "us = []")
    case True
    with snoc.prems show ?thesis
      by (cases w) (auto simp: new_or_append_def token_usage_default_def sat_add_def clamp_i64_def
          i64_min_def i64_max_def)
  next
    case False
    have "(\<Sum>u\<leftarrow>us. tu_total u) \<le> i64_max" using snoc.prems by simp
    then obtain i where i: "fold (\<lambda>u acc. new_or_append acc (Some u) w) us None = Some i"
      "tu_total (ti_total i) = (\<Sum>u\<leftarrow>us. tu_total u)" "ti_context_window i = w"
      using snoc.IH False snoc.prems(1) by auto
    have "is_i64 ((\<Sum>u\<leftarrow>us. tu_total u) + tu_total u)"
      using snoc.prems nn by (auto simp: is_i64_def i64_min_def)
    with i show ?thesis by (cases w) (auto simp: new_or_append_def sat_simps)
  qed
qed

theorem token_usage_accumulates_witness:
  "\<exists>i. fold (\<lambda>u acc. new_or_append acc (Some u) (Some 100))
       [token_usage_default\<lparr>tu_total := 5\<rparr>, token_usage_default\<lparr>tu_total := 7\<rparr>] None = Some i
     \<and> tu_total (ti_total i) = 12"
  using token_usage_accumulates
    [of "[token_usage_default\<lparr>tu_total := 5\<rparr>, token_usage_default\<lparr>tu_total := 7\<rparr>]" "Some 100"]
  by (auto simp: token_usage_default_def i64_max_def)

text \<open>What a text-only model is sent contains no image part: image stripping replaces every
  image by the placeholder, keeps the length, roles and tool-call links of the conversation, and a
  second pass changes nothing.\<close>

theorem strip_images_sound:
  "list_all (\<lambda>m. \<not> contains_image (cm_parts m)) (strip_images_from_messages ms)
   \<and> map cm_role (strip_images_from_messages ms) = map cm_role ms
   \<and> map cm_tool_calls (strip_images_from_messages ms) = map cm_tool_calls ms
   \<and> map cm_tool_call_id (strip_images_from_messages ms) = map cm_tool_call_id ms
   \<and> strip_images_from_messages (strip_images_from_messages ms) = strip_images_from_messages ms"
proof -
  have "strip_images_from_message (strip_images_from_message m) = strip_images_from_message m" for m
    using strip_images_no_image [of m] by (simp add: strip_images_from_message_def [of "strip_images_from_message m"])
  then show ?thesis by (simp add: strip_images_from_messages_def list_all_iff)
qed

end
