(* ===== verification/Session.thy ===== *)
theory Session
  imports Types Codec
begin

text \<open>
  Configuration enumerations (\<^verbatim>\<open>src/config.rs\<close>, \<^verbatim>\<open>src/runtime/turn_mode.rs\<close>,
  \<^verbatim>\<open>src/runtime/agent_profile\<close>), the policy mode of \<^verbatim>\<open>src/runtime/policy.rs\<close> and the
  persisted session types of \<^verbatim>\<open>src/state/session.rs\<close>.
\<close>

section \<open>Configuration enumerations\<close>

datatype permission_profile = FullAccess | External | Managed

fun permission_profile_as_str :: "permission_profile \<Rightarrow> string" where
  "permission_profile_as_str FullAccess = ''full_access''"
| "permission_profile_as_str External = ''external''"
| "permission_profile_as_str Managed = ''managed''"

fun permission_profile_is_supported :: "permission_profile \<Rightarrow> bool" where
  "permission_profile_is_supported FullAccess = True"
| "permission_profile_is_supported _ = False"

fun execution_boundary_summary :: "permission_profile \<Rightarrow> string" where
  "execution_boundary_summary FullAccess =
     ''filesystem sandbox: none; network sandbox: none; env isolation: none''"
| "execution_boundary_summary External = ''execution boundary: provided outside ExAgent''"
| "execution_boundary_summary Managed = ''execution boundary: managed OS sandbox''"

definition parse_permission_profile_value :: "string \<Rightarrow> permission_profile option" where
  "parse_permission_profile_value value =
     (let v = to_ascii_lowercase (trim value) in
      if v = ''full_access'' then Some FullAccess
      else if v = ''external'' then Some External
      else if v = ''managed'' then Some Managed
      else None)"

datatype thinking_mode = ThAuto | ThOff | ThMinimal | ThLow | ThMedium | ThHigh | ThXHigh

fun thinking_mode_label :: "thinking_mode \<Rightarrow> string" where
  "thinking_mode_label ThAuto = ''auto''"
| "thinking_mode_label ThOff = ''off''"
| "thinking_mode_label ThMinimal = ''minimal''"
| "thinking_mode_label ThLow = ''low''"
| "thinking_mode_label ThMedium = ''medium''"
| "thinking_mode_label ThHigh = ''high''"
| "thinking_mode_label ThXHigh = ''x_high''"

definition parse_thinking_mode_value :: "string \<Rightarrow> thinking_mode option" where
  "parse_thinking_mode_value value =
     (let v = to_ascii_lowercase (trim value) in
      if v = ''auto'' then Some ThAuto
      else if v = ''off'' \<or> v = ''none'' then Some ThOff
      else if v = ''minimal'' then Some ThMinimal
      else if v = ''low'' then Some ThLow
      else if v = ''medium'' then Some ThMedium
      else if v = ''high'' then Some ThHigh
      else if v = ''xhigh'' \<or> v = ''extra_high'' \<or> v = ''extra-high'' then Some ThXHigh
      else None)"

definition parse_bool_value :: "string \<Rightarrow> bool option" where
  "parse_bool_value value =
     (let v = to_ascii_lowercase (trim value) in
      if v \<in> set [''1'', ''true'', ''yes'', ''on''] then Some True
      else if v \<in> set [''0'', ''false'', ''no'', ''off''] then Some False
      else None)"

text \<open>The modes are ordered as they are declared (\<^verbatim>\<open>derive(PartialOrd, Ord)\<close>).\<close>

fun thinking_rank :: "thinking_mode \<Rightarrow> nat" where
  "thinking_rank ThAuto = 0"
| "thinking_rank ThOff = 1"
| "thinking_rank ThMinimal = 2"
| "thinking_rank ThLow = 3"
| "thinking_rank ThMedium = 4"
| "thinking_rank ThHigh = 5"
| "thinking_rank ThXHigh = 6"

lemma thinking_rank_inj: "thinking_rank a = thinking_rank b \<longleftrightarrow> a = b"
  by (cases a; cases b) simp_all

instantiation thinking_mode :: linorder
begin

definition less_eq_thinking_mode :: "thinking_mode \<Rightarrow> thinking_mode \<Rightarrow> bool" where
  "less_eq_thinking_mode a b = (thinking_rank a \<le> thinking_rank b)"

definition less_thinking_mode :: "thinking_mode \<Rightarrow> thinking_mode \<Rightarrow> bool" where
  "less_thinking_mode a b = (thinking_rank a < thinking_rank b)"

instance
  by standard (auto simp: less_eq_thinking_mode_def less_thinking_mode_def thinking_rank_inj)

end

text \<open>\<^verbatim>\<open>AgentConfig::resolved_auto_compact_token_limit\<close>: the configured limit capped at
  ninety per cent of the context window (computed in 128 bits, truncating towards zero).\<close>

definition trunc_div :: "int \<Rightarrow> int \<Rightarrow> int" where
  "trunc_div a b = (let q = \<bar>a\<bar> div \<bar>b\<bar> in if (a < 0) = (b < 0) then q else - q)"

definition ninety_percent :: "int \<Rightarrow> int" where
  "ninety_percent v = min (trunc_div (v * 9) 10) i64_max"

fun resolved_auto_compact_token_limit :: "int option \<Rightarrow> int option \<Rightarrow> int option" where
  "resolved_auto_compact_token_limit configured window =
     (case (configured, map_option ninety_percent window) of
        (Some c, Some w) \<Rightarrow> Some (min c w)
      | (Some c, None) \<Rightarrow> Some c
      | (None, Some w) \<Rightarrow> Some w
      | (None, None) \<Rightarrow> None)"

datatype turn_mode = TurnDefault | TurnPlan

fun turn_mode_as_str :: "turn_mode \<Rightarrow> string" where
  "turn_mode_as_str TurnDefault = ''default''"
| "turn_mode_as_str TurnPlan = ''plan''"

definition turn_mode_is_default :: "turn_mode \<Rightarrow> bool" where
  "turn_mode_is_default m \<longleftrightarrow> m = TurnDefault"

datatype agent_type = Explorer | Planner | Reviewer | Worker | WorkflowResearch

fun agent_type_as_str :: "agent_type \<Rightarrow> string" where
  "agent_type_as_str Explorer = ''explorer''"
| "agent_type_as_str Planner = ''planner''"
| "agent_type_as_str Reviewer = ''reviewer''"
| "agent_type_as_str Worker = ''worker''"
| "agent_type_as_str WorkflowResearch = ''workflow_research''"

datatype policy_mode = PolicyOff | PolicyAdvisory | PolicyEnforced

fun policy_mode_as_str :: "policy_mode \<Rightarrow> string" where
  "policy_mode_as_str PolicyOff = ''off''"
| "policy_mode_as_str PolicyAdvisory = ''advisory''"
| "policy_mode_as_str PolicyEnforced = ''enforced''"

definition policy_mode_from_str :: "string \<Rightarrow> error + policy_mode" where
  "policy_mode_from_str value =
     (let v = to_ascii_lowercase (trim value) in
      if v = ''off'' then Inr PolicyOff
      else if v = ''advisory'' then Inr PolicyAdvisory
      else if v = ''enforced'' then Inr PolicyEnforced
      else Inl (Anyhow (''unsupported policy mode: '' @ v)))"

interpretation policy_mode_labels: label_parser policy_mode_as_str policy_mode_from_str
proof
  fix x show "policy_mode_from_str (policy_mode_as_str x) = Inr x"
    by (cases x; hypsubst; code_simp)
qed

section \<open>Session records\<close>

record model_ref =
  mr_provider_id :: string
  mr_model_id :: string

definition model_ref_display :: "model_ref \<Rightarrow> string" where
  "model_ref_display m = mr_provider_id m @ '':'' @ mr_model_id m"

record question_option =
  qo_label :: string
  qo_description :: "string option"

record question_prompt =
  qp_question :: string
  qp_header :: "string option"
  qp_options :: "question_option list"
  qp_multi_select :: bool

datatype exec_session_status = ExecRunning | ExecExited | ExecTerminated

datatype approval_status = ApprovalPending | ApprovalApproved | ApprovalDenied

datatype thread_source = SourceUser | SourceSubagent | SourceFork

record thread_lineage =
  ln_parent_thread_id :: thread_id
  ln_root_thread_id :: thread_id
  ln_depth :: nat
  ln_agent_path :: string
  ln_agent_type :: "agent_type option"
  ln_agent_role :: "string option"
  ln_agent_nickname :: "string option"
  ln_forked_from_id :: "thread_id option"

record exec_session_ref =
  es_exec_session_id :: string
  es_command :: string
  es_cwd :: string
  es_status :: exec_session_status

record compaction_summary =
  cs_summary :: string
  cs_source_event_ids :: "event_id list"

record pending_approval =
  pa_approval_id :: string
  pa_requested_event_id :: event_id
  pa_tool_name :: string
  pa_reason :: string
  pa_checkpoint_id :: "string option"
  pa_permission_profile :: permission_profile
  pa_filesystem_sandbox :: string
  pa_network_sandbox :: string
  pa_env_isolation :: string
  pa_status :: approval_status

record pending_user_input =
  pu_request_id :: string
  pu_requested_event_id :: event_id
  pu_tool_name :: string
  pu_questions :: "question_prompt list"
  pu_status :: approval_status

record turn_context_item =
  tc_turn_id :: turn_id
  tc_workspace_root :: string
  tc_cwd :: string
  tc_model :: model_ref
  tc_policy_mode :: policy_mode
  tc_permission_profile :: permission_profile
  tc_command_timeout_secs :: nat
  tc_max_output_bytes :: nat
  tc_turn_mode :: turn_mode
  tc_agent_type :: "agent_type option"
  tc_agent_profile_instructions :: "string option"
  tc_agent_response_guidance :: "string option"
  tc_agent_role :: "string option"
  tc_thinking_mode :: "thinking_mode option"
  tc_current_utc_date :: "string option"

record thread_snapshot =
  sn_thread_id :: thread_id
  sn_workspace_root :: string
  sn_cwd :: string
  sn_permission_profile :: permission_profile
  sn_thread_source :: thread_source
  sn_lineage :: "thread_lineage option"
  sn_reference_turn_context :: "turn_context_item option"
  sn_conversation :: "conversation_message list"
  sn_open_exec_sessions :: "exec_session_ref list"
  sn_latest_compaction :: "compaction_summary option"
  sn_token_info :: "token_usage_info option"
  sn_pending_approvals :: "pending_approval list"
  sn_pending_user_inputs :: "pending_user_input list"

definition new_thread_with_options ::
  "thread_id \<Rightarrow> string \<Rightarrow> string \<Rightarrow> permission_profile \<Rightarrow> thread_source \<Rightarrow>
   thread_lineage option \<Rightarrow> thread_snapshot" where
  "new_thread_with_options tid root cwd prof src lin =
     \<lparr>sn_thread_id = tid, sn_workspace_root = root, sn_cwd = cwd, sn_permission_profile = prof,
      sn_thread_source = src, sn_lineage = lin, sn_reference_turn_context = None,
      sn_conversation = [], sn_open_exec_sessions = [], sn_latest_compaction = None,
      sn_token_info = None, sn_pending_approvals = [], sn_pending_user_inputs = []\<rparr>"

definition new_thread :: "thread_id \<Rightarrow> string \<Rightarrow> string \<Rightarrow> thread_snapshot" where
  "new_thread tid root cwd = new_thread_with_options tid root cwd FullAccess SourceUser None"

text \<open>The text form of a model reference in old rollouts (\<open>deserialize_model_ref\<close>, the
  \<open>LegacyString\<close> case): \<open>provider:model\<close>, or a bare model of the provider \<open>openai\<close>.\<close>

fun split_once :: "char \<Rightarrow> string \<Rightarrow> (string \<times> string) option" where
  "split_once c [] = None"
| "split_once c (x # xs) = (if x = c then Some ([], xs)
     else map_option (\<lambda>(a, b). (x # a, b)) (split_once c xs))"

definition model_ref_from_legacy_string :: "string \<Rightarrow> error + model_ref" where
  "model_ref_from_legacy_string value0 =
     (let value = trim value0 in
      if value = [] then Inl (Anyhow ''turn context model cannot be empty'')
      else case split_once (CHR '':'') value of
        Some (p0, m0) \<Rightarrow>
          (let p = trim p0; m = trim m0 in
           if p = [] \<or> m = [] then Inl (Anyhow ''turn context model ref cannot be empty'')
           else Inr \<lparr>mr_provider_id = p, mr_model_id = m\<rparr>)
      | None \<Rightarrow> Inr \<lparr>mr_provider_id = ''openai'', mr_model_id = value\<rparr>)"

lemma split_once_sound:
  "split_once c s = Some (a, b) \<Longrightarrow> s = a @ c # b \<and> c \<notin> set a"
  by (induction s arbitrary: a b) (auto split: if_splits)

lemma split_once_append: "c \<notin> set a \<Longrightarrow> split_once c (a @ c # b) = Some (a, b)"
  by (induction a) auto

text \<open>A model reference printed by \<open>display\<close> is read back from a rollout that stored the
  text form, for trimmed, non-empty parts and a provider name without a colon.\<close>

theorem model_ref_display_roundtrip:
  assumes "trim (mr_provider_id m) = mr_provider_id m" "trim (mr_model_id m) = mr_model_id m"
    and "mr_provider_id m \<noteq> []" "mr_model_id m \<noteq> []" and "CHR '':'' \<notin> set (mr_provider_id m)"
    and "trim (model_ref_display m) = model_ref_display m"
  shows "model_ref_from_legacy_string (model_ref_display m) = Inr m"
proof -
  have "split_once (CHR '':'') (model_ref_display m) = Some (mr_provider_id m, mr_model_id m)"
    using split_once_append [OF assms(5), of "mr_model_id m"] by (simp add: model_ref_display_def)
  with assms show ?thesis
    by (simp add: model_ref_from_legacy_string_def Let_def) (simp add: model_ref_display_def)
qed

theorem model_ref_display_roundtrip_witness:
  "model_ref_from_legacy_string
     (model_ref_display \<lparr>mr_provider_id = ''openai'', mr_model_id = ''gpt-5''\<rparr>)
   = Inr \<lparr>mr_provider_id = ''openai'', mr_model_id = ''gpt-5''\<rparr>"
  by (rule model_ref_display_roundtrip) (code_simp+)

text \<open>The automatic compaction threshold never exceeds ninety per cent of a known context
  window nor the configured limit, and it is absent exactly when neither is known.\<close>

theorem auto_compact_limit_bounds:
  "(resolved_auto_compact_token_limit configured window = None
      \<longleftrightarrow> configured = None \<and> window = None)
   \<and> (case resolved_auto_compact_token_limit configured window of None \<Rightarrow> True
      | Some l \<Rightarrow> (case configured of None \<Rightarrow> True | Some c \<Rightarrow> l \<le> c)
          \<and> (case window of None \<Rightarrow> True | Some w \<Rightarrow> 10 * l \<le> max 0 (9 * w)))"
proof -
  have "10 * ninety_percent w \<le> max 0 (9 * w)" for w
  proof -
    have "10 * trunc_div (w * 9) 10 \<le> max 0 (9 * w)"
      by (cases "w < 0") (auto simp: trunc_div_def Let_def)
    then show ?thesis by (auto simp: ninety_percent_def)
  qed
  from this [of "the window"] show ?thesis
    by (cases configured; cases window) (auto simp: min_def le_max_iff_disj)
qed

end
