(* ===== verification/Protocol.thy ===== *)
theory Protocol
  imports Session
begin

text \<open>
  The part of \<^verbatim>\<open>src/app_server/protocol.rs\<close> that the runtime shares with the app server:
  thread goals, goal reports and workflow run views, with the validation of a goal objective.
\<close>

section \<open>Thread goals\<close>

datatype thread_goal_status =
  GsActive | GsPaused | GsBlocked | GsUsageLimited | GsBudgetLimited | GsComplete

datatype thread_goal_mode = ModeStandard | ModeReviewed | ModeIntensive

fun goal_mode_as_str :: "thread_goal_mode \<Rightarrow> string" where
  "goal_mode_as_str ModeStandard = ''standard''"
| "goal_mode_as_str ModeReviewed = ''reviewed''"
| "goal_mode_as_str ModeIntensive = ''intensive''"

fun is_review_gated :: "thread_goal_mode \<Rightarrow> bool" where
  "is_review_gated ModeStandard = False"
| "is_review_gated ModeReviewed = True"
| "is_review_gated ModeIntensive = True"

fun is_intensive :: "thread_goal_mode \<Rightarrow> bool" where
  "is_intensive ModeIntensive = True"
| "is_intensive _ = False"

definition goal_mode_from_bool :: "bool \<Rightarrow> thread_goal_mode" where
  "goal_mode_from_bool intensive = (if intensive then ModeIntensive else ModeStandard)"

record report_open_question =
  roq_question_id :: string
  roq_question :: string
  roq_blocks_what :: string

datatype goal_review_status = GrPending | GrApproved | GrRejected

datatype goal_review_reject_category = GcRetriableGap | GcNeedsUser | GcExternalBlocker

record goal_review_summary =
  grs_ticket_id :: string
  grs_status :: goal_review_status
  grs_reviewed_hash :: "string option"
  grs_reject_category :: "goal_review_reject_category option"
  grs_findings :: "string option"

record thread_goal_report =
  gr_goal_id :: string
  gr_objective :: string
  gr_final_status :: thread_goal_status
  gr_turns_run :: int
  gr_tokens_used :: int
  gr_token_budget :: "int option"
  gr_time_used_seconds :: int
  gr_changed_files :: "string list"
  gr_pending_approvals_count :: nat
  gr_open_questions :: "report_open_question list"
  gr_review_summary :: "goal_review_summary option"
  gr_summary :: string

record thread_goal =
  tg_thread_id :: thread_id
  tg_goal_id :: string
  tg_objective :: string
  tg_status :: thread_goal_status
  tg_token_budget :: "int option"
  tg_tokens_used :: int
  tg_time_used_seconds :: int
  tg_continuation_suppressed :: bool
  tg_continuation_suppressed_after_turn_id :: "turn_id option"
  tg_created_at_ms :: int
  tg_updated_at_ms :: int

definition max_thread_goal_objective_chars :: nat where
  "max_thread_goal_objective_chars = 4000"

definition validate_thread_goal_objective :: "string \<Rightarrow> error + unit" where
  "validate_thread_goal_objective value =
     (let trimmed = trim value in
      if trimmed = [] then Inl (Anyhow ''goal objective must not be empty'')
      else if length (utf8_chars trimmed) > max_thread_goal_objective_chars
      then Inl (Anyhow (''goal objective must be at most '' @
             show_nat max_thread_goal_objective_chars @ '' characters''))
      else Inr ())"

section \<open>Workflow run views\<close>

datatype workflow_template_id = DeepResearch

datatype workflow_preset_id = PresetQuick | PresetStandard | PresetDeep

datatype workflow_run_status =
  WrQueued | WrRunning | WrWaitingApproval | WrCompleted | WrFailed | WrCancelled

datatype workflow_phase_status =
    WpPending | WpRunning | WpWaitingApproval | WpCompleted | WpFailed | WpSkipped | WpCancelled

datatype workflow_stop_reason = TokenBudgetExceeded | RuntimeExceeded

record workflow_phase_view =
  wp_id :: string
  wp_label :: string
  wp_status :: workflow_phase_status
  wp_planned_count :: nat
  wp_completed_count :: nat
  wp_failed_count :: nat
  wp_skipped_count :: nat
  wp_started_at_ms :: "int option"
  wp_updated_at_ms :: int
  wp_completed_at_ms :: "int option"

record workflow_artifact_summary =
  wa_id :: string
  wa_label :: string
  wa_status :: "string option"
  wa_created_at_ms :: int
  wa_updated_at_ms :: int

record workflow_stats =
  ws_agent_calls :: nat
  ws_failed_agent_calls :: nat
  ws_skipped_agent_calls :: nat
  ws_total_artifacts :: nat
  ws_tokens_used :: "int option"
  ws_elapsed_ms :: int
  ws_template_stats :: json

record workflow_run_view =
  wr_run_id :: string
  wr_thread_id :: thread_id
  wr_template_id :: workflow_template_id
  wr_preset_id :: workflow_preset_id
  wr_label :: string
  wr_status :: workflow_run_status
  wr_phases :: "workflow_phase_view list"
  wr_artifacts :: "workflow_artifact_summary list"
  wr_stats :: workflow_stats
  wr_report_summary :: "string option"
  wr_stop_reason :: "workflow_stop_reason option"
  wr_created_at_ms :: int
  wr_updated_at_ms :: int
  wr_started_at_ms :: "int option"
  wr_completed_at_ms :: "int option"

end
