(* ===== verification/Events.thy ===== *)
theory Events
  imports Protocol
begin

text \<open>
  Runtime events (\<^verbatim>\<open>src/state/events.rs\<close>): the event kinds with their payloads and the
  redaction of an event before it crosses the public boundary.
\<close>

record approval_command_payload =
  ac_command :: string
  ac_cwd :: string
  ac_timeout_secs :: "nat option"
  ac_persistent :: bool

datatype exec_output_stream = Stdout | Stderr

datatype review_verdict_event = EvApprove | EvReject

datatype review_reject_category_event = EvRetriableGap | EvNeedsUser | EvExternalBlocker

text \<open>
  The constructors of \<^verbatim>\<open>RuntimeEventKind\<close>, in the order of the source, with their fields in
  the order of the source.
\<close>

datatype (plugins only: code size) runtime_event_kind =
    EkTurnStarted
  | EkTurnCompleted
  | EkTurnInterrupted
  | EkAssistantTurn assistant_turn
  | EkAssistantTextDelta string
  | EkReasoning "string list" "string list"
  | EkReasoningDelta string
  | EkToolResult tool_result
  | EkToolInvocationStarted string string string bool
  | EkToolInvocationWaitingApproval string string string
  | EkToolInvocationWaitingUserInput string string string
  | EkToolInvocationOutputDelta string exec_output_stream string nat
  | EkToolInvocationCompleted string string string tool_status
  | EkToolInvocationFailed string string string string
  | EkToolInvocationCancelled string string string string
  | EkExecOutput string exec_output_stream string nat
  | EkApprovalRequested string string string "string option" permission_profile string string string
      "approval_command_payload option"
  | EkApprovalDecision string approval_status "string option"
  | EkUserInputRequested string string "question_prompt list"
  | EkUserInputResolved string bool
  | EkCompactionWritten compaction_summary
  | EkSubagentSpawned string string thread_id thread_id string string
  | EkSubagentClosed string string thread_id thread_id string
  | EkInterAgentMessageSent string string thread_id thread_id string string string bool
      "turn_id option"
  | EkTokenCount "token_usage_info option"
  | EkThreadGoalUpdated thread_goal
  | EkThreadGoalModeUpdated thread_id string thread_goal_mode
  | EkThreadGoalCleared thread_id
  | EkThreadGoalContinuationStarted string
  | EkThreadGoalContinuationSuppressed string string
  | EkThreadGoalTurnStarted string
  | EkThreadGoalToolCompleted string "string list"
  | EkReviewSubmitted string string review_verdict_event "string option"
      "review_reject_category_event option" "string option" "string option"
  | EkOpenQuestionRecorded string string string string
  | EkOpenQuestionResolved string string "string option"
  | EkThreadGoalReport thread_goal_report
  | EkWorkflowStarted string workflow_template_id workflow_preset_id string
  | EkWorkflowPhaseStarted string string string nat
  | EkWorkflowPhaseUpdated string workflow_phase_view
  | EkWorkflowArtifactRecorded string workflow_artifact_summary
  | EkWorkflowCompleted string workflow_run_status workflow_stats
  | EkRuntimeError string

record runtime_event =
  ev_event_id :: event_id
  ev_thread_id :: thread_id
  ev_turn_id :: "turn_id option"
  ev_kind :: runtime_event_kind

definition redact_runtime_event_kind :: "runtime_event_kind \<Rightarrow> runtime_event_kind" where
  "redact_runtime_event_kind kind =
     (case kind of
        EkAssistantTurn turn \<Rightarrow>
          EkAssistantTurn (turn\<lparr>at_reasoning := [],
            at_tool_calls := map (\<lambda>c. c\<lparr>tc_thought_signature := None\<rparr>) (at_tool_calls turn)\<rparr>)
      | other \<Rightarrow> other)"

definition redact_runtime_event :: "runtime_event \<Rightarrow> runtime_event" where
  "redact_runtime_event e = e\<lparr>ev_kind := redact_runtime_event_kind (ev_kind e)\<rparr>"

definition redact_runtime_events :: "runtime_event list \<Rightarrow> runtime_event list" where
  "redact_runtime_events es = map redact_runtime_event es"

text \<open>What may not leave the process: reasoning text and the signatures of provider thoughts of
  an assistant turn.\<close>

definition carries_private_reasoning :: "runtime_event \<Rightarrow> bool" where
  "carries_private_reasoning e =
     (case ev_kind e of
        EkAssistantTurn turn \<Rightarrow> at_reasoning turn \<noteq> []
          \<or> list_ex (\<lambda>c. tc_thought_signature c \<noteq> None) (at_tool_calls turn)
      | _ \<Rightarrow> False)"

lemma redact_runtime_event_kind_idem:
  "redact_runtime_event_kind (redact_runtime_event_kind k) = redact_runtime_event_kind k"
  by (cases k) (simp_all add: redact_runtime_event_kind_def)

text \<open>Redaction at the public boundary removes the private reasoning of every event and
  nothing else: identifiers, text and tool calls (name, arguments) are kept, events that carry
  none are unchanged, and redacting twice is redacting once.\<close>

theorem redaction_sound:
  "list_all (\<lambda>e. \<not> carries_private_reasoning e) (redact_runtime_events es)
   \<and> map (\<lambda>e. (ev_event_id e, ev_thread_id e, ev_turn_id e)) (redact_runtime_events es)
     = map (\<lambda>e. (ev_event_id e, ev_thread_id e, ev_turn_id e)) es
   \<and> (list_all (\<lambda>e. \<not> carries_private_reasoning e) es = (redact_runtime_events es = es))
   \<and> redact_runtime_events (redact_runtime_events es) = redact_runtime_events es"
proof -
  have clean: "\<not> carries_private_reasoning (redact_runtime_event e)" for e
    by (cases "ev_kind e")
      (simp_all add: carries_private_reasoning_def redact_runtime_event_def
        redact_runtime_event_kind_def list_ex_iff)
  have keep: "redact_runtime_event e = e" if "\<not> carries_private_reasoning e" for e
  proof (cases "ev_kind e")
    case (EkAssistantTurn turn)
    with that have r: "at_reasoning turn = []"
      and c: "\<forall>c \<in> set (at_tool_calls turn). c\<lparr>tc_thought_signature := None\<rparr> = c"
      by (auto simp: carries_private_reasoning_def list_ex_iff)
    then have "map (\<lambda>c. c\<lparr>tc_thought_signature := None\<rparr>) (at_tool_calls turn) = at_tool_calls turn"
      by (simp add: map_idI)
    with r EkAssistantTurn show ?thesis
      by (simp add: redact_runtime_event_def redact_runtime_event_kind_def)
  qed (simp_all add: redact_runtime_event_def redact_runtime_event_kind_def)
  have iff: "list_all (\<lambda>e. \<not> carries_private_reasoning e) es = (redact_runtime_events es = es)"
    using clean keep
    by (induction es) (auto simp: redact_runtime_events_def, metis)
  show ?thesis
    using clean iff
    by (simp add: redact_runtime_events_def list_all_iff redact_runtime_event_def
        redact_runtime_event_kind_idem)
qed

end
