(* ===== verification/Rollout.thy ===== *)
theory Rollout
  imports Events
begin

text \<open>
  The append-only rollout ledger of a thread (\<^verbatim>\<open>src/state/rollout.rs\<close>): its items, the
  replay of a ledger into a thread snapshot, the persistence filter and the JSON-lines file.
  Printing and parsing one item is the \<^verbatim>\<open>serde_json\<close> package, a pair of parameters here; a
  file is its text, \<^term>\<open>None\<close> when it does not exist.
\<close>

section \<open>Items\<close>

record response_item =
  ri_turn_id :: turn_id
  ri_message :: conversation_message

record thread_meta =
  me_thread_id :: thread_id
  me_workspace_root :: string
  me_initial_cwd :: string
  me_permission_profile :: permission_profile
  me_thread_source :: thread_source
  me_lineage :: "thread_lineage option"
  me_created_at :: string

record compacted_item =
  ci_message :: string
  ci_replacement_history :: "conversation_message list option"

datatype rollout_item =
    ThreadMeta thread_meta
  | ResponseItem response_item
  | TurnContext turn_context_item
  | Compacted compacted_item
  | EventMsg runtime_event
  | WorkflowRun workflow_run_view

definition response_item_for_turn :: "turn_id \<Rightarrow> conversation_message \<Rightarrow> response_item" where
  "response_item_for_turn t m = \<lparr>ri_turn_id = t, ri_message = m\<rparr>"

definition thread_meta_from_snapshot :: "string \<Rightarrow> thread_snapshot \<Rightarrow> thread_meta" where
  "thread_meta_from_snapshot now sn =
     \<lparr>me_thread_id = sn_thread_id sn, me_workspace_root = sn_workspace_root sn,
      me_initial_cwd = sn_cwd sn, me_permission_profile = sn_permission_profile sn,
      me_thread_source = sn_thread_source sn, me_lineage = sn_lineage sn, me_created_at = now\<rparr>"

section \<open>Workflow summaries\<close>

fun workflow_run_status_label :: "workflow_run_status \<Rightarrow> string" where
  "workflow_run_status_label WrQueued = ''queued''"
| "workflow_run_status_label WrRunning = ''running''"
| "workflow_run_status_label WrWaitingApproval = ''waiting for approval''"
| "workflow_run_status_label WrCompleted = ''completed''"
| "workflow_run_status_label WrFailed = ''failed''"
| "workflow_run_status_label WrCancelled = ''cancelled''"

definition workflow_run_message :: "workflow_run_view \<Rightarrow> conversation_message" where
  "workflow_run_message run =
     (let content0 = ''Workflow '' @ workflow_run_status_label (wr_status run) @ '': '' @ wr_label run;
          content = (case wr_report_summary run of None \<Rightarrow> content0
            | Some s0 \<Rightarrow> (let s = trim s0 in if s = [] then content0 else content0 @ nl @ nl @ s))
      in (msg_assistant (Some content) [])\<lparr>cm_internal_source := Some ''workflow_run''\<rparr>)"

definition workflow_run_turn_id :: "workflow_run_view \<Rightarrow> turn_id" where
  "workflow_run_turn_id run = ''workflow_summary_'' @ wr_run_id run"

definition workflow_run_response_item :: "workflow_run_view \<Rightarrow> response_item" where
  "workflow_run_response_item run =
     response_item_for_turn (workflow_run_turn_id run) (workflow_run_message run)"

section \<open>Replay into a snapshot\<close>

record replay_state =
  rp_conversation :: "conversation_message list"
  rp_reference :: "turn_context_item option"
  rp_compaction :: "compaction_summary option"
  rp_token_info :: "token_usage_info option"
  rp_indexes :: "string \<rightharpoonup> nat"

definition replay_init :: replay_state where
  "replay_init = \<lparr>rp_conversation = [], rp_reference = None, rp_compaction = None,
     rp_token_info = None, rp_indexes = Map.empty\<rparr>"

definition replay_step :: "replay_state \<Rightarrow> rollout_item \<Rightarrow> replay_state" where
  "replay_step st item =
     (case item of
        ResponseItem r \<Rightarrow> st\<lparr>rp_conversation := rp_conversation st @ [ri_message r]\<rparr>
      | TurnContext c \<Rightarrow> st\<lparr>rp_reference := Some c\<rparr>
      | Compacted c \<Rightarrow>
          (let st1 = st\<lparr>rp_compaction :=
                 Some \<lparr>cs_summary = ci_message c, cs_source_event_ids = []\<rparr>\<rparr>
           in case ci_replacement_history c of None \<Rightarrow> st1
              | Some h \<Rightarrow> st1\<lparr>rp_conversation := h, rp_token_info := None,
                           rp_indexes := Map.empty\<rparr>)
      | EventMsg e \<Rightarrow>
          (case ev_kind e of EkTokenCount info \<Rightarrow> st\<lparr>rp_token_info := info\<rparr> | _ \<Rightarrow> st)
      | ThreadMeta _ \<Rightarrow> st
      | WorkflowRun run \<Rightarrow>
          (case rp_indexes st (wr_run_id run) of
             Some i \<Rightarrow> st\<lparr>rp_conversation := (rp_conversation st)[i := workflow_run_message run]\<rparr>
           | None \<Rightarrow> st\<lparr>rp_indexes :=
                        (rp_indexes st)(wr_run_id run \<mapsto> length (rp_conversation st)),
                      rp_conversation := rp_conversation st @ [workflow_run_message run]\<rparr>))"

definition replay :: "rollout_item list \<Rightarrow> replay_state" where
  "replay items = foldl replay_step replay_init items"

fun find_meta :: "rollout_item list \<Rightarrow> thread_meta option" where
  "find_meta [] = None"
| "find_meta (ThreadMeta m # _) = Some m"
| "find_meta (_ # items) = find_meta items"

definition snapshot_from_rollout_items ::
  "thread_id \<Rightarrow> rollout_item list \<Rightarrow> error + thread_snapshot" where
  "snapshot_from_rollout_items requested items =
     (case find_meta items of
        None \<Rightarrow> Inl (Anyhow ''rollout is missing ThreadMeta'')
      | Some meta \<Rightarrow>
          if me_thread_id meta \<noteq> requested
          then Inl (Anyhow (''rollout thread id '' @ me_thread_id meta @
                 '' does not match requested thread id '' @ requested))
          else (let st = replay items in
            Inr \<lparr>sn_thread_id = me_thread_id meta, sn_workspace_root = me_workspace_root meta,
                 sn_cwd = me_initial_cwd meta,
                 sn_permission_profile = me_permission_profile meta,
                 sn_thread_source = me_thread_source meta, sn_lineage = me_lineage meta,
                 sn_reference_turn_context = rp_reference st,
                 sn_conversation = rp_conversation st, sn_open_exec_sessions = [],
                 sn_latest_compaction = rp_compaction st, sn_token_info = rp_token_info st,
                 sn_pending_approvals = [], sn_pending_user_inputs = []\<rparr>))"

section \<open>Other projections\<close>

definition events_from_rollout_items :: "rollout_item list \<Rightarrow> runtime_event list" where
  "events_from_rollout_items items =
     List.map_filter (\<lambda>i. case i of EventMsg e \<Rightarrow> Some e | _ \<Rightarrow> None) items"

definition resp_step ::
  "response_item list \<times> (string \<rightharpoonup> nat) \<Rightarrow> rollout_item \<Rightarrow> response_item list \<times> (string \<rightharpoonup> nat)" where
  "resp_step acc item =
     (case acc of (rs, ix) \<Rightarrow>
       (case item of
          ResponseItem r \<Rightarrow> (rs @ [r], ix)
        | WorkflowRun run \<Rightarrow>
            (case ix (wr_run_id run) of
               Some i \<Rightarrow> (rs[i := workflow_run_response_item run], ix)
             | None \<Rightarrow> (rs @ [workflow_run_response_item run],
                        ix(wr_run_id run \<mapsto> length rs)))
        | _ \<Rightarrow> (rs, ix)))"

definition response_items_from_rollout_items :: "rollout_item list \<Rightarrow> response_item list" where
  "response_items_from_rollout_items items = fst (foldl resp_step ([], Map.empty) items)"

fun latest_run_rev :: "string \<Rightarrow> rollout_item list \<Rightarrow> workflow_run_view option" where
  "latest_run_rev rid [] = None"
| "latest_run_rev rid (WorkflowRun run # items) =
     (if wr_run_id run = rid then Some run else latest_run_rev rid items)"
| "latest_run_rev rid (_ # items) = latest_run_rev rid items"

definition latest_workflow_run_from_rollout_items ::
  "rollout_item list \<Rightarrow> string \<Rightarrow> workflow_run_view option" where
  "latest_workflow_run_from_rollout_items items rid = latest_run_rev rid (rev items)"

section \<open>The persistence filter and the ledger file\<close>

definition should_persist_event :: "runtime_event \<Rightarrow> bool" where
  "should_persist_event e =
     (case ev_kind e of
        EkTurnStarted \<Rightarrow> True
      | EkTurnCompleted \<Rightarrow> True
      | EkTurnInterrupted \<Rightarrow> True
      | EkReasoning _ _ \<Rightarrow> True
      | EkRuntimeError _ \<Rightarrow> True
      | EkToolResult _ \<Rightarrow> True
      | EkToolInvocationStarted _ _ _ _ \<Rightarrow> True
      | EkToolInvocationWaitingApproval _ _ _ \<Rightarrow> True
      | EkToolInvocationWaitingUserInput _ _ _ \<Rightarrow> True
      | EkToolInvocationCompleted _ _ _ _ \<Rightarrow> True
      | EkToolInvocationFailed _ _ _ _ \<Rightarrow> True
      | EkToolInvocationCancelled _ _ _ _ \<Rightarrow> True
      | EkApprovalRequested _ _ _ _ _ _ _ _ _ \<Rightarrow> True
      | EkApprovalDecision _ _ _ \<Rightarrow> True
      | EkUserInputRequested _ _ _ \<Rightarrow> True
      | EkUserInputResolved _ _ \<Rightarrow> True
      | EkSubagentSpawned _ _ _ _ _ _ \<Rightarrow> True
      | EkSubagentClosed _ _ _ _ _ \<Rightarrow> True
      | EkInterAgentMessageSent _ _ _ _ _ _ _ _ _ \<Rightarrow> True
      | EkTokenCount _ \<Rightarrow> True
      | EkThreadGoalModeUpdated _ _ _ \<Rightarrow> True
      | EkThreadGoalTurnStarted _ \<Rightarrow> True
      | EkThreadGoalToolCompleted _ _ \<Rightarrow> True
      | EkReviewSubmitted _ _ _ _ _ _ _ \<Rightarrow> True
      | EkOpenQuestionRecorded _ _ _ _ \<Rightarrow> True
      | EkOpenQuestionResolved _ _ _ \<Rightarrow> True
      | EkThreadGoalReport _ \<Rightarrow> True
      | EkWorkflowStarted _ _ _ _ \<Rightarrow> True
      | EkWorkflowPhaseStarted _ _ _ _ \<Rightarrow> True
      | EkWorkflowPhaseUpdated _ _ \<Rightarrow> True
      | EkWorkflowArtifactRecorded _ _ \<Rightarrow> True
      | EkWorkflowCompleted _ _ _ \<Rightarrow> True
      | _ \<Rightarrow> False)"

definition should_persist_rollout_item :: "rollout_item \<Rightarrow> bool" where
  "should_persist_rollout_item item =
     (case item of EventMsg e \<Rightarrow> should_persist_event e | _ \<Rightarrow> True)"

text \<open>
  \<^verbatim>\<open>str::lines\<close>: lines end at a line feed, whose preceding carriage return is dropped too;
  text after the last line feed is a line when it is not empty.
\<close>

definition strip_cr :: "string \<Rightarrow> string" where
  "strip_cr s = (if s \<noteq> [] \<and> last s = CHR 0x0D then butlast s else s)"

function text_lines :: "string \<Rightarrow> string list" where
  "text_lines [] = []"
| "text_lines (c # cs) =
     (case dropWhile (\<lambda>x. x \<noteq> CHR 0x0A) (c # cs) of
        [] \<Rightarrow> [c # cs]
      | _ # rest \<Rightarrow> strip_cr (takeWhile (\<lambda>x. x \<noteq> CHR 0x0A) (c # cs)) # text_lines rest)"
  by pat_completeness auto
termination
proof (relation "measure length", simp)
  fix c cs x rest
  assume "dropWhile (\<lambda>x. x \<noteq> CHR 0x0A) (c # cs) = x # rest"
  then have "length (x # rest) \<le> length (c # cs)"
    by (metis length_dropWhile_le)
  then show "(rest, c # cs) \<in> measure length" by simp
qed

fun print_all :: "('i \<Rightarrow> error + string) \<Rightarrow> 'i list \<Rightarrow> error + string" where
  "print_all pr [] = Inr []"
| "print_all pr (x # xs) =
     bind_res (pr x) (\<lambda>line. bind_res (print_all pr xs) (\<lambda>t. Inr (line @ nl @ t)))"

text \<open>\<open>append_items\<close> builds the whole text first and writes it once.\<close>

definition append_items ::
  "(rollout_item \<Rightarrow> error + string) \<Rightarrow> string option \<Rightarrow> rollout_item list \<Rightarrow>
   string option \<times> (error + unit)" where
  "append_items pr file items0 =
     (let items = filter should_persist_rollout_item items0 in
      if items = [] then (file, Inr ())
      else case print_all pr items of
        Inl e \<Rightarrow> (file, Inl e)
      | Inr t \<Rightarrow> (Some (case_option [] id file @ t), Inr ()))"

text \<open>\<open>append_items_blocking\<close> opens the file first and writes one line per item.\<close>

fun write_lines ::
  "('i \<Rightarrow> error + string) \<Rightarrow> string \<Rightarrow> 'i list \<Rightarrow> string \<times> (error + unit)" where
  "write_lines pr t [] = (t, Inr ())"
| "write_lines pr t (x # xs) =
     (case pr x of Inl e \<Rightarrow> (t, Inl e) | Inr line \<Rightarrow> write_lines pr (t @ line @ nl) xs)"

definition append_items_blocking ::
  "(rollout_item \<Rightarrow> error + string) \<Rightarrow> string option \<Rightarrow> rollout_item list \<Rightarrow>
   string option \<times> (error + unit)" where
  "append_items_blocking pr file items0 =
     (let items = filter should_persist_rollout_item items0 in
      if items = [] then (file, Inr ())
      else case write_lines pr (case_option [] id file) items of (t, r) \<Rightarrow> (Some t, r))"

fun parse_lines :: "(string \<Rightarrow> error + 'i) \<Rightarrow> string list \<Rightarrow> error + 'i list" where
  "parse_lines ps [] = Inr []"
| "parse_lines ps (l # ls) =
     bind_res (ps l) (\<lambda>x. bind_res (parse_lines ps ls) (\<lambda>xs. Inr (x # xs)))"

definition content_lines :: "string \<Rightarrow> string list" where
  "content_lines t = filter (\<lambda>l. trim l \<noteq> []) (text_lines t)"

definition read_items :: "(string \<Rightarrow> error + rollout_item) \<Rightarrow> string option \<Rightarrow> error + rollout_item list"
  where
  "read_items ps file =
     (case file of None \<Rightarrow> Inr [] | Some t \<Rightarrow> parse_lines ps (content_lines t))"

text \<open>\<open>read_items_from_index\<close> counts the lines before \<open>start\<close> without parsing them.\<close>

fun read_from ::
  "(string \<Rightarrow> error + 'i) \<Rightarrow> nat \<Rightarrow> string list \<Rightarrow> 'i list \<Rightarrow> nat \<Rightarrow> error + 'i list \<times> nat" where
  "read_from ps start [] acc k = Inr (acc, k)"
| "read_from ps start (l # ls) acc k =
     (if trim l = [] then read_from ps start ls acc k
      else if start \<le> k
      then bind_res (ps l) (\<lambda>x. read_from ps start ls (acc @ [x]) (k + 1))
      else read_from ps start ls acc (k + 1))"

definition read_items_from_index ::
  "(string \<Rightarrow> error + rollout_item) \<Rightarrow> string option \<Rightarrow> nat \<Rightarrow> error + rollout_item list \<times> nat"
  where
  "read_items_from_index ps file start =
     (case file of None \<Rightarrow> Inr ([], 0) | Some t \<Rightarrow> read_from ps start (text_lines t) [] 0)"

section \<open>Lemmas on replay\<close>

definition replaces_history :: "rollout_item \<Rightarrow> bool" where
  "replaces_history item =
     (case item of Compacted c \<Rightarrow> ci_replacement_history c \<noteq> None | _ \<Rightarrow> False)"

lemma replay_snoc: "replay (items @ [x]) = replay_step (replay items) x"
  by (simp add: replay_def)

lemma latest_run_snoc:
  "latest_workflow_run_from_rollout_items (items @ [x]) rid =
     (case x of WorkflowRun run \<Rightarrow>
        if wr_run_id run = rid then Some run else latest_workflow_run_from_rollout_items items rid
      | _ \<Rightarrow> latest_workflow_run_from_rollout_items items rid)"
  by (cases x) (simp_all add: latest_workflow_run_from_rollout_items_def)

definition indexes_ok :: "rollout_item list \<Rightarrow> replay_state \<Rightarrow> bool" where
  "indexes_ok items st \<longleftrightarrow> inj_on (rp_indexes st) (dom (rp_indexes st))
     \<and> (\<forall>rid i. rp_indexes st rid = Some i \<longrightarrow> i < length (rp_conversation st)
         \<and> (\<exists>run. latest_workflow_run_from_rollout_items items rid = Some run
               \<and> rp_conversation st ! i = workflow_run_message run))"

lemma replay_indexes_ok: "indexes_ok items (replay items)"
proof (induction items rule: rev_induct)
  case Nil
  then show ?case by (simp add: indexes_ok_def replay_def replay_init_def)
next
  case (snoc x items)
  let ?st = "replay items"
  have inj: "inj_on (rp_indexes ?st) (dom (rp_indexes ?st))" using snoc by (simp add: indexes_ok_def)
  have idx: "i < length (rp_conversation ?st) \<and>
      (\<exists>run. latest_workflow_run_from_rollout_items items rid = Some run
         \<and> rp_conversation ?st ! i = workflow_run_message run)"
    if "rp_indexes ?st rid = Some i" for rid i
    using snoc that by (simp add: indexes_ok_def)
  show ?case
  proof (cases x)
    case (WorkflowRun run)
    show ?thesis
    proof (cases "rp_indexes ?st (wr_run_id run)")
      case None
      with inj idx WorkflowRun show ?thesis
        by (fastforce simp: indexes_ok_def replay_snoc replay_step_def latest_run_snoc nth_append
            inj_on_def dom_def)
    next
      case (Some k)
      then have k: "k < length (rp_conversation ?st)" using idx by blast
      have uniq: "rid = wr_run_id run" if "rp_indexes ?st rid = Some k" for rid
        using inj_onD [OF inj, of rid "wr_run_id run"] that Some by auto
      have step: "replay (items @ [x]) =
          ?st\<lparr>rp_conversation := (rp_conversation ?st)[k := workflow_run_message run]\<rparr>"
        using Some WorkflowRun by (simp add: replay_snoc replay_step_def)
      have "i < length (rp_conversation ?st) \<and>
          (\<exists>run'. latest_workflow_run_from_rollout_items (items @ [x]) rid = Some run'
             \<and> (rp_conversation ?st)[k := workflow_run_message run] ! i = workflow_run_message run')"
        if i: "rp_indexes ?st rid = Some i" for rid i
      proof (cases "rid = wr_run_id run")
        case True
        with i Some k WorkflowRun show ?thesis by (simp add: latest_run_snoc)
      next
        case False
        with uniq i have "i \<noteq> k" by blast
        with False idx [OF i] WorkflowRun show ?thesis by (auto simp: latest_run_snoc)
      qed
      with inj step show ?thesis by (simp add: indexes_ok_def)
    qed
  next
    case (ResponseItem r)
    with inj idx show ?thesis
      by (fastforce simp: indexes_ok_def replay_snoc replay_step_def latest_run_snoc nth_append)
  next
    case (Compacted c)
    with inj idx show ?thesis
      by (cases "ci_replacement_history c")
        (auto simp: indexes_ok_def replay_snoc replay_step_def latest_run_snoc Let_def)
  next
    case (EventMsg e)
    with inj idx show ?thesis
      by (cases "ev_kind e")
        (auto simp: indexes_ok_def replay_snoc replay_step_def latest_run_snoc)
  qed (use inj idx in \<open>auto simp: indexes_ok_def replay_snoc replay_step_def latest_run_snoc\<close>)
qed

text \<open>The two replays run in step: the conversation of the snapshot is the history kept by the
  last compaction followed by the messages of the response items that came after it.\<close>

definition replays_agree ::
  "conversation_message list \<Rightarrow> replay_state \<Rightarrow> response_item list \<times> (string \<rightharpoonup> nat) \<Rightarrow> bool" where
  "replays_agree h st acc \<longleftrightarrow>
     rp_conversation st = h @ map ri_message (fst acc)
     \<and> rp_indexes st = (\<lambda>r. map_option (\<lambda>i. length h + i) (snd acc r))
     \<and> (\<forall>r i. snd acc r = Some i \<longrightarrow> i < length (fst acc))"

lemma replays_agree_step:
  assumes "replays_agree h st acc" "\<not> replaces_history x"
  shows "replays_agree h (replay_step st x) (resp_step acc x)"
proof (cases acc)
  case (Pair rs ix)
  show ?thesis
  proof (cases x)
    case (WorkflowRun run)
    with assms Pair show ?thesis
      by (cases "ix (wr_run_id run)")
        (auto simp: replays_agree_def replay_step_def resp_step_def workflow_run_response_item_def
          response_item_for_turn_def list_update_append map_update fun_eq_iff less_SucI
          split: if_splits)
  next
    case (EventMsg e)
    with assms Pair show ?thesis
      by (cases "ev_kind e") (auto simp: replays_agree_def replay_step_def resp_step_def)
  next
    case (Compacted c)
    with assms Pair show ?thesis
      by (cases "ci_replacement_history c")
        (auto simp: replays_agree_def replay_step_def resp_step_def replaces_history_def Let_def)
  qed (use assms Pair in \<open>auto simp: replays_agree_def replay_step_def resp_step_def less_SucI\<close>)
qed

lemma replays_agree_foldl:
  "replays_agree h st acc \<Longrightarrow> list_all (\<lambda>x. \<not> replaces_history x) items \<Longrightarrow>
     replays_agree h (foldl replay_step st items) (foldl resp_step acc items)"
proof (induction items arbitrary: st acc)
  case Nil
  then show ?case by simp
next
  case (Cons x items)
  then have "replays_agree h (replay_step st x) (resp_step acc x)"
    by (simp add: replays_agree_step)
  with Cons show ?case by simp
qed

section \<open>Lemmas on the ledger file\<close>

lemma text_lines_append:
  assumes "CHR 0x0A \<notin> set l" "l = [] \<or> last l \<noteq> CHR 0x0D"
  shows "text_lines (l @ nl @ t) = l # text_lines t"
proof -
  have dw: "dropWhile (\<lambda>x. x \<noteq> CHR 0x0A) (l @ nl @ t) = nl @ t"
    using assms(1) by (subst dropWhile_append2) (auto simp: nl_def)
  have tw: "takeWhile (\<lambda>x. x \<noteq> CHR 0x0A) (l @ nl @ t) = l"
    using assms(1) by (subst takeWhile_append2) (auto simp: nl_def)
  obtain c cs where eq: "l @ nl @ t = c # cs" by (cases "l @ nl @ t") (simp_all add: nl_def)
  have "strip_cr l = l" using assms(2) by (auto simp: strip_cr_def)
  then show ?thesis using dw tw unfolding eq by (simp add: nl_def)
qed

definition prints_lines ::
  "('i \<Rightarrow> error + string) \<Rightarrow> (string \<Rightarrow> error + 'i) \<Rightarrow> 'i \<Rightarrow> bool" where
  "prints_lines pr ps x \<longleftrightarrow>
     (\<exists>l. pr x = Inr l \<and> ps l = Inr x \<and> CHR 0x0A \<notin> set l \<and> last l \<noteq> CHR 0x0D \<and> trim l \<noteq> [])"

lemma trim_Nil [simp]: "trim [] = []"
  by (simp add: trim_def trim_start_def trim_end_def)

lemma print_all_lines:
  "list_all (prints_lines pr ps) xs \<Longrightarrow>
     \<exists>t. print_all pr xs = Inr t \<and> parse_lines ps (content_lines t) = Inr xs
        \<and> content_lines t = filter (\<lambda>l. trim l \<noteq> []) (text_lines t)
        \<and> (\<forall>t0. fst (write_lines pr t0 xs) = t0 @ t \<and> snd (write_lines pr t0 xs) = Inr ())"
proof (induction xs)
  case Nil
  then show ?case by (simp add: content_lines_def)
next
  case (Cons x xs)
  then obtain t l where "print_all pr xs = Inr t" "parse_lines ps (content_lines t) = Inr xs"
    "\<forall>t0. fst (write_lines pr t0 xs) = t0 @ t \<and> snd (write_lines pr t0 xs) = Inr ()"
    "pr x = Inr l" "ps l = Inr x" "CHR 0x0A \<notin> set l" "last l \<noteq> CHR 0x0D" "trim l \<noteq> []"
    by (auto simp: prints_lines_def)
  then show ?case
    using text_lines_append [of l t] by (auto simp: content_lines_def)
qed

text \<open>A file this module wrote: every line is terminated.\<close>

fun terminated :: "string list \<Rightarrow> string" where
  "terminated [] = []"
| "terminated (l # ls) = l @ nl @ terminated ls"

lemma text_lines_terminated:
  "\<forall>l \<in> set ls. CHR 0x0A \<notin> set l \<and> last l \<noteq> CHR 0x0D \<Longrightarrow>
     text_lines (terminated ls @ t) = ls @ text_lines t"
  by (induction ls) (auto simp: text_lines_append)

lemma print_all_terminated:
  "list_all (prints_lines pr ps) xs \<Longrightarrow>
     \<exists>ls. print_all pr xs = Inr (terminated ls) \<and> parse_lines ps ls = Inr xs
       \<and> (\<forall>l \<in> set ls. CHR 0x0A \<notin> set l \<and> last l \<noteq> CHR 0x0D \<and> trim l \<noteq> [])"
proof (induction xs)
  case Nil
  then show ?case by (intro exI [of _ "[]"]) simp
next
  case (Cons x xs)
  then obtain ls l where "print_all pr xs = Inr (terminated ls)" "parse_lines ps ls = Inr xs"
    "\<forall>l \<in> set ls. CHR 0x0A \<notin> set l \<and> last l \<noteq> CHR 0x0D \<and> trim l \<noteq> []"
    "pr x = Inr l" "ps l = Inr x" "CHR 0x0A \<notin> set l" "last l \<noteq> CHR 0x0D" "trim l \<noteq> []"
    by (auto simp: prints_lines_def)
  then show ?case by (intro exI [of _ "l # ls"]) simp
qed

lemma content_lines_terminated:
  "\<forall>l \<in> set ls. CHR 0x0A \<notin> set l \<and> last l \<noteq> CHR 0x0D \<and> trim l \<noteq> [] \<Longrightarrow>
     content_lines (terminated ls @ t) = ls @ content_lines t"
  using text_lines_terminated [of ls t] by (auto simp: content_lines_def filter_id_conv)

lemma parse_lines_append:
  "parse_lines ps (ls @ ms) =
     bind_res (parse_lines ps ls) (\<lambda>xs. bind_res (parse_lines ps ms) (\<lambda>ys. Inr (xs @ ys)))"
  by (induction ls) (auto simp: bind_res_def split: sum.splits)

lemma read_from_drop:
  "parse_lines ps (filter (\<lambda>l. trim l \<noteq> []) ls) = Inr xs \<Longrightarrow>
     read_from ps start ls acc k = Inr (acc @ drop (start - k) xs, k + length xs)"
proof (induction ls arbitrary: acc k xs)
  case Nil
  then show ?case by simp
next
  case (Cons l ls)
  show ?case
  proof (cases "trim l = []")
    case True
    with Cons show ?thesis by simp
  next
    case False
    with Cons.prems obtain y ys where "ps l = Inr y" "xs = y # ys"
      "parse_lines ps (filter (\<lambda>l. trim l \<noteq> []) ls) = Inr ys"
      by (auto simp: bind_res_eq_Inr)
    with False Cons.IH [of ys] show ?thesis
      by (cases "start \<le> k") (auto simp: Suc_diff_le drop_Cons')
  qed
qed

section \<open>Properties\<close>

text \<open>Replaying a ledger never writes out of range (the code would panic), and each workflow
  run the conversation still shows occupies one message of its own, the summary of the latest view
  of that run in the ledger.\<close>

theorem workflow_summary_latest:
  "inj_on (rp_indexes (replay items)) (dom (rp_indexes (replay items)))
   \<and> (case rp_indexes (replay items) rid of None \<Rightarrow> True
      | Some i \<Rightarrow> i < length (rp_conversation (replay items))
          \<and> map_option workflow_run_message (latest_workflow_run_from_rollout_items items rid)
            = Some (rp_conversation (replay items) ! i))"
  using replay_indexes_ok [of items] by (force simp: indexes_ok_def split: option.split)

text \<open>A compaction with a replacement history cuts the replayed conversation: what the
  snapshot shows is the replacement followed by exactly the messages of the response items recorded
  after it, so the two projections of the ledger (snapshot and response items) agree.\<close>

theorem snapshot_after_compaction:
  assumes "ci_replacement_history c = Some h" "list_all (\<lambda>x. \<not> replaces_history x) post"
  shows "rp_conversation (replay (pre @ Compacted c # post))
           = h @ map ri_message (response_items_from_rollout_items post)"
proof -
  have "replays_agree h (replay (pre @ [Compacted c])) ([], Map.empty)"
    using assms(1) by (simp add: replays_agree_def replay_snoc replay_step_def fun_eq_iff)
  then have "replays_agree h (foldl replay_step (replay (pre @ [Compacted c])) post)
      (foldl resp_step ([], Map.empty) post)"
    using assms(2) by (rule replays_agree_foldl)
  then show ?thesis
    by (simp add: replays_agree_def replay_def response_items_from_rollout_items_def)
qed

theorem snapshot_after_compaction_witness:
  "rp_conversation (replay [ResponseItem (response_item_for_turn ''t1'' (msg_user ''old'')),
       Compacted \<lparr>ci_message = ''s'', ci_replacement_history = Some [msg_user ''kept'']\<rparr>,
       ResponseItem (response_item_for_turn ''t2'' (msg_user ''new''))])
     = [msg_user ''kept'', msg_user ''new'']"
  using snapshot_after_compaction
    [of "\<lparr>ci_message = ''s'', ci_replacement_history = Some [msg_user ''kept'']\<rparr>"
        "[msg_user ''kept'']" "[ResponseItem (response_item_for_turn ''t2'' (msg_user ''new''))]"
        "[ResponseItem (response_item_for_turn ''t1'' (msg_user ''old''))]"]
  by (simp add: replaces_history_def response_items_from_rollout_items_def resp_step_def
      response_item_for_turn_def)

text \<open>C13: Append and read round trip of the ledger: with a JSON printer that writes one non-blank
  line per item and a parser that reads it back, a file made of complete lines that reads as
  \<open>old\<close> reads, after an append, as \<open>old\<close> followed by exactly the items that are to be persisted,
  in order; both append variants write the same text.\<close>

theorem ledger_roundtrip:
  assumes "\<forall>x \<in> set items. prints_lines pr ps x"
    and "case_option [] id file = terminated ls"
    and "\<forall>l \<in> set ls. CHR 0x0A \<notin> set l \<and> last l \<noteq> CHR 0x0D \<and> trim l \<noteq> []"
    and "parse_lines ps ls = Inr old"
  shows "snd (append_items pr file items) = Inr ()
    \<and> read_items ps (fst (append_items pr file items))
        = Inr (old @ filter should_persist_rollout_item items)
    \<and> append_items_blocking pr file items = append_items pr file items"
proof -
  let ?xs = "filter should_persist_rollout_item items"
  have pl: "list_all (prints_lines pr ps) ?xs" using assms(1) by (auto simp: list_all_iff)
  obtain ms where ms: "print_all pr ?xs = Inr (terminated ms)" "parse_lines ps ms = Inr ?xs"
    "\<forall>l \<in> set ms. CHR 0x0A \<notin> set l \<and> last l \<noteq> CHR 0x0D \<and> trim l \<noteq> []"
    using print_all_terminated [OF pl] by blast
  have wl: "write_lines pr t0 ?xs = (t0 @ terminated ms, Inr ())" for t0
    using print_all_lines [OF pl] ms(1) by (metis Inr_inject prod.collapse)
  have old: "content_lines (terminated ls @ t) = ls @ content_lines t" for t
    using assms(3) by (rule content_lines_terminated)
  have new: "content_lines (terminated ms) = ms"
    using content_lines_terminated [OF ms(3), of "[]"] by (simp add: content_lines_def)
  have nofile: "parse_lines ps (content_lines (terminated ls)) = Inr old"
    using old [of "[]"] assms(4) by (simp add: content_lines_def)
  show ?thesis
  proof (cases "?xs = []")
    case True
    have "content_lines [] = []" by (simp add: content_lines_def)
    with True nofile assms(2) show ?thesis
      by (cases "file") (auto simp: append_items_def append_items_blocking_def read_items_def)
  next
    case False
    then show ?thesis
      using ms old new assms(2,4) wl
      by (simp add: append_items_def append_items_blocking_def read_items_def parse_lines_append)
  qed
qed

definition one_line_meta :: thread_meta where
  "one_line_meta = \<lparr>me_thread_id = ''t'', me_workspace_root = ''w'', me_initial_cwd = ''w'',
     me_permission_profile = FullAccess, me_thread_source = SourceUser, me_lineage = None,
     me_created_at = ''now''\<rparr>"

theorem ledger_roundtrip_witness:
  "read_items (\<lambda>_. Inr (ThreadMeta one_line_meta))
     (fst (append_items (\<lambda>_. Inr ''{}'') (Some (''{}'' @ nl)) [ThreadMeta one_line_meta]))
   = Inr [ThreadMeta one_line_meta, ThreadMeta one_line_meta]"
proof -
  have t: "trim ''{}'' \<noteq> []" by code_simp
  have "prints_lines (\<lambda>_. Inr ''{}'') (\<lambda>_. Inr (ThreadMeta one_line_meta)) (ThreadMeta one_line_meta)"
    using t by (simp add: prints_lines_def)
  then show ?thesis
    using ledger_roundtrip [of "[ThreadMeta one_line_meta]" "\<lambda>_. Inr ''{}''"
        "\<lambda>_. Inr (ThreadMeta one_line_meta)" "Some (''{}'' @ nl)" "[''{}'']"
        "[ThreadMeta one_line_meta]"] t
    by (simp add: should_persist_rollout_item_def)
qed

text \<open>When serialising some item fails, the asynchronous append leaves the ledger exactly as it
  was, while the blocking append keeps the lines of the items before the failing one; both report
  the same error.\<close>

theorem append_failure_behaviour:
  assumes "filter should_persist_rollout_item items = good @ bad # rest"
    and "\<forall>x \<in> set good. prints_lines pr ps x" and "pr bad = Inl e"
  shows "append_items pr file items = (file, Inl e)
    \<and> (\<exists>t. print_all pr good = Inr t
         \<and> append_items_blocking pr file items = (Some (case_option [] id file @ t), Inl e))"
proof -
  have pl: "list_all (prints_lines pr ps) good" using assms(2) by (auto simp: list_all_iff)
  then obtain t where t: "print_all pr good = Inr t" using print_all_terminated by blast
  have pa: "print_all pr (good @ bad # rest) = Inl e"
    using pl assms(3) by (induction good) (auto simp: prints_lines_def)
  have "write_lines pr t0 (good @ bad # rest) = (t0 @ t, Inl e)" for t0
    using pl assms(3) t
  proof (induction good arbitrary: t0 t)
    case (Cons g gs)
    then obtain l u where "pr g = Inr l" "print_all pr gs = Inr u" "t = l @ nl @ u"
      by (auto simp: bind_res_eq_Inr prints_lines_def)
    with Cons show ?case by simp
  qed simp
  with pa t assms(1) show ?thesis by (simp add: append_items_def append_items_blocking_def)
qed

theorem append_failure_behaviour_witness:
  "append_items (\<lambda>_. Inl (Anyhow ''x'')) None [ThreadMeta one_line_meta] = (None, Inl (Anyhow ''x''))"
  using append_failure_behaviour [of "[ThreadMeta one_line_meta]" "[]" "ThreadMeta one_line_meta" "[]"
      "\<lambda>_. Inl (Anyhow ''x'')" "\<lambda>_. Inl (Anyhow ''y'')" "Anyhow ''x''" None]
  by (simp add: should_persist_rollout_item_def)

text \<open>Reading the ledger from an index returns the items from that index on and the total
  number of items, so polling with the returned index never repeats nor skips an item.\<close>

theorem read_from_index_correct:
  assumes "read_items ps file = Inr items"
  shows "read_items_from_index ps file start = Inr (drop start items, length items)"
  using assms read_from_drop [of ps "text_lines (the file)" items start "[]" 0]
  by (cases "file") (auto simp: read_items_def read_items_from_index_def content_lines_def)

theorem read_from_index_correct_witness:
  "read_items_from_index (\<lambda>_. Inr (ThreadMeta one_line_meta)) (Some (''a'' @ nl @ ''b'' @ nl)) 1
     = Inr ([ThreadMeta one_line_meta], 2)"
proof -
  have "content_lines (''a'' @ nl @ ''b'' @ nl) = [''a'', ''b'']" by code_simp
  then have "read_items (\<lambda>_. Inr (ThreadMeta one_line_meta)) (Some (''a'' @ nl @ ''b'' @ nl))
      = Inr [ThreadMeta one_line_meta, ThreadMeta one_line_meta]"
    by (simp add: read_items_def)
  from read_from_index_correct [OF this, of 1] show ?thesis by simp
qed

end
