(* ===== verification/Mail.thy ===== *)
theory Mail
  imports Types
begin

text \<open>
  Mail between the agents of one tree: the message and its JSON envelope
  (\<^verbatim>\<open>InterAgentCommunication\<close> in \<^verbatim>\<open>src/runtime/subagent.rs\<close>) and the inbox of a thread
  (\<^verbatim>\<open>src/runtime/thread_session/inbox.rs\<close>). Printing and parsing the envelope is
  \<^verbatim>\<open>serde_json\<close>, a pair of parameters.
\<close>

record mail =
  ml_author_thread_id :: thread_id
  ml_author_path :: string
  ml_recipient_thread_id :: thread_id
  ml_recipient_path :: string
  ml_other_recipients :: "string list"
  ml_content :: string
  ml_trigger_turn :: bool
  ml_source_turn_id :: "turn_id option"
  ml_created_at :: string

record mail_envelope =
  env_kind :: string
  env_mail :: mail

definition inter_agent_communication_type :: string where
  "inter_agent_communication_type = ''inter_agent_communication''"

definition envelope_of_mail :: "mail \<Rightarrow> mail_envelope" where
  "envelope_of_mail m = \<lparr>env_kind = inter_agent_communication_type, env_mail = m\<rparr>"

definition to_conversation_message ::
  "(mail_envelope \<Rightarrow> error + string) \<Rightarrow> mail \<Rightarrow> conversation_message" where
  "to_conversation_message pr m =
     msg_injected_system (case pr (envelope_of_mail m) of Inr s \<Rightarrow> s
       | Inl _ \<Rightarrow> ''{\"type\":\"'' @ inter_agent_communication_type @ ''\"}'')"

definition from_conversation_message ::
  "(string \<Rightarrow> error + mail_envelope) \<Rightarrow> conversation_message \<Rightarrow> mail option" where
  "from_conversation_message ps msg =
     (case ps (cm_content msg) of
        Inl _ \<Rightarrow> None
      | Inr env \<Rightarrow> if env_kind env \<noteq> inter_agent_communication_type then None else Some (env_mail env))"

section \<open>The inbox\<close>

text \<open>The watch channel of the inbox is its version: a send makes every subscriber see a change.\<close>

record inbox =
  ib_thread_id :: thread_id
  ib_version :: nat
  ib_queue :: "mail list"

definition inbox_new :: "thread_id \<Rightarrow> inbox" where
  "inbox_new t = \<lparr>ib_thread_id = t, ib_version = 0, ib_queue = []\<rparr>"

definition inbox_enqueue :: "mail \<Rightarrow> inbox \<Rightarrow> error + inbox" where
  "inbox_enqueue m b =
     (if ml_recipient_thread_id m \<noteq> ib_thread_id b
      then Inl (Anyhow (''mail recipient '' @ ml_recipient_thread_id m @
             '' does not match thread '' @ ib_thread_id b))
      else Inr (b\<lparr>ib_queue := ib_queue b @ [m], ib_version := ib_version b + 1\<rparr>))"

definition inbox_has_pending :: "inbox \<Rightarrow> bool" where
  "inbox_has_pending b \<longleftrightarrow> ib_queue b \<noteq> []"

text \<open>A subscriber that finds mail waiting is marked changed; otherwise it waits for a later send.\<close>

definition inbox_subscribe :: "inbox \<Rightarrow> bool \<times> nat" where
  "inbox_subscribe b = (inbox_has_pending b, ib_version b)"

definition inbox_has_trigger_turn_pending :: "inbox \<Rightarrow> bool" where
  "inbox_has_trigger_turn_pending b \<longleftrightarrow> list_ex ml_trigger_turn (ib_queue b)"

definition inbox_drain :: "inbox \<Rightarrow> mail list \<times> inbox" where
  "inbox_drain b = (ib_queue b, b\<lparr>ib_queue := []\<rparr>)"

text \<open>The queue contract of the inbox: what was accepted and not yet drained, in order.\<close>

locale mail_queue =
  fixes enq :: "'m \<Rightarrow> 'q \<Rightarrow> error + 'q"
    and drain :: "'q \<Rightarrow> 'm list \<times> 'q"
    and pending :: "'q \<Rightarrow> 'm list"
    and accepts :: "'m \<Rightarrow> 'q \<Rightarrow> bool"
  assumes enq_ok: "accepts m q \<Longrightarrow> \<exists>q'. enq m q = Inr q' \<and> pending q' = pending q @ [m]
      \<and> (\<forall>m'. accepts m' q' = accepts m' q)"
    and enq_rejects: "\<not> accepts m q \<Longrightarrow> \<exists>e. enq m q = Inl e"
    and drain_all: "fst (drain q) = pending q" "pending (snd (drain q)) = []"
    and drain_accepts: "accepts m (snd (drain q)) = accepts m q"
begin

text \<open>Run of a list of enqueues, keeping the queue when one is refused.\<close>

definition enq_all :: "'m list \<Rightarrow> 'q \<Rightarrow> 'q" where
  "enq_all ms q = foldl (\<lambda>q m. case enq m q of Inl _ \<Rightarrow> q | Inr q' \<Rightarrow> q') q ms"

lemma enq_all_pending: "pending (enq_all ms q) = pending q @ filter (\<lambda>m. accepts m q) ms"
proof (induction ms arbitrary: q)
  case Nil
  then show ?case by (simp add: enq_all_def)
next
  case (Cons m ms)
  show ?case
  proof (cases "accepts m q")
    case True
    then obtain q' where "enq m q = Inr q'" "pending q' = pending q @ [m]"
      "\<forall>m'. accepts m' q' = accepts m' q"
      using enq_ok by blast
    with True Cons.IH [of q'] show ?thesis by (simp add: enq_all_def)
  next
    case False
    then obtain e where "enq m q = Inl e" using enq_rejects by blast
    with False Cons.IH [of q] show ?thesis by (simp add: enq_all_def)
  qed
qed

lemma drained_in_order: "fst (drain (enq_all ms (snd (drain q)))) = filter (\<lambda>m. accepts m q) ms"
  by (simp add: drain_all enq_all_pending drain_accepts)

end

interpretation inbox_q: mail_queue inbox_enqueue inbox_drain ib_queue
  "\<lambda>m b. ml_recipient_thread_id m = ib_thread_id b"
  by unfold_locales (auto simp: inbox_enqueue_def inbox_drain_def)

lemma mail_message_roundtrip:
  assumes "pr (envelope_of_mail m) = Inr s" "ps s = Inr (envelope_of_mail m)"
  shows "from_conversation_message ps (to_conversation_message pr m) = Some m"
  using assms by (simp add: from_conversation_message_def to_conversation_message_def
      envelope_of_mail_def msg_injected_system_def msg_system_def)

text \<open>The inbox delivers, in order and exactly once, the mail addressed to its thread: after a
  drain and any sequence of enqueues, the next drain returns precisely the accepted mails and
  leaves nothing pending; mail for another thread is refused.\<close>

theorem inbox_delivers_in_order:
  "fst (inbox_drain (foldl (\<lambda>b m. case inbox_enqueue m b of Inl _ \<Rightarrow> b | Inr b' \<Rightarrow> b')
       (snd (inbox_drain b)) ms))
   = filter (\<lambda>m. ml_recipient_thread_id m = ib_thread_id b) ms
   \<and> \<not> inbox_has_pending (snd (inbox_drain b'))"
  using inbox_q.drained_in_order [of ms b] inbox_q.drain_all(2) [of b']
  by (simp add: inbox_q.enq_all_def inbox_has_pending_def)

end
