(* ===== verification/ForkHistory.thy ===== *)
theory ForkHistory
  imports Rollout Mail
begin

text \<open>
  Forking the history of a thread (\<^verbatim>\<open>src/state/fork_history.rs\<close>): the prefix fork of a
  user-facing thread, the context fork of a subagent, and the removal of tool-call groups whose
  results are incomplete, which no provider accepts. The parser of mail envelopes is the parameter
  \<open>ps\<close>.
\<close>

definition fork_context_turn_id :: turn_id where
  "fork_context_turn_id = ''fork_context''"

datatype fork_turns = ForkNone | ForkAll | ForkLast nat

fun fork_turns_label :: "fork_turns \<Rightarrow> string" where
  "fork_turns_label ForkNone = ''none''"
| "fork_turns_label ForkAll = ''all''"
| "fork_turns_label (ForkLast n) = show_nat n"

section \<open>Message classes\<close>

definition is_real_user_message :: "conversation_message \<Rightarrow> bool" where
  "is_real_user_message m \<longleftrightarrow> cm_role m = User \<and> \<not> cm_injected m"

definition is_triggering_mailbox_message ::
  "(string \<Rightarrow> error + mail_envelope) \<Rightarrow> conversation_message \<Rightarrow> bool" where
  "is_triggering_mailbox_message ps m =
     (case from_conversation_message ps m of None \<Rightarrow> False | Some mail \<Rightarrow> ml_trigger_turn mail)"

definition is_fork_turn_boundary ::
  "(string \<Rightarrow> error + mail_envelope) \<Rightarrow> conversation_message \<Rightarrow> bool" where
  "is_fork_turn_boundary ps m \<longleftrightarrow> is_real_user_message m \<or> is_triggering_mailbox_message ps m"

definition is_runtime_context_message ::
  "(string \<Rightarrow> error + mail_envelope) \<Rightarrow> conversation_message \<Rightarrow> bool" where
  "is_runtime_context_message ps m \<longleftrightarrow>
     cm_injected m \<and> from_conversation_message ps m = None"

definition has_tool_call :: "conversation_message \<Rightarrow> bool" where
  "has_tool_call m \<longleftrightarrow> cm_role m = Assistant \<and> cm_tool_calls m \<noteq> []"

section \<open>Tool-call groups\<close>

text \<open>
  \<open>group_scan\<close> is the loop of \<open>complete_tool_group_end\<close>: it walks over the tool results after
  the assistant message and stops at the result that completes the group (\<open>seen.len() ==
  expected.len()\<close>), or fails. \<open>strip_loop\<close> is the loop of the two \<open>strip_incomplete_tool_*\<close>
  functions, which differ only in how they reach the message of an element (\<open>f\<close>).
\<close>

function group_scan ::
  "nat \<Rightarrow> (nat \<Rightarrow> conversation_message) \<Rightarrow> string set \<Rightarrow> string set \<Rightarrow> nat \<Rightarrow> nat option" where
  "group_scan len message_at expected seen cursor =
     (if cursor < len then
        if cm_role (message_at cursor) \<noteq> Tool then None
        else (case cm_tool_call_id (message_at cursor) of
            None \<Rightarrow> None
          | Some i \<Rightarrow>
              if i \<notin> expected \<or> i \<in> seen then None
              else if card (insert i seen) = card expected then Some (cursor + 1)
              else group_scan len message_at expected (insert i seen) (cursor + 1))
      else None)"
  by pat_completeness auto
termination
  by (relation "measure (\<lambda>(len, _, _, _, cursor). len - cursor)") auto

declare group_scan.simps [simp del]

definition complete_tool_group_end ::
  "nat \<Rightarrow> nat \<Rightarrow> (nat \<Rightarrow> conversation_message) \<Rightarrow> nat option" where
  "complete_tool_group_end index len message_at =
     group_scan len message_at (set (map tc_id (cm_tool_calls (message_at index)))) {} (index + 1)"

function skip_following_tool :: "('a \<Rightarrow> conversation_message) \<Rightarrow> 'a list \<Rightarrow> nat \<Rightarrow> nat" where
  "skip_following_tool f items index =
     (if index < length items \<and> cm_role (f (items ! index)) = Tool
      then skip_following_tool f items (index + 1) else index)"
  by pat_completeness auto
termination
  by (relation "measure (\<lambda>(f, items, index). length items - index)") auto

declare skip_following_tool.simps [simp del]

lemma group_scan_bounds: "group_scan len at E S c = Some e \<Longrightarrow> c < e \<and> e \<le> len"
proof (induction len "at" E S c rule: group_scan.induct)
  case (1 len "at" E S c)
  from 1(2) show ?case
    by (subst (asm) group_scan.simps)
      (auto split: if_splits option.splits dest: 1(1))
qed

lemma skip_following_tool_ge: "index \<le> skip_following_tool f items index"
proof (induction f items index rule: skip_following_tool.induct)
  case (1 f items index)
  then show ?case by (subst skip_following_tool.simps) auto
qed

function strip_loop :: "('a \<Rightarrow> conversation_message) \<Rightarrow> 'a list \<Rightarrow> nat \<Rightarrow> 'a list" where
  "strip_loop f items index =
     (if index < length items then
        if has_tool_call (f (items ! index)) then
          (case complete_tool_group_end index (length items) (\<lambda>i. f (items ! i)) of
             Some e \<Rightarrow> take (e - index) (drop index items) @ strip_loop f items e
           | None \<Rightarrow> strip_loop f items (skip_following_tool f items (index + 1)))
        else if cm_role (f (items ! index)) = Tool then strip_loop f items (index + 1)
        else items ! index # strip_loop f items (index + 1)
      else [])"
  by pat_completeness auto
termination
proof (relation "measure (\<lambda>(f, items, index). length items - index)", goal_cases)
  case (2 f items index)
  then show ?case using skip_following_tool_ge [of "index + 1" f items] by auto
next
  case (3 f items index e)
  then show ?case by (auto simp: complete_tool_group_end_def dest!: group_scan_bounds)
qed auto

declare strip_loop.simps [simp del]

definition strip_incomplete_tool_response_items :: "response_item list \<Rightarrow> response_item list" where
  "strip_incomplete_tool_response_items items = strip_loop ri_message items 0"

definition strip_incomplete_tool_messages ::
  "conversation_message list \<Rightarrow> conversation_message list" where
  "strip_incomplete_tool_messages messages = strip_loop id messages 0"

fun strip_groups :: "response_item list \<Rightarrow> rollout_item list \<Rightarrow> rollout_item list" where
  "strip_groups g [] = map ResponseItem (strip_incomplete_tool_response_items g)"
| "strip_groups g (ResponseItem r # xs) = strip_groups (g @ [r]) xs"
| "strip_groups g (x # xs) =
     map ResponseItem (strip_incomplete_tool_response_items g) @ x # strip_groups [] xs"

definition strip_incomplete_tool_call_groups :: "rollout_item list \<Rightarrow> rollout_item list" where
  "strip_incomplete_tool_call_groups items = strip_groups [] items"

section \<open>Building forks\<close>

definition truncate_messages_to_last_boundaries ::
  "(string \<Rightarrow> error + mail_envelope) \<Rightarrow> conversation_message list \<Rightarrow> nat \<Rightarrow>
   conversation_message list" where
  "truncate_messages_to_last_boundaries ps messages count =
     (if count = 0 then []
      else let boundary_indexes =
             filter (\<lambda>i. is_fork_turn_boundary ps (messages ! i)) [0..<length messages]
           in if length boundary_indexes < count then []
              else drop (boundary_indexes ! (length boundary_indexes - count)) messages)"

definition last_boundary_turn_ids ::
  "(string \<Rightarrow> error + mail_envelope) \<Rightarrow> rollout_item list \<Rightarrow> nat \<Rightarrow> turn_id set" where
  "last_boundary_turn_ids ps parent_items count =
     (let ordered = foldl (\<lambda>ord item. case item of
            ResponseItem r \<Rightarrow>
              if \<not> is_fork_turn_boundary ps (ri_message r) then ord
              else if ord \<noteq> [] \<and> last ord = ri_turn_id r then ord
              else ord @ [ri_turn_id r]
          | _ \<Rightarrow> ord) [] parent_items
      in set (take count (rev ordered)))"

definition filter_compacted ::
  "(string \<Rightarrow> error + mail_envelope) \<Rightarrow> compacted_item \<Rightarrow> fork_turns \<Rightarrow> compacted_item" where
  "filter_compacted ps compacted turns =
     \<lparr>ci_message = ci_message compacted,
      ci_replacement_history = map_option (\<lambda>history.
        let h = (case turns of ForkNone \<Rightarrow> [] | ForkAll \<Rightarrow> history
                 | ForkLast count \<Rightarrow> truncate_messages_to_last_boundaries ps history count)
        in strip_incomplete_tool_messages (filter (\<lambda>m. \<not> is_runtime_context_message ps m) h))
        (ci_replacement_history compacted)\<rparr>"

definition filter_item ::
  "(string \<Rightarrow> error + mail_envelope) \<Rightarrow> bool \<Rightarrow> turn_id set option \<Rightarrow> fork_turns \<Rightarrow>
   rollout_item \<Rightarrow> rollout_item option" where
  "filter_item ps include_turn_context selected turns item =
     (case item of
        ThreadMeta _ \<Rightarrow> None
      | EventMsg _ \<Rightarrow> None
      | WorkflowRun _ \<Rightarrow> None
      | TurnContext _ \<Rightarrow> None
      | Compacted c \<Rightarrow> Some (Compacted (filter_compacted ps c turns))
      | ResponseItem r \<Rightarrow>
          if (case selected of None \<Rightarrow> False | Some ids \<Rightarrow> ri_turn_id r \<notin> ids) then None
          else if \<not> include_turn_context \<and> is_runtime_context_message ps (ri_message r) then None
          else Some (ResponseItem (response_item_for_turn fork_context_turn_id (ri_message r))))"

definition build_fork_history ::
  "(string \<Rightarrow> error + mail_envelope) \<Rightarrow> rollout_item list \<Rightarrow> fork_turns \<Rightarrow> rollout_item list" where
  "build_fork_history ps parent_items turns =
     (case turns of
        ForkNone \<Rightarrow> []
      | ForkAll \<Rightarrow> strip_incomplete_tool_call_groups
          (List.map_filter (filter_item ps True None turns) parent_items)
      | ForkLast count \<Rightarrow>
          if count = 0 then []
          else (let selected = last_boundary_turn_ids ps parent_items count in
            if selected = {} then []
            else strip_incomplete_tool_call_groups
              (List.map_filter (filter_item ps False (Some selected) turns) parent_items)))"

text \<open>The scan for the fork point: the last item of the turn, and whether a response was seen.\<close>

definition find_fork_point :: "turn_id \<Rightarrow> rollout_item list \<Rightarrow> nat option \<times> bool" where
  "find_fork_point t items =
     foldl (\<lambda>(b, found) (i, item). case item of
         ResponseItem r \<Rightarrow> if ri_turn_id r = t then (Some i, True) else (b, found)
       | TurnContext c \<Rightarrow> if tc_turn_id c = t then (Some i, found) else (b, found)
       | _ \<Rightarrow> (b, found)) (None, False) (enumerate 0 items)"

definition keeps_in_thread_fork :: "rollout_item \<Rightarrow> bool" where
  "keeps_in_thread_fork item =
     (case item of ThreadMeta _ \<Rightarrow> False | EventMsg _ \<Rightarrow> False | WorkflowRun _ \<Rightarrow> False
      | ResponseItem _ \<Rightarrow> True | Compacted _ \<Rightarrow> True | TurnContext _ \<Rightarrow> True)"

definition build_thread_fork_history ::
  "rollout_item list \<Rightarrow> turn_id \<Rightarrow> error + rollout_item list" where
  "build_thread_fork_history parent_items t =
     (case find_fork_point t parent_items of (b, found) \<Rightarrow>
        if \<not> found
        then Inl (Anyhow (''fork point turn id '' @ t @ '' was not found in parent history''))
        else Inr (strip_incomplete_tool_call_groups
               (filter keeps_in_thread_fork (take (the b + 1) parent_items))))"


section \<open>The loops as functions on suffixes\<close>

fun scan_list :: "string set \<Rightarrow> string set \<Rightarrow> conversation_message list \<Rightarrow> nat option" where
  "scan_list E S [] = None"
| "scan_list E S (m # ms) =
     (if cm_role m \<noteq> Tool then None
      else case cm_tool_call_id m of
          None \<Rightarrow> None
        | Some i \<Rightarrow> if i \<notin> E \<or> i \<in> S then None
                    else if card (insert i S) = card E then Some 1
                    else map_option Suc (scan_list E (insert i S) ms))"

lemma group_scan_list:
  "c \<le> len \<Longrightarrow> group_scan len at E S c = map_option ((+) c) (scan_list E S (map at [c..<len]))"
proof (induction len "at" E S c rule: group_scan.induct)
  case (1 len "at" E S c)
  show ?case
  proof (cases "c < len")
    case True
    then have m: "map at [c..<len] = at c # map at [Suc c..<len]" by (simp add: upt_conv_Cons)
    show ?thesis
    proof (cases "cm_role (at c) = Tool")
      case False
      with True m show ?thesis by (subst group_scan.simps) simp
    next
      case tool: True
      show ?thesis
      proof (cases "cm_tool_call_id (at c)")
        case None
        with True m tool show ?thesis by (subst group_scan.simps) simp
      next
        case (Some i)
        show ?thesis
        proof (cases "i \<notin> E \<or> i \<in> S \<or> card (insert i S) = card E")
          case stop: True
          with True m tool Some show ?thesis by (subst group_scan.simps) auto
        next
          case False
          then have "group_scan len at E (insert i S) (c + 1) =
              map_option ((+) (c + 1)) (scan_list E (insert i S) (map at [c + 1..<len]))"
            using True tool Some by (intro 1(1)) auto
          with True m tool Some False show ?thesis
            by (subst group_scan.simps)
              (simp add: option.map_comp comp_def option.map_cong0 [of _ "(+) (Suc c)"])
        qed
      qed
    qed
  next
    case False
    with 1(2) show ?thesis by (subst group_scan.simps) simp
  qed
qed

definition call_ids :: "conversation_message \<Rightarrow> string set" where
  "call_ids m = set (map tc_id (cm_tool_calls m))"

function strip_list :: "('a \<Rightarrow> conversation_message) \<Rightarrow> 'a list \<Rightarrow> 'a list" where
  "strip_list f [] = []"
| "strip_list f (x # xs) =
     (if has_tool_call (f x) then
        (case scan_list (call_ids (f x)) {} (map f xs) of
           Some n \<Rightarrow> x # take n xs @ strip_list f (drop n xs)
         | None \<Rightarrow> strip_list f (dropWhile (\<lambda>y. cm_role (f y) = Tool) xs))
      else if cm_role (f x) = Tool then strip_list f xs
      else x # strip_list f xs)"
  by pat_completeness auto
termination
  by (relation "measure (\<lambda>(f, xs). length xs)") (auto simp: length_dropWhile_le less_Suc_eq_le)

lemma skip_following_tool_drop:
  "drop (skip_following_tool f items i) items = dropWhile (\<lambda>y. cm_role (f y) = Tool) (drop i items)"
proof (induction f items i rule: skip_following_tool.induct)
  case (1 f items i)
  show ?case
  proof (cases "i < length items")
    case True
    then have "drop i items = items ! i # drop (i + 1) items" by (simp add: Cons_nth_drop_Suc)
    with True 1 show ?thesis by (subst skip_following_tool.simps) simp
  next
    case False
    then show ?thesis by (subst skip_following_tool.simps) simp
  qed
qed

lemma map_nth_suffix: "map (\<lambda>i. f (items ! i)) [k..<length items] = map f (drop k items)"
  by (rule nth_equalityI) auto

lemma strip_loop_list: "strip_loop f items i = strip_list f (drop i items)"
proof (induction f items i rule: strip_loop.induct)
  case (1 f items i)
  show ?case
  proof (cases "i < length items")
    case True
    then have d: "drop i items = items ! i # drop (i + 1) items" by (simp add: Cons_nth_drop_Suc)
    have g: "complete_tool_group_end i (length items) (\<lambda>i. f (items ! i)) =
        map_option ((+) (i + 1))
          (scan_list (call_ids (f (items ! i))) {} (map f (drop (i + 1) items)))"
      unfolding complete_tool_group_end_def call_ids_def
      using True by (simp add: group_scan_list map_nth_suffix del: set_map)
    have t: "take (Suc n) (items ! i # drop (i + 1) items) = items ! i # take n (drop (i + 1) items)"
      for n by simp
    show ?thesis
    proof (cases "has_tool_call (f (items ! i))")
      case False
      with True d 1(3,4) show ?thesis by (subst strip_loop.simps) simp
    next
      case h: True
      show ?thesis
      proof (cases "scan_list (call_ids (f (items ! i))) {} (map f (drop (i + 1) items))")
        case None
        with g have "complete_tool_group_end i (length items) (\<lambda>i. f (items ! i)) = None" by simp
        with True h d None 1(1) show ?thesis
          by (subst strip_loop.simps) (simp add: skip_following_tool_drop)
      next
        case (Some n)
        with g have e: "complete_tool_group_end i (length items) (\<lambda>i. f (items ! i)) =
          Some (i + 1 + n)" by simp
        from 1(2) [OF True h e] have
          "strip_loop f items (i + 1 + n) = strip_list f (drop n (drop (i + 1) items))"
          by (simp add: ac_simps)
        with True h d e Some show ?thesis by (subst strip_loop.simps) simp
      qed
    qed
  next
    case False
    then show ?thesis by (subst strip_loop.simps) simp
  qed
qed


section \<open>Histories whose tool calls are answered\<close>

definition answers :: "conversation_message \<Rightarrow> conversation_message list \<Rightarrow> bool" where
  "answers m ts \<longleftrightarrow> (\<forall>t \<in> set ts. cm_role t = Tool) \<and> distinct (map cm_tool_call_id ts) \<and>
     set (map cm_tool_call_id ts) = Some ` call_ids m"

inductive well_grouped :: "conversation_message list \<Rightarrow> bool" where
  wg_Nil: "well_grouped []"
| wg_plain: "well_grouped ms \<Longrightarrow> cm_role m \<noteq> Tool \<Longrightarrow> \<not> has_tool_call m \<Longrightarrow> well_grouped (m # ms)"
| wg_group: "well_grouped ms \<Longrightarrow> has_tool_call m \<Longrightarrow> answers m ts \<Longrightarrow> well_grouped (m # ts @ ms)"

lemma finite_call_ids [simp]: "finite (call_ids m)" by (simp add: call_ids_def)

lemma has_tool_call_ids: "has_tool_call m \<Longrightarrow> call_ids m \<noteq> {} \<and> cm_role m \<noteq> Tool"
  by (auto simp: has_tool_call_def call_ids_def)

lemma scan_list_sound:
  "scan_list E S ms = Some n \<Longrightarrow> finite E \<Longrightarrow> S \<subseteq> E \<Longrightarrow>
   n \<le> length ms \<and> (\<forall>t \<in> set (take n ms). cm_role t = Tool) \<and>
   distinct (map cm_tool_call_id (take n ms)) \<and>
   set (map cm_tool_call_id (take n ms)) = Some ` (E - S)"
proof (induction ms arbitrary: S n)
  case (Cons m ms)
  from Cons.prems(1) obtain i where i: "cm_role m = Tool" "cm_tool_call_id m = Some i"
    "i \<in> E" "i \<notin> S" by (auto split: if_splits option.splits)
  have sub: "insert i S \<subseteq> E" using i Cons.prems(3) by simp
  show ?case
  proof (cases "card (insert i S) = card E")
    case True
    then have "insert i S = E" using sub Cons.prems(2) by (simp add: card_subset_eq)
    then have "E - S = {i}" using i(4) by auto
    moreover have "n = 1" using True i Cons.prems(1) by simp
    ultimately show ?thesis using i by simp
  next
    case False
    with i Cons.prems(1) obtain k where k: "scan_list E (insert i S) ms = Some k" "n = Suc k"
      by auto
    from Cons.IH [OF k(1) Cons.prems(2) sub] have ih: "k \<le> length ms"
      "\<forall>t \<in> set (take k ms). cm_role t = Tool" "distinct (map cm_tool_call_id (take k ms))"
      "set (map cm_tool_call_id (take k ms)) = Some ` (E - insert i S)" by auto
    have "E - S = insert i (E - insert i S)" using i by auto
    with ih k(2) i show ?thesis by auto
  qed
qed simp

lemma scan_list_complete:
  "\<forall>t \<in> set ts. cm_role t = Tool \<Longrightarrow> distinct (map cm_tool_call_id ts) \<Longrightarrow>
   set (map cm_tool_call_id ts) = Some ` (E - S) \<Longrightarrow> finite E \<Longrightarrow> S \<subset> E \<Longrightarrow>
   scan_list E S (ts @ ms) = Some (length ts)"
proof (induction ts arbitrary: S)
  case (Cons t ts)
  have "cm_tool_call_id t \<in> Some ` (E - S)" unfolding Cons.prems(3) [symmetric] by simp
  then obtain i where i: "cm_tool_call_id t = Some i" "i \<in> E" "i \<notin> S" by auto
  have rest: "set (map cm_tool_call_id ts) = Some ` (E - insert i S)"
  proof -
    have "Some i \<notin> set (map cm_tool_call_id ts)" using Cons.prems(2) i by auto
    moreover have "insert (Some i) (set (map cm_tool_call_id ts)) = Some ` (E - S)"
      using Cons.prems(3) i by simp
    ultimately have "set (map cm_tool_call_id ts) = Some ` (E - S) - {Some i}" by blast
    then show ?thesis by auto
  qed
  show ?case
  proof (cases "card (insert i S) = card E")
    case True
    then have "insert i S = E"
      using i Cons.prems(4,5) by (intro card_subset_eq) auto
    with rest have "ts = []" by auto
    with True i Cons.prems(1) show ?thesis by simp
  next
    case False
    then have "insert i S \<subset> E" using i Cons.prems(5) by auto
    from Cons.IH [OF _ _ rest Cons.prems(4) this] Cons.prems(1,2) i False show ?thesis by simp
  qed
next
  case Nil
  then show ?case by auto
qed

lemma scan_list_answers:
  "scan_list (call_ids m) {} ms = Some n \<Longrightarrow> n \<le> length ms \<and> answers m (take n ms)"
  using scan_list_sound [of "call_ids m" "{}" ms n] by (simp add: answers_def)

lemma answers_scan_list:
  "has_tool_call m \<Longrightarrow> answers m ts \<Longrightarrow> scan_list (call_ids m) {} (ts @ ms) = Some (length ts)"
  using scan_list_complete [of ts "call_ids m" "{}" ms] has_tool_call_ids [of m]
  by (auto simp: answers_def)

lemma strip_list_well_grouped: "well_grouped (map f (strip_list f xs))"
proof (induction f xs rule: strip_list.induct)
  case (2 f x xs)
  show ?case
  proof (cases "has_tool_call (f x)")
    case True
    show ?thesis
    proof (cases "scan_list (call_ids (f x)) {} (map f xs)")
      case None
      with True 2(1) show ?thesis by simp
    next
      case (Some n)
      have "well_grouped (f x # take n (map f xs) @ map f (strip_list f (drop n xs)))"
        using scan_list_answers [OF Some] 2(2) [OF True Some] True by (intro wg_group) auto
      with True Some show ?thesis by (simp add: take_map)
    qed
  next
    case False
    with 2(3,4) show ?thesis by (auto intro: wg_plain)
  qed
qed (simp add: wg_Nil)

lemma strip_list_id:
  assumes "well_grouped ms"
  shows "map f xs = ms \<Longrightarrow> strip_list f xs = xs"
  using assms
proof (induction arbitrary: xs rule: well_grouped.induct)
  case (wg_plain ms m)
  then obtain y ys where "xs = y # ys" "f y = m" "map f ys = ms" by auto
  with wg_plain show ?case by simp
next
  case (wg_group ms m ts)
  then obtain y ys where y: "xs = y # ys" "f y = m" "map f ys = ts @ ms" by auto
  have sc: "scan_list (call_ids m) {} (map f ys) = Some (length ts)"
    unfolding y(3) using wg_group.hyps by (intro answers_scan_list)
  have "map f (drop (length ts) ys) = ms" by (simp add: drop_map [symmetric] y(3))
  then have "strip_list f (drop (length ts) ys) = drop (length ts) ys" by (rule wg_group.IH)
  with y sc wg_group.hyps(2) show ?case by simp
qed simp

lemma strip_list_fixed_iff: "strip_list f xs = xs \<longleftrightarrow> well_grouped (map f xs)"
  using strip_list_id strip_list_well_grouped by metis

lemma subseq_strip_list: "subseq (strip_list f xs) xs"
proof (induction f xs rule: strip_list.induct)
  case (2 f x xs)
  show ?case
  proof (cases "has_tool_call (f x)")
    case True
    show ?thesis
    proof (cases "scan_list (call_ids (f x)) {} (map f xs)")
      case None
      have "subseq (dropWhile (\<lambda>y. cm_role (f y) = Tool) xs) xs"
        by (metis suffix_dropWhile suffix_imp_subseq)
      with None True 2(1) show ?thesis by (auto dest: subseq_order.order_trans)
    next
      case (Some n)
      have "subseq (take n xs @ strip_list f (drop n xs)) (take n xs @ drop n xs)"
        using 2(2) [OF True Some] by (intro list_emb_append_mono) auto
      with Some True show ?thesis by simp
    qed
  next
    case False
    with 2(3,4) show ?thesis by auto
  qed
qed simp

lemma strip_list_map: "map f (strip_list (g \<circ> f) xs) = strip_list g (map f xs)"
proof (induction "g \<circ> f" xs rule: strip_list.induct)
  case (2 x xs)
  show ?case
    using 2 by (auto simp: take_map drop_map dropWhile_map comp_def split: option.splits)
qed simp


lemma well_grouped_append: "well_grouped a \<Longrightarrow> well_grouped b \<Longrightarrow> well_grouped (a @ b)"
  by (induction rule: well_grouped.induct) (auto intro: well_grouped.intros)

lemmas strip_defs = strip_incomplete_tool_response_items_def strip_incomplete_tool_messages_def
  strip_loop_list

lemma strip_messages_well_grouped [simp]: "well_grouped (strip_incomplete_tool_messages ms)"
  using strip_list_well_grouped [of id ms] by (simp add: strip_defs)

lemma strip_items_well_grouped [simp]:
  "well_grouped (map ri_message (strip_incomplete_tool_response_items rs))"
  by (simp add: strip_defs strip_list_well_grouped)

lemma strip_items_fixed_iff:
  "strip_incomplete_tool_response_items rs = rs \<longleftrightarrow> well_grouped (map ri_message rs)"
  by (simp add: strip_defs strip_list_fixed_iff)

lemma subseq_strip_items: "subseq (strip_incomplete_tool_response_items rs) rs"
  by (simp add: strip_defs subseq_strip_list)

lemma strip_items_Nil [simp]: "strip_incomplete_tool_response_items [] = []"
  by (simp add: strip_defs)

text \<open>The maximal runs of response items, as messages.\<close>

fun runs_from :: "conversation_message list \<Rightarrow> rollout_item list \<Rightarrow> conversation_message list list" where
  "runs_from g [] = [g]"
| "runs_from g (ResponseItem r # xs) = runs_from (g @ [ri_message r]) xs"
| "runs_from g (_ # xs) = g # runs_from [] xs"

definition response_runs :: "rollout_item list \<Rightarrow> conversation_message list list" where
  "response_runs items = runs_from [] items"

fun is_response :: "rollout_item \<Rightarrow> bool" where
  "is_response (ResponseItem _) = True"
| "is_response _ = False"

lemma runs_from_responses:
  "runs_from g (map ResponseItem rs @ xs) = runs_from (g @ map ri_message rs) xs"
  by (induction rs arbitrary: g) auto

lemma runs_from_other: "\<not> is_response x \<Longrightarrow> runs_from g (x # xs) = g # runs_from [] xs"
  by (cases x) auto

lemma strip_groups_other:
  "\<not> is_response x \<Longrightarrow> strip_groups g (x # xs) =
     map ResponseItem (strip_incomplete_tool_response_items g) @ x # strip_groups [] xs"
  by (cases x) auto

lemma strip_groups_runs: "list_all well_grouped (runs_from [] (strip_groups g xs))"
proof (induction g xs rule: strip_groups.induct)
  case (1 g)
  then show ?case using runs_from_responses [of "[]" _ "[]"] by simp
qed (simp_all add: runs_from_responses)

lemma subseq_strip_groups: "subseq (strip_groups g xs) (map ResponseItem g @ xs)"
proof (induction g xs rule: strip_groups.induct)
  case (1 g)
  then show ?case by (simp add: subseq_map subseq_strip_items)
qed (auto intro!: list_emb_append_mono subseq_map subseq_strip_items)

lemma strip_groups_id:
  "list_all well_grouped (runs_from (map ri_message g) xs) \<Longrightarrow>
   strip_groups g xs = map ResponseItem g @ xs"
  by (induction g xs rule: strip_groups.induct) (auto simp: strip_items_fixed_iff [THEN iffD2])

section \<open>What a replay of the fork sees\<close>

lemma replay_responses:
  "foldl replay_step st (map ResponseItem rs) =
     st\<lparr>rp_conversation := rp_conversation st @ map ri_message rs\<rparr>"
  by (induction rs arbitrary: st) (auto simp: replay_step_def)

definition grouped_item :: "rollout_item \<Rightarrow> bool" where
  "grouped_item x = (case x of WorkflowRun _ \<Rightarrow> False
     | Compacted c \<Rightarrow> (case ci_replacement_history c of None \<Rightarrow> True | Some h \<Rightarrow> well_grouped h)
     | _ \<Rightarrow> True)"

lemma grouped_item_step:
  "grouped_item x \<Longrightarrow> \<not> is_response x \<Longrightarrow> well_grouped (rp_conversation st) \<Longrightarrow>
   well_grouped (rp_conversation (replay_step st x))"
  by (cases x)
    (auto simp: grouped_item_def replay_step_def split: option.splits runtime_event_kind.splits)

lemma strip_groups_replay:
  "list_all grouped_item xs \<Longrightarrow> well_grouped (rp_conversation st) \<Longrightarrow>
   well_grouped (rp_conversation (foldl replay_step st (strip_groups g xs)))"
proof (induction xs arbitrary: g st)
  case Nil
  then show ?case by (simp add: replay_responses well_grouped_append)
next
  case (Cons x xs)
  show ?case
  proof (cases "is_response x")
    case True
    then obtain r where "x = ResponseItem r" by (cases x) auto
    with Cons show ?thesis by simp
  next
    case False
    let ?st = "foldl replay_step st (map ResponseItem (strip_incomplete_tool_response_items g))"
    have "well_grouped (rp_conversation (replay_step ?st x))"
      using Cons.prems False
      by (intro grouped_item_step) (auto simp: replay_responses intro: well_grouped_append)
    with Cons False show ?thesis by (simp add: strip_groups_other)
  qed
qed

lemma map_filter_all: "(\<And>x y. f x = Some y \<Longrightarrow> P y) \<Longrightarrow> list_all P (List.map_filter f xs)"
  by (induction xs) (auto simp: List.map_filter_simps split: option.splits)


lemma last_boundary_step:
  "find_fork_point t (items @ [x]) =
     (case find_fork_point t items of (b, found) \<Rightarrow>
       case x of
         ResponseItem r \<Rightarrow> if ri_turn_id r = t then (Some (length items), True) else (b, found)
       | TurnContext c \<Rightarrow> if tc_turn_id c = t then (Some (length items), found) else (b, found)
       | _ \<Rightarrow> (b, found))"
  by (simp add: find_fork_point_def enumerate_append_eq enumerate_simps split: prod.split)

text \<open>The turn an item belongs to, as the scan for the fork point reads it.\<close>

fun item_turn :: "rollout_item \<Rightarrow> turn_id option" where
  "item_turn (ResponseItem r) = Some (ri_turn_id r)"
| "item_turn (TurnContext c) = Some (tc_turn_id c)"
| "item_turn _ = None"

definition has_response_of :: "turn_id \<Rightarrow> rollout_item list \<Rightarrow> bool" where
  "has_response_of t items = list_ex (\<lambda>x. is_response x \<and> item_turn x = Some t) items"

lemma find_fork_point_spec:
  "case find_fork_point t items of
     (b, found) \<Rightarrow> found = has_response_of t items \<and>
       (case b of None \<Rightarrow> list_all (\<lambda>x. item_turn x \<noteq> Some t) items
        | Some i \<Rightarrow> i < length items \<and> item_turn (items ! i) = Some t \<and>
            list_all (\<lambda>x. item_turn x \<noteq> Some t) (drop (Suc i) items))"
proof (induction items rule: rev_induct)
  case Nil
  then show ?case by (simp add: find_fork_point_def has_response_of_def)
next
  case (snoc x items)
  obtain b found where f: "find_fork_point t items = (b, found)" by (cases "find_fork_point t items")
  show ?case
    using snoc unfolding f last_boundary_step
    by (cases x; cases b) (auto simp: has_response_of_def nth_append)
qed


definition positions :: "('a \<Rightarrow> bool) \<Rightarrow> 'a list \<Rightarrow> nat list" where
  "positions P xs = filter (\<lambda>i. P (xs ! i)) [0..<length xs]"

lemma positions_simps [simp]:
  "positions P [] = []"
  "positions P (x # xs) = (if P x then [0] else []) @ map Suc (positions P xs)"
proof -
  have "[0..<length (x # xs)] = 0 # map Suc [0..<length xs]"
    by (simp add: map_Suc_upt upt_conv_Cons del: upt_Suc)
  then show "positions P (x # xs) = (if P x then [0] else []) @ map Suc (positions P xs)"
    by (simp add: positions_def filter_map comp_def del: upt_Suc)
qed (simp add: positions_def)

lemma length_positions [simp]: "length (positions P xs) = length (filter P xs)"
  by (induction xs) auto

lemma drop_at_position:
  "n < length (filter P xs) \<Longrightarrow>
   drop (positions P xs ! n) xs \<noteq> [] \<and> P (hd (drop (positions P xs ! n) xs)) \<and>
   length (filter P (drop (positions P xs ! n) xs)) = length (filter P xs) - n"
proof (induction xs arbitrary: n)
  case (Cons x xs)
  then show ?case by (cases n; cases "P x") auto
qed simp

text \<open>\<open>replays_below a b\<close>: same settings, and a conversation that only lacks messages.\<close>

definition replays_below :: "replay_state \<Rightarrow> replay_state \<Rightarrow> bool" where
  "replays_below a b \<longleftrightarrow> rp_reference a = rp_reference b \<and> rp_compaction a = rp_compaction b \<and>
     subseq (rp_conversation a) (rp_conversation b)"

fun is_workflow :: "rollout_item \<Rightarrow> bool" where
  "is_workflow (WorkflowRun _) = True"
| "is_workflow _ = False"

lemma replays_below_step:
  "replays_below a b \<Longrightarrow> \<not> is_workflow x \<Longrightarrow> replays_below (replay_step a x) (replay_step b x)"
  by (cases x) (auto simp: replays_below_def replay_step_def Let_def intro: list_emb_append_mono
    split: option.splits runtime_event_kind.splits)

lemma replays_below_skip:
  "replays_below a b \<Longrightarrow> \<not> keeps_in_thread_fork x \<Longrightarrow> \<not> is_workflow x \<Longrightarrow>
   replays_below a (replay_step b x)"
  by (cases x) (auto simp: replays_below_def replay_step_def keeps_in_thread_fork_def
    split: runtime_event_kind.splits)

lemma strip_groups_below:
  "replays_below a b \<Longrightarrow> list_all (\<lambda>x. \<not> is_workflow x) xs \<Longrightarrow>
   replays_below (foldl replay_step a (strip_groups g (filter keeps_in_thread_fork xs)))
     (foldl replay_step (b\<lparr>rp_conversation := rp_conversation b @ map ri_message g\<rparr>) xs)"
proof (induction xs arbitrary: a b g)
  case Nil
  then show ?case
    by (auto simp: replay_responses replays_below_def
      intro!: list_emb_append_mono subseq_map subseq_strip_items)
next
  case (Cons x xs)
  let ?b = "b\<lparr>rp_conversation := rp_conversation b @ map ri_message g\<rparr>"
  show ?case
  proof (cases "keeps_in_thread_fork x")
    case False
    have "replay_step ?b x = (replay_step b x)
        \<lparr>rp_conversation := rp_conversation (replay_step b x) @ map ri_message g\<rparr>"
      using False Cons.prems(2)
      by (cases x) (auto simp: replay_step_def keeps_in_thread_fork_def
        split: runtime_event_kind.splits)
    with False Cons show ?thesis by (simp add: replays_below_skip)
  next
    case keep: True
    show ?thesis
    proof (cases "is_response x")
      case True
      then obtain r where "x = ResponseItem r" by (cases x) auto
      then show ?thesis using Cons.IH [OF Cons.prems(1), of "g @ [r]"] Cons.prems(2)
        by (simp add: replay_step_def keeps_in_thread_fork_def)
    next
      case False
      let ?a = "foldl replay_step a (map ResponseItem (strip_incomplete_tool_response_items g))"
      have "replays_below ?a ?b"
        using Cons.prems(1) by (auto simp: replay_responses replays_below_def
          intro!: list_emb_append_mono subseq_map subseq_strip_items)
      then have "replays_below (replay_step ?a x) (replay_step ?b x)"
        using Cons.prems(2) by (intro replays_below_step) auto
      from Cons.IH [OF this, of "[]"] Cons.prems(2) keep False show ?thesis
        by (simp add: strip_groups_other)
    qed
  qed
qed

section \<open>Properties\<close>

text \<open>C1: The repair of tool-call groups is exact: afterwards every run of response items is a
  sequence of plain messages and of assistant messages followed by one result for each of their
  tool calls, nothing is added or reordered, and a history is left unchanged precisely when it was
  already of that form.\<close>

theorem tool_groups_repaired:
  "list_all well_grouped (response_runs (strip_incomplete_tool_call_groups items)) \<and>
   subseq (strip_incomplete_tool_call_groups items) items \<and>
   (strip_incomplete_tool_call_groups items = items \<longleftrightarrow>
      list_all well_grouped (response_runs items))"
  unfolding response_runs_def strip_incomplete_tool_call_groups_def
  using strip_groups_runs [of "[]" items] subseq_strip_groups [of "[]" items]
    strip_groups_id [of "[]" items] by auto

text \<open>C2: Whatever the parent's rollout holds, the conversation a subagent replays from its forked
  history answers every tool call with exactly one result and has no stray result; and the fork
  holds only compaction items and response items filed under the synthetic fork turn.\<close>

theorem subagent_fork_grouped:
  "well_grouped (rp_conversation (replay (build_fork_history ps items turns))) \<and>
   list_all (\<lambda>x. case x of ResponseItem r \<Rightarrow> ri_turn_id r = fork_context_turn_id
                | Compacted _ \<Rightarrow> True | _ \<Rightarrow> False) (build_fork_history ps items turns)"
proof -
  let ?ok = "\<lambda>x. case x of ResponseItem r \<Rightarrow> ri_turn_id r = fork_context_turn_id
                | Compacted c \<Rightarrow> True | _ \<Rightarrow> False"
  have f: "list_all (\<lambda>x. ?ok x \<and> grouped_item x) (List.map_filter (filter_item ps b sel turns) items)"
    for b sel
    by (rule map_filter_all)
      (auto simp: filter_item_def grouped_item_def filter_compacted_def response_item_for_turn_def
        Let_def split: rollout_item.splits if_splits option.splits)
  have "list_all ?ok (strip_incomplete_tool_call_groups xs)"
    if "list_all (\<lambda>x. ?ok x \<and> grouped_item x) xs" for xs
    using subseq_strip_groups [of "[]" xs] that
    by (auto simp: strip_incomplete_tool_call_groups_def list_all_iff dest: list_emb_set)
  moreover have "well_grouped (rp_conversation (replay (strip_incomplete_tool_call_groups xs)))"
    if "list_all (\<lambda>x. ?ok x \<and> grouped_item x) xs" for xs
    unfolding replay_def strip_incomplete_tool_call_groups_def
    using that by (intro strip_groups_replay) (auto simp: list_all_iff replay_init_def wg_Nil)
  moreover have "well_grouped (rp_conversation (replay []))"
    by (simp add: replay_def replay_init_def wg_Nil)
  ultimately show ?thesis
    using f by (auto simp: build_fork_history_def Let_def split: fork_turns.splits)
qed

text \<open>Keeping the last turns of a message list cuts it at a turn boundary: the result is empty
  when fewer boundaries exist (or none are asked for), and otherwise it is the suffix that starts
  at a boundary and holds exactly the number of boundaries asked for.\<close>

theorem truncate_to_last_boundaries_spec:
  "let out = truncate_messages_to_last_boundaries ps ms n;
       total = length (filter (is_fork_turn_boundary ps) ms)
   in if n = 0 \<or> total < n then out = []
      else suffix out ms \<and> out \<noteq> [] \<and> is_fork_turn_boundary ps (hd out) \<and>
           length (filter (is_fork_turn_boundary ps) out) = n"
proof -
  let ?P = "is_fork_turn_boundary ps"
  have out: "truncate_messages_to_last_boundaries ps ms n =
    (if n = 0 \<or> length (filter ?P ms) < n then []
     else drop (positions ?P ms ! (length (filter ?P ms) - n)) ms)"
    by (simp add: truncate_messages_to_last_boundaries_def Let_def flip: positions_def)
  show ?thesis
  proof (cases "n = 0 \<or> length (filter ?P ms) < n")
    case False
    then have "0 < n" "n \<le> length (filter ?P ms)" by auto
    then have "length (filter ?P ms) - n < length (filter ?P ms)" by linarith
    from drop_at_position [OF this] False show ?thesis
      unfolding out by (auto simp: Let_def suffix_drop)
  qed (auto simp: out Let_def)
qed

text \<open>A thread fork cuts the parent's history right after the last item of the requested turn:
  it fails exactly when no response of that turn exists, and otherwise the repaired prefix holds a
  response of the turn while nothing of that turn lies behind the cut.\<close>

theorem thread_fork_cut:
  "case build_thread_fork_history items t of
     Inl e \<Rightarrow> \<not> has_response_of t items
   | Inr forked \<Rightarrow> \<exists>n \<le> length items.
       has_response_of t (take n items) \<and> list_all (\<lambda>x. item_turn x \<noteq> Some t) (drop n items) \<and>
       forked = strip_incomplete_tool_call_groups (filter keeps_in_thread_fork (take n items))"
proof -
  obtain b found where f: "find_fork_point t items = (b, found)" by (cases "find_fork_point t items")
  show ?thesis
  proof (cases found)
    case False
    then show ?thesis
      using find_fork_point_spec [of t items] f by (simp add: build_thread_fork_history_def)
  next
    case True
    then have has: "has_response_of t items" using find_fork_point_spec [of t items] f by simp
    then obtain i where i: "b = Some i" "i < length items"
      "list_all (\<lambda>x. item_turn x \<noteq> Some t) (drop (Suc i) items)"
      using find_fork_point_spec [of t items] f
      by (auto simp: has_response_of_def list_all_iff list_ex_iff split: option.splits)
    have "has_response_of t (take (Suc i) items @ drop (Suc i) items)"
      using has by (simp only: append_take_drop_id)
    then have "has_response_of t (take (Suc i) items) \<or> has_response_of t (drop (Suc i) items)"
      unfolding has_response_of_def list_ex_append .
    with i(3) have "has_response_of t (take (Suc i) items)"
      by (auto simp: has_response_of_def list_all_iff list_ex_iff)
    with True f i show ?thesis
      by (auto simp: build_thread_fork_history_def intro!: exI [of _ "Suc i"])
  qed
qed


text \<open>Fork at the second of three turns; its tool call has no result yet.\<close>

definition sample_fork_items :: "rollout_item list" where
  "sample_fork_items =
     [ResponseItem (response_item_for_turn ''t1'' (msg_user ''hi'')),
      ResponseItem (response_item_for_turn ''t2'' (msg_user ''go'')),
      ResponseItem (response_item_for_turn ''t2'' (msg_assistant None
        [\<lparr>tc_id = ''c1'', tc_name = ''ls'', tc_arguments = JNull, tc_thought_signature = None\<rparr>])),
      ResponseItem (response_item_for_turn ''t3'' (msg_user ''more''))]"

lemma sample_fork:
  "build_thread_fork_history sample_fork_items ''t2'' = Inr (take 2 sample_fork_items)"
  by code_simp


end
