(* ===== verification/Policy.thy ===== *)
theory Policy
  imports Session "HOL-Library.Multiset"
begin

text \<open>
  The command policy of \<^verbatim>\<open>src/runtime/policy.rs\<close>: the classification of a command line, and
  the manager of pending command approvals and user-input requests. The hash maps are association
  lists in iteration order; the process-wide counters are part of the state; the clock is an
  argument.
\<close>

section \<open>Classification\<close>

datatype policy_decision = Allow | Deny | ReviewRequired

definition hard_deny_reason :: "string \<Rightarrow> string option" where
  "hard_deny_reason command =
     (let normalized = trim command in
      if str_contains ''rm -rf /'' normalized \<or> str_contains ''mkfs'' normalized
      then Some ''command matched a hard-deny policy pattern'' else None)"

definition review_patterns :: "string list" where
  "review_patterns = [''rm -rf'', ''git reset --hard'', ''git checkout --'', ''shutdown'', ''reboot'']"

definition review_required_reason :: "string \<Rightarrow> string option" where
  "review_required_reason command =
     (if list_ex (\<lambda>p. str_contains p command) review_patterns
      then Some ''risky command matched approval policy'' else None)"

definition classify_command :: "policy_mode \<Rightarrow> string \<Rightarrow> policy_decision \<times> string option" where
  "classify_command mode command =
     (case hard_deny_reason command of
        Some reason \<Rightarrow> (Deny, Some reason)
      | None \<Rightarrow>
          if mode = PolicyEnforced then
            (case review_required_reason command of
               Some reason \<Rightarrow> (ReviewRequired, Some reason)
             | None \<Rightarrow> (Allow, None))
          else (Allow, None))"

section \<open>State\<close>

record pending_command_approval =
  pc_approval_id :: string
  pc_thread_id :: thread_id
  pc_tool_name :: string
  pc_command :: string
  pc_cwd :: string
  pc_timeout_secs :: "nat option"
  pc_persistent :: bool
  pc_reason :: string
  pc_checkpoint_id :: "string option"

datatype pending_approval_detail =
    DetailCommand string string string "nat option" bool string

record pending_approval_summary =
  ps_thread_id :: thread_id
  ps_approval_id :: string
  ps_detail :: pending_approval_detail
  ps_requested_at_ms :: nat
  ps_checkpoint_id :: "string option"

record pending_command_record =
  pr_approval :: pending_command_approval
  pr_requested_at_ms :: nat
  pr_created_order :: nat
  pr_checkpoint_id :: "string option"

record user_input_request =
  ui_request_id :: string
  ui_thread_id :: thread_id
  ui_tool_name :: string
  ui_questions :: "question_prompt list"
  ui_answers :: "string list list option"

record policy_manager =
  pm_pending :: "(string, pending_command_record) hmap"
  pm_inputs :: "(string, user_input_request) hmap"
  pm_next_id :: nat
  pm_next_order :: nat
  pm_next_event :: nat

definition policy_new :: policy_manager where
  "policy_new = \<lparr>pm_pending = [], pm_inputs = [], pm_next_id = 1, pm_next_order = 1,
     pm_next_event = 1\<rparr>"

definition new_approval_id :: "policy_manager \<Rightarrow> string \<times> policy_manager" where
  "new_approval_id s =
     (''approval_'' @ show_nat (pm_next_id s), s\<lparr>pm_next_id := u64_wrap_succ (pm_next_id s)\<rparr>)"

definition new_policy_event_id :: "policy_manager \<Rightarrow> event_id \<times> policy_manager" where
  "new_policy_event_id s =
     (''approval_evt_'' @ show_nat (pm_next_event s),
      s\<lparr>pm_next_event := u64_wrap_succ (pm_next_event s)\<rparr>)"

definition new_record ::
  "nat \<Rightarrow> pending_command_approval \<Rightarrow> policy_manager \<Rightarrow> pending_command_record \<times> policy_manager" where
  "new_record now a s =
     (\<lparr>pr_approval = a, pr_requested_at_ms = now, pr_created_order = pm_next_order s,
       pr_checkpoint_id = pc_checkpoint_id a\<rparr>,
      s\<lparr>pm_next_order := u64_wrap_succ (pm_next_order s)\<rparr>)"

definition record_summary :: "pending_command_record \<Rightarrow> pending_approval_summary" where
  "record_summary r =
     (let a = pr_approval r in
      \<lparr>ps_thread_id = pc_thread_id a, ps_approval_id = pc_approval_id a,
       ps_detail = DetailCommand (pc_tool_name a) (pc_command a) (pc_cwd a) (pc_timeout_secs a)
         (pc_persistent a) (pc_reason a),
       ps_requested_at_ms = pr_requested_at_ms r, ps_checkpoint_id = pr_checkpoint_id r\<rparr>)"

section \<open>Command approvals\<close>

definition create_command_approval ::
  "nat \<Rightarrow> thread_id \<Rightarrow> string \<Rightarrow> string \<Rightarrow> string \<Rightarrow> nat option \<Rightarrow> bool \<Rightarrow> string \<Rightarrow> policy_manager \<Rightarrow>
   pending_command_approval \<times> policy_manager" where
  "create_command_approval now t tool command cwd timeout persistent reason s =
     (let (i, s1) = new_approval_id s;
          a = \<lparr>pc_approval_id = i, pc_thread_id = t, pc_tool_name = tool, pc_command = command,
               pc_cwd = cwd, pc_timeout_secs = timeout, pc_persistent = persistent,
               pc_reason = reason, pc_checkpoint_id = None\<rparr>;
          (r, s2) = new_record now a s1
      in (a, s2\<lparr>pm_pending := AList.update (pc_approval_id a) r (pm_pending s2)\<rparr>))"

definition restore_command_approval ::
  "nat \<Rightarrow> pending_command_approval \<Rightarrow> policy_manager \<Rightarrow> policy_manager" where
  "restore_command_approval now a s =
     (let key = pc_approval_id a in
      case map_of (pm_pending s) key of
        Some r \<Rightarrow>
          (let cp = (case pc_checkpoint_id a of None \<Rightarrow> pr_checkpoint_id r | Some c \<Rightarrow> Some c);
               r' = r\<lparr>pr_approval := a\<lparr>pc_checkpoint_id := cp\<rparr>, pr_checkpoint_id := cp\<rparr>
           in s\<lparr>pm_pending := AList.update key r' (pm_pending s)\<rparr>)
      | None \<Rightarrow>
          (let (r, s1) = new_record now a s
           in s1\<lparr>pm_pending := AList.update key r (pm_pending s1)\<rparr>))"

definition attach_checkpoint_id ::
  "string \<Rightarrow> string \<Rightarrow> policy_manager \<Rightarrow> bool \<times> policy_manager" where
  "attach_checkpoint_id i cp s =
     (case map_of (pm_pending s) i of
        None \<Rightarrow> (False, s)
      | Some r \<Rightarrow>
          (True, s\<lparr>pm_pending := AList.update i
             (r\<lparr>pr_checkpoint_id := Some cp,
                pr_approval := (pr_approval r)\<lparr>pc_checkpoint_id := Some cp\<rparr>\<rparr>) (pm_pending s)\<rparr>))"

definition list_pending :: "policy_manager \<Rightarrow> pending_approval_summary list" where
  "list_pending s = map record_summary (sort_key pr_created_order (hm_values (pm_pending s)))"

definition take_pending_command ::
  "string \<Rightarrow> policy_manager \<Rightarrow> (string + pending_command_approval) \<times> policy_manager" where
  "take_pending_command i s =
     (case map_of (pm_pending s) i of
        None \<Rightarrow> (Inl (''unknown approval id: '' @ i), s)
      | Some r \<Rightarrow> (Inr ((pr_approval r)\<lparr>pc_checkpoint_id := pr_checkpoint_id r\<rparr>),
                   s\<lparr>pm_pending := AList.delete i (pm_pending s)\<rparr>))"

definition cancel_pending_for_thread :: "thread_id \<Rightarrow> policy_manager \<Rightarrow> policy_manager" where
  "cancel_pending_for_thread t s =
     s\<lparr>pm_pending := hm_retain (\<lambda>_ r. pc_thread_id (pr_approval r) \<noteq> t) (pm_pending s),
       pm_inputs := hm_retain (\<lambda>_ r. ui_thread_id r \<noteq> t) (pm_inputs s)\<rparr>"

definition pending_count_for_thread :: "thread_id \<Rightarrow> policy_manager \<Rightarrow> nat" where
  "pending_count_for_thread t s =
     length (filter (\<lambda>r. pc_thread_id (pr_approval r) = t) (hm_values (pm_pending s))) +
     length (filter (\<lambda>r. ui_thread_id r = t) (hm_values (pm_inputs s)))"

section \<open>User-input requests\<close>

definition create_user_input_request ::
  "thread_id \<Rightarrow> string \<Rightarrow> question_prompt list \<Rightarrow> policy_manager \<Rightarrow>
   user_input_request \<times> policy_manager" where
  "create_user_input_request t tool qs s =
     (let (i, s1) = new_approval_id s;
          r = \<lparr>ui_request_id = i, ui_thread_id = t, ui_tool_name = tool, ui_questions = qs,
               ui_answers = None\<rparr>
      in (r, s1\<lparr>pm_inputs := AList.update i r (pm_inputs s1)\<rparr>))"

definition restore_user_input_request :: "user_input_request \<Rightarrow> policy_manager \<Rightarrow> policy_manager" where
  "restore_user_input_request r s =
     s\<lparr>pm_inputs := AList.update (ui_request_id r) r (pm_inputs s)\<rparr>"

definition submit_user_input_answers ::
  "string \<Rightarrow> string list list \<Rightarrow> policy_manager \<Rightarrow> (string + unit) \<times> policy_manager" where
  "submit_user_input_answers i answers s =
     (case map_of (pm_inputs s) i of
        None \<Rightarrow> (Inl (''unknown user input request id: '' @ i), s)
      | Some r \<Rightarrow> (Inr (), s\<lparr>pm_inputs :=
                    AList.update i (r\<lparr>ui_answers := Some answers\<rparr>) (pm_inputs s)\<rparr>))"

definition take_pending_user_input ::
  "string \<Rightarrow> policy_manager \<Rightarrow> (string + user_input_request) \<times> policy_manager" where
  "take_pending_user_input i s =
     (case map_of (pm_inputs s) i of
        None \<Rightarrow> (Inl (''unknown user input request id: '' @ i), s)
      | Some r \<Rightarrow> (Inr r, s\<lparr>pm_inputs := AList.delete i (pm_inputs s)\<rparr>))"

definition has_pending_user_input_for_thread :: "thread_id \<Rightarrow> policy_manager \<Rightarrow> bool" where
  "has_pending_user_input_for_thread t s =
     list_ex (\<lambda>r. ui_thread_id r = t) (hm_values (pm_inputs s))"

section \<open>The interface of a table of pending requests\<close>

text \<open>
  Both tables hand a request out at most once: the one who takes it owns it until it is restored.
\<close>

locale pending_table =
  fixes lookup :: "'s \<Rightarrow> string \<Rightarrow> 'v option"
    and put :: "'v \<Rightarrow> 's \<Rightarrow> 's"
    and take_out :: "string \<Rightarrow> 's \<Rightarrow> (string + 'v) \<times> 's"
    and key :: "'v \<Rightarrow> string"
  assumes take_known: "lookup s k = Some v \<Longrightarrow> fst (take_out k s) = Inr v"
    and take_unknown: "lookup s k = None \<Longrightarrow> isl (fst (take_out k s)) \<and> snd (take_out k s) = s"
    and take_lookup: "lookup (snd (take_out k s)) j = (if j = k then None else lookup s j)"
    and put_new: "lookup s (key v) = None \<Longrightarrow> lookup (put v s) (key v) = Some v"
    and put_other: "j \<noteq> key v \<Longrightarrow> lookup (put v s) j = lookup s j"
begin

lemma taken_once: "isl (fst (take_out k (snd (take_out k s))))"
  using take_unknown [of "snd (take_out k s)" k] take_lookup [of k s k] by simp

lemma taken_by_one:
  "fst (take_out k s) = Inr v \<longleftrightarrow> lookup s k = Some v"
  using take_known [of s k] take_unknown [of s k] by (cases "lookup s k") auto

lemma restore_undoes_take:
  assumes "fst (take_out k s) = Inr v" "key v = k"
  shows "lookup (put v (snd (take_out k s))) j = lookup s j"
proof (cases "j = k")
  case True
  then show ?thesis
    using assms put_new [of "snd (take_out k s)" v] by (simp add: take_lookup taken_by_one)
next
  case False
  then show ?thesis using assms(2) by (simp add: put_other take_lookup)
qed

end

definition lookup_approval :: "policy_manager \<Rightarrow> string \<Rightarrow> pending_command_approval option" where
  "lookup_approval s i =
     map_option (\<lambda>r. (pr_approval r)\<lparr>pc_checkpoint_id := pr_checkpoint_id r\<rparr>) (map_of (pm_pending s) i)"

definition lookup_input :: "policy_manager \<Rightarrow> string \<Rightarrow> user_input_request option" where
  "lookup_input s i = map_of (pm_inputs s) i"

interpretation approvals: pending_table lookup_approval "restore_command_approval now"
  take_pending_command pc_approval_id for now
  by unfold_locales
    (auto simp: lookup_approval_def take_pending_command_def restore_command_approval_def
      new_record_def Let_def update_conv' delete_conv' split: option.splits)

interpretation inputs: pending_table lookup_input restore_user_input_request
  take_pending_user_input ui_request_id
  by unfold_locales
    (auto simp: lookup_input_def take_pending_user_input_def restore_user_input_request_def
      update_conv' delete_conv' split: option.splits)


section \<open>The pending approvals as a queue\<close>

text \<open>
  What a client sees of the pending approvals: the approvals with the time of the request, in
  creation order. Every operation is an operation on this queue, whatever the iteration order of
  the hash map is.
\<close>

datatype policy_op =
    OpCreate nat thread_id string string string "nat option" bool string
  | OpRestore nat pending_command_approval
  | OpAttach string string
  | OpTake string
  | OpCancel thread_id

fun exec_op :: "policy_manager \<Rightarrow> policy_op \<Rightarrow> policy_manager" where
  "exec_op s (OpCreate now t tool c cwd to p reason) =
     snd (create_command_approval now t tool c cwd to p reason s)"
| "exec_op s (OpRestore now a) = restore_command_approval now a s"
| "exec_op s (OpAttach i cp) = snd (attach_checkpoint_id i cp s)"
| "exec_op s (OpTake i) = snd (take_pending_command i s)"
| "exec_op s (OpCancel t) = cancel_pending_for_thread t s"

definition exec_ops :: "policy_op list \<Rightarrow> policy_manager" where
  "exec_ops ops = foldl exec_op policy_new ops"

type_synonym approval_queue = "(pending_command_approval \<times> nat) list"

definition queue_set :: "string \<Rightarrow> (pending_command_approval \<Rightarrow> pending_command_approval) \<Rightarrow>
    approval_queue \<Rightarrow> approval_queue" where
  "queue_set i f q = map (\<lambda>(a, at). if pc_approval_id a = i then (f a, at) else (a, at)) q"

definition in_queue :: "string \<Rightarrow> approval_queue \<Rightarrow> bool" where
  "in_queue i q = list_ex (\<lambda>(a, _). pc_approval_id a = i) q"

definition keep_checkpoint ::
  "pending_command_approval \<Rightarrow> pending_command_approval \<Rightarrow> pending_command_approval" where
  "keep_checkpoint new old = new\<lparr>pc_checkpoint_id :=
     (case pc_checkpoint_id new of None \<Rightarrow> pc_checkpoint_id old | Some c \<Rightarrow> Some c)\<rparr>"

fun queue_op :: "nat \<times> approval_queue \<Rightarrow> policy_op \<Rightarrow> nat \<times> approval_queue" where
  "queue_op (n, q) (OpCreate now t tool c cwd to p reason) =
     (let i = ''approval_'' @ show_nat n in
      (u64_wrap_succ n, filter (\<lambda>(a, _). pc_approval_id a \<noteq> i) q @
        [(\<lparr>pc_approval_id = i, pc_thread_id = t, pc_tool_name = tool, pc_command = c,
           pc_cwd = cwd, pc_timeout_secs = to, pc_persistent = p,
           pc_reason = reason, pc_checkpoint_id = None\<rparr>, now)]))"
| "queue_op (n, q) (OpRestore now a) =
     (n, if in_queue (pc_approval_id a) q then queue_set (pc_approval_id a) (keep_checkpoint a) q
         else q @ [(a, now)])"
| "queue_op (n, q) (OpAttach i cp) = (n, queue_set i (\<lambda>a. a\<lparr>pc_checkpoint_id := Some cp\<rparr>) q)"
| "queue_op (n, q) (OpTake i) = (n, filter (\<lambda>(a, _). pc_approval_id a \<noteq> i) q)"
| "queue_op (n, q) (OpCancel t) = (n, filter (\<lambda>(a, _). pc_thread_id a \<noteq> t) q)"

definition queue_ops :: "policy_op list \<Rightarrow> nat \<times> approval_queue" where
  "queue_ops ops = foldl queue_op (1, []) ops"

definition queue_summary :: "pending_command_approval \<times> nat \<Rightarrow> pending_approval_summary" where
  "queue_summary x = (case x of (a, at) \<Rightarrow>
     \<lparr>ps_thread_id = pc_thread_id a, ps_approval_id = pc_approval_id a,
      ps_detail = DetailCommand (pc_tool_name a) (pc_command a) (pc_cwd a) (pc_timeout_secs a)
        (pc_persistent a) (pc_reason a),
      ps_requested_at_ms = at, ps_checkpoint_id = pc_checkpoint_id a\<rparr>)"

definition rec_ok :: "nat \<Rightarrow> string \<times> pending_command_record \<Rightarrow> bool" where
  "rec_ok n kr = (case kr of (k, r) \<Rightarrow> pc_approval_id (pr_approval r) = k \<and> pr_created_order r < n \<and>
     pr_checkpoint_id r = pc_checkpoint_id (pr_approval r))"

definition pm_inv :: "policy_manager \<Rightarrow> bool" where
  "pm_inv s \<longleftrightarrow> hm_ok (pm_pending s) \<and> list_all (rec_ok (pm_next_order s)) (pm_pending s) \<and>
     distinct (map pr_created_order (hm_values (pm_pending s)))"

definition rec_entry :: "pending_command_record \<Rightarrow> pending_command_approval \<times> nat" where
  "rec_entry r = (pr_approval r, pr_requested_at_ms r)"

definition pm_queue :: "policy_manager \<Rightarrow> nat \<times> approval_queue" where
  "pm_queue s = (pm_next_id s, map rec_entry (sort_key pr_created_order (hm_values (pm_pending s))))"

text \<open>Hash-map operations as list operations on the values.\<close>

lemma update_values_new:
  "map_of m k = None \<Longrightarrow> AList.update k v m = m @ [(k, v)]"
  by (induction m) (auto split: if_splits)

lemma update_values_old:
  "hm_ok m \<Longrightarrow> map_of m k \<noteq> None \<Longrightarrow>
   AList.update k v m = map (\<lambda>(j, w). if j = k then (j, v) else (j, w)) m"
proof (induction m)
  case (Cons x m)
  obtain j w where x: "x = (j, w)" by (cases x)
  show ?case
  proof (cases "j = k")
    case True
    have "map (\<lambda>(j, w). if j = k then (j, v) else (j, w)) m = map id m"
      using Cons.prems(1) True x by (intro map_cong) (auto simp: hm_ok_def rev_image_eqI)
    with True x show ?thesis by simp
  next
    case False
    with Cons x show ?thesis by (simp add: hm_ok_def)
  qed
qed simp

lemma mset_update:
  "hm_ok m \<Longrightarrow> mset (AList.update k v m) = add_mset (k, v) (mset (AList.delete k m))"
proof (induction m)
  case (Cons x m)
  have "AList.delete (fst x) m = m" if "fst x \<notin> fst ` set m" using that by (simp add: delete_id)
  with Cons show ?case by (cases x) (auto simp: hm_ok_def)
qed simp

lemma insort_key_map: "insort_key f (g x) (map g xs) = map g (insort_key (\<lambda>a. f (g a)) x xs)"
  by (induction xs) auto

lemma sort_key_map: "sort_key f (map g xs) = map g (sort_key (\<lambda>a. f (g a)) xs)"
  by (induction xs) (auto simp: insort_key_map)

lemma insort_key_snoc: "f x < f v \<Longrightarrow> insort_key f x (ys @ [v]) = insort_key f x ys @ [v]"
  by (induction ys) auto

lemma sort_key_snoc: "\<forall>x \<in> set xs. f x < f v \<Longrightarrow> sort_key f (xs @ [v]) = sort_key f xs @ [v]"
  by (induction xs) (auto simp: insort_key_snoc)

lemma sort_key_mset:
  "mset xs = mset ys \<Longrightarrow> distinct (map f xs) \<Longrightarrow> sort_key f xs = sort_key f ys"
  by (rule sort_key_inj_key_eq) (auto simp: distinct_map)


definition sorted_values :: "(string, pending_command_record) hmap \<Rightarrow> pending_command_record list" where
  "sorted_values m = sort_key pr_created_order (hm_values m)"

lemma delete_values:
  "list_all (rec_ok n) m \<Longrightarrow>
   hm_values (AList.delete k m) = filter (\<lambda>r. pc_approval_id (pr_approval r) \<noteq> k) (hm_values m)"
  by (induction m) (auto simp: hm_values_def rec_ok_def)

lemma retain_values: "hm_values (hm_retain (\<lambda>_. P) m) = filter P (hm_values m)"
  by (induction m) (auto simp: hm_values_def hm_retain_def)

lemma sorted_values_filter:
  "hm_values m' = filter P (hm_values m) \<Longrightarrow> sorted_values m' = filter P (sorted_values m)"
  by (simp add: sorted_values_def filter_sort)

lemma filter_rec_entry:
  "map rec_entry (filter (\<lambda>r. P (pr_approval r)) rs) = filter (\<lambda>(a, _). P a) (map rec_entry rs)"
  by (induction rs) (auto simp: rec_entry_def)

lemma list_all_delete: "list_all P m \<Longrightarrow> list_all P (AList.delete k m)"
  by (induction m) auto

lemma rec_ok_mono: "list_all (rec_ok n) m \<Longrightarrow> n \<le> n' \<Longrightarrow> list_all (rec_ok n') m"
  by (auto simp: list_all_iff rec_ok_def)

text \<open>Adding a record with the next order puts it at the end.\<close>

lemma sorted_values_insert:
  assumes "hm_ok m" "list_all (rec_ok n) m" "distinct (map pr_created_order (hm_values m))"
    and "pr_created_order r = n" "pc_approval_id (pr_approval r) = k"
    and "pr_checkpoint_id r = pc_checkpoint_id (pr_approval r)"
  shows "sorted_values (AList.update k r m) =
      filter (\<lambda>r. pc_approval_id (pr_approval r) \<noteq> k) (sorted_values m) @ [r]"
    and "list_all (rec_ok (Suc n)) (AList.update k r m)"
    and "distinct (map pr_created_order (hm_values (AList.update k r m)))"
proof -
  let ?d = "AList.delete k m"
  let ?vs = "filter (\<lambda>r. pc_approval_id (pr_approval r) \<noteq> k) (hm_values m)"
  have d: "hm_values ?d = ?vs" using assms(2) by (rule delete_values)
  have "image_mset snd (mset (AList.update k r m)) = add_mset r (image_mset snd (mset ?d))"
    using assms(1) by (simp add: mset_update)
  then have mset: "mset (hm_values (AList.update k r m)) = mset (?vs @ [r])"
    using arg_cong [OF d, of mset] by (simp add: hm_values_def)
  have less: "\<forall>x \<in> set (hm_values m). pr_created_order x < pr_created_order r"
    using assms(2,4) by (auto simp: hm_values_def list_all_iff rec_ok_def)
  have dist: "distinct (map pr_created_order (?vs @ [r]))"
    using less assms(3) by (fastforce simp: distinct_map_filter)
  have "mset (map pr_created_order (hm_values (AList.update k r m))) =
      mset (map pr_created_order (?vs @ [r]))" using mset by simp
  then show dist': "distinct (map pr_created_order (hm_values (AList.update k r m)))"
    using dist mset_eq_imp_distinct_iff by blast
  show "sorted_values (AList.update k r m) =
      filter (\<lambda>r. pc_approval_id (pr_approval r) \<noteq> k) (sorted_values m) @ [r]"
    unfolding sorted_values_def sort_key_mset [OF mset dist'] using less
    by (simp add: sort_key_snoc filter_sort)
  have "set (AList.update k r m) = insert (k, r) (set ?d)"
    using assms(1) by (metis mset_update set_mset_add_mset_insert set_mset_mset)
  moreover have "list_all (rec_ok (Suc n)) ?d"
    using rec_ok_mono [OF assms(2), of "Suc n"] by (simp add: list_all_delete)
  ultimately show "list_all (rec_ok (Suc n)) (AList.update k r m)"
    using assms(4-6) by (auto simp: list_all_iff rec_ok_def)
qed

text \<open>Replacing a record by one of the same order changes it in place.\<close>

lemma sorted_values_replace:
  assumes "hm_ok m" "list_all (rec_ok n) m" "distinct (map pr_created_order (hm_values m))"
    and "map_of m k = Some r0" "pr_created_order r = pr_created_order r0"
    and "pc_approval_id (pr_approval r) = k"
    and "pr_checkpoint_id r = pc_checkpoint_id (pr_approval r)"
  shows "sorted_values (AList.update k r m) =
      map (\<lambda>x. if pc_approval_id (pr_approval x) = k then r else x) (sorted_values m)"
    and "list_all (rec_ok n) (AList.update k r m)"
    and "distinct (map pr_created_order (hm_values (AList.update k r m)))"
proof -
  let ?g = "\<lambda>x. if pc_approval_id (pr_approval x) = k then r else x"
  have upd: "AList.update k r m = map (\<lambda>(j, w). if j = k then (j, r) else (j, w)) m"
    using assms(1,4) by (simp add: update_values_old)
  have vals: "hm_values (AList.update k r m) = map ?g (hm_values m)"
    unfolding upd hm_values_def using assms(2)
    by (auto simp: list_all_iff rec_ok_def split: prod.splits)
  have same: "pr_created_order (?g x) = pr_created_order x" if "x \<in> set (hm_values m)" for x
  proof -
    from that obtain j where "(j, x) \<in> set m" by (auto simp: hm_values_def)
    moreover from this have "pc_approval_id (pr_approval x) = j"
      using assms(2) by (auto simp: list_all_iff rec_ok_def)
    ultimately show ?thesis
      using assms(1,4,5) by (auto simp: hm_ok_def dest: eq_key_imp_eq_value)
  qed
  have orders: "map (\<lambda>x. pr_created_order (?g x)) (hm_values m) =
      map pr_created_order (hm_values m)" using same by auto
  show dist: "distinct (map pr_created_order (hm_values (AList.update k r m)))"
    unfolding vals map_map comp_def orders by (rule assms(3))
  have sk: "sort_key (\<lambda>x. pr_created_order (?g x)) (hm_values m) =
      sort_key pr_created_order (hm_values m)"
  proof (rule sort_key_inj_key_eq)
    have e: "map (\<lambda>x. pr_created_order (?g x)) (sort_key pr_created_order (hm_values m)) =
        map pr_created_order (sort_key pr_created_order (hm_values m))"
      using same by (intro map_cong) auto
    show "sorted (map (\<lambda>x. pr_created_order (?g x)) (sort_key pr_created_order (hm_values m)))"
      unfolding e by (rule sorted_sort_key)
    show "inj_on (\<lambda>x. pr_created_order (?g x)) (set (hm_values m))"
    proof -
      have "distinct (map (\<lambda>x. pr_created_order (?g x)) (hm_values m))"
        unfolding orders by (rule assms(3))
      then show ?thesis by (simp only: distinct_map)
    qed
  qed simp
  show "sorted_values (AList.update k r m) = map ?g (sorted_values m)"
    unfolding sorted_values_def vals sort_key_map sk ..
  have "rec_ok n (k, r0)" using assms(2,4) by (auto simp: list_all_iff dest: map_of_SomeD)
  then have "rec_ok n (k, r)" using assms(5-7) by (simp add: rec_ok_def)
  then show "list_all (rec_ok n) (AList.update k r m)"
    unfolding upd using assms(2) by (auto simp: list_all_iff)
qed


lemma delete_inv:
  assumes "pm_inv s"
  shows "pm_inv (s\<lparr>pm_pending := AList.delete i (pm_pending s)\<rparr>)"
    and "pm_queue (s\<lparr>pm_pending := AList.delete i (pm_pending s)\<rparr>) =
      (pm_next_id s, filter (\<lambda>(a, _). pc_approval_id a \<noteq> i) (snd (pm_queue s)))"
proof -
  let ?P = "\<lambda>r. pc_approval_id (pr_approval r) \<noteq> i"
  have d: "hm_values (AList.delete i (pm_pending s)) = filter ?P (hm_values (pm_pending s))"
    using assms delete_values by (auto simp: pm_inv_def)
  then show "pm_inv (s\<lparr>pm_pending := AList.delete i (pm_pending s)\<rparr>)"
    using assms by (auto simp: pm_inv_def list_all_delete distinct_map_filter)
  show "pm_queue (s\<lparr>pm_pending := AList.delete i (pm_pending s)\<rparr>) =
      (pm_next_id s, filter (\<lambda>(a, _). pc_approval_id a \<noteq> i) (snd (pm_queue s)))"
    using sorted_values_filter [OF d]
    by (simp add: pm_queue_def sorted_values_def filter_rec_entry [of "\<lambda>a. pc_approval_id a \<noteq> i"])
qed

lemma pm_inv_pending:
  "pm_inv s \<Longrightarrow> hm_ok (pm_pending s)"
  "pm_inv s \<Longrightarrow> list_all (rec_ok (pm_next_order s)) (pm_pending s)"
  "pm_inv s \<Longrightarrow> distinct (map pr_created_order (hm_values (pm_pending s)))"
  by (simp_all add: pm_inv_def)

lemma in_queue_iff:
  assumes "pm_inv s"
  shows "in_queue i (snd (pm_queue s)) \<longleftrightarrow> map_of (pm_pending s) i \<noteq> None"
proof -
  have "in_queue i (snd (pm_queue s)) \<longleftrightarrow>
      (\<exists>r \<in> set (hm_values (pm_pending s)). pc_approval_id (pr_approval r) = i)"
    by (auto simp: pm_queue_def in_queue_def list_ex_iff rec_entry_def)
  also have "\<dots> \<longleftrightarrow> i \<in> fst ` set (pm_pending s)"
    using pm_inv_pending(2) [OF assms]
    by (force simp: hm_values_def list_all_iff rec_ok_def)
  finally show ?thesis by (simp add: map_of_eq_None_iff)
qed

lemma queue_set_entry:
  assumes "\<And>r. r \<in> set rs \<Longrightarrow> pc_approval_id (pr_approval r) = i \<Longrightarrow>
    rec_entry r' = (f (pr_approval r), pr_requested_at_ms r)"
  shows "map rec_entry (map (\<lambda>x. if pc_approval_id (pr_approval x) = i then r' else x) rs) =
    queue_set i f (map rec_entry rs)"
  using assms by (induction rs) (auto simp: queue_set_def rec_entry_def)

lemma replace_inv:
  assumes "pm_inv s" "map_of (pm_pending s) i = Some r0"
    and "r = r0\<lparr>pr_approval := f (pr_approval r0), pr_checkpoint_id := pc_checkpoint_id (f (pr_approval r0))\<rparr>"
    and "pc_approval_id (f (pr_approval r0)) = i"
  shows "pm_inv (s\<lparr>pm_pending := AList.update i r (pm_pending s)\<rparr>)"
    and "pm_queue (s\<lparr>pm_pending := AList.update i r (pm_pending s)\<rparr>) =
      (pm_next_id s, queue_set i f (snd (pm_queue s)))"
proof -
  have r: "pr_created_order r = pr_created_order r0" "pc_approval_id (pr_approval r) = i"
    "pr_checkpoint_id r = pc_checkpoint_id (pr_approval r)"
    using assms(3,4) by auto
  note sv = sorted_values_replace [OF pm_inv_pending [OF assms(1)] assms(2) r]
  show "pm_inv (s\<lparr>pm_pending := AList.update i r (pm_pending s)\<rparr>)"
    using sv(2,3) pm_inv_pending(1) [OF assms(1)] by (simp add: pm_inv_def)
  have only: "x = r0" if "x \<in> set (hm_values (pm_pending s))" "pc_approval_id (pr_approval x) = i" for x
  proof -
    from that(1) obtain j where j: "(j, x) \<in> set (pm_pending s)" by (auto simp: hm_values_def)
    then have "j = i" using that(2) pm_inv_pending(2) [OF assms(1)]
      by (auto simp: list_all_iff rec_ok_def)
    with j show ?thesis
      using assms(2) pm_inv_pending(1) [OF assms(1)] by (auto simp: hm_ok_def)
  qed
  have "map rec_entry (sorted_values (AList.update i r (pm_pending s))) =
      queue_set i f (map rec_entry (sorted_values (pm_pending s)))"
    unfolding sv(1)
    by (rule queue_set_entry) (use assms(3) only in \<open>auto simp: rec_entry_def sorted_values_def\<close>)
  then show "pm_queue (s\<lparr>pm_pending := AList.update i r (pm_pending s)\<rparr>) =
      (pm_next_id s, queue_set i f (snd (pm_queue s)))"
    by (simp add: pm_queue_def sorted_values_def)
qed

lemma insert_inv:
  assumes "pm_inv s" "Suc (pm_next_order s) < 2 ^ 64" "new_record now a s = (r, s')"
  shows "pm_inv (s'\<lparr>pm_pending := AList.update (pc_approval_id a) r (pm_pending s)\<rparr>)"
    and "pm_queue (s'\<lparr>pm_pending := AList.update (pc_approval_id a) r (pm_pending s)\<rparr>) =
      (pm_next_id s, filter (\<lambda>(b, _). pc_approval_id b \<noteq> pc_approval_id a) (snd (pm_queue s)) @ [(a, now)])"
    and "pm_next_order s' = Suc (pm_next_order s)"
proof -
  have r: "pr_created_order r = pm_next_order s" "pr_approval r = a"
    "pr_checkpoint_id r = pc_checkpoint_id (pr_approval r)" "pr_requested_at_ms r = now"
    and s': "s' = s\<lparr>pm_next_order := Suc (pm_next_order s)\<rparr>"
    using assms(2,3) by (auto simp: new_record_def u64_wrap_succ_def)
  have k: "pc_approval_id (pr_approval r) = pc_approval_id a" using r by simp
  note sv = sorted_values_insert [OF pm_inv_pending [OF assms(1)] r(1) k r(3)]
  show "pm_inv (s'\<lparr>pm_pending := AList.update (pc_approval_id a) r (pm_pending s)\<rparr>)"
    using sv(2,3) pm_inv_pending(1) [OF assms(1)] by (simp add: pm_inv_def s')
  show "pm_queue (s'\<lparr>pm_pending := AList.update (pc_approval_id a) r (pm_pending s)\<rparr>) =
      (pm_next_id s, filter (\<lambda>(b, _). pc_approval_id b \<noteq> pc_approval_id a) (snd (pm_queue s)) @ [(a, now)])"
    using sv(1) r(2,4)
    by (simp add: pm_queue_def s' sorted_values_def rec_entry_def [of r]
      filter_rec_entry [of "\<lambda>b. pc_approval_id b \<noteq> pc_approval_id a"])
  show "pm_next_order s' = Suc (pm_next_order s)" by (simp add: s')
qed


lemma cancel_inv:
  assumes "pm_inv s"
  shows "pm_inv (cancel_pending_for_thread t s)"
    and "pm_queue (cancel_pending_for_thread t s) =
      (pm_next_id s, filter (\<lambda>(a, _). pc_thread_id a \<noteq> t) (snd (pm_queue s)))"
proof -
  have d: "hm_values (hm_retain (\<lambda>_ r. pc_thread_id (pr_approval r) \<noteq> t) (pm_pending s)) =
      filter (\<lambda>r. pc_thread_id (pr_approval r) \<noteq> t) (hm_values (pm_pending s))"
    by (rule retain_values)
  then show "pm_inv (cancel_pending_for_thread t s)"
    using assms by (auto simp: pm_inv_def cancel_pending_for_thread_def distinct_map_filter)
      (auto simp: hm_retain_def list_all_iff)
  show "pm_queue (cancel_pending_for_thread t s) =
      (pm_next_id s, filter (\<lambda>(a, _). pc_thread_id a \<noteq> t) (snd (pm_queue s)))"
    using sorted_values_filter [OF d]
    by (simp add: pm_queue_def sorted_values_def cancel_pending_for_thread_def
      filter_rec_entry [of "\<lambda>a. pc_thread_id a \<noteq> t"])
qed

lemma queue_set_other: "\<not> in_queue i q \<Longrightarrow> queue_set i f q = q"
  by (induction q) (auto simp: in_queue_def queue_set_def)

lemma filter_not_in_queue: "\<not> in_queue i q \<Longrightarrow> filter (\<lambda>(a, _). pc_approval_id a \<noteq> i) q = q"
  by (induction q) (auto simp: in_queue_def)

lemma pm_queue_id [simp]: "fst (pm_queue s) = pm_next_id s"
  by (simp add: pm_queue_def)

lemma pm_queue_eq: "pm_queue s = (pm_next_id s, snd (pm_queue s))"
  by (simp add: pm_queue_def)

lemma pm_queue_next_id: "pm_queue (s\<lparr>pm_next_id := n\<rparr>) = (n, snd (pm_queue s))"
  "pm_inv (s\<lparr>pm_next_id := n\<rparr>) = pm_inv s"
  by (simp_all add: pm_queue_def pm_inv_def)

lemma exec_op_refines:
  assumes "pm_inv s" "Suc (pm_next_order s) < 2 ^ 64"
  shows "pm_inv (exec_op s op) \<and> pm_queue (exec_op s op) = queue_op (pm_queue s) op \<and>
    pm_next_order (exec_op s op) \<le> Suc (pm_next_order s)"
proof (cases op)
  case (OpCreate now t tool c cwd to p reason)
  let ?i = "''approval_'' @ show_nat (pm_next_id s)"
  let ?a = "\<lparr>pc_approval_id = ?i, pc_thread_id = t, pc_tool_name = tool, pc_command = c,
    pc_cwd = cwd, pc_timeout_secs = to, pc_persistent = p, pc_reason = reason,
    pc_checkpoint_id = None\<rparr>"
  let ?s1 = "s\<lparr>pm_next_id := u64_wrap_succ (pm_next_id s)\<rparr>"
  obtain r s2 where r: "new_record now ?a ?s1 = (r, s2)" by fastforce
  have e: "exec_op s op = s2\<lparr>pm_pending := AList.update ?i r (pm_pending s)\<rparr>"
    using r by (auto simp: OpCreate create_command_approval_def new_approval_id_def Let_def
      new_record_def)
  have "pm_inv ?s1" "Suc (pm_next_order ?s1) < 2 ^ 64"
    using assms by (simp_all add: pm_queue_next_id)
  from insert_inv [OF this r] show ?thesis
    unfolding e unfolding OpCreate
    by (subst pm_queue_eq [of s]) (simp add: Let_def pm_queue_next_id)
next
  case (OpRestore now a)
  show ?thesis
  proof (cases "map_of (pm_pending s) (pc_approval_id a)")
    case None
    obtain r s2 where r: "new_record now a s = (r, s2)" by fastforce
    then have e: "exec_op s op =
        s2\<lparr>pm_pending := AList.update (pc_approval_id a) r (pm_pending s)\<rparr>"
      using None by (auto simp: OpRestore restore_command_approval_def Let_def new_record_def)
    have "\<not> in_queue (pc_approval_id a) (snd (pm_queue s))"
      using None in_queue_iff [OF assms(1)] by simp
    with insert_inv [OF assms r] show ?thesis
      unfolding e unfolding OpRestore
      by (subst pm_queue_eq [of s]) (simp add: filter_not_in_queue)
  next
    case (Some r0)
    then have cp: "pr_checkpoint_id r0 = pc_checkpoint_id (pr_approval r0)"
      "pc_approval_id (pr_approval r0) = pc_approval_id a"
      using pm_inv_pending(2) [OF assms(1)]
      by (auto simp: list_all_iff rec_ok_def dest: map_of_SomeD)
    let ?r = "r0\<lparr>pr_approval := keep_checkpoint a (pr_approval r0),
      pr_checkpoint_id := pc_checkpoint_id (keep_checkpoint a (pr_approval r0))\<rparr>"
    have e: "exec_op s op = s\<lparr>pm_pending := AList.update (pc_approval_id a) ?r (pm_pending s)\<rparr>"
      using Some cp by (cases "pc_checkpoint_id a")
        (simp_all add: OpRestore restore_command_approval_def keep_checkpoint_def Let_def)
    have "in_queue (pc_approval_id a) (snd (pm_queue s))"
      using Some in_queue_iff [OF assms(1)] by simp
    with replace_inv [OF assms(1) Some, of ?r "keep_checkpoint a"] show ?thesis
      unfolding e unfolding OpRestore
      by (subst pm_queue_eq [of s]) (simp add: keep_checkpoint_def)
  qed
next
  case (OpAttach i cp)
  show ?thesis
  proof (cases "map_of (pm_pending s) i")
    case None
    then have "\<not> in_queue i (snd (pm_queue s))" using in_queue_iff [OF assms(1)] by simp
    with None assms show ?thesis
      by (cases "pm_queue s") (simp add: OpAttach attach_checkpoint_id_def queue_set_other)
  next
    case (Some r0)
    then have cp: "pc_approval_id (pr_approval r0) = i"
      using pm_inv_pending(2) [OF assms(1)]
      by (auto simp: list_all_iff rec_ok_def dest: map_of_SomeD)
    let ?f = "\<lambda>a. a\<lparr>pc_checkpoint_id := Some cp\<rparr>"
    let ?r = "r0\<lparr>pr_approval := ?f (pr_approval r0), pr_checkpoint_id := pc_checkpoint_id (?f (pr_approval r0))\<rparr>"
    have e: "exec_op s op = s\<lparr>pm_pending := AList.update i ?r (pm_pending s)\<rparr>"
      using Some by (cases r0) (simp add: OpAttach attach_checkpoint_id_def)
    from replace_inv [OF assms(1) Some, of ?r ?f] cp show ?thesis
      unfolding e unfolding OpAttach by (subst pm_queue_eq [of s]) simp
  qed
next
  case (OpTake i)
  show ?thesis
  proof (cases "map_of (pm_pending s) i")
    case None
    then have "\<not> in_queue i (snd (pm_queue s))" using in_queue_iff [OF assms(1)] by simp
    with None assms show ?thesis
      by (cases "pm_queue s") (simp add: OpTake take_pending_command_def filter_not_in_queue)
  next
    case (Some r0)
    with delete_inv [OF assms(1), of i] show ?thesis
      by (subst pm_queue_eq [of s]) (simp add: OpTake take_pending_command_def)
  qed
next
  case (OpCancel t)
  with cancel_inv [OF assms(1), of t] show ?thesis
    by (subst pm_queue_eq [of s]) (simp add: cancel_pending_for_thread_def)
qed

lemma exec_ops_refines:
  "length ops + 2 < 2 ^ 64 \<Longrightarrow> pm_inv (exec_ops ops) \<and> pm_queue (exec_ops ops) = queue_ops ops \<and>
     pm_next_order (exec_ops ops) \<le> Suc (length ops)"
proof (induction ops rule: rev_induct)
  case Nil
  then show ?case
    by (simp add: exec_ops_def queue_ops_def policy_new_def pm_inv_def pm_queue_def hm_values_def)
next
  case (snoc op ops)
  then have ih: "pm_inv (exec_ops ops)" "pm_queue (exec_ops ops) = queue_ops ops"
    "pm_next_order (exec_ops ops) \<le> Suc (length ops)" by auto
  have "Suc (pm_next_order (exec_ops ops)) < 2 ^ 64" using ih(3) snoc.prems by simp
  from exec_op_refines [OF ih(1) this, of op] ih snoc.prems show ?case
    by (simp add: exec_ops_def queue_ops_def)
qed

lemma list_pending_queue:
  assumes "pm_inv s" shows "list_pending s = map queue_summary (snd (pm_queue s))"
proof -
  have "record_summary r = queue_summary (rec_entry r)" if "r \<in> set (hm_values (pm_pending s))" for r
    using that pm_inv_pending(2) [OF assms]
    by (auto simp: hm_values_def list_all_iff rec_ok_def record_summary_def queue_summary_def
      rec_entry_def Let_def)
  then show ?thesis by (simp add: list_pending_def pm_queue_def)
qed

lemma count_same_thread: "filter (\<lambda>r. h r = t) (filter (\<lambda>r. h r \<noteq> t) xs) = []"
  by (induction xs) auto

lemma count_other_thread:
  "w \<noteq> t \<Longrightarrow> filter (\<lambda>r. h r = w) (filter (\<lambda>r. h r \<noteq> t) xs) = filter (\<lambda>r. h r = w) xs"
  by (induction xs) auto

section \<open>Properties\<close>

text \<open>The listing of pending approvals is a queue: after any sequence of operations (fewer than
  2^64 - 2 of them), it shows the approvals created or restored and not yet taken or cancelled, in
  the order of creation, with the checkpoints attached to them - whatever order the hash map
  iterates in.\<close>

theorem pending_approvals_queue:
  assumes "length ops + 2 < 2 ^ 64"
  shows "list_pending (exec_ops ops) = map queue_summary (snd (queue_ops ops))"
  using exec_ops_refines [OF assms] list_pending_queue by metis

theorem pending_approvals_queue_witness:
  "list_pending (exec_ops
     [OpCreate 5 ''t'' ''sh'' ''ls'' ''/'' None False ''r'', OpCreate 6 ''u'' ''sh'' ''reboot'' ''/'' None False ''r'',
      OpAttach ''approval_2'' ''cp'', OpTake ''approval_1'']) =
   [\<lparr>ps_thread_id = ''u'', ps_approval_id = ''approval_2'',
     ps_detail = DetailCommand ''sh'' ''reboot'' ''/'' None False ''r'', ps_requested_at_ms = 6,
     ps_checkpoint_id = Some ''cp''\<rparr>]"
proof -
  have q: "map queue_summary (snd (queue_ops
     [OpCreate 5 ''t'' ''sh'' ''ls'' ''/'' None False ''r'', OpCreate 6 ''u'' ''sh'' ''reboot'' ''/'' None False ''r'',
      OpAttach ''approval_2'' ''cp'', OpTake ''approval_1''])) =
   [\<lparr>ps_thread_id = ''u'', ps_approval_id = ''approval_2'',
     ps_detail = DetailCommand ''sh'' ''reboot'' ''/'' None False ''r'', ps_requested_at_ms = 6,
     ps_checkpoint_id = Some ''cp''\<rparr>]"
    by (simp add: queue_ops_def queue_set_def in_queue_def queue_summary_def u64_wrap_succ_def
      show_nat_small numeral_2_eq_2 [symmetric] Let_def)
  show ?thesis
    by (rule trans [OF pending_approvals_queue q]) simp
qed

text \<open>A pending approval or user-input request has one owner: whoever takes it gets exactly the
  pending one (with the checkpoint attached last), and a second attempt fails.\<close>

theorem pending_taken_once:
  "isl (fst (take_pending_command i (snd (take_pending_command i s)))) \<and>
   isl (fst (take_pending_user_input i (snd (take_pending_user_input i s)))) \<and>
   (fst (take_pending_command i s) = Inr a \<longleftrightarrow> lookup_approval s i = Some a) \<and>
   (fst (take_pending_user_input i s) = Inr r \<longleftrightarrow> lookup_input s i = Some r)"
  using approvals.taken_once inputs.taken_once approvals.taken_by_one inputs.taken_by_one by blast

text \<open>Cancelling a thread leaves nothing pending for it and does not touch the requests of any
  other thread.\<close>

theorem cancel_clears_thread:
  "pending_count_for_thread t (cancel_pending_for_thread t s) = 0 \<and>
   \<not> has_pending_user_input_for_thread t (cancel_pending_for_thread t s) \<and>
   (u = t \<or> pending_count_for_thread u (cancel_pending_for_thread t s) = pending_count_for_thread u s)"
proof -
  note p = retain_values [of "\<lambda>r. pc_thread_id (pr_approval r) \<noteq> t"]
    retain_values [of "\<lambda>r. ui_thread_id r \<noteq> t"]
  have "\<not> list_ex (\<lambda>r. ui_thread_id r = t) (filter (\<lambda>r. ui_thread_id r \<noteq> t) xs)" for xs
    by (auto simp: list_ex_iff)
  then show ?thesis
    by (cases "u = t")
      (simp_all add: pending_count_for_thread_def cancel_pending_for_thread_def
        has_pending_user_input_for_thread_def p count_other_thread count_same_thread
        del: filter_filter)
qed

text \<open>Classification is exact: a command is denied, in every mode, precisely when its trimmed text
  contains one of the two forbidden patterns; a review is asked for precisely in enforced mode, when
  the command contains a review pattern and is not denied; and a reason is given precisely when the
  command is not allowed.\<close>

theorem classify_command_sound:
  "(fst (classify_command mode c) = Deny \<longleftrightarrow>
      sublist ''rm -rf /'' (trim c) \<or> sublist ''mkfs'' (trim c)) \<and>
   (fst (classify_command mode c) = ReviewRequired \<longleftrightarrow>
      mode = PolicyEnforced \<and> fst (classify_command mode c) \<noteq> Deny \<and>
      (\<exists>p \<in> set review_patterns. sublist p c)) \<and>
   (snd (classify_command mode c) = None \<longleftrightarrow> fst (classify_command mode c) = Allow)"
  by (auto simp: classify_command_def hard_deny_reason_def review_required_reason_def Let_def
    str_contains_iff list_ex_iff split: option.splits if_splits)

end
