(* ===== verification/Edges.thy ===== *)
theory Edges
  imports Prelude "HOL-Library.Countable"
begin

text \<open>
  The workspace files that record which thread spawned or forked which
  (\<^verbatim>\<open>src/state/spawn_edges.rs\<close>, \<^verbatim>\<open>src/state/fork_edges.rs\<close>). A file is its text, None
  when it does not exist; \<open>pr\<close> and \<open>ps\<close> are the JSON printer and parser. A mutation reads the
  file, updates the list, writes a temporary file and renames it, under a lock of the path: it
  replaces the text or leaves it. Timestamps are arguments.
\<close>

section \<open>Edges\<close>

datatype spawn_edge_status = EdgeOpen | EdgeClosed

record thread_spawn_edge =
  se_parent :: thread_id
  se_child :: thread_id
  se_root :: thread_id
  se_agent_path :: string
  se_status :: spawn_edge_status
  se_created_at :: string
  se_closed_at :: "string option"
  se_rolled_up :: "int option"

definition spawn_edge_open ::
  "string \<Rightarrow> thread_id \<Rightarrow> thread_id \<Rightarrow> thread_id \<Rightarrow> string \<Rightarrow> thread_spawn_edge" where
  "spawn_edge_open now parent child root path =
     \<lparr>se_parent = parent, se_child = child, se_root = root, se_agent_path = path,
      se_status = EdgeOpen, se_created_at = now, se_closed_at = None, se_rolled_up = None\<rparr>"

record thread_fork_edge =
  fe_parent :: thread_id
  fe_child :: thread_id
  fe_fork_point :: turn_id
  fe_created_at_ms :: int

section \<open>Reading and updating a file\<close>

type_synonym edge_file = "string option"

definition read_edges :: "(string \<Rightarrow> error + 'e list) \<Rightarrow> edge_file \<Rightarrow> error + 'e list" where
  "read_edges ps fl = (case fl of None \<Rightarrow> Inr [] | Some t \<Rightarrow> ps t)"

definition update_edges ::
  "('e list \<Rightarrow> error + string) \<Rightarrow> (string \<Rightarrow> error + 'e list) \<Rightarrow> ('e list \<Rightarrow> 'e list \<times> 'r) \<Rightarrow>
   edge_file \<Rightarrow> edge_file \<times> (error + 'r)" where
  "update_edges pr ps f fl =
     (case read_edges ps fl of
        Inl e \<Rightarrow> (fl, Inl e)
      | Inr es \<Rightarrow>
          (case f es of (es', r) \<Rightarrow>
            (case pr es' of Inl e \<Rightarrow> (fl, Inl e) | Inr t \<Rightarrow> (Some t, Inr r))))"

text \<open>The write through \<^verbatim>\<open>iter_mut().find(...)\<close>: the first match is changed.\<close>

fun update_first :: "('e \<Rightarrow> bool) \<Rightarrow> ('e \<Rightarrow> 'e) \<Rightarrow> 'e list \<Rightarrow> 'e list" where
  "update_first p f [] = []"
| "update_first p f (x # xs) = (if p x then f x # xs else x # update_first p f xs)"

lemma find_update_first:
  "(\<And>x. key (f x) = key x) \<Longrightarrow>
   find (\<lambda>x. key x = k) (update_first (\<lambda>x. key x = j) f xs) =
     (if k = j then map_option f (find (\<lambda>x. key x = k) xs) else find (\<lambda>x. key x = k) xs)"
  by (induction xs) auto

lemma map_update_first:
  "(\<And>x. key (f x) = key x) \<Longrightarrow> map key (update_first p f xs) = map key xs"
  by (induction xs) auto

section \<open>Spawn edges\<close>

definition spawn_upsert :: "thread_spawn_edge \<Rightarrow> thread_spawn_edge list \<Rightarrow> thread_spawn_edge list" where
  "spawn_upsert e es =
     (case find (\<lambda>x. se_child x = se_child e) es of
        Some _ \<Rightarrow> update_first (\<lambda>x. se_child x = se_child e) (\<lambda>_. e) es
      | None \<Rightarrow> es @ [e])"

definition mark_closed ::
  "string \<Rightarrow> thread_id \<Rightarrow> thread_spawn_edge list \<Rightarrow>
   thread_spawn_edge list \<times> thread_spawn_edge option" where
  "mark_closed now c es =
     (case find (\<lambda>x. se_child x = c) es of
        None \<Rightarrow> (es, None)
      | Some e \<Rightarrow>
          (let f = (\<lambda>x. x\<lparr>se_status := EdgeClosed, se_closed_at := Some now\<rparr>)
           in (update_first (\<lambda>x. se_child x = c) f es, Some (f e))))"

definition mark_token_rollup ::
  "thread_id \<Rightarrow> int \<Rightarrow> thread_spawn_edge list \<Rightarrow>
   thread_spawn_edge list \<times> thread_spawn_edge option" where
  "mark_token_rollup c amount es =
     (case find (\<lambda>x. se_child x = c) es of
        None \<Rightarrow> (es, None)
      | Some e \<Rightarrow>
          if se_rolled_up e \<noteq> None then (es, None)
          else (let f = (\<lambda>x. x\<lparr>se_rolled_up := Some (max amount 0)\<rparr>)
                in (update_first (\<lambda>x. se_child x = c) f es, Some (f e))))"

definition clear_token_rollup ::
  "thread_id \<Rightarrow> int \<Rightarrow> thread_spawn_edge list \<Rightarrow> thread_spawn_edge list \<times> bool" where
  "clear_token_rollup c amount es =
     (let amount' = max amount 0 in
      case find (\<lambda>x. se_child x = c) es of
        None \<Rightarrow> (es, False)
      | Some e \<Rightarrow>
          if se_rolled_up e \<noteq> Some amount' then (es, False)
          else (update_first (\<lambda>x. se_child x = c) (\<lambda>x. x\<lparr>se_rolled_up := None\<rparr>) es, True))"

definition status_matches :: "thread_spawn_edge \<Rightarrow> spawn_edge_status option \<Rightarrow> bool" where
  "status_matches e st = (case st of None \<Rightarrow> True | Some x \<Rightarrow> se_status e = x)"

definition list_edges ::
  "(string \<Rightarrow> error + 'e list) \<Rightarrow> ('e \<Rightarrow> bool) \<Rightarrow> edge_file \<Rightarrow> error + 'e list" where
  "list_edges ps p fl = bind_res (read_edges ps fl) (\<lambda>es. Inr (filter p es))"

definition list_by_parent ::
  "(string \<Rightarrow> error + thread_spawn_edge list) \<Rightarrow> thread_id \<Rightarrow> spawn_edge_status option \<Rightarrow>
   edge_file \<Rightarrow> error + thread_spawn_edge list" where
  "list_by_parent ps p st fl = list_edges ps (\<lambda>e. se_parent e = p \<and> status_matches e st) fl"

definition list_by_root ::
  "(string \<Rightarrow> error + thread_spawn_edge list) \<Rightarrow> thread_id \<Rightarrow> spawn_edge_status option \<Rightarrow>
   edge_file \<Rightarrow> error + thread_spawn_edge list" where
  "list_by_root ps r st fl = list_edges ps (\<lambda>e. se_root e = r \<and> status_matches e st) fl"

definition upsert_spawn_edge ::
  "(thread_spawn_edge list \<Rightarrow> error + string) \<Rightarrow> (string \<Rightarrow> error + thread_spawn_edge list) \<Rightarrow>
   thread_spawn_edge \<Rightarrow> edge_file \<Rightarrow> edge_file \<times> (error + unit)" where
  "upsert_spawn_edge pr ps e fl = update_edges pr ps (\<lambda>es. (spawn_upsert e es, ())) fl"

definition mark_spawn_edge_closed ::
  "(thread_spawn_edge list \<Rightarrow> error + string) \<Rightarrow> (string \<Rightarrow> error + thread_spawn_edge list) \<Rightarrow>
   string \<Rightarrow> thread_id \<Rightarrow> edge_file \<Rightarrow> edge_file \<times> (error + thread_spawn_edge option)" where
  "mark_spawn_edge_closed pr ps now c fl = update_edges pr ps (mark_closed now c) fl"

definition mark_spawn_edge_rollup ::
  "(thread_spawn_edge list \<Rightarrow> error + string) \<Rightarrow> (string \<Rightarrow> error + thread_spawn_edge list) \<Rightarrow>
   thread_id \<Rightarrow> int \<Rightarrow> edge_file \<Rightarrow> edge_file \<times> (error + thread_spawn_edge option)" where
  "mark_spawn_edge_rollup pr ps c amount fl = update_edges pr ps (mark_token_rollup c amount) fl"

definition clear_spawn_edge_rollup ::
  "(thread_spawn_edge list \<Rightarrow> error + string) \<Rightarrow> (string \<Rightarrow> error + thread_spawn_edge list) \<Rightarrow>
   thread_id \<Rightarrow> int \<Rightarrow> edge_file \<Rightarrow> edge_file \<times> (error + bool)" where
  "clear_spawn_edge_rollup pr ps c amount fl = update_edges pr ps (clear_token_rollup c amount) fl"

section \<open>Fork edges\<close>

definition fork_upsert :: "thread_fork_edge \<Rightarrow> thread_fork_edge list \<Rightarrow> thread_fork_edge list" where
  "fork_upsert e es =
     (case find (\<lambda>x. fe_child x = fe_child e) es of
        Some _ \<Rightarrow> update_first (\<lambda>x. fe_child x = fe_child e) (\<lambda>_. e) es
      | None \<Rightarrow> es @ [e])"

definition upsert_fork_edge ::
  "(thread_fork_edge list \<Rightarrow> error + string) \<Rightarrow> (string \<Rightarrow> error + thread_fork_edge list) \<Rightarrow>
   thread_fork_edge \<Rightarrow> edge_file \<Rightarrow> edge_file \<times> (error + unit)" where
  "upsert_fork_edge pr ps e fl = update_edges pr ps (\<lambda>es. (fork_upsert e es, ())) fl"

definition list_forks_by_parent ::
  "(string \<Rightarrow> error + thread_fork_edge list) \<Rightarrow> thread_id \<Rightarrow> edge_file \<Rightarrow>
   error + thread_fork_edge list" where
  "list_forks_by_parent ps p fl = list_edges ps (\<lambda>e. fe_parent e = p) fl"

definition list_forks_for_workspace ::
  "(string \<Rightarrow> error + thread_fork_edge list) \<Rightarrow> edge_file \<Rightarrow> error + thread_fork_edge list" where
  "list_forks_for_workspace ps fl = read_edges ps fl"

section \<open>The interface of a keyed list\<close>

text \<open>Both files hold one edge per child thread; a later edge of the same child replaces it.\<close>

locale keyed_upsert =
  fixes key :: "'e \<Rightarrow> 'k"
    and upsert :: "'e \<Rightarrow> 'e list \<Rightarrow> 'e list"
  assumes upsert_find: "find (\<lambda>x. key x = k) (upsert e es) =
      (if k = key e then Some e else find (\<lambda>x. key x = k) es)"
    and upsert_keys: "map key (upsert e es) =
      (if key e \<in> set (map key es) then map key es else map key es @ [key e])"
begin

lemma upsert_distinct: "distinct (map key es) \<Longrightarrow> distinct (map key (upsert e es))"
  unfolding upsert_keys by auto

lemma fold_upsert_distinct: "distinct (map key (fold upsert es []))"
proof -
  have "distinct (map key acc) \<Longrightarrow> distinct (map key (fold upsert es acc))" for acc
    by (induction es arbitrary: acc) (auto simp: upsert_distinct)
  then show ?thesis by simp
qed

lemma fold_upsert_find: "find (\<lambda>x. key x = k) (fold upsert es []) = find (\<lambda>x. key x = k) (rev es)"
  by (induction es rule: rev_induct) (auto simp: upsert_find)

end

lemma find_append: "find p (xs @ ys) = (case find p xs of None \<Rightarrow> find p ys | Some x \<Rightarrow> Some x)"
  by (induction xs) auto

lemma generic_upsert_find:
  "find (\<lambda>x. key x = k)
     (case find (\<lambda>x. key x = key e) es of
        Some _ \<Rightarrow> update_first (\<lambda>x. key x = key e) (\<lambda>_. e) es | None \<Rightarrow> es @ [e]) =
   (if k = key e then Some e else find (\<lambda>x. key x = k) es)"
proof -
  have "find (\<lambda>x. key x = k) (update_first (\<lambda>x. key x = key e) (\<lambda>_. e) es) =
      (if k = key e then Some e else find (\<lambda>x. key x = k) es)"
    if "find (\<lambda>x. key x = key e) es \<noteq> None"
    using that by (induction es) auto
  then show ?thesis by (auto simp: find_append split: option.splits)
qed

lemma generic_upsert_keys:
  "map key
     (case find (\<lambda>x. key x = key e) es of
        Some _ \<Rightarrow> update_first (\<lambda>x. key x = key e) (\<lambda>_. e) es | None \<Rightarrow> es @ [e]) =
   (if key e \<in> set (map key es) then map key es else map key es @ [key e])"
proof -
  have "map key (update_first (\<lambda>x. key x = key e) (\<lambda>_. e) es) = map key es"
    by (induction es) auto
  moreover have "key e \<in> set (map key es)" if "find (\<lambda>x. key x = key e) es = Some x" for x
    using that by (induction es) (auto split: if_splits)
  ultimately show ?thesis by (auto simp: find_None_iff split: option.splits)
qed

interpretation spawns: keyed_upsert se_child spawn_upsert
  unfolding spawn_upsert_def by unfold_locales (rule generic_upsert_find, rule generic_upsert_keys)

interpretation forks: keyed_upsert fe_child fork_upsert
  unfolding fork_upsert_def by unfold_locales (rule generic_upsert_find, rule generic_upsert_keys)


section \<open>Properties\<close>

text \<open>A file the store can read and rewrite: what is printed is parsed back.\<close>

definition codec_ok :: "('e list \<Rightarrow> error + string) \<Rightarrow> (string \<Rightarrow> error + 'e list) \<Rightarrow> bool" where
  "codec_ok pr ps \<longleftrightarrow> (\<forall>es. \<exists>t. pr es = Inr t \<and> ps t = Inr es)"

lemma update_edges_read:
  assumes "codec_ok pr ps" "read_edges ps fl = Inr es"
  shows "read_edges ps (fst (update_edges pr ps f fl)) = Inr (fst (f es))"
    and "snd (update_edges pr ps f fl) = Inr (snd (f es))"
proof -
  obtain t where "pr (fst (f es)) = Inr t" "ps t = Inr (fst (f es))"
    using assms(1) by (auto simp: codec_ok_def)
  then show "read_edges ps (fst (update_edges pr ps f fl)) = Inr (fst (f es))"
    and "snd (update_edges pr ps f fl) = Inr (snd (f es))"
    using assms(2) by (auto simp: update_edges_def read_edges_def split: prod.splits)
qed

lemma upserts_read:
  assumes "codec_ok pr ps" "read_edges ps fl = Inr es0"
  shows "read_edges ps (fold (\<lambda>e fl. fst (update_edges pr ps (\<lambda>es. (up e es, ())) fl)) es fl) =
    Inr (fold up es es0)"
  using assms(2)
proof (induction es arbitrary: fl es0)
  case (Cons e es)
  then show ?case using update_edges_read(1) [OF assms(1) Cons.prems, of "\<lambda>es. (up e es, ())"]
    by simp
qed simp

text \<open>Both edge files keep one edge per child thread: after any sequence of upserts into a new
  file, the edges read back have distinct children, and the edge of a child is the last one written
  for it.\<close>

theorem edge_files_last_write_wins:
  assumes "codec_ok pr ps" and "codec_ok pr' ps'"
  shows "\<exists>out out'.
    read_edges ps (fold (\<lambda>e fl. fst (upsert_spawn_edge pr ps e fl)) es None) = Inr out \<and>
    list_forks_for_workspace ps' (fold (\<lambda>e fl. fst (upsert_fork_edge pr' ps' e fl)) es' None) = Inr out' \<and>
    distinct (map se_child out) \<and> distinct (map fe_child out') \<and>
    find (\<lambda>x. se_child x = c) out = find (\<lambda>x. se_child x = c) (rev es) \<and>
    find (\<lambda>x. fe_child x = c) out' = find (\<lambda>x. fe_child x = c) (rev es')"
proof -
  have "read_edges ps (fold (\<lambda>e fl. fst (upsert_spawn_edge pr ps e fl)) es None) =
      Inr (fold spawn_upsert es [])"
    unfolding upsert_spawn_edge_def
    by (rule upserts_read [OF assms(1)]) (simp add: read_edges_def)
  moreover have "list_forks_for_workspace ps'
      (fold (\<lambda>e fl. fst (upsert_fork_edge pr' ps' e fl)) es' None) = Inr (fold fork_upsert es' [])"
    unfolding upsert_fork_edge_def list_forks_for_workspace_def
    by (rule upserts_read [OF assms(2)]) (simp add: read_edges_def)
  ultimately show ?thesis
    by (simp add: spawns.fold_upsert_distinct forks.fold_upsert_distinct spawns.fold_upsert_find
      forks.fold_upsert_find)
qed

text \<open>The tokens of a child are rolled up once: the first rollup of a known child is recorded
  (negative totals as 0), any further one is refused and changes nothing, and only clearing with
  the recorded total makes a new rollup possible.\<close>

theorem token_rollup_once:
  assumes "codec_ok pr ps" "read_edges ps fl = Inr es"
    and "find (\<lambda>x. se_child x = c) es = Some e" "se_rolled_up e = None"
  shows "let (fl1, r1) = mark_spawn_edge_rollup pr ps c t1 fl;
             (fl2, r2) = mark_spawn_edge_rollup pr ps c t2 fl1;
             (fl3, r3) = clear_spawn_edge_rollup pr ps c t2 fl1
         in r1 = Inr (Some (e\<lparr>se_rolled_up := Some (max t1 0)\<rparr>)) \<and> r2 = Inr None \<and>
            read_edges ps fl2 = read_edges ps fl1 \<and> r3 = Inr (max t1 0 = max t2 0) \<and>
            (read_edges ps fl3 = Inr es \<or> max t1 0 \<noteq> max t2 0 \<and> read_edges ps fl3 = read_edges ps fl1)"
proof -
  let ?f = "\<lambda>x. x\<lparr>se_rolled_up := Some (max t1 0)\<rparr>"
  let ?es1 = "update_first (\<lambda>x. se_child x = c) ?f es"
  have m1: "mark_token_rollup c t1 es = (?es1, Some (?f e))"
    using assms(3,4) by (simp add: mark_token_rollup_def Let_def)
  note u1 = update_edges_read [OF assms(1,2), of "mark_token_rollup c t1", unfolded m1, simplified]
  have f1: "find (\<lambda>x. se_child x = c) ?es1 = Some (?f e)"
    using assms(3) by (simp add: find_update_first [of se_child])
  have m2: "mark_token_rollup c t2 ?es1 = (?es1, None)"
    using f1 by (simp add: mark_token_rollup_def)
  have undo: "update_first (\<lambda>x. se_child x = c) (\<lambda>x. x\<lparr>se_rolled_up := None\<rparr>) ?es1 = es"
    using assms(3,4) by (induction es) auto
  have m3: "clear_token_rollup c t2 ?es1 =
      (if max t1 0 = max t2 0 then (es, True) else (?es1, False))"
    using f1 undo by (auto simp: clear_token_rollup_def Let_def)
  note u2 = update_edges_read [OF assms(1) u1(1), of "mark_token_rollup c t2", unfolded m2, simplified]
  note u3 = update_edges_read [OF assms(1) u1(1), of "clear_token_rollup c t2", unfolded m3, simplified]
  show ?thesis
    using u1 u2 u3
    by (auto simp: mark_spawn_edge_rollup_def clear_spawn_edge_rollup_def split: prod.splits
      if_splits)
qed

lemma open_keep:
  "k \<notin> se_child ` set xs \<Longrightarrow>
   filter (\<lambda>e. se_parent e = p \<and> se_status e = EdgeOpen \<and> se_child e \<noteq> k) xs =
   filter (\<lambda>e. se_parent e = p \<and> se_status e = EdgeOpen) xs"
  by (intro filter_cong) auto

text \<open>Closing an edge returns it with its closing time (or nothing, for an unknown child), and
  is visible to exactly the listings by status: the closed child no longer shows among the open
  edges of its parent, every other open edge still does, in the same order.\<close>

theorem close_edge_listing:
  assumes "codec_ok pr ps" "read_edges ps fl = Inr es" "distinct (map se_child es)"
  shows "snd (mark_spawn_edge_closed pr ps now c fl) =
      Inr (map_option (\<lambda>x. x\<lparr>se_status := EdgeClosed, se_closed_at := Some now\<rparr>)
        (find (\<lambda>x. se_child x = c) es)) \<and>
    list_by_parent ps p (Some EdgeOpen) (fst (mark_spawn_edge_closed pr ps now c fl)) =
      Inr (filter (\<lambda>e. se_parent e = p \<and> se_status e = EdgeOpen \<and> se_child e \<noteq> c) es)"
proof -
  let ?f = "\<lambda>x. x\<lparr>se_status := EdgeClosed, se_closed_at := Some now\<rparr>"
  have "filter (\<lambda>e. se_parent e = p \<and> se_status e = EdgeOpen)
        (update_first (\<lambda>x. se_child x = c) ?f es) =
      filter (\<lambda>e. se_parent e = p \<and> se_status e = EdgeOpen \<and> se_child e \<noteq> c) es"
    using assms(3) by (induction es) (auto simp: open_keep)
  moreover have "fst (mark_closed now c es) = update_first (\<lambda>x. se_child x = c) ?f es"
  proof (cases "find (\<lambda>x. se_child x = c) es")
    case None
    then have "update_first (\<lambda>x. se_child x = c) ?f es = es" by (induction es) (auto split: if_splits)
    with None show ?thesis by (simp add: mark_closed_def)
  qed (simp add: mark_closed_def Let_def)
  moreover have "snd (mark_closed now c es) = map_option ?f (find (\<lambda>x. se_child x = c) es)"
    by (simp add: mark_closed_def Let_def split: option.splits)
  ultimately show ?thesis
    using update_edges_read [OF assms(1,2), of "mark_closed now c"]
    by (simp add: list_by_parent_def list_edges_def status_matches_def mark_spawn_edge_closed_def)
qed

text \<open>A concrete codec: the number of the list in the library's enumeration, written in unary.\<close>

definition spawn_fields :: "thread_spawn_edge \<Rightarrow>
    (string \<times> string \<times> string \<times> string \<times> bool \<times> string \<times> string option \<times> int option)" where
  "spawn_fields e = (se_parent e, se_child e, se_root e, se_agent_path e, se_status e = EdgeOpen,
     se_created_at e, se_closed_at e, se_rolled_up e)"

definition fork_fields :: "thread_fork_edge \<Rightarrow> (string \<times> string \<times> string \<times> int)" where
  "fork_fields e = (fe_parent e, fe_child e, fe_fork_point e, fe_created_at_ms e)"

definition unary_print :: "('e \<Rightarrow> 'f::countable) \<Rightarrow> 'e list \<Rightarrow> error + string" where
  "unary_print enc es = Inr (replicate (to_nat (map enc es)) CHR ''x'')"

definition unary_parse :: "('e \<Rightarrow> 'f::countable) \<Rightarrow> string \<Rightarrow> error + 'e list" where
  "unary_parse enc t = Inr (map (inv enc) (from_nat (length t)))"

lemma inj_spawn_fields: "inj spawn_fields"
proof (rule injI)
  fix a b :: thread_spawn_edge
  assume "spawn_fields a = spawn_fields b"
  then show "a = b"
    by (cases a; cases b; cases "se_status a"; cases "se_status b") (auto simp: spawn_fields_def)
qed

lemma inj_fork_fields: "inj fork_fields"
  by (rule injI) (auto simp: fork_fields_def intro: thread_fork_edge.equality)

lemma unary_codec: "inj enc \<Longrightarrow> codec_ok (unary_print enc) (unary_parse enc)"
  by (simp add: codec_ok_def unary_print_def unary_parse_def comp_def)

lemmas spawn_codec = unary_codec [OF inj_spawn_fields]
lemmas fork_codec = unary_codec [OF inj_fork_fields]

theorem edge_files_last_write_wins_witness:
  "\<exists>out out'.
    read_edges (unary_parse spawn_fields) (fold (\<lambda>e fl. fst (upsert_spawn_edge
      (unary_print spawn_fields) (unary_parse spawn_fields) e fl))
      [spawn_edge_open ''now'' ''p'' ''c'' ''r'' ''/root/a'', spawn_edge_open ''later'' ''p'' ''c'' ''r'' ''/root/b'']
      None) = Inr out \<and>
    list_forks_for_workspace (unary_parse fork_fields) (fold (\<lambda>e fl. fst (upsert_fork_edge
      (unary_print fork_fields) (unary_parse fork_fields) e fl)) [] None) = Inr out' \<and>
    distinct (map se_child out) \<and> distinct (map fe_child out') \<and>
    find (\<lambda>x. se_child x = ''c'') out = find (\<lambda>x. se_child x = ''c'') (rev
      [spawn_edge_open ''now'' ''p'' ''c'' ''r'' ''/root/a'', spawn_edge_open ''later'' ''p'' ''c'' ''r'' ''/root/b'']) \<and>
    find (\<lambda>x. fe_child x = ''c'') out' = find (\<lambda>x. fe_child x = ''c'') (rev [])"
  by (rule edge_files_last_write_wins [OF spawn_codec fork_codec])

definition sample_edge :: thread_spawn_edge where
  "sample_edge = spawn_edge_open ''now'' ''p'' ''c'' ''r'' ''/root/a''"

definition sample_edge_file :: edge_file where
  "sample_edge_file = (case unary_print spawn_fields [sample_edge] of Inl _ \<Rightarrow> None | Inr t \<Rightarrow> Some t)"

lemma sample_edge_read: "read_edges (unary_parse spawn_fields) sample_edge_file = Inr [sample_edge]"
  by (simp add: sample_edge_file_def read_edges_def unary_print_def unary_parse_def
    inv_f_f [OF inj_spawn_fields])

theorem token_rollup_once_witness:
  "let pr = unary_print spawn_fields; ps = unary_parse spawn_fields;
       (fl1, r1) = mark_spawn_edge_rollup pr ps ''c'' (- 3) sample_edge_file;
       (fl2, r2) = mark_spawn_edge_rollup pr ps ''c'' 5 fl1;
       (fl3, r3) = clear_spawn_edge_rollup pr ps ''c'' 5 fl1
   in r1 = Inr (Some (sample_edge\<lparr>se_rolled_up := Some (max (- 3) 0)\<rparr>)) \<and> r2 = Inr None \<and>
      read_edges ps fl2 = read_edges ps fl1 \<and> r3 = Inr (max (- 3) 0 = max 5 (0::int)) \<and>
      (read_edges ps fl3 = Inr [sample_edge] \<or>
         max (- 3) 0 \<noteq> max 5 (0::int) \<and> read_edges ps fl3 = read_edges ps fl1)"
  using token_rollup_once [OF spawn_codec sample_edge_read, of "''c''" sample_edge "- 3" 5]
  by (simp add: Let_def sample_edge_def spawn_edge_open_def)

theorem close_edge_listing_witness:
  "let pr = unary_print spawn_fields; ps = unary_parse spawn_fields in
    snd (mark_spawn_edge_closed pr ps ''later'' ''c'' sample_edge_file) =
      Inr (map_option (\<lambda>x. x\<lparr>se_status := EdgeClosed, se_closed_at := Some ''later''\<rparr>)
        (find (\<lambda>x. se_child x = ''c'') [sample_edge])) \<and>
    list_by_parent ps ''p'' (Some EdgeOpen) (fst (mark_spawn_edge_closed pr ps ''later'' ''c'' sample_edge_file)) =
      Inr (filter (\<lambda>e. se_parent e = ''p'' \<and> se_status e = EdgeOpen \<and> se_child e \<noteq> ''c'') [sample_edge])"
  unfolding Let_def
  by (rule close_edge_listing [OF spawn_codec sample_edge_read]) simp

end
