(* ===== verification/Subagent.thy ===== *)
theory Subagent
  imports Session Mail ForkHistory "HOL-Library.List_Lexorder" "HOL-Library.Char_ord"
    "HOL-Library.Product_Lexorder" "HOL-Library.Multiset"
begin

text \<open>
  The tree of agents below a root thread (\<^verbatim>\<open>AgentControl\<close> in
  \<^verbatim>\<open>src/runtime/subagent.rs\<close>): agents by path, the path of each thread, and the operations
  that reserve, commit, release, close and address agents. Each operation holds the registry lock
  once; what happens between two of them (the life cycle: starting or stopping the thread) is a
  parameter of the composed operations and any interleaving in the step relation. The clock is an
  argument.
\<close>

definition root_agent_path :: string where "root_agent_path = ''/root''"
definition max_subagent_depth :: nat where "max_subagent_depth = 2"

section \<open>Paths and names\<close>

definition normalize_task_name :: "string \<Rightarrow> error + string" where
  "normalize_task_name raw =
     (let name = trim raw in
      if name = [] then Inl (Anyhow ''task_name must not be empty'')
      else if CHR ''/'' \<in> set name \<or> CHR 0x5C \<in> set name
      then Inl (Anyhow ''task_name must not contain path separators'')
      else Inr name)"

definition normalize_agent_path :: "string \<Rightarrow> error + string" where
  "normalize_agent_path raw =
     (let p = trim raw in
      if p = [] then Inl (Anyhow ''agent_path must not be empty'')
      else if \<not> starts_with p ''/'' then Inl (Anyhow ''agent_path must be an absolute agent path'')
      else if CHR 0x5C \<in> set p then Inl (Anyhow ''agent_path must not contain backslashes'')
      else if trim_end_char CHR ''/'' p = []
      then Inl (Anyhow ''agent_path must be an absolute agent path'')
      else Inr (trim_end_char CHR ''/'' p))"

definition join_agent_path :: "string \<Rightarrow> string \<Rightarrow> string" where
  "join_agent_path parent name = trim_end_char CHR ''/'' parent @ ''/'' @ name"

definition is_path_or_descendant :: "string \<Rightarrow> string \<Rightarrow> bool" where
  "is_path_or_descendant p target \<longleftrightarrow> p = target \<or> starts_with p (target @ ''/'')"

definition rsplit_once :: "char \<Rightarrow> string \<Rightarrow> (string \<times> string) option" where
  "rsplit_once c s =
     (if c \<notin> set s then None
      else Some (rev (tl (dropWhile (\<lambda>x. x \<noteq> c) (rev s))), rev (takeWhile (\<lambda>x. x \<noteq> c) (rev s))))"

definition parent_agent_path :: "string \<Rightarrow> string option" where
  "parent_agent_path p =
     (case rsplit_once CHR ''/'' (trim_end_char CHR ''/'' p) of
        None \<Rightarrow> None
      | Some (parent, child) \<Rightarrow> if child = [] \<or> parent = [] then None else Some parent)"

definition message_preview :: "string \<Rightarrow> string" where
  "message_preview message =
     (let cs = utf8_chars (trim message)
      in concat (take 200 cs) @ (if 200 < length cs then ''...'' else []))"

section \<open>The registry\<close>

record agent_metadata =
  am_thread_id :: "thread_id option"
  am_root_thread_id :: thread_id
  am_depth :: nat
  am_agent_path :: string
  am_agent_type :: "agent_type option"
  am_agent_role :: "string option"
  am_agent_nickname :: "string option"
  am_last_task_message :: "string option"

record agent_control =
  ac_root :: thread_id
  ac_agents :: "(string, agent_metadata) hmap"
  ac_paths :: "thread_id \<rightharpoonup> string"

datatype agent_status = Spawning | Running

record listed_agent =
  la_thread_id :: "thread_id option"
  la_root_thread_id :: thread_id
  la_depth :: nat
  la_agent_path :: string
  la_status :: agent_status
  la_agent_type :: "agent_type option"
  la_agent_role :: "string option"
  la_agent_nickname :: "string option"
  la_last_task_message :: "string option"

record close_agent_target =
  ct_thread_id :: thread_id
  ct_agent_path :: string
  ct_depth :: nat

record spawn_reservation =
  sr_agent_path :: string
  sr_root_thread_id :: thread_id
  sr_depth :: nat

definition root_metadata :: "thread_id \<Rightarrow> thread_id \<Rightarrow> agent_metadata" where
  "root_metadata t root =
     \<lparr>am_thread_id = Some t, am_root_thread_id = root, am_depth = 0,
      am_agent_path = root_agent_path, am_agent_type = None, am_agent_role = None,
      am_agent_nickname = None, am_last_task_message = None\<rparr>"

definition new_root :: "thread_id \<Rightarrow> agent_control" where
  "new_root t = \<lparr>ac_root = t, ac_agents = [(root_agent_path, root_metadata t t)],
     ac_paths = [t \<mapsto> root_agent_path]\<rparr>"

definition metadata_from_snapshot :: "thread_snapshot \<Rightarrow> thread_id \<Rightarrow> agent_metadata" where
  "metadata_from_snapshot sn root =
     (case sn_lineage sn of
        Some l \<Rightarrow>
          \<lparr>am_thread_id = Some (sn_thread_id sn), am_root_thread_id = ln_root_thread_id l,
           am_depth = ln_depth l, am_agent_path = ln_agent_path l, am_agent_type = ln_agent_type l,
           am_agent_role = ln_agent_role l, am_agent_nickname = ln_agent_nickname l,
           am_last_task_message = None\<rparr>
      | None \<Rightarrow> root_metadata (sn_thread_id sn) root)"

definition register_thread_from_snapshot :: "thread_snapshot \<Rightarrow> agent_control \<Rightarrow> agent_control" where
  "register_thread_from_snapshot sn s =
     (let m = metadata_from_snapshot sn (ac_root s)
      in s\<lparr>ac_paths := (ac_paths s)(sn_thread_id sn \<mapsto> am_agent_path m),
           ac_agents := (case map_of (ac_agents s) (am_agent_path m) of
             Some _ \<Rightarrow> ac_agents s
           | None \<Rightarrow> AList.update (am_agent_path m) m (ac_agents s))\<rparr>)"

definition list_agents :: "agent_control \<Rightarrow> listed_agent list" where
  "list_agents s =
     sort_key la_agent_path
       (map (\<lambda>m. \<lparr>la_thread_id = am_thread_id m, la_root_thread_id = am_root_thread_id m,
                la_depth = am_depth m, la_agent_path = am_agent_path m,
                la_status = (if am_thread_id m \<noteq> None then Running else Spawning),
                la_agent_type = am_agent_type m, la_agent_role = am_agent_role m,
                la_agent_nickname = am_agent_nickname m,
                la_last_task_message = am_last_task_message m\<rparr>)
         (filter (\<lambda>m. am_root_thread_id m = ac_root s) (hm_values (ac_agents s))))"

definition reserve_child_path ::
  "thread_id \<Rightarrow> string \<Rightarrow> string option \<Rightarrow> agent_type \<Rightarrow> string \<Rightarrow> agent_control \<Rightarrow>
   (error + spawn_reservation) \<times> agent_control" where
  "reserve_child_path parent_thread task role ty message s =
     (case ac_paths s parent_thread of
        None \<Rightarrow> (Inl (Anyhow ''parent thread is not registered for subagent spawning''), s)
      | Some parent_path \<Rightarrow>
        (case map_of (ac_agents s) parent_path of
           None \<Rightarrow> (Inl (Anyhow ''parent agent metadata is missing''), s)
         | Some parent \<Rightarrow>
           (let depth = u32_sat_add (am_depth parent) 1 in
            if max_subagent_depth < depth
            then (Inl (Anyhow (''subagent depth limit reached; max depth is '' @
                    show_nat max_subagent_depth)), s)
            else let path = join_agent_path (am_agent_path parent) task in
              if map_of (ac_agents s) path \<noteq> None
              then (Inl (Anyhow (''agent path `'' @ path @ ''` already exists'')), s)
              else (Inr \<lparr>sr_agent_path = path, sr_root_thread_id = am_root_thread_id parent,
                         sr_depth = depth\<rparr>,
                    s\<lparr>ac_agents := AList.update path
                      \<lparr>am_thread_id = None, am_root_thread_id = am_root_thread_id parent,
                       am_depth = depth, am_agent_path = path, am_agent_type = Some ty,
                       am_agent_role = role, am_agent_nickname = None,
                       am_last_task_message = Some (message_preview message)\<rparr> (ac_agents s)\<rparr>))))"

definition commit_reservation :: "string \<Rightarrow> thread_id \<Rightarrow> agent_control \<Rightarrow> agent_control" where
  "commit_reservation path child s =
     s\<lparr>ac_agents := (case map_of (ac_agents s) path of
          None \<Rightarrow> ac_agents s
        | Some m \<Rightarrow> AList.update path (m\<lparr>am_thread_id := Some child\<rparr>) (ac_agents s)),
       ac_paths := (ac_paths s)(child \<mapsto> path)\<rparr>"

definition release_reservation :: "string \<Rightarrow> agent_control \<Rightarrow> agent_control" where
  "release_reservation path s =
     (case map_of (ac_agents s) path of
        None \<Rightarrow> s
      | Some m \<Rightarrow> if am_thread_id m = None
                  then s\<lparr>ac_agents := AList.delete path (ac_agents s)\<rparr> else s)"

definition close_targets_for_path ::
  "thread_id \<Rightarrow> string \<Rightarrow> agent_control \<Rightarrow> error + (thread_id \<times> close_agent_target list)" where
  "close_targets_for_path parent_thread target_path s =
     (case ac_paths s parent_thread of
        None \<Rightarrow> Inl (Anyhow ''parent thread is not registered for subagent closing'')
      | Some parent_path \<Rightarrow>
        (case map_of (ac_agents s) parent_path of
           None \<Rightarrow> Inl (Anyhow ''parent agent metadata is missing'')
         | Some parent \<Rightarrow>
           (case map_of (ac_agents s) target_path of
              None \<Rightarrow> Inl (Anyhow (''agent path `'' @ target_path @ ''` does not exist''))
            | Some target \<Rightarrow>
              if am_root_thread_id target \<noteq> am_root_thread_id parent
              then Inl (Anyhow (''agent path `'' @ target_path @ ''` is outside the current root tree''))
              else
                let targets =
                  sort_key (\<lambda>t. (- int (ct_depth t), ct_agent_path t))
                    (List.map_filter (\<lambda>m. map_option (\<lambda>t. \<lparr>ct_thread_id = t,
                         ct_agent_path = am_agent_path m, ct_depth = am_depth m\<rparr>) (am_thread_id m))
                      (filter (\<lambda>m. am_root_thread_id m = am_root_thread_id parent \<and>
                         is_path_or_descendant (am_agent_path m) target_path)
                        (hm_values (ac_agents s))))
                in if targets = []
                   then Inl (Anyhow (''agent path `'' @ target_path @ ''` has no running thread''))
                   else if list_ex (\<lambda>t. ct_thread_id t = parent_thread) targets
                   then Inl (Anyhow (''agent path `'' @ target_path @
                     ''` includes the current agent and cannot be closed from this turn''))
                   else Inr (am_root_thread_id parent, targets))))"

definition release_closed_targets ::
  "close_agent_target list \<Rightarrow> agent_control \<Rightarrow> agent_control" where
  "release_closed_targets targets s =
     foldl (\<lambda>s t. s\<lparr>ac_agents := AList.delete (ct_agent_path t) (ac_agents s),
                   ac_paths := (ac_paths s)(ct_thread_id t := None)\<rparr>) s targets"

record send_message_request =
  sm_author_thread_id :: thread_id
  sm_recipient_path :: string
  sm_message :: string
  sm_source_turn_id :: "turn_id option"
  sm_followup :: bool

definition inter_agent_mail_from_request ::
  "string \<Rightarrow> send_message_request \<Rightarrow> agent_control \<Rightarrow> error + mail" where
  "inter_agent_mail_from_request now req s =
     (if trim (sm_message req) = [] then Inl (Anyhow ''message must not be empty'')
      else bind_res (normalize_agent_path (sm_recipient_path req)) (\<lambda>recipient_path.
        case ac_paths s (sm_author_thread_id req) of
          None \<Rightarrow> Inl (Anyhow ''author thread is not registered for subagent messaging'')
        | Some author_path \<Rightarrow>
          (case map_of (ac_agents s) author_path of
             None \<Rightarrow> Inl (Anyhow ''author agent metadata is missing'')
           | Some author \<Rightarrow>
             (case map_of (ac_agents s) recipient_path of
                None \<Rightarrow> Inl (Anyhow (''recipient agent path `'' @ recipient_path @ ''` does not exist''))
              | Some recipient \<Rightarrow>
                if am_root_thread_id recipient \<noteq> am_root_thread_id author
                then Inl (Anyhow (''recipient agent path `'' @ recipient_path @
                       ''` is outside the current root tree''))
                else (case am_thread_id recipient of
                    None \<Rightarrow> Inl (Anyhow (''recipient agent `'' @ recipient_path @
                      ''` has no running thread''))
                  | Some recipient_thread \<Rightarrow>
                    Inr \<lparr>ml_author_thread_id = sm_author_thread_id req, ml_author_path = author_path,
                         ml_recipient_thread_id = recipient_thread,
                         ml_recipient_path = recipient_path, ml_other_recipients = [],
                         ml_content = trim (sm_message req), ml_trigger_turn = sm_followup req,
                         ml_source_turn_id = sm_source_turn_id req, ml_created_at = now\<rparr>)))))"

section \<open>Composed operations\<close>

text \<open>
  The life cycle is the parameter \<open>lc\<close> (None: it is gone); it may change the registry
  itself, through \<^verbatim>\<open>register_thread_from_snapshot\<close>.
\<close>

record spawn_agent_request =
  sq_parent_thread_id :: thread_id
  sq_task_name :: string
  sq_message :: string
  sq_agent_type :: agent_type
  sq_agent_role :: "string option"
  sq_fork_turns :: fork_turns

record spawn_agent_response =
  sp_thread_id :: thread_id
  sp_parent_thread_id :: thread_id
  sp_root_thread_id :: thread_id
  sp_turn_id :: turn_id
  sp_task_name :: string
  sp_message_preview :: string
  sp_depth :: nat

definition spawn_agent ::
  "(thread_lineage \<Rightarrow> string \<Rightarrow> fork_turns \<Rightarrow> agent_control \<Rightarrow>
      (error + spawn_agent_response) \<times> agent_control) option \<Rightarrow>
   spawn_agent_request \<Rightarrow> agent_control \<Rightarrow> (error + spawn_agent_response) \<times> agent_control" where
  "spawn_agent lc req s =
     (case normalize_task_name (sq_task_name req) of
        Inl e \<Rightarrow> (Inl e, s)
      | Inr task \<Rightarrow>
        (case reserve_child_path (sq_parent_thread_id req) task (sq_agent_role req)
                (sq_agent_type req) (sq_message req) s of
           (Inl e, s1) \<Rightarrow> (Inl e, s1)
         | (Inr r, s1) \<Rightarrow>
           (case lc of
              None \<Rightarrow> (Inl (Anyhow ''subagent lifecycle is unavailable''), s1)
            | Some f \<Rightarrow>
              (let lineage = \<lparr>ln_parent_thread_id = sq_parent_thread_id req,
                     ln_root_thread_id = sr_root_thread_id r, ln_depth = sr_depth r,
                     ln_agent_path = sr_agent_path r, ln_agent_type = Some (sq_agent_type req),
                     ln_agent_role = sq_agent_role req, ln_agent_nickname = None,
                     ln_forked_from_id = (case sq_fork_turns req of ForkNone \<Rightarrow> None
                       | ForkAll \<Rightarrow> Some (sq_parent_thread_id req)
                       | ForkLast _ \<Rightarrow> Some (sq_parent_thread_id req))\<rparr>
               in case f lineage (sq_message req) (sq_fork_turns req) s1 of
                    (Inr resp, s2) \<Rightarrow>
                      (Inr resp, commit_reservation (sr_agent_path r) (sp_thread_id resp) s2)
                  | (Inl e, s2) \<Rightarrow> (Inl e, release_reservation (sr_agent_path r) s2)))))"

definition close_agent ::
  "(thread_id \<Rightarrow> close_agent_target list \<Rightarrow> agent_control \<Rightarrow> (error + unit) \<times> agent_control) option \<Rightarrow>
   thread_id \<Rightarrow> string \<Rightarrow> agent_control \<Rightarrow> (error + close_agent_target list) \<times> agent_control" where
  "close_agent lc parent_thread raw s =
     (case normalize_agent_path raw of
        Inl e \<Rightarrow> (Inl e, s)
      | Inr path \<Rightarrow>
          if path = root_agent_path then (Inl (Anyhow ''root agent cannot be closed''), s)
          else (case close_targets_for_path parent_thread path s of
            Inl e \<Rightarrow> (Inl e, s)
          | Inr (root, targets) \<Rightarrow>
            (case lc of
               None \<Rightarrow> (Inl (Anyhow ''subagent lifecycle is unavailable''), s)
             | Some f \<Rightarrow>
               (case f root targets s of
                  (Inl e, s1) \<Rightarrow> (Inl e, s1)
                | (Inr _, s1) \<Rightarrow> (Inr targets, release_closed_targets targets s1)))))"


section \<open>Interleavings of the registry operations\<close>

text \<open>
  The lineages that reach \<open>register_thread_from_snapshot\<close> were made by \<open>spawn_agent\<close>
  for this tree: below the root path, with the depth of the path. Thread identifiers given to new
  children are fresh with respect to the root. Commits, releases and the removal of closed targets
  may come at any time after the operation that led to them.
\<close>

definition path_depth :: "string \<Rightarrow> nat" where
  "path_depth p = count_list p CHR ''/'' - 1"

definition agent_path_ok :: "string \<Rightarrow> bool" where
  "agent_path_ok p \<longleftrightarrow> p = root_agent_path \<or>
     starts_with p (root_agent_path @ ''/'') \<and> last p \<noteq> CHR ''/'' \<and> path_depth p \<le> max_subagent_depth"

definition lineage_ok :: "thread_id \<Rightarrow> thread_lineage \<Rightarrow> bool" where
  "lineage_ok root l \<longleftrightarrow> ln_root_thread_id l = root \<and> agent_path_ok (ln_agent_path l) \<and>
     ln_agent_path l \<noteq> root_agent_path \<and> ln_depth l = path_depth (ln_agent_path l)"

inductive agent_reach :: "thread_id \<Rightarrow> agent_control \<Rightarrow> bool" where
  reach_new: "agent_reach root (new_root root)"
| reach_register: "agent_reach root s \<Longrightarrow>
     (case sn_lineage sn of None \<Rightarrow> True | Some l \<Rightarrow> lineage_ok root l) \<Longrightarrow>
     agent_reach root (register_thread_from_snapshot sn s)"
| reach_reserve: "agent_reach root s \<Longrightarrow> normalize_task_name raw = Inr task \<Longrightarrow>
     reserve_child_path parent task role ty message s = (r, s') \<Longrightarrow> agent_reach root s'"
| reach_commit: "agent_reach root s \<Longrightarrow> path \<noteq> root_agent_path \<Longrightarrow>
     agent_reach root (commit_reservation path child s)"
| reach_release: "agent_reach root s \<Longrightarrow> agent_reach root (release_reservation path s)"
| reach_close: "agent_reach root s \<Longrightarrow> agent_reach root s0 \<Longrightarrow>
     normalize_agent_path raw = Inr path \<Longrightarrow> path \<noteq> root_agent_path \<Longrightarrow>
     close_targets_for_path parent path s0 = Inr (r, targets) \<Longrightarrow>
     agent_reach root (release_closed_targets targets s)"

definition agent_inv :: "thread_id \<Rightarrow> agent_control \<Rightarrow> bool" where
  "agent_inv root s \<longleftrightarrow> ac_root s = root \<and> hm_ok (ac_agents s) \<and>
     (\<forall>p m. map_of (ac_agents s) p = Some m \<longrightarrow>
        am_agent_path m = p \<and> agent_path_ok p \<and> am_depth m = path_depth p \<and>
        am_root_thread_id m = root) \<and>
     (\<exists>m. map_of (ac_agents s) root_agent_path = Some m \<and> am_thread_id m \<noteq> None)"

lemma root_path_facts [simp]:
  "agent_path_ok root_agent_path" "path_depth root_agent_path = 0"
  "trim_end_char CHR ''/'' root_agent_path = root_agent_path"
  by (simp_all add: agent_path_ok_def path_depth_def root_agent_path_def trim_end_char_def)

lemma normalize_task_name_ok:
  "normalize_task_name raw = Inr t \<Longrightarrow> t \<noteq> [] \<and> CHR ''/'' \<notin> set t"
  by (auto simp: normalize_task_name_def Let_def split: if_splits)

lemma normalize_agent_path_ok:
  "normalize_agent_path raw = Inr p \<Longrightarrow> p \<noteq> [] \<and> last p \<noteq> CHR ''/''"
  using trim_end_char_last [of "CHR ''/''"]
  by (auto simp: normalize_agent_path_def Let_def split: if_splits)

lemma agent_path_ok_last: "agent_path_ok p \<Longrightarrow> p \<noteq> [] \<and> last p \<noteq> CHR ''/''"
  by (auto simp: agent_path_ok_def root_agent_path_def starts_with_def)

lemma path_slashes: "agent_path_ok p \<Longrightarrow> count_list p CHR ''/'' = Suc (path_depth p)"
  by (auto simp: agent_path_ok_def root_agent_path_def starts_with_def path_depth_def prefix_def)

lemma join_agent_path_ok:
  assumes "agent_path_ok p" "t \<noteq> []" "CHR ''/'' \<notin> set t"
  shows "join_agent_path p t = p @ ''/'' @ t"
    and "path_depth (join_agent_path p t) = Suc (path_depth p)"
    and "path_depth p < max_subagent_depth \<Longrightarrow> agent_path_ok (join_agent_path p t)"
    and "join_agent_path p t \<noteq> root_agent_path"
proof -
  show j: "join_agent_path p t = p @ ''/'' @ t"
    using agent_path_ok_last [OF assms(1)] by (simp add: join_agent_path_def trim_end_char_id)
  have "count_list t CHR ''/'' = 0" using assms(3) by (simp add: count_list_0_iff)
  then show d: "path_depth (join_agent_path p t) = Suc (path_depth p)"
    unfolding j path_depth_def using path_slashes [OF assms(1)] by simp
  show "agent_path_ok (join_agent_path p t)" if "path_depth p < max_subagent_depth"
  proof -
    have "last t \<noteq> CHR ''/''" using assms(2,3) by (metis last_in_set)
    then have "last (p @ ''/'' @ t) \<noteq> CHR ''/''" using assms(2) by simp
    moreover have "starts_with (p @ ''/'' @ t) (root_agent_path @ ''/'')"
      using assms(1) by (auto simp: agent_path_ok_def starts_with_def prefix_def)
    moreover have "path_depth (p @ ''/'' @ t) \<le> max_subagent_depth" using d that by (simp add: j)
    ultimately show ?thesis by (simp add: agent_path_ok_def j)
  qed
  have "path_depth (join_agent_path p t) \<noteq> path_depth root_agent_path" using d by simp
  then show "join_agent_path p t \<noteq> root_agent_path" by auto
qed

lemma agent_inv_update:
  assumes "agent_inv root s" "am_agent_path m = p" "agent_path_ok p" "am_depth m = path_depth p"
    "am_root_thread_id m = root" "p = root_agent_path \<Longrightarrow> am_thread_id m \<noteq> None"
  shows "agent_inv root (s\<lparr>ac_agents := AList.update p m (ac_agents s), ac_paths := ps\<rparr>)"
  using assms by (auto simp: agent_inv_def update_conv')

lemma agent_inv_delete:
  assumes "agent_inv root s" "p \<noteq> root_agent_path"
  shows "agent_inv root (s\<lparr>ac_agents := AList.delete p (ac_agents s), ac_paths := ps\<rparr>)"
  using assms by (auto simp: agent_inv_def delete_conv')

lemma agent_inv_paths: "agent_inv root s \<Longrightarrow> agent_inv root (s\<lparr>ac_paths := ps\<rparr>)"
  by (simp add: agent_inv_def)

lemma agent_invD:
  "agent_inv root s \<Longrightarrow> map_of (ac_agents s) p = Some m \<Longrightarrow>
     am_agent_path m = p \<and> agent_path_ok p \<and> am_depth m = path_depth p \<and> am_root_thread_id m = root"
  by (simp add: agent_inv_def)

lemma path_depth_le: "agent_path_ok p \<Longrightarrow> path_depth p \<le> max_subagent_depth"
  by (auto simp: agent_path_ok_def max_subagent_depth_def)

lemma reserve_cases:
  "reserve_child_path parent task role ty message s = (r, s') \<Longrightarrow>
   isl r \<and> s' = s \<or>
   (\<exists>pp p. ac_paths s parent = Some pp \<and> map_of (ac_agents s) pp = Some p \<and>
      u32_sat_add (am_depth p) 1 \<le> max_subagent_depth \<and>
      map_of (ac_agents s) (join_agent_path (am_agent_path p) task) = None \<and>
      r = Inr \<lparr>sr_agent_path = join_agent_path (am_agent_path p) task,
               sr_root_thread_id = am_root_thread_id p, sr_depth = u32_sat_add (am_depth p) 1\<rparr> \<and>
      s' = s\<lparr>ac_agents := AList.update (join_agent_path (am_agent_path p) task)
        \<lparr>am_thread_id = None, am_root_thread_id = am_root_thread_id p,
         am_depth = u32_sat_add (am_depth p) 1,
         am_agent_path = join_agent_path (am_agent_path p) task, am_agent_type = Some ty,
         am_agent_role = role, am_agent_nickname = None,
         am_last_task_message = Some (message_preview message)\<rparr> (ac_agents s)\<rparr>)"
  by (auto simp: reserve_child_path_def Let_def split: option.splits if_splits)

lemma reserve_Inr:
  assumes "reserve_child_path parent task role ty message s = (Inr r, s')"
  shows "\<exists>pp p m. ac_paths s parent = Some pp \<and> map_of (ac_agents s) pp = Some p \<and>
    u32_sat_add (am_depth p) 1 \<le> max_subagent_depth \<and>
    sr_agent_path r = join_agent_path (am_agent_path p) task \<and>
    sr_depth r = u32_sat_add (am_depth p) 1 \<and> map_of (ac_agents s) (sr_agent_path r) = None \<and>
    am_thread_id m = None \<and> s' = s\<lparr>ac_agents := AList.update (sr_agent_path r) m (ac_agents s)\<rparr>"
  using reserve_cases [OF assms]
proof (elim disjE exE conjE)
  fix pp and p :: agent_metadata
  let ?m = "\<lparr>am_thread_id = None, am_root_thread_id = am_root_thread_id p,
         am_depth = u32_sat_add (am_depth p) 1,
         am_agent_path = join_agent_path (am_agent_path p) task, am_agent_type = Some ty,
         am_agent_role = role, am_agent_nickname = None,
         am_last_task_message = Some (message_preview message)\<rparr>"
  assume "ac_paths s parent = Some pp" "map_of (ac_agents s) pp = Some p"
    "u32_sat_add (am_depth p) 1 \<le> max_subagent_depth"
    "map_of (ac_agents s) (join_agent_path (am_agent_path p) task) = None"
    "Inr r = Inr \<lparr>sr_agent_path = join_agent_path (am_agent_path p) task,
      sr_root_thread_id = am_root_thread_id p, sr_depth = u32_sat_add (am_depth p) 1\<rparr>"
    "s' = s\<lparr>ac_agents := AList.update (join_agent_path (am_agent_path p) task) ?m (ac_agents s)\<rparr>"
  then show ?thesis by (intro exI [of _ pp] exI [of _ p] exI [of _ ?m]) simp
qed simp

lemma u32_small: "n \<le> 5 \<Longrightarrow> u32_sat_add n 1 = Suc n" "n \<le> 5 \<Longrightarrow> u32_sat_add n (Suc 0) = Suc n"
  by (simp_all add: u32_sat_add_def u32_max_def)

lemma agent_inv_reserve:
  assumes "agent_inv root s" "normalize_task_name raw = Inr task"
    "reserve_child_path parent task role ty message s = (r, s')"
  shows "agent_inv root s'"
proof -
  from reserve_cases [OF assms(3)] show ?thesis
  proof (elim disjE exE conjE)
    fix pp p
    assume p: "map_of (ac_agents s) pp = Some p" "u32_sat_add (am_depth p) 1 \<le> max_subagent_depth"
      and s': "s' = s\<lparr>ac_agents := AList.update (join_agent_path (am_agent_path p) task)
        \<lparr>am_thread_id = None, am_root_thread_id = am_root_thread_id p,
         am_depth = u32_sat_add (am_depth p) 1,
         am_agent_path = join_agent_path (am_agent_path p) task, am_agent_type = Some ty,
         am_agent_role = role, am_agent_nickname = None,
         am_last_task_message = Some (message_preview message)\<rparr> (ac_agents s)\<rparr>"
    note facts = agent_invD [OF assms(1) p(1)]
    have pok: "agent_path_ok (am_agent_path p)" using facts by simp
    have d: "u32_sat_add (am_depth p) 1 = Suc (path_depth (am_agent_path p))"
      using facts path_depth_le [OF pok] by (simp add: u32_small max_subagent_depth_def)
    note j = join_agent_path_ok [OF pok, of task] and t = normalize_task_name_ok [OF assms(2)]
    have "agent_inv root (s\<lparr>ac_agents := AList.update (join_agent_path (am_agent_path p) task)
        \<lparr>am_thread_id = None, am_root_thread_id = am_root_thread_id p,
         am_depth = u32_sat_add (am_depth p) 1,
         am_agent_path = join_agent_path (am_agent_path p) task, am_agent_type = Some ty,
         am_agent_role = role, am_agent_nickname = None,
         am_last_task_message = Some (message_preview message)\<rparr> (ac_agents s), ac_paths := ac_paths s\<rparr>)"
      using assms(1) facts p(2) d j t by (intro agent_inv_update) auto
    then show ?thesis by (simp add: s')
  qed (use assms(1) in auto)
qed


lemma close_targets_cases:
  assumes "close_targets_for_path parent path s = Inr (r, ts)"
  obtains pp p tm where "ac_paths s parent = Some pp" "map_of (ac_agents s) pp = Some p"
    "map_of (ac_agents s) path = Some tm" "am_root_thread_id tm = am_root_thread_id p"
    "r = am_root_thread_id p"
    "ts = sort_key (\<lambda>t. (- int (ct_depth t), ct_agent_path t))
        (List.map_filter (\<lambda>m. map_option (\<lambda>t. \<lparr>ct_thread_id = t, ct_agent_path = am_agent_path m,
             ct_depth = am_depth m\<rparr>) (am_thread_id m))
          (filter (\<lambda>m. am_root_thread_id m = am_root_thread_id p \<and>
             is_path_or_descendant (am_agent_path m) path) (hm_values (ac_agents s))))"
    "ts \<noteq> []" "\<not> list_ex (\<lambda>t. ct_thread_id t = parent) ts"
  using assms by (auto simp: close_targets_for_path_def Let_def split: option.splits if_splits)

lemma set_map_filter: "y \<in> set (List.map_filter f xs) \<longleftrightarrow> (\<exists>x \<in> set xs. f x = Some y)"
  by (force simp: List.map_filter_def)

lemma close_targets_set:
  assumes "agent_inv root s" "close_targets_for_path parent path s = Inr (r, ts)"
  shows "t \<in> set ts \<longleftrightarrow> (\<exists>m. map_of (ac_agents s) (ct_agent_path t) = Some m \<and>
      am_thread_id m = Some (ct_thread_id t) \<and> am_depth m = ct_depth t \<and>
      is_path_or_descendant (ct_agent_path t) path)"
proof -
  from assms(2) obtain pp p tm where c: "map_of (ac_agents s) pp = Some p"
    "ts = sort_key (\<lambda>t. (- int (ct_depth t), ct_agent_path t))
        (List.map_filter (\<lambda>m. map_option (\<lambda>t. \<lparr>ct_thread_id = t, ct_agent_path = am_agent_path m,
             ct_depth = am_depth m\<rparr>) (am_thread_id m))
          (filter (\<lambda>m. am_root_thread_id m = am_root_thread_id p \<and>
             is_path_or_descendant (am_agent_path m) path) (hm_values (ac_agents s))))"
    by (rule close_targets_cases)
  have vals: "m \<in> set (hm_values (ac_agents s)) \<longleftrightarrow> (\<exists>k. map_of (ac_agents s) k = Some m)" for m
    using assms(1) by (intro hm_values_iff) (simp add: agent_inv_def)
  have roots: "am_root_thread_id m = am_root_thread_id p" if "map_of (ac_agents s) k = Some m" for k m
    using agent_invD [OF assms(1) that] agent_invD [OF assms(1) c(1)] by simp
  show ?thesis
    unfolding c(2) set_sort set_map_filter set_filter
    using agent_invD [OF assms(1)] roots vals by (cases t) fastforce
qed

lemma root_not_descendant:
  assumes "is_path_or_descendant root_agent_path p" "p \<noteq> root_agent_path" "p \<noteq> []"
  shows "False"
proof -
  have "prefix (p @ ''/'') root_agent_path" using assms(1,2) by (simp add: is_path_or_descendant_def starts_with_def)
  then obtain zs where zs: "''/root'' = p @ CHR ''/'' # zs" by (auto simp: prefix_def root_agent_path_def)
  with assms(3) obtain c cs where "p = c # cs" by (cases p) auto
  with zs have "''root'' = cs @ CHR ''/'' # zs" by simp
  then have "CHR ''/'' \<in> set ''root''" by (metis in_set_conv_decomp)
  then show False by simp
qed

lemma release_closed_agents:
  "agent_inv root s \<Longrightarrow> root_agent_path \<notin> ct_agent_path ` set ts \<Longrightarrow>
   agent_inv root (release_closed_targets ts s) \<and>
   map_of (ac_agents (release_closed_targets ts s)) p =
     (if p \<in> ct_agent_path ` set ts then None else map_of (ac_agents s) p)"
proof (induction ts arbitrary: s)
  case (Cons t ts)
  let ?s = "s\<lparr>ac_agents := AList.delete (ct_agent_path t) (ac_agents s),
      ac_paths := (ac_paths s)(ct_thread_id t := None)\<rparr>"
  have "agent_inv root ?s" using Cons.prems by (intro agent_inv_delete) auto
  from Cons.IH [OF this] Cons.prems(2) show ?case
    by (auto simp: release_closed_targets_def delete_conv')
qed (simp add: release_closed_targets_def)

lemma agent_reach_inv: "agent_reach root s \<Longrightarrow> agent_inv root s"
proof (induction rule: agent_reach.induct)
  case (reach_new root)
  show ?case
    by (auto simp: agent_inv_def new_root_def root_metadata_def hm_ok_def split: if_splits)
next
  case (reach_register root s sn)
  let ?m = "metadata_from_snapshot sn (ac_root s)"
  have "agent_inv root (s\<lparr>ac_agents := AList.update (am_agent_path ?m) ?m (ac_agents s),
      ac_paths := (ac_paths s)(sn_thread_id sn \<mapsto> am_agent_path ?m)\<rparr>)"
    using reach_register.IH reach_register.hyps(2)
    by (intro agent_inv_update)
      (auto simp: metadata_from_snapshot_def root_metadata_def lineage_ok_def agent_inv_def
        split: option.splits)
  then show ?case
    using agent_inv_paths [OF reach_register.IH]
    by (cases s) (auto simp: register_thread_from_snapshot_def Let_def split: option.splits)
next
  case (reach_reserve root s raw task parent role ty message r s')
  then show ?case by (blast intro: agent_inv_reserve)
next
  case (reach_commit root s path child)
  show ?case
  proof (cases "map_of (ac_agents s) path")
    case None
    then show ?thesis
      using agent_inv_paths [OF reach_commit.IH] by (simp add: commit_reservation_def)
  next
    case (Some m)
    then show ?thesis
      using agent_inv_update [OF reach_commit.IH, of "m\<lparr>am_thread_id := Some child\<rparr>" path]
        agent_invD [OF reach_commit.IH Some] by (simp add: commit_reservation_def)
  qed
next
  case (reach_release root s path)
  show ?case
  proof (cases "map_of (ac_agents s) path")
    case (Some m)
    have "path \<noteq> root_agent_path" if "am_thread_id m = None"
      using reach_release.IH Some that by (auto simp: agent_inv_def)
    with Some reach_release.IH agent_inv_delete [OF reach_release.IH, of path "ac_paths s"]
    show ?thesis by (auto simp: release_reservation_def)
  qed (use reach_release.IH in \<open>simp add: release_reservation_def\<close>)
next
  case (reach_close root s s0 raw path parent r targets)
  have "root_agent_path \<notin> ct_agent_path ` set targets"
    using close_targets_set [OF reach_close.IH(2) reach_close.hyps(5)]
      root_not_descendant [OF _ reach_close.hyps(4)] normalize_agent_path_ok [OF reach_close.hyps(3)]
    by auto
  with release_closed_agents [OF reach_close.IH(1)] show ?case by blast
qed


section \<open>Properties\<close>

text \<open>C3: In every reachable registry the tree is sound: agents are filed under their own path, no
  two under one path, all belong to the tree's root, the depth of an agent is the depth of its path
  and never more than 2, and the root agent is always registered with a running thread.\<close>

theorem agent_tree_invariant:
  assumes "agent_reach root s"
  shows "distinct (map fst (ac_agents s)) \<and>
    list_all (\<lambda>(p, m). am_agent_path m = p \<and> am_root_thread_id m = root \<and>
      am_depth m = path_depth p \<and> am_depth m \<le> 2 \<and>
      (p = root_agent_path \<or> starts_with p (root_agent_path @ ''/''))) (ac_agents s) \<and>
    (\<exists>m. map_of (ac_agents s) root_agent_path = Some m \<and> am_thread_id m \<noteq> None)"
proof -
  note inv = agent_reach_inv [OF assms]
  have m: "map_of (ac_agents s) p = Some m" if "(p, m) \<in> set (ac_agents s)" for p m
    using inv that by (simp add: agent_inv_def hm_ok_def)
  have "am_agent_path m = p \<and> am_root_thread_id m = root \<and> am_depth m = path_depth p \<and>
      am_depth m \<le> 2 \<and> (p = root_agent_path \<or> starts_with p (root_agent_path @ ''/''))"
    if "(p, m) \<in> set (ac_agents s)" for p m
  proof -
    from agent_invD [OF inv m [OF that]] have f: "am_agent_path m = p" "agent_path_ok p"
      "am_depth m = path_depth p" "am_root_thread_id m = root" by auto
    then have "path_depth p \<le> 2" using path_depth_le [of p] by (simp add: max_subagent_depth_def)
    with f show ?thesis by (auto simp: agent_path_ok_def)
  qed
  then show ?thesis using inv by (auto simp: agent_inv_def hm_ok_def list_all_iff)
qed

text \<open>A child of the root, reserved and committed.\<close>

definition sample_control :: agent_control where
  "sample_control = commit_reservation ''/root/a'' ''t1''
     (snd (reserve_child_path ''t0'' ''a'' None Worker ''do it'' (new_root ''t0'')))"

lemma trim_a: "trim ''a'' = ''a''" "trim ''/root/a'' = ''/root/a''" "trim ''do it'' = ''do it''"
  by code_simp+

lemma normalize_a: "normalize_task_name ''a'' = Inr ''a''"
  "normalize_agent_path ''/root/a'' = Inr ''/root/a''"
  by code_simp+

lemma sample_reach: "agent_reach ''t0'' sample_control"
  unfolding sample_control_def
  by (rule reach_commit, rule reach_reserve [OF reach_new normalize_a(1), where r = "fst x" and
      s' = "snd x" for x]) (auto simp: root_agent_path_def)

theorem agent_tree_invariant_witness:
  "distinct (map fst (ac_agents sample_control)) \<and>
    list_all (\<lambda>(p, m). am_agent_path m = p \<and> am_root_thread_id m = ''t0'' \<and>
      am_depth m = path_depth p \<and> am_depth m \<le> 2 \<and>
      (p = root_agent_path \<or> starts_with p (root_agent_path @ ''/''))) (ac_agents sample_control) \<and>
    (\<exists>m. map_of (ac_agents sample_control) root_agent_path = Some m \<and> am_thread_id m \<noteq> None)"
  by (rule agent_tree_invariant [OF sample_reach])

text \<open>C4: The targets of a close are exactly the running agents of the subtree, never the agent that
  asks, and they come children first: no agent is listed before one of its descendants.\<close>

theorem close_targets_children_first:
  assumes "agent_reach root s" and "close_targets_for_path parent path s = Inr (r, ts)"
  shows "(t \<in> set ts \<longleftrightarrow> (\<exists>m. map_of (ac_agents s) (ct_agent_path t) = Some m \<and>
        am_thread_id m = Some (ct_thread_id t) \<and> am_depth m = ct_depth t \<and>
        is_path_or_descendant (ct_agent_path t) path)) \<and>
    parent \<notin> ct_thread_id ` set ts \<and>
    sorted_wrt (\<lambda>a b. ct_depth b \<le> ct_depth a \<and>
      \<not> starts_with (ct_agent_path b) (ct_agent_path a @ ''/'')) ts"
proof -
  note inv = agent_reach_inv [OF assms(1)]
  note ts = close_targets_set [OF inv assms(2)]
  from assms(2) obtain xs where c: "ts = sort_key (\<lambda>t. (- int (ct_depth t), ct_agent_path t)) xs"
    "\<not> list_ex (\<lambda>t. ct_thread_id t = parent) ts"
    by (rule close_targets_cases)
  have depth: "agent_path_ok (ct_agent_path t) \<and> ct_depth t = path_depth (ct_agent_path t)"
    if "t \<in> set ts" for t
    using that ts agent_invD [OF inv] by metis
  have deeper: "path_depth p < path_depth q"
    if "starts_with q (p @ ''/'')" "agent_path_ok p" for p q
    using that path_slashes [OF that(2)]
    by (auto simp: starts_with_def prefix_def path_depth_def)
  have "sorted_wrt (\<lambda>a b. (- int (ct_depth a), ct_agent_path a) \<le> (- int (ct_depth b), ct_agent_path b)) ts"
    using sorted_sort_key [of "\<lambda>t. (- int (ct_depth t), ct_agent_path t)" xs]
    unfolding c(1) [symmetric] by (simp add: sorted_map)
  then have "sorted_wrt (\<lambda>a b. ct_depth b \<le> ct_depth a \<and>
      \<not> starts_with (ct_agent_path b) (ct_agent_path a @ ''/'')) ts"
    by (rule sorted_wrt_mono_rel [rotated])
      (use depth deeper in \<open>fastforce simp: less_eq_prod_simp\<close>)
  with ts c(2) show ?thesis by (auto simp: list_ex_iff)
qed


lemma sample_control_eq:
  "sample_control = \<lparr>ac_root = ''t0'', ac_agents =
     [(''/root'', root_metadata ''t0'' ''t0''),
      (''/root/a'', \<lparr>am_thread_id = Some ''t1'', am_root_thread_id = ''t0'', am_depth = 1,
         am_agent_path = ''/root/a'', am_agent_type = Some Worker, am_agent_role = None,
         am_agent_nickname = None, am_last_task_message = Some ''do it''\<rparr>)],
     ac_paths = [''t0'' \<mapsto> ''/root'', ''t1'' \<mapsto> ''/root/a'']\<rparr>"
proof -
  have p: "message_preview ''do it'' = ''do it''" by code_simp
  show ?thesis
    by (simp add: sample_control_def commit_reservation_def reserve_child_path_def new_root_def
      root_agent_path_def root_metadata_def join_agent_path_def trim_end_char_def p u32_small
      max_subagent_depth_def Let_def)
qed

lemma sample_targets:
  "close_targets_for_path ''t0'' ''/root/a'' sample_control =
     Inr (''t0'', [\<lparr>ct_thread_id = ''t1'', ct_agent_path = ''/root/a'', ct_depth = 1\<rparr>])"
  by (simp add: sample_control_eq close_targets_for_path_def Let_def hm_values_def root_metadata_def
    is_path_or_descendant_def starts_with_def root_agent_path_def List.map_filter_simps)

theorem close_targets_children_first_witness:
  "(\<lparr>ct_thread_id = ''t1'', ct_agent_path = ''/root/a'', ct_depth = 1\<rparr> \<in> set [\<lparr>ct_thread_id = ''t1'', ct_agent_path = ''/root/a'', ct_depth = 1\<rparr>] \<longleftrightarrow>
      (\<exists>m. map_of (ac_agents sample_control) ''/root/a'' = Some m \<and>
        am_thread_id m = Some ''t1'' \<and> am_depth m = 1 \<and>
        is_path_or_descendant ''/root/a'' ''/root/a'')) \<and>
    ''t0'' \<notin> ct_thread_id ` set [\<lparr>ct_thread_id = ''t1'', ct_agent_path = ''/root/a'', ct_depth = 1\<rparr>] \<and>
    sorted_wrt (\<lambda>a b. ct_depth b \<le> ct_depth a \<and>
      \<not> starts_with (ct_agent_path b) (ct_agent_path a @ ''/''))
      [\<lparr>ct_thread_id = ''t1'', ct_agent_path = ''/root/a'', ct_depth = 1\<rparr>]"
  using close_targets_children_first [OF sample_reach sample_targets,
      of "\<lparr>ct_thread_id = ''t1'', ct_agent_path = ''/root/a'', ct_depth = 1\<rparr>"] by simp

text \<open>Once a close has gone through, the subtree has no running agent left and every agent
  outside it is untouched.\<close>

theorem closed_subtree_is_gone:
  assumes "agent_reach root s" and "close_targets_for_path parent path s = Inr (r, ts)"
    and "normalize_agent_path raw = Inr path" and "path \<noteq> root_agent_path"
  shows "case map_of (ac_agents (release_closed_targets ts s)) p of
      None \<Rightarrow> map_of (ac_agents s) p = None \<or> is_path_or_descendant p path
    | Some m \<Rightarrow> map_of (ac_agents s) p = Some m \<and>
        (am_thread_id m = None \<or> \<not> is_path_or_descendant p path)"
proof -
  note inv = agent_reach_inv [OF assms(1)]
  note ts = close_targets_set [OF inv assms(2)]
  have root: "root_agent_path \<notin> ct_agent_path ` set ts"
    using ts root_not_descendant [OF _ assms(4)] normalize_agent_path_ok [OF assms(3)] by auto
  have mem: "p \<in> ct_agent_path ` set ts \<longleftrightarrow>
      (\<exists>m. map_of (ac_agents s) p = Some m \<and> am_thread_id m \<noteq> None \<and> is_path_or_descendant p path)"
  proof
    assume "\<exists>m. map_of (ac_agents s) p = Some m \<and> am_thread_id m \<noteq> None \<and> is_path_or_descendant p path"
    then obtain m th where "map_of (ac_agents s) p = Some m" "am_thread_id m = Some th"
      "is_path_or_descendant p path" by auto
    then have "\<lparr>ct_thread_id = th, ct_agent_path = p, ct_depth = am_depth m\<rparr> \<in> set ts"
      using ts by simp
    then show "p \<in> ct_agent_path ` set ts" by force
  qed (use ts in auto)
  show ?thesis
    using release_closed_agents [OF inv root, of p] mem by (auto split: option.splits)
qed

theorem closed_subtree_is_gone_witness:
  "case map_of (ac_agents (release_closed_targets
      [\<lparr>ct_thread_id = ''t1'', ct_agent_path = ''/root/a'', ct_depth = 1\<rparr>] sample_control)) ''/root/a'' of
      None \<Rightarrow> map_of (ac_agents sample_control) ''/root/a'' = None \<or>
        is_path_or_descendant ''/root/a'' ''/root/a''
    | Some m \<Rightarrow> map_of (ac_agents sample_control) ''/root/a'' = Some m \<and>
        (am_thread_id m = None \<or> \<not> is_path_or_descendant ''/root/a'' ''/root/a'')"
  by (rule closed_subtree_is_gone [OF sample_reach sample_targets normalize_a(2)])
    (simp add: root_agent_path_def)

text \<open>A reservation gives the child a new path directly below its parent's and one level deeper,
  blocks that path for everybody else, and releasing it restores the registry.\<close>

theorem reservation_owns_path:
  assumes "agent_reach root s" and "normalize_task_name raw = Inr task"
    and "reserve_child_path parent task role ty message s = (Inr r, s')"
  shows "map_of (ac_agents s) (sr_agent_path r) = None \<and>
    parent_agent_path (sr_agent_path r) = ac_paths s parent \<and>
    sr_depth r = path_depth (sr_agent_path r) \<and> sr_depth r \<le> 2 \<and>
    isl (fst (reserve_child_path parent task role' ty' message' s')) \<and>
    ac_paths (release_reservation (sr_agent_path r) s') = ac_paths s \<and>
    map_of (ac_agents (release_reservation (sr_agent_path r) s')) = map_of (ac_agents s)"
proof -
  note inv = agent_reach_inv [OF assms(1)]
  from reserve_Inr [OF assms(3)] obtain pp p m where p: "ac_paths s parent = Some pp"
    "map_of (ac_agents s) pp = Some p" "u32_sat_add (am_depth p) 1 \<le> max_subagent_depth"
    and path: "sr_agent_path r = join_agent_path (am_agent_path p) task"
    and depth: "sr_depth r = u32_sat_add (am_depth p) 1"
    and new: "map_of (ac_agents s) (sr_agent_path r) = None"
    and m: "am_thread_id m = None"
      "s' = s\<lparr>ac_agents := AList.update (sr_agent_path r) m (ac_agents s)\<rparr>" by blast
  note facts = agent_invD [OF inv p(2)]
  have pok: "agent_path_ok pp" using facts by simp
  note t = normalize_task_name_ok [OF assms(2)]
  have j: "sr_agent_path r = pp @ ''/'' @ task" "path_depth (sr_agent_path r) = Suc (path_depth pp)"
    using join_agent_path_ok(1,2) [OF pok] t facts path by auto
  have lastt: "last task \<noteq> CHR ''/''" using t by (metis last_in_set)
  have tw: "takeWhile (\<lambda>x. x \<noteq> CHR ''/'') (rev task @ CHR ''/'' # rev pp) = rev task"
    "dropWhile (\<lambda>x. x \<noteq> CHR ''/'') (rev task @ CHR ''/'' # rev pp) = CHR ''/'' # rev pp"
    using t by (subst takeWhile_append2 dropWhile_append2; auto)+
  have "parent_agent_path (sr_agent_path r) = Some pp"
    using t lastt agent_path_ok_last [OF pok] tw
    by (simp add: parent_agent_path_def j(1) trim_end_char_id rsplit_once_def)
  moreover have "sr_depth r = path_depth (sr_agent_path r)" "sr_depth r \<le> 2"
    using depth j(2) facts p(3) path_depth_le [OF pok]
    by (auto simp: u32_small max_subagent_depth_def)
  moreover have "isl (fst (reserve_child_path parent task role' ty' message' s'))"
  proof -
    have "pp \<noteq> sr_agent_path r" using j by simp
    then have "map_of (ac_agents s') pp = Some p" using p(2) m by (simp add: update_conv')
    then show ?thesis
      using p(1) facts path m
      by (auto simp: reserve_child_path_def Let_def update_conv')
  qed
  moreover have "ac_paths (release_reservation (sr_agent_path r) s') = ac_paths s"
    "map_of (ac_agents (release_reservation (sr_agent_path r) s')) = map_of (ac_agents s)"
    using m new by (auto simp: release_reservation_def update_conv' delete_conv')
  ultimately show ?thesis using new p(1) by simp
qed


lemma sample_reservation:
  "reserve_child_path ''t0'' ''a'' None Worker ''do it'' (new_root ''t0'') =
     (Inr \<lparr>sr_agent_path = ''/root/a'', sr_root_thread_id = ''t0'', sr_depth = 1\<rparr>,
      snd (reserve_child_path ''t0'' ''a'' None Worker ''do it'' (new_root ''t0'')))"
  by (simp add: reserve_child_path_def new_root_def root_agent_path_def root_metadata_def
    join_agent_path_def trim_end_char_def u32_small max_subagent_depth_def Let_def)

theorem reservation_owns_path_witness:
  "map_of (ac_agents (new_root ''t0'')) ''/root/a'' = None \<and>
    parent_agent_path ''/root/a'' = ac_paths (new_root ''t0'') ''t0'' \<and>
    1 = path_depth ''/root/a'' \<and> (1::nat) \<le> 2 \<and>
    isl (fst (reserve_child_path ''t0'' ''a'' None Explorer ''again''
      (snd (reserve_child_path ''t0'' ''a'' None Worker ''do it'' (new_root ''t0''))))) \<and>
    ac_paths (release_reservation ''/root/a''
      (snd (reserve_child_path ''t0'' ''a'' None Worker ''do it'' (new_root ''t0'')))) =
      ac_paths (new_root ''t0'') \<and>
    map_of (ac_agents (release_reservation ''/root/a''
      (snd (reserve_child_path ''t0'' ''a'' None Worker ''do it'' (new_root ''t0''))))) =
      map_of (ac_agents (new_root ''t0''))"
  using reservation_owns_path [OF reach_new normalize_a(1) sample_reservation,
      of None Explorer "''again''"] by simp

text \<open>Mail is only made out to a running agent of the sender's own tree: the recipient is the
  thread filed under the normalized path, the author path is the sender's, and the content is the
  trimmed, non-empty message. In a reachable registry the tree condition always holds, so only a
  missing path, a missing thread, an unregistered sender or an empty message can refuse it.\<close>

theorem mail_reaches_running_agent:
  assumes "agent_reach root s"
  shows "case inter_agent_mail_from_request now req s of
      Inr m \<Rightarrow> trim (sm_message req) \<noteq> [] \<and> ml_content m = trim (sm_message req) \<and>
        ac_paths s (sm_author_thread_id req) = Some (ml_author_path m) \<and>
        normalize_agent_path (sm_recipient_path req) = Inr (ml_recipient_path m) \<and>
        map_option am_thread_id (map_of (ac_agents s) (ml_recipient_path m)) =
          Some (Some (ml_recipient_thread_id m)) \<and>
        ml_trigger_turn m = sm_followup req
    | Inl _ \<Rightarrow> trim (sm_message req) = [] \<or> isl (normalize_agent_path (sm_recipient_path req)) \<or>
        Option.bind (ac_paths s (sm_author_thread_id req)) (map_of (ac_agents s)) = None \<or>
        Option.bind (map_of (ac_agents s) (projr (normalize_agent_path (sm_recipient_path req))))
          am_thread_id = None"
proof -
  note inv = agent_reach_inv [OF assms]
  have roots: "am_root_thread_id m = root" if "map_of (ac_agents s) p = Some m" for p m
    using agent_invD [OF inv that] by simp
  show ?thesis
    by (cases "normalize_agent_path (sm_recipient_path req)")
      (auto simp: inter_agent_mail_from_request_def bind_eq_None_conv dest: roots
        split: option.splits sum.splits if_splits)
qed

theorem mail_reaches_running_agent_witness:
  "case inter_agent_mail_from_request ''now'' \<lparr>sm_author_thread_id = ''t0'',
        sm_recipient_path = ''/root/a'', sm_message = ''do it'', sm_source_turn_id = None,
        sm_followup = True\<rparr> sample_control of
      Inr m \<Rightarrow> ml_recipient_thread_id m = ''t1'' | Inl _ \<Rightarrow> False"
proof -
  let ?req = "\<lparr>sm_author_thread_id = ''t0'', sm_recipient_path = ''/root/a'',
    sm_message = ''do it'', sm_source_turn_id = None, sm_followup = True\<rparr>"
  have paths: "ac_paths sample_control ''t0'' = Some ''/root''"
    "map_option am_thread_id (map_of (ac_agents sample_control) ''/root/a'') = Some (Some ''t1'')"
    "map_of (ac_agents sample_control) ''/root'' = Some (root_metadata ''t0'' ''t0'')"
    by (simp_all add: sample_control_eq)
  show ?thesis
    using mail_reaches_running_agent [OF sample_reach, where now = "''now''" and req = ?req] paths
    by (auto simp: trim_a normalize_a split: sum.splits)
qed

text \<open>The listing of a reachable tree shows every agent once, ordered by path, and calls running
  exactly those with a thread.\<close>

theorem listing_complete_and_ordered:
  assumes "agent_reach root s"
  shows "sorted (map la_agent_path (list_agents s)) \<and> distinct (map la_agent_path (list_agents s)) \<and>
    (\<forall>p. p \<in> la_agent_path ` set (list_agents s) \<longleftrightarrow> map_of (ac_agents s) p \<noteq> None) \<and>
    list_all (\<lambda>a. case map_of (ac_agents s) (la_agent_path a) of None \<Rightarrow> False
      | Some m \<Rightarrow> la_thread_id a = am_thread_id m \<and>
          (la_status a = Running \<longleftrightarrow> am_thread_id m \<noteq> None)) (list_agents s)"
proof -
  note inv = agent_reach_inv [OF assms]
  have ok: "hm_ok (ac_agents s)" "ac_root s = root" using inv by (simp_all add: agent_inv_def)
  have vals: "m \<in> set (hm_values (ac_agents s)) \<longleftrightarrow> map_of (ac_agents s) (am_agent_path m) = Some m"
    for m using hm_values_iff [OF ok(1)] agent_invD [OF inv] by metis
  have roots: "filter (\<lambda>m. am_root_thread_id m = ac_root s) (hm_values (ac_agents s)) =
      hm_values (ac_agents s)"
    using hm_values_iff [OF ok(1)] agent_invD [OF inv] ok(2) by (metis (mono_tags) filter_True)
  have paths: "map am_agent_path (hm_values (ac_agents s)) = map fst (ac_agents s)"
    using agent_invD [OF inv] ok(1)
    by (auto simp: hm_values_def hm_ok_def)
  let ?f = "\<lambda>m. \<lparr>la_thread_id = am_thread_id m, la_root_thread_id = am_root_thread_id m,
                la_depth = am_depth m, la_agent_path = am_agent_path m,
                la_status = (if am_thread_id m \<noteq> None then Running else Spawning),
                la_agent_type = am_agent_type m, la_agent_role = am_agent_role m,
                la_agent_nickname = am_agent_nickname m,
                la_last_task_message = am_last_task_message m\<rparr>"
  have la: "list_agents s = sort_key la_agent_path (map ?f (hm_values (ac_agents s)))"
    by (simp only: list_agents_def roots)
  have ms: "mset (map la_agent_path (list_agents s)) = mset (map fst (ac_agents s))"
    unfolding la mset_map mset_sort using paths by (simp add: multiset.map_comp comp_def flip: mset_map)
  then have dist: "distinct (map la_agent_path (list_agents s))"
    using ok(1) mset_eq_imp_distinct_iff by (metis hm_ok_def)
  have dom: "la_agent_path ` set (list_agents s) = fst ` set (ac_agents s)"
    using arg_cong [OF ms, of set_mset] by simp
  have "p \<in> la_agent_path ` set (list_agents s) \<longleftrightarrow> map_of (ac_agents s) p \<noteq> None" for p
    unfolding dom map_of_eq_None_iff by simp
  moreover have "list_all (\<lambda>a. case map_of (ac_agents s) (la_agent_path a) of None \<Rightarrow> False
      | Some m \<Rightarrow> la_thread_id a = am_thread_id m \<and>
          (la_status a = Running \<longleftrightarrow> am_thread_id m \<noteq> None)) (list_agents s)"
    by (auto simp: la list_all_iff vals)
  moreover have "sorted (map la_agent_path (list_agents s))" unfolding la by (rule sorted_sort_key)
  ultimately show ?thesis using dist by blast
qed

theorem listing_complete_and_ordered_witness:
  "sorted (map la_agent_path (list_agents sample_control)) \<and>
    distinct (map la_agent_path (list_agents sample_control)) \<and>
    (\<forall>p. p \<in> la_agent_path ` set (list_agents sample_control) \<longleftrightarrow>
      map_of (ac_agents sample_control) p \<noteq> None) \<and>
    list_all (\<lambda>a. case map_of (ac_agents sample_control) (la_agent_path a) of None \<Rightarrow> False
      | Some m \<Rightarrow> la_thread_id a = am_thread_id m \<and>
          (la_status a = Running \<longleftrightarrow> am_thread_id m \<noteq> None)) (list_agents sample_control)"
  by (rule listing_complete_and_ordered [OF sample_reach])


definition sample_spawn :: spawn_agent_request where
  "sample_spawn = \<lparr>sq_parent_thread_id = ''t0'', sq_task_name = ''a'', sq_message = ''do it'',
     sq_agent_type = Worker, sq_agent_role = None, sq_fork_turns = ForkNone\<rparr>"


end
