(* ===== verification/GoalStore.thy ===== *)
theory GoalStore
  imports Codec Protocol
begin

text \<open>
  The index database (\<^verbatim>\<open>src/state/index_db\<close>), as far as goals need it: the known threads,
  the table of thread goals with its statements (\<^verbatim>\<open>goal_store.rs\<close>), and the tables of
  the review gate. A row holds what the columns hold; the statuses are text. The clock is an
  argument, and every statement succeeds unless it violates a foreign key (SQLite failures are not
  modelled). The process-wide identifier counters are part of the state.
\<close>

section \<open>Rows and database\<close>

datatype goal_status =
    GoalActive | GoalPaused | GoalBlocked | GoalUsageLimited | GoalBudgetLimited | GoalComplete

fun goal_status_as_str :: "goal_status \<Rightarrow> string" where
  "goal_status_as_str GoalActive = ''active''"
| "goal_status_as_str GoalPaused = ''paused''"
| "goal_status_as_str GoalBlocked = ''blocked''"
| "goal_status_as_str GoalUsageLimited = ''usage_limited''"
| "goal_status_as_str GoalBudgetLimited = ''budget_limited''"
| "goal_status_as_str GoalComplete = ''complete''"

definition goal_status_from_str :: "string \<Rightarrow> error + goal_status" where
  "goal_status_from_str v =
     (if v = ''active'' then Inr GoalActive
      else if v = ''paused'' then Inr GoalPaused
      else if v = ''blocked'' then Inr GoalBlocked
      else if v = ''usage_limited'' then Inr GoalUsageLimited
      else if v = ''budget_limited'' then Inr GoalBudgetLimited
      else if v = ''complete'' then Inr GoalComplete
      else Inl (Anyhow (''unknown thread goal status: '' @ v)))"

interpretation goal_status_codec: label_codec goal_status_as_str goal_status_from_str
proof
  show "goal_status_from_str (goal_status_as_str x) = Inr x" for x
    by (cases x) (simp_all add: goal_status_from_str_def)
  show "s = goal_status_as_str x" if "goal_status_from_str s = Inr x" for s x
    using that by (auto simp: goal_status_from_str_def split: if_splits)
qed

record goal_row =
  gw_goal_id :: string
  gw_objective :: string
  gw_status :: string
  gw_token_budget :: "int option"
  gw_tokens_used :: int
  gw_time_used_seconds :: int
  gw_suppressed :: int
  gw_suppressed_after :: "turn_id option"
  gw_suppressed_at_ms :: "int option"
  gw_created_at_ms :: int
  gw_updated_at_ms :: int

record ticket_row =
  kr_ticket_id :: string
  kr_goal_id :: string
  kr_baseline_hash :: "string option"
  kr_status :: string
  kr_reviewed_hash :: "string option"
  kr_findings :: "string option"
  kr_reject_category :: "string option"
  kr_created_at_ms :: int
  kr_updated_at_ms :: int
  kr_ticket_order :: int

record question_row =
  qr_question_id :: string
  qr_thread_id :: thread_id
  qr_goal_id :: string
  qr_question :: string
  qr_blocks_what :: string
  qr_status :: string
  qr_answer :: "string option"
  qr_created_at_ms :: int
  qr_updated_at_ms :: int
  qr_question_order :: int

record mode_row =
  mo_intensive :: int
  mo_mode :: "string option"
  mo_updated_at_ms :: int

record index_db =
  db_threads :: "thread_id list"
  db_goals :: "thread_id \<rightharpoonup> goal_row"
  db_next_goal :: nat
  db_tickets :: "ticket_row list"
  db_next_ticket :: nat
  db_questions :: "question_row list"
  db_next_question :: nat
  db_modes :: "thread_id \<times> string \<rightharpoonup> mode_row"

definition db_new :: "thread_id list \<Rightarrow> index_db" where
  "db_new threads = \<lparr>db_threads = threads, db_goals = Map.empty, db_next_goal = 1,
     db_tickets = [], db_next_ticket = 1, db_questions = [], db_next_question = 1,
     db_modes = Map.empty\<rparr>"

section \<open>The goal store\<close>

record goal_record =
  go_thread_id :: thread_id
  go_goal_id :: string
  go_objective :: string
  go_status :: goal_status
  go_token_budget :: "int option"
  go_tokens_used :: int
  go_time_used_seconds :: int
  go_suppressed :: bool
  go_suppressed_after :: "turn_id option"
  go_created_at_ms :: int
  go_updated_at_ms :: int

record goal_update =
  gu_objective :: "string option"
  gu_status :: "goal_status option"
  gu_token_budget :: "int option option"
  gu_expected_goal_id :: "string option"

datatype accounting_mode = ActiveOnly | AnyCurrentGoal

datatype accounting_outcome = Updated goal_record | Unchanged "goal_record option"

definition thread_goal_record_from_row :: "thread_id \<Rightarrow> goal_row \<Rightarrow> error + goal_record" where
  "thread_goal_record_from_row t row =
     bind_res (goal_status_from_str (gw_status row)) (\<lambda>st.
       Inr \<lparr>go_thread_id = t, go_goal_id = gw_goal_id row, go_objective = gw_objective row,
            go_status = st, go_token_budget = gw_token_budget row,
            go_tokens_used = gw_tokens_used row, go_time_used_seconds = gw_time_used_seconds row,
            go_suppressed = (gw_suppressed row \<noteq> 0),
            go_suppressed_after = gw_suppressed_after row,
            go_created_at_ms = gw_created_at_ms row, go_updated_at_ms = gw_updated_at_ms row\<rparr>)"

definition get_thread_goal :: "thread_id \<Rightarrow> index_db \<Rightarrow> error + goal_record option" where
  "get_thread_goal t db =
     (case db_goals db t of
        None \<Rightarrow> Inr None
      | Some row \<Rightarrow> bind_res (thread_goal_record_from_row t row) (\<lambda>g. Inr (Some g)))"

definition next_goal_id :: "nat \<Rightarrow> int \<Rightarrow> string" where
  "next_goal_id n now = ''goal_'' @ show_int now @ ''_'' @ show_nat n"

definition new_goal_id :: "int \<Rightarrow> index_db \<Rightarrow> string \<times> index_db" where
  "new_goal_id now db =
     (next_goal_id (db_next_goal db) now,
      db\<lparr>db_next_goal := u64_wrap_succ (db_next_goal db)\<rparr>)"

definition fresh_row :: "string \<Rightarrow> string \<Rightarrow> string \<Rightarrow> int option \<Rightarrow> int \<Rightarrow> goal_row" where
  "fresh_row i objective status budget now =
     \<lparr>gw_goal_id = i, gw_objective = objective, gw_status = status, gw_token_budget = budget,
      gw_tokens_used = 0, gw_time_used_seconds = 0, gw_suppressed = 0, gw_suppressed_after = None,
      gw_suppressed_at_ms = None, gw_created_at_ms = now, gw_updated_at_ms = now\<rparr>"

text \<open>An upsert of the whole row; the row must refer to a known thread.\<close>

definition replace_thread_goal ::
  "int \<Rightarrow> thread_id \<Rightarrow> string \<Rightarrow> goal_status \<Rightarrow> int option \<Rightarrow> index_db \<Rightarrow>
   (error + goal_record) \<times> index_db" where
  "replace_thread_goal now t objective status budget db =
     (let (i, db1) = new_goal_id now db in
      if t \<notin> set (db_threads db1) then (Inl (ForeignKeyViolation ''thread_goals.thread_id''), db1)
      else let row = fresh_row i objective (goal_status_as_str status) budget now;
               db2 = db1\<lparr>db_goals := (db_goals db1)(t \<mapsto> row)\<rparr>
           in (bind_res (get_thread_goal t db2) (\<lambda>g. case g of Some r \<Rightarrow> Inr r
                 | None \<Rightarrow> Inl (Anyhow ''replace_thread_goal should create a goal'')), db2))"

text \<open>\<^verbatim>\<open>INSERT OR IGNORE\<close> ignores a conflict on the primary key, not a foreign key.\<close>

definition insert_thread_goal ::
  "int \<Rightarrow> thread_id \<Rightarrow> string \<Rightarrow> int option \<Rightarrow> index_db \<Rightarrow>
   (error + goal_record option) \<times> index_db" where
  "insert_thread_goal now t objective budget db =
     (let (i, db1) = new_goal_id now db in
      if db_goals db1 t \<noteq> None then (Inr None, db1)
      else if t \<notin> set (db_threads db1)
      then (Inl (ForeignKeyViolation ''thread_goals.thread_id''), db1)
      else let db2 = db1\<lparr>db_goals := (db_goals db1)(t \<mapsto> fresh_row i objective ''active'' budget now)\<rparr>
           in (get_thread_goal t db2, db2))"

definition update_thread_goal ::
  "int \<Rightarrow> thread_id \<Rightarrow> goal_update \<Rightarrow> index_db \<Rightarrow> (error + goal_record option) \<times> index_db" where
  "update_thread_goal now t u db =
     (case get_thread_goal t db of
        Inl e \<Rightarrow> (Inl e, db)
      | Inr None \<Rightarrow> (Inr None, db)
      | Inr (Some current) \<Rightarrow>
          if (case gu_expected_goal_id u of None \<Rightarrow> False | Some i \<Rightarrow> i \<noteq> go_goal_id current)
          then (Inr None, db)
          else
            let objective = (case gu_objective u of None \<Rightarrow> go_objective current | Some x \<Rightarrow> x);
                status = (case gu_status u of None \<Rightarrow> go_status current | Some x \<Rightarrow> x);
                budget = (case gu_token_budget u of None \<Rightarrow> go_token_budget current | Some x \<Rightarrow> x);
                db1 = db\<lparr>db_goals := (db_goals db)(t := map_option
                  (\<lambda>row. row\<lparr>gw_objective := objective, gw_status := goal_status_as_str status,
                     gw_token_budget := budget, gw_updated_at_ms := now\<rparr>) (db_goals db t))\<rparr>
            in (get_thread_goal t db1, db1))"

definition delete_thread_goal :: "thread_id \<Rightarrow> index_db \<Rightarrow> bool \<times> index_db" where
  "delete_thread_goal t db =
     (db_goals db t \<noteq> None, db\<lparr>db_goals := (db_goals db)(t := None)\<rparr>)"

definition account_thread_goal_usage ::
  "int \<Rightarrow> thread_id \<Rightarrow> int \<Rightarrow> int \<Rightarrow> accounting_mode \<Rightarrow> string option \<Rightarrow> index_db \<Rightarrow>
   (error + accounting_outcome) \<times> index_db" where
  "account_thread_goal_usage now t time_delta token_delta mode expected db =
     (case get_thread_goal t db of
        Inl e \<Rightarrow> (Inl e, db)
      | Inr None \<Rightarrow> (Inr (Unchanged None), db)
      | Inr (Some current) \<Rightarrow>
          if (case expected of None \<Rightarrow> False | Some i \<Rightarrow> i \<noteq> go_goal_id current)
          then (Inr (Unchanged (Some current)), db)
          else if mode = ActiveOnly \<and> go_status current \<noteq> GoalActive
          then (Inr (Unchanged (Some current)), db)
          else
            let tokens = sat_add (go_tokens_used current) (max token_delta 0);
                secs = sat_add (go_time_used_seconds current) (max time_delta 0);
                status = (if (case go_token_budget current of None \<Rightarrow> False | Some b \<Rightarrow> b \<le> tokens)
                          then GoalBudgetLimited else go_status current);
                db1 = db\<lparr>db_goals := (db_goals db)(t := map_option
                  (\<lambda>row. if gw_goal_id row = go_goal_id current
                     then row\<lparr>gw_tokens_used := tokens, gw_time_used_seconds := secs,
                            gw_status := goal_status_as_str status, gw_updated_at_ms := now\<rparr>
                     else row) (db_goals db t))\<rparr>
            in (bind_res (get_thread_goal t db1) (\<lambda>g. case g of Some r \<Rightarrow> Inr (Updated r)
                  | None \<Rightarrow> Inl (Anyhow ''accounted goal should still exist'')), db1))"

definition suppress_thread_goal_continuation ::
  "int \<Rightarrow> thread_id \<Rightarrow> string \<Rightarrow> turn_id \<Rightarrow> index_db \<Rightarrow>
   (error + goal_record option) \<times> index_db" where
  "suppress_thread_goal_continuation now t i after db =
     (case db_goals db t of
        None \<Rightarrow> (Inr None, db)
      | Some row \<Rightarrow>
          if gw_goal_id row = i \<and> gw_status row = ''active''
          then (let db1 = db\<lparr>db_goals := (db_goals db)(t \<mapsto>
                  row\<lparr>gw_suppressed := 1, gw_suppressed_after := Some after,
                      gw_suppressed_at_ms := Some now, gw_updated_at_ms := now\<rparr>)\<rparr>
                in (get_thread_goal t db1, db1))
          else (Inr None, db))"

definition reset_thread_goal_continuation_suppression ::
  "int \<Rightarrow> thread_id \<Rightarrow> string option \<Rightarrow> index_db \<Rightarrow> (error + goal_record option) \<times> index_db" where
  "reset_thread_goal_continuation_suppression now t expected db =
     (case get_thread_goal t db of
        Inl e \<Rightarrow> (Inl e, db)
      | Inr None \<Rightarrow> (Inr None, db)
      | Inr (Some current) \<Rightarrow>
          if (case expected of None \<Rightarrow> False | Some i \<Rightarrow> i \<noteq> go_goal_id current)
          then (Inr None, db)
          else
            let db1 = db\<lparr>db_goals := (db_goals db)(t := map_option
                  (\<lambda>row. if gw_goal_id row = go_goal_id current
                     then row\<lparr>gw_suppressed := 0, gw_suppressed_after := None,
                            gw_suppressed_at_ms := None, gw_updated_at_ms := now\<rparr>
                     else row) (db_goals db t))\<rparr>
            in (get_thread_goal t db1, db1))"

section \<open>The store as a map of goals\<close>

text \<open>
  The abstraction: the goal of each thread, when its row can be read. Rows are only written with a
  known status (the table checks it), which is the invariant of the store.
\<close>

definition row_goal :: "thread_id \<Rightarrow> goal_row \<Rightarrow> goal_record option" where
  "row_goal t row = (case thread_goal_record_from_row t row of Inl _ \<Rightarrow> None | Inr g \<Rightarrow> Some g)"

definition goal_map :: "index_db \<Rightarrow> thread_id \<rightharpoonup> goal_record" where
  "goal_map db t = Option.bind (db_goals db t) (row_goal t)"

definition rows_ok :: "index_db \<Rightarrow> bool" where
  "rows_ok db \<longleftrightarrow> (\<forall>t row. db_goals db t = Some row \<longrightarrow> gw_status row \<in> range goal_status_as_str)"

lemma row_readable:
  assumes "rows_ok db" "db_goals db t = Some row"
  shows "\<exists>st. gw_status row = goal_status_as_str st \<and> goal_status_from_str (gw_status row) = Inr st"
  using assms goal_status_codec.parse_label by (fastforce simp: rows_ok_def)

lemma get_goal_map: "rows_ok db \<Longrightarrow> get_thread_goal t db = Inr (goal_map db t)"
  using row_readable [of db t]
  by (fastforce simp: get_thread_goal_def goal_map_def row_goal_def thread_goal_record_from_row_def
    split: option.splits)

lemma goal_status_label_simps [simp]:
  "goal_status_from_str (goal_status_as_str x) = Inr x"
  "goal_status_as_str x = ''active'' \<longleftrightarrow> x = GoalActive"
  "goal_status_from_str ''active'' = Inr GoalActive"
  using goal_status_codec.parse_label [of x] goal_status_codec.label_eq_iff [of x "''active''"]
  by (auto simp: goal_status_from_str_def)

lemma goal_map_update:
  "goal_map (db\<lparr>db_goals := (db_goals db)(t := r)\<rparr>) =
     (goal_map db)(t := Option.bind r (row_goal t))"
  by (rule ext) (simp add: goal_map_def)

lemma rows_ok_update:
  "rows_ok db \<Longrightarrow> (case r of None \<Rightarrow> True | Some row \<Rightarrow> gw_status row \<in> range goal_status_as_str) \<Longrightarrow>
   rows_ok (db\<lparr>db_goals := (db_goals db)(t := r)\<rparr>)"
  by (auto simp: rows_ok_def split: if_splits option.splits)

lemma goal_map_counter [simp]:
  "goal_map (db\<lparr>db_next_goal := n\<rparr>) = goal_map db" "rows_ok (db\<lparr>db_next_goal := n\<rparr>) = rows_ok db"
  by (auto simp: goal_map_def rows_ok_def)


section \<open>The abstract store\<close>

datatype goal_op =
    GoReplace int thread_id string goal_status "int option"
  | GoInsert int thread_id string "int option"
  | GoUpdate int thread_id goal_update
  | GoDelete thread_id
  | GoAccount int thread_id int int accounting_mode "string option"
  | GoSuppress int thread_id string turn_id
  | GoReset int thread_id "string option"

fun exec_goal_op :: "index_db \<Rightarrow> goal_op \<Rightarrow> index_db" where
  "exec_goal_op db (GoReplace now t ob st b) = snd (replace_thread_goal now t ob st b db)"
| "exec_goal_op db (GoInsert now t ob b) = snd (insert_thread_goal now t ob b db)"
| "exec_goal_op db (GoUpdate now t u) = snd (update_thread_goal now t u db)"
| "exec_goal_op db (GoDelete t) = snd (delete_thread_goal t db)"
| "exec_goal_op db (GoAccount now t secs tok mode i) =
     snd (account_thread_goal_usage now t secs tok mode i db)"
| "exec_goal_op db (GoSuppress now t i after) =
     snd (suppress_thread_goal_continuation now t i after db)"
| "exec_goal_op db (GoReset now t i) =
     snd (reset_thread_goal_continuation_suppression now t i db)"

definition fresh_goal ::
  "thread_id \<Rightarrow> string \<Rightarrow> string \<Rightarrow> goal_status \<Rightarrow> int option \<Rightarrow> int \<Rightarrow> goal_record" where
  "fresh_goal t i ob st b now =
     \<lparr>go_thread_id = t, go_goal_id = i, go_objective = ob, go_status = st, go_token_budget = b,
      go_tokens_used = 0, go_time_used_seconds = 0, go_suppressed = False,
      go_suppressed_after = None, go_created_at_ms = now, go_updated_at_ms = now\<rparr>"

definition id_matches :: "string option \<Rightarrow> goal_record \<Rightarrow> bool" where
  "id_matches expected g = (case expected of None \<Rightarrow> True | Some i \<Rightarrow> i = go_goal_id g)"

definition update_goal :: "int \<Rightarrow> goal_update \<Rightarrow> goal_record \<Rightarrow> goal_record" where
  "update_goal now u g =
     (if id_matches (gu_expected_goal_id u) g
      then g\<lparr>go_objective := (case gu_objective u of None \<Rightarrow> go_objective g | Some x \<Rightarrow> x),
             go_status := (case gu_status u of None \<Rightarrow> go_status g | Some x \<Rightarrow> x),
             go_token_budget := (case gu_token_budget u of None \<Rightarrow> go_token_budget g | Some x \<Rightarrow> x),
             go_updated_at_ms := now\<rparr>
      else g)"

definition accounts :: "accounting_mode \<Rightarrow> string option \<Rightarrow> goal_record \<Rightarrow> bool" where
  "accounts mode expected g \<longleftrightarrow>
     id_matches expected g \<and> (mode = AnyCurrentGoal \<or> go_status g = GoalActive)"

definition over_budget :: "int option \<Rightarrow> int \<Rightarrow> bool" where
  "over_budget budget tokens = (case budget of None \<Rightarrow> False | Some b \<Rightarrow> b \<le> tokens)"

definition account_goal ::
  "int \<Rightarrow> int \<Rightarrow> int \<Rightarrow> accounting_mode \<Rightarrow> string option \<Rightarrow> goal_record \<Rightarrow> goal_record" where
  "account_goal now secs tok mode expected g =
     (if accounts mode expected g then
        let tokens = sat_add (go_tokens_used g) (max tok 0) in
        g\<lparr>go_tokens_used := tokens,
          go_time_used_seconds := sat_add (go_time_used_seconds g) (max secs 0),
          go_status := (if over_budget (go_token_budget g) tokens then GoalBudgetLimited
                        else go_status g),
          go_updated_at_ms := now\<rparr>
      else g)"

definition suppress_goal :: "int \<Rightarrow> string \<Rightarrow> turn_id \<Rightarrow> goal_record \<Rightarrow> goal_record" where
  "suppress_goal now i after g =
     (if go_goal_id g = i \<and> go_status g = GoalActive
      then g\<lparr>go_suppressed := True, go_suppressed_after := Some after, go_updated_at_ms := now\<rparr>
      else g)"

definition reset_goal :: "int \<Rightarrow> string option \<Rightarrow> goal_record \<Rightarrow> goal_record" where
  "reset_goal now expected g =
     (if id_matches expected g
      then g\<lparr>go_suppressed := False, go_suppressed_after := None, go_updated_at_ms := now\<rparr>
      else g)"

type_synonym goal_state = "nat \<times> (thread_id \<rightharpoonup> goal_record)"

fun spec_goal_op :: "thread_id list \<Rightarrow> goal_state \<Rightarrow> goal_op \<Rightarrow> goal_state" where
  "spec_goal_op ts (n, m) (GoReplace now t ob st b) =
     (u64_wrap_succ n,
      if t \<in> set ts then m(t \<mapsto> fresh_goal t (next_goal_id n now) ob st b now) else m)"
| "spec_goal_op ts (n, m) (GoInsert now t ob b) =
     (u64_wrap_succ n,
      if t \<in> set ts \<and> m t = None
      then m(t \<mapsto> fresh_goal t (next_goal_id n now) ob GoalActive b now) else m)"
| "spec_goal_op ts (n, m) (GoUpdate now t u) = (n, m(t := map_option (update_goal now u) (m t)))"
| "spec_goal_op ts (n, m) (GoDelete t) = (n, m(t := None))"
| "spec_goal_op ts (n, m) (GoAccount now t secs tok mode i) =
     (n, m(t := map_option (account_goal now secs tok mode i) (m t)))"
| "spec_goal_op ts (n, m) (GoSuppress now t i after) =
     (n, m(t := map_option (suppress_goal now i after) (m t)))"
| "spec_goal_op ts (n, m) (GoReset now t i) = (n, m(t := map_option (reset_goal now i) (m t)))"

definition goal_state_of :: "index_db \<Rightarrow> goal_state" where
  "goal_state_of db = (db_next_goal db, goal_map db)"

section \<open>The statements refine the abstract store\<close>

lemma row_goal_fresh:
  "row_goal t (fresh_row i ob (goal_status_as_str st) b now) = Some (fresh_goal t i ob st b now)"
  by (simp add: row_goal_def thread_goal_record_from_row_def fresh_row_def fresh_goal_def)

lemma row_goal_cases:
  assumes "rows_ok db" "db_goals db t = Some row"
  obtains st where "gw_status row = goal_status_as_str st" "goal_map db t = Some
    \<lparr>go_thread_id = t, go_goal_id = gw_goal_id row, go_objective = gw_objective row,
     go_status = st, go_token_budget = gw_token_budget row,
     go_tokens_used = gw_tokens_used row, go_time_used_seconds = gw_time_used_seconds row,
     go_suppressed = (gw_suppressed row \<noteq> 0), go_suppressed_after = gw_suppressed_after row,
     go_created_at_ms = gw_created_at_ms row, go_updated_at_ms = gw_updated_at_ms row\<rparr>"
  using row_readable [OF assms] assms(2)
  by (auto simp: goal_map_def row_goal_def thread_goal_record_from_row_def)

lemma goal_map_None: "rows_ok db \<Longrightarrow> goal_map db t = None \<longleftrightarrow> db_goals db t = None"
proof (cases "db_goals db t")
  case (Some row)
  assume "rows_ok db"
  from row_goal_cases [OF this Some] show ?thesis using Some by auto
qed (simp add: goal_map_def)

lemma map_upd_id: "m t = r \<Longrightarrow> m(t := r) = m"
  by auto

lemma fresh_row_status [simp]: "gw_status (fresh_row i ob st b now) = st"
  by (simp add: fresh_row_def)

lemma put_row:
  assumes "rows_ok db" "case r of None \<Rightarrow> True | Some row \<Rightarrow> gw_status row \<in> range goal_status_as_str"
  shows "rows_ok (db\<lparr>db_goals := (db_goals db)(t := r)\<rparr>) \<and>
    goal_state_of (db\<lparr>db_goals := (db_goals db)(t := r)\<rparr>) =
      (db_next_goal db, (goal_map db)(t := Option.bind r (row_goal t)))"
  using rows_ok_update [OF assms] by (simp add: goal_state_of_def goal_map_update)

lemma active_label: "''active'' = goal_status_as_str GoalActive"
  by simp

definition refines :: "thread_id list \<Rightarrow> index_db \<Rightarrow> goal_op \<Rightarrow> bool" where
  "refines ts db op \<longleftrightarrow> rows_ok (exec_goal_op db op) \<and> db_threads (exec_goal_op db op) = ts \<and>
     goal_state_of (exec_goal_op db op) = spec_goal_op ts (goal_state_of db) op"

lemma refine_replace:
  assumes "rows_ok db"
  shows "refines (db_threads db) db (GoReplace now t ob st b)"
proof -
  let ?db = "db\<lparr>db_next_goal := u64_wrap_succ (db_next_goal db)\<rparr>"
  let ?r = "fresh_row (next_goal_id (db_next_goal db) now) ob (goal_status_as_str st) b now"
  have "rows_ok ?db" using assms by simp
  from put_row [OF this, of "Some ?r" t] assms show ?thesis
    by (simp add: refines_def replace_thread_goal_def new_goal_id_def Let_def goal_state_of_def
      row_goal_fresh)
qed

lemma refine_insert:
  assumes "rows_ok db"
  shows "refines (db_threads db) db (GoInsert now t ob b)"
proof -
  let ?db = "db\<lparr>db_next_goal := u64_wrap_succ (db_next_goal db)\<rparr>"
  let ?r = "fresh_row (next_goal_id (db_next_goal db) now) ob (goal_status_as_str GoalActive) b now"
  have "rows_ok ?db" using assms by simp
  from put_row [OF this, of "Some ?r" t] assms goal_map_None [OF assms, of t] show ?thesis
    unfolding refines_def exec_goal_op.simps insert_thread_goal_def active_label
    by (simp add: new_goal_id_def Let_def goal_state_of_def row_goal_fresh
      del: goal_status_as_str.simps)
qed

text \<open>The statements that read the goal first and write a row with the same identifier.\<close>

lemma write_back:
  assumes "rows_ok db" "db_goals db t = Some row" "goal_map db t = Some g"
    and "row_goal t row' = Some g'" "gw_status row' = goal_status_as_str st"
  shows "rows_ok (db\<lparr>db_goals := (db_goals db)(t := Some row')\<rparr>) \<and>
    goal_state_of (db\<lparr>db_goals := (db_goals db)(t := Some row')\<rparr>) =
      (db_next_goal db, (goal_map db)(t := Some g'))"
  using put_row [OF assms(1), of "Some row'" t] assms by simp

lemma row_goal_simp: "gw_status row = goal_status_as_str st \<Longrightarrow> row_goal t row = Some
    \<lparr>go_thread_id = t, go_goal_id = gw_goal_id row, go_objective = gw_objective row,
     go_status = st, go_token_budget = gw_token_budget row,
     go_tokens_used = gw_tokens_used row, go_time_used_seconds = gw_time_used_seconds row,
     go_suppressed = (gw_suppressed row \<noteq> 0), go_suppressed_after = gw_suppressed_after row,
     go_created_at_ms = gw_created_at_ms row, go_updated_at_ms = gw_updated_at_ms row\<rparr>"
  by (simp add: row_goal_def thread_goal_record_from_row_def)

lemma refine_delete: "rows_ok db \<Longrightarrow> refines (db_threads db) db (GoDelete t)"
  using put_row [of db None t] by (simp add: refines_def delete_thread_goal_def goal_state_of_def)

lemma refine_update:
  assumes "rows_ok db"
  shows "refines (db_threads db) db (GoUpdate now t u)"
proof (cases "db_goals db t")
  case None
  then have "goal_map db t = None" by (simp add: goal_map_def)
  with None assms show ?thesis
    by (simp add: refines_def update_thread_goal_def get_goal_map goal_state_of_def map_upd_id)
next
  case (Some row)
  from row_goal_cases [OF assms Some] obtain st where st: "gw_status row = goal_status_as_str st"
    and g: "goal_map db t = Some
    \<lparr>go_thread_id = t, go_goal_id = gw_goal_id row, go_objective = gw_objective row,
     go_status = st, go_token_budget = gw_token_budget row,
     go_tokens_used = gw_tokens_used row, go_time_used_seconds = gw_time_used_seconds row,
     go_suppressed = (gw_suppressed row \<noteq> 0), go_suppressed_after = gw_suppressed_after row,
     go_created_at_ms = gw_created_at_ms row, go_updated_at_ms = gw_updated_at_ms row\<rparr>"
    (is "_ = Some ?g") .
  show ?thesis
  proof (cases "id_matches (gu_expected_goal_id u) ?g")
    case False
    then have "update_goal now u ?g = ?g" by (simp add: update_goal_def)
    with False g assms show ?thesis
      by (simp add: refines_def update_thread_goal_def get_goal_map goal_state_of_def map_upd_id
        id_matches_def split: option.splits)
  next
    case True
    let ?row = "row\<lparr>gw_objective := (case gu_objective u of None \<Rightarrow> gw_objective row | Some x \<Rightarrow> x),
      gw_status := goal_status_as_str (case gu_status u of None \<Rightarrow> st | Some x \<Rightarrow> x),
      gw_token_budget := (case gu_token_budget u of None \<Rightarrow> gw_token_budget row | Some x \<Rightarrow> x),
      gw_updated_at_ms := now\<rparr>"
    have "row_goal t ?row = Some (update_goal now u ?g)"
      using True by (simp add: row_goal_simp update_goal_def split: option.split)
    from write_back [OF assms Some g this] True show ?thesis
      by (auto simp: refines_def update_thread_goal_def get_goal_map [OF assms] g Some Let_def
        goal_state_of_def id_matches_def split: option.splits)
  qed
qed


lemma refine_account:
  assumes "rows_ok db"
  shows "refines (db_threads db) db (GoAccount now t secs tok mode i)"
proof (cases "db_goals db t")
  case None
  then have "goal_map db t = None" by (simp add: goal_map_def)
  with None assms show ?thesis
    by (simp add: refines_def account_thread_goal_usage_def get_goal_map goal_state_of_def map_upd_id)
next
  case (Some row)
  from row_goal_cases [OF assms Some] obtain st where st: "gw_status row = goal_status_as_str st"
    and g: "goal_map db t = Some
    \<lparr>go_thread_id = t, go_goal_id = gw_goal_id row, go_objective = gw_objective row,
     go_status = st, go_token_budget = gw_token_budget row,
     go_tokens_used = gw_tokens_used row, go_time_used_seconds = gw_time_used_seconds row,
     go_suppressed = (gw_suppressed row \<noteq> 0), go_suppressed_after = gw_suppressed_after row,
     go_created_at_ms = gw_created_at_ms row, go_updated_at_ms = gw_updated_at_ms row\<rparr>"
    (is "_ = Some ?g") .
  show ?thesis
  proof (cases "accounts mode i ?g")
    case False
    then have "account_goal now secs tok mode i ?g = ?g" by (simp add: account_goal_def)
    with False g assms show ?thesis
      by (cases mode) (auto simp: refines_def account_thread_goal_usage_def get_goal_map
        goal_state_of_def map_upd_id id_matches_def accounts_def split: option.splits)
  next
    case True
    let ?tokens = "sat_add (gw_tokens_used row) (max tok 0)"
    let ?st = "if over_budget (gw_token_budget row) ?tokens then GoalBudgetLimited else st"
    let ?row = "row\<lparr>gw_tokens_used := ?tokens,
      gw_time_used_seconds := sat_add (gw_time_used_seconds row) (max secs 0),
      gw_status := goal_status_as_str ?st, gw_updated_at_ms := now\<rparr>"
    have "row_goal t ?row = Some (account_goal now secs tok mode i ?g)"
      using True by (simp add: row_goal_simp account_goal_def Let_def)
    from write_back [OF assms Some g this] True show ?thesis
      by (cases mode) (auto simp: refines_def account_thread_goal_usage_def get_goal_map [OF assms] g
        Some Let_def goal_state_of_def id_matches_def accounts_def over_budget_def
        split: option.splits)
  qed
qed

lemma refine_suppress:
  assumes "rows_ok db"
  shows "refines (db_threads db) db (GoSuppress now t i after)"
proof (cases "db_goals db t")
  case None
  then have "goal_map db t = None" by (simp add: goal_map_def)
  with None assms show ?thesis
    by (simp add: refines_def suppress_thread_goal_continuation_def goal_state_of_def map_upd_id)
next
  case (Some row)
  from row_goal_cases [OF assms Some] obtain st where st: "gw_status row = goal_status_as_str st"
    and g: "goal_map db t = Some
    \<lparr>go_thread_id = t, go_goal_id = gw_goal_id row, go_objective = gw_objective row,
     go_status = st, go_token_budget = gw_token_budget row,
     go_tokens_used = gw_tokens_used row, go_time_used_seconds = gw_time_used_seconds row,
     go_suppressed = (gw_suppressed row \<noteq> 0), go_suppressed_after = gw_suppressed_after row,
     go_created_at_ms = gw_created_at_ms row, go_updated_at_ms = gw_updated_at_ms row\<rparr>"
    (is "_ = Some ?g") .
  show ?thesis
  proof (cases "gw_goal_id row = i \<and> st = GoalActive")
    case False
    then have "suppress_goal now i after ?g = ?g" by (auto simp: suppress_goal_def)
    with False g assms Some st show ?thesis
      by (auto simp: refines_def suppress_thread_goal_continuation_def goal_state_of_def map_upd_id)
  next
    case True
    let ?row = "row\<lparr>gw_suppressed := 1, gw_suppressed_after := Some after,
                      gw_suppressed_at_ms := Some now, gw_updated_at_ms := now\<rparr>"
    have "row_goal t ?row = Some (suppress_goal now i after ?g)" "gw_status ?row = goal_status_as_str st"
      using True st by (simp_all add: row_goal_simp [of _ GoalActive] suppress_goal_def)
    from write_back [OF assms Some g this] True Some st g show ?thesis
      by (simp add: refines_def suppress_thread_goal_continuation_def goal_state_of_def Let_def)
  qed
qed

lemma refine_reset:
  assumes "rows_ok db"
  shows "refines (db_threads db) db (GoReset now t i)"
proof (cases "db_goals db t")
  case None
  then have "goal_map db t = None" by (simp add: goal_map_def)
  with None assms show ?thesis
    by (simp add: refines_def reset_thread_goal_continuation_suppression_def get_goal_map
      goal_state_of_def map_upd_id)
next
  case (Some row)
  from row_goal_cases [OF assms Some] obtain st where st: "gw_status row = goal_status_as_str st"
    and g: "goal_map db t = Some
    \<lparr>go_thread_id = t, go_goal_id = gw_goal_id row, go_objective = gw_objective row,
     go_status = st, go_token_budget = gw_token_budget row,
     go_tokens_used = gw_tokens_used row, go_time_used_seconds = gw_time_used_seconds row,
     go_suppressed = (gw_suppressed row \<noteq> 0), go_suppressed_after = gw_suppressed_after row,
     go_created_at_ms = gw_created_at_ms row, go_updated_at_ms = gw_updated_at_ms row\<rparr>"
    (is "_ = Some ?g") .
  show ?thesis
  proof (cases "id_matches i ?g")
    case False
    then have "reset_goal now i ?g = ?g" by (simp add: reset_goal_def)
    with False g assms show ?thesis
      by (auto simp: refines_def reset_thread_goal_continuation_suppression_def get_goal_map
        goal_state_of_def map_upd_id id_matches_def split: option.splits)
  next
    case True
    let ?row = "row\<lparr>gw_suppressed := 0, gw_suppressed_after := None,
                      gw_suppressed_at_ms := None, gw_updated_at_ms := now\<rparr>"
    have "row_goal t ?row = Some (reset_goal now i ?g)" "gw_status ?row = goal_status_as_str st"
      using True st by (simp_all add: row_goal_simp [of _ st] reset_goal_def)
    from write_back [OF assms Some g this] True show ?thesis
      by (auto simp: refines_def reset_thread_goal_continuation_suppression_def
        get_goal_map [OF assms] g Some goal_state_of_def id_matches_def Let_def split: option.splits)
  qed
qed

lemmas refine_ops = refine_replace refine_insert refine_update refine_delete refine_account
  refine_suppress refine_reset

lemma refine_op: "rows_ok db \<Longrightarrow> refines (db_threads db) db op"
  by (cases op) (simp_all add: refine_ops)


definition run_goal_ops :: "thread_id list \<Rightarrow> goal_op list \<Rightarrow> index_db" where
  "run_goal_ops ts ops = foldl exec_goal_op (db_new ts) ops"

definition spec_goal_ops :: "thread_id list \<Rightarrow> goal_op list \<Rightarrow> goal_state" where
  "spec_goal_ops ts ops = foldl (spec_goal_op ts) (1, Map.empty) ops"

lemma run_refines:
  "rows_ok (run_goal_ops ts ops) \<and> db_threads (run_goal_ops ts ops) = ts \<and>
   goal_state_of (run_goal_ops ts ops) = spec_goal_ops ts ops"
proof (induction ops rule: rev_induct)
  case Nil
  show ?case
    by (simp add: run_goal_ops_def spec_goal_ops_def db_new_def rows_ok_def goal_state_of_def
      goal_map_def fun_eq_iff)
next
  case (snoc op ops)
  have "refines ts (run_goal_ops ts ops) op" using refine_op snoc.IH by metis
  with snoc.IH show ?case by (simp add: run_goal_ops_def spec_goal_ops_def refines_def)
qed

text \<open>What accounting returns, against the abstract store.\<close>

lemma account_result:
  assumes "rows_ok db"
  shows "fst (account_thread_goal_usage now t secs tok mode i db) =
    (case goal_map db t of None \<Rightarrow> Inr (Unchanged None)
     | Some g \<Rightarrow> if accounts mode i g then Inr (Updated (account_goal now secs tok mode i g))
                 else Inr (Unchanged (Some g)))"
proof (cases "goal_map db t")
  case None
  with assms show ?thesis by (simp add: account_thread_goal_usage_def get_goal_map)
next
  case (Some g)
  let ?db = "snd (account_thread_goal_usage now t secs tok mode i db)"
  have r: "rows_ok ?db" "goal_map ?db t = Some (account_goal now secs tok mode i g)"
    using refine_account [OF assms, of now t secs tok mode i] Some
    by (simp_all add: refines_def goal_state_of_def)
  show ?thesis
  proof (cases "accounts mode i g")
    case False
    then show ?thesis using Some assms
      by (cases mode) (auto simp: account_thread_goal_usage_def get_goal_map accounts_def
        id_matches_def split: option.splits)
  next
    case True
    then have no_guard: "\<not> (case i of None \<Rightarrow> False | Some x \<Rightarrow> x \<noteq> go_goal_id g)"
      "\<not> (mode = ActiveOnly \<and> go_status g \<noteq> GoalActive)"
      by (auto simp: accounts_def id_matches_def split: option.splits)
    have "fst (account_thread_goal_usage now t secs tok mode i db) =
        bind_res (get_thread_goal t ?db) (\<lambda>g. case g of Some r \<Rightarrow> Inr (Updated r)
          | None \<Rightarrow> Inl (Anyhow ''accounted goal should still exist''))"
      using no_guard by (simp add: account_thread_goal_usage_def get_goal_map [OF assms] Some Let_def)
    with r True Some show ?thesis by (simp add: get_goal_map)
  qed
qed

definition goal_ok :: "thread_id \<Rightarrow> goal_record \<Rightarrow> bool" where
  "goal_ok t g \<longleftrightarrow> go_thread_id g = t \<and> is_i64 (go_tokens_used g) \<and> 0 \<le> go_tokens_used g \<and>
     is_i64 (go_time_used_seconds g) \<and> 0 \<le> go_time_used_seconds g \<and>
     go_suppressed g = (go_suppressed_after g \<noteq> None)"

lemma goal_ok_ops:
  "goal_ok t (fresh_goal t i ob st b now)"
  "goal_ok t g \<Longrightarrow> goal_ok t (update_goal now u g)"
  "goal_ok t g \<Longrightarrow> goal_ok t (account_goal now secs tok mode e g)"
  "goal_ok t g \<Longrightarrow> goal_ok t (suppress_goal now i after g)"
  "goal_ok t g \<Longrightarrow> goal_ok t (reset_goal now e g)"
  by (simp_all add: goal_ok_def fresh_goal_def update_goal_def account_goal_def suppress_goal_def
    reset_goal_def Let_def sat_add_nonneg)

lemma spec_goal_ok: "snd (spec_goal_ops ts ops) t = Some g \<Longrightarrow> goal_ok t g"
proof (induction ops arbitrary: t g rule: rev_induct)
  case (snoc op ops)
  obtain n m where nm: "spec_goal_ops ts ops = (n, m)" by fastforce
  have ih: "goal_ok t' g'" if "m t' = Some g'" for t' g' using snoc.IH that by (simp add: nm)
  from snoc.prems nm have "snd (spec_goal_op ts (n, m) op) t = Some g"
    by (simp add: spec_goal_ops_def)
  then show ?case
    by (cases op) (auto simp: goal_ok_ops ih split: if_splits)
qed (simp add: spec_goal_ops_def)

section \<open>Properties\<close>

text \<open>C6: The goal statements implement a map from threads to goals: after any sequence of
  statements on a new database, the counters and the goals are those of the abstract store, in
  which an insert never overwrites, an update, an accounting or a suppression only touches the goal
  it was meant for, and unknown threads are refused; and every goal can be read back.\<close>

theorem goal_store_refines_map:
  "goal_state_of (run_goal_ops ts ops) = spec_goal_ops ts ops \<and>
   get_thread_goal t (run_goal_ops ts ops) = Inr (snd (spec_goal_ops ts ops) t)"
  using run_refines [of ts ops] get_goal_map [of "run_goal_ops ts ops" t]
  by (metis goal_state_of_def snd_conv)

text \<open>Accounting is safe in every reachable store: it succeeds, it leaves a goal of another
  identifier (or, for active-only accounting, a goal that is not active) untouched, it never lowers
  a counter, negative deltas count as zero, and the goal becomes budget-limited exactly when the
  tokens used reach its budget, its status being kept otherwise.\<close>

theorem goal_accounting_safe:
  "let db = run_goal_ops ts ops;
       (res, db') = account_thread_goal_usage now t secs tok mode i db
   in case res of
        Inl _ \<Rightarrow> False
      | Inr (Unchanged g) \<Rightarrow> g = snd (spec_goal_ops ts ops) t \<and> goal_map db' = goal_map db
      | Inr (Updated g') \<Rightarrow>
          (case snd (spec_goal_ops ts ops) t of None \<Rightarrow> False
           | Some g \<Rightarrow> goal_map db' = (goal_map db)(t \<mapsto> g') \<and> go_goal_id g' = go_goal_id g \<and>
               (mode = AnyCurrentGoal \<or> go_status g = GoalActive) \<and>
               go_tokens_used g' = sat_add (go_tokens_used g) (max tok 0) \<and>
               go_status g' = (if over_budget (go_token_budget g) (go_tokens_used g')
                 then GoalBudgetLimited else go_status g))"
proof -
  let ?db = "run_goal_ops ts ops"
  have ok: "rows_ok ?db" and m: "goal_map ?db = snd (spec_goal_ops ts ops)"
    using run_refines [of ts ops] by (auto simp: goal_state_of_def dest: arg_cong [of _ _ snd])
  have after: "goal_map (snd (account_thread_goal_usage now t secs tok mode i ?db)) =
      (goal_map ?db)(t := map_option (account_goal now secs tok mode i) (goal_map ?db t))"
    using refine_account [OF ok] by (simp add: refines_def goal_state_of_def)
  have other: "account_goal now secs tok mode i g = g" if "\<not> accounts mode i g" for g
    using that by (simp add: account_goal_def)
  show ?thesis
    using account_result [OF ok, of now t secs tok mode i] after
    by (cases "account_thread_goal_usage now t secs tok mode i ?db")
      (auto simp: m account_goal_def Let_def accounts_def map_upd_id other split: option.splits
        if_splits)
qed

text \<open>The counters of every stored goal stay within 64 bits and never go below zero, whatever
  deltas were accounted, a goal is filed under its own thread, and a goal whose continuation is
  suppressed records the turn after which it was.\<close>

theorem goal_counters_bounded:
  "case goal_map (run_goal_ops ts ops) t of None \<Rightarrow> True
   | Some g \<Rightarrow> go_thread_id g = t \<and> is_i64 (go_tokens_used g) \<and> 0 \<le> go_tokens_used g \<and>
       is_i64 (go_time_used_seconds g) \<and> 0 \<le> go_time_used_seconds g \<and>
       go_suppressed g = (go_suppressed_after g \<noteq> None)"
proof -
  have "goal_map (run_goal_ops ts ops) = snd (spec_goal_ops ts ops)"
    using run_refines [of ts ops] by (auto simp: goal_state_of_def dest: arg_cong [of _ _ snd])
  with spec_goal_ok [of ts ops t] show ?thesis by (auto simp: goal_ok_def split: option.splits)
qed

end
