(* ===== verification/Forge.thy ===== *)
theory Forge
  imports GoalStore Rollout
begin

text \<open>
  The review gate of goals (\<^verbatim>\<open>src/runtime/forge\<close>): review tickets, open questions, the
  mode of a goal, the escalation after a rejection, the hook that guards the completion of a goal
  (\<^verbatim>\<open>gate.rs\<close>), and the two tools that feed it (\<^verbatim>\<open>submit_review.rs\<close>,
  \<^verbatim>\<open>defer_question.rs\<close>). The hash of the workspace, the git checkpoint, the decoding of
  tool arguments and the printing of JSON are parameters. Rows with equal order come newest first
  (SQLite leaves it open; the index scan does so).
\<close>

section \<open>Labels\<close>

datatype review_status = ReviewPending | ReviewApproved | ReviewRejected

datatype review_verdict = VerdictApprove | VerdictReject

datatype review_reject_category = RetriableGap | NeedsUser | ExternalBlocker

datatype open_question_status = QuestionOpen | QuestionResolved

fun review_status_as_str :: "review_status \<Rightarrow> string" where
  "review_status_as_str ReviewPending = ''pending''"
| "review_status_as_str ReviewApproved = ''approved''"
| "review_status_as_str ReviewRejected = ''rejected''"

definition review_status_from_str :: "string \<Rightarrow> error + review_status" where
  "review_status_from_str v =
     (if v = ''pending'' then Inr ReviewPending
      else if v = ''approved'' then Inr ReviewApproved
      else if v = ''rejected'' then Inr ReviewRejected
      else Inl (Anyhow (''unknown review status: '' @ v)))"

fun reject_category_as_str :: "review_reject_category \<Rightarrow> string" where
  "reject_category_as_str RetriableGap = ''retriable_gap''"
| "reject_category_as_str NeedsUser = ''needs_user''"
| "reject_category_as_str ExternalBlocker = ''external_blocker''"

definition reject_category_from_str :: "string \<Rightarrow> error + review_reject_category" where
  "reject_category_from_str v =
     (if v = ''retriable_gap'' then Inr RetriableGap
      else if v = ''needs_user'' then Inr NeedsUser
      else if v = ''external_blocker'' then Inr ExternalBlocker
      else Inl (Anyhow (''unknown review reject category: '' @ v)))"

fun question_status_as_str :: "open_question_status \<Rightarrow> string" where
  "question_status_as_str QuestionOpen = ''open''"
| "question_status_as_str QuestionResolved = ''resolved''"

definition question_status_from_str :: "string \<Rightarrow> error + open_question_status" where
  "question_status_from_str v =
     (if v = ''open'' then Inr QuestionOpen
      else if v = ''resolved'' then Inr QuestionResolved
      else Inl (Anyhow (''unknown open question status: '' @ v)))"

fun as_event_verdict :: "review_verdict \<Rightarrow> review_verdict_event" where
  "as_event_verdict VerdictApprove = EvApprove"
| "as_event_verdict VerdictReject = EvReject"

fun as_event_category :: "review_reject_category \<Rightarrow> review_reject_category_event" where
  "as_event_category RetriableGap = EvRetriableGap"
| "as_event_category NeedsUser = EvNeedsUser"
| "as_event_category ExternalBlocker = EvExternalBlocker"

interpretation review_status_codec: label_codec review_status_as_str review_status_from_str
proof
  show "review_status_from_str (review_status_as_str x) = Inr x" for x
    by (cases x) (simp_all add: review_status_from_str_def)
  show "s = review_status_as_str x" if "review_status_from_str s = Inr x" for s x
    using that by (auto simp: review_status_from_str_def split: if_splits)
qed

interpretation reject_category_codec: label_codec reject_category_as_str reject_category_from_str
proof
  show "reject_category_from_str (reject_category_as_str x) = Inr x" for x
    by (cases x) (simp_all add: reject_category_from_str_def)
  show "s = reject_category_as_str x" if "reject_category_from_str s = Inr x" for s x
    using that by (auto simp: reject_category_from_str_def split: if_splits)
qed

interpretation question_status_codec: label_codec question_status_as_str question_status_from_str
proof
  show "question_status_from_str (question_status_as_str x) = Inr x" for x
    by (cases x) (simp_all add: question_status_from_str_def)
  show "s = question_status_as_str x" if "question_status_from_str s = Inr x" for s x
    using that by (auto simp: question_status_from_str_def split: if_splits)
qed

section \<open>Review tickets\<close>

record review_ticket =
  rt_ticket_id :: string
  rt_goal_id :: string
  rt_baseline_hash :: "string option"
  rt_status :: review_status
  rt_reviewed_hash :: "string option"
  rt_findings :: "string option"
  rt_reject_category :: "review_reject_category option"

definition review_ticket_from_row :: "ticket_row \<Rightarrow> error + review_ticket" where
  "review_ticket_from_row row =
     bind_res (case kr_reject_category row of None \<Rightarrow> Inr None
               | Some v \<Rightarrow> bind_res (reject_category_from_str v) (\<lambda>c. Inr (Some c)))
       (\<lambda>category. bind_res (review_status_from_str (kr_status row)) (\<lambda>st.
          Inr \<lparr>rt_ticket_id = kr_ticket_id row, rt_goal_id = kr_goal_id row,
               rt_baseline_hash = kr_baseline_hash row, rt_status = st,
               rt_reviewed_hash = kr_reviewed_hash row, rt_findings = kr_findings row,
               rt_reject_category = category\<rparr>))"

definition ticket_verdict :: "review_ticket \<Rightarrow> review_verdict option" where
  "ticket_verdict t = (case rt_status t of ReviewPending \<Rightarrow> None
     | ReviewApproved \<Rightarrow> Some VerdictApprove | ReviewRejected \<Rightarrow> Some VerdictReject)"

definition u64_as_i64 :: "nat \<Rightarrow> int" where
  "u64_as_i64 n = (if n < 2 ^ 63 then int n else int n - 2 ^ 64)"

definition mint_ticket ::
  "int \<Rightarrow> string \<Rightarrow> string option \<Rightarrow> index_db \<Rightarrow> review_ticket \<times> index_db" where
  "mint_ticket now goal_id baseline db =
     (let order = u64_as_i64 (db_next_ticket db);
          i = ''rev_'' @ show_int now @ ''_'' @ show_int order
      in (\<lparr>rt_ticket_id = i, rt_goal_id = goal_id, rt_baseline_hash = baseline,
           rt_status = ReviewPending, rt_reviewed_hash = None, rt_findings = None,
           rt_reject_category = None\<rparr>,
          db\<lparr>db_next_ticket := u64_wrap_succ (db_next_ticket db),
             db_tickets := db_tickets db @
               [\<lparr>kr_ticket_id = i, kr_goal_id = goal_id, kr_baseline_hash = baseline,
                 kr_status = review_status_as_str ReviewPending, kr_reviewed_hash = None,
                 kr_findings = None, kr_reject_category = None, kr_created_at_ms = now,
                 kr_updated_at_ms = now, kr_ticket_order = order\<rparr>]\<rparr>))"

definition get_ticket :: "string \<Rightarrow> index_db \<Rightarrow> error + review_ticket option" where
  "get_ticket i db =
     (case find (\<lambda>r. kr_ticket_id r = i) (db_tickets db) of
        None \<Rightarrow> Inr None
      | Some row \<Rightarrow> bind_res (review_ticket_from_row row) (\<lambda>t. Inr (Some t)))"

definition resolve_ticket_with_category ::
  "int \<Rightarrow> string \<Rightarrow> review_verdict \<Rightarrow> string option \<Rightarrow> string option \<Rightarrow>
   review_reject_category option \<Rightarrow> index_db \<Rightarrow> (error + review_ticket) \<times> index_db" where
  "resolve_ticket_with_category now i verdict hash findings category db =
     (if \<not> list_ex (\<lambda>r. kr_ticket_id r = i) (db_tickets db)
      then (Inl (Anyhow (''unknown review ticket: '' @ i)), db)
      else
        let status = (case verdict of VerdictApprove \<Rightarrow> ReviewApproved | VerdictReject \<Rightarrow> ReviewRejected);
            db1 = db\<lparr>db_tickets := map (\<lambda>r. if kr_ticket_id r = i
              then r\<lparr>kr_status := review_status_as_str status, kr_reviewed_hash := hash,
                     kr_findings := findings,
                     kr_reject_category := map_option reject_category_as_str category,
                     kr_updated_at_ms := now\<rparr>
              else r) (db_tickets db)\<rparr>
        in (bind_res (get_ticket i db1) (\<lambda>t. case t of Some x \<Rightarrow> Inr x
              | None \<Rightarrow> Inl (Anyhow ''resolved ticket should exist'')), db1))"

definition tickets_desc :: "string \<Rightarrow> index_db \<Rightarrow> ticket_row list" where
  "tickets_desc goal_id db =
     sort_key (\<lambda>r. - kr_ticket_order r) (rev (filter (\<lambda>r. kr_goal_id r = goal_id) (db_tickets db)))"

definition latest_ticket :: "string \<Rightarrow> index_db \<Rightarrow> error + review_ticket option" where
  "latest_ticket goal_id db =
     (case tickets_desc goal_id db of
        [] \<Rightarrow> Inr None
      | row # _ \<Rightarrow> bind_res (review_ticket_from_row row) (\<lambda>t. Inr (Some t)))"

definition latest_fresh_approval ::
  "string \<Rightarrow> string option \<Rightarrow> index_db \<Rightarrow> error + review_ticket option" where
  "latest_fresh_approval goal_id current_hash db =
     bind_res (latest_ticket goal_id db) (\<lambda>t. case t of
        None \<Rightarrow> Inr None
      | Some ticket \<Rightarrow>
          if rt_status ticket = ReviewApproved \<and> rt_reviewed_hash ticket = current_hash
          then Inr (Some ticket) else Inr None)"

fun decode_rows :: "('r \<Rightarrow> error + 'a) \<Rightarrow> 'r list \<Rightarrow> error + 'a list" where
  "decode_rows f [] = Inr []"
| "decode_rows f (r # rs) = bind_res (f r) (\<lambda>x. bind_res (decode_rows f rs) (\<lambda>xs. Inr (x # xs)))"

definition consecutive_stuck_count :: "string \<Rightarrow> index_db \<Rightarrow> error + nat" where
  "consecutive_stuck_count goal_id db =
     bind_res (decode_rows review_ticket_from_row (tickets_desc goal_id db)) (\<lambda>ts. case ts of
        [] \<Rightarrow> Inr 0
      | first # rest \<Rightarrow>
          if rt_status first \<noteq> ReviewRejected then Inr 0
          else Inr (Suc (length (takeWhile (\<lambda>t. rt_status t = ReviewRejected \<and>
                 rt_baseline_hash t = rt_baseline_hash first) rest))))"

section \<open>Open questions\<close>

record open_question =
  oq_question_id :: string
  oq_thread_id :: thread_id
  oq_goal_id :: string
  oq_question :: string
  oq_blocks_what :: string
  oq_status :: open_question_status
  oq_answer :: "string option"
  oq_created_at_ms :: int
  oq_updated_at_ms :: int

definition open_question_from_row :: "question_row \<Rightarrow> error + open_question" where
  "open_question_from_row row =
     bind_res (question_status_from_str (qr_status row)) (\<lambda>st.
       Inr \<lparr>oq_question_id = qr_question_id row, oq_thread_id = qr_thread_id row,
            oq_goal_id = qr_goal_id row, oq_question = qr_question row,
            oq_blocks_what = qr_blocks_what row, oq_status = st, oq_answer = qr_answer row,
            oq_created_at_ms = qr_created_at_ms row, oq_updated_at_ms = qr_updated_at_ms row\<rparr>)"

definition record_question ::
  "int \<Rightarrow> thread_id \<Rightarrow> string \<Rightarrow> string \<Rightarrow> string \<Rightarrow> index_db \<Rightarrow>
   (error + open_question) \<times> index_db" where
  "record_question now t goal_id question blocks db =
     (let order = u64_as_i64 (db_next_question db);
          i = ''oq_'' @ show_int now @ ''_'' @ show_int order;
          db1 = db\<lparr>db_next_question := u64_wrap_succ (db_next_question db)\<rparr>
      in if t \<notin> set (db_threads db)
         then (Inl (ForeignKeyViolation ''forge_open_questions.thread_id''), db1)
         else (Inr \<lparr>oq_question_id = i, oq_thread_id = t, oq_goal_id = goal_id,
                    oq_question = question, oq_blocks_what = blocks, oq_status = QuestionOpen,
                    oq_answer = None, oq_created_at_ms = now, oq_updated_at_ms = now\<rparr>,
               db1\<lparr>db_questions := db_questions db1 @
                 [\<lparr>qr_question_id = i, qr_thread_id = t, qr_goal_id = goal_id,
                   qr_question = question, qr_blocks_what = blocks,
                   qr_status = question_status_as_str QuestionOpen, qr_answer = None,
                   qr_created_at_ms = now, qr_updated_at_ms = now, qr_question_order = order\<rparr>]\<rparr>))"

definition unresolved_for_goal :: "string \<Rightarrow> index_db \<Rightarrow> error + open_question list" where
  "unresolved_for_goal goal_id db =
     decode_rows open_question_from_row
       (sort_key qr_question_order
         (filter (\<lambda>r. qr_goal_id r = goal_id \<and> qr_status r = ''open'') (db_questions db)))"

text \<open>\<open>path_of\<close>: the path of the project a thread belongs to.\<close>

definition unresolved_for_workspace ::
  "(thread_id \<rightharpoonup> string) \<Rightarrow> string option \<Rightarrow> index_db \<Rightarrow> error + open_question list" where
  "unresolved_for_workspace path_of root db =
     decode_rows open_question_from_row
       (sort_key qr_question_order
         (filter (\<lambda>r. qr_status r = ''open'' \<and>
            (case root of None \<Rightarrow> True | Some p \<Rightarrow> path_of (qr_thread_id r) = Some p))
          (db_questions db)))"

definition get_question :: "string \<Rightarrow> index_db \<Rightarrow> error + open_question option" where
  "get_question i db =
     (case find (\<lambda>r. qr_question_id r = i) (db_questions db) of
        None \<Rightarrow> Inr None
      | Some row \<Rightarrow> bind_res (open_question_from_row row) (\<lambda>q. Inr (Some q)))"

definition resolve_question ::
  "int \<Rightarrow> string \<Rightarrow> string option \<Rightarrow> index_db \<Rightarrow> (error + open_question) \<times> index_db" where
  "resolve_question now i answer db =
     (if \<not> list_ex (\<lambda>r. qr_question_id r = i) (db_questions db)
      then (Inl (Anyhow (''unknown open question: '' @ i)), db)
      else
        let db1 = db\<lparr>db_questions := map (\<lambda>r. if qr_question_id r = i
              then r\<lparr>qr_status := ''resolved'', qr_answer := answer, qr_updated_at_ms := now\<rparr>
              else r) (db_questions db)\<rparr>
        in (bind_res (get_question i db1) (\<lambda>q. case q of Some x \<Rightarrow> Inr x
              | None \<Rightarrow> Inl (Anyhow ''resolved question should exist'')), db1))"

section \<open>Goal modes\<close>

definition set_mode ::
  "int \<Rightarrow> thread_id \<Rightarrow> string \<Rightarrow> thread_goal_mode \<Rightarrow> index_db \<Rightarrow> (error + unit) \<times> index_db" where
  "set_mode now t goal_id mode db =
     (if t \<notin> set (db_threads db)
      then (Inl (ForeignKeyViolation ''forge_goal_modes.thread_id''), db)
      else (Inr (), db\<lparr>db_modes := (db_modes db)((t, goal_id) \<mapsto>
             \<lparr>mo_intensive = (if is_intensive mode then 1 else 0),
              mo_mode = Some (goal_mode_as_str mode), mo_updated_at_ms = now\<rparr>)\<rparr>))"

definition clear_modes_for_thread :: "thread_id \<Rightarrow> index_db \<Rightarrow> index_db" where
  "clear_modes_for_thread t db =
     db\<lparr>db_modes := (\<lambda>(t', g). if t' = t then None else db_modes db (t', g))\<rparr>"

definition replace_for_thread_goal ::
  "int \<Rightarrow> thread_id \<Rightarrow> string \<Rightarrow> thread_goal_mode \<Rightarrow> index_db \<Rightarrow> (error + unit) \<times> index_db" where
  "replace_for_thread_goal now t goal_id mode db =
     (let db1 = clear_modes_for_thread t db in
      if mode \<noteq> ModeStandard then set_mode now t goal_id mode db1 else (Inr (), db1))"

definition mode_from_row :: "mode_row \<Rightarrow> thread_goal_mode" where
  "mode_from_row row =
     (let intensive = (mo_intensive row \<noteq> 0) in
      if mo_mode row = Some ''reviewed'' then ModeReviewed
      else if mo_mode row = Some ''intensive'' then ModeIntensive
      else if mo_mode row = Some ''standard'' \<and> intensive then ModeIntensive
      else if mo_mode row = Some ''standard'' then ModeStandard
      else if intensive then ModeIntensive else ModeStandard)"

definition mode_for_goal :: "thread_id \<Rightarrow> string \<Rightarrow> index_db \<Rightarrow> thread_goal_mode" where
  "mode_for_goal t goal_id db =
     (case db_modes db (t, goal_id) of None \<Rightarrow> ModeStandard | Some row \<Rightarrow> mode_from_row row)"

text \<open>The migration that runs whenever the database is opened.\<close>

definition migrate_mode_row :: "mode_row \<Rightarrow> mode_row" where
  "migrate_mode_row row =
     (if mo_intensive row \<noteq> 0 then row\<lparr>mo_mode := Some ''intensive''\<rparr>
      else case mo_mode row of
          None \<Rightarrow> row
        | Some m \<Rightarrow> if m \<notin> {''standard'', ''reviewed'', ''intensive''}
                    then row\<lparr>mo_mode := Some ''standard''\<rparr> else row)"

definition migrate_modes :: "index_db \<Rightarrow> index_db" where
  "migrate_modes db = db\<lparr>db_modes := (\<lambda>k. map_option migrate_mode_row (db_modes db k))\<rparr>"

end
