(* ===== verification/ForgeGate.thy ===== *)
theory ForgeGate
  imports Forge
begin

text \<open>
  The completion gate of goals (\<^verbatim>\<open>src/runtime/forge/gate.rs\<close>), the escalation after a
  rejection (\<^verbatim>\<open>escalation.rs\<close>) and the two tools that decide what the gate sees
  (\<^verbatim>\<open>src/tools/planning/submit_review.rs\<close>, \<^verbatim>\<open>defer_question.rs\<close>).
\<close>

section \<open>Tool outcomes\<close>

datatype (plugins only: code size) tool_effect =
    TeShortCircuit tool_result
  | TeReviewSubmitted string string review_verdict_event "string option"
      "review_reject_category_event option" "string option" "string option"
  | TeOpenQuestionRecorded string string string string
  | TeOpenQuestionResolved string string "string option"
  | TeExecSessionRunning string string string
  | TeExecSessionNotRunning string
  | TeApprovalRequested string string string "string option" permission_profile string string
      string "approval_command_payload option"
  | TeApprovalApproved string "string option"
  | TeApprovalDenied string "string option"
  | TeUserInputRequested string thread_id string "question_prompt list"
  | TeUserInputResolved string bool
  | TeSubagentSpawned string string thread_id thread_id string string
  | TeSubagentClosed string string thread_id thread_id string
  | TeInterAgentMessageSent string string thread_id thread_id string string string bool
      "turn_id option"
  | TeThreadGoalUpdated thread_goal

record tool_outcome =
  to_model_result :: tool_result
  to_effects :: "tool_effect list"

definition outcome_from_result :: "tool_result \<Rightarrow> tool_outcome" where
  "outcome_from_result r = \<lparr>to_model_result = r, to_effects = []\<rparr>"

definition outcome_success :: "string \<Rightarrow> string \<Rightarrow> string \<Rightarrow> tool_outcome" where
  "outcome_success i name content =
     \<lparr>to_model_result = \<lparr>tr_tool_call_id = i, tr_tool_name = name, tr_status = ToolSuccess,
        tr_content = content, tr_meta = None, tr_parts = []\<rparr>, to_effects = []\<rparr>"

definition with_effect :: "tool_effect \<Rightarrow> tool_outcome \<Rightarrow> tool_outcome" where
  "with_effect e out = out\<lparr>to_effects := to_effects out @ [e]\<rparr>"

definition with_effects :: "tool_effect list \<Rightarrow> tool_outcome \<Rightarrow> tool_outcome" where
  "with_effects es out = out\<lparr>to_effects := to_effects out @ es\<rparr>"

definition tool_error :: "tool_call \<Rightarrow> string \<Rightarrow> tool_outcome" where
  "tool_error call content =
     outcome_from_result \<lparr>tr_tool_call_id = tc_id call, tr_tool_name = tc_name call,
       tr_status = ToolError, tr_content = content, tr_meta = None, tr_parts = []\<rparr>"

section \<open>Escalation\<close>

record review_guidance =
  rg_ticket_id :: string
  rg_stuck_count :: nat
  rg_reject_category :: review_reject_category
  rg_findings :: "string option"
  rg_open_questions :: "open_question list"

datatype escalation_decision =
    EscNone
  | EscActiveGuidance string string
  | EscPauseForQuestions string string
  | EscBlockedExternal string string

definition question_summary :: "open_question list \<Rightarrow> string" where
  "question_summary qs =
     join ''; '' (map (\<lambda>q. oq_question q @ '' ('' @ oq_blocks_what q @ '')'') qs)"

definition guidance_prompt :: "review_guidance \<Rightarrow> string" where
  "guidance_prompt g =
     join (nl @ nl)
       ([''Forge reviewer rejected review ticket '' @ rg_ticket_id g @ ''.'',
         ''Reject category: '' @ reject_category_as_str (rg_reject_category g) @ ''.''] @
        (case rg_findings g of None \<Rightarrow> [] | Some f \<Rightarrow> [''Reviewer findings: '' @ f]) @
        (if 2 \<le> rg_stuck_count g
         then [''No progress detected across repeated review rejects with the same workspace hash; change approach, inspect the failure from a different angle, and spawn an appropriate planner or reviewer before retrying.'']
         else []) @
        (if rg_open_questions g \<noteq> []
         then [''Open questions blocking completion: '' @ question_summary (rg_open_questions g) @ ''.'']
         else []) @
        (case rg_reject_category g of
           NeedsUser \<Rightarrow> [''Use defer_question for user-owned decisions and continue any independent work that remains.'']
         | ExternalBlocker \<Rightarrow> [''The remaining blocker is external; do not spin on retries without a changed external condition.'']
         | RetriableGap \<Rightarrow> []))"

definition guidance_from_ticket ::
  "review_ticket \<Rightarrow> nat \<Rightarrow> open_question list \<Rightarrow> review_guidance" where
  "guidance_from_ticket t stuck qs =
     \<lparr>rg_ticket_id = rt_ticket_id t, rg_stuck_count = stuck,
      rg_reject_category = (case rt_reject_category t of None \<Rightarrow> RetriableGap | Some c \<Rightarrow> c),
      rg_findings = rt_findings t, rg_open_questions = qs\<rparr>"

definition decision_for_goal :: "string \<Rightarrow> index_db \<Rightarrow> error + escalation_decision" where
  "decision_for_goal goal_id db =
     bind_res (latest_ticket goal_id db) (\<lambda>t. case t of
        None \<Rightarrow> Inr EscNone
      | Some ticket \<Rightarrow>
          if rt_status ticket \<noteq> ReviewRejected then Inr EscNone
          else bind_res (unresolved_for_goal goal_id db) (\<lambda>qs.
            bind_res (consecutive_stuck_count goal_id db) (\<lambda>stuck.
              let g = guidance_from_ticket ticket stuck qs;
                  key = ''forge_review:'' @ goal_id @ '':'' @ rg_ticket_id g @ '':'' @
                        show_nat (rg_stuck_count g);
                  content = guidance_prompt g
              in Inr (case rg_reject_category g of
                    ExternalBlocker \<Rightarrow> EscBlockedExternal key content
                  | NeedsUser \<Rightarrow> if rg_open_questions g \<noteq> []
                                 then EscPauseForQuestions key content
                                 else EscActiveGuidance key content
                  | RetriableGap \<Rightarrow> EscActiveGuidance key content))))"

section \<open>The gate\<close>

record invocation_context =
  ic_tool_call_id :: string
  ic_tool_name :: string
  ic_arguments :: json
  ic_thread_id :: "thread_id option"

fun json_get :: "string \<Rightarrow> json \<Rightarrow> json option" where
  "json_get k (JObject fs) = map_of fs k"
| "json_get k _ = None"

fun json_as_str :: "json \<Rightarrow> string option" where
  "json_as_str (JString s) = Some s"
| "json_as_str _ = None"

definition is_complete_goal_update :: "invocation_context \<Rightarrow> bool" where
  "is_complete_goal_update ctx \<longleftrightarrow> ic_tool_name ctx = ''update_goal'' \<and>
     Option.bind (json_get ''status'' (ic_arguments ctx)) json_as_str = Some ''complete''"

definition open_questions_result ::
  "invocation_context \<Rightarrow> string \<Rightarrow> open_question list \<Rightarrow> tool_result" where
  "open_questions_result ctx goal_id qs =
     \<lparr>tr_tool_call_id = ic_tool_call_id ctx, tr_tool_name = ic_tool_name ctx,
      tr_status = ToolError,
      tr_content = ''Goal completion is blocked by unresolved open question(s): '' @
        question_summary qs @ ''.'',
      tr_meta = Some (JObject [(''goal_id'', JString goal_id),
        (''open_questions'', JArray (map (\<lambda>q. JObject
           [(''question_id'', JString (oq_question_id q)), (''question'', JString (oq_question q)),
            (''blocks_what'', JString (oq_blocks_what q))]) qs))]),
      tr_parts = []\<rparr>"

definition json_opt :: "string option \<Rightarrow> json" where
  "json_opt x = (case x of None \<Rightarrow> JNull | Some s \<Rightarrow> JString s)"

definition ticket_result ::
  "invocation_context \<Rightarrow> review_ticket \<Rightarrow> string option \<Rightarrow> tool_result" where
  "ticket_result ctx ticket hash =
     \<lparr>tr_tool_call_id = ic_tool_call_id ctx, tr_tool_name = ic_tool_name ctx,
      tr_status = ToolError,
      tr_content = ''Goal completion requires fresh reviewer approval. Opened review ticket '' @
        rt_ticket_id ticket @ ''.'',
      tr_meta = Some (JObject [(''ticket_id'', JString (rt_ticket_id ticket)),
        (''goal_id'', JString (rt_goal_id ticket)), (''reviewed_hash'', json_opt hash),
        (''message'', JString ''goal completion requires fresh reviewer approval'')]),
      tr_parts = []\<rparr>"

text \<open>\<open>hash\<close>: the content hash of the workspace (None outside a git work tree).\<close>

definition before_handler_execution ::
  "int \<Rightarrow> error + string option \<Rightarrow> invocation_context \<Rightarrow> index_db \<Rightarrow>
   (error + tool_effect list) \<times> index_db" where
  "before_handler_execution now hash ctx db =
     (if \<not> is_complete_goal_update ctx then (Inr [], db)
      else case ic_thread_id ctx of
        None \<Rightarrow> (Inr [], db)
      | Some t \<Rightarrow>
        (case get_thread_goal t db of
           Inl e \<Rightarrow> (Inl e, db)
         | Inr None \<Rightarrow> (Inr [], db)
         | Inr (Some goal) \<Rightarrow>
           if \<not> is_review_gated (mode_for_goal t (go_goal_id goal) db) then (Inr [], db)
           else (case unresolved_for_goal (go_goal_id goal) db of
             Inl e \<Rightarrow> (Inl e, db)
           | Inr (q # qs) \<Rightarrow>
               (Inr [TeShortCircuit (open_questions_result ctx (go_goal_id goal) (q # qs))], db)
           | Inr [] \<Rightarrow>
             (case hash of
                Inl e \<Rightarrow> (Inl e, db)
              | Inr current \<Rightarrow>
                (case latest_fresh_approval (go_goal_id goal) current db of
                   Inl e \<Rightarrow> (Inl e, db)
                 | Inr (Some _) \<Rightarrow> (Inr [], db)
                 | Inr None \<Rightarrow>
                     (let (ticket, db1) = mint_ticket now (go_goal_id goal) current db
                      in (Inr [TeShortCircuit (ticket_result ctx ticket current)], db1)))))))"

section \<open>The tools\<close>

record submit_review_args =
  sa_ticket_id :: string
  sa_verdict :: review_verdict
  sa_findings :: "string option"
  sa_category :: "review_reject_category option"

definition submit_review ::
  "int \<Rightarrow> (json \<Rightarrow> string) \<Rightarrow> error + submit_review_args \<Rightarrow> error + string option \<Rightarrow>
   error + string option \<Rightarrow> (error \<Rightarrow> string) \<Rightarrow> tool_call \<Rightarrow> index_db \<Rightarrow> tool_outcome \<times> index_db"
  where
  "submit_review now pj args hash checkpoint err call db =
     (case args of
        Inl e \<Rightarrow> (tool_error call (err e), db)
      | Inr a \<Rightarrow>
        if sa_verdict a = VerdictApprove \<and> sa_category a \<noteq> None
        then (tool_error call ''category must be omitted when verdict is approve'', db)
        else
          let findings = (case sa_findings a of None \<Rightarrow> None
                | Some f \<Rightarrow> if trim f = [] then None else Some (trim f))
          in if sa_verdict a = VerdictReject \<and> findings = None
             then (tool_error call ''findings is required when verdict is reject'', db)
             else if sa_verdict a = VerdictReject \<and> sa_category a = None
             then (tool_error call ''category is required when verdict is reject'', db)
             else case hash of
               Inl e \<Rightarrow> (tool_error call (err e), db)
             | Inr reviewed \<Rightarrow>
               (case checkpoint of
                  Inl e \<Rightarrow> (tool_error call (err e), db)
                | Inr cp \<Rightarrow>
                  (case resolve_ticket_with_category now (sa_ticket_id a) (sa_verdict a) reviewed
                          findings (sa_category a) db of
                     (Inl e, db1) \<Rightarrow> (tool_error call (err e), db1)
                   | (Inr ticket, db1) \<Rightarrow>
                     (let value = JObject [(''ticket_id'', JString (rt_ticket_id ticket)),
                            (''goal_id'', JString (rt_goal_id ticket)),
                            (''verdict'', JString (case sa_verdict a of
                               VerdictApprove \<Rightarrow> ''approve'' | VerdictReject \<Rightarrow> ''reject'')),
                            (''reviewed_hash'', json_opt reviewed),
                            (''category'', json_opt (map_option reject_category_as_str (sa_category a))),
                            (''findings'', json_opt findings), (''checkpoint_id'', json_opt cp)]
                      in (with_effect (TeReviewSubmitted (rt_ticket_id ticket) (rt_goal_id ticket)
                            (as_event_verdict (sa_verdict a)) reviewed
                            (map_option as_event_category (sa_category a)) findings cp)
                          (outcome_from_result \<lparr>tr_tool_call_id = tc_id call,
                             tr_tool_name = tc_name call, tr_status = ToolSuccess,
                             tr_content = pj value, tr_meta = Some value, tr_parts = []\<rparr>), db1)))))"

definition defer_question ::
  "int \<Rightarrow> (json \<Rightarrow> string) \<Rightarrow> error + (string \<times> string) \<Rightarrow> (error \<Rightarrow> string) \<Rightarrow> thread_id option \<Rightarrow>
   tool_call \<Rightarrow> index_db \<Rightarrow> tool_outcome \<times> index_db" where
  "defer_question now pj args err thread call db =
     (case args of
        Inl e \<Rightarrow> (tool_error call (err e), db)
      | Inr (question0, blocks0) \<Rightarrow>
        (let question = trim question0; blocks = trim blocks0 in
         if question = [] then (tool_error call ''question must not be empty'', db)
         else if blocks = [] then (tool_error call ''blocks_what must not be empty'', db)
         else case thread of
           None \<Rightarrow> (tool_error call ''defer_question requires a runtime thread_id'', db)
         | Some t \<Rightarrow>
           (case get_thread_goal t db of
              Inl e \<Rightarrow> (tool_error call (err e), db)
            | Inr None \<Rightarrow> (tool_error call ''defer_question requires an active goal'', db)
            | Inr (Some goal) \<Rightarrow>
              (case record_question now t (go_goal_id goal) question blocks db of
                 (Inl e, db1) \<Rightarrow> (tool_error call (err e), db1)
               | (Inr q, db1) \<Rightarrow>
                 (let value = JObject [(''question_id'', JString (oq_question_id q)),
                        (''goal_id'', JString (oq_goal_id q)), (''question'', JString (oq_question q)),
                        (''blocks_what'', JString (oq_blocks_what q))]
                  in (with_effect (TeOpenQuestionRecorded (oq_question_id q) (oq_goal_id q)
                        (oq_question q) (oq_blocks_what q))
                      (outcome_from_result \<lparr>tr_tool_call_id = tc_id call,
                         tr_tool_name = tc_name call, tr_status = ToolSuccess,
                         tr_content = pj value, tr_meta = Some value, tr_parts = []\<rparr>), db1))))))"


section \<open>Runs of one process\<close>

datatype forge_op =
    FoGoal goal_op
  | FoMint int string "string option"
  | FoResolve int string review_verdict "string option" "string option" "review_reject_category option"
  | FoRecord int thread_id string string string
  | FoAnswer int string "string option"
  | FoSetMode int thread_id string thread_goal_mode
  | FoReplaceMode int thread_id string thread_goal_mode
  | FoClearModes thread_id

fun exec_forge_op :: "index_db \<Rightarrow> forge_op \<Rightarrow> index_db" where
  "exec_forge_op db (FoGoal op) = exec_goal_op db op"
| "exec_forge_op db (FoMint now g h) = snd (mint_ticket now g h db)"
| "exec_forge_op db (FoResolve now i v h f c) = snd (resolve_ticket_with_category now i v h f c db)"
| "exec_forge_op db (FoRecord now t g q b) = snd (record_question now t g q b db)"
| "exec_forge_op db (FoAnswer now i a) = snd (resolve_question now i a db)"
| "exec_forge_op db (FoSetMode now t g m) = snd (set_mode now t g m db)"
| "exec_forge_op db (FoReplaceMode now t g m) = snd (replace_for_thread_goal now t g m db)"
| "exec_forge_op db (FoClearModes t) = clear_modes_for_thread t db"

definition forge_run :: "thread_id list \<Rightarrow> forge_op list \<Rightarrow> index_db" where
  "forge_run ts ops = foldl exec_forge_op (db_new ts) ops"

definition ticket_row_ok :: "ticket_row \<Rightarrow> bool" where
  "ticket_row_ok r \<longleftrightarrow> kr_status r \<in> range review_status_as_str \<and>
     (case kr_reject_category r of None \<Rightarrow> True | Some c \<Rightarrow> c \<in> range reject_category_as_str)"

definition forge_ok :: "index_db \<Rightarrow> bool" where
  "forge_ok db \<longleftrightarrow> rows_ok db \<and> list_all ticket_row_ok (db_tickets db) \<and>
     list_all (\<lambda>r. qr_status r \<in> range question_status_as_str) (db_questions db) \<and>
     sorted_wrt (\<lambda>a b. kr_ticket_order a < kr_ticket_order b) (db_tickets db) \<and>
     list_all (\<lambda>r. kr_ticket_order r < int (db_next_ticket db)) (db_tickets db)"

text \<open>The goal statements do not touch the tables of the gate, and conversely.\<close>

lemma goal_op_frame [simp]:
  "db_tickets (exec_goal_op db op) = db_tickets db"
  "db_next_ticket (exec_goal_op db op) = db_next_ticket db"
  "db_questions (exec_goal_op db op) = db_questions db"
  "db_modes (exec_goal_op db op) = db_modes db"
  by (cases op; auto simp: replace_thread_goal_def insert_thread_goal_def update_thread_goal_def
    delete_thread_goal_def account_thread_goal_usage_def suppress_thread_goal_continuation_def
    reset_thread_goal_continuation_suppression_def new_goal_id_def Let_def
    split: sum.splits option.splits)+

lemma forge_frame [simp]:
  "db_goals (snd (mint_ticket now g h db)) = db_goals db"
  "db_modes (snd (mint_ticket now g h db)) = db_modes db"
  "db_questions (snd (mint_ticket now g h db)) = db_questions db"
  "db_goals (snd (resolve_ticket_with_category now i v h f c db)) = db_goals db"
  "db_modes (snd (resolve_ticket_with_category now i v h f c db)) = db_modes db"
  "db_questions (snd (resolve_ticket_with_category now i v h f c db)) = db_questions db"
  "db_next_ticket (snd (resolve_ticket_with_category now i v h f c db)) = db_next_ticket db"
  "db_goals (snd (record_question now t g q b db)) = db_goals db"
  "db_tickets (snd (record_question now t g q b db)) = db_tickets db"
  "db_next_ticket (snd (record_question now t g q b db)) = db_next_ticket db"
  "db_goals (snd (resolve_question now i a db)) = db_goals db"
  "db_tickets (snd (resolve_question now i a db)) = db_tickets db"
  "db_next_ticket (snd (resolve_question now i a db)) = db_next_ticket db"
  "db_goals (snd (set_mode now t g m db)) = db_goals db"
  "db_tickets (snd (set_mode now t g m db)) = db_tickets db"
  "db_next_ticket (snd (set_mode now t g m db)) = db_next_ticket db"
  "db_questions (snd (set_mode now t g m db)) = db_questions db"
  "db_goals (clear_modes_for_thread t db) = db_goals db"
  "db_tickets (clear_modes_for_thread t db) = db_tickets db"
  "db_next_ticket (clear_modes_for_thread t db) = db_next_ticket db"
  "db_questions (clear_modes_for_thread t db) = db_questions db"
  by (simp_all add: mint_ticket_def resolve_ticket_with_category_def record_question_def
    resolve_question_def set_mode_def clear_modes_for_thread_def Let_def)

lemma replace_mode_frame [simp]:
  "db_goals (snd (replace_for_thread_goal now t g m db)) = db_goals db"
  "db_tickets (snd (replace_for_thread_goal now t g m db)) = db_tickets db"
  "db_next_ticket (snd (replace_for_thread_goal now t g m db)) = db_next_ticket db"
  "db_questions (snd (replace_for_thread_goal now t g m db)) = db_questions db"
  by (simp_all add: replace_for_thread_goal_def Let_def)

lemma rows_ok_frame: "db_goals a = db_goals b \<Longrightarrow> rows_ok a = rows_ok b"
  by (simp add: rows_ok_def)

lemma forge_ok_goal_op: "forge_ok db \<Longrightarrow> forge_ok (exec_goal_op db op)"
  using refine_op [of db op] by (simp add: forge_ok_def refines_def)

lemma mint_order: "Suc (db_next_ticket db) < 2 ^ 63 \<Longrightarrow>
  u64_as_i64 (db_next_ticket db) = int (db_next_ticket db) \<and>
  u64_wrap_succ (db_next_ticket db) = Suc (db_next_ticket db)"
  by (simp add: u64_as_i64_def u64_wrap_succ_def)

lemma label_ranges [simp]:
  "''pending'' \<in> range review_status_as_str" "''open'' \<in> range question_status_as_str"
  "''resolved'' \<in> range question_status_as_str"
  using range_eqI [of _ review_status_as_str ReviewPending]
    range_eqI [of _ question_status_as_str QuestionOpen]
    range_eqI [of _ question_status_as_str QuestionResolved] by simp_all

lemma forge_ok_mint:
  assumes "forge_ok db" "Suc (db_next_ticket db) < 2 ^ 63"
  shows "forge_ok (snd (mint_ticket now g h db))"
  using assms(1) mint_order [OF assms(2)]
  by (auto simp: forge_ok_def mint_ticket_def Let_def sorted_wrt_append ticket_row_ok_def
    list_all_iff less_Suc_eq rows_ok_def intro: range_eqI)

lemma forge_ok_map_tickets:
  assumes "forge_ok db" "\<And>r. kr_ticket_order (g r) = kr_ticket_order r"
    "\<And>r. ticket_row_ok r \<Longrightarrow> ticket_row_ok (g r)"
  shows "forge_ok (db\<lparr>db_tickets := map g (db_tickets db)\<rparr>)"
  using assms by (simp add: forge_ok_def rows_ok_def list_all_iff sorted_wrt_map)

definition resolved_row ::
  "int \<Rightarrow> string \<Rightarrow> review_verdict \<Rightarrow> string option \<Rightarrow> string option \<Rightarrow>
   review_reject_category option \<Rightarrow> ticket_row \<Rightarrow> ticket_row" where
  "resolved_row now i v h f c r =
     (if kr_ticket_id r = i
      then r\<lparr>kr_status := review_status_as_str (case v of VerdictApprove \<Rightarrow> ReviewApproved
               | VerdictReject \<Rightarrow> ReviewRejected), kr_reviewed_hash := h, kr_findings := f,
             kr_reject_category := map_option reject_category_as_str c, kr_updated_at_ms := now\<rparr>
      else r)"

lemma resolve_db:
  "snd (resolve_ticket_with_category now i v h f c db) =
     (if list_ex (\<lambda>r. kr_ticket_id r = i) (db_tickets db)
      then db\<lparr>db_tickets := map (resolved_row now i v h f c) (db_tickets db)\<rparr> else db)"
  by (simp add: resolve_ticket_with_category_def Let_def resolved_row_def)

lemma resolved_row_simps [simp]:
  "kr_ticket_order (resolved_row now i v h f c r) = kr_ticket_order r"
  "kr_ticket_id (resolved_row now i v h f c r) = kr_ticket_id r"
  "kr_goal_id (resolved_row now i v h f c r) = kr_goal_id r"
  "ticket_row_ok r \<Longrightarrow> ticket_row_ok (resolved_row now i v h f c r)"
  by (auto simp: resolved_row_def ticket_row_ok_def split: option.splits)

lemma forge_ok_resolve:
  "forge_ok db \<Longrightarrow> forge_ok (snd (resolve_ticket_with_category now i v h f c db))"
  by (simp add: resolve_db forge_ok_map_tickets)

lemma forge_ok_questions:
  "forge_ok db \<Longrightarrow> forge_ok (snd (record_question now t g q b db))"
  "forge_ok db \<Longrightarrow> forge_ok (snd (resolve_question now i a db))"
proof -
  have r: "''resolved'' \<in> range question_status_as_str"
    by (rule range_eqI [of _ _ QuestionResolved]) simp
  show "forge_ok db \<Longrightarrow> forge_ok (snd (record_question now t g q b db))"
    by (auto simp: forge_ok_def record_question_def Let_def rows_ok_def simp del: question_status_as_str.simps)
  show "forge_ok db \<Longrightarrow> forge_ok (snd (resolve_question now i a db))"
    using r by (auto simp: forge_ok_def resolve_question_def Let_def rows_ok_def list_all_iff)
qed

lemma forge_ok_modes:
  "forge_ok db \<Longrightarrow> forge_ok (snd (set_mode now t g m db))"
  "forge_ok db \<Longrightarrow> forge_ok (clear_modes_for_thread t db)"
  "forge_ok db \<Longrightarrow> forge_ok (snd (replace_for_thread_goal now t g m db))"
  by (simp_all add: forge_ok_def rows_ok_def)

lemma exec_forge_ok:
  assumes "forge_ok db" "Suc (db_next_ticket db) < 2 ^ 63"
  shows "forge_ok (exec_forge_op db op) \<and> db_next_ticket (exec_forge_op db op) \<le> Suc (db_next_ticket db)"
proof (cases op)
  case (FoMint now g h)
  then show ?thesis
    using forge_ok_mint [OF assms] mint_order [OF assms(2)] by (simp add: mint_ticket_def Let_def)
qed (use assms in \<open>simp_all add: forge_ok_goal_op forge_ok_resolve forge_ok_questions forge_ok_modes\<close>)

lemma forge_run_ok:
  "length ops < 2 ^ 62 \<Longrightarrow>
   forge_ok (forge_run ts ops) \<and> db_next_ticket (forge_run ts ops) \<le> Suc (length ops)"
proof (induction ops rule: rev_induct)
  case Nil
  show ?case by (simp add: forge_run_def db_new_def forge_ok_def rows_ok_def)
next
  case (snoc op ops)
  then have ih: "forge_ok (forge_run ts ops)" "db_next_ticket (forge_run ts ops) \<le> Suc (length ops)"
    by auto
  have "Suc (db_next_ticket (forge_run ts ops)) < 2 ^ 63" using ih(2) snoc.prems by simp
  from exec_forge_ok [OF ih(1) this, of op] ih(2) show ?case by (simp add: forge_run_def)
qed


section \<open>What the gate reads\<close>

lemma decode_ticket:
  assumes "ticket_row_ok r"
  shows "\<exists>t. review_ticket_from_row r = Inr t \<and> kr_status r = review_status_as_str (rt_status t) \<and>
    rt_reviewed_hash t = kr_reviewed_hash r \<and> rt_ticket_id t = kr_ticket_id r \<and>
    rt_goal_id t = kr_goal_id r \<and> rt_baseline_hash t = kr_baseline_hash r \<and>
    rt_findings t = kr_findings r \<and>
    kr_reject_category r = map_option reject_category_as_str (rt_reject_category t)"
  using assms review_status_codec.parse_label reject_category_codec.parse_label
  by (cases "kr_reject_category r")
    (auto simp: ticket_row_ok_def review_ticket_from_row_def)

lemma approved_label: "review_status_as_str st = ''approved'' \<longleftrightarrow> st = ReviewApproved"
  by (cases st) simp_all

lemma rejected_label: "review_status_as_str st = ''rejected'' \<longleftrightarrow> st = ReviewRejected"
  by (cases st) simp_all

lemma sorted_rev_id:
  "sorted_wrt (\<lambda>a b. f a < (f b :: int)) xs \<Longrightarrow> sort_key (\<lambda>r. - f r) (rev xs) = rev xs"
proof (rule sort_key_id_if_sorted)
  assume "sorted_wrt (\<lambda>a b. f a < f b) xs"
  then show "sorted (map (\<lambda>r. - f r) (rev xs))"
    by (simp add: sorted_map sorted_wrt_rev sorted_wrt_mono_rel [rotated])
qed

text \<open>In one process the newest row of a goal is the latest ticket.\<close>

lemma tickets_desc_rev:
  assumes "forge_ok db"
  shows "tickets_desc g db = rev (filter (\<lambda>r. kr_goal_id r = g) (db_tickets db))"
  unfolding tickets_desc_def
  by (rule sorted_rev_id) (use assms in \<open>simp add: forge_ok_def sorted_wrt_filter\<close>)

definition newest_row :: "string \<Rightarrow> index_db \<Rightarrow> ticket_row option" where
  "newest_row g db =
     (case rev (filter (\<lambda>r. kr_goal_id r = g) (db_tickets db)) of [] \<Rightarrow> None | r # _ \<Rightarrow> Some r)"

lemma newest_row_in: "newest_row g db = Some r \<Longrightarrow> r \<in> set (db_tickets db) \<and> kr_goal_id r = g"
  unfolding newest_row_def
  by (auto split: list.splits dest!: arg_cong [of _ _ set])

lemma latest_ticket_row:
  assumes "forge_ok db"
  shows "latest_ticket g db = (case newest_row g db of None \<Rightarrow> Inr None
    | Some r \<Rightarrow> bind_res (review_ticket_from_row r) (\<lambda>t. Inr (Some t)))"
  unfolding latest_ticket_def tickets_desc_rev [OF assms] newest_row_def
  by (simp split: list.splits)

definition fresh_row_for :: "string option \<Rightarrow> ticket_row option \<Rightarrow> bool" where
  "fresh_row_for hash r = (case r of None \<Rightarrow> False
     | Some row \<Rightarrow> kr_status row = ''approved'' \<and> kr_reviewed_hash row = hash)"

lemma latest_fresh_row:
  assumes "forge_ok db"
  shows "\<exists>t. latest_fresh_approval g hash db = Inr t \<and>
    (t \<noteq> None) = fresh_row_for hash (newest_row g db)"
proof (cases "newest_row g db")
  case None
  then show ?thesis
    by (simp add: latest_fresh_approval_def latest_ticket_row [OF assms] fresh_row_for_def)
next
  case (Some r)
  then have "ticket_row_ok r" using newest_row_in assms by (auto simp: forge_ok_def list_all_iff)
  from decode_ticket [OF this] obtain t where "review_ticket_from_row r = Inr t"
    "kr_status r = review_status_as_str (rt_status t)" "rt_reviewed_hash t = kr_reviewed_hash r"
    by blast
  with Some show ?thesis
    by (simp add: latest_fresh_approval_def latest_ticket_row [OF assms] fresh_row_for_def
      approved_label)
qed

definition open_rows :: "string \<Rightarrow> index_db \<Rightarrow> question_row list" where
  "open_rows g db = filter (\<lambda>r. qr_goal_id r = g \<and> qr_status r = ''open'') (db_questions db)"

lemma decode_rows_length:
  "(\<And>r. r \<in> set rs \<Longrightarrow> \<exists>x. f r = Inr x) \<Longrightarrow> \<exists>xs. decode_rows f rs = Inr xs \<and> length xs = length rs"
proof (induction rs)
  case (Cons r rs)
  then obtain x xs where "f r = Inr x" "decode_rows f rs = Inr xs" "length xs = length rs" by force
  then show ?case by simp
qed simp

lemma unresolved_rows:
  "\<exists>qs. unresolved_for_goal g db = Inr qs \<and> length qs = length (open_rows g db)"
proof -
  have "\<exists>q. open_question_from_row r = Inr q" if "qr_status r = ''open''" for r
    using that by (simp add: open_question_from_row_def question_status_from_str_def)
  then show ?thesis
    unfolding unresolved_for_goal_def open_rows_def
    using decode_rows_length [of "sort_key qr_question_order (filter (\<lambda>r. qr_goal_id r = g \<and>
      qr_status r = ''open'') (db_questions db))" open_question_from_row] by auto
qed

text \<open>The gate in terms of the rows.\<close>

definition gate_opens :: "thread_id \<Rightarrow> string option \<Rightarrow> index_db \<Rightarrow> bool" where
  "gate_opens t hash db =
     (case goal_map db t of
        None \<Rightarrow> True
      | Some goal \<Rightarrow>
          \<not> is_review_gated (mode_for_goal t (go_goal_id goal) db) \<or>
          open_rows (go_goal_id goal) db = [] \<and>
          fresh_row_for hash (newest_row (go_goal_id goal) db))"

lemma gate_cases:
  assumes "forge_ok db" "is_complete_goal_update ctx" "ic_thread_id ctx = Some t"
  shows "if gate_opens t hash db
    then before_handler_execution now (Inr hash) ctx db = (Inr [], db)
    else \<exists>result g. goal_map db t = Some g \<and> tr_status result = ToolError \<and>
      fst (before_handler_execution now (Inr hash) ctx db) = Inr [TeShortCircuit result] \<and>
      snd (before_handler_execution now (Inr hash) ctx db) =
        (if open_rows (go_goal_id g) db = [] then snd (mint_ticket now (go_goal_id g) hash db) else db)"
proof (cases "goal_map db t")
  case None
  with assms show ?thesis
    by (simp add: before_handler_execution_def forge_ok_def get_goal_map gate_opens_def)
next
  case (Some g)
  have get: "get_thread_goal t db = Inr (Some g)"
    using assms(1) Some by (simp add: forge_ok_def get_goal_map)
  obtain qs where qs: "unresolved_for_goal (go_goal_id g) db = Inr qs"
    "qs = [] \<longleftrightarrow> open_rows (go_goal_id g) db = []"
    using unresolved_rows [of "go_goal_id g" db] by force
  obtain ft where ft: "latest_fresh_approval (go_goal_id g) hash db = Inr ft"
    "(ft \<noteq> None) = fresh_row_for hash (newest_row (go_goal_id g) db)"
    using latest_fresh_row [OF assms(1)] by blast
  show ?thesis
    using assms(2,3) Some get qs ft
    by (auto simp: before_handler_execution_def gate_opens_def ticket_result_def
      open_questions_result_def split: list.splits option.splits prod.splits)
qed


lemma newest_row_minted:
  "newest_row g (snd (mint_ticket now g h db)) = Some (last (db_tickets (snd (mint_ticket now g h db)))) \<and>
   kr_ticket_id (last (db_tickets (snd (mint_ticket now g h db)))) = rt_ticket_id (fst (mint_ticket now g h db))"
  by (simp add: newest_row_def mint_ticket_def Let_def)

lemma newest_row_map:
  "newest_row g (db\<lparr>db_tickets := map (resolved_row now i v h f c) (db_tickets db)\<rparr>) =
     map_option (resolved_row now i v h f c) (newest_row g db)"
proof -
  have "filter (\<lambda>r. kr_goal_id r = g) (map (resolved_row now i v h f c) rs) =
      map (resolved_row now i v h f c) (filter (\<lambda>r. kr_goal_id r = g) rs)" for rs
    by (induction rs) auto
  then show ?thesis
    by (simp add: newest_row_def rev_map split: list.splits)
qed

lemma resolve_result:
  assumes "forge_ok db" "list_ex (\<lambda>r. kr_ticket_id r = i) (db_tickets db)"
  shows "\<exists>t. fst (resolve_ticket_with_category now i v h f c db) = Inr t"
proof -
  let ?db = "snd (resolve_ticket_with_category now i v h f c db)"
  have ok: "forge_ok ?db" by (rule forge_ok_resolve [OF assms(1)])
  have "list_ex (\<lambda>r. kr_ticket_id r = i) (db_tickets ?db)"
    using assms(2) by (auto simp: resolve_db list_ex_iff)
  then obtain r where r: "find (\<lambda>r. kr_ticket_id r = i) (db_tickets ?db) = Some r"
    by (cases "find (\<lambda>r. kr_ticket_id r = i) (db_tickets ?db)") (auto simp: find_None_iff list_ex_iff)
  then have "r \<in> set (db_tickets ?db)" by (auto simp: find_Some_iff)
  then have "ticket_row_ok r" using ok by (auto simp: forge_ok_def list_all_iff)
  from decode_ticket [OF this] obtain t where "get_ticket i ?db = Inr (Some t)"
    using r by (auto simp: get_ticket_def)
  moreover have "fst (resolve_ticket_with_category now i v h f c db) =
      bind_res (get_ticket i ?db) (\<lambda>t. case t of Some x \<Rightarrow> Inr x
        | None \<Rightarrow> Inl (Anyhow ''resolved ticket should exist''))"
    using assms(2) by (simp add: resolve_ticket_with_category_def Let_def)
  ultimately show ?thesis by simp
qed

lemma submit_approve:
  assumes "forge_ok db" "list_ex (\<lambda>r. kr_ticket_id r = i) (db_tickets db)"
  shows "let out = submit_review now pj (Inr \<lparr>sa_ticket_id = i, sa_verdict = VerdictApprove,
      sa_findings = f, sa_category = None\<rparr>) (Inr h) (Inr cp) err call db
    in tr_status (to_model_result (fst out)) = ToolSuccess \<and>
       snd out = db\<lparr>db_tickets := map (resolved_row now i VerdictApprove h
         (case f of None \<Rightarrow> None | Some f \<Rightarrow> if trim f = [] then None else Some (trim f)) None) (db_tickets db)\<rparr>"
proof -
  let ?f = "case f of None \<Rightarrow> None | Some f \<Rightarrow> if trim f = [] then None else Some (trim f)"
  obtain t where "fst (resolve_ticket_with_category now i VerdictApprove h ?f None db) = Inr t"
    using resolve_result [OF assms] by blast
  moreover have "snd (resolve_ticket_with_category now i VerdictApprove h ?f None db) =
      db\<lparr>db_tickets := map (resolved_row now i VerdictApprove h ?f None) (db_tickets db)\<rparr>"
    using assms(2) by (simp add: resolve_db)
  ultimately have "resolve_ticket_with_category now i VerdictApprove h ?f None db =
      (Inr t, db\<lparr>db_tickets := map (resolved_row now i VerdictApprove h ?f None) (db_tickets db)\<rparr>)"
    by (metis prod.collapse)
  then show ?thesis
    by (simp add: submit_review_def with_effect_def outcome_from_result_def Let_def)
qed

section \<open>Properties\<close>


text \<open>A reviewed goal and a call that completes it.\<close>

definition sample_gate_ops :: "forge_op list" where
  "sample_gate_ops = [FoGoal (GoInsert 5 ''t'' ''ship'' None),
     FoSetMode 6 ''t'' ''goal_5_1'' ModeReviewed]"

definition sample_ctx :: invocation_context where
  "sample_ctx = \<lparr>ic_tool_call_id = ''c'', ic_tool_name = ''update_goal'',
     ic_arguments = JObject [(''status'', JString ''complete'')], ic_thread_id = Some ''t''\<rparr>"

lemma sample_ctx_ok: "is_complete_goal_update sample_ctx" "ic_thread_id sample_ctx = Some ''t''"
  by (simp_all add: is_complete_goal_update_def sample_ctx_def)

lemma show_int_5: "show_int 5 = ''5''" "show_int 6 = ''6''" "show_int 7 = ''7''" "show_int 1 = ''1''" "show_int 2 = ''2''"
  by code_simp+

lemma sample_gate_db:
  "goal_map (forge_run [''t''] sample_gate_ops) ''t'' =
     Some (fresh_goal ''t'' ''goal_5_1'' ''ship'' GoalActive None 5)"
  "db_modes (forge_run [''t''] sample_gate_ops) (''t'', ''goal_5_1'') =
     Some \<lparr>mo_intensive = 0, mo_mode = Some ''reviewed'', mo_updated_at_ms = 6\<rparr>"
  "db_questions (forge_run [''t''] sample_gate_ops) = []"
  "db_tickets (forge_run [''t''] sample_gate_ops) = []"
  by (simp_all add: forge_run_def sample_gate_ops_def db_new_def insert_thread_goal_def
    new_goal_id_def Let_def set_mode_def goal_map_def row_goal_def
    thread_goal_record_from_row_def fresh_row_def fresh_goal_def next_goal_id_def show_int_5
    show_nat_small)

lemma sample_gate_closed: "\<not> gate_opens ''t'' h (forge_run [''t''] sample_gate_ops)"
  by (simp add: gate_opens_def sample_gate_db fresh_goal_def mode_for_goal_def mode_from_row_def
    open_rows_def newest_row_def fresh_row_for_def)


text \<open>The way through the gate: when a completion is refused and no question is open, a review
  ticket has been opened for the goal; approving that ticket opens the gate for the content the
  reviewer saw, and for no other content of the workspace.\<close>

theorem approval_opens_gate:
  assumes "length ops < 2 ^ 62" "is_complete_goal_update ctx" "ic_thread_id ctx = Some t"
    and "goal_map (forge_run ts ops) t = Some g"
    and "is_review_gated (mode_for_goal t (go_goal_id g) (forge_run ts ops))"
    and "open_rows (go_goal_id g) (forge_run ts ops) = []"
    and "\<not> gate_opens t hash (forge_run ts ops)"
  shows "let (res, db1) = before_handler_execution now (Inr hash) ctx (forge_run ts ops);
      (out, db2) = submit_review now' pj (Inr \<lparr>sa_ticket_id = kr_ticket_id (last (db_tickets db1)),
        sa_verdict = VerdictApprove, sa_findings = f, sa_category = None\<rparr>) (Inr seen) (Inr cp) err call db1
    in \<not> gate_opens t seen db1 \<and> tr_status (to_model_result out) = ToolSuccess \<and>
       (gate_opens t hash' db2 \<longleftrightarrow> hash' = seen)"
proof -
  let ?db = "forge_run ts ops"
  let ?db1 = "snd (mint_ticket now (go_goal_id g) hash ?db)"
  have ok: "forge_ok ?db" "Suc (db_next_ticket ?db) < 2 ^ 63"
    using forge_run_ok [OF assms(1), of ts] assms(1) by auto
  have db1: "snd (before_handler_execution now (Inr hash) ctx ?db) = ?db1"
    using gate_cases [OF ok(1) assms(2,3), of hash now] assms(4,6,7) by auto
  have ok1: "forge_ok ?db1" by (rule forge_ok_mint [OF ok])
  note new = newest_row_minted [of "go_goal_id g" now hash ?db]
  have in1: "list_ex (\<lambda>r. kr_ticket_id r = kr_ticket_id (last (db_tickets ?db1))) (db_tickets ?db1)"
    by (simp add: mint_ticket_def Let_def list_ex_iff)
  let ?f = "case f of None \<Rightarrow> None | Some f \<Rightarrow> if trim f = [] then None else Some (trim f)"
  let ?res = "resolved_row now' (kr_ticket_id (last (db_tickets ?db1))) VerdictApprove seen ?f None"
  note sub = submit_approve [OF ok1 in1, of now' pj f seen cp err call, unfolded Let_def]
  have pend: "kr_status (last (db_tickets ?db1)) = ''pending''"
    by (simp add: mint_ticket_def Let_def)
  have gm: "goal_map ?db1 = goal_map ?db" "goal_map (?db1\<lparr>db_tickets := ks\<rparr>) = goal_map ?db" for ks
    by (simp_all add: goal_map_def fun_eq_iff)
  have md: "mode_for_goal t' g' ?db1 = mode_for_goal t' g' ?db"
    "mode_for_goal t' g' (?db1\<lparr>db_tickets := ks\<rparr>) = mode_for_goal t' g' ?db" for t' g' ks
    by (simp_all add: mode_for_goal_def)
  have op: "open_rows g' ?db1 = open_rows g' ?db"
    "open_rows g' (?db1\<lparr>db_tickets := ks\<rparr>) = open_rows g' ?db" for g' ks
    by (simp_all add: open_rows_def)
  have closed1: "\<not> gate_opens t seen ?db1"
    using assms(4,5) new pend by (simp add: gate_opens_def gm md fresh_row_for_def)
  have "newest_row (go_goal_id g) (?db1\<lparr>db_tickets := map ?res (db_tickets ?db1)\<rparr>) =
      Some (?res (last (db_tickets ?db1)))"
    using new by (simp add: newest_row_map)
  then have "gate_opens t hash' (?db1\<lparr>db_tickets := map ?res (db_tickets ?db1)\<rparr>) \<longleftrightarrow> hash' = seen"
    using assms(4-6)
    by (auto simp: gate_opens_def gm md op fresh_row_for_def resolved_row_def)
  with closed1 sub db1 show ?thesis
    by (auto simp: Let_def split: prod.splits)
qed


theorem approval_opens_gate_witness:
  "let (res, db1) = before_handler_execution 7 (Inr (Some ''h'')) sample_ctx (forge_run [''t''] sample_gate_ops);
      (out, db2) = submit_review 8 (\<lambda>_. []) (Inr \<lparr>sa_ticket_id = kr_ticket_id (last (db_tickets db1)),
        sa_verdict = VerdictApprove, sa_findings = None, sa_category = None\<rparr>) (Inr (Some ''k''))
        (Inr None) (\<lambda>_. []) (tool_call.make ''c'' ''submit_review'' JNull None) db1
    in \<not> gate_opens ''t'' (Some ''k'') db1 \<and> tr_status (to_model_result out) = ToolSuccess \<and>
       (gate_opens ''t'' (Some ''k'') db2 \<longleftrightarrow> Some ''k'' = Some ''k'')"
  by (rule approval_opens_gate [OF _ sample_ctx_ok sample_gate_db(1) _ _ sample_gate_closed])
    (simp_all add: sample_gate_ops_def [symmetric] sample_gate_db mode_for_goal_def mode_from_row_def
      open_rows_def fresh_goal_def, simp add: sample_gate_ops_def)

text \<open>A restart of the process: the counters begin again, the rows stay.\<close>

definition restart_process :: "index_db \<Rightarrow> index_db" where
  "restart_process db = db\<lparr>db_next_goal := 1, db_next_ticket := 1, db_next_question := 1\<rparr>"

text \<open>Across a restart the gate can overlook an approval: the order of tickets restarts with the
  process, so after two tickets of an earlier process the first ticket of the new one is not the
  latest, and its approval for exactly the present content does not open the gate.\<close>

theorem restart_hides_approval:
  "let db0 = forge_run [''t''] (sample_gate_ops @
         [FoMint 7 ''goal_5_1'' (Some ''h1''), FoMint 8 ''goal_5_1'' (Some ''h2'')]);
       (ticket, db1) = mint_ticket 9 ''goal_5_1'' (Some ''h3'') (restart_process db0);
       db2 = snd (resolve_ticket_with_category 10 (rt_ticket_id ticket) VerdictApprove (Some ''h3'')
               None None db1)
   in latest_fresh_approval ''goal_5_1'' (Some ''h3'') db2 = Inr None \<and>
      map kr_status (db_tickets db2) = [''pending'', ''pending'', ''approved''] \<and>
      kr_reviewed_hash (last (db_tickets db2)) = Some ''h3''"
proof -
  have ids: "show_int 8 = ''8''" "show_int 9 = ''9''" by code_simp+
  show ?thesis
    by (simp add: forge_run_def sample_gate_ops_def db_new_def insert_thread_goal_def
      new_goal_id_def Let_def set_mode_def fresh_row_def next_goal_id_def show_int_5 ids
      show_nat_small mint_ticket_def u64_as_i64_def u64_wrap_succ_def restart_process_def
      resolve_ticket_with_category_def latest_fresh_approval_def latest_ticket_def tickets_desc_def
      review_ticket_from_row_def review_status_from_str_def numeral_2_eq_2 [symmetric])
qed

text \<open>The mode of a goal is stored faithfully: what was set for a goal is read back, other goals
  keep theirs, replacing the mode of a thread's goal leaves every other goal of the thread standard,
  unknown threads are refused, and the migration at start-up changes no stored mode.\<close>

theorem goal_mode_roundtrip:
  "case set_mode now t g m db of
     (Inl _, db') \<Rightarrow> t \<notin> set (db_threads db) \<and> db' = db
   | (Inr _, db') \<Rightarrow> t \<in> set (db_threads db) \<and>
       mode_for_goal t' g' db' = (if (t', g') = (t, g) then m else mode_for_goal t' g' db) \<and>
       mode_for_goal t g (migrate_modes db') = m \<and>
       (case replace_for_thread_goal now t g m db of (r, db2) \<Rightarrow> r = Inr () \<and>
          mode_for_goal t' g' db2 = (if (t', g') = (t, g) then m else if t' = t then ModeStandard
            else mode_for_goal t' g' db))"
  by (cases m)
    (auto simp: set_mode_def mode_for_goal_def mode_from_row_def migrate_modes_def
      migrate_mode_row_def replace_for_thread_goal_def clear_modes_for_thread_def Let_def)

text \<open>Escalation follows the latest review: a goal without a rejected latest ticket is left
  alone, a rejection for an external reason blocks, one that needs the user pauses the goal only
  when a question is in fact open, and anything else becomes guidance for the next turn.\<close>

theorem escalation_follows_latest_review:
  assumes "length ops < 2 ^ 62"
  shows "let db = forge_run ts ops in
    case newest_row g db of
      None \<Rightarrow> decision_for_goal g db = Inr EscNone
    | Some r \<Rightarrow>
        if kr_status r \<noteq> ''rejected'' then decision_for_goal g db = Inr EscNone
        else (\<exists>key content. decision_for_goal g db = Inr
          (if kr_reject_category r = Some ''external_blocker'' then EscBlockedExternal key content
           else if kr_reject_category r = Some ''needs_user'' \<and> open_rows g db \<noteq> []
           then EscPauseForQuestions key content else EscActiveGuidance key content))"
proof -
  let ?db = "forge_run ts ops"
  have ok: "forge_ok ?db" using forge_run_ok [OF assms] by simp
  show ?thesis
  proof (cases "newest_row g ?db")
    case None
    then show ?thesis by (simp add: decision_for_goal_def latest_ticket_row [OF ok])
  next
    case (Some r)
    then have "ticket_row_ok r" using newest_row_in ok by (auto simp: forge_ok_def list_all_iff)
    from decode_ticket [OF this] obtain t where t: "review_ticket_from_row r = Inr t"
      "kr_status r = review_status_as_str (rt_status t)"
      "kr_reject_category r = map_option reject_category_as_str (rt_reject_category t)" by blast
    obtain qs where qs: "unresolved_for_goal g ?db = Inr qs" "qs = [] \<longleftrightarrow> open_rows g ?db = []"
      using unresolved_rows [of g ?db] by force
    have "\<exists>x. review_ticket_from_row r = Inr x" if "r \<in> set (tickets_desc g ?db)" for r
      using that ok decode_ticket [of r] by (auto simp: tickets_desc_rev forge_ok_def list_all_iff)
    then obtain ts' where "decode_rows review_ticket_from_row (tickets_desc g ?db) = Inr ts'"
      using decode_rows_length [of "tickets_desc g ?db" review_ticket_from_row] by blast
    then obtain n where n: "consecutive_stuck_count g ?db = Inr n"
      by (cases ts'; cases "rt_status (hd ts') = ReviewRejected") (simp_all add: consecutive_stuck_count_def)
    have cat: "reject_category_as_str c = ''external_blocker'' \<longleftrightarrow> c = ExternalBlocker"
      "reject_category_as_str c = ''needs_user'' \<longleftrightarrow> c = NeedsUser" for c
      by (cases c; simp)+
    show ?thesis
      using Some t qs n
      by (cases "rt_reject_category t")
        (auto simp: decision_for_goal_def latest_ticket_row [OF ok] rejected_label Let_def cat
          guidance_from_ticket_def split: review_reject_category.splits)
  qed
qed

theorem escalation_follows_latest_review_witness:
  "decision_for_goal ''goal_5_1'' (forge_run [''t''] sample_gate_ops) = Inr EscNone"
  using escalation_follows_latest_review [of sample_gate_ops "[''t'']" "''goal_5_1''"]
  by (simp add: sample_gate_db newest_row_def sample_gate_ops_def [symmetric])
    (simp add: sample_gate_ops_def sample_gate_db)

end
