(* ===== verification/Context.thy ===== *)
theory Context
  imports Rollout Mail
begin

text \<open>
  The context manager of a thread (\<^verbatim>\<open>src/runtime/context.rs\<close>): the model-visible
  history, the injected contexts around it, the messages that announce the runtime context of a
  turn, and the token estimates; and the compaction of a history
  (\<^verbatim>\<open>src/runtime/compaction.rs\<close>). The text of the plan-mode overlay and the summary the
  model writes are parameters; strings are byte strings, so their length is the one Rust reports.
\<close>

section \<open>The manager\<close>

record context_manager =
  cx_items :: "conversation_message list"
  cx_stable :: "(string, conversation_message) hmap"
  cx_ephemeral :: "(string, conversation_message) hmap"
  cx_history_version :: nat
  cx_reference :: "turn_context_item option"
  cx_token_info :: "token_usage_info option"

definition context_new :: context_manager where
  "context_new = \<lparr>cx_items = [], cx_stable = [], cx_ephemeral = [], cx_history_version = 0,
     cx_reference = None, cx_token_info = None\<rparr>"

definition btree_values :: "(string, 'v) hmap \<Rightarrow> 'v list" where
  "btree_values m = map snd (sort_key fst m)"

definition record_items :: "conversation_message list \<Rightarrow> context_manager \<Rightarrow> context_manager" where
  "record_items ms c =
     (let c1 = c\<lparr>cx_items := cx_items c @ ms\<rparr>
      in if length (cx_items c1) \<noteq> length (cx_items c)
         then c1\<lparr>cx_history_version := u64_sat_add (cx_history_version c) 1\<rparr> else c1)"

definition upsert_ephemeral_internal_context ::
  "string \<Rightarrow> conversation_message \<Rightarrow> context_manager \<Rightarrow> context_manager" where
  "upsert_ephemeral_internal_context source m c =
     c\<lparr>cx_ephemeral := AList.update source (m\<lparr>cm_internal_source := Some source\<rparr>) (cx_ephemeral c)\<rparr>"

definition upsert_stable_internal_context ::
  "string \<Rightarrow> conversation_message \<Rightarrow> context_manager \<Rightarrow> context_manager" where
  "upsert_stable_internal_context source m c =
     c\<lparr>cx_stable := AList.update source (m\<lparr>cm_internal_source := Some source\<rparr>) (cx_stable c)\<rparr>"

definition clear_stable_internal_context :: "string \<Rightarrow> context_manager \<Rightarrow> context_manager" where
  "clear_stable_internal_context source c = c\<lparr>cx_stable := AList.delete source (cx_stable c)\<rparr>"

definition clear_ephemeral_internal_context :: "string \<Rightarrow> context_manager \<Rightarrow> context_manager" where
  "clear_ephemeral_internal_context source c =
     c\<lparr>cx_ephemeral := AList.delete source (cx_ephemeral c)\<rparr>"

definition clear_ephemeral_internal_context_prefix ::
  "string \<Rightarrow> context_manager \<Rightarrow> context_manager" where
  "clear_ephemeral_internal_context_prefix pre c =
     c\<lparr>cx_ephemeral := hm_retain (\<lambda>source _. \<not> starts_with source pre) (cx_ephemeral c)\<rparr>"

definition record_persistent_internal_context ::
  "string \<Rightarrow> string \<Rightarrow> context_manager \<Rightarrow> conversation_message \<times> context_manager" where
  "record_persistent_internal_context source content c =
     (let m = msg_injected_user_context source content in (m, record_items [m] c))"

definition replace_history ::
  "conversation_message list \<Rightarrow> turn_context_item option \<Rightarrow> context_manager \<Rightarrow> context_manager"
  where
  "replace_history items ref c =
     c\<lparr>cx_items := items, cx_reference := ref, cx_token_info := None,
       cx_history_version := u64_sat_add (cx_history_version c) 1\<rparr>"

definition set_reference_turn_context ::
  "turn_context_item option \<Rightarrow> context_manager \<Rightarrow> context_manager" where
  "set_reference_turn_context r c = c\<lparr>cx_reference := r\<rparr>"

definition set_token_info :: "token_usage_info option \<Rightarrow> context_manager \<Rightarrow> context_manager" where
  "set_token_info i c = c\<lparr>cx_token_info := i\<rparr>"

definition update_token_info_from_usage ::
  "token_usage \<Rightarrow> int option \<Rightarrow> context_manager \<Rightarrow> context_manager" where
  "update_token_info_from_usage u window c =
     c\<lparr>cx_token_info := new_or_append (cx_token_info c) (Some u) window\<rparr>"

definition set_token_usage_full :: "int \<Rightarrow> context_manager \<Rightarrow> context_manager" where
  "set_token_usage_full w c = c\<lparr>cx_token_info := Some (full_context_window w)\<rparr>"

definition record_inter_agent_communications ::
  "(mail_envelope \<Rightarrow> error + string) \<Rightarrow> mail list \<Rightarrow> context_manager \<Rightarrow>
   conversation_message list \<times> context_manager" where
  "record_inter_agent_communications pr mails c =
     (let ms = map (to_conversation_message pr) mails in (ms, record_items ms c))"

definition context_step :: "context_manager \<Rightarrow> rollout_item \<Rightarrow> context_manager" where
  "context_step c item =
     (case item of
        ResponseItem r \<Rightarrow> record_items [ri_message r] c
      | TurnContext t \<Rightarrow> set_reference_turn_context (Some t) c
      | Compacted k \<Rightarrow> (case ci_replacement_history k of None \<Rightarrow> c
                       | Some h \<Rightarrow> replace_history h None c)
      | EventMsg e \<Rightarrow> (case ev_kind e of EkTokenCount info \<Rightarrow> set_token_info info c | _ \<Rightarrow> c)
      | ThreadMeta _ \<Rightarrow> c
      | WorkflowRun _ \<Rightarrow> c)"

definition context_from_rollout_items :: "rollout_item list \<Rightarrow> context_manager" where
  "context_from_rollout_items items = foldl context_step context_new items"

definition sync_snapshot :: "context_manager \<Rightarrow> thread_snapshot \<Rightarrow> thread_snapshot" where
  "sync_snapshot c sn = sn\<lparr>sn_conversation := cx_items c,
     sn_reference_turn_context := cx_reference c, sn_token_info := cx_token_info c\<rparr>"

section \<open>Prompts\<close>

definition strip_images_when_unsupported ::
  "input_modality list \<Rightarrow> conversation_message list \<Rightarrow> conversation_message list" where
  "strip_images_when_unsupported mods ms =
     (if supports_images mods then ms else strip_images_from_messages ms)"

definition for_prompt :: "input_modality list \<Rightarrow> context_manager \<Rightarrow> conversation_message list" where
  "for_prompt mods c = strip_images_when_unsupported mods
     (btree_values (cx_stable c) @ cx_items c @ btree_values (cx_ephemeral c))"

definition for_compaction ::
  "input_modality list \<Rightarrow> context_manager \<Rightarrow> conversation_message list" where
  "for_compaction mods c = strip_images_when_unsupported mods (cx_items c)"

section \<open>Announcing the context of a turn\<close>

definition mode_label :: "thinking_mode option \<Rightarrow> string" where
  "mode_label m = (case m of None \<Rightarrow> ''default'' | Some m \<Rightarrow> thinking_mode_label m)"

definition build_initial_context_messages ::
  "(turn_mode \<Rightarrow> string option) \<Rightarrow> turn_context_item \<Rightarrow> conversation_message list" where
  "build_initial_context_messages overlay t =
     (let sp = nl @ ''             - '';
          turn_mode_line = (if turn_mode_is_default (tc_turn_mode t) then []
            else sp @ ''Turn mode: '' @ turn_mode_as_str (tc_turn_mode t));
          agent_type_line = (case tc_agent_type t of None \<Rightarrow> []
            | Some a \<Rightarrow> sp @ ''Agent type: '' @ agent_type_as_str a);
          role_line = (case tc_agent_role t of None \<Rightarrow> [] | Some r \<Rightarrow> sp @ ''Agent role: '' @ r);
          profile_block =
            (case (tc_agent_profile_instructions t, tc_agent_response_guidance t) of
               (Some i, Some g) \<Rightarrow> nl @ nl @ ''Agent profile instructions:'' @ nl @ i @ nl @ nl @
                 ''Response guidance:'' @ nl @ g
             | _ \<Rightarrow> []);
          turn_mode_block = (case overlay (tc_turn_mode t) of None \<Rightarrow> []
            | Some g \<Rightarrow> nl @ nl @ ''Turn mode guidance:'' @ nl @ g);
          guidance_block = profile_block @ turn_mode_block
      in [msg_injected_system
           (''Runtime context:'' @ nl @
            ''- Model: '' @ model_ref_display (tc_model t) @ nl @
            ''- Thinking mode: '' @ mode_label (tc_thinking_mode t) @ nl @
            ''- Policy mode: '' @ policy_mode_as_str (tc_policy_mode t) @ nl @
            ''- Permission profile: '' @ permission_profile_as_str (tc_permission_profile t) @
              '' ('' @ execution_boundary_summary (tc_permission_profile t) @ '')'' @ nl @
            ''- Command timeout: '' @ show_nat (tc_command_timeout_secs t) @ ''s'' @ nl @
            ''- Max command output: '' @ show_nat (tc_max_output_bytes t) @ '' bytes'' @
            turn_mode_line @ agent_type_line @ role_line @ guidance_block @ nl @
            ''- Treat the workspace root as the project boundary for file and command operations.''),
          msg_injected_system
           (''Environment context:'' @ nl @
            ''- Workspace root: '' @ tc_workspace_root t @ nl @
            ''- Current working directory: '' @ tc_cwd t @ nl @
            ''- Current UTC date: '' @
              (case tc_current_utc_date t of None \<Rightarrow> ''unknown'' | Some d \<Rightarrow> d))])"

definition push_changed :: "string \<Rightarrow> string \<Rightarrow> string \<Rightarrow> string list \<Rightarrow> string list" where
  "push_changed label previous current updates =
     (if previous \<noteq> current
      then updates @ [''- '' @ label @ '': '' @ previous @ '' -> '' @ current] else updates)"

definition push_changed_opt ::
  "string \<Rightarrow> string option \<Rightarrow> string option \<Rightarrow> string list \<Rightarrow> string list" where
  "push_changed_opt label previous current =
     push_changed label (case previous of None \<Rightarrow> ''unknown'' | Some s \<Rightarrow> s)
       (case current of None \<Rightarrow> ''unknown'' | Some s \<Rightarrow> s)"

definition runtime_updates :: "turn_context_item \<Rightarrow> turn_context_item \<Rightarrow> string list" where
  "runtime_updates p t =
     fold (\<lambda>f. f)
     [push_changed ''Model'' (model_ref_display (tc_model p)) (model_ref_display (tc_model t)),
      push_changed ''Thinking mode'' (mode_label (tc_thinking_mode p)) (mode_label (tc_thinking_mode t)),
      push_changed ''Policy mode'' (policy_mode_as_str (tc_policy_mode p))
        (policy_mode_as_str (tc_policy_mode t)),
      push_changed ''Permission profile'' (permission_profile_as_str (tc_permission_profile p))
        (permission_profile_as_str (tc_permission_profile t)),
      push_changed ''Command timeout'' (show_nat (tc_command_timeout_secs p) @ ''s'')
        (show_nat (tc_command_timeout_secs t) @ ''s''),
      push_changed ''Max command output'' (show_nat (tc_max_output_bytes p) @ '' bytes'')
        (show_nat (tc_max_output_bytes t) @ '' bytes''),
      push_changed ''Turn mode'' (turn_mode_as_str (tc_turn_mode p)) (turn_mode_as_str (tc_turn_mode t)),
      push_changed_opt ''Agent type'' (map_option agent_type_as_str (tc_agent_type p))
        (map_option agent_type_as_str (tc_agent_type t)),
      push_changed_opt ''Agent role'' (tc_agent_role p) (tc_agent_role t),
      push_changed_opt ''Agent profile instructions'' (tc_agent_profile_instructions p)
        (tc_agent_profile_instructions t),
      push_changed_opt ''Agent response guidance'' (tc_agent_response_guidance p)
        (tc_agent_response_guidance t)] []"

definition environment_updates :: "turn_context_item \<Rightarrow> turn_context_item \<Rightarrow> string list" where
  "environment_updates p t =
     fold (\<lambda>f. f)
     [push_changed ''Workspace root'' (tc_workspace_root p) (tc_workspace_root t),
      push_changed ''Current working directory'' (tc_cwd p) (tc_cwd t),
      push_changed_opt ''Current UTC date'' (tc_current_utc_date p) (tc_current_utc_date t)] []"

definition build_context_update_messages ::
  "turn_context_item \<Rightarrow> turn_context_item \<Rightarrow> conversation_message list" where
  "build_context_update_messages p t =
     (if runtime_updates p t \<noteq> []
      then [msg_injected_system (''Runtime context updated:'' @ nl @ join nl (runtime_updates p t))]
      else []) @
     (if environment_updates p t \<noteq> []
      then [msg_injected_system
              (''Environment context updated:'' @ nl @ join nl (environment_updates p t))]
      else [])"

definition apply_context_updates ::
  "(turn_mode \<Rightarrow> string option) \<Rightarrow> turn_context_item \<Rightarrow> context_manager \<Rightarrow>
   conversation_message list \<times> context_manager" where
  "apply_context_updates overlay t c =
     (let ms = (case cx_reference c of Some p \<Rightarrow> build_context_update_messages p t
                | None \<Rightarrow> build_initial_context_messages overlay t);
          c1 = (if ms \<noteq> [] then record_items ms c else c)
      in (ms, c1\<lparr>cx_reference := Some t\<rparr>))"

section \<open>Token estimates\<close>

fun role_name :: "message_role \<Rightarrow> string" where
  "role_name System = ''system''"
| "role_name User = ''user''"
| "role_name Assistant = ''assistant''"
| "role_name Tool = ''tool''"

definition string_bytes :: "string \<Rightarrow> int" where
  "string_bytes s = (if int (length s) \<le> i64_max then int (length s) else i64_max)"

text \<open>The dividend is never negative, so the floor is Rust's division.\<close>

definition bytes_to_tokens :: "int \<Rightarrow> int" where
  "bytes_to_tokens b = sat_add b 3 div 4"

definition sat_sum :: "int list \<Rightarrow> int" where
  "sat_sum xs = foldl sat_add 0 xs"

fun estimate_json_value_bytes :: "json \<Rightarrow> int" where
  "estimate_json_value_bytes JNull = string_bytes ''null''"
| "estimate_json_value_bytes (JBool b) = string_bytes (if b then ''true'' else ''false'')"
| "estimate_json_value_bytes (JNumber n) = string_bytes n"
| "estimate_json_value_bytes (JString s) = string_bytes s"
| "estimate_json_value_bytes (JArray vs) = sat_sum (map estimate_json_value_bytes vs)"
| "estimate_json_value_bytes (JObject kvs) =
     sat_sum (map (\<lambda>(k, v). sat_add (string_bytes k) (estimate_json_value_bytes v)) kvs)"

definition tool_call_bytes :: "int \<Rightarrow> tool_call \<Rightarrow> int" where
  "tool_call_bytes b call =
     sat_add (sat_add (sat_add b (string_bytes (tc_id call))) (string_bytes (tc_name call)))
       (estimate_json_value_bytes (tc_arguments call))"

definition estimate_message_tokens :: "conversation_message \<Rightarrow> int" where
  "estimate_message_tokens m =
     (let b0 = string_bytes (role_name (cm_role m));
          b1 = sat_add b0 (string_bytes (cm_content m));
          b2 = (case cm_tool_call_id m of None \<Rightarrow> b1 | Some i \<Rightarrow> sat_add b1 (string_bytes i));
          b3 = foldl tool_call_bytes b2 (cm_tool_calls m);
          b4 = (if cm_injected m then sat_add b3 (string_bytes ''injected'') else b3)
      in bytes_to_tokens b4)"

definition estimate_token_count :: "context_manager \<Rightarrow> int" where
  "estimate_token_count c = sat_sum (map estimate_message_tokens (cx_items c))"

definition after_last_assistant :: "conversation_message list \<Rightarrow> conversation_message list" where
  "after_last_assistant ms =
     (if list_ex (\<lambda>m. cm_role m = Assistant) ms
      then rev (takeWhile (\<lambda>m. cm_role m \<noteq> Assistant) (rev ms)) else [])"

definition active_context_tokens :: "context_manager \<Rightarrow> int" where
  "active_context_tokens c =
     (case cx_token_info c of
        None \<Rightarrow> estimate_token_count c
      | Some info \<Rightarrow> sat_add (tu_total (ti_last info))
          (sat_sum (map estimate_message_tokens (after_last_assistant (cx_items c)))))"

section \<open>Compaction\<close>

record compaction_result =
  co_summary :: string
  co_replacement_history :: "conversation_message list"

definition sanitize_history_for_compaction ::
  "conversation_message list \<Rightarrow> conversation_message list" where
  "sanitize_history_for_compaction ms =
     map (\<lambda>m. m\<lparr>cm_reasoning := [],
       cm_tool_calls := map (\<lambda>c. c\<lparr>tc_thought_signature := None\<rparr>) (cm_tool_calls m)\<rparr>) ms"

text \<open>\<open>pretty\<close>: the pretty printer of \<^verbatim>\<open>serde_json\<close>; \<open>prompt\<close>: the constant
  \<^verbatim>\<open>DEFAULT_COMPACT_PROMPT\<close>; \<open>model\<close>: the sampling of one assistant turn, without tools.\<close>

definition build_compaction_prompt ::
  "(conversation_message list \<Rightarrow> error + string) \<Rightarrow> string \<Rightarrow> conversation_message list \<Rightarrow>
   error + conversation_message list" where
  "build_compaction_prompt pretty prompt history =
     bind_res (pretty (sanitize_history_for_compaction history))
       (\<lambda>text. Inr [msg_system prompt, msg_user text])"

definition compact_history ::
  "(conversation_message list \<Rightarrow> error + string) \<Rightarrow> string \<Rightarrow>
   (conversation_message list \<Rightarrow> error + assistant_turn) \<Rightarrow> conversation_message list \<Rightarrow>
   error + compaction_result" where
  "compact_history pretty prompt model history =
     bind_res (build_compaction_prompt pretty prompt history) (\<lambda>p.
       bind_res (model p) (\<lambda>turn.
         let summary = trim (case at_text turn of None \<Rightarrow> [] | Some t \<Rightarrow> t)
         in if summary = [] then Inl (Anyhow ''empty compaction summary'')
            else Inr \<lparr>co_summary = summary, co_replacement_history =
              [msg_injected_system (''Conversation summary so far:'' @ nl @ summary)]\<rparr>))"

section \<open>Lemmas on the manager\<close>

lemma record_items_fields [simp]:
  "cx_items (record_items ms c) = cx_items c @ ms"
  "cx_stable (record_items ms c) = cx_stable c"
  "cx_ephemeral (record_items ms c) = cx_ephemeral c"
  "cx_reference (record_items ms c) = cx_reference c"
  "cx_token_info (record_items ms c) = cx_token_info c"
  by (simp_all add: record_items_def Let_def)

lemma record_items_Nil [simp]: "record_items [] c = c"
  by (simp add: record_items_def)

text \<open>What a turn context announces to the model.\<close>

definition or_unknown :: "string option \<Rightarrow> string" where
  "or_unknown s = (case s of None \<Rightarrow> ''unknown'' | Some s \<Rightarrow> s)"

definition same_announcement :: "turn_context_item \<Rightarrow> turn_context_item \<Rightarrow> bool" where
  "same_announcement p t \<longleftrightarrow>
     model_ref_display (tc_model p) = model_ref_display (tc_model t) \<and>
     tc_thinking_mode p = tc_thinking_mode t \<and> tc_policy_mode p = tc_policy_mode t \<and>
     tc_permission_profile p = tc_permission_profile t \<and>
     tc_command_timeout_secs p = tc_command_timeout_secs t \<and>
     tc_max_output_bytes p = tc_max_output_bytes t \<and> tc_turn_mode p = tc_turn_mode t \<and>
     tc_agent_type p = tc_agent_type t \<and> or_unknown (tc_agent_role p) = or_unknown (tc_agent_role t) \<and>
     or_unknown (tc_agent_profile_instructions p) = or_unknown (tc_agent_profile_instructions t) \<and>
     or_unknown (tc_agent_response_guidance p) = or_unknown (tc_agent_response_guidance t) \<and>
     tc_workspace_root p = tc_workspace_root t \<and> tc_cwd p = tc_cwd t \<and>
     or_unknown (tc_current_utc_date p) = or_unknown (tc_current_utc_date t)"

lemma same_announcement_refl [simp]: "same_announcement t t"
  by (simp add: same_announcement_def)

lemma push_changed_Nil:
  "push_changed l a b us = [] \<longleftrightarrow> us = [] \<and> a = b"
  "push_changed_opt l x y us = [] \<longleftrightarrow> us = [] \<and> or_unknown x = or_unknown y"
  by (simp_all add: push_changed_def push_changed_opt_def or_unknown_def)

lemma changed_label_inj:
  "mode_label m = mode_label m' \<longleftrightarrow> m = m'"
  "policy_mode_as_str q = policy_mode_as_str q' \<longleftrightarrow> q = q'"
  "permission_profile_as_str r = permission_profile_as_str r' \<longleftrightarrow> r = r'"
  "turn_mode_as_str u = turn_mode_as_str u' \<longleftrightarrow> u = u'"
  "or_unknown (map_option agent_type_as_str a) = or_unknown (map_option agent_type_as_str a') \<longleftrightarrow> a = a'"
proof -
  show "mode_label m = mode_label m' \<longleftrightarrow> m = m'"
    by (cases "the m"; cases "the m'"; cases m; cases m') (simp_all add: mode_label_def)
  show "policy_mode_as_str q = policy_mode_as_str q' \<longleftrightarrow> q = q'" by (cases q; cases q') simp_all
  show "permission_profile_as_str r = permission_profile_as_str r' \<longleftrightarrow> r = r'"
    by (cases r; cases r') simp_all
  show "turn_mode_as_str u = turn_mode_as_str u' \<longleftrightarrow> u = u'" by (cases u; cases u') simp_all
  show "or_unknown (map_option agent_type_as_str a) = or_unknown (map_option agent_type_as_str a') \<longleftrightarrow> a = a'"
    by (cases "the a"; cases "the a'"; cases a; cases a') (simp_all add: or_unknown_def)
qed

lemma update_messages_Nil: "build_context_update_messages p t = [] \<longleftrightarrow> same_announcement p t"
  by (simp add: build_context_update_messages_def runtime_updates_def environment_updates_def
    push_changed_Nil changed_label_inj show_nat_inj same_announcement_def)

lemma announcements_injected:
  "list_all (\<lambda>m. cm_role m = System \<and> cm_injected m) (build_context_update_messages p t)"
  "list_all (\<lambda>m. cm_role m = System \<and> cm_injected m) (build_initial_context_messages ov t)"
  "length (build_initial_context_messages ov t) = 2"
  by (simp_all add: build_context_update_messages_def build_initial_context_messages_def
    msg_injected_system_def msg_system_def Let_def)

section \<open>Lemmas on the estimates\<close>

lemma sat_sum_bounds:
  assumes "\<forall>x \<in> set xs. 0 \<le> x"
  shows "sat_sum xs = min (sum_list xs) i64_max"
  using assms
proof (induction xs rule: rev_induct)
  case Nil
  then show ?case by (simp add: sat_sum_def i64_max_def)
next
  case (snoc x xs)
  then have "0 \<le> sum_list xs" "0 \<le> x" by (auto intro: sum_list_nonneg)
  moreover have "sat_sum (xs @ [x]) = sat_add (sat_sum xs) x" by (simp add: sat_sum_def)
  ultimately show ?case using snoc
    by (auto simp: sat_add_def clamp_i64_def i64_min_def i64_max_def min_def max_def)
qed

lemma sat_sum_nonneg: "(\<And>x. x \<in> set xs \<Longrightarrow> 0 \<le> x) \<Longrightarrow> 0 \<le> sat_sum xs"
  by (simp add: sat_sum_bounds sum_list_nonneg i64_max_def)

lemma string_bytes_nonneg [simp]: "0 \<le> string_bytes s" "string_bytes s \<le> i64_max"
  by (simp_all add: string_bytes_def i64_max_def)

lemma sat_add_le_max [simp]: "sat_add a b \<le> i64_max"
  by (simp add: sat_add_def clamp_i64_def i64_min_def i64_max_def)

lemma estimate_json_nonneg [simp]: "0 \<le> estimate_json_value_bytes v"
proof (induction v)
  case (JArray vs)
  then show ?case by (auto intro!: sat_sum_nonneg)
next
  case (JObject kvs)
  then show ?case by (auto intro!: sat_sum_nonneg sat_add_nonneg)
qed simp_all

lemma tool_call_bytes_ge: "0 \<le> b \<Longrightarrow> b \<le> i64_max \<Longrightarrow> b \<le> tool_call_bytes b call"
proof -
  assume b: "0 \<le> b" "b \<le> i64_max"
  have step: "b \<le> c \<Longrightarrow> c \<le> i64_max \<Longrightarrow> 0 \<le> x \<Longrightarrow> b \<le> sat_add c x" for c x
    using b sat_add_ge_left [of c x] by (auto simp: is_i64_def i64_min_def)
  show ?thesis unfolding tool_call_bytes_def
    by (intro step) (simp_all add: b)
qed

lemma estimate_message_ge_1:
  "1 \<le> estimate_message_tokens m" "estimate_message_tokens m \<le> i64_max"
proof -
  have role: "4 \<le> string_bytes (role_name (cm_role m))"
    by (cases "cm_role m") (simp_all add: string_bytes_def i64_max_def)
  have ge: "4 \<le> sat_add b x" if "4 \<le> b" "b \<le> i64_max" "0 \<le> x" for b x
    using that sat_add_ge_left [of b x] by (auto simp: is_i64_def i64_min_def)
  have fold: "4 \<le> foldl tool_call_bytes b cs \<and> foldl tool_call_bytes b cs \<le> i64_max"
    if "4 \<le> b" "b \<le> i64_max" for b cs
    using that
  proof (induction cs arbitrary: b)
    case (Cons c cs)
    from Cons.prems have "4 \<le> tool_call_bytes b c" "tool_call_bytes b c \<le> i64_max"
      using tool_call_bytes_ge [of b c] by (auto simp: tool_call_bytes_def)
    with Cons.IH show ?case by simp
  qed simp
  have tok: "1 \<le> bytes_to_tokens b \<and> bytes_to_tokens b \<le> i64_max" if "4 \<le> b" "b \<le> i64_max" for b
    using that by (auto simp: bytes_to_tokens_def sat_add_def clamp_i64_def i64_min_def i64_max_def)
  show "1 \<le> estimate_message_tokens m" "estimate_message_tokens m \<le> i64_max"
    unfolding estimate_message_tokens_def Let_def
    by (cases "cm_tool_call_id m"; cases "cm_injected m"; simp; intro tok fold [THEN conjunct1]
      fold [THEN conjunct2] conjunct1 [OF tok] conjunct2 [OF tok] ge role; simp)+
qed

section \<open>Properties\<close>

text \<open>Announcing the context of a turn: a thread without a reference context is told everything
  in two messages, one with a reference context is told exactly when something it can see changed,
  everything announced is an injected system message appended to the history, and announcing the
  same context again says nothing.\<close>

theorem context_announcement_exact:
  "let (ms, c') = apply_context_updates overlay t c in
     cx_items c' = cx_items c @ ms \<and> cx_reference c' = Some t \<and> cx_token_info c' = cx_token_info c \<and>
     list_all (\<lambda>m. cm_role m = System \<and> cm_injected m) ms \<and>
     (case cx_reference c of None \<Rightarrow> length ms = 2 | Some p \<Rightarrow> ms = [] \<longleftrightarrow> same_announcement p t) \<and>
     fst (apply_context_updates overlay t c') = []"
proof -
  have again: "build_context_update_messages t t = []" by (simp add: update_messages_Nil)
  show ?thesis
    by (cases "cx_reference c")
      (auto simp: apply_context_updates_def Let_def announcements_injected update_messages_Nil again
        split: if_splits)
qed


end
