(* ===== verification/Overlay.thy ===== *)
theory Overlay
  imports Rollout
begin

text \<open>
  The runtime overlay of a thread (\<^verbatim>\<open>src/runtime/thread_session/overlay.rs\<close>): the
  pending approvals and user inputs, the open exec sessions and the active tool invocations, which
  live beside the snapshot; and its reconstruction from the persisted events.
\<close>

section \<open>The overlay\<close>

record active_invocation =
  ai_invocation_id :: string
  ai_tool_call_id :: string
  ai_tool_name :: string

record overlay =
  ov_exec_sessions :: "exec_session_ref list"
  ov_approvals :: "pending_approval list"
  ov_inputs :: "pending_user_input list"
  ov_active :: "active_invocation list"

definition overlay_default :: overlay where
  "overlay_default = \<lparr>ov_exec_sessions = [], ov_approvals = [], ov_inputs = [], ov_active = []\<rparr>"

datatype exec_session_update = EsRunning string string string | EsNotRunning string

fun update_session_id :: "exec_session_update \<Rightarrow> string" where
  "update_session_id (EsRunning i _ _) = i"
| "update_session_id (EsNotRunning i) = i"

definition apply_exec_session_update :: "exec_session_update \<Rightarrow> overlay \<Rightarrow> overlay" where
  "apply_exec_session_update u ov =
     (let rest = filter (\<lambda>e. es_exec_session_id e \<noteq> update_session_id u) (ov_exec_sessions ov)
      in ov\<lparr>ov_exec_sessions := (case u of
           EsRunning i cmd cwd \<Rightarrow> rest @ [\<lparr>es_exec_session_id = i, es_command = cmd, es_cwd = cwd,
             es_status = ExecRunning\<rparr>]
         | EsNotRunning _ \<Rightarrow> rest)\<rparr>)"

definition clear_approval :: "string \<Rightarrow> overlay \<Rightarrow> overlay" where
  "clear_approval i ov = ov\<lparr>ov_approvals := filter (\<lambda>a. pa_approval_id a \<noteq> i) (ov_approvals ov)\<rparr>"

definition clear_user_input :: "string \<Rightarrow> overlay \<Rightarrow> overlay" where
  "clear_user_input i ov = ov\<lparr>ov_inputs := filter (\<lambda>u. pu_request_id u \<noteq> i) (ov_inputs ov)\<rparr>"

definition apply_approval_requested ::
  "string \<Rightarrow> event_id \<Rightarrow> string \<Rightarrow> string \<Rightarrow> string option \<Rightarrow> permission_profile \<Rightarrow> string \<Rightarrow>
   string \<Rightarrow> string \<Rightarrow> overlay \<Rightarrow> overlay" where
  "apply_approval_requested i eid tool reason cp prof fs net env ov =
     (let ov1 = clear_approval i ov
      in ov1\<lparr>ov_approvals := ov_approvals ov1 @
           [\<lparr>pa_approval_id = i, pa_requested_event_id = eid, pa_tool_name = tool,
             pa_reason = reason, pa_checkpoint_id = cp, pa_permission_profile = prof,
             pa_filesystem_sandbox = fs, pa_network_sandbox = net, pa_env_isolation = env,
             pa_status = ApprovalPending\<rparr>]\<rparr>)"

definition apply_user_input_requested ::
  "string \<Rightarrow> event_id \<Rightarrow> string \<Rightarrow> question_prompt list \<Rightarrow> overlay \<Rightarrow> overlay" where
  "apply_user_input_requested i eid tool qs ov =
     (let ov1 = clear_user_input i ov
      in ov1\<lparr>ov_inputs := ov_inputs ov1 @
           [\<lparr>pu_request_id = i, pu_requested_event_id = eid, pu_tool_name = tool,
             pu_questions = qs, pu_status = ApprovalPending\<rparr>]\<rparr>)"

definition clear_pending_approvals :: "overlay \<Rightarrow> overlay" where
  "clear_pending_approvals ov = ov\<lparr>ov_approvals := []\<rparr>"

definition clear_pending_user_inputs :: "overlay \<Rightarrow> overlay" where
  "clear_pending_user_inputs ov = ov\<lparr>ov_inputs := []\<rparr>"

definition has_pending_approval :: "overlay \<Rightarrow> bool" where
  "has_pending_approval ov \<longleftrightarrow> list_ex (\<lambda>a. pa_status a = ApprovalPending) (ov_approvals ov)"

definition has_pending_user_input :: "overlay \<Rightarrow> bool" where
  "has_pending_user_input ov \<longleftrightarrow> list_ex (\<lambda>u. pu_status u = ApprovalPending) (ov_inputs ov)"

definition clear_tool_invocation :: "string \<Rightarrow> overlay \<Rightarrow> overlay" where
  "clear_tool_invocation i ov = ov\<lparr>ov_active := filter (\<lambda>a. ai_invocation_id a \<noteq> i) (ov_active ov)\<rparr>"

definition mark_tool_invocation_active :: "active_invocation \<Rightarrow> overlay \<Rightarrow> overlay" where
  "mark_tool_invocation_active a ov =
     (let ov1 = clear_tool_invocation (ai_invocation_id a) ov
      in ov1\<lparr>ov_active := ov_active ov1 @ [a]\<rparr>)"

definition has_tool_invocation :: "string \<Rightarrow> overlay \<Rightarrow> bool" where
  "has_tool_invocation i ov \<longleftrightarrow> list_ex (\<lambda>a. ai_invocation_id a = i) (ov_active ov)"

definition take_active_tool_invocations :: "overlay \<Rightarrow> active_invocation list \<times> overlay" where
  "take_active_tool_invocations ov = (ov_active ov, ov\<lparr>ov_active := []\<rparr>)"

section \<open>Reconstruction\<close>

text \<open>The overlay with the invocations that wait for an approval or for the user.\<close>

record overlay_replay =
  or_overlay :: overlay
  or_approvals :: "string \<rightharpoonup> string"
  or_inputs :: "string \<rightharpoonup> string"

definition retain_not :: "string \<Rightarrow> (string \<rightharpoonup> string) \<Rightarrow> (string \<rightharpoonup> string)" where
  "retain_not i m = (\<lambda>k. case m k of None \<Rightarrow> None | Some v \<Rightarrow> if v = i then None else Some v)"

definition close_invocation :: "string \<Rightarrow> overlay_replay \<Rightarrow> overlay_replay" where
  "close_invocation ivk st =
     (let st1 = (case or_approvals st ivk of None \<Rightarrow> st
            | Some i \<Rightarrow> st\<lparr>or_approvals := (or_approvals st)(ivk := None),
                          or_overlay := clear_approval i (or_overlay st)\<rparr>)
      in case or_inputs st1 ivk of None \<Rightarrow> st1
         | Some i \<Rightarrow> st1\<lparr>or_inputs := (or_inputs st1)(ivk := None),
                        or_overlay := clear_user_input i (or_overlay st1)\<rparr>)"

definition overlay_step :: "overlay_replay \<Rightarrow> runtime_event \<Rightarrow> overlay_replay" where
  "overlay_step st e =
     (case ev_kind e of
        EkToolInvocationWaitingApproval ivk i _ \<Rightarrow>
          st\<lparr>or_approvals := (or_approvals st)(ivk \<mapsto> i)\<rparr>
      | EkToolInvocationWaitingUserInput ivk i _ \<Rightarrow>
          st\<lparr>or_inputs := (or_inputs st)(ivk \<mapsto> i)\<rparr>
      | EkToolInvocationCompleted ivk _ _ _ \<Rightarrow> close_invocation ivk st
      | EkToolInvocationFailed ivk _ _ _ \<Rightarrow> close_invocation ivk st
      | EkToolInvocationCancelled ivk _ _ _ \<Rightarrow> close_invocation ivk st
      | EkApprovalRequested i tool reason cp prof fs net env _ \<Rightarrow>
          st\<lparr>or_overlay := apply_approval_requested i (ev_event_id e) tool reason cp prof fs net env
               (or_overlay st)\<rparr>
      | EkApprovalDecision i _ _ \<Rightarrow>
          st\<lparr>or_overlay := clear_approval i (or_overlay st),
             or_approvals := retain_not i (or_approvals st)\<rparr>
      | EkUserInputRequested i tool qs \<Rightarrow>
          st\<lparr>or_overlay := apply_user_input_requested i (ev_event_id e) tool qs (or_overlay st)\<rparr>
      | EkUserInputResolved i _ \<Rightarrow>
          st\<lparr>or_overlay := clear_user_input i (or_overlay st),
             or_inputs := retain_not i (or_inputs st)\<rparr>
      | EkTurnInterrupted \<Rightarrow>
          st\<lparr>or_overlay := clear_pending_user_inputs (clear_pending_approvals (or_overlay st)),
             or_approvals := Map.empty, or_inputs := Map.empty\<rparr>
      | _ \<Rightarrow> st)"

definition overlay_replay_from_events :: "runtime_event list \<Rightarrow> overlay_replay" where
  "overlay_replay_from_events es = foldl overlay_step
     \<lparr>or_overlay = overlay_default, or_approvals = Map.empty, or_inputs = Map.empty\<rparr> es"

definition overlay_from_events :: "runtime_event list \<Rightarrow> overlay" where
  "overlay_from_events es = or_overlay (overlay_replay_from_events es)"

end
