(* ===== verification/ThreadSession.thy ===== *)
theory ThreadSession
  imports Context Overlay Policy
begin

text \<open>
  The session of a loaded thread (\<^verbatim>\<open>src/runtime/thread_session\<close>): the event recorder, the
  steps of a turn that change the history, compaction, interrupts, and the restoration of all of it
  from the rollout ledger. The ledger is the list of persisted items (its file is the subject of
  theory Rollout, and appending to it succeeds here); the live state behind the lock, the recorder
  and the context manager are one record; a turn step gets the caller's snapshot and returns it.
\<close>

section \<open>The session and its recorder\<close>

record live_session =
  ls_thread_id :: thread_id
  ls_ledger :: "rollout_item list"
  ls_next_event :: nat
  ls_cap :: nat
  ls_snapshot :: thread_snapshot
  ls_overlay :: overlay
  ls_events :: "runtime_event list"
  ls_context :: context_manager
  ls_inbox :: inbox

definition ledger_append :: "rollout_item list \<Rightarrow> live_session \<Rightarrow> live_session" where
  "ledger_append items s =
     s\<lparr>ls_ledger := ls_ledger s @ filter should_persist_rollout_item items\<rparr>"

definition map_overlay :: "(overlay \<Rightarrow> overlay) \<Rightarrow> live_session \<Rightarrow> live_session" where
  "map_overlay f s = s\<lparr>ls_overlay := f (ls_overlay s)\<rparr>"

definition map_context :: "(context_manager \<Rightarrow> context_manager) \<Rightarrow> live_session \<Rightarrow> live_session" where
  "map_context f s = s\<lparr>ls_context := f (ls_context s)\<rparr>"

text \<open>The live buffer keeps the last \<open>cap\<close> events.\<close>

definition push_live :: "nat \<Rightarrow> runtime_event list \<Rightarrow> runtime_event \<Rightarrow> runtime_event list" where
  "push_live cap es e = (let es1 = es @ [e] in drop (length es1 - cap) es1)"

definition event_id_of :: "nat \<Rightarrow> event_id" where
  "event_id_of n = ''evt_'' @ show_nat n"

definition reserve_event_id :: "live_session \<Rightarrow> event_id \<times> live_session" where
  "reserve_event_id s = (event_id_of (ls_next_event s), s\<lparr>ls_next_event := Suc (ls_next_event s)\<rparr>)"

definition record_reserved ::
  "thread_snapshot \<Rightarrow> turn_id option \<Rightarrow> event_id \<Rightarrow> runtime_event_kind \<Rightarrow> live_session \<Rightarrow> live_session"
  where
  "record_reserved sn turn eid kind s =
     (let e = \<lparr>ev_event_id = eid, ev_thread_id = ls_thread_id s, ev_turn_id = turn, ev_kind = kind\<rparr>;
          s1 = ledger_append [EventMsg e] s
      in s1\<lparr>ls_snapshot := sn, ls_events := push_live (ls_cap s1) (ls_events s1) e\<rparr>)"

definition record_event ::
  "thread_snapshot \<Rightarrow> turn_id option \<Rightarrow> runtime_event_kind \<Rightarrow> live_session \<Rightarrow> live_session" where
  "record_event sn turn kind s =
     (let (eid, s1) = reserve_event_id s in record_reserved sn turn eid kind s1)"

definition record_live_only ::
  "turn_id option \<Rightarrow> runtime_event_kind \<Rightarrow> live_session \<Rightarrow> live_session" where
  "record_live_only turn kind s =
     (let (eid, s1) = reserve_event_id s;
          e = \<lparr>ev_event_id = eid, ev_thread_id = ls_thread_id s1, ev_turn_id = turn, ev_kind = kind\<rparr>
      in s1\<lparr>ls_events := push_live (ls_cap s1) (ls_events s1) e\<rparr>)"

definition record_invocation_output_delta_if_active ::
  "turn_id option \<Rightarrow> string \<Rightarrow> exec_output_stream \<Rightarrow> string \<Rightarrow> nat \<Rightarrow> live_session \<Rightarrow> live_session"
  where
  "record_invocation_output_delta_if_active turn i stream chunk seq s =
     (if has_tool_invocation i (ls_overlay s)
      then record_live_only turn (EkToolInvocationOutputDelta i stream chunk seq) s else s)"

definition publish_snapshot :: "thread_snapshot \<Rightarrow> live_session \<Rightarrow> live_session" where
  "publish_snapshot sn s = s\<lparr>ls_snapshot := sn\<rparr>"

definition response_items :: "turn_id \<Rightarrow> conversation_message list \<Rightarrow> rollout_item list" where
  "response_items t ms = map (\<lambda>m. ResponseItem (response_item_for_turn t m)) ms"

section \<open>Recording a turn\<close>

definition record_token_count_event ::
  "turn_id option \<Rightarrow> thread_snapshot \<Rightarrow> live_session \<Rightarrow> thread_snapshot \<times> live_session" where
  "record_token_count_event turn sn s =
     (let sn1 = sync_snapshot (ls_context s) sn
      in (sn1, record_event sn1 turn (EkTokenCount (cx_token_info (ls_context s))) s))"

definition displayable_reasoning_parts :: "assistant_turn \<Rightarrow> (string list \<times> string list) option" where
  "displayable_reasoning_parts turn =
     (let content = filter (\<lambda>t. t \<noteq> [])
            (map (\<lambda>b. trim (rb_text b)) (filter (\<lambda>b. \<not> rb_redacted b) (at_reasoning turn)))
      in if content = [] then None else Some ([], content))"

definition record_assistant_turn ::
  "turn_id \<Rightarrow> assistant_turn \<Rightarrow> thread_snapshot \<Rightarrow> live_session \<Rightarrow> thread_snapshot \<times> live_session"
  where
  "record_assistant_turn t turn sn s =
     (let s1 = (case displayable_reasoning_parts turn of None \<Rightarrow> s
            | Some (summary, content) \<Rightarrow> record_event sn (Some t) (EkReasoning summary content) s);
          (sn2, s2) =
            (if at_text turn \<noteq> None \<or> at_tool_calls turn \<noteq> []
             then let m = msg_assistant_with_reasoning (at_text turn) (at_reasoning turn)
                            (at_tool_calls turn);
                      s' = map_context (record_items [m]) s1;
                      sn' = sync_snapshot (ls_context s') sn
                  in (sn', ledger_append (response_items t [m]) s')
             else (sn, s1))
      in (sn2, record_event sn2 (Some t) (EkAssistantTurn turn) s2))"

definition record_model_usage ::
  "turn_id \<Rightarrow> token_usage option \<Rightarrow> int option \<Rightarrow> thread_snapshot \<Rightarrow> live_session \<Rightarrow>
   thread_snapshot \<times> live_session" where
  "record_model_usage t usage window sn s =
     (case usage of None \<Rightarrow> (sn, s)
      | Some u \<Rightarrow> record_token_count_event (Some t) sn
          (map_context (update_token_info_from_usage u window) s))"

definition record_message ::
  "turn_id \<Rightarrow> conversation_message \<Rightarrow> thread_snapshot \<Rightarrow> live_session \<Rightarrow>
   thread_snapshot \<times> live_session" where
  "record_message t m sn s =
     (let s1 = map_context (record_items [m]) s;
          sn1 = sync_snapshot (ls_context s1) sn
      in (sn1, ledger_append (response_items t [m]) s1))"

text \<open>The interrupt of a running turn: the cancelled invocations get an answer, in order.\<close>

definition cancel_invocation ::
  "turn_id \<Rightarrow> active_invocation \<Rightarrow> thread_snapshot \<times> live_session \<Rightarrow> thread_snapshot \<times> live_session"
  where
  "cancel_invocation t a = (\<lambda>(sn, s).
     record_message t (msg_tool (ai_tool_call_id a) ''interrupted'') sn
       (record_event sn (Some t) (EkToolInvocationCancelled (ai_invocation_id a)
          (ai_tool_call_id a) (ai_tool_name a) ''interrupted'') s))"

definition record_turn_interrupted ::
  "turn_id \<Rightarrow> thread_snapshot \<Rightarrow> live_session \<Rightarrow> thread_snapshot \<times> live_session" where
  "record_turn_interrupted t sn s =
     (let (active, ov) = take_active_tool_invocations (ls_overlay s);
          (sn1, s1) = fold (cancel_invocation t) active (sn, s\<lparr>ls_overlay := ov\<rparr>)
      in (sn1, record_event sn1 (Some t) EkTurnInterrupted s1))"

definition drain_inbox_into_turn_context ::
  "(mail_envelope \<Rightarrow> error + string) \<Rightarrow> turn_id \<Rightarrow> thread_snapshot \<Rightarrow> live_session \<Rightarrow>
   thread_snapshot \<times> live_session" where
  "drain_inbox_into_turn_context pr t sn s =
     (let (mails, q) = inbox_drain (ls_inbox s); s1 = s\<lparr>ls_inbox := q\<rparr>
      in if mails = [] then (sn, s1)
         else let (ms, c) = record_inter_agent_communications pr mails (ls_context s1);
                  s2 = ledger_append (response_items t ms) (s1\<lparr>ls_context := c\<rparr>);
                  sn2 = sync_snapshot c sn
              in (sn2, publish_snapshot sn2 s2))"

text \<open>
  The start of a user turn. The stable and ephemeral contexts (project documents, skills, memory,
  the goal snapshot) come from files and the database: \<open>contexts\<close> computes their new maps. The goal
  runtime answers the start of a turn with no effect.
\<close>

definition refresh_contexts ::
  "(string, conversation_message) hmap \<times> (string, conversation_message) hmap \<Rightarrow>
   context_manager \<Rightarrow> context_manager" where
  "refresh_contexts m c = c\<lparr>cx_stable := fst m, cx_ephemeral := snd m\<rparr>"

definition record_user_turn_start ::
  "(mail_envelope \<Rightarrow> error + string) \<Rightarrow> (turn_mode \<Rightarrow> string option) \<Rightarrow> turn_id \<Rightarrow> user_input list \<Rightarrow>
   turn_context_item \<Rightarrow> (string, conversation_message) hmap \<times> (string, conversation_message) hmap \<Rightarrow>
   thread_snapshot \<Rightarrow> live_session \<Rightarrow> thread_snapshot \<times> live_session" where
  "record_user_turn_start pr guidance t inp tc contexts sn s =
     (let user = msg_user_parts inp;
          (context_ms, c1) = apply_context_updates guidance tc (ls_context s);
          c2 = refresh_contexts contexts c1;
          (mails, q) = inbox_drain (ls_inbox s);
          (mail_ms, c3) = record_inter_agent_communications pr mails c2;
          c4 = record_items [user] c3;
          sn1 = sync_snapshot c4 sn;
          s1 = s\<lparr>ls_context := c4, ls_inbox := q\<rparr>;
          s2 = ledger_append (TurnContext tc # response_items t context_ms @
                 response_items t mail_ms @ response_items t [user]) s1
      in (sn1, publish_snapshot sn1 s2))"

section \<open>Compaction\<close>

definition record_compaction_checkpoint ::
  "turn_id option \<Rightarrow> compaction_result \<Rightarrow> thread_snapshot \<Rightarrow> live_session \<Rightarrow>
   thread_snapshot \<times> live_session" where
  "record_compaction_checkpoint turn res sn s =
     (let summary = \<lparr>cs_summary = co_summary res, cs_source_event_ids = []\<rparr>;
          s1 = map_context (replace_history (co_replacement_history res) None) s;
          sn1 = (sync_snapshot (ls_context s1) sn)\<lparr>sn_latest_compaction := Some summary\<rparr>;
          s2 = ledger_append [Compacted \<lparr>ci_message = co_summary res,
                 ci_replacement_history = Some (co_replacement_history res)\<rparr>] s1;
          s3 = record_event sn1 turn (EkCompactionWritten summary) s2
      in record_token_count_event turn sn1 s3)"

text \<open>\<open>compact\<close> is \<^const>\<open>compact_history\<close> on the session's model.\<close>

definition handle_manual_compaction ::
  "(conversation_message list \<Rightarrow> error + compaction_result) \<Rightarrow> input_modality list \<Rightarrow>
   live_session \<Rightarrow> (error + unit) \<times> live_session" where
  "handle_manual_compaction compact mods s =
     (let history = for_compaction mods (ls_context s)
      in if history = [] then (Inr (), s)
         else case compact history of
           Inl e \<Rightarrow> (Inl e, s)
         | Inr res \<Rightarrow> (Inr (), snd (record_compaction_checkpoint None res (ls_snapshot s) s)))"

definition compact_before_turn_if_needed ::
  "int option \<Rightarrow> (conversation_message list \<Rightarrow> error + compaction_result) \<Rightarrow> input_modality list \<Rightarrow>
   turn_id \<Rightarrow> thread_snapshot \<Rightarrow> live_session \<Rightarrow> (error + unit) \<times> thread_snapshot \<times> live_session"
  where
  "compact_before_turn_if_needed limit compact mods t sn s =
     (case limit of
        None \<Rightarrow> (Inr (), sn, s)
      | Some l \<Rightarrow>
          if active_context_tokens (ls_context s) < l then (Inr (), sn, s)
          else if for_compaction mods (ls_context s) = [] then (Inr (), sn, s)
          else case compact (for_compaction mods (ls_context s)) of
            Inl e \<Rightarrow> (Inl e, sn, s)
          | Inr res \<Rightarrow> (Inr (), record_compaction_checkpoint (Some t) res sn s))"

definition restore_retry_context_after_compaction ::
  "(turn_mode \<Rightarrow> string option) \<Rightarrow> turn_id \<Rightarrow> turn_context_item \<Rightarrow> conversation_message option \<Rightarrow>
   thread_snapshot \<Rightarrow> live_session \<Rightarrow> thread_snapshot \<times> live_session" where
  "restore_retry_context_after_compaction guidance t tc last_user sn s =
     (let (ms, c1) = apply_context_updates guidance tc (ls_context s);
          user = (case last_user of None \<Rightarrow> [] | Some m \<Rightarrow> [m]);
          c2 = record_items user c1
      in (sync_snapshot c2 sn,
          ledger_append (TurnContext tc # response_items t ms @ response_items t user)
            (s\<lparr>ls_context := c2\<rparr>)))"

definition last_user_message :: "conversation_message list \<Rightarrow> conversation_message option" where
  "last_user_message ms = List.find (\<lambda>m. cm_role m = User) (rev ms)"

definition compact_after_context_window_error ::
  "int option \<Rightarrow> (conversation_message list \<Rightarrow> error + compaction_result) \<Rightarrow> input_modality list \<Rightarrow>
   (turn_mode \<Rightarrow> string option) \<Rightarrow> turn_id \<Rightarrow> turn_context_item \<Rightarrow> thread_snapshot \<Rightarrow> live_session \<Rightarrow>
   (error + unit) \<times> thread_snapshot \<times> live_session" where
  "compact_after_context_window_error window compact mods guidance t tc sn s =
     (case window of
        None \<Rightarrow> (Inl (Anyhow ''model context window is required for context-window retry''), sn, s)
      | Some w \<Rightarrow>
        (let (sn1, s1) = record_token_count_event (Some t) sn (map_context (set_token_usage_full w) s);
             history = for_compaction mods (ls_context s1)
         in case compact history of
              Inl e \<Rightarrow> (Inl e, sn1, s1)
            | Inr res \<Rightarrow>
                (let (sn2, s2) = record_compaction_checkpoint (Some t) res sn1 s1
                 in (Inr (), restore_retry_context_after_compaction guidance t tc
                       (last_user_message history) sn2 s2))))"

section \<open>Effects of the goal runtime\<close>

datatype (plugins only: code size) goal_effect =
    GeNone
  | GeScheduleContinuation
  | GeEmitUpdated thread_goal
  | GeEmitCleared thread_id
  | GeEmitModeUpdated thread_id string thread_goal_mode
  | GeEmitUpdatedAndGoalReport thread_goal thread_goal_report
  | GeEmitUpdatedAndInject thread_goal string string
  | GeEmitUpdatedInjectAndGoalReport thread_goal string string thread_goal_report
  | GeEmitUpdatedAndContinuationSuppressed thread_goal string

fun goal_report_status_label :: "thread_goal_status \<Rightarrow> string" where
  "goal_report_status_label GsActive = ''active''"
| "goal_report_status_label GsPaused = ''paused''"
| "goal_report_status_label GsBlocked = ''blocked''"
| "goal_report_status_label GsUsageLimited = ''usage_limited''"
| "goal_report_status_label GsBudgetLimited = ''budget_limited''"
| "goal_report_status_label GsComplete = ''complete''"

definition fallback_goal_report_summary :: "thread_goal_report \<Rightarrow> string" where
  "fallback_goal_report_summary r =
     ''Goal finished with status '' @ goal_report_status_label (gr_final_status r) @ '' after '' @
     show_int (gr_turns_run r) @ '' turn(s).''"

text \<open>\<open>sample\<close>: the summary the model writes, None when it fails or is empty.\<close>

definition finalize_goal_report ::
  "(thread_goal_report \<Rightarrow> string option) \<Rightarrow> live_session \<Rightarrow> thread_goal_report \<Rightarrow>
   thread_goal_report" where
  "finalize_goal_report sample s report =
     (let r = report\<lparr>gr_pending_approvals_count := length (ov_approvals (overlay_from_events
            (events_from_rollout_items (ls_ledger s))))\<rparr>
      in case sample r of
           Some summary \<Rightarrow> r\<lparr>gr_summary := summary\<rparr>
         | None \<Rightarrow> if trim (gr_summary r) = []
                   then r\<lparr>gr_summary := fallback_goal_report_summary r\<rparr> else r)"

definition inject_context ::
  "turn_id option \<Rightarrow> string \<Rightarrow> string \<Rightarrow> thread_snapshot \<Rightarrow> live_session \<Rightarrow>
   thread_snapshot \<times> live_session" where
  "inject_context turn source content sn s =
     (let (m, c) = record_persistent_internal_context source content (ls_context s);
          sn1 = sync_snapshot c sn;
          s1 = s\<lparr>ls_context := c\<rparr>
      in (sn1, case turn of None \<Rightarrow> s1 | Some t \<Rightarrow> ledger_append (response_items t [m]) s1))"

definition apply_goal_effect ::
  "(thread_goal_report \<Rightarrow> string option) \<Rightarrow> turn_id option \<Rightarrow> goal_effect \<Rightarrow> thread_snapshot \<Rightarrow>
   live_session \<Rightarrow> thread_snapshot \<times> live_session" where
  "apply_goal_effect sample turn eff sn s =
     (case eff of
        GeNone \<Rightarrow> (sn, s)
      | GeScheduleContinuation \<Rightarrow> (sn, s)
      | GeEmitUpdated g \<Rightarrow> (sn, record_event sn turn (EkThreadGoalUpdated g) s)
      | GeEmitUpdatedAndGoalReport g r \<Rightarrow>
          (let r' = finalize_goal_report sample s r
           in (sn, record_event sn turn (EkThreadGoalReport r')
                     (record_event sn turn (EkThreadGoalUpdated g) s)))
      | GeEmitCleared t \<Rightarrow> (sn, record_event sn turn (EkThreadGoalCleared t) s)
      | GeEmitModeUpdated t g m \<Rightarrow> (sn, record_event sn turn (EkThreadGoalModeUpdated t g m) s)
      | GeEmitUpdatedAndInject g source content \<Rightarrow>
          (let (sn1, s1) = inject_context turn source content sn s
           in (sn1, record_event sn1 turn (EkThreadGoalUpdated g) s1))
      | GeEmitUpdatedInjectAndGoalReport g source content r \<Rightarrow>
          (let (sn1, s1) = inject_context turn source content sn s;
               r' = finalize_goal_report sample s1 r
           in (sn1, record_event sn1 turn (EkThreadGoalReport r')
                      (record_event sn1 turn (EkThreadGoalUpdated g) s1)))
      | GeEmitUpdatedAndContinuationSuppressed g reason \<Rightarrow>
          (sn, record_event sn turn (EkThreadGoalContinuationSuppressed (tg_goal_id g) reason)
                 (record_event sn turn (EkThreadGoalUpdated g) s)))"

definition handle_goal_runtime_effect ::
  "(thread_goal_report \<Rightarrow> string option) \<Rightarrow> goal_effect \<Rightarrow> live_session \<Rightarrow> bool \<times> live_session" where
  "handle_goal_runtime_effect sample eff s =
     (eff \<noteq> GeNone, snd (apply_goal_effect sample None eff (ls_snapshot s) s))"

section \<open>Restoring a session\<close>

definition is_digit :: "char \<Rightarrow> bool" where
  "is_digit c \<longleftrightarrow> 48 \<le> byte c \<and> byte c \<le> 57"

text \<open>\<^verbatim>\<open>str::parse\<close> of a 64-bit unsigned integer, with its optional plus sign.\<close>

definition parse_u64 :: "string \<Rightarrow> nat option" where
  "parse_u64 s =
     (let ds = (case s of [] \<Rightarrow> [] | c # cs \<Rightarrow> if c = CHR ''+'' then cs else s)
      in if ds \<noteq> [] \<and> list_all is_digit ds \<and> read_digits ds \<le> u64_max
         then Some (read_digits ds) else None)"

definition strip_prefix :: "string \<Rightarrow> string \<Rightarrow> string option" where
  "strip_prefix p s = (if prefix p s then Some (drop (length p) s) else None)"

definition parse_event_index :: "event_id \<Rightarrow> nat option" where
  "parse_event_index i = Option.bind (strip_prefix ''evt_'' i) parse_u64"

definition parse_turn_index :: "turn_id \<Rightarrow> nat option" where
  "parse_turn_index t = Option.bind (strip_prefix ''turn_'' t) parse_u64"

definition max_or_0 :: "nat list \<Rightarrow> nat" where
  "max_or_0 ns = foldr max ns 0"

definition next_event_index :: "runtime_event list \<Rightarrow> nat" where
  "next_event_index es =
     max_or_0 (List.map_filter (\<lambda>e. parse_event_index (ev_event_id e)) es) + 1"

definition turn_ids_from_rollout_item :: "rollout_item \<Rightarrow> turn_id list" where
  "turn_ids_from_rollout_item item =
     (case item of
        ResponseItem r \<Rightarrow> [ri_turn_id r]
      | TurnContext c \<Rightarrow> [tc_turn_id c]
      | EventMsg e \<Rightarrow> (case ev_turn_id e of None \<Rightarrow> [] | Some t \<Rightarrow> [t])
      | ThreadMeta _ \<Rightarrow> []
      | Compacted _ \<Rightarrow> []
      | WorkflowRun _ \<Rightarrow> [])"

definition next_turn_index_from_rollout_items :: "rollout_item list \<Rightarrow> nat" where
  "next_turn_index_from_rollout_items items =
     max_or_0 (List.map_filter parse_turn_index (concat (map turn_ids_from_rollout_item items))) + 1"

definition latest_turn_id :: "runtime_event list \<Rightarrow> turn_id option" where
  "latest_turn_id es =
     (case List.map_filter ev_turn_id (rev es) of [] \<Rightarrow> None | t # _ \<Rightarrow> Some t)"

fun scan_turn_end :: "turn_id \<Rightarrow> runtime_event list \<Rightarrow> turn_id option" where
  "scan_turn_end t [] = None"
| "scan_turn_end t (e # es) =
     (case ev_kind e of
        EkTurnCompleted \<Rightarrow> None
      | EkTurnInterrupted \<Rightarrow> None
      | EkRuntimeError _ \<Rightarrow> None
      | EkTurnStarted \<Rightarrow> Some t
      | _ \<Rightarrow> scan_turn_end t es)"

definition unfinished_turn_without_external_wait ::
  "runtime_event list \<Rightarrow> overlay \<Rightarrow> turn_id option" where
  "unfinished_turn_without_external_wait es ov =
     (if has_pending_approval ov \<or> has_pending_user_input ov then None
      else case latest_turn_id es of
        None \<Rightarrow> None
      | Some t \<Rightarrow> scan_turn_end t (filter (\<lambda>e. ev_turn_id e = Some t) (rev es)))"

definition restore_from_rollout ::
  "thread_id \<Rightarrow> rollout_item list \<Rightarrow>
   error + (thread_snapshot \<times> runtime_event list \<times> context_manager)" where
  "restore_from_rollout t items =
     bind_res (snapshot_from_rollout_items t items) (\<lambda>sn.
       let c = context_from_rollout_items items
       in Inr (sync_snapshot c sn, events_from_rollout_items items, c))"

definition resumed_unfinished_message :: string where
  "resumed_unfinished_message =
     ''Thread runtime resumed with an unfinished turn; marking the turn failed.''"

definition session_new ::
  "thread_id \<Rightarrow> nat \<Rightarrow> rollout_item list \<Rightarrow> error + live_session" where
  "session_new t cap items =
     bind_res (restore_from_rollout t items) (\<lambda>(sn, events, c).
       if \<not> permission_profile_is_supported (sn_permission_profile sn)
       then Inl (Anyhow (''unsupported permission profile: '' @
              permission_profile_as_str (sn_permission_profile sn)))
       else
         let ov = overlay_from_events events;
             cap1 = max cap 1;
             s = \<lparr>ls_thread_id = t, ls_ledger = items, ls_next_event = next_event_index events,
                  ls_cap = cap1, ls_snapshot = sn, ls_overlay = ov,
                  ls_events = drop (length events - cap1) events, ls_context = c,
                  ls_inbox = inbox_new t\<rparr>
         in Inr (case unfinished_turn_without_external_wait events ov of
              None \<Rightarrow> s
            | Some turn \<Rightarrow>
                record_event sn (Some turn) (EkRuntimeError resumed_unfinished_message) s))"

section \<open>Requests from outside\<close>

definition handle_interrupt ::
  "turn_id option \<Rightarrow> live_session \<Rightarrow> policy_manager \<Rightarrow>
   (error + turn_id) \<times> live_session \<times> policy_manager" where
  "handle_interrupt turn s pm =
     (let reject = (\<lambda>reason. Inl (TurnRejected (ls_thread_id s) reason)) in
      if \<not> has_pending_approval (ls_overlay s) \<and> \<not> has_pending_user_input (ls_overlay s)
      then (reject ''thread has no active turn'', s, pm)
      else
        let latest = latest_turn_id (ls_events s) in
        case (case turn of None \<Rightarrow> latest | Some t \<Rightarrow> Some t) of
          None \<Rightarrow> (reject ''waiting external input has no turn id'', s, pm)
        | Some t \<Rightarrow>
          if (case latest of None \<Rightarrow> False | Some l \<Rightarrow> l \<noteq> t)
          then (reject (''waiting external input turn is '' @ the latest), s, pm)
          else
            let s1 = map_overlay (\<lambda>ov. clear_pending_user_inputs (clear_pending_approvals ov)) s;
                pm1 = cancel_pending_for_thread (ls_thread_id s) pm
            in (Inr t, record_event (ls_snapshot s) (Some t) EkTurnInterrupted s1, pm1))"

definition approval_turn :: "string \<Rightarrow> runtime_event list \<Rightarrow> turn_id option" where
  "approval_turn i es =
     (case List.map_filter (\<lambda>e. case ev_kind e of
             EkApprovalRequested j _ _ _ _ _ _ _ _ \<Rightarrow> if j = i then ev_turn_id e else None
           | _ \<Rightarrow> None) (rev es) of
        [] \<Rightarrow> None | t # _ \<Rightarrow> Some t)"

definition user_input_turn :: "string \<Rightarrow> runtime_event list \<Rightarrow> turn_id option" where
  "user_input_turn i es =
     (case List.map_filter (\<lambda>e. case ev_kind e of
             EkUserInputRequested j _ _ \<Rightarrow> if j = i then ev_turn_id e else None
           | _ \<Rightarrow> None) (rev es) of
        [] \<Rightarrow> None | t # _ \<Rightarrow> Some t)"

definition or_else :: "'a option \<Rightarrow> 'a option \<Rightarrow> 'a option" where
  "or_else a b = (case a of None \<Rightarrow> b | Some x \<Rightarrow> Some x)"

definition resolve_turn ::
  "string \<Rightarrow> string \<Rightarrow> turn_id option \<Rightarrow> turn_id option \<Rightarrow> turn_id option \<Rightarrow> live_session \<Rightarrow>
   error + turn_id" where
  "resolve_turn no_turn turn_is requested event_turn latest s =
     (case or_else (or_else requested event_turn) latest of
        None \<Rightarrow> Inl (TurnRejected (ls_thread_id s) no_turn)
      | Some t \<Rightarrow>
          if (case event_turn of None \<Rightarrow> False | Some e \<Rightarrow> e \<noteq> t)
          then Inl (TurnRejected (ls_thread_id s) (turn_is @ the event_turn)) else Inr t)"

definition resolve_pending_approval ::
  "turn_id option \<Rightarrow> string \<Rightarrow> live_session \<Rightarrow> error + (turn_id \<times> thread_snapshot \<times> string)" where
  "resolve_pending_approval requested i s =
     (case List.find (\<lambda>a. pa_approval_id a = i) (ov_approvals (ls_overlay s)) of
        None \<Rightarrow> Inl (TurnRejected (ls_thread_id s) (''unknown approval id: '' @ i))
      | Some a \<Rightarrow>
          bind_res (resolve_turn ''approval has no turn id'' ''approval turn is '' requested
              (approval_turn i (ls_events s)) (latest_turn_id (ls_events s)) s)
            (\<lambda>t. Inr (t, ls_snapshot s, pa_tool_name a)))"

definition resolve_pending_user_input ::
  "turn_id option \<Rightarrow> string \<Rightarrow> live_session \<Rightarrow> error + (turn_id \<times> thread_snapshot \<times> string)" where
  "resolve_pending_user_input requested i s =
     (case List.find (\<lambda>u. pu_request_id u = i) (ov_inputs (ls_overlay s)) of
        None \<Rightarrow> Inl (TurnRejected (ls_thread_id s) (''unknown user input request id: '' @ i))
      | Some u \<Rightarrow>
          bind_res (resolve_turn ''user input request has no turn id'' ''user input request turn is ''
              requested (user_input_turn i (ls_events s)) (latest_turn_id (ls_events s)) s)
            (\<lambda>t. Inr (t, ls_snapshot s, pu_tool_name u)))"

end
