(* ===== verification/AgentTools.thy ===== *)
theory AgentTools
  imports Session ForkHistory
begin

text \<open>
  What an agent may do: the tool policy of an agent type (\<^verbatim>\<open>src/runtime/agent_profile\<close>),
  the selection of the tools a model sees (\<^verbatim>\<open>src/runtime/tool/selection.rs\<close>), and the
  configuration of one turn (\<^verbatim>\<open>src/runtime/thread_session/turn/turn_config.rs\<close>,
  \<^verbatim>\<open>PromptContext\<close> of \<^verbatim>\<open>src/runtime/context.rs\<close>). The texts of a profile are a parameter.
\<close>

section \<open>Tool policies\<close>

datatype workspace_capability = WsReadOnly | WsFull

datatype collaboration_capability = CoBasic | CoFull

record agent_tool_policy =
  tp_workspace :: workspace_capability
  tp_collaboration :: collaboration_capability
  tp_agent_type :: "agent_type option"

definition policy_all :: agent_tool_policy where
  "policy_all = \<lparr>tp_workspace = WsFull, tp_collaboration = CoFull, tp_agent_type = Some Worker\<rparr>"

definition policy_read_only_basic :: agent_tool_policy where
  "policy_read_only_basic =
     \<lparr>tp_workspace = WsReadOnly, tp_collaboration = CoBasic, tp_agent_type = None\<rparr>"

definition policy_full_workspace_basic :: agent_tool_policy where
  "policy_full_workspace_basic =
     \<lparr>tp_workspace = WsFull, tp_collaboration = CoBasic, tp_agent_type = Some Worker\<rparr>"

definition for_agent_type :: "agent_type \<Rightarrow> agent_tool_policy \<Rightarrow> agent_tool_policy" where
  "for_agent_type ty p = p\<lparr>tp_agent_type := Some ty\<rparr>"

definition policy_allows :: "agent_tool_policy \<Rightarrow> string \<Rightarrow> bool" where
  "policy_allows p tool =
     (if tool = ''submit_review'' then tp_agent_type p = Some Reviewer
      else if tool = ''defer_question'' then tp_agent_type p = Some Worker \<and> tp_workspace p = WsFull
      else if tool \<in> {''read_file'', ''search_files'', ''web_search''} then True
      else if tool = ''web_fetch''
      then tp_workspace p = WsFull \<or> tp_agent_type p = Some WorkflowResearch
      else if tool \<in> {''write_file'', ''run_command'', ''apply_patch'', ''exec_command'', ''write_stdin''}
      then tp_workspace p = WsFull
      else if tool \<in> {''list_agents'', ''send_message'', ''wait_agent''} then True
      else if tool \<in> {''followup_task'', ''spawn_agent'', ''close_agent''}
      then tp_collaboration p = CoFull
      else tp_workspace p = WsFull)"

record agent_profile =
  ap_id :: agent_type
  ap_default_fork_turns :: fork_turns
  ap_default_thinking_mode :: "thinking_mode option"
  ap_tool_policy :: agent_tool_policy

definition read_only_policy :: "agent_type \<Rightarrow> agent_tool_policy" where
  "read_only_policy ty = for_agent_type ty policy_read_only_basic"

definition profile_for_type :: "agent_type option \<Rightarrow> agent_profile" where
  "profile_for_type ty =
     (case (case ty of None \<Rightarrow> Worker | Some t \<Rightarrow> t) of
        Explorer \<Rightarrow> \<lparr>ap_id = Explorer, ap_default_fork_turns = ForkNone,
          ap_default_thinking_mode = Some ThLow, ap_tool_policy = read_only_policy Explorer\<rparr>
      | Planner \<Rightarrow> \<lparr>ap_id = Planner, ap_default_fork_turns = ForkNone,
          ap_default_thinking_mode = Some ThMedium, ap_tool_policy = read_only_policy Planner\<rparr>
      | Reviewer \<Rightarrow> \<lparr>ap_id = Reviewer, ap_default_fork_turns = ForkNone,
          ap_default_thinking_mode = Some ThHigh, ap_tool_policy = read_only_policy Reviewer\<rparr>
      | Worker \<Rightarrow> \<lparr>ap_id = Worker, ap_default_fork_turns = ForkNone,
          ap_default_thinking_mode = None, ap_tool_policy = policy_full_workspace_basic\<rparr>
      | WorkflowResearch \<Rightarrow> \<lparr>ap_id = WorkflowResearch, ap_default_fork_turns = ForkNone,
          ap_default_thinking_mode = Some ThLow, ap_tool_policy = read_only_policy WorkflowResearch\<rparr>)"

definition authorize_tool :: "string \<Rightarrow> agent_tool_policy \<Rightarrow> bool" where
  "authorize_tool tool p = policy_allows p tool"

text \<open>The registered tools are given by their names, in registration order.\<close>

definition select_visible_specs ::
  "string list \<Rightarrow> permission_profile \<Rightarrow> bool \<Rightarrow> agent_tool_policy \<Rightarrow> string list" where
  "select_visible_specs registry prof supports_tools p =
     (if \<not> supports_tools \<or> \<not> permission_profile_is_supported prof then []
      else filter (\<lambda>tool. authorize_tool tool p) registry)"

section \<open>The configuration of a turn\<close>

datatype thinking_override = ThInherit | ThSet thinking_mode | ThClearDefault

record thread_turn_context =
  tt_cwd :: "string option"
  tt_model :: "model_ref option"
  tt_thinking_mode :: "thinking_mode option"
  tt_clear_thinking_mode :: bool
  tt_turn_mode :: turn_mode

definition thinking_override_from_turn_context ::
  "thread_turn_context option \<Rightarrow> thinking_override" where
  "thinking_override_from_turn_context tt =
     (case tt of None \<Rightarrow> ThInherit
      | Some t \<Rightarrow> (case tt_thinking_mode t of Some m \<Rightarrow> ThSet m
          | None \<Rightarrow> if tt_clear_thinking_mode t then ThClearDefault else ThInherit))"

fun thinking_override_effective :: "thinking_override \<Rightarrow> thinking_mode option \<Rightarrow> thinking_mode option"
  where
  "thinking_override_effective ThInherit agent_default = agent_default"
| "thinking_override_effective (ThSet m) agent_default = Some m"
| "thinking_override_effective ThClearDefault agent_default = None"

text \<open>The fields of \<^verbatim>\<open>AgentConfig\<close> that a turn announces; a model is its identity.\<close>

record turn_settings =
  cf_model :: model_ref
  cf_policy_mode :: policy_mode
  cf_permission_profile :: permission_profile
  cf_command_timeout_secs :: nat
  cf_max_output_bytes :: nat
  cf_thinking_mode :: "thinking_mode option"

definition effective_profile_agent_type_for_turn ::
  "thread_snapshot \<Rightarrow> turn_mode \<Rightarrow> agent_type option" where
  "effective_profile_agent_type_for_turn sn mode =
     (if mode = TurnPlan then Some Planner
      else case sn_lineage sn of None \<Rightarrow> None | Some l \<Rightarrow> ln_agent_type l)"

definition turn_tool_policy :: "thread_snapshot \<Rightarrow> turn_mode \<Rightarrow> agent_tool_policy" where
  "turn_tool_policy sn mode =
     (case effective_profile_agent_type_for_turn sn mode of
        Some ty \<Rightarrow> ap_tool_policy (profile_for_type (Some ty))
      | None \<Rightarrow> policy_all)"

definition config_for_turn ::
  "turn_settings \<Rightarrow> model_ref option \<Rightarrow> thinking_override \<Rightarrow> agent_type option \<Rightarrow> turn_settings" where
  "config_for_turn cfg model ov ty =
     (let c1 = (case model of None \<Rightarrow> cfg | Some m \<Rightarrow> cfg\<lparr>cf_model := m\<rparr>);
          profile_default = (case ty of None \<Rightarrow> None
            | Some t \<Rightarrow> ap_default_thinking_mode (profile_for_type (Some t)));
          inherited = (case profile_default of None \<Rightarrow> cf_thinking_mode c1 | Some m \<Rightarrow> Some m)
      in c1\<lparr>cf_thinking_mode := thinking_override_effective ov inherited\<rparr>)"

record profile_context =
  px_agent_type :: "agent_type option"
  px_agent_role :: "string option"
  px_instructions :: "string option"
  px_response_guidance :: "string option"

definition agent_profile_context_for_turn ::
  "(agent_type \<Rightarrow> string \<times> string) \<Rightarrow> thread_snapshot \<Rightarrow> turn_mode \<Rightarrow> profile_context option" where
  "agent_profile_context_for_turn texts sn mode =
     (let ty = effective_profile_agent_type_for_turn sn mode;
          role = (case sn_lineage sn of None \<Rightarrow> None | Some l \<Rightarrow> ln_agent_role l)
      in if ty = None \<and> role = None then None
         else Some \<lparr>px_agent_type = ty, px_agent_role = role,
                px_instructions = map_option (\<lambda>t. fst (texts t)) ty,
                px_response_guidance = map_option (\<lambda>t. snd (texts t)) ty\<rparr>)"

definition prompt_context_for_turn ::
  "turn_id \<Rightarrow> turn_settings \<Rightarrow> string \<Rightarrow> string \<Rightarrow> profile_context option \<Rightarrow> turn_mode \<Rightarrow> string \<Rightarrow>
   turn_context_item" where
  "prompt_context_for_turn t cfg root cwd profile mode today =
     \<lparr>tc_turn_id = t, tc_workspace_root = root, tc_cwd = cwd, tc_model = cf_model cfg,
      tc_policy_mode = cf_policy_mode cfg, tc_permission_profile = cf_permission_profile cfg,
      tc_command_timeout_secs = cf_command_timeout_secs cfg,
      tc_max_output_bytes = cf_max_output_bytes cfg, tc_turn_mode = mode,
      tc_agent_type = Option.bind profile px_agent_type,
      tc_agent_profile_instructions = Option.bind profile px_instructions,
      tc_agent_response_guidance = Option.bind profile px_response_guidance,
      tc_agent_role = Option.bind profile px_agent_role, tc_thinking_mode = cf_thinking_mode cfg,
      tc_current_utc_date = Some today\<rparr>"

section \<open>Lemmas\<close>

definition mutating_tools :: "string list" where
  "mutating_tools = [''write_file'', ''run_command'', ''apply_patch'', ''exec_command'', ''write_stdin'']"

definition orchestration_tools :: "string list" where
  "orchestration_tools = [''followup_task'', ''spawn_agent'', ''close_agent'']"

lemma profile_policy_simps [simp]:
  "ap_tool_policy (profile_for_type (Some Explorer)) = read_only_policy Explorer"
  "ap_tool_policy (profile_for_type (Some Planner)) = read_only_policy Planner"
  "ap_tool_policy (profile_for_type (Some Reviewer)) = read_only_policy Reviewer"
  "ap_tool_policy (profile_for_type (Some Worker)) = policy_full_workspace_basic"
  "ap_tool_policy (profile_for_type (Some WorkflowResearch)) = read_only_policy WorkflowResearch"
  by (simp_all add: profile_for_type_def)

lemmas policy_defs = read_only_policy_def for_agent_type_def policy_read_only_basic_def
  policy_full_workspace_basic_def policy_all_def

lemma read_only_turn:
  "effective_profile_agent_type_for_turn sn mode = Some ty \<Longrightarrow> ty \<noteq> Worker \<Longrightarrow>
   turn_tool_policy sn mode = read_only_policy ty"
  by (cases ty) (simp_all add: turn_tool_policy_def)

text \<open>C11: The confinement of agents: in a planning turn, and in every turn of an agent that is not
  a worker, no tool that changes the workspace is authorised; no spawned agent may spawn, close or
  task another; a review is submitted by reviewers only; and a model is shown exactly the
  registered tools that would be authorised, none when its provider or the profile has no tools.\<close>

theorem agents_are_confined:
  "let p = turn_tool_policy sn mode; ty = effective_profile_agent_type_for_turn sn mode in
   (if mode = TurnPlan then ty = Some Planner else True) \<and>
   list_all (\<lambda>tool. authorize_tool tool p \<longleftrightarrow> ty \<in> {None, Some Worker}) mutating_tools \<and>
   list_all (\<lambda>tool. authorize_tool tool p \<longleftrightarrow> ty = None) orchestration_tools \<and>
   (authorize_tool ''submit_review'' p \<longleftrightarrow> ty = Some Reviewer) \<and>
   (authorize_tool ''defer_question'' p \<longleftrightarrow> ty \<in> {None, Some Worker}) \<and>
   set (select_visible_specs registry prof supports p) =
     (if supports \<and> permission_profile_is_supported prof
      then {tool \<in> set registry. authorize_tool tool p} else {})"
proof -
  have ty: "mode = TurnPlan \<Longrightarrow> effective_profile_agent_type_for_turn sn mode = Some Planner"
    by (simp add: effective_profile_agent_type_for_turn_def)
  show ?thesis
    using ty
    by (cases "effective_profile_agent_type_for_turn sn mode";
        cases "the (effective_profile_agent_type_for_turn sn mode)")
      (auto simp: turn_tool_policy_def authorize_tool_def policy_allows_def policy_defs
        mutating_tools_def orchestration_tools_def select_visible_specs_def)
qed

end
