(* ===== verification/Orchestrator.thy ===== *)
theory Orchestrator
  imports ThreadSession AgentTools ForgeGate
begin

text \<open>
  The life cycle of a tool call (\<^verbatim>\<open>src/runtime/tool/orchestrator.rs\<close>), the effects of its
  outcome on the session (\<^verbatim>\<open>src/runtime/tool/effects.rs\<close>), and the decisions on pending
  approvals and user inputs that arrive from outside
  (\<^verbatim>\<open>src/runtime/thread_session/turn/external_input.rs\<close>). A tool handler is a parameter, as
  are the hooks, which the completion gate of theory ForgeGate instantiates.
\<close>

section \<open>Effects\<close>

definition apply_tool_effect ::
  "turn_id \<Rightarrow> thread_snapshot \<Rightarrow> tool_effect \<Rightarrow> live_session \<Rightarrow> live_session" where
  "apply_tool_effect t sn eff s =
     (case eff of
        TeShortCircuit _ \<Rightarrow> s
      | TeReviewSubmitted i g v h c f cp \<Rightarrow>
          record_event sn (Some t) (EkReviewSubmitted i g v h c f cp) s
      | TeOpenQuestionRecorded i g q b \<Rightarrow> record_event sn (Some t) (EkOpenQuestionRecorded i g q b) s
      | TeOpenQuestionResolved i g a \<Rightarrow> record_event sn (Some t) (EkOpenQuestionResolved i g a) s
      | TeExecSessionRunning i cmd cwd \<Rightarrow>
          map_overlay (apply_exec_session_update (EsRunning i cmd cwd)) s
      | TeExecSessionNotRunning i \<Rightarrow> map_overlay (apply_exec_session_update (EsNotRunning i)) s
      | TeApprovalRequested i tool reason cp prof fs net env cmd \<Rightarrow>
          (let (eid, s1) = reserve_event_id s;
               s2 = map_overlay (apply_approval_requested i eid tool reason cp prof fs net env) s1
           in record_reserved sn (Some t) eid
                (EkApprovalRequested i tool reason cp prof fs net env cmd) s2)
      | TeApprovalApproved i note \<Rightarrow>
          record_event sn (Some t) (EkApprovalDecision i ApprovalApproved note)
            (map_overlay (clear_approval i) s)
      | TeApprovalDenied i note \<Rightarrow>
          record_event sn (Some t) (EkApprovalDecision i ApprovalDenied note)
            (map_overlay (clear_approval i) s)
      | TeUserInputRequested i _ tool qs \<Rightarrow>
          (let (eid, s1) = reserve_event_id s;
               s2 = map_overlay (apply_user_input_requested i eid tool qs) s1
           in record_reserved sn (Some t) eid (EkUserInputRequested i tool qs) s2)
      | TeUserInputResolved i dismissed \<Rightarrow>
          record_event sn (Some t) (EkUserInputResolved i dismissed)
            (map_overlay (clear_user_input i) s)
      | TeSubagentSpawned i c p ch n m \<Rightarrow> record_event sn (Some t) (EkSubagentSpawned i c p ch n m) s
      | TeSubagentClosed i c p cl path \<Rightarrow> record_event sn (Some t) (EkSubagentClosed i c p cl path) s
      | TeInterAgentMessageSent i c a r ap rp pre fu st \<Rightarrow>
          record_event sn (Some t) (EkInterAgentMessageSent i c a r ap rp pre fu st) s
      | TeThreadGoalUpdated g \<Rightarrow> record_event sn (Some t) (EkThreadGoalUpdated g) s)"

definition apply_effects ::
  "turn_id \<Rightarrow> thread_snapshot \<Rightarrow> tool_outcome \<Rightarrow> live_session \<Rightarrow> live_session" where
  "apply_effects t sn out s = fold (apply_tool_effect t sn) (to_effects out) s"

definition attach_approval_note :: "string \<Rightarrow> string option \<Rightarrow> tool_outcome \<Rightarrow> tool_outcome" where
  "attach_approval_note i note out = out\<lparr>to_effects := map (\<lambda>e. case e of
        TeApprovalApproved j n \<Rightarrow> if j = i then TeApprovalApproved j note else e
      | TeApprovalDenied j n \<Rightarrow> if j = i then TeApprovalDenied j note else e
      | _ \<Rightarrow> e) (to_effects out)\<rparr>"

definition approval_matches :: "string \<Rightarrow> approval_status \<Rightarrow> tool_outcome \<Rightarrow> bool" where
  "approval_matches i status out \<longleftrightarrow> list_ex (\<lambda>e. case e of
        TeApprovalApproved j _ \<Rightarrow> status = ApprovalApproved \<and> j = i
      | TeApprovalDenied j _ \<Rightarrow> status = ApprovalDenied \<and> j = i
      | _ \<Rightarrow> False) (to_effects out)"

definition user_input_resolved_matches :: "string \<Rightarrow> bool \<Rightarrow> tool_outcome \<Rightarrow> bool" where
  "user_input_resolved_matches i dismissed out \<longleftrightarrow>
     list_ex (\<lambda>e. e = TeUserInputResolved i dismissed) (to_effects out)"

text \<open>The outcome of a tool call: its effects, then the message the model sees, then the event.\<close>

definition record_tool_outcome ::
  "turn_id \<Rightarrow> tool_outcome \<Rightarrow> thread_snapshot \<Rightarrow> live_session \<Rightarrow> thread_snapshot \<times> live_session"
  where
  "record_tool_outcome t out sn s =
     (let s1 = apply_effects t sn out s;
          r = to_model_result out;
          (sn2, s2) = record_message t
            (msg_tool_with_parts (tr_tool_call_id r) (tr_content r) (tr_parts r)) sn s1
      in (sn2, record_event sn2 (Some t) (EkToolResult r) s2))"

definition record_approval_decision_outcome ::
  "turn_id \<Rightarrow> tool_outcome \<Rightarrow> thread_snapshot \<Rightarrow> live_session \<Rightarrow> live_session" where
  "record_approval_decision_outcome t out sn s =
     record_event sn (Some t) (EkToolResult (to_model_result out)) (apply_effects t sn out s)"

section \<open>The life cycle of a call\<close>

definition is_approval_request :: "tool_effect \<Rightarrow> bool" where
  "is_approval_request e = (case e of TeApprovalRequested _ _ _ _ _ _ _ _ _ \<Rightarrow> True | _ \<Rightarrow> False)"

definition invocation_id_of :: "tool_call \<Rightarrow> string" where
  "invocation_id_of call = ''inv_'' @ tc_id call"

definition unknown_tool_outcome :: "tool_call \<Rightarrow> tool_outcome" where
  "unknown_tool_outcome call = tool_error call (''Unknown tool: '' @ tc_name call)"

definition denied_by_agent_profile_outcome :: "tool_call \<Rightarrow> tool_outcome" where
  "denied_by_agent_profile_outcome call =
     tool_error call (''Tool denied by agent profile: '' @ tc_name call)"

definition approval_required_outcome :: "tool_call \<Rightarrow> tool_effect list \<Rightarrow> tool_outcome" where
  "approval_required_outcome call effects =
     (let reason = (case List.map_filter (\<lambda>e. case e of
              TeApprovalRequested _ _ reason _ _ _ _ _ _ \<Rightarrow> Some reason | _ \<Rightarrow> None) effects of
            [] \<Rightarrow> ''approval required'' | r # _ \<Rightarrow> r)
      in with_effects effects (outcome_from_result
           \<lparr>tr_tool_call_id = tc_id call, tr_tool_name = tc_name call,
            tr_status = ToolReviewRequired, tr_content = reason, tr_meta = None, tr_parts = []\<rparr>))"

definition short_circuit_result :: "tool_effect list \<Rightarrow> tool_result option" where
  "short_circuit_result effects =
     (case List.map_filter (\<lambda>e. case e of TeShortCircuit r \<Rightarrow> Some r | _ \<Rightarrow> None) effects of
        [] \<Rightarrow> None | r # _ \<Rightarrow> Some r)"

text \<open>The terminal event of an invocation, by the status of its result; none while it waits.\<close>

definition record_invocation_end ::
  "turn_id \<Rightarrow> thread_snapshot \<Rightarrow> tool_call \<Rightarrow> tool_result \<Rightarrow> live_session \<Rightarrow> live_session" where
  "record_invocation_end t sn call r s =
     (let s1 = map_overlay (clear_tool_invocation (invocation_id_of call)) s in
      case tr_status r of
        ToolError \<Rightarrow> record_event sn (Some t) (EkToolInvocationFailed (invocation_id_of call)
          (tc_id call) (tc_name call) (tr_content r)) s1
      | ToolSuccess \<Rightarrow> record_event sn (Some t) (EkToolInvocationCompleted (invocation_id_of call)
          (tc_id call) (tc_name call) (tr_status r)) s1
      | ToolReviewRequired \<Rightarrow> s1)"

text \<open>
  The hooks run over a state of their own (the database of the gate). A hook returns an error or a
  list of effects.
\<close>

record 'w tool_hooks =
  hk_before_invocation :: "tool_call \<Rightarrow> 'w \<Rightarrow> (error + tool_effect list) \<times> 'w"
  hk_before_handler :: "tool_call \<Rightarrow> 'w \<Rightarrow> (error + tool_effect list) \<times> 'w"
  hk_approval_requested :: "tool_call \<Rightarrow> string \<Rightarrow> 'w \<Rightarrow> (error + tool_effect list) \<times> 'w"
  hk_after_completion :: "tool_call \<Rightarrow> tool_outcome \<Rightarrow> 'w \<Rightarrow> (error + tool_effect list) \<times> 'w"
  hk_failed :: "tool_call \<Rightarrow> string \<Rightarrow> 'w \<Rightarrow> (error + tool_effect list) \<times> 'w"

text \<open>An approval request is announced to the hooks, whose effects are appended.\<close>

fun record_approval_requests ::
  "'w tool_hooks \<Rightarrow> turn_id \<Rightarrow> thread_snapshot \<Rightarrow> tool_call \<Rightarrow> tool_effect list \<Rightarrow> tool_outcome \<Rightarrow>
   live_session \<Rightarrow> 'w \<Rightarrow> (error + tool_outcome) \<times> live_session \<times> 'w" where
  "record_approval_requests h t sn call [] out s w = (Inr out, s, w)"
| "record_approval_requests h t sn call (e # es) out s w =
     (case e of
        TeApprovalRequested i tool reason cp prof fs net env cmd \<Rightarrow>
          (case hk_approval_requested h call i w of
             (Inl err, w1) \<Rightarrow> (Inl err, s, w1)
           | (Inr extra, w1) \<Rightarrow>
               record_approval_requests h t sn call es (with_effects extra out)
                 (record_event sn (Some t)
                    (EkToolInvocationWaitingApproval (invocation_id_of call) i reason) s) w1)
      | _ \<Rightarrow> record_approval_requests h t sn call es out s w)"

definition record_user_input_requests ::
  "turn_id \<Rightarrow> thread_snapshot \<Rightarrow> tool_call \<Rightarrow> tool_outcome \<Rightarrow> live_session \<Rightarrow> live_session" where
  "record_user_input_requests t sn call out s =
     fold (\<lambda>e s. case e of
        TeUserInputRequested i _ _ _ \<Rightarrow> record_event sn (Some t)
          (EkToolInvocationWaitingUserInput (invocation_id_of call) i ''waiting for user input'') s
      | _ \<Rightarrow> s) (to_effects out) s"

text \<open>The registry: a registered tool has its capability to mutate and its handler.\<close>

type_synonym 'w tool_registry =
  "string \<Rightarrow> (bool \<times> (tool_call \<Rightarrow> 'w \<Rightarrow> tool_outcome \<times> 'w)) option"

definition execute_with_lifecycle ::
  "'w tool_hooks \<Rightarrow> 'w tool_registry \<Rightarrow> agent_tool_policy \<Rightarrow> turn_id \<Rightarrow> thread_snapshot \<Rightarrow> tool_call \<Rightarrow> live_session \<Rightarrow> 'w \<Rightarrow>
   (error + tool_outcome) \<times> live_session \<times> 'w" where
  "execute_with_lifecycle h tools p t sn call s w =
     (let i = invocation_id_of call;
          mutating = (case tools (tc_name call) of None \<Rightarrow> False | Some (m, _) \<Rightarrow> m);
          s1 = record_event sn (Some t) (EkToolInvocationStarted i (tc_id call) (tc_name call) mutating) s;
          s2 = map_overlay (mark_tool_invocation_active
                 \<lparr>ai_invocation_id = i, ai_tool_call_id = tc_id call, ai_tool_name = tc_name call\<rparr>) s1;
          waiting = (\<lambda>effects w. case record_approval_requests h t sn call
                (to_effects (approval_required_outcome call effects))
                (approval_required_outcome call effects) s2 w of
              (Inl e, s3, w3) \<Rightarrow> (Inl e, s3, w3)
            | (Inr out, s3, w3) \<Rightarrow> (Inr out, map_overlay (clear_tool_invocation i) s3, w3))
      in
      if \<not> authorize_tool (tc_name call) p
      then (Inr (denied_by_agent_profile_outcome call),
            record_invocation_end t sn call
              (to_model_result (denied_by_agent_profile_outcome call)) s2, w)
      else case hk_before_invocation h call w of
        (Inl e, w1) \<Rightarrow> (Inl e, s2, w1)
      | (Inr es1, w1) \<Rightarrow>
        if list_ex is_approval_request es1 then waiting es1 w1
        else case hk_before_handler h call w1 of
          (Inl e, w2) \<Rightarrow> (Inl e, s2, w2)
        | (Inr es2, w2) \<Rightarrow>
          if list_ex is_approval_request (es1 @ es2) then waiting (es1 @ es2) w2
          else case short_circuit_result (es1 @ es2) of
            Some r \<Rightarrow> (Inr (outcome_from_result r), record_invocation_end t sn call r s2, w2)
          | None \<Rightarrow>
            (let (out0, w3) = (case tools (tc_name call) of Some (_, f) \<Rightarrow> f call w2
                   | None \<Rightarrow> (unknown_tool_outcome call, w2));
                 out1 = out0\<lparr>to_effects := (es1 @ es2) @ to_effects out0\<rparr>
             in case record_approval_requests h t sn call (to_effects out1) out1 s2 w3 of
                  (Inl e, s3, w4) \<Rightarrow> (Inl e, s3, w4)
                | (Inr out2, s3, w4) \<Rightarrow>
                  (let s4 = record_user_input_requests t sn call out2 s3
                   in case hk_after_completion h call out2 w4 of
                        (Inl e, w5) \<Rightarrow> (Inl e, s4, w5)
                      | (Inr extra, w5) \<Rightarrow>
                        (let out3 = with_effects extra out2
                         in if tr_status (to_model_result out3) = ToolError
                            then case hk_failed h call (tr_content (to_model_result out3)) w5 of
                                (Inl e, w6) \<Rightarrow> (Inl e, s4, w6)
                              | (Inr fs, w6) \<Rightarrow> (Inr (with_effects fs out3),
                                  record_invocation_end t sn call (to_model_result out3) s4, w6)
                            else (Inr out3, record_invocation_end t sn call (to_model_result out3) s4,
                                  w5)))))"

section \<open>Decisions from outside\<close>

definition decision_call :: "string \<Rightarrow> string \<Rightarrow> string \<Rightarrow> string \<Rightarrow> string \<Rightarrow> tool_call" where
  "decision_call pre key i tool decision =
     \<lparr>tc_id = pre @ i, tc_name = tool,
      tc_arguments = JObject [(key, JString i), (''decision'', JString decision)],
      tc_thought_signature = None\<rparr>"

definition handle_approval_decision ::
  "'w tool_hooks \<Rightarrow> 'w tool_registry \<Rightarrow> turn_id option \<Rightarrow> string \<Rightarrow> approval_status \<Rightarrow> string option \<Rightarrow>
   live_session \<Rightarrow> 'w \<Rightarrow> (error + turn_id) \<times> live_session \<times> 'w" where
  "handle_approval_decision h tools requested i status note s w =
     (if status = ApprovalPending
      then (Inl (TurnRejected (ls_thread_id s) ''approval decision cannot be pending''), s, w)
      else case resolve_pending_approval requested i s of
        Inl e \<Rightarrow> (Inl e, s, w)
      | Inr (t, sn, tool) \<Rightarrow>
        (let call = decision_call ''approval_decision_'' ''approval_id'' i tool
               (if status = ApprovalApproved then ''approved'' else ''denied'')
         in case execute_with_lifecycle h tools policy_all t sn call s w of
              (Inl e, s1, w1) \<Rightarrow> (Inl e, s1, w1)
            | (Inr out0, s1, w1) \<Rightarrow>
              (let out = attach_approval_note i note out0
               in if \<not> approval_matches i status out
                  then (Inl (TurnRejected (ls_thread_id s1) (tr_content (to_model_result out))), s1, w1)
                  else (Inr t, record_approval_decision_outcome t out sn s1, w1))))"

definition handle_user_input_response ::
  "'w tool_hooks \<Rightarrow> 'w tool_registry \<Rightarrow> turn_id option \<Rightarrow> string \<Rightarrow> bool \<Rightarrow>
   live_session \<Rightarrow> 'w \<Rightarrow> (error + turn_id) \<times> live_session \<times> 'w" where
  "handle_user_input_response h tools requested i dismissed s w =
     (case resolve_pending_user_input requested i s of
        Inl e \<Rightarrow> (Inl e, s, w)
      | Inr (t, sn, tool) \<Rightarrow>
        (let call = decision_call ''user_input_response_'' ''request_id'' i tool
               (if dismissed then ''dismissed'' else ''answered'')
         in case execute_with_lifecycle h tools policy_all t sn call s w of
              (Inl e, s1, w1) \<Rightarrow> (Inl e, s1, w1)
            | (Inr out, s1, w1) \<Rightarrow>
              if \<not> user_input_resolved_matches i dismissed out
              then (Inl (TurnRejected (ls_thread_id s1) (tr_content (to_model_result out))), s1, w1)
              else (Inr t, snd (record_tool_outcome t out sn s1), w1)))"

end
