(* ===== verification/SessionRun.thy ===== *)
theory SessionRun
  imports Orchestrator
begin

text \<open>
  The life of a loaded thread as a step relation: every operation of the actor on its session is a
  step, a run is a sequence of steps, and a restart loads the ledger of a run again. The theorems
  say what a restart finds: the history of the model, unique event identifiers, and no turn left
  open. Two kinds of step are labelled because they lose something: a context injected outside a
  turn, or announced by a turn that then fails to start, is not written to the ledger, and pending
  requests can disappear from the overlay that a restart computes from the events. The step that notes that a turn works for a goal has a
  label of its own.
\<close>

section \<open>Steps\<close>

datatype step_label = StepPlain | StepMarksGoal | StepLosesContext | StepLosesOverlay

definition injects :: "goal_effect \<Rightarrow> bool" where
  "injects eff = (case eff of GeEmitUpdatedAndInject _ _ _ \<Rightarrow> True
     | GeEmitUpdatedInjectAndGoalReport _ _ _ _ \<Rightarrow> True | _ \<Rightarrow> False)"

definition ledger_events :: "live_session \<Rightarrow> runtime_event list" where
  "ledger_events s = events_from_rollout_items (ls_ledger s)"

definition waits :: "live_session \<Rightarrow> string \<Rightarrow> bool" where
  "waits s i \<longleftrightarrow> or_approvals (overlay_replay_from_events (ledger_events s)) i \<noteq> None \<or>
     or_inputs (overlay_replay_from_events (ledger_events s)) i \<noteq> None"

definition tool_label :: "live_session \<Rightarrow> tool_call \<Rightarrow> step_label" where
  "tool_label s call = (if waits s (invocation_id_of call) then StepLosesOverlay else StepPlain)"

definition nothing_pending :: "live_session \<Rightarrow> bool" where
  "nothing_pending s \<longleftrightarrow> ov_approvals (ls_overlay s) = [] \<and> ov_inputs (ls_overlay s) = []"

text \<open>
  What surrounds a session: the hooks and the registry over the outside state \<open>'w\<close>, the printer of
  mail, the plan-mode guidance, the summary of a report, and compaction on the session's model.
\<close>

record 'w session_env =
  env_hooks :: "'w tool_hooks"
  env_tools :: "'w tool_registry"
  env_mail :: "mail_envelope \<Rightarrow> error + string"
  env_guidance :: "turn_mode \<Rightarrow> string option"
  env_sample :: "thread_goal_report \<Rightarrow> string option"
  env_compact :: "conversation_message list \<Rightarrow> error + compaction_result"

text \<open>
  Within a turn the snapshot a step gets is any snapshot. The events that only mark how a turn
  proceeds are \<open>turn_marker\<close>s; what is outside changes on its own.
\<close>

fun turn_marker :: "runtime_event_kind \<Rightarrow> bool" where
  "turn_marker EkTurnStarted = True"
| "turn_marker EkTurnCompleted = True"
| "turn_marker (EkRuntimeError _) = True"
| "turn_marker (EkThreadGoalContinuationStarted _) = True"
| "turn_marker (EkThreadGoalTurnStarted _) = True"
| "turn_marker (EkThreadGoalToolCompleted _ _) = True"
| "turn_marker _ = False"

fun goal_marker :: "runtime_event_kind \<Rightarrow> bool" where
  "goal_marker (EkThreadGoalTurnStarted _) = True"
| "goal_marker _ = False"

inductive session_step ::
  "'w session_env \<Rightarrow> step_label \<Rightarrow> live_session \<times> 'w \<Rightarrow> live_session \<times> 'w \<Rightarrow> bool"
  for E where
  turn_event: "turn_marker kind \<Longrightarrow>
    session_step E (if goal_marker kind then StepMarksGoal else StepPlain) (s, w) (record_event sn turn kind s, w)"
| outside: "session_step E StepPlain (s, w) (s, w')"
| inject: "session_step E StepPlain (s, w)
    (snd (inject_context (Some t) source content sn s), w)"
| live_event: "session_step E StepPlain (s, w)
    (record_live_only turn kind s, w)"
| mail: "inbox_enqueue m (ls_inbox s) = Inr q \<Longrightarrow>
    session_step E StepPlain (s, w) (s\<lparr>ls_inbox := q\<rparr>, w)"
| user_turn: "session_step E StepPlain (s, w)
    (snd (record_user_turn_start (env_mail E) (env_guidance E) t inp tc contexts sn s), w)"
| start_fails: "session_step E StepLosesContext (s, w)
    (s\<lparr>ls_context := refresh_contexts contexts
       (snd (apply_context_updates (env_guidance E) tc (ls_context s)))\<rparr>, w)"
| drain: "session_step E StepPlain (s, w)
    (snd (drain_inbox_into_turn_context (env_mail E) t sn s), w)"
| assistant: "session_step E StepPlain (s, w)
    (snd (record_assistant_turn t turn sn s), w)"
| usage: "session_step E StepPlain (s, w)
    (snd (record_model_usage t u window sn s), w)"
| tool: "execute_with_lifecycle (env_hooks E) (env_tools E) p t sn call s w = (Inr out, s1, w1) \<Longrightarrow>
    session_step E (tool_label s call) (s, w)
      (snd (record_tool_outcome t out sn s1), w1)"
| tool_error: "execute_with_lifecycle (env_hooks E) (env_tools E) p t sn call s w = (Inl e, s1, w1) \<Longrightarrow>
    session_step E (tool_label s call) (s, w) (s1, w1)"
| tool_cut: "session_step E StepPlain (s, w)
    (map_overlay (mark_tool_invocation_active a) (record_event sn (Some t)
       (EkToolInvocationStarted (ai_invocation_id a) (ai_tool_call_id a) (ai_tool_name a) mutating) s), w)"
| approval: "handle_approval_decision (env_hooks E) (env_tools E) turn i st note s w = (r, s1, w1) \<Longrightarrow>
    session_step E
      (if \<exists>e. r = Inl e \<and> s1 \<noteq> s then StepLosesOverlay
       else if waits s (''inv_approval_decision_'' @ i) then StepLosesOverlay else StepPlain)
      (s, w) (s1, w1)"
| user_input: "handle_user_input_response (env_hooks E) (env_tools E) turn i dismissed s w = (r, s1, w1) \<Longrightarrow>
    session_step E
      (if \<exists>e. r = Inl e \<and> s1 \<noteq> s then StepLosesOverlay
       else if waits s (''inv_user_input_response_'' @ i) then StepLosesOverlay else StepPlain)
      (s, w) (s1, w1)"
| interrupted: "session_step E
      (if nothing_pending s then StepPlain else StepLosesOverlay) (s, w)
      (snd (record_turn_interrupted t sn s), w)"
| interrupt: "handle_interrupt turn s pm = (r, s1, pm1) \<Longrightarrow>
    session_step E StepPlain (s, w) (s1, w)"
| manual_compaction: "handle_manual_compaction (env_compact E) mods s = (r, s1) \<Longrightarrow>
    session_step E StepPlain (s, w) (s1, w)"
| compact_before: "compact_before_turn_if_needed limit (env_compact E) mods t sn s = (r, sn1, s1) \<Longrightarrow>
    session_step E StepPlain (s, w) (s1, w)"
| compact_after: "compact_after_context_window_error window (env_compact E) mods (env_guidance E) t tc sn s =
      (r, sn1, s1) \<Longrightarrow>
    session_step E StepPlain (s, w) (s1, w)"
| goal_effect: "session_step E
      (if turn = None \<and> injects eff then StepLosesContext else StepPlain) (s, w)
      (snd (apply_goal_effect (env_sample E) turn eff sn s), w)"

inductive session_run ::
  "'w session_env \<Rightarrow> step_label set \<Rightarrow> live_session \<times> 'w \<Rightarrow> live_session \<times> 'w \<Rightarrow> bool"
  for E lost where
  run_start: "session_run E lost sw sw"
| run_step: "session_run E lost sw sw1 \<Longrightarrow>
    session_step E l sw1 sw2 \<Longrightarrow> l \<in> lost \<Longrightarrow>
    session_run E lost sw sw2"

section \<open>The recorder\<close>

named_theorems extends_intros \<open>steps that only extend the ledger\<close>
named_theorems quiet_intros \<open>steps that leave the history alone\<close>

definition the_event :: "live_session \<Rightarrow> turn_id option \<Rightarrow> runtime_event_kind \<Rightarrow> runtime_event" where
  "the_event s turn kind = \<lparr>ev_event_id = event_id_of (ls_next_event s),
     ev_thread_id = ls_thread_id s, ev_turn_id = turn, ev_kind = kind\<rparr>"

lemma ledger_append_simps [simp]:
  "ls_ledger (ledger_append xs s) = ls_ledger s @ filter should_persist_rollout_item xs"
  "ls_thread_id (ledger_append xs s) = ls_thread_id s" "ls_cap (ledger_append xs s) = ls_cap s"
  "ls_next_event (ledger_append xs s) = ls_next_event s"
  "ls_context (ledger_append xs s) = ls_context s" "ls_overlay (ledger_append xs s) = ls_overlay s"
  "ls_inbox (ledger_append xs s) = ls_inbox s" "ls_events (ledger_append xs s) = ls_events s"
  "ls_snapshot (ledger_append xs s) = ls_snapshot s"
  by (simp_all add: ledger_append_def)

lemma record_event_simps [simp]:
  "ls_ledger (record_event sn t k s) =
     ls_ledger s @ filter should_persist_rollout_item [EventMsg (the_event s t k)]"
  "ls_thread_id (record_event sn t k s) = ls_thread_id s"
  "ls_cap (record_event sn t k s) = ls_cap s"
  "ls_next_event (record_event sn t k s) = Suc (ls_next_event s)"
  "ls_context (record_event sn t k s) = ls_context s"
  "ls_overlay (record_event sn t k s) = ls_overlay s"
  "ls_inbox (record_event sn t k s) = ls_inbox s"
  "ls_snapshot (record_event sn t k s) = sn"
  by (simp_all add: record_event_def record_reserved_def reserve_event_id_def the_event_def Let_def)

lemma record_live_simps [simp]:
  "ls_ledger (record_live_only t k s) = ls_ledger s"
  "ls_thread_id (record_live_only t k s) = ls_thread_id s"
  "ls_cap (record_live_only t k s) = ls_cap s"
  "ls_next_event (record_live_only t k s) = Suc (ls_next_event s)"
  "ls_context (record_live_only t k s) = ls_context s"
  "ls_overlay (record_live_only t k s) = ls_overlay s"
  by (simp_all add: record_live_only_def reserve_event_id_def Let_def)

lemma map_simps [simp]:
  "ls_ledger (map_overlay f s) = ls_ledger s" "ls_ledger (map_context g s) = ls_ledger s"
  "ls_thread_id (map_overlay f s) = ls_thread_id s" "ls_thread_id (map_context g s) = ls_thread_id s"
  "ls_cap (map_overlay f s) = ls_cap s" "ls_cap (map_context g s) = ls_cap s"
  "ls_next_event (map_overlay f s) = ls_next_event s"
  "ls_next_event (map_context g s) = ls_next_event s"
  "ls_context (map_overlay f s) = ls_context s" "ls_context (map_context g s) = g (ls_context s)"
  "ls_overlay (map_overlay f s) = f (ls_overlay s)" "ls_overlay (map_context g s) = ls_overlay s"
  "ls_inbox (map_overlay f s) = ls_inbox s" "ls_inbox (map_context g s) = ls_inbox s"
  "ls_snapshot (map_overlay f s) = ls_snapshot s" "ls_snapshot (map_context g s) = ls_snapshot s"
  by (simp_all add: map_overlay_def map_context_def)

text \<open>A request is recorded under the identifier it was reserved, as one event.\<close>

lemma record_request:
  "(let (eid, s1) = reserve_event_id s in record_reserved sn t eid k (map_overlay (f eid) s1)) =
   record_event sn t k (map_overlay (f (event_id_of (ls_next_event s))) s)"
  by (cases s) (simp add: reserve_event_id_def record_event_def map_overlay_def Let_def)

lemma persists_response_items [simp]:
  "filter should_persist_rollout_item (response_items t ms) = response_items t ms"
  by (induction ms) (simp_all add: response_items_def should_persist_rollout_item_def)

lemma events_append [simp]:
  "events_from_rollout_items (xs @ ys) = events_from_rollout_items xs @ events_from_rollout_items ys"
  by (simp add: events_from_rollout_items_def map_filter_def)

lemma events_filter [simp]:
  "events_from_rollout_items (filter should_persist_rollout_item xs) =
     filter should_persist_event (events_from_rollout_items xs)"
  by (induction xs) (auto simp: events_from_rollout_items_def map_filter_def
    should_persist_rollout_item_def split: rollout_item.splits)

lemma events_simps [simp]:
  "events_from_rollout_items [] = []"
  "events_from_rollout_items (EventMsg e # xs) = e # events_from_rollout_items xs"
  "events_from_rollout_items (ResponseItem r # xs) = events_from_rollout_items xs"
  "events_from_rollout_items (TurnContext c # xs) = events_from_rollout_items xs"
  "events_from_rollout_items (Compacted k # xs) = events_from_rollout_items xs"
  "events_from_rollout_items (response_items t ms) = []"
  by (simp_all add: events_from_rollout_items_def response_items_def map_filter_def comp_def)

lemma persist_items [simp]:
  "should_persist_rollout_item (ResponseItem r)" "should_persist_rollout_item (TurnContext c)"
  "should_persist_rollout_item (Compacted k)"
  "should_persist_rollout_item (EventMsg e) = should_persist_event e"
  by (simp_all add: should_persist_rollout_item_def)

section \<open>Extending the ledger\<close>

text \<open>A step extends the ledger, and its events carry identifiers of its own, in order.\<close>

definition extends :: "live_session \<Rightarrow> live_session \<Rightarrow> bool" where
  "extends s s' \<longleftrightarrow> ls_thread_id s' = ls_thread_id s \<and> ls_cap s' = ls_cap s \<and>
     ls_next_event s \<le> ls_next_event s' \<and>
     (\<exists>xs ns. ls_ledger s' = ls_ledger s @ xs \<and>
        map ev_event_id (events_from_rollout_items xs) = map event_id_of ns \<and>
        sorted_wrt (<) ns \<and> set ns \<subseteq> {ls_next_event s..<ls_next_event s'} \<and>
        (\<forall>e \<in> set (events_from_rollout_items xs). ev_thread_id e = ls_thread_id s))"

lemma extends_refl [simp, extends_intros]: "extends s s"
  by (auto simp: extends_def intro!: exI [of _ "[]"])

lemma extends_trans: "extends s s' \<Longrightarrow> extends s' s'' \<Longrightarrow> extends s s''"
  unfolding extends_def
proof (elim conjE exE, intro conjI)
  fix xs ns ys ms
  assume "ls_next_event s \<le> ls_next_event s'" "ls_next_event s' \<le> ls_next_event s''"
  then show "ls_next_event s \<le> ls_next_event s''" by simp
next
  fix xs ns ys ms
  assume a: "ls_thread_id s' = ls_thread_id s" "ls_next_event s \<le> ls_next_event s'"
    "ls_next_event s' \<le> ls_next_event s''"
    "ls_ledger s' = ls_ledger s @ xs" "ls_ledger s'' = ls_ledger s' @ ys"
    "map ev_event_id (events_from_rollout_items xs) = map event_id_of ns"
    "map ev_event_id (events_from_rollout_items ys) = map event_id_of ms"
    "sorted_wrt (<) ns" "sorted_wrt (<) ms"
    "set ns \<subseteq> {ls_next_event s..<ls_next_event s'}" "set ms \<subseteq> {ls_next_event s'..<ls_next_event s''}"
    "\<forall>e \<in> set (events_from_rollout_items xs). ev_thread_id e = ls_thread_id s"
    "\<forall>e \<in> set (events_from_rollout_items ys). ev_thread_id e = ls_thread_id s'"
  have "x < y" if "x \<in> set ns" "y \<in> set ms" for x y
    using a(10,11) that by fastforce
  then have "sorted_wrt (<) (ns @ ms)" using a(8,9) by (simp add: sorted_wrt_append)
  moreover have "set (ns @ ms) \<subseteq> {ls_next_event s..<ls_next_event s''}"
    using a(2,3,10,11) by fastforce
  ultimately show "\<exists>xs ns. ls_ledger s'' = ls_ledger s @ xs \<and>
        map ev_event_id (events_from_rollout_items xs) = map event_id_of ns \<and>
        sorted_wrt (<) ns \<and> set ns \<subseteq> {ls_next_event s..<ls_next_event s''} \<and>
        (\<forall>e \<in> set (events_from_rollout_items xs). ev_thread_id e = ls_thread_id s)"
    using a by (intro exI [of _ "xs @ ys"] exI [of _ "ns @ ms"]) auto
qed auto

lemma extends_event [extends_intros]: "extends s s' \<Longrightarrow> extends s (record_event sn t k s')"
proof (erule extends_trans)
  show "extends s' (record_event sn t k s')"
    unfolding extends_def
    by (cases "should_persist_event (the_event s' t k)")
      (auto simp: the_event_def intro!: exI [of _ "[EventMsg (the_event s' t k)]"]
        exI [of _ "[ls_next_event s']"])
qed

lemma extends_live [extends_intros]: "extends s s' \<Longrightarrow> extends s (record_live_only t k s')"
  by (erule extends_trans) (auto simp: extends_def intro!: exI [of _ "[]"])

lemma extends_frame:
  "extends s s' \<Longrightarrow> ls_ledger s'' = ls_ledger s' \<Longrightarrow> ls_thread_id s'' = ls_thread_id s' \<Longrightarrow>
   ls_cap s'' = ls_cap s' \<Longrightarrow> ls_next_event s'' = ls_next_event s' \<Longrightarrow> extends s s''"
  by (simp add: extends_def)

lemma extends_append:
  "extends s s' \<Longrightarrow> events_from_rollout_items xs = [] \<Longrightarrow> extends s (ledger_append xs s')"
  by (erule extends_trans)
    (auto simp: extends_def intro!: exI [of _ "filter should_persist_rollout_item xs"])

lemma extends_maps [extends_intros]:
  "extends s s' \<Longrightarrow> extends s (map_overlay f s')"
  "extends s s' \<Longrightarrow> extends s (map_context g s')"
  "extends s s' \<Longrightarrow> extends s (ledger_append (response_items t ms) s')"
  by (auto intro: extends_frame extends_append)

text \<open>A quiet step also leaves the history of the model alone, live and in the ledger.\<close>

definition neutral :: "rollout_item \<Rightarrow> bool" where
  "neutral x \<longleftrightarrow> (\<forall>c. context_step c x = c)"

definition quiet :: "live_session \<Rightarrow> live_session \<Rightarrow> bool" where
  "quiet s s' \<longleftrightarrow> extends s s' \<and> ls_context s' = ls_context s \<and>
     (\<exists>xs. ls_ledger s' = ls_ledger s @ xs \<and> (\<forall>x \<in> set xs. neutral x))"

fun neutral_kind :: "runtime_event_kind \<Rightarrow> bool" where
  "neutral_kind (EkTokenCount _) = False"
| "neutral_kind _ = True"

lemma neutral_event: "neutral_kind (ev_kind e) \<Longrightarrow> neutral (EventMsg e)"
  by (cases "ev_kind e") (simp_all add: neutral_def context_step_def)

lemma quiet_extends: "quiet s s' \<Longrightarrow> extends s s'"
  by (simp add: quiet_def)

lemma quiet_refl [quiet_intros]: "quiet s s"
  by (simp add: quiet_def)

lemma quiet_trans: "quiet s s' \<Longrightarrow> quiet s' s'' \<Longrightarrow> quiet s s''"
  unfolding quiet_def
  by (auto intro: extends_trans)

lemma quiet_event [quiet_intros]:
  "quiet s s' \<Longrightarrow> neutral_kind k \<Longrightarrow> quiet s (record_event sn t k s')"
  by (erule quiet_trans)
    (auto simp: quiet_def the_event_def intro!: extends_event neutral_event
      exI [of _ "filter should_persist_rollout_item [EventMsg (the_event s' t k)]"])

lemma quiet_live [quiet_intros]: "quiet s s' \<Longrightarrow> quiet s (record_live_only t k s')"
  by (erule quiet_trans) (simp add: quiet_def extends_live)

lemma quiet_overlay [quiet_intros]: "quiet s s' \<Longrightarrow> quiet s (map_overlay f s')"
  by (erule quiet_trans) (simp add: quiet_def extends_maps)

lemma quiet_fold:
  "(\<And>x s'. quiet s s' \<Longrightarrow> quiet s (f x s')) \<Longrightarrow> quiet s s' \<Longrightarrow> quiet s (fold f xs s')"
  by (induction xs arbitrary: s') simp_all

section \<open>Tool calls are quiet\<close>

lemma apply_tool_effect_request:
  "apply_tool_effect t sn (TeApprovalRequested i tool reason cp prof fs net env cmd) s =
     record_event sn (Some t) (EkApprovalRequested i tool reason cp prof fs net env cmd)
       (map_overlay (apply_approval_requested i (event_id_of (ls_next_event s)) tool reason cp prof
          fs net env) s)"
  "apply_tool_effect t sn (TeUserInputRequested i th tool qs) s =
     record_event sn (Some t) (EkUserInputRequested i tool qs)
       (map_overlay (apply_user_input_requested i (event_id_of (ls_next_event s)) tool qs) s)"
  using record_request [where f = "\<lambda>eid. apply_approval_requested i eid tool reason cp prof fs net env"]
    record_request [where f = "\<lambda>eid. apply_user_input_requested i eid tool qs"]
  by (simp_all add: apply_tool_effect_def Let_def)

lemma quiet_effect [quiet_intros]:
  assumes "quiet s s'" shows "quiet s (apply_tool_effect t sn e s')"
proof (cases e)
  case (TeApprovalRequested i tool reason cp prof fs net env cmd)
  then show ?thesis using assms
    by (simp only: apply_tool_effect_request) (intro quiet_intros; simp)
next
  case (TeUserInputRequested i th tool qs)
  then show ?thesis using assms
    by (simp only: apply_tool_effect_request) (intro quiet_intros; simp)
qed (simp add: apply_tool_effect_def, intro quiet_intros assms; simp)+

lemma quiet_effects [quiet_intros]: "quiet s s' \<Longrightarrow> quiet s (apply_effects t sn out s')"
  unfolding apply_effects_def by (intro quiet_fold quiet_effect)

lemma quiet_invocation_end [quiet_intros]:
  "quiet s s' \<Longrightarrow> quiet s (record_invocation_end t sn call r s')"
  unfolding record_invocation_end_def Let_def
  by (cases "tr_status r") (simp_all add: quiet_intros)

lemma quiet_requests:
  "record_approval_requests h t sn call es out s' w = (r, s'', w') \<Longrightarrow> quiet s s' \<Longrightarrow> quiet s s''"
proof (induction es arbitrary: out s' w)
  case (Cons e es)
  show ?case
  proof (cases e)
    case (TeApprovalRequested i tool reason cp prof fs net env cmd)
    obtain res w1 where hk: "hk_approval_requested h call i w = (res, w1)" by force
    show ?thesis
    proof (cases res)
      case (Inr extra)
      let ?s = "record_event sn (Some t)
        (EkToolInvocationWaitingApproval (invocation_id_of call) i reason) s'"
      have "quiet s ?s" using Cons.prems(2) by (simp add: quiet_event)
      moreover have "record_approval_requests h t sn call es (with_effects extra out) ?s w1 =
          (r, s'', w')"
        using Cons.prems(1) TeApprovalRequested hk Inr by simp
      ultimately show ?thesis using Cons.IH by blast
    qed (use Cons.prems TeApprovalRequested hk in simp)
  qed (use Cons in simp_all)
qed simp

lemma quiet_inputs [quiet_intros]:
  "quiet s s' \<Longrightarrow> quiet s (record_user_input_requests t sn call out s')"
  unfolding record_user_input_requests_def
  by (rule quiet_fold) (auto intro: quiet_intros split: tool_effect.split)

text \<open>The cases of a call: how the session and the outcome come about.\<close>

lemma quiet_execute:
  assumes "execute_with_lifecycle h tools p t sn call s w = (r, s', w')"
  shows "quiet s s'"
proof -
  let ?s2 = "map_overlay (mark_tool_invocation_active
        \<lparr>ai_invocation_id = invocation_id_of call, ai_tool_call_id = tc_id call,
         ai_tool_name = tc_name call\<rparr>)
      (record_event sn (Some t) (EkToolInvocationStarted (invocation_id_of call) (tc_id call)
        (tc_name call) (case tools (tc_name call) of None \<Rightarrow> False | Some (m, _) \<Rightarrow> m)) s)"
  have q2: "quiet s ?s2" by (intro quiet_intros) simp
  have req: "record_approval_requests h t sn call es out ?s2 w1 = (r1, s3, w3) \<Longrightarrow> quiet s s3"
    for es out w1 r1 s3 w3 by (rule quiet_requests [OF _ q2])
  show ?thesis
    using assms q2
    unfolding execute_with_lifecycle_def Let_def
    by (auto split: if_splits prod.splits sum.splits option.splits
      intro!: quiet_intros intro: req)
qed

section \<open>The history in the ledger\<close>

text \<open>The history a restart would find is the one the live manager has.\<close>

definition same_history :: "context_manager \<Rightarrow> context_manager \<Rightarrow> bool" where
  "same_history c d \<longleftrightarrow> cx_items c = cx_items d \<and> cx_reference c = cx_reference d \<and>
     cx_token_info c = cx_token_info d"

definition ctx_ok :: "live_session \<Rightarrow> bool" where
  "ctx_ok s \<longleftrightarrow> same_history (context_from_rollout_items (ls_ledger s)) (ls_context s)"

lemma same_history_refl [simp]: "same_history c c"
  by (simp add: same_history_def)

lemma context_from_append [simp]:
  "context_from_rollout_items (xs @ ys) = foldl context_step (context_from_rollout_items xs) ys"
  by (simp add: context_from_rollout_items_def)

lemma fold_response [simp]:
  "cx_items (foldl context_step c (response_items t ms)) = cx_items c @ ms"
  "cx_reference (foldl context_step c (response_items t ms)) = cx_reference c"
  "cx_token_info (foldl context_step c (response_items t ms)) = cx_token_info c"
  by (induction ms arbitrary: c)
    (simp_all add: response_items_def context_step_def response_item_for_turn_def)

lemma context_step_simps [simp]:
  "context_step c (TurnContext tc) = set_reference_turn_context (Some tc) c"
  "context_step c (Compacted ci) = (case ci_replacement_history ci of None \<Rightarrow> c
     | Some h \<Rightarrow> replace_history h None c)"
  "neutral_kind k \<Longrightarrow> context_step c (EventMsg (the_event s t k)) = c"
  "context_step c (EventMsg (the_event s t (EkTokenCount i))) = set_token_info i c"
  using neutral_event [of "the_event s t k"]
  by (simp_all add: context_step_def neutral_def the_event_def)

lemma foldl_neutral: "(\<And>x. x \<in> set xs \<Longrightarrow> neutral x) \<Longrightarrow> foldl context_step c xs = c"
  by (induction xs arbitrary: c) (simp_all add: neutral_def)

lemma ctx_ok_quiet: "quiet s s' \<Longrightarrow> ctx_ok s \<Longrightarrow> ctx_ok s'"
  by (auto simp: quiet_def ctx_ok_def foldl_neutral)

lemma set_context_simps [simp]:
  "cx_items (set_token_info i c) = cx_items c" "cx_reference (set_token_info i c) = cx_reference c"
  "cx_token_info (set_token_info i c) = i" "cx_items (set_reference_turn_context r c) = cx_items c"
  "cx_reference (set_reference_turn_context r c) = r"
  "cx_token_info (set_reference_turn_context r c) = cx_token_info c"
  "cx_items (replace_history h r c) = h" "cx_reference (replace_history h r c) = r"
  "cx_token_info (replace_history h r c) = None"
  "cx_items (refresh_contexts m c) = cx_items c"
  "cx_reference (refresh_contexts m c) = cx_reference c"
  "cx_token_info (refresh_contexts m c) = cx_token_info c"
  by (simp_all add: set_token_info_def set_reference_turn_context_def replace_history_def
    refresh_contexts_def)

lemma token_count_persists [simp]: "should_persist_event (the_event s t (EkTokenCount i))"
  by (simp add: should_persist_event_def the_event_def)

text \<open>A step that keeps the history in the ledger.\<close>

definition keeps :: "live_session \<Rightarrow> live_session \<Rightarrow> bool" where
  "keeps s s' \<longleftrightarrow> extends s s' \<and> (if ctx_ok s then ctx_ok s' else True)"

lemma keeps_refl [simp]: "keeps s s" by (simp add: keeps_def)

lemma keeps_trans: "keeps s s' \<Longrightarrow> keeps s' s'' \<Longrightarrow> keeps s s''"
  by (auto simp: keeps_def intro: extends_trans split: if_splits)

lemma quiet_keeps: "quiet s s' \<Longrightarrow> keeps s s'"
  by (auto simp: keeps_def quiet_extends intro: ctx_ok_quiet)

lemma keeps_event: "neutral_kind k \<Longrightarrow> keeps s (record_event sn t k s)"
  by (intro quiet_keeps quiet_intros)

lemma keeps_message: "keeps s (snd (record_message t m sn s))"
  by (auto simp: keeps_def record_message_def Let_def ctx_ok_def same_history_def
    intro!: extends_intros)

lemma keeps_token_count:
  assumes "cx_items (f (ls_context s)) = cx_items (ls_context s)"
    and "cx_reference (f (ls_context s)) = cx_reference (ls_context s)"
  shows "keeps s (snd (record_token_count_event turn sn (map_context f s)))"
  using assms
  by (auto simp: keeps_def record_token_count_event_def Let_def ctx_ok_def same_history_def
    intro!: extends_intros)

lemma keeps_usage: "keeps s (snd (record_model_usage t u window sn s))"
  by (auto simp: record_model_usage_def update_token_info_from_usage_def split: option.split
    intro!: keeps_token_count)

lemma keeps_assistant: "keeps s (snd (record_assistant_turn t turn sn s))"
proof -
  let ?s1 = "case displayable_reasoning_parts turn of None \<Rightarrow> s
    | Some (summary, content) \<Rightarrow> record_event sn (Some t) (EkReasoning summary content) s"
  let ?m = "msg_assistant_with_reasoning (at_text turn) (at_reasoning turn) (at_tool_calls turn)"
  have 1: "keeps s ?s1" by (auto split: option.split intro: keeps_event)
  show ?thesis
  proof (cases "at_text turn \<noteq> None \<or> at_tool_calls turn \<noteq> []")
    case True
    have "keeps s (snd (record_message t ?m sn ?s1))"
      by (rule keeps_trans [OF 1 keeps_message])
    from keeps_trans [OF this keeps_event] True show ?thesis
      by (simp add: record_assistant_turn_def Let_def record_message_def)
  next
    case False
    from keeps_trans [OF 1 keeps_event] False show ?thesis
      by (simp add: record_assistant_turn_def Let_def)
  qed
qed

lemma keeps_cancel: "keeps s (snd (fold (cancel_invocation t) as (sn, s)))"
proof (induction as arbitrary: sn s)
  case (Cons a as)
  have "keeps s (snd (cancel_invocation t a (sn, s)))"
    unfolding cancel_invocation_def prod.case
    by (rule keeps_trans [OF keeps_event keeps_message]) simp
  then show ?case
    using Cons.IH [where sn = "fst (cancel_invocation t a (sn, s))"
        and s = "snd (cancel_invocation t a (sn, s))"]
    by (auto intro: keeps_trans)
qed simp

lemma keeps_interrupted: "keeps s (snd (record_turn_interrupted t sn s))"
proof -
  let ?s = "map_overlay (\<lambda>ov. snd (take_active_tool_invocations ov)) s"
  have "keeps s ?s" by (intro quiet_keeps quiet_intros)
  moreover have "s\<lparr>ls_overlay := snd (take_active_tool_invocations (ls_overlay s))\<rparr> = ?s"
    by (simp add: map_overlay_def)
  ultimately show ?thesis
    using keeps_trans [OF keeps_trans [OF _ keeps_cancel] keeps_event]
    by (simp add: record_turn_interrupted_def case_prod_unfold Let_def)
qed

lemma extends_inbox: "extends s (s\<lparr>ls_inbox := q\<rparr>)"
  by (rule extends_frame [OF extends_refl]) simp_all

lemma extends_update:
  assumes "events_from_rollout_items xs = []"
  shows "extends s (publish_snapshot sn (ledger_append xs (s\<lparr>ls_inbox := q, ls_context := c\<rparr>)))"
    and "extends s (publish_snapshot sn (ledger_append xs (s\<lparr>ls_context := c, ls_inbox := q\<rparr>)))"
proof -
  have *: "extends s (s\<lparr>ls_inbox := q, ls_context := c\<rparr>)" "extends s (s\<lparr>ls_context := c, ls_inbox := q\<rparr>)"
    by (rule extends_frame [OF extends_refl]; simp)+
  show "extends s (publish_snapshot sn (ledger_append xs (s\<lparr>ls_inbox := q, ls_context := c\<rparr>)))"
    "extends s (publish_snapshot sn (ledger_append xs (s\<lparr>ls_context := c, ls_inbox := q\<rparr>)))"
    using extends_append [OF *(1) assms] extends_append [OF *(2) assms]
    by (auto simp: publish_snapshot_def elim!: extends_frame)
qed

lemma publish_simps [simp]:
  "ls_ledger (publish_snapshot sn s) = ls_ledger s" "ls_context (publish_snapshot sn s) = ls_context s"
  by (simp_all add: publish_snapshot_def)

lemma keeps_drain: "keeps s (snd (drain_inbox_into_turn_context pr t sn s))"
  by (auto simp: drain_inbox_into_turn_context_def keeps_def ctx_ok_def same_history_def Let_def
    record_inter_agent_communications_def case_prod_unfold intro!: extends_update extends_inbox)

lemma apply_context_updates_fields:
  assumes "apply_context_updates guidance tc c = (ms, c')"
  shows "cx_items c' = cx_items c @ ms" "cx_reference c' = Some tc" "cx_token_info c' = cx_token_info c"
  using assms by (auto simp: apply_context_updates_def Let_def split: if_splits)

lemma keeps_user_turn:
  "keeps s (snd (record_user_turn_start pr guidance t inp tc contexts sn s))"
proof (cases "apply_context_updates guidance tc (ls_context s)")
  case (Pair ms c')
  note fields = apply_context_updates_fields [OF Pair]
  show ?thesis
    by (auto simp: record_user_turn_start_def Pair fields keeps_def ctx_ok_def same_history_def Let_def
      record_inter_agent_communications_def case_prod_unfold intro!: extends_update)
qed

lemma keeps_tool_outcome: "quiet s s1 \<Longrightarrow> keeps s (snd (record_tool_outcome t out sn s1))"
proof -
  assume q: "quiet s s1"
  let ?r = "to_model_result out"
  let ?m = "msg_tool_with_parts (tr_tool_call_id ?r) (tr_content ?r) (tr_parts ?r)"
  have "keeps s (apply_effects t sn out s1)" by (intro quiet_keeps quiet_effects q)
  from keeps_trans [OF keeps_trans [OF this keeps_message] keeps_event]
  show ?thesis by (simp add: record_tool_outcome_def Let_def case_prod_unfold)
qed

lemma quiet_decision: "quiet s s1 \<Longrightarrow> quiet s (record_approval_decision_outcome t out sn s1)"
  unfolding record_approval_decision_outcome_def by (intro quiet_intros) simp_all

lemma keeps_approval:
  "handle_approval_decision h tools turn i st note s w = (r, s1, w1) \<Longrightarrow> keeps s s1"
  unfolding handle_approval_decision_def Let_def
  by (auto split: if_splits sum.splits prod.splits
    intro!: quiet_keeps quiet_decision dest: quiet_execute)

lemma keeps_user_input:
  "handle_user_input_response h tools turn i d s w = (r, s1, w1) \<Longrightarrow> keeps s s1"
  unfolding handle_user_input_response_def Let_def
  by (auto split: if_splits sum.splits prod.splits
    intro!: keeps_tool_outcome dest: quiet_execute intro: quiet_keeps)

lemma quiet_interrupt: "handle_interrupt turn s pm = (r, s1, pm1) \<Longrightarrow> quiet s s1"
  unfolding handle_interrupt_def Let_def
  by (auto split: if_splits option.splits intro!: quiet_intros)

lemma keeps_checkpoint: "keeps s (snd (record_compaction_checkpoint turn res sn s))"
proof -
  let ?s2 = "ledger_append [Compacted \<lparr>ci_message = co_summary res,
      ci_replacement_history = Some (co_replacement_history res)\<rparr>]
    (map_context (replace_history (co_replacement_history res) None) s)"
  have 2: "keeps s ?s2"
    by (auto simp: keeps_def ctx_ok_def same_history_def intro!: extends_append extends_intros)
  have "keeps s' (snd (record_token_count_event turn sn' s'))" for s' sn'
    using keeps_token_count [where f = "\<lambda>c. c"] by (simp add: map_context_def)
  from keeps_trans [OF keeps_trans [OF 2 keeps_event] this] show ?thesis
    by (simp add: record_compaction_checkpoint_def Let_def)
qed

lemma keeps_manual:
  "handle_manual_compaction compact mods s = (r, s1) \<Longrightarrow> keeps s s1"
  by (auto simp: handle_manual_compaction_def Let_def split: if_splits sum.splits
    intro: keeps_checkpoint)

lemma keeps_compact_before:
  "compact_before_turn_if_needed limit compact mods t sn s = (r, sn1, s1) \<Longrightarrow> keeps s s1"
  using keeps_checkpoint [of s]
  by (auto simp: compact_before_turn_if_needed_def split: if_splits sum.splits option.splits)
    (metis snd_conv)

lemma keeps_restore:
  "keeps s (snd (restore_retry_context_after_compaction guidance t tc user sn s))"
proof (cases "apply_context_updates guidance tc (ls_context s)")
  case (Pair ms c')
  note fields = apply_context_updates_fields [OF Pair]
  have "extends s (s\<lparr>ls_context := c\<rparr>)" for c by (rule extends_frame [OF extends_refl]) simp_all
  then show ?thesis
    by (auto simp: restore_retry_context_after_compaction_def Pair fields keeps_def ctx_ok_def
      same_history_def Let_def intro!: extends_append)
qed

lemma keeps_compact_after:
  assumes "compact_after_context_window_error window compact mods guidance t tc sn s = (r, sn1, s1)"
  shows "keeps s s1"
proof (cases window)
  case None
  then show ?thesis using assms by (simp add: compact_after_context_window_error_def)
next
  case (Some w)
  obtain sn2 s2 where 2: "record_token_count_event (Some t) sn (map_context (set_token_usage_full w) s) =
      (sn2, s2)" by force
  have k2: "keeps s s2"
    using keeps_token_count [where f = "set_token_usage_full w" and s = s and turn = "Some t" and sn = sn] 2
    by (simp add: set_token_usage_full_def)
  show ?thesis
  proof (cases "compact (for_compaction mods (ls_context s2))")
    case (Inl e)
    then show ?thesis using assms Some 2 k2 by (simp add: compact_after_context_window_error_def)
  next
    case (Inr res)
    let ?cp = "record_compaction_checkpoint (Some t) res sn2 s2"
    have "s1 = snd (restore_retry_context_after_compaction guidance t tc
        (last_user_message (for_compaction mods (ls_context s2))) (fst ?cp) (snd ?cp))"
      using assms Some 2 Inr
      by (simp add: compact_after_context_window_error_def Let_def case_prod_unfold split: prod.splits)
    with keeps_trans [OF keeps_trans [OF k2 keeps_checkpoint] keeps_restore] show ?thesis by simp
  qed
qed

lemma keeps_inject: "keeps s (snd (inject_context (Some t) source content sn s))"
  using keeps_message [of s t "msg_injected_user_context source content" sn]
  by (simp add: inject_context_def record_message_def record_persistent_internal_context_def Let_def
    map_context_def)

lemma keeps_goal_effect:
  assumes "\<not> (turn = None \<and> injects eff)"
  shows "keeps s (snd (apply_goal_effect sample turn eff sn s))"
proof (cases "injects eff")
  case True
  then obtain t where t: "turn = Some t" using assms by (cases turn) auto
  have *: "keeps s (record_event sn' turn' k (snd (inject_context (Some t) source content sn s)))"
    if "neutral_kind k" for sn' turn' k source content
    by (rule keeps_trans [OF keeps_inject keeps_event [OF that]])
  from True show ?thesis
    by (cases eff)
      (auto simp: injects_def apply_goal_effect_def t Let_def case_prod_unfold
        intro!: * keeps_trans [OF * keeps_event])
next
  case False
  then show ?thesis
    by (cases eff) (auto simp: injects_def apply_goal_effect_def Let_def
      intro!: quiet_keeps quiet_intros)
qed

section \<open>Runs\<close>

lemma step_keeps:
  assumes "session_step E l sw sw'" "l \<noteq> StepLosesContext"
  shows "keeps (fst sw) (fst sw')"
  using assms
proof cases
  case (turn_event kind s w turn sn)
  then have "neutral_kind kind" by (cases kind) simp_all
  with turn_event show ?thesis by (simp add: keeps_event)
next
  case (live_event s w turn kind)
  then show ?thesis by (simp add: quiet_keeps quiet_intros)
next
  case (mail m s q w)
  then show ?thesis
    by (auto simp: keeps_def ctx_ok_def intro: extends_frame [OF extends_refl])
next
  case (tool p t sn call s w out s1 w1)
  then show ?thesis by (simp add: keeps_tool_outcome quiet_execute)
next
  case (tool_error p t sn call s w e s1 w1)
  then show ?thesis by (simp add: quiet_keeps quiet_execute)
next
  case (tool_cut s w a sn t mutating)
  then show ?thesis by (simp add: quiet_keeps quiet_intros)
next
  case (interrupt turn s pm r s1 pm1 w)
  then show ?thesis by (simp add: quiet_keeps quiet_interrupt)
next
  case (goal_effect turn eff s w sn)
  then show ?thesis using assms(2) by (auto intro: keeps_goal_effect)
qed (simp_all add: keeps_inject keeps_user_turn keeps_drain keeps_assistant keeps_usage keeps_approval
  keeps_user_input keeps_interrupted keeps_manual keeps_compact_before keeps_compact_after)

lemma run_keeps:
  "session_run E lost sw sw' \<Longrightarrow> StepLosesContext \<notin> lost \<Longrightarrow> keeps (fst sw) (fst sw')"
  by (induction rule: session_run.induct) (auto dest!: step_keeps elim: keeps_trans)

text \<open>Every step extends the ledger, whatever its label.\<close>

lemma inject_extends: "extends s (snd (inject_context turn source content sn s))"
  by (cases turn) (auto simp: inject_context_def Let_def case_prod_unfold
    intro!: extends_intros extends_frame [OF extends_refl [of s]])

lemma step_extends:
  assumes "session_step E l sw sw'" shows "extends (fst sw) (fst sw')"
proof (cases "l = StepLosesContext")
  case False
  with step_keeps [OF assms] show ?thesis by (simp add: keeps_def)
next
  case True
  with assms show ?thesis
  proof cases
    case (goal_effect turn eff s w sn)
    then show ?thesis
      using inject_extends [of s turn]
      by (cases eff) (auto simp: injects_def apply_goal_effect_def Let_def case_prod_unfold
        intro!: extends_intros)
  qed (auto simp: tool_label_def intro: extends_frame [OF extends_refl] split: if_splits)
qed

lemma run_extends: "session_run E lost sw sw' \<Longrightarrow> extends (fst sw) (fst sw')"
  by (induction rule: session_run.induct) (auto dest!: step_extends elim: extends_trans)

end
