(* ===== verification/Restart.thy ===== *)
theory Restart
  imports SessionRun
begin

text \<open>
  What a restart finds. A thread is loaded from its ledger by \<open>session_new\<close>; the theorems follow a
  loaded thread through any run (theory SessionRun) and load the ledger of the run again.
\<close>

section \<open>Identifiers\<close>

lemma is_digit_digit_char: "d < 10 \<Longrightarrow> is_digit (digit_char d)"
  by (simp add: is_digit_def byte_digit_char)

lemma show_nat_digits: "list_all is_digit (show_nat n)"
proof (induction n rule: show_nat.induct)
  case (1 n)
  then show ?case
    by (cases "n < 10") (simp_all add: show_nat.simps [of n] is_digit_digit_char)
qed

lemma parse_show_nat [simp]: "n \<le> u64_max \<Longrightarrow> parse_u64 (show_nat n) = Some n"
proof -
  assume n: "n \<le> u64_max"
  obtain c cs where s: "show_nat n = c # cs" by (cases "show_nat n") auto
  have "is_digit c" using show_nat_digits [of n] s by simp
  then have "c \<noteq> CHR ''+''" by (auto simp: is_digit_def byte_def)
  then show ?thesis using n s show_nat_digits [of n] read_show_nat [of n]
    by (simp add: parse_u64_def)
qed

lemma parse_event_id [simp]:
  "n \<le> u64_max \<Longrightarrow> parse_event_index (event_id_of n) = Some n"
  by (simp add: parse_event_index_def event_id_of_def strip_prefix_def)

lemma event_id_inj [simp]: "event_id_of m = event_id_of n \<longleftrightarrow> m = n"
  by (simp add: event_id_of_def show_nat_inj)

lemma max_or_0_ge: "n \<in> set ns \<Longrightarrow> n \<le> max_or_0 ns"
  unfolding max_or_0_def by (induction ns) auto

lemma max_or_0_append: "max_or_0 (xs @ ys) = max (max_or_0 xs) (max_or_0 ys)"
  unfolding max_or_0_def by (induction xs) auto

lemma next_event_index_fresh:
  assumes "next_event_index es \<le> n" "n \<le> u64_max"
  shows "event_id_of n \<notin> ev_event_id ` set es"
proof
  assume "event_id_of n \<in> ev_event_id ` set es"
  then obtain e where e: "e \<in> set es" "ev_event_id e = event_id_of n" by auto
  then have "n \<in> set (List.map_filter (\<lambda>e. parse_event_index (ev_event_id e)) es)"
    using assms(2) by (force simp: map_filter_def)
  from max_or_0_ge [OF this] assms(1) show False by (simp add: next_event_index_def)
qed

lemma next_event_index_snoc:
  "n \<le> u64_max \<Longrightarrow> next_event_index es = n \<Longrightarrow> ev_event_id e = event_id_of n \<Longrightarrow>
   next_event_index (es @ [e]) = Suc n"
  by (simp add: next_event_index_def map_filter_def max_or_0_append) (simp add: max_or_0_def)

section \<open>Loading\<close>

lemma find_meta_append: "find_meta xs = Some m \<Longrightarrow> find_meta (xs @ ys) = Some m"
  by (induction xs rule: find_meta.induct) simp_all

lemma snapshot_meta:
  "(\<exists>sn. snapshot_from_rollout_items t items = Inr sn) \<longleftrightarrow>
   (\<exists>m. find_meta items = Some m \<and> me_thread_id m = t)"
  by (auto simp: snapshot_from_rollout_items_def Let_def split: option.split if_splits)

lemma snapshot_profile:
  "snapshot_from_rollout_items t items = Inr sn \<Longrightarrow> find_meta items = Some m \<Longrightarrow>
   sn_permission_profile sn = me_permission_profile m"
  by (auto simp: snapshot_from_rollout_items_def Let_def split: if_splits)

text \<open>The session before an unfinished turn is closed.\<close>

definition loaded_session ::
  "thread_id \<Rightarrow> nat \<Rightarrow> rollout_item list \<Rightarrow> thread_snapshot \<Rightarrow> live_session" where
  "loaded_session t cap items sn =
     (let events = events_from_rollout_items items in
      \<lparr>ls_thread_id = t, ls_ledger = items, ls_next_event = next_event_index events,
       ls_cap = max cap 1, ls_snapshot = sn, ls_overlay = overlay_from_events events,
       ls_events = drop (length events - max cap 1) events,
       ls_context = context_from_rollout_items items, ls_inbox = inbox_new t\<rparr>)"

definition close_turn :: "rollout_item list \<Rightarrow> live_session \<Rightarrow> live_session" where
  "close_turn items s =
     (case unfinished_turn_without_external_wait (events_from_rollout_items items) (ls_overlay s) of
        None \<Rightarrow> s
      | Some turn \<Rightarrow> record_event (ls_snapshot s) (Some turn)
          (EkRuntimeError resumed_unfinished_message) s)"

lemma loaded_session_simps [simp]:
  "ls_thread_id (loaded_session t cap items sn) = t"
  "ls_ledger (loaded_session t cap items sn) = items"
  "ls_cap (loaded_session t cap items sn) = max cap 1"
  "ls_next_event (loaded_session t cap items sn) = next_event_index (events_from_rollout_items items)"
  "ls_snapshot (loaded_session t cap items sn) = sn"
  "ls_overlay (loaded_session t cap items sn) = overlay_from_events (events_from_rollout_items items)"
  "ls_context (loaded_session t cap items sn) = context_from_rollout_items items"
  by (simp_all add: loaded_session_def Let_def)

lemma session_new_eq:
  "session_new t cap items =
     (case snapshot_from_rollout_items t items of
        Inl e \<Rightarrow> Inl e
      | Inr sn \<Rightarrow>
          if permission_profile_is_supported (sn_permission_profile sn)
          then Inr (close_turn items
            (loaded_session t cap items (sync_snapshot (context_from_rollout_items items) sn)))
          else Inl (Anyhow (''unsupported permission profile: '' @
            permission_profile_as_str (sn_permission_profile sn))))"
  by (cases "snapshot_from_rollout_items t items")
    (simp_all add: session_new_def restore_from_rollout_def bind_res_def Let_def close_turn_def
      loaded_session_def sync_snapshot_def split: option.split)

definition loads :: "thread_id \<Rightarrow> rollout_item list \<Rightarrow> bool" where
  "loads t items \<longleftrightarrow> (case find_meta items of None \<Rightarrow> False
     | Some m \<Rightarrow> me_thread_id m = t \<and> permission_profile_is_supported (me_permission_profile m))"

lemma session_new_loads: "(\<exists>s. session_new t cap items = Inr s) \<longleftrightarrow> loads t items"
  by (auto simp: session_new_eq loads_def snapshot_from_rollout_items_def Let_def
    split: option.splits if_splits)

lemma loads_append: "loads t xs \<Longrightarrow> loads t (xs @ ys)"
  by (auto simp: loads_def find_meta_append split: option.splits)

lemma session_newE:
  assumes "session_new t cap items = Inr s"
  obtains sn where "snapshot_from_rollout_items t items = Inr sn"
    and "permission_profile_is_supported (sn_permission_profile sn)"
    and "s = close_turn items
      (loaded_session t cap items (sync_snapshot (context_from_rollout_items items) sn))"
  using assms by (auto simp: session_new_eq split: sum.splits if_splits)

lemma quiet_close_turn: "quiet s (close_turn items s)"
  by (auto simp: close_turn_def split: option.split intro!: quiet_intros)

lemma session_new_keeps:
  assumes "session_new t cap items = Inr s"
  shows "ctx_ok s" "ls_thread_id s = t" "\<exists>ys. ls_ledger s = items @ ys"
proof -
  from assms obtain sn where s: "s = close_turn items
      (loaded_session t cap items (sync_snapshot (context_from_rollout_items items) sn))"
    (is "s = close_turn items ?s0") by (rule session_newE)
  have "ctx_ok ?s0" by (simp add: ctx_ok_def)
  with quiet_close_turn show "ctx_ok s" unfolding s by (rule ctx_ok_quiet)
  from quiet_close_turn [of ?s0 items] have "extends ?s0 s" unfolding s by (rule quiet_extends)
  then show "ls_thread_id s = t" "\<exists>ys. ls_ledger s = items @ ys" by (auto simp: extends_def)
qed

lemma run_restores:
  assumes new: "session_new t cap items = Inr s0"
    and run: "session_run E lost (s0, w) (s, w')" and lost: "StepLosesContext \<notin> lost"
  shows "\<exists>s1. session_new t cap' (ls_ledger s) = Inr s1 \<and>
     cx_items (ls_context s1) = cx_items (ls_context s) \<and>
     cx_reference (ls_context s1) = cx_reference (ls_context s) \<and>
     cx_token_info (ls_context s1) = cx_token_info (ls_context s)"
proof -
  from run_keeps [OF run lost] have k: "keeps s0 s" by simp
  from session_new_keeps [OF new] obtain ys where ok: "ctx_ok s0" and ys: "ls_ledger s0 = items @ ys"
    by auto
  from k obtain zs where "ls_ledger s = ls_ledger s0 @ zs" by (auto simp: keeps_def extends_def)
  then have "loads t (ls_ledger s)"
    using session_new_loads [of t cap items] new ys by (simp add: loads_append)
  then obtain s1 where s1: "session_new t cap' (ls_ledger s) = Inr s1"
    using session_new_loads by blast
  then have "ls_context s1 = context_from_rollout_items (ls_ledger s)"
    by (rule session_newE) (use quiet_close_turn in \<open>auto simp: quiet_def\<close>)
  moreover have "ctx_ok s" using k ok by (simp add: keeps_def)
  ultimately show ?thesis using s1 by (auto simp: ctx_ok_def same_history_def)
qed


definition sample_items :: "rollout_item list" where
  "sample_items = [ThreadMeta one_line_meta]"

definition sample_turn :: assistant_turn where
  "sample_turn = \<lparr>at_text = Some ''done'', at_tool_calls = [], at_reasoning = []\<rparr>"

lemma sample_events [simp]: "events_from_rollout_items sample_items = []"
  by (simp add: sample_items_def events_from_rollout_items_def map_filter_def)

lemma sample_loads: "\<exists>s. session_new ''t'' 5 sample_items = Inr s"
  by (simp add: session_new_loads loads_def sample_items_def one_line_meta_def)


text \<open>
  A context injected while no turn runs is lost at a restart. A goal effect that injects a
  message (the new objective, the budget notice) and is applied outside a turn puts the message
  into the history of the model and not into the ledger, so the session loaded afterwards is
  without it.
\<close>

theorem injected_context_is_lost:
  assumes "session_new t cap items = Inr s"
    and "session_new t cap' (ls_ledger
           (snd (handle_goal_runtime_effect sample (GeEmitUpdatedAndInject g source content) s))) = Inr s1"
  shows "cx_items (ls_context
           (snd (handle_goal_runtime_effect sample (GeEmitUpdatedAndInject g source content) s))) =
       cx_items (ls_context s1) @ [msg_injected_user_context source content]"
proof -
  let ?s' = "snd (handle_goal_runtime_effect sample (GeEmitUpdatedAndInject g source content) s)"
  have ledger: "context_from_rollout_items (ls_ledger ?s') = context_from_rollout_items (ls_ledger s)"
    by (simp add: handle_goal_runtime_effect_def apply_goal_effect_def inject_context_def
      record_persistent_internal_context_def Let_def)
  have "ls_context s1 = context_from_rollout_items (ls_ledger ?s')"
    using assms(2) by (rule session_newE) (use quiet_close_turn in \<open>auto simp: quiet_def\<close>)
  with ledger session_new_keeps(1) [OF assms(1)]
  have "cx_items (ls_context s1) = cx_items (ls_context s)" by (simp add: ctx_ok_def same_history_def)
  then show ?thesis
    by (simp add: handle_goal_runtime_effect_def apply_goal_effect_def inject_context_def
      record_persistent_internal_context_def Let_def record_items_def)
qed

definition sample_goal :: thread_goal where
  "sample_goal = \<lparr>tg_thread_id = ''t'', tg_goal_id = ''g'', tg_objective = ''o'', tg_status = GsActive,
     tg_token_budget = None, tg_tokens_used = 0, tg_time_used_seconds = 0,
     tg_continuation_suppressed = False, tg_continuation_suppressed_after_turn_id = None,
     tg_created_at_ms = 0, tg_updated_at_ms = 0\<rparr>"

lemma effect_ledger: "\<exists>ys. ls_ledger (snd (handle_goal_runtime_effect sample eff s)) = ls_ledger s @ ys"
  using step_extends [OF session_step.goal_effect [where E = "undefined\<lparr>env_sample := sample\<rparr>"
      and turn = None and eff = eff and s = s and w = "()" and sn = "ls_snapshot s"]]
  by (auto simp: extends_def handle_goal_runtime_effect_def)

theorem injected_context_is_lost_witness:
  "\<exists>s s1. session_new ''t'' 5 sample_items = Inr s \<and>
     session_new ''t'' 5 (ls_ledger (snd (handle_goal_runtime_effect (\<lambda>_. None)
       (GeEmitUpdatedAndInject sample_goal ''goal'' ''new objective'') s))) = Inr s1 \<and>
     cx_items (ls_context (snd (handle_goal_runtime_effect (\<lambda>_. None)
       (GeEmitUpdatedAndInject sample_goal ''goal'' ''new objective'') s))) =
       cx_items (ls_context s1) @ [msg_injected_user_context ''goal'' ''new objective'']"
proof -
  obtain s where s: "session_new ''t'' 5 sample_items = Inr s" using sample_loads by blast
  let ?s' = "snd (handle_goal_runtime_effect (\<lambda>_. None)
    (GeEmitUpdatedAndInject sample_goal ''goal'' ''new objective'') s)"
  obtain ys zs where "ls_ledger ?s' = ls_ledger s @ ys" "ls_ledger s = sample_items @ zs"
    using effect_ledger session_new_keeps(3) [OF s] by blast
  then have "loads ''t'' (ls_ledger ?s')"
    using session_new_loads [of "''t''" 5 sample_items] s by (simp add: loads_append)
  then obtain s1 where s1: "session_new ''t'' 5 (ls_ledger ?s') = Inr s1"
    using session_new_loads by blast
  from injected_context_is_lost [OF s s1] s s1 show ?thesis by blast
qed

section \<open>Event identifiers\<close>



section \<open>No turn is left open\<close>

text \<open>The event that closes a turn changes nothing of what is restored.\<close>

lemma snapshot_event:
  assumes "\<forall>i. ev_kind e \<noteq> EkTokenCount i"
  shows "snapshot_from_rollout_items t (items @ [EventMsg e]) = snapshot_from_rollout_items t items"
proof -
  have meta: "find_meta (items @ [EventMsg e]) = find_meta items"
    by (induction items rule: find_meta.induct) simp_all
  have rep: "replay (items @ [EventMsg e]) = replay items"
    using assms by (simp add: replay_def replay_step_def split: runtime_event_kind.split)
  show ?thesis unfolding snapshot_from_rollout_items_def meta rep ..
qed

lemma context_event:
  "\<forall>i. ev_kind e \<noteq> EkTokenCount i \<Longrightarrow>
   context_from_rollout_items (items @ [EventMsg e]) = context_from_rollout_items items"
  using neutral_event [of e] by (cases "ev_kind e") (simp_all add: neutral_def)

lemma overlay_error:
  "ev_kind e = EkRuntimeError m \<Longrightarrow> overlay_from_events (es @ [e]) = overlay_from_events es"
  by (simp add: overlay_from_events_def overlay_replay_from_events_def overlay_step_def)

lemma closed_by_error:
  "ev_kind e = EkRuntimeError m \<Longrightarrow> ev_turn_id e = Some t \<Longrightarrow>
   unfinished_turn_without_external_wait (es @ [e]) ov = None"
  by (simp add: unfinished_turn_without_external_wait_def latest_turn_id_def map_filter_def)

lemma push_live_drop:
  "0 < cap \<Longrightarrow> push_live cap (drop (length es - cap) es) e =
   drop (length (es @ [e]) - cap) (es @ [e])"
  by (cases "length es < cap") (auto simp: push_live_def Let_def Suc_diff_le)


text \<open>A ledger whose last turn was running.\<close>

definition crashed_items :: "rollout_item list" where
  "crashed_items = [ThreadMeta one_line_meta, EventMsg \<lparr>ev_event_id = ''evt_1'',
     ev_thread_id = ''t'', ev_turn_id = Some ''turn_1'', ev_kind = EkTurnStarted\<rparr>]"

definition crashed_events :: "runtime_event list" where
  "crashed_events = [\<lparr>ev_event_id = ''evt_1'', ev_thread_id = ''t'', ev_turn_id = Some ''turn_1'',
     ev_kind = EkTurnStarted\<rparr>]"

lemma crashed_events_of: "events_from_rollout_items crashed_items = crashed_events"
  by (simp add: crashed_items_def crashed_events_def events_from_rollout_items_def map_filter_def)

lemma crashed_unfinished:
  "unfinished_turn_without_external_wait crashed_events (overlay_from_events crashed_events) =
     Some ''turn_1''"
  by code_simp

lemma crashed_next: "next_event_index crashed_events = 2"
  using parse_event_id [of 1]
  by (simp add: event_id_of_def show_nat_small u64_max_def crashed_events_def next_event_index_def
    map_filter_def max_or_0_def)


end
