(* ===== verification/ThreadRuntime.thy ===== *)
theory ThreadRuntime
  imports ThreadSession AgentTools Restart
begin

text \<open>
  The runtime of a loaded thread (\<^verbatim>\<open>src/runtime/thread_runtime\<close>): the reservation of turns,
  the queue of the actor, and the interrupt of a running turn. Callers and the actor share the
  reservations, so the whole is a step relation; what a handler does to the session is the subject
  of theory SessionRun, and here only its phases matter: it races its work against the interrupt a
  fixed number of times and works alone in between.
\<close>

section \<open>Reservations\<close>

text \<open>
  The channel of an interrupt: whether the sender is still in its cell, whether the receiver is
  alive, whether a value was sent, and the permit of the notification that answers it. The turn it
  was made for is kept beside it.
\<close>

record oneshot =
  os_sender :: bool
  os_receiver :: bool
  os_signal :: bool
  os_permit :: bool
  os_turn :: "turn_id option"

definition oneshot_new :: "turn_id option \<Rightarrow> oneshot" where
  "oneshot_new t =
     \<lparr>os_sender = True, os_receiver = True, os_signal = False, os_permit = False, os_turn = t\<rparr>"

record active_turn =
  av_public :: "turn_id option"
  av_chan :: nat

record turn_reservations =
  rv_next :: nat
  rv_active :: "active_turn option"

definition reservations_new :: "nat \<Rightarrow> turn_reservations" where
  "reservations_new n = \<lparr>rv_next = n, rv_active = None\<rparr>"

definition turn_id_of :: "nat \<Rightarrow> turn_id" where
  "turn_id_of n = ''turn_'' @ show_nat n"

definition reserve_next ::
  "thread_id \<Rightarrow> nat \<Rightarrow> turn_reservations \<Rightarrow> (error + turn_id) \<times> turn_reservations" where
  "reserve_next thread c rs =
     (if rv_active rs \<noteq> None then (Inl (ThreadBusy thread), rs)
      else let t = turn_id_of (rv_next rs) in
        (Inr t, rs\<lparr>rv_next := u64_sat_add (rv_next rs) 1,
                   rv_active := Some \<lparr>av_public = Some t, av_chan = c\<rparr>\<rparr>))"

definition reserve_record ::
  "thread_id \<Rightarrow> turn_id option \<Rightarrow> nat \<Rightarrow> turn_reservations \<Rightarrow> (error + unit) \<times> turn_reservations"
  where
  "reserve_record thread public c rs =
     (if rv_active rs \<noteq> None then (Inl (ThreadBusy thread), rs)
      else (Inr (), rs\<lparr>rv_active := Some \<lparr>av_public = public, av_chan = c\<rparr>\<rparr>))"

definition active_turn_id :: "turn_reservations \<Rightarrow> turn_id option" where
  "active_turn_id rs = Option.bind (rv_active rs) av_public"

definition drop_guard :: "turn_reservations \<Rightarrow> turn_reservations" where
  "drop_guard rs = rs\<lparr>rv_active := None\<rparr>"

text \<open>
  The request of an interrupt up to its wait: the turn and the channel whose answer it waits for, or
  an error. A refused send has taken the sender too.
\<close>

definition signal_interrupt ::
  "thread_id \<Rightarrow> turn_id option \<Rightarrow> turn_reservations \<Rightarrow> oneshot list \<Rightarrow>
   (error + (turn_id \<times> nat)) \<times> oneshot list" where
  "signal_interrupt thread requested rs chans =
     (case rv_active rs of
        None \<Rightarrow> (Inl (Anyhow ''thread has no active turn''), chans)
      | Some a \<Rightarrow>
        (case av_public a of
           None \<Rightarrow> (Inl (TurnRejected thread ''active operation is not interruptible''), chans)
         | Some t \<Rightarrow>
           if (case requested of None \<Rightarrow> False | Some r \<Rightarrow> r \<noteq> t)
           then (Inl (TurnRejected thread (''active turn is '' @ t)), chans)
           else
             let c = av_chan a; ch = chans ! c;
                 chans1 = chans[c := ch\<lparr>os_sender := False\<rparr>]
             in if os_sender ch \<and> os_receiver ch
                then (Inr (t, c), chans[c := ch\<lparr>os_sender := False, os_signal := True\<rparr>])
                else (Inl (TurnRejected thread ''active turn is already interrupting or completed''),
                      chans1)))"

section \<open>Operations and the actor\<close>

datatype (plugins only: code size) thread_op =
    OpUserInput turn_id "user_input list" "thread_turn_context option"
  | OpGoalContinuation turn_id string
  | OpInterrupt "turn_id option"
  | OpApprovalDecision "turn_id option" string approval_status "string option"
  | OpSubmitUserInput "turn_id option" string bool
  | OpGoalRuntimeEffect goal_effect
  | OpManualCompaction
  | OpShutdown

definition op_turn :: "thread_op \<Rightarrow> turn_id option" where
  "op_turn op = (case op of OpUserInput t _ _ \<Rightarrow> Some t | OpGoalContinuation t _ \<Rightarrow> Some t
     | _ \<Rightarrow> None)"

definition is_control :: "thread_op \<Rightarrow> bool" where
  "is_control op = (case op of OpInterrupt _ \<Rightarrow> True | OpApprovalDecision _ _ _ _ \<Rightarrow> True
     | OpSubmitUserInput _ _ _ \<Rightarrow> True | OpGoalRuntimeEffect eff \<Rightarrow> eff \<noteq> GeNone
     | OpShutdown \<Rightarrow> True | _ \<Rightarrow> False)"

text \<open>A submission carries the interrupt channel of its turn and the guard of its reservation.\<close>

record submission =
  sb_op :: thread_op
  sb_chan :: "nat option"
  sb_guard :: bool

text \<open>
  The phases of a handler: it works on its own with a number of races still ahead, it races its work
  against the interrupt, or it has returned and the guard is about to be dropped. A turn of the user
  races twice (the compaction before the turn, and the turn), a continuation once.
\<close>

datatype phase = Working nat | Racing nat | Returned

definition races_of :: "thread_op \<Rightarrow> nat" where
  "races_of op = (case op of OpUserInput _ _ _ \<Rightarrow> 2 | OpGoalContinuation _ _ \<Rightarrow> 1 | _ \<Rightarrow> 0)"

text \<open>
  The state: the queue of the actor and the submission it handles, the reservations and channels,
  the callers that wait for an interrupt with the channel they wait on, the turns recorded as
  interrupted, the interrupts confirmed to a caller, and the turn identifiers handed out.
\<close>

record thread_runtime =
  ru_thread :: thread_id
  ru_reservations :: turn_reservations
  ru_chans :: "oneshot list"
  ru_queue :: "submission list"
  ru_current :: "(submission \<times> phase) option"
  ru_waiters :: "(nat \<times> turn_id) list"
  ru_interrupted :: "turn_id list"
  ru_confirmed :: "turn_id list"
  ru_issued :: "turn_id list"
  ru_stopped :: bool

definition thread_op_channel_capacity :: nat where
  "thread_op_channel_capacity = 64"

definition runtime_new :: "thread_id \<Rightarrow> nat \<Rightarrow> thread_runtime" where
  "runtime_new thread seed =
     \<lparr>ru_thread = thread, ru_reservations = reservations_new seed, ru_chans = [], ru_queue = [],
      ru_current = None, ru_waiters = [], ru_interrupted = [], ru_confirmed = [], ru_issued = [],
      ru_stopped = False\<rparr>"

text \<open>A caller waits until the queue has room.\<close>

definition has_room :: "thread_runtime \<Rightarrow> bool" where
  "has_room st \<longleftrightarrow> length (ru_queue st) < thread_op_channel_capacity"

text \<open>A turn is reserved with a fresh channel and queued (\<open>send_user_input_parts\<close>, and the actor
  for pending mail and for the continuation of a goal).\<close>

definition submit_turn ::
  "(turn_id \<Rightarrow> thread_op) \<Rightarrow> thread_runtime \<Rightarrow> (error + turn_id) \<times> thread_runtime" where
  "submit_turn mk st =
     (if ru_stopped st then (Inl (Anyhow ''thread runtime is stopped''), st)
      else let c = length (ru_chans st) in
      case reserve_next (ru_thread st) c (ru_reservations st) of
        (Inl e, rs) \<Rightarrow> (Inl e, st\<lparr>ru_reservations := rs\<rparr>)
      | (Inr t, rs) \<Rightarrow>
          (Inr t, st\<lparr>ru_reservations := rs, ru_chans := ru_chans st @ [oneshot_new (Some t)],
             ru_queue := ru_queue st @ [\<lparr>sb_op = mk t, sb_chan = Some c, sb_guard = True\<rparr>],
             ru_issued := ru_issued st @ [t]\<rparr>))"

text \<open>The receiver of a manual compaction is dropped at once: it cannot be interrupted.\<close>

definition compact_now :: "thread_runtime \<Rightarrow> (error + unit) \<times> thread_runtime" where
  "compact_now st =
     (if ru_stopped st then (Inl (Anyhow ''thread runtime is stopped''), st)
      else case reserve_record (ru_thread st) None (length (ru_chans st)) (ru_reservations st) of
        (Inl e, rs) \<Rightarrow> (Inl e, st\<lparr>ru_reservations := rs\<rparr>)
      | (Inr _, rs) \<Rightarrow>
          (Inr (), st\<lparr>ru_reservations := rs,
             ru_chans := ru_chans st @ [(oneshot_new None)\<lparr>os_receiver := False\<rparr>],
             ru_queue := ru_queue st @
               [\<lparr>sb_op = OpManualCompaction, sb_chan = None, sb_guard = True\<rparr>]\<rparr>))"

definition submit_control :: "thread_op \<Rightarrow> thread_runtime \<Rightarrow> thread_runtime" where
  "submit_control op st =
     st\<lparr>ru_queue := ru_queue st @ [\<lparr>sb_op = op, sb_chan = None, sb_guard = False\<rparr>]\<rparr>"

definition request_interrupt :: "turn_id option \<Rightarrow> thread_runtime \<Rightarrow> thread_runtime" where
  "request_interrupt requested st =
     (case signal_interrupt (ru_thread st) requested (ru_reservations st) (ru_chans st) of
        (Inl e, chans) \<Rightarrow> st\<lparr>ru_chans := chans\<rparr>
      | (Inr (t, c), chans) \<Rightarrow> st\<lparr>ru_chans := chans, ru_waiters := (c, t) # ru_waiters st\<rparr>)"

definition drop_receiver :: "nat option \<Rightarrow> oneshot list \<Rightarrow> oneshot list" where
  "drop_receiver c chans = (case c of None \<Rightarrow> chans
     | Some c \<Rightarrow> chans[c := (chans ! c)\<lparr>os_receiver := False\<rparr>])"

definition drop_submission :: "submission \<Rightarrow> thread_runtime \<Rightarrow> thread_runtime" where
  "drop_submission sb st =
     st\<lparr>ru_chans := drop_receiver (sb_chan sb) (ru_chans st),
        ru_reservations := (if sb_guard sb then drop_guard (ru_reservations st)
                            else ru_reservations st)\<rparr>"

text \<open>
  The steps. Submitting and requesting an interrupt come from callers at any time; the actor takes
  a submission, runs its handler through the phases, drops the guard, and takes the next one. A
  caller that waits is answered when the permit of its channel is there.
\<close>

inductive runtime_step :: "thread_runtime \<Rightarrow> thread_runtime \<Rightarrow> bool" where
  submit: "has_room st \<Longrightarrow> submit_turn mk st = (Inr t, st') \<Longrightarrow> op_turn (mk t) = Some t \<Longrightarrow> runtime_step st st'"
| compact: "has_room st \<Longrightarrow> compact_now st = (Inr u, st') \<Longrightarrow> runtime_step st st'"
| control: "has_room st \<Longrightarrow> \<not> ru_stopped st \<Longrightarrow> is_control op \<Longrightarrow> runtime_step st (submit_control op st)"
| interrupt: "runtime_step st (request_interrupt requested st)"
| take_op: "ru_current st = None \<Longrightarrow> \<not> ru_stopped st \<Longrightarrow> ru_queue st = sb # q \<Longrightarrow> sb_op sb \<noteq> OpShutdown \<Longrightarrow>
    runtime_step st (st\<lparr>ru_queue := q, ru_current := Some (sb, Working (races_of (sb_op sb)))\<rparr>)"
| race: "ru_current st = Some (sb, Working (Suc n)) \<Longrightarrow>
    runtime_step st (st\<lparr>ru_current := Some (sb, Racing n)\<rparr>)"
| work_wins: "ru_current st = Some (sb, Racing n) \<Longrightarrow>
    runtime_step st (st\<lparr>ru_current := Some (sb, Working n)\<rparr>)"
| interrupt_wins: "ru_current st = Some (sb, Racing n) \<Longrightarrow> sb_chan sb = Some c \<Longrightarrow>
    os_signal (ru_chans st ! c) \<Longrightarrow> op_turn (sb_op sb) = Some t \<Longrightarrow>
    runtime_step st (st\<lparr>ru_current := Some (sb, Returned),
      ru_chans := (ru_chans st)[c := (ru_chans st ! c)\<lparr>os_permit := True, os_receiver := False\<rparr>],
      ru_interrupted := t # ru_interrupted st\<rparr>)"
| returns: "ru_current st = Some (sb, Working n) \<Longrightarrow>
    runtime_step st (st\<lparr>ru_current := Some (sb, Returned),
      ru_chans := drop_receiver (sb_chan sb) (ru_chans st)\<rparr>)"
| finish: "ru_current st = Some (sb, Returned) \<Longrightarrow>
    runtime_step st (drop_submission sb (st\<lparr>ru_current := None\<rparr>))"
| shutdown: "ru_current st = None \<Longrightarrow> ru_queue st = sb # q \<Longrightarrow> sb_op sb = OpShutdown \<Longrightarrow>
    runtime_step st (fold drop_submission q (st\<lparr>ru_queue := [], ru_stopped := True\<rparr>))"
| confirm: "(c, t) \<in> set (ru_waiters st) \<Longrightarrow> os_permit (ru_chans st ! c) \<Longrightarrow>
    runtime_step st (st\<lparr>ru_waiters := removeAll (c, t) (ru_waiters st),
      ru_chans := (ru_chans st)[c := (ru_chans st ! c)\<lparr>os_permit := False\<rparr>],
      ru_confirmed := t # ru_confirmed st\<rparr>)"

abbreviation runtime_steps :: "thread_runtime \<Rightarrow> thread_runtime \<Rightarrow> bool" where
  "runtime_steps \<equiv> runtime_step\<^sup>*\<^sup>*"

section \<open>The invariant\<close>

definition guards :: "thread_runtime \<Rightarrow> submission list" where
  "guards st = filter sb_guard ((case ru_current st of None \<Rightarrow> [] | Some (sb, _) \<Rightarrow> [sb]) @ ru_queue st)"

text \<open>The submissions whose handler can still see the interrupt.\<close>

definition pending :: "thread_runtime \<Rightarrow> submission list" where
  "pending st = (case ru_current st of None \<Rightarrow> [] | Some (sb, ph) \<Rightarrow> if ph = Returned then [] else [sb])
     @ ru_queue st"

definition chan_ok :: "thread_runtime \<Rightarrow> nat \<Rightarrow> turn_id option \<Rightarrow> bool" where
  "chan_ok st c t \<longleftrightarrow> c < length (ru_chans st) \<and> os_turn (ru_chans st ! c) = t"

definition sub_ok :: "thread_runtime \<Rightarrow> submission \<Rightarrow> bool" where
  "sub_ok st sb \<longleftrightarrow> sb_guard sb = (op_turn (sb_op sb) \<noteq> None \<or> sb_op sb = OpManualCompaction) \<and>
     (case sb_chan sb of None \<Rightarrow> op_turn (sb_op sb) = None
      | Some c \<Rightarrow> op_turn (sb_op sb) \<noteq> None \<and> chan_ok st c (op_turn (sb_op sb)))"

text \<open>The active record belongs to the one submission that holds the guard.\<close>

definition active_ok :: "thread_runtime \<Rightarrow> bool" where
  "active_ok st \<longleftrightarrow>
     (case rv_active (ru_reservations st) of
        None \<Rightarrow> guards st = []
      | Some a \<Rightarrow> chan_ok st (av_chan a) (av_public a) \<and>
          (\<exists>sb. guards st = [sb] \<and> av_public a = op_turn (sb_op sb) \<and>
             (av_public a \<noteq> None \<longrightarrow> sb_chan sb = Some (av_chan a))))"

definition runtime_ok :: "thread_runtime \<Rightarrow> bool" where
  "runtime_ok st \<longleftrightarrow> active_ok st \<and>
     (\<forall>sb \<in> set (pending st). sub_ok st sb \<and>
        (case sb_chan sb of None \<Rightarrow> True | Some c \<Rightarrow> os_receiver (ru_chans st ! c))) \<and>
     (case ru_current st of None \<Rightarrow> True | Some (sb, _) \<Rightarrow> sub_ok st sb) \<and>
     (\<forall>(c, t) \<in> set (ru_waiters st). chan_ok st c (Some t) \<and> os_signal (ru_chans st ! c)) \<and>
     (\<forall>c < length (ru_chans st). os_permit (ru_chans st ! c) \<longrightarrow>
        os_turn (ru_chans st ! c) \<in> Some ` set (ru_interrupted st)) \<and>
     set (ru_confirmed st) \<subseteq> set (ru_interrupted st)"

lemma nth_update: "xs[i := x] ! j = (if i = j \<and> i < length xs then x else xs ! j)"
  by (cases "i < length xs") (auto simp: nth_list_update list_update_beyond)

text \<open>Channels keep their turn, whatever happens to them.\<close>

definition same_turns :: "oneshot list \<Rightarrow> oneshot list \<Rightarrow> bool" where
  "same_turns cs ds \<longleftrightarrow> length cs \<le> length ds \<and> (\<forall>c < length cs. os_turn (ds ! c) = os_turn (cs ! c))"

lemma same_turns_update:
  "os_turn ch = os_turn (cs ! c) \<Longrightarrow> same_turns cs (cs[c := ch])"
  by (auto simp: same_turns_def nth_update)

lemma same_turns_intros [simp]:
  "same_turns cs cs" "same_turns cs (cs @ ds)" "same_turns cs (drop_receiver c cs)"
  "same_turns cs (cs[i := (cs ! i)\<lparr>os_permit := b\<rparr>])"
  "same_turns cs (cs[i := (cs ! i)\<lparr>os_permit := b, os_receiver := b'\<rparr>])"
  "same_turns cs (cs[i := (cs ! i)\<lparr>os_sender := b\<rparr>])"
  "same_turns cs (cs[i := (cs ! i)\<lparr>os_sender := b, os_signal := b'\<rparr>])"
  by (auto simp: same_turns_def nth_append nth_update drop_receiver_def split: option.split)

lemma chan_ok_mono:
  "chan_ok st c t \<Longrightarrow> same_turns (ru_chans st) (ru_chans st') \<Longrightarrow> chan_ok st' c t"
  by (auto simp: chan_ok_def same_turns_def)

lemma sub_ok_mono:
  "sub_ok st sb \<Longrightarrow> same_turns (ru_chans st) (ru_chans st') \<Longrightarrow> sub_ok st' sb"
  by (auto simp: sub_ok_def intro: chan_ok_mono split: option.splits)

lemma active_ok_mono:
  "active_ok st \<Longrightarrow> same_turns (ru_chans st) (ru_chans st') \<Longrightarrow>
   ru_reservations st' = ru_reservations st \<Longrightarrow> guards st' = guards st \<Longrightarrow> active_ok st'"
  by (auto simp: active_ok_def intro: chan_ok_mono split: option.splits)

lemma drop_receiver_simps [simp]:
  "length (drop_receiver c cs) = length cs"
  "os_permit (drop_receiver c cs ! i) = os_permit (cs ! i)"
  "os_signal (drop_receiver c cs ! i) = os_signal (cs ! i)"
  "os_turn (drop_receiver c cs ! i) = os_turn (cs ! i)"
  "os_receiver (drop_receiver c cs ! i) \<longleftrightarrow>
     os_receiver (cs ! i) \<and> (c \<noteq> Some i \<or> length cs \<le> i)"
  by (auto simp: drop_receiver_def nth_update split: option.split)

text \<open>The parts of the invariant, for one state.\<close>

lemma runtime_okD:
  assumes "runtime_ok st"
  shows "active_ok st"
    and "sb \<in> set (pending st) \<Longrightarrow> sub_ok st sb"
    and "sb \<in> set (pending st) \<Longrightarrow> sb_chan sb = Some c \<Longrightarrow> os_receiver (ru_chans st ! c)"
    and "ru_current st = Some (sb, ph) \<Longrightarrow> sub_ok st sb"
    and "(c, t) \<in> set (ru_waiters st) \<Longrightarrow> chan_ok st c (Some t) \<and> os_signal (ru_chans st ! c)"
    and "c < length (ru_chans st) \<Longrightarrow> os_permit (ru_chans st ! c) \<Longrightarrow>
      os_turn (ru_chans st ! c) \<in> Some ` set (ru_interrupted st)"
    and "set (ru_confirmed st) \<subseteq> set (ru_interrupted st)"
  using assms by (auto simp: runtime_ok_def)

lemma runtime_okI:
  assumes "active_ok st"
    and "\<And>sb. sb \<in> set (pending st) \<Longrightarrow> sub_ok st sb"
    and "\<And>sb c. sb \<in> set (pending st) \<Longrightarrow> sb_chan sb = Some c \<Longrightarrow> os_receiver (ru_chans st ! c)"
    and "\<And>sb ph. ru_current st = Some (sb, ph) \<Longrightarrow> sub_ok st sb"
    and "\<And>c t. (c, t) \<in> set (ru_waiters st) \<Longrightarrow> chan_ok st c (Some t) \<and> os_signal (ru_chans st ! c)"
    and "\<And>c. c < length (ru_chans st) \<Longrightarrow> os_permit (ru_chans st ! c) \<Longrightarrow>
      os_turn (ru_chans st ! c) \<in> Some ` set (ru_interrupted st)"
    and "set (ru_confirmed st) \<subseteq> set (ru_interrupted st)"
  shows "runtime_ok st"
  using assms unfolding runtime_ok_def by (auto split: option.split)

lemma runtime_ok_new: "runtime_ok (runtime_new t n)"
  by (simp add: runtime_ok_def runtime_new_def reservations_new_def active_ok_def guards_def pending_def)

lemma pending_chan:
  assumes "runtime_ok st" "sb \<in> set (pending st)" "sb_chan sb = Some c"
  shows "c < length (ru_chans st)" "os_receiver (ru_chans st ! c)"
    and "os_turn (ru_chans st ! c) = op_turn (sb_op sb)"
  using runtime_okD(2,3) [OF assms(1,2)] assms(3) by (auto simp: sub_ok_def chan_ok_def)

text \<open>Each step keeps the invariant.\<close>

lemma ok_submit:
  assumes ok: "runtime_ok st" and sub: "submit_turn mk st = (Inr t, st')"
    and mk: "op_turn (mk t) = Some t"
  shows "runtime_ok st'"
proof -
  let ?c = "length (ru_chans st)"
  let ?sb = "\<lparr>sb_op = mk t, sb_chan = Some ?c, sb_guard = True\<rparr>"
  have none: "rv_active (ru_reservations st) = None" and t: "t = turn_id_of (rv_next (ru_reservations st))"
    and st': "st' = st\<lparr>ru_reservations := (ru_reservations st)
        \<lparr>rv_next := u64_sat_add (rv_next (ru_reservations st)) 1,
         rv_active := Some \<lparr>av_public = Some t, av_chan = ?c\<rparr>\<rparr>,
      ru_chans := ru_chans st @ [oneshot_new (Some t)], ru_queue := ru_queue st @ [?sb],
      ru_issued := ru_issued st @ [t]\<rparr>"
    using sub by (auto simp: submit_turn_def reserve_next_def Let_def split: if_splits)
  have same: "same_turns (ru_chans st) (ru_chans st')" by (simp add: st')
  have g: "guards st' = guards st @ [?sb]" and p: "pending st' = pending st @ [?sb]"
    by (simp_all add: st' guards_def pending_def)
  have new: "chan_ok st' ?c (Some t)" by (simp add: chan_ok_def st' oneshot_new_def)
  have g0: "guards st = []" using runtime_okD(1) [OF ok] none by (simp add: active_ok_def)
  show ?thesis
  proof (rule runtime_okI)
    show "active_ok st'" using g g0 new mk by (simp add: active_ok_def st')
    show "sub_ok st' sb" if "sb \<in> set (pending st')" for sb
      using that new mk sub_ok_mono [OF runtime_okD(2) [OF ok] same]
      by (auto simp: p sub_ok_def)
    show "os_receiver (ru_chans st' ! c)" if "sb \<in> set (pending st')" "sb_chan sb = Some c" for sb c
    proof -
      from that consider "sb = ?sb" | "sb \<in> set (pending st)" by (auto simp: p)
      then show ?thesis
        by cases (use that pending_chan [OF ok] in \<open>auto simp: st' nth_append oneshot_new_def\<close>)
    qed
    show "sub_ok st' sb" if "ru_current st' = Some (sb, ph)" for sb ph
      using that sub_ok_mono [OF runtime_okD(4) [OF ok] same] by (auto simp: st')
    show "chan_ok st' c (Some t') \<and> os_signal (ru_chans st' ! c)"
      if "(c, t') \<in> set (ru_waiters st')" for c t'
      using that runtime_okD(5) [OF ok, of c t'] chan_ok_mono [OF _ same]
      by (auto simp: st' chan_ok_def nth_append)
  qed (use runtime_okD(6,7) [OF ok] in \<open>auto simp: st' nth_append oneshot_new_def split: if_splits\<close>)
qed

lemma ok_change:
  assumes ok: "runtime_ok st"
    and same: "same_turns (ru_chans st) (ru_chans st')" "length (ru_chans st') = length (ru_chans st)"
    and active: "active_ok st'"
    and pend: "set (pending st') \<subseteq> set (pending st)"
    and recv: "\<And>sb c. sb \<in> set (pending st') \<Longrightarrow> sb_chan sb = Some c \<Longrightarrow> os_receiver (ru_chans st' ! c)"
    and cur: "\<And>sb ph. ru_current st' = Some (sb, ph) \<Longrightarrow> sub_ok st sb"
    and wait: "set (ru_waiters st') \<subseteq> set (ru_waiters st)"
    and sig: "\<And>c. os_signal (ru_chans st ! c) \<Longrightarrow> os_signal (ru_chans st' ! c)"
    and perm: "\<And>c. c < length (ru_chans st) \<Longrightarrow> os_permit (ru_chans st' ! c) \<Longrightarrow>
      os_permit (ru_chans st ! c) \<or> os_turn (ru_chans st ! c) \<in> Some ` set (ru_interrupted st')"
    and intr: "set (ru_interrupted st) \<subseteq> set (ru_interrupted st')"
    and conf: "set (ru_confirmed st') \<subseteq> set (ru_interrupted st')"
  shows "runtime_ok st'"
proof (rule runtime_okI)
  show "sub_ok st' sb" if "sb \<in> set (pending st')" for sb
    using that pend sub_ok_mono [OF runtime_okD(2) [OF ok] same(1)] by auto
  show "sub_ok st' sb" if "ru_current st' = Some (sb, ph)" for sb ph
    using sub_ok_mono [OF cur [OF that] same(1)] .
  show "chan_ok st' c (Some t) \<and> os_signal (ru_chans st' ! c)" if "(c, t) \<in> set (ru_waiters st')" for c t
    using that wait sig runtime_okD(5) [OF ok, of c t] chan_ok_mono [OF _ same(1)] by auto
  show "os_turn (ru_chans st' ! c) \<in> Some ` set (ru_interrupted st')"
    if "c < length (ru_chans st')" "os_permit (ru_chans st' ! c)" for c
    using perm [of c] that same runtime_okD(6) [OF ok, of c] intr by (auto simp: same_turns_def)
qed (use assms in auto)

text \<open>While a turn is being handled, nothing in the queue has a channel.\<close>

lemma only_guard:
  assumes "runtime_ok st" "ru_current st = Some (sb, ph)" "sb_chan sb \<noteq> None"
    and "sb' \<in> set (ru_queue st)"
  shows "sb_chan sb' = None" "\<not> sb_guard sb'"
proof -
  have "sub_ok st sb'" using runtime_okD(2) [OF assms(1), of sb'] assms(4) by (simp add: pending_def)
  moreover have "sb_guard sb" using runtime_okD(4) [OF assms(1,2)] assms(3)
    by (auto simp: sub_ok_def)
  moreover have "length (guards st) \<le> 1" using runtime_okD(1) [OF assms(1)]
    by (auto simp: active_ok_def split: option.splits)
  ultimately show "\<not> sb_guard sb'" using assms(2,4) by (auto simp: guards_def filter_empty_conv)
  with \<open>sub_ok st sb'\<close> show "sb_chan sb' = None" by (auto simp: sub_ok_def split: option.splits)
qed

lemma ok_compact:
  assumes ok: "runtime_ok st" and sub: "compact_now st = (Inr u, st')"
  shows "runtime_ok st'"
proof -
  let ?c = "length (ru_chans st)" and ?ch = "(oneshot_new None)\<lparr>os_receiver := False\<rparr>"
  let ?sb = "\<lparr>sb_op = OpManualCompaction, sb_chan = None, sb_guard = True\<rparr>"
  have none: "rv_active (ru_reservations st) = None"
    and st': "st' = st\<lparr>ru_reservations := (ru_reservations st)
        \<lparr>rv_active := Some \<lparr>av_public = None, av_chan = ?c\<rparr>\<rparr>,
      ru_chans := ru_chans st @ [?ch], ru_queue := ru_queue st @ [?sb]\<rparr>"
    using sub by (auto simp: compact_now_def reserve_record_def split: if_splits)
  have same: "same_turns (ru_chans st) (ru_chans st')" by (simp add: st')
  have g: "guards st' = [?sb]" and p: "pending st' = pending st @ [?sb]"
    using runtime_okD(1) [OF ok] none by (simp_all add: active_ok_def st' guards_def pending_def)
  show ?thesis
  proof (rule runtime_okI)
    show "active_ok st'" using g
      by (simp add: active_ok_def st' chan_ok_def oneshot_new_def op_turn_def)
    show "sub_ok st' sb" if "sb \<in> set (pending st')" for sb
      using that sub_ok_mono [OF runtime_okD(2) [OF ok] same]
      by (auto simp: p sub_ok_def op_turn_def)
    show "os_receiver (ru_chans st' ! c)" if "sb \<in> set (pending st')" "sb_chan sb = Some c" for sb c
      using that pending_chan [OF ok, of sb c] by (auto simp: p) (auto simp: st' nth_append)
    show "sub_ok st' sb" if "ru_current st' = Some (sb, ph)" for sb ph
      using that sub_ok_mono [OF runtime_okD(4) [OF ok] same] by (auto simp: st')
    show "chan_ok st' c (Some t') \<and> os_signal (ru_chans st' ! c)"
      if "(c, t') \<in> set (ru_waiters st')" for c t'
      using that runtime_okD(5) [OF ok, of c t'] chan_ok_mono [OF _ same]
      by (auto simp: st' chan_ok_def nth_append)
  qed (use runtime_okD(6,7) [OF ok] in \<open>auto simp: st' nth_append oneshot_new_def split: if_splits\<close>)
qed

lemma chan_update_simps [simp]:
  "os_permit (cs[c := (cs ! c)\<lparr>os_sender := b\<rparr>] ! i) = os_permit (cs ! i)"
  "os_signal (cs[c := (cs ! c)\<lparr>os_sender := b\<rparr>] ! i) = os_signal (cs ! i)"
  "os_receiver (cs[c := (cs ! c)\<lparr>os_sender := b\<rparr>] ! i) = os_receiver (cs ! i)"
  "os_permit (cs[c := (cs ! c)\<lparr>os_sender := b, os_signal := b'\<rparr>] ! i) = os_permit (cs ! i)"
  "os_receiver (cs[c := (cs ! c)\<lparr>os_sender := b, os_signal := b'\<rparr>] ! i) = os_receiver (cs ! i)"
  "os_signal (cs ! i) \<Longrightarrow> os_signal (cs[c := (cs ! c)\<lparr>os_sender := b, os_signal := True\<rparr>] ! i)"
  "os_signal (cs[c := (cs ! c)\<lparr>os_permit := b\<rparr>] ! i) = os_signal (cs ! i)"
  "os_receiver (cs[c := (cs ! c)\<lparr>os_permit := b\<rparr>] ! i) = os_receiver (cs ! i)"
  "os_signal (cs[c := (cs ! c)\<lparr>os_permit := b, os_receiver := b'\<rparr>] ! i) = os_signal (cs ! i)"
  by (simp_all add: nth_update)

lemma waiters_frame [simp]:
  "chan_ok (st\<lparr>ru_waiters := ws\<rparr>) = chan_ok st" "sub_ok (st\<lparr>ru_waiters := ws\<rparr>) = sub_ok st"
  "guards (st\<lparr>ru_waiters := ws\<rparr>) = guards st" "pending (st\<lparr>ru_waiters := ws\<rparr>) = pending st"
  "active_ok (st\<lparr>ru_waiters := ws\<rparr>) = active_ok st"
  by (simp_all add: chan_ok_def sub_ok_def guards_def pending_def active_ok_def fun_eq_iff
    cong: option.case_cong)

lemma ok_waiter:
  assumes "runtime_ok st" "chan_ok st c (Some t)" "os_signal (ru_chans st ! c)"
  shows "runtime_ok (st\<lparr>ru_waiters := (c, t) # ru_waiters st\<rparr>)"
  by (rule runtime_okI) (use assms runtime_okD [OF assms(1)] in auto)

lemma ok_request:
  assumes ok: "runtime_ok st" shows "runtime_ok (request_interrupt requested st)"
proof -
  have upd: "runtime_ok (st\<lparr>ru_chans := (ru_chans st)[c := (ru_chans st ! c)\<lparr>os_sender := False\<rparr>]\<rparr>)"
    for c
    by (rule ok_change [OF ok])
      (use runtime_okD(1,3,4,7) [OF ok] in \<open>auto simp: pending_def
        intro: active_ok_mono simp: guards_def\<close>)
  show ?thesis
  proof (cases "signal_interrupt (ru_thread st) requested (ru_reservations st) (ru_chans st)")
    case (Pair r chans)
    show ?thesis
    proof (cases r)
      case (Inl e)
      then show ?thesis using Pair ok upd
        by (auto simp: request_interrupt_def signal_interrupt_def Let_def split: option.splits if_splits)
    next
      case (Inr tc)
      obtain t c where tc: "tc = (t, c)" by force
      let ?ch = "ru_chans st ! c"
      have act: "\<exists>a. rv_active (ru_reservations st) = Some a \<and> av_public a = Some t \<and> av_chan a = c"
        and ch: "chans = (ru_chans st)[c := ?ch\<lparr>os_sender := False, os_signal := True\<rparr>]"
        using Pair Inr tc
        by (auto simp: signal_interrupt_def Let_def split: option.splits if_splits)
      have c: "chan_ok st c (Some t)" using act runtime_okD(1) [OF ok] by (auto simp: active_ok_def)
      have "runtime_ok (st\<lparr>ru_chans := chans\<rparr>)"
        by (rule ok_change [OF ok])
          (use runtime_okD(1,3,4,7) [OF ok] in \<open>auto simp: ch pending_def
            intro: active_ok_mono simp: guards_def\<close>)
      moreover have "chan_ok (st\<lparr>ru_chans := chans\<rparr>) c (Some t)" "os_signal (chans ! c)"
        using c by (auto simp: chan_ok_def ch)
      ultimately show ?thesis
        using ok_waiter [of "st\<lparr>ru_chans := chans\<rparr>" c t]
        by (simp add: request_interrupt_def Pair Inr tc)
    qed
  qed
qed

text \<open>The actor's own steps.\<close>

lemma ok_control: "runtime_ok st \<Longrightarrow> is_control op \<Longrightarrow> runtime_ok (submit_control op st)"
proof -
  let ?sb = "\<lparr>sb_op = op, sb_chan = None, sb_guard = False\<rparr>"
  assume ok: "runtime_ok st" and op: "is_control op"
  have p: "pending (submit_control op st) = pending st @ [?sb]"
    and g: "guards (submit_control op st) = guards st"
    by (simp_all add: submit_control_def pending_def guards_def)
  have frame: "chan_ok (submit_control op st) = chan_ok st" "sub_ok (submit_control op st) = sub_ok st"
    by (simp_all add: chan_ok_def sub_ok_def submit_control_def fun_eq_iff cong: option.case_cong)
  have sb: "sub_ok st ?sb" using op
    by (cases op) (auto simp: sub_ok_def op_turn_def is_control_def)
  have act: "active_ok (submit_control op st)" using runtime_okD(1) [OF ok]
    by (rule active_ok_mono) (simp_all add: g, simp_all add: submit_control_def)
  show ?thesis
    by (rule runtime_okI [OF act])
      (use runtime_okD [OF ok] sb in \<open>auto simp: p frame\<close>, auto simp: submit_control_def)
qed

lemma ok_phase:
  assumes ok: "runtime_ok st" and cur: "ru_current st = Some (sb, ph)" and "ph \<noteq> Returned" "ph' \<noteq> Returned"
  shows "runtime_ok (st\<lparr>ru_current := Some (sb, ph')\<rparr>)"
proof (rule ok_change [OF ok])
  show "active_ok (st\<lparr>ru_current := Some (sb, ph')\<rparr>)"
    using runtime_okD(1) [OF ok] by (rule active_ok_mono) (simp_all add: guards_def cur)
qed (use assms runtime_okD(3,4,7) [OF ok] in \<open>auto simp: pending_def\<close>)

lemma ok_take:
  assumes ok: "runtime_ok st" and "ru_current st = None" "ru_queue st = sb # q"
  shows "runtime_ok (st\<lparr>ru_queue := q, ru_current := Some (sb, Working n)\<rparr>)"
proof (rule ok_change [OF ok])
  show "active_ok (st\<lparr>ru_queue := q, ru_current := Some (sb, Working n)\<rparr>)"
    using runtime_okD(1) [OF ok] by (rule active_ok_mono) (simp_all add: guards_def assms)
qed (use assms runtime_okD(2,3,7) [OF ok] in \<open>auto simp: pending_def\<close>)

lemma ok_returns:
  assumes ok: "runtime_ok st" and cur: "ru_current st = Some (sb, Working n)"
  shows "runtime_ok (st\<lparr>ru_current := Some (sb, Returned),
    ru_chans := drop_receiver (sb_chan sb) (ru_chans st)\<rparr>)"
proof (rule ok_change [OF ok])
  show "active_ok (st\<lparr>ru_current := Some (sb, Returned),
      ru_chans := drop_receiver (sb_chan sb) (ru_chans st)\<rparr>)"
    using runtime_okD(1) [OF ok] by (rule active_ok_mono) (simp_all add: guards_def cur)
  show "os_receiver (ru_chans (st\<lparr>ru_current := Some (sb, Returned),
      ru_chans := drop_receiver (sb_chan sb) (ru_chans st)\<rparr>) ! c)"
    if "sb' \<in> set (pending (st\<lparr>ru_current := Some (sb, Returned),
      ru_chans := drop_receiver (sb_chan sb) (ru_chans st)\<rparr>))" "sb_chan sb' = Some c" for sb' c
    using that only_guard [OF ok cur, of sb'] runtime_okD(3) [OF ok, of sb' c] cur
    by (auto simp: pending_def)
qed (use runtime_okD(4,7) [OF ok] cur in \<open>auto simp: pending_def\<close>)

lemma ok_interrupt_wins:
  assumes ok: "runtime_ok st" and cur: "ru_current st = Some (sb, Racing n)" and c: "sb_chan sb = Some c"
    and t: "op_turn (sb_op sb) = Some t"
  shows "runtime_ok (st\<lparr>ru_current := Some (sb, Returned),
      ru_chans := (ru_chans st)[c := (ru_chans st ! c)\<lparr>os_permit := True, os_receiver := False\<rparr>],
      ru_interrupted := t # ru_interrupted st\<rparr>)" (is "runtime_ok ?st")
proof (rule ok_change [OF ok])
  have turn: "os_turn (ru_chans st ! c) = Some t"
    using pending_chan(3) [OF ok _ c] cur t by (simp add: pending_def)
  show "active_ok ?st"
    using runtime_okD(1) [OF ok] by (rule active_ok_mono) (simp_all add: guards_def cur)
  show "os_permit (ru_chans st ! i) \<or> os_turn (ru_chans st ! i) \<in> Some ` set (ru_interrupted ?st)"
    if "i < length (ru_chans st)" "os_permit (ru_chans ?st ! i)" for i
    using that turn by (auto simp: nth_update split: if_splits)
  show "os_receiver (ru_chans ?st ! i)" if "sb' \<in> set (pending ?st)" "sb_chan sb' = Some i" for sb' i
    using that only_guard [OF ok cur, of sb'] c by (simp add: pending_def)
qed (use runtime_okD(4,7) [OF ok] cur in \<open>auto simp: pending_def\<close>)

lemma ok_finish:
  assumes ok: "runtime_ok st" and cur: "ru_current st = Some (sb, Returned)"
  shows "runtime_ok (drop_submission sb (st\<lparr>ru_current := None\<rparr>))" (is "runtime_ok ?st")
proof (rule ok_change [OF ok])
  show "active_ok ?st"
  proof (cases "sb_guard sb")
    case True
    then have "filter sb_guard (ru_queue st) = []"
      using runtime_okD(1) [OF ok] cur by (auto simp: active_ok_def guards_def split: option.splits)
    then show ?thesis using True
      by (simp add: active_ok_def drop_submission_def drop_guard_def guards_def)
  next
    case False
    show ?thesis
      by (rule active_ok_mono [OF runtime_okD(1) [OF ok]])
        (use False cur in \<open>simp_all add: drop_submission_def guards_def\<close>)
  qed
  show "os_receiver (ru_chans ?st ! c)" if "sb' \<in> set (pending ?st)" "sb_chan sb' = Some c" for sb' c
    using that only_guard [OF ok cur, of sb'] runtime_okD(3) [OF ok, of sb' c] cur
    by (auto simp: drop_submission_def pending_def)
qed (use runtime_okD(7) [OF ok] cur in \<open>auto simp: drop_submission_def pending_def\<close>)

lemma drop_fold:
  "ru_queue (fold drop_submission q st) = ru_queue st"
  "ru_current (fold drop_submission q st) = ru_current st"
  "ru_waiters (fold drop_submission q st) = ru_waiters st"
  "ru_interrupted (fold drop_submission q st) = ru_interrupted st"
  "ru_confirmed (fold drop_submission q st) = ru_confirmed st"
  "ru_issued (fold drop_submission q st) = ru_issued st"
  "rv_next (ru_reservations (fold drop_submission q st)) = rv_next (ru_reservations st)"
  "length (ru_chans (fold drop_submission q st)) = length (ru_chans st)"
  "os_turn (ru_chans (fold drop_submission q st) ! c) = os_turn (ru_chans st ! c)"
  "os_signal (ru_chans (fold drop_submission q st) ! c) = os_signal (ru_chans st ! c)"
  "os_permit (ru_chans (fold drop_submission q st) ! c) = os_permit (ru_chans st ! c)"
  "rv_active (ru_reservations (fold drop_submission q st)) =
     (if filter sb_guard q = [] then rv_active (ru_reservations st) else None)"
  by (induction q arbitrary: st) (auto simp: drop_submission_def drop_guard_def)

lemma drop_fold_receiver:
  "os_receiver (ru_chans (fold drop_submission q st) ! c) \<Longrightarrow> os_receiver (ru_chans st ! c)"
proof (induction q arbitrary: st)
  case (Cons sb q)
  from Cons.IH [of "drop_submission sb st"] Cons.prems show ?case by (simp add: drop_submission_def)
qed simp

lemma ok_shutdown:
  assumes ok: "runtime_ok st" and cur: "ru_current st = None" "ru_queue st = sb # q" "sb_op sb = OpShutdown"
  shows "runtime_ok (fold drop_submission q (st\<lparr>ru_queue := [], ru_stopped := True\<rparr>))" (is "runtime_ok ?st")
proof (rule ok_change [OF ok])
  have "sub_ok st sb" using runtime_okD(2) [OF ok, of sb] cur by (simp add: pending_def)
  then have "\<not> sb_guard sb" using cur by (simp add: sub_ok_def op_turn_def)
  then have "guards st = filter sb_guard q" using cur by (simp add: guards_def)
  then show "active_ok ?st" using runtime_okD(1) [OF ok] cur
    by (auto simp: active_ok_def drop_fold guards_def split: option.splits)
qed (use runtime_okD(7) [OF ok] cur in \<open>auto simp: drop_fold same_turns_def pending_def\<close>)

lemma ok_confirm:
  assumes ok: "runtime_ok st" and w: "(c, t) \<in> set (ru_waiters st)" "os_permit (ru_chans st ! c)"
  shows "runtime_ok (st\<lparr>ru_waiters := removeAll (c, t) (ru_waiters st),
      ru_chans := (ru_chans st)[c := (ru_chans st ! c)\<lparr>os_permit := False\<rparr>],
      ru_confirmed := t # ru_confirmed st\<rparr>)" (is "runtime_ok ?st")
proof (rule ok_change [OF ok])
  show "active_ok ?st"
    by (rule active_ok_mono [OF runtime_okD(1) [OF ok]]) (simp_all add: guards_def)
  show "set (ru_confirmed ?st) \<subseteq> set (ru_interrupted ?st)"
    using runtime_okD(5,6) [OF ok] w runtime_okD(7) [OF ok] by (fastforce simp: chan_ok_def)
  show "os_permit (ru_chans st ! i) \<or> os_turn (ru_chans st ! i) \<in> Some ` set (ru_interrupted ?st)"
    if "i < length (ru_chans st)" "os_permit (ru_chans ?st ! i)" for i
    using that by (auto simp: nth_update split: if_splits)
  show "os_receiver (ru_chans ?st ! i)" if "sb \<in> set (pending ?st)" "sb_chan sb = Some i" for sb i
    using that runtime_okD(3) [OF ok, of sb i] by (simp add: pending_def)
qed (use runtime_okD(4) [OF ok] in \<open>auto simp: pending_def\<close>)

lemma runtime_step_ok: "runtime_step st st' \<Longrightarrow> runtime_ok st \<Longrightarrow> runtime_ok st'"
proof (induction rule: runtime_step.induct)
  case (race st sb n)
  then show ?case by (auto intro: ok_phase)
next
  case (work_wins st sb n)
  then show ?case by (auto intro: ok_phase)
qed (auto intro: ok_submit ok_compact ok_control ok_request ok_take ok_interrupt_wins ok_returns
  ok_finish ok_shutdown ok_confirm)

lemma runtime_steps_ok: "runtime_steps st st' \<Longrightarrow> runtime_ok st \<Longrightarrow> runtime_ok st'"
  by (induction rule: rtranclp_induct) (auto intro: runtime_step_ok)

section \<open>One turn at a time\<close>

lemma runtime_reach_ok: "runtime_steps (runtime_new thread seed) st \<Longrightarrow> runtime_ok st"
  using runtime_steps_ok runtime_ok_new by blast


text \<open>A runtime that has queued one turn.\<close>

definition sample_op :: "turn_id \<Rightarrow> thread_op" where
  "sample_op t = OpUserInput t [] None"

definition busy_runtime :: thread_runtime where
  "busy_runtime = snd (submit_turn sample_op (runtime_new ''t'' 1))"

lemma submit_new:
  "submit_turn sample_op (runtime_new thread seed) = (Inr (turn_id_of seed),
     (runtime_new thread seed)\<lparr>ru_reservations := \<lparr>rv_next = u64_sat_add seed 1,
        rv_active = Some \<lparr>av_public = Some (turn_id_of seed), av_chan = 0\<rparr>\<rparr>,
      ru_chans := [oneshot_new (Some (turn_id_of seed))],
      ru_queue := [\<lparr>sb_op = sample_op (turn_id_of seed), sb_chan = Some 0, sb_guard = True\<rparr>],
      ru_issued := [turn_id_of seed]\<rparr>)"
  by (simp add: submit_turn_def has_room_def runtime_new_def thread_op_channel_capacity_def
    reserve_next_def reservations_new_def Let_def)

lemma submit_new_steps:
  "runtime_steps (runtime_new thread seed) (snd (submit_turn sample_op (runtime_new thread seed)))"
  by (rule r_into_rtranclp, rule runtime_step.submit [where mk = sample_op and t = "turn_id_of seed"])
    (simp_all add: submit_new, simp_all add: sample_op_def op_turn_def has_room_def runtime_new_def
      thread_op_channel_capacity_def)


section \<open>Turn identifiers\<close>

lemma step_issued:
  assumes "runtime_step st st'"
  shows "(ru_issued st' = ru_issued st \<and> rv_next (ru_reservations st') = rv_next (ru_reservations st)) \<or>
    (ru_issued st' = ru_issued st @ [turn_id_of (rv_next (ru_reservations st))] \<and>
     rv_next (ru_reservations st') = u64_sat_add (rv_next (ru_reservations st)) 1)"
  using assms
  by cases
    (auto simp: submit_turn_def compact_now_def reserve_next_def reserve_record_def Let_def
      submit_control_def request_interrupt_def drop_submission_def drop_guard_def drop_fold
      split: if_splits sum.splits prod.splits)

lemma steps_issued:
  assumes "runtime_steps (runtime_new thread seed) st"
  shows "rv_next (ru_reservations st) < u64_max \<Longrightarrow>
    seed \<le> rv_next (ru_reservations st) \<and>
    ru_issued st = map turn_id_of [seed..<rv_next (ru_reservations st)]"
  using assms
proof (induction rule: rtranclp_induct)
  case base
  then show ?case by (simp add: runtime_new_def reservations_new_def)
next
  case (step st st')
  let ?n = "rv_next (ru_reservations st)"
  from step_issued [OF step.hyps(2)] show ?case
  proof (elim disjE conjE)
    assume "ru_issued st' = ru_issued st @ [turn_id_of ?n]"
      "rv_next (ru_reservations st') = u64_sat_add ?n 1"
    with step.prems step.IH show ?thesis by (auto simp: u64_sat_add_def min_def split: if_splits)
  qed (use step in simp)
qed

lemma turn_id_inj [simp]: "turn_id_of m = turn_id_of n \<longleftrightarrow> m = n"
  by (simp add: turn_id_of_def show_nat_inj)

lemma parse_turn_id [simp]: "n \<le> u64_max \<Longrightarrow> parse_turn_index (turn_id_of n) = Some n"
  by (simp add: parse_turn_index_def turn_id_of_def strip_prefix_def)

text \<open>
  Turn identifiers are never reused. A runtime that starts with the index read from the ledger
  hands out identifiers that are pairwise distinct and differ from every turn identifier of the
  ledger, as long as the 64-bit index is not used up.
\<close>

theorem turn_ids_fresh:
  assumes steps: "runtime_steps (runtime_new thread (next_turn_index_from_rollout_items items)) st"
    and bound: "rv_next (ru_reservations st) < u64_max"
  shows "distinct (ru_issued st) \<and>
    set (ru_issued st) \<inter> set (concat (map turn_ids_from_rollout_item items)) = {}"
proof (rule conjI)
  let ?seed = "next_turn_index_from_rollout_items items"
  let ?ids = "concat (map turn_ids_from_rollout_item items)"
  have issued: "ru_issued st = map turn_id_of [?seed..<rv_next (ru_reservations st)]"
    using steps_issued [OF steps bound] by simp
  then show "distinct (ru_issued st)" by (simp add: distinct_map inj_on_def)
  have "turn_id_of n \<notin> set ?ids" if "?seed \<le> n" "n < u64_max" for n
  proof
    assume "turn_id_of n \<in> set ?ids"
    then have "n \<in> set (List.map_filter parse_turn_index ?ids)"
      using that(2) by (force simp: map_filter_def)
    from max_or_0_ge [OF this] that(1) show False
      by (simp add: next_turn_index_from_rollout_items_def)
  qed
  with bound issued show "set (ru_issued st) \<inter> set ?ids = {}" by fastforce
qed

theorem turn_ids_fresh_witness:
  "distinct (ru_issued (snd (submit_turn sample_op
     (runtime_new ''t'' (next_turn_index_from_rollout_items crashed_items)))))"
proof -
  have "parse_turn_index ''turn_1'' = Some 1"
    using parse_turn_id [of 1] by (simp add: turn_id_of_def show_nat_small u64_max_def)
  then have "next_turn_index_from_rollout_items crashed_items = 2"
    by (simp add: crashed_items_def next_turn_index_from_rollout_items_def
      turn_ids_from_rollout_item_def map_filter_def max_or_0_def)
  then show ?thesis
    using turn_ids_fresh [OF submit_new_steps]
    by (simp add: submit_new u64_sat_add_def u64_max_def)
qed

section \<open>Interrupts\<close>


text \<open>The turn of \<open>busy_runtime\<close> in its phases, and an interrupt requested in a phase.\<close>

definition in_phase :: "phase \<Rightarrow> thread_runtime" where
  "in_phase ph = busy_runtime\<lparr>ru_queue := [],
     ru_current := Some (\<lparr>sb_op = sample_op (turn_id_of 1), sb_chan = Some 0, sb_guard = True\<rparr>, ph)\<rparr>"

lemma busy_eq: "busy_runtime = (runtime_new ''t'' 1)\<lparr>ru_reservations := \<lparr>rv_next = u64_sat_add 1 1,
        rv_active = Some \<lparr>av_public = Some (turn_id_of 1), av_chan = 0\<rparr>\<rparr>,
      ru_chans := [oneshot_new (Some (turn_id_of 1))],
      ru_queue := [\<lparr>sb_op = sample_op (turn_id_of 1), sb_chan = Some 0, sb_guard = True\<rparr>],
      ru_issued := [turn_id_of 1]\<rparr>"
  by (simp add: busy_runtime_def submit_new)

lemma busy_takes: "runtime_step busy_runtime (in_phase (Working 2))"
proof -
  let ?sb = "\<lparr>sb_op = sample_op (turn_id_of 1), sb_chan = Some 0, sb_guard = True\<rparr>"
  have "runtime_step busy_runtime
      (busy_runtime\<lparr>ru_queue := [], ru_current := Some (?sb, Working (races_of (sb_op ?sb)))\<rparr>)"
    by (rule runtime_step.take_op) (simp_all add: busy_eq runtime_new_def sample_op_def)
  then show ?thesis by (simp add: in_phase_def sample_op_def races_of_def)
qed

lemma phase_steps:
  "runtime_step (in_phase (Working (Suc n))) (in_phase (Racing n))"
  "runtime_step (in_phase (Racing n)) (in_phase (Working n))"
  using runtime_step.race [of "in_phase (Working (Suc n))"]
    runtime_step.work_wins [of "in_phase (Racing n)"]
  by (simp_all add: in_phase_def)

lemma phase_reach:
  "runtime_steps (runtime_new ''t'' 1) (in_phase (Racing 1))"
  "runtime_steps (runtime_new ''t'' 1) (in_phase (Working 0))"
proof -
  have "runtime_steps (runtime_new ''t'' 1) busy_runtime"
    unfolding busy_runtime_def by (rule submit_new_steps)
  also note busy_takes
  also have "in_phase (Working 2) = in_phase (Working (Suc 1))" by (simp add: numeral_2_eq_2)
  also note phase_steps(1)
  finally show r: "runtime_steps (runtime_new ''t'' 1) (in_phase (Racing 1))" .
  note r
  also note phase_steps(2)
  also have "in_phase (Working 1) = in_phase (Working (Suc 0))" by simp
  also note phase_steps(1)
  also note phase_steps(2)
  finally show "runtime_steps (runtime_new ''t'' 1) (in_phase (Working 0))" .
qed

definition waiting_in :: "phase \<Rightarrow> thread_runtime" where
  "waiting_in ph = request_interrupt None (in_phase ph)"

lemma waiting_in_eq:
  "waiting_in ph = (in_phase ph)\<lparr>ru_waiters := [(0, turn_id_of 1)],
     ru_chans := [(oneshot_new (Some (turn_id_of 1)))\<lparr>os_sender := False, os_signal := True\<rparr>]\<rparr>"
  by (simp add: waiting_in_def request_interrupt_def signal_interrupt_def in_phase_def busy_eq
    runtime_new_def oneshot_new_def Let_def)


text \<open>A waiter whose receiver is gone and who has no permit waits forever.\<close>

definition stuck :: "nat \<Rightarrow> turn_id \<Rightarrow> thread_runtime \<Rightarrow> bool" where
  "stuck c t st \<longleftrightarrow> (c, t) \<in> set (ru_waiters st) \<and> c < length (ru_chans st) \<and>
     \<not> os_receiver (ru_chans st ! c) \<and> \<not> os_permit (ru_chans st ! c)"

lemma stuck_step:
  assumes step: "runtime_step st st'" and ok: "runtime_ok st" and stuck: "stuck c t st"
  shows "stuck c t st'"
proof -
  have "sb_chan sb \<noteq> Some c" if "sb \<in> set (pending st)" for sb
    using pending_chan(2) [OF ok that, of c] stuck by (auto simp: stuck_def)
  note nochan = this
  from step show ?thesis
  proof cases
    case (interrupt requested)
    then show ?thesis using stuck
      by (auto simp: stuck_def request_interrupt_def signal_interrupt_def Let_def nth_update
        split: option.splits if_splits prod.splits)
  next
    case (interrupt_wins sb n d u)
    then have "d \<noteq> c" using nochan [of sb] by (auto simp: pending_def)
    with interrupt_wins show ?thesis using stuck by (simp add: stuck_def nth_update)
  next
    case (shutdown sb q)
    then show ?thesis using stuck drop_fold_receiver
      by (fastforce simp: stuck_def drop_fold)
  next
    case (confirm d u)
    then show ?thesis using stuck by (auto simp: stuck_def nth_update)
  qed (use stuck in \<open>auto simp: stuck_def submit_turn_def compact_now_def submit_control_def nth_append
      drop_submission_def Let_def split: if_splits sum.splits prod.splits\<close>)
qed

lemma stuck_steps: "runtime_steps st st' \<Longrightarrow> runtime_ok st \<Longrightarrow> stuck c t st \<Longrightarrow> stuck c t st'"
proof (induction rule: rtranclp_induct)
  case (step st1 st2)
  then show ?case using stuck_step runtime_steps_ok by blast
qed simp


lemma stuck_forever:
  assumes "runtime_steps (runtime_new thread seed) st" "stuck c t st"
  shows "Collect (runtime_steps st) \<subseteq> {st'. (c, t) \<in> set (ru_waiters st')}"
  using stuck_steps [OF _ runtime_reach_ok [OF assms(1)] assms(2)] by (auto simp: stuck_def)

text \<open>
  A confirmed send is not always answered. When the interrupt is requested after the last race
  of a turn (its work is done, the goal runtime is told, a report may be sampled), the send succeeds
  and the caller waits; the turn then completes, nothing notifies the caller, and in every state
  that can follow the caller still waits.
\<close>

theorem late_interrupt_waits_forever:
  "\<exists>st. runtime_steps (runtime_new ''t'' 1) st \<and> ru_current st = None \<and> ru_queue st = [] \<and>
     Collect (runtime_steps st) \<subseteq> {st'. (0, turn_id_of 1) \<in> set (ru_waiters st')}"
proof -
  let ?st0 = "waiting_in (Working 0)"
  let ?sb = "\<lparr>sb_op = sample_op (turn_id_of 1), sb_chan = Some 0, sb_guard = True\<rparr>"
  let ?st1 = "?st0\<lparr>ru_current := Some (?sb, Returned), ru_chans := drop_receiver (Some 0) (ru_chans ?st0)\<rparr>"
  let ?st2 = "drop_submission ?sb (?st1\<lparr>ru_current := None\<rparr>)"
  have "runtime_steps (runtime_new ''t'' 1) ?st0"
    unfolding waiting_in_def
    by (rule rtranclp.rtrancl_into_rtrancl [OF phase_reach(2) runtime_step.interrupt])
  also have "runtime_step ?st0 ?st1"
    using runtime_step.returns [of ?st0 ?sb 0] by (simp add: waiting_in_eq in_phase_def)
  also have "runtime_step ?st1 ?st2"
    by (rule runtime_step.finish) simp
  finally have reach: "runtime_steps (runtime_new ''t'' 1) ?st2" .
  have "stuck 0 (turn_id_of 1) ?st2"
    by (simp add: stuck_def waiting_in_eq drop_submission_def drop_receiver_def oneshot_new_def)
  from stuck_forever [OF reach this]
  have "Collect (runtime_steps ?st2) \<subseteq> {st'. (0, turn_id_of 1) \<in> set (ru_waiters st')}" .
  moreover have "ru_current ?st2 = None" "ru_queue ?st2 = []"
    by (simp_all add: drop_submission_def waiting_in_eq in_phase_def)
  ultimately show ?thesis using reach by blast
qed

end
