(* ===== verification/GoalRuntime.thy ===== *)
theory GoalRuntime
  imports GoalPrompts ForgeGate ThreadSession
begin

text \<open>
  The goal runtime (\<^verbatim>\<open>src/runtime/goal/runtime.rs\<close>): it accounts tokens and time to
  the active goal of a thread, limits a goal that has used up its budget, decides whether the actor
  continues a goal, escalates rejected reviews, and reports a goal that has come to an end. Its
  state lives beside the database (theories GoalStore and Forge); both are one record here. An
  operation reads the clocks once.
\<close>

section \<open>State\<close>

datatype goal_turn_trigger = TriggerUser | TriggerGoalContinuation

record turn_accounting =
  ta_turn_id :: turn_id
  ta_trigger :: goal_turn_trigger
  ta_last_usage :: token_usage
  ta_active_goal :: "string option"
  ta_counted :: bool

text \<open>An instant is a number of milliseconds.\<close>

record wall_clock =
  wc_active_goal :: "string option"
  wc_last :: nat

record goal_runtime =
  gn_db :: index_db
  gn_turns :: "thread_id \<rightharpoonup> turn_accounting"
  gn_wall :: "thread_id \<rightharpoonup> wall_clock"
  gn_budget_reported :: "string set"
  gn_turn_counts :: "string \<rightharpoonup> int"
  gn_changed_files :: "string \<rightharpoonup> string list"
  gn_reported :: "string set"
  gn_pending :: "thread_id \<rightharpoonup> goal_effect"
  gn_notified :: "string set"

record clock =
  ck_now :: int
  ck_instant :: nat

definition goal_runtime_new :: "index_db \<Rightarrow> goal_runtime" where
  "goal_runtime_new db = \<lparr>gn_db = db, gn_turns = Map.empty, gn_wall = Map.empty,
     gn_budget_reported = {}, gn_turn_counts = Map.empty, gn_changed_files = Map.empty,
     gn_reported = {}, gn_pending = Map.empty, gn_notified = {}\<rparr>"

text \<open>Operations that may fail, over the state; a failure keeps what was done before it.\<close>

type_synonym 'a goal_op_result = "(error + 'a) \<times> goal_runtime"

definition and_then ::
  "(goal_runtime \<Rightarrow> 'a goal_op_result) \<Rightarrow> ('a \<Rightarrow> goal_runtime \<Rightarrow> 'b goal_op_result) \<Rightarrow>
   goal_runtime \<Rightarrow> 'b goal_op_result" where
  "and_then m f s = (case m s of (Inl e, s1) \<Rightarrow> (Inl e, s1) | (Inr x, s1) \<Rightarrow> f x s1)"

definition on_db :: "(index_db \<Rightarrow> (error + 'a) \<times> index_db) \<Rightarrow> goal_runtime \<Rightarrow> 'a goal_op_result" where
  "on_db f s = (case f (gn_db s) of (r, db) \<Rightarrow> (r, s\<lparr>gn_db := db\<rparr>))"

definition reading :: "(index_db \<Rightarrow> error + 'a) \<Rightarrow> goal_runtime \<Rightarrow> 'a goal_op_result" where
  "reading f s = (f (gn_db s), s)"

definition return_op :: "'a \<Rightarrow> goal_runtime \<Rightarrow> 'a goal_op_result" where
  "return_op x s = (Inr x, s)"

definition pure_op :: "(goal_runtime \<Rightarrow> 'a \<times> goal_runtime) \<Rightarrow> goal_runtime \<Rightarrow> 'a goal_op_result" where
  "pure_op f s = (case f s of (x, s1) \<Rightarrow> (Inr x, s1))"

section \<open>Conversions\<close>

fun status_protocol_from_record :: "goal_status \<Rightarrow> thread_goal_status" where
  "status_protocol_from_record GoalActive = GsActive"
| "status_protocol_from_record GoalPaused = GsPaused"
| "status_protocol_from_record GoalBlocked = GsBlocked"
| "status_protocol_from_record GoalUsageLimited = GsUsageLimited"
| "status_protocol_from_record GoalBudgetLimited = GsBudgetLimited"
| "status_protocol_from_record GoalComplete = GsComplete"

fun status_record_from_protocol :: "thread_goal_status \<Rightarrow> goal_status" where
  "status_record_from_protocol GsActive = GoalActive"
| "status_record_from_protocol GsPaused = GoalPaused"
| "status_record_from_protocol GsBlocked = GoalBlocked"
| "status_record_from_protocol GsUsageLimited = GoalUsageLimited"
| "status_record_from_protocol GsBudgetLimited = GoalBudgetLimited"
| "status_record_from_protocol GsComplete = GoalComplete"

definition thread_goal_from_record :: "goal_record \<Rightarrow> thread_goal" where
  "thread_goal_from_record r =
     \<lparr>tg_thread_id = go_thread_id r, tg_goal_id = go_goal_id r, tg_objective = go_objective r,
      tg_status = status_protocol_from_record (go_status r), tg_token_budget = go_token_budget r,
      tg_tokens_used = go_tokens_used r, tg_time_used_seconds = go_time_used_seconds r,
      tg_continuation_suppressed = go_suppressed r,
      tg_continuation_suppressed_after_turn_id = go_suppressed_after r,
      tg_created_at_ms = go_created_at_ms r, tg_updated_at_ms = go_updated_at_ms r\<rparr>"

definition is_final_report_status :: "thread_goal_status \<Rightarrow> bool" where
  "is_final_report_status st \<longleftrightarrow> st \<in> {GsComplete, GsBlocked, GsUsageLimited, GsBudgetLimited}"

fun status_report_name :: "thread_goal_status \<Rightarrow> string" where
  "status_report_name GsActive = ''active''"
| "status_report_name GsPaused = ''paused''"
| "status_report_name GsBlocked = ''blocked''"
| "status_report_name GsUsageLimited = ''usage_limited''"
| "status_report_name GsBudgetLimited = ''budget_limited''"
| "status_report_name GsComplete = ''complete''"

definition report_status_key :: "string \<Rightarrow> thread_goal_status \<Rightarrow> string" where
  "report_status_key i st = i @ '':'' @ status_report_name st"

definition fallback_report_summary :: "thread_goal \<Rightarrow> string" where
  "fallback_report_summary g =
     ''Goal '' @ tg_goal_id g @ '' with status '' @ status_report_name (tg_status g) @ ''.''"

fun thread_goal_review_reject_category :: "review_reject_category \<Rightarrow> goal_review_reject_category" where
  "thread_goal_review_reject_category RetriableGap = GcRetriableGap"
| "thread_goal_review_reject_category NeedsUser = GcNeedsUser"
| "thread_goal_review_reject_category ExternalBlocker = GcExternalBlocker"

definition thread_goal_review_summary_from_ticket :: "review_ticket \<Rightarrow> goal_review_summary" where
  "thread_goal_review_summary_from_ticket t =
     \<lparr>grs_ticket_id = rt_ticket_id t,
      grs_status = (case rt_status t of ReviewPending \<Rightarrow> GrPending | ReviewApproved \<Rightarrow> GrApproved
        | ReviewRejected \<Rightarrow> GrRejected),
      grs_reviewed_hash = rt_reviewed_hash t,
      grs_reject_category = map_option thread_goal_review_reject_category (rt_reject_category t),
      grs_findings = rt_findings t\<rparr>"

definition token_delta :: "token_usage \<Rightarrow> token_usage \<Rightarrow> int" where
  "token_delta previous current = sat_sub (tu_total current) (tu_total previous)"

section \<open>The clock of a goal\<close>

definition mark_active_goal ::
  "clock \<Rightarrow> thread_id \<Rightarrow> string option \<Rightarrow> goal_runtime \<Rightarrow> goal_runtime" where
  "mark_active_goal ck t i s =
     (if (case gn_wall s t of None \<Rightarrow> True | Some w \<Rightarrow> wc_active_goal w \<noteq> i)
      then s\<lparr>gn_wall := (gn_wall s)(t \<mapsto> \<lparr>wc_active_goal = i, wc_last = ck_instant ck\<rparr>)\<rparr> else s)"

text \<open>Whole seconds are accounted; the rest of a second stays for the next time.\<close>

definition time_delta_since_last_accounting ::
  "clock \<Rightarrow> thread_id \<Rightarrow> goal_runtime \<Rightarrow> int \<times> goal_runtime" where
  "time_delta_since_last_accounting ck t s =
     (case gn_wall s t of
        None \<Rightarrow> (0, s)
      | Some w \<Rightarrow>
          (let secs = (ck_instant ck - wc_last w) div 1000
           in (min (int secs) i64_max,
               s\<lparr>gn_wall := (gn_wall s)(t \<mapsto> w\<lparr>wc_last := wc_last w + 1000 * secs\<rparr>)\<rparr>)))"

definition has_active_turn :: "thread_id \<Rightarrow> goal_runtime \<Rightarrow> bool" where
  "has_active_turn t s \<longleftrightarrow> gn_turns s t \<noteq> None"

definition has_pending_status_effect :: "thread_id \<Rightarrow> goal_runtime \<Rightarrow> bool" where
  "has_pending_status_effect t s \<longleftrightarrow> gn_pending s t \<noteq> None"

definition active_goal_id_for_turn :: "thread_id \<Rightarrow> turn_id \<Rightarrow> goal_runtime \<Rightarrow> string option" where
  "active_goal_id_for_turn t turn s =
     (case gn_turns s t of None \<Rightarrow> None
      | Some a \<Rightarrow> if ta_turn_id a = turn then ta_active_goal a else None)"

section \<open>Reports\<close>

text \<open>A failing query leaves the questions of a report empty and its review summary out.\<close>

definition report_open_questions :: "string \<Rightarrow> index_db \<Rightarrow> report_open_question list" where
  "report_open_questions i db =
     (case unresolved_for_goal i db of Inl _ \<Rightarrow> []
      | Inr qs \<Rightarrow> map (\<lambda>q. \<lparr>roq_question_id = oq_question_id q, roq_question = oq_question q,
                          roq_blocks_what = oq_blocks_what q\<rparr>) qs)"

definition report_review_summary :: "string \<Rightarrow> index_db \<Rightarrow> goal_review_summary option" where
  "report_review_summary i db =
     (case latest_ticket i db of Inl _ \<Rightarrow> None
      | Inr t \<Rightarrow> map_option thread_goal_review_summary_from_ticket t)"

definition report_for_status ::
  "thread_goal \<Rightarrow> bool \<Rightarrow> goal_runtime \<Rightarrow> thread_goal_report option \<times> goal_runtime" where
  "report_for_status g include_paused s =
     (if \<not> is_final_report_status (tg_status g) \<and> \<not> (include_paused \<and> tg_status g = GsPaused)
      then (None, s)
      else
        let key = report_status_key (tg_goal_id g) (tg_status g) in
        if key \<in> gn_reported s then (None, s)
        else (Some \<lparr>gr_goal_id = tg_goal_id g, gr_objective = tg_objective g,
                gr_final_status = tg_status g,
                gr_turns_run = (case gn_turn_counts s (tg_goal_id g) of None \<Rightarrow> 0 | Some n \<Rightarrow> n),
                gr_tokens_used = tg_tokens_used g, gr_token_budget = tg_token_budget g,
                gr_time_used_seconds = tg_time_used_seconds g,
                gr_changed_files =
                  (case gn_changed_files s (tg_goal_id g) of None \<Rightarrow> [] | Some fs \<Rightarrow> fs),
                gr_pending_approvals_count = 0,
                gr_open_questions = report_open_questions (tg_goal_id g) (gn_db s),
                gr_review_summary = report_review_summary (tg_goal_id g) (gn_db s),
                gr_summary = fallback_report_summary g\<rparr>,
              s\<lparr>gn_reported := insert key (gn_reported s)\<rparr>))"

definition goal_updated_effect ::
  "thread_goal \<Rightarrow> thread_goal option \<Rightarrow> goal_runtime \<Rightarrow> goal_effect \<times> goal_runtime" where
  "goal_updated_effect g previous s =
     (if (case previous of None \<Rightarrow> True | Some p \<Rightarrow> tg_status p \<noteq> tg_status g)
      then (case report_for_status g False s of
          (Some r, s1) \<Rightarrow> (GeEmitUpdatedAndGoalReport g r, s1)
        | (None, s1) \<Rightarrow> (GeEmitUpdated g, s1))
      else (GeEmitUpdated g, s))"

definition inject_and_report ::
  "bool \<Rightarrow> thread_goal \<Rightarrow> string \<Rightarrow> string \<Rightarrow> goal_runtime \<Rightarrow> goal_effect \<times> goal_runtime" where
  "inject_and_report include_paused g source content s =
     (case report_for_status g include_paused s of
        (Some r, s1) \<Rightarrow> (GeEmitUpdatedInjectAndGoalReport g source content r, s1)
      | (None, s1) \<Rightarrow> (GeEmitUpdatedAndInject g source content, s1))"

definition budget_limit_effect :: "goal_record \<Rightarrow> goal_runtime \<Rightarrow> goal_effect \<times> goal_runtime" where
  "budget_limit_effect r s =
     (let g = thread_goal_from_record r in
      if go_goal_id r \<in> gn_budget_reported s then (GeEmitUpdated g, s)
      else inject_and_report False g ''goal_budget_limited'' (budget_limit_prompt g)
             (s\<lparr>gn_budget_reported := insert (go_goal_id r) (gn_budget_reported s)\<rparr>))"

definition add_files :: "string list \<Rightarrow> string list \<Rightarrow> string list" where
  "add_files new old = foldl (\<lambda>fs f. if f \<in> set fs then fs else fs @ [f]) old new"

definition record_changed_files_for_current_goal ::
  "thread_id \<Rightarrow> turn_id \<Rightarrow> string list \<Rightarrow> goal_runtime \<Rightarrow> goal_runtime" where
  "record_changed_files_for_current_goal t turn files s =
     (if files = [] then s
      else case active_goal_id_for_turn t turn s of
        None \<Rightarrow> s
      | Some i \<Rightarrow> s\<lparr>gn_changed_files := (gn_changed_files s)(i \<mapsto>
            add_files files (case gn_changed_files s i of None \<Rightarrow> [] | Some fs \<Rightarrow> fs))\<rparr>)"

definition rebuild_fact ::
  "(string \<rightharpoonup> int) \<times> (string \<rightharpoonup> string list) \<Rightarrow> runtime_event \<Rightarrow>
   (string \<rightharpoonup> int) \<times> (string \<rightharpoonup> string list)" where
  "rebuild_fact facts e =
     (case facts of (counts, files) \<Rightarrow>
       (case ev_kind e of
          EkThreadGoalTurnStarted i \<Rightarrow>
            (counts(i \<mapsto> (case counts i of None \<Rightarrow> 0 | Some n \<Rightarrow> n) + 1), files)
        | EkThreadGoalToolCompleted i fs \<Rightarrow>
            (counts, files(i \<mapsto> add_files fs (case files i of None \<Rightarrow> [] | Some old \<Rightarrow> old)))
        | _ \<Rightarrow> facts))"

definition rebuild_report_facts_from_events ::
  "thread_id \<Rightarrow> runtime_event list \<Rightarrow> goal_runtime \<Rightarrow> goal_runtime" where
  "rebuild_report_facts_from_events t es s =
     (let (counts, files) = foldl rebuild_fact (Map.empty, Map.empty)
            (filter (\<lambda>e. ev_thread_id e = t) es)
      in s\<lparr>gn_turn_counts := gn_turn_counts s ++ counts,
           gn_changed_files := gn_changed_files s ++ files\<rparr>)"

section \<open>Reading and changing the goal of a thread\<close>

definition get_goal :: "thread_id \<Rightarrow> goal_runtime \<Rightarrow> error + thread_goal option" where
  "get_goal t s =
     bind_res (get_thread_goal t (gn_db s)) (\<lambda>g. Inr (map_option thread_goal_from_record g))"

definition active_goal_snapshot :: "thread_id \<Rightarrow> goal_runtime \<Rightarrow> error + thread_goal option" where
  "active_goal_snapshot t s =
     bind_res (get_thread_goal t (gn_db s)) (\<lambda>g. case g of
        None \<Rightarrow> Inr None
      | Some r \<Rightarrow> if go_status r \<noteq> GoalActive then Inr None
                  else Inr (Some (thread_goal_from_record r)))"

text \<open>\<open>overlay\<close>: the text that a mode adds to the prompts (a file included at build time).\<close>

definition continuation_prompt_for_goal ::
  "(thread_goal_mode \<Rightarrow> string option) \<Rightarrow> thread_id \<Rightarrow> thread_goal \<Rightarrow> goal_runtime \<Rightarrow> string" where
  "continuation_prompt_for_goal overlay t g s =
     continuation_prompt_for_mode overlay g (mode_for_goal t (tg_goal_id g) (gn_db s))"

definition active_goal_snapshot_prompt_for_goal ::
  "(thread_goal_mode \<Rightarrow> string option) \<Rightarrow> thread_id \<Rightarrow> thread_goal \<Rightarrow> goal_runtime \<Rightarrow> string" where
  "active_goal_snapshot_prompt_for_goal overlay t g s =
     active_goal_snapshot_prompt_for_mode overlay g (mode_for_goal t (tg_goal_id g) (gn_db s))"

definition create_goal_with_options ::
  "clock \<Rightarrow> thread_id \<Rightarrow> string \<Rightarrow> int option \<Rightarrow> thread_goal_mode \<Rightarrow> goal_runtime \<Rightarrow>
   thread_goal goal_op_result" where
  "create_goal_with_options ck t objective budget mode =
     and_then (on_db (insert_thread_goal (ck_now ck) t objective budget)) (\<lambda>inserted. case inserted of
        None \<Rightarrow> Pair (Inl (Anyhow ''thread already has a goal''))
      | Some r \<Rightarrow>
          and_then (on_db (replace_for_thread_goal (ck_now ck) t (go_goal_id r) mode)) (\<lambda>_ s.
            return_op (thread_goal_from_record r) (mark_active_goal ck t (Some (go_goal_id r)) s)))"

definition set_goal_status ::
  "clock \<Rightarrow> thread_id \<Rightarrow> goal_status \<Rightarrow> string option \<Rightarrow> goal_runtime \<Rightarrow> thread_goal goal_op_result" where
  "set_goal_status ck t st expected =
     and_then (on_db (update_thread_goal (ck_now ck) t
         \<lparr>gu_objective = None, gu_status = Some st, gu_token_budget = None,
          gu_expected_goal_id = expected\<rparr>)) (\<lambda>updated. case updated of
        None \<Rightarrow> Pair (Inl (Anyhow ''thread has no current goal''))
      | Some r \<Rightarrow> (\<lambda>s. let g = thread_goal_from_record r in
          return_op g (mark_active_goal ck t
            (if tg_status g = GsActive then Some (tg_goal_id g) else None) s)))"

definition update_goal_status_from_tool ::
  "clock \<Rightarrow> thread_id \<Rightarrow> thread_goal_status \<Rightarrow> goal_runtime \<Rightarrow> thread_goal goal_op_result" where
  "update_goal_status_from_tool ck t st =
     and_then (set_goal_status ck t (status_record_from_protocol st) None) (\<lambda>g s.
       return_op g (s\<lparr>gn_pending := (gn_pending s)(t \<mapsto> GeEmitUpdated g)\<rparr>))"

definition update_goal_status_for_forge_escalation ::
  "clock \<Rightarrow> thread_id \<Rightarrow> string \<Rightarrow> goal_status \<Rightarrow> goal_runtime \<Rightarrow> thread_goal goal_op_result" where
  "update_goal_status_for_forge_escalation ck t i st = set_goal_status ck t st (Some i)"

definition reset_suppression_for_current_goal ::
  "clock \<Rightarrow> thread_id \<Rightarrow> goal_runtime \<Rightarrow> unit goal_op_result" where
  "reset_suppression_for_current_goal ck t s =
     (let expected = (case gn_turns s t of None \<Rightarrow> None | Some a \<Rightarrow> ta_active_goal a) in
      and_then (on_db (reset_thread_goal_continuation_suppression (ck_now ck) t expected))
        (\<lambda>_. return_op ()) s)"

definition active_id :: "goal_record option \<Rightarrow> string option" where
  "active_id g = (case g of None \<Rightarrow> None
     | Some r \<Rightarrow> if go_status r = GoalActive then Some (go_goal_id r) else None)"

section \<open>A turn starts, makes progress, ends\<close>

definition turn_started ::
  "clock \<Rightarrow> thread_id \<Rightarrow> turn_id \<Rightarrow> goal_turn_trigger \<Rightarrow> token_usage \<Rightarrow> goal_runtime \<Rightarrow>
   goal_effect goal_op_result" where
  "turn_started ck t turn trigger usage =
     and_then (reading (get_thread_goal t)) (\<lambda>goal.
       let i = active_id goal in
       and_then
         (if trigger = TriggerUser
          then on_db (reset_thread_goal_continuation_suppression (ck_now ck) t i)
          else return_op None)
         (\<lambda>_ s.
           let s1 = mark_active_goal ck t i s;
               s2 = (case i of None \<Rightarrow> s1
                     | Some g \<Rightarrow> s1\<lparr>gn_turn_counts := (gn_turn_counts s1)(g \<mapsto>
                         (case gn_turn_counts s1 g of None \<Rightarrow> 0 | Some n \<Rightarrow> n) + 1)\<rparr>)
           in return_op GeNone (s2\<lparr>gn_turns := (gn_turns s2)(t \<mapsto>
                \<lparr>ta_turn_id = turn, ta_trigger = trigger, ta_last_usage = usage,
                 ta_active_goal = i, ta_counted = False\<rparr>)\<rparr>)))"

definition settle_accounting ::
  "thread_id \<Rightarrow> token_usage \<Rightarrow> bool \<Rightarrow> goal_runtime \<Rightarrow> goal_runtime" where
  "settle_accounting t usage active s =
     s\<lparr>gn_turns := (gn_turns s)(t := map_option
       (\<lambda>a. a\<lparr>ta_last_usage := usage, ta_counted := ta_counted a \<or> active\<rparr>) (gn_turns s t))\<rparr>"

definition account_turn_progress_locked ::
  "clock \<Rightarrow> thread_id \<Rightarrow> turn_id \<Rightarrow> token_usage \<Rightarrow> bool \<Rightarrow> bool \<Rightarrow> accounting_mode \<Rightarrow> goal_runtime \<Rightarrow>
   goal_effect goal_op_result" where
  "account_turn_progress_locked ck t turn usage mark quiet mode s =
     (case gn_turns s t of
        None \<Rightarrow> return_op GeNone s
      | Some a \<Rightarrow>
        if ta_turn_id a \<noteq> turn then return_op GeNone s
        else (case ta_active_goal a of
          None \<Rightarrow> return_op GeNone
            (s\<lparr>gn_turns := (gn_turns s)(t \<mapsto> a\<lparr>ta_last_usage := usage\<rparr>)\<rparr>)
        | Some i \<Rightarrow>
          (let tokens = token_delta (ta_last_usage a) usage;
               (secs, s1) = time_delta_since_last_accounting ck t s
           in and_then (on_db (account_thread_goal_usage (ck_now ck) t secs tokens mode (Some i)))
                (\<lambda>outcome s2.
                  let s3 = settle_accounting t usage (mark \<or> tokens > 0) s2 in
                  case outcome of
                    Unchanged _ \<Rightarrow> return_op GeNone s3
                  | Updated r \<Rightarrow>
                      if go_status r = GoalBudgetLimited \<and> \<not> quiet
                      then pure_op (budget_limit_effect r) s3
                      else return_op (GeEmitUpdated (thread_goal_from_record r)) s3) s1)))"

definition pending_mode :: "thread_id \<Rightarrow> goal_runtime \<Rightarrow> accounting_mode" where
  "pending_mode t s = (if has_pending_status_effect t s then AnyCurrentGoal else ActiveOnly)"

definition refresh_pending_status_effect_after_accounting ::
  "thread_id \<Rightarrow> goal_effect \<Rightarrow> goal_runtime \<Rightarrow> goal_effect goal_op_result" where
  "refresh_pending_status_effect_after_accounting t eff =
     (case eff of
        GeEmitUpdated g \<Rightarrow>
          if \<not> is_final_report_status (tg_status g) then return_op eff
          else and_then (reading (get_thread_goal t)) (\<lambda>current. case current of
              None \<Rightarrow> return_op eff
            | Some r \<Rightarrow> if go_goal_id r \<noteq> tg_goal_id g then return_op eff
                        else pure_op (goal_updated_effect (thread_goal_from_record r) None))
      | _ \<Rightarrow> return_op eff)"

definition no_activity_reason :: string where
  "no_activity_reason = ''goal continuation produced no counted autonomous activity''"

definition after_turn ::
  "clock \<Rightarrow> thread_id \<Rightarrow> turn_id \<Rightarrow> turn_accounting \<Rightarrow> goal_runtime \<Rightarrow> goal_effect goal_op_result" where
  "after_turn ck t turn a =
     (case ta_active_goal a of
        None \<Rightarrow> return_op GeNone
      | Some i \<Rightarrow> and_then (reading (get_thread_goal t)) (\<lambda>goal. case goal of
          None \<Rightarrow> return_op GeNone
        | Some r \<Rightarrow>
          if go_goal_id r \<noteq> i \<or> go_status r \<noteq> GoalActive then return_op GeNone
          else if ta_trigger a = TriggerGoalContinuation \<and> \<not> ta_counted a
          then and_then (on_db (suppress_thread_goal_continuation (ck_now ck) t (go_goal_id r) turn))
            (\<lambda>updated. return_op (case updated of
                None \<Rightarrow> GeNone
              | Some u \<Rightarrow> GeEmitUpdatedAndContinuationSuppressed (thread_goal_from_record u)
                            no_activity_reason))
          else return_op GeScheduleContinuation))"

text \<open>The effect of the last accounting of a turn is dropped.\<close>

definition turn_finished ::
  "clock \<Rightarrow> thread_id \<Rightarrow> turn_id \<Rightarrow> token_usage \<Rightarrow> bool \<Rightarrow> goal_runtime \<Rightarrow>
   goal_effect goal_op_result" where
  "turn_finished ck t turn usage had_activity s0 =
     and_then (account_turn_progress_locked ck t turn usage had_activity False (pending_mode t s0))
       (\<lambda>_ s.
         let s1 = s\<lparr>gn_turns := (gn_turns s)(t := None), gn_pending := (gn_pending s)(t := None)\<rparr> in
         case gn_pending s t of
           Some eff \<Rightarrow> refresh_pending_status_effect_after_accounting t eff s1
         | None \<Rightarrow> (case gn_turns s t of
               None \<Rightarrow> return_op GeNone s1
             | Some a \<Rightarrow> after_turn ck t turn a s1)) s0"

section \<open>Changes from outside a turn\<close>

definition external_mutation_starting ::
  "clock \<Rightarrow> thread_id \<Rightarrow> turn_id option \<Rightarrow> goal_runtime \<Rightarrow> goal_effect goal_op_result" where
  "external_mutation_starting ck t turn s =
     (case turn of
        Some u \<Rightarrow>
          (let usage = (case gn_turns s t of None \<Rightarrow> token_usage_default
                 | Some a \<Rightarrow> if ta_turn_id a = u then ta_last_usage a else token_usage_default)
           in and_then (account_turn_progress_locked ck t u usage False True ActiveOnly)
                (\<lambda>_. return_op GeNone) s)
      | None \<Rightarrow>
          (case Option.bind (gn_wall s t) wc_active_goal of
             None \<Rightarrow> return_op GeNone s
           | Some i \<Rightarrow>
             (let (secs, s1) = time_delta_since_last_accounting ck t s
              in and_then (on_db (account_thread_goal_usage (ck_now ck) t secs 0 ActiveOnly (Some i)))
                   (\<lambda>outcome. return_op (case outcome of
                       Updated r \<Rightarrow> GeEmitUpdated (thread_goal_from_record r)
                     | Unchanged _ \<Rightarrow> GeNone)) s1)))"

definition external_set ::
  "clock \<Rightarrow> thread_id \<Rightarrow> thread_goal \<Rightarrow> thread_goal option \<Rightarrow> goal_runtime \<Rightarrow>
   goal_effect goal_op_result" where
  "external_set ck t g previous =
     (let active = (tg_status g = GsActive) in
      and_then
        (if (case previous of None \<Rightarrow> True | Some p \<Rightarrow> tg_goal_id p \<noteq> tg_goal_id g)
         then on_db (replace_for_thread_goal (ck_now ck) t (tg_goal_id g) (goal_mode_from_bool False))
         else return_op ()) (\<lambda>_.
      and_then (on_db (reset_thread_goal_continuation_suppression (ck_now ck) t (Some (tg_goal_id g))))
        (\<lambda>_ s.
          let s1 = mark_active_goal ck t (if active then Some (tg_goal_id g) else None) s in
          if (case previous of None \<Rightarrow> False | Some p \<Rightarrow> tg_objective p \<noteq> tg_objective g)
          then
            let content = objective_updated_prompt g;
                (eff, s2) = goal_updated_effect g previous s1
            in return_op (case eff of
                   GeEmitUpdatedAndGoalReport _ r \<Rightarrow>
                     GeEmitUpdatedInjectAndGoalReport g ''goal_objective_updated'' content r
                 | _ \<Rightarrow> GeEmitUpdatedAndInject g ''goal_objective_updated'' content) s2
          else if active \<and> \<not> has_active_turn t s1 then return_op GeScheduleContinuation s1
          else pure_op (goal_updated_effect g previous) s1)))"

definition external_clear :: "thread_id \<Rightarrow> goal_runtime \<Rightarrow> goal_effect goal_op_result" where
  "external_clear t s =
     return_op (GeEmitCleared t)
       (s\<lparr>gn_db := clear_modes_for_thread t (gn_db s), gn_turns := (gn_turns s)(t := None),
          gn_wall := (gn_wall s)(t := None)\<rparr>)"

definition thread_resumed ::
  "clock \<Rightarrow> thread_id \<Rightarrow> runtime_event list \<Rightarrow> goal_runtime \<Rightarrow> goal_effect goal_op_result" where
  "thread_resumed ck t restored s0 =
     and_then (reading (get_thread_goal t)) (\<lambda>goal s.
       return_op
         (case goal of
            None \<Rightarrow> GeNone
          | Some r \<Rightarrow> if go_status r = GoalActive \<and> \<not> go_suppressed r then GeScheduleContinuation
                      else GeNone)
         (mark_active_goal ck t (active_id goal) s))
       (rebuild_report_facts_from_events t restored s0)"

section \<open>Continuing a goal\<close>

definition if_new_key ::
  "string \<Rightarrow> (goal_runtime \<Rightarrow> goal_effect goal_op_result) \<Rightarrow> goal_runtime \<Rightarrow>
   goal_effect option goal_op_result" where
  "if_new_key key f s =
     (if key \<in> gn_notified s then return_op None s
      else and_then f (\<lambda>eff. return_op (Some eff)) (s\<lparr>gn_notified := insert key (gn_notified s)\<rparr>))"

definition paused_notice :: string where
  "paused_notice = nl @ nl @ ''Goal paused awaiting answers to open questions.''"

definition forge_escalation_effect ::
  "clock \<Rightarrow> thread_id \<Rightarrow> goal_record \<Rightarrow> goal_runtime \<Rightarrow> goal_effect option goal_op_result" where
  "forge_escalation_effect ck t goal =
     and_then (reading (decision_for_goal (go_goal_id goal))) (\<lambda>decision. case decision of
        EscNone \<Rightarrow> return_op None
      | EscActiveGuidance key content \<Rightarrow> if_new_key key
          (return_op (GeEmitUpdatedAndInject (thread_goal_from_record goal)
             ''forge_review_guidance'' content))
      | EscPauseForQuestions key content \<Rightarrow> if_new_key key
          (and_then (update_goal_status_for_forge_escalation ck t (go_goal_id goal) GoalPaused)
            (\<lambda>g. pure_op (inject_and_report True g ''forge_open_questions_paused''
                    (content @ paused_notice))))
      | EscBlockedExternal key content \<Rightarrow> if_new_key key
          (and_then (update_goal_status_for_forge_escalation ck t (go_goal_id goal) GoalBlocked)
            (\<lambda>g. pure_op (inject_and_report False g ''forge_external_blocker'' content))))"

definition maybe_continue_if_idle ::
  "clock \<Rightarrow> thread_id \<Rightarrow> goal_runtime \<Rightarrow> goal_effect goal_op_result" where
  "maybe_continue_if_idle ck t s =
     (if has_active_turn t s then return_op GeNone s
      else and_then (reading (get_thread_goal t)) (\<lambda>goal. case goal of
          None \<Rightarrow> return_op GeNone
        | Some r \<Rightarrow>
          if go_status r = GoalActive \<and> \<not> go_suppressed r
          then and_then (forge_escalation_effect ck t r) (\<lambda>eff. case eff of
              Some e \<Rightarrow> return_op e
            | None \<Rightarrow> return_op GeScheduleContinuation)
          else return_op GeNone) s)"

section \<open>Events\<close>

datatype (plugins only: code size) goal_event =
    GvTurnStarted thread_id turn_id goal_turn_trigger token_usage
  | GvToolCompleted thread_id turn_id string token_usage "string list"
  | GvToolCompletedGoal thread_id turn_id token_usage
  | GvTurnFinished thread_id turn_id bool token_usage bool
  | GvExternalMutationStarting thread_id "turn_id option"
  | GvExternalSet thread_id thread_goal "thread_goal option"
  | GvExternalClear thread_id
  | GvThreadResumed thread_id "runtime_event list"
  | GvMaybeContinueIfIdle thread_id

fun apply_event :: "clock \<Rightarrow> goal_event \<Rightarrow> goal_runtime \<Rightarrow> goal_effect goal_op_result" where
  "apply_event ck (GvTurnStarted t turn trigger usage) s = turn_started ck t turn trigger usage s"
| "apply_event ck (GvToolCompleted t turn tool usage files) s =
     and_then (account_turn_progress_locked ck t turn usage True False ActiveOnly)
       (\<lambda>eff. and_then
         (if tool \<noteq> ''update_goal'' then reset_suppression_for_current_goal ck t else return_op ())
         (\<lambda>_. return_op eff))
       (record_changed_files_for_current_goal t turn files s)"
| "apply_event ck (GvToolCompletedGoal t turn usage) s =
     and_then (account_turn_progress_locked ck t turn usage False True (pending_mode t s))
       (\<lambda>_. return_op GeNone) s"
| "apply_event ck (GvTurnFinished t turn _ usage had_activity) s =
     turn_finished ck t turn usage had_activity s"
| "apply_event ck (GvExternalMutationStarting t turn) s = external_mutation_starting ck t turn s"
| "apply_event ck (GvExternalSet t g previous) s = external_set ck t g previous s"
| "apply_event ck (GvExternalClear t) s = external_clear t s"
| "apply_event ck (GvThreadResumed t restored) s = thread_resumed ck t restored s"
| "apply_event ck (GvMaybeContinueIfIdle t) s = maybe_continue_if_idle ck t s"

end
