(* ===== verification/GoalApi.thy ===== *)
theory GoalApi
  imports GoalRuntime ThreadRuntime
begin

text \<open>
  The callers of the goal runtime: the requests of the app server on goals
  (\<^verbatim>\<open>src/app_server/request_processors/goal_processor.rs\<close>), the goal tools of the model
  (\<^verbatim>\<open>src/tools/planning/goal.rs\<close>), and the part of the actor that continues a goal
  (\<^verbatim>\<open>src/runtime/thread_runtime/actor.rs\<close>). A request finds the runtime of its thread loaded
  or not; its effects are queued for the actor, which never refuses them here.
\<close>

section \<open>Requests\<close>

record goal_set_params =
  gp_thread_id :: thread_id
  gp_objective :: "string option"
  gp_status :: "thread_goal_status option"
  gp_token_budget :: "int option option"
  gp_mode :: "thread_goal_mode option"

definition validate_external_goal_status :: "thread_goal_status \<Rightarrow> error + unit" where
  "validate_external_goal_status st =
     (if st \<in> {GsUsageLimited, GsBudgetLimited}
      then Inl (InvalidRequest ''usage_limited and budget_limited are runtime-owned goal statuses'')
      else Inr ())"

definition validate_goal_set :: "goal_set_params \<Rightarrow> error + unit" where
  "validate_goal_set p =
     bind_res (case gp_objective p of None \<Rightarrow> Inr ()
       | Some ob \<Rightarrow> (case validate_thread_goal_objective ob of
             Inl (Anyhow m) \<Rightarrow> Inl (InvalidRequest m) | Inl e \<Rightarrow> Inl e | Inr u \<Rightarrow> Inr u)) (\<lambda>_.
     bind_res (case gp_token_budget p of
         Some (Some b) \<Rightarrow> if b \<le> 0 then Inl (InvalidRequest ''token_budget must be positive'') else Inr ()
       | _ \<Rightarrow> Inr ()) (\<lambda>_.
     case gp_status p of None \<Rightarrow> Inr () | Some st \<Rightarrow> validate_external_goal_status st))"

text \<open>\<open>loaded\<close>: None when no runtime of the thread is loaded, else its active turn.\<close>

definition account_before_external_mutation ::
  "clock \<Rightarrow> turn_id option option \<Rightarrow> thread_id \<Rightarrow> goal_runtime \<Rightarrow> unit goal_op_result" where
  "account_before_external_mutation ck loaded t =
     (case loaded of
        None \<Rightarrow> return_op ()
      | Some turn \<Rightarrow> and_then (apply_event ck (GvExternalMutationStarting t turn)) (\<lambda>_. return_op ()))"

definition write_goal ::
  "clock \<Rightarrow> goal_set_params \<Rightarrow> goal_record option \<Rightarrow> goal_runtime \<Rightarrow> goal_record goal_op_result" where
  "write_goal ck p current =
     (case current of
        None \<Rightarrow>
          (case gp_objective p of
             None \<Rightarrow> Pair (Inl (InvalidRequest ''objective is required when creating a thread goal''))
           | Some ob \<Rightarrow> on_db (replace_thread_goal (ck_now ck) (gp_thread_id p) ob
               (case gp_status p of None \<Rightarrow> GoalActive | Some st \<Rightarrow> status_record_from_protocol st)
               (Option.bind (gp_token_budget p) id)))
      | Some r \<Rightarrow>
          and_then (on_db (update_thread_goal (ck_now ck) (gp_thread_id p)
              \<lparr>gu_objective = gp_objective p,
               gu_status = map_option status_record_from_protocol (gp_status p),
               gu_token_budget = gp_token_budget p, gu_expected_goal_id = Some (go_goal_id r)\<rparr>))
            (\<lambda>updated. case updated of
               None \<Rightarrow> Pair (Inl (InvalidRequest ''thread goal changed while applying update''))
             | Some g \<Rightarrow> return_op g))"

definition write_mode ::
  "clock \<Rightarrow> goal_set_params \<Rightarrow> bool \<Rightarrow> string \<Rightarrow> goal_runtime \<Rightarrow> thread_goal_mode goal_op_result" where
  "write_mode ck p creating i =
     (if creating then
        (let mode = (case gp_mode p of None \<Rightarrow> ModeStandard | Some m \<Rightarrow> m)
         in and_then (on_db (replace_for_thread_goal (ck_now ck) (gp_thread_id p) i mode))
              (\<lambda>_. return_op mode))
      else case gp_mode p of
          Some mode \<Rightarrow> and_then (on_db (set_mode (ck_now ck) (gp_thread_id p) i mode)) (\<lambda>_. return_op mode)
        | None \<Rightarrow> reading (\<lambda>db. Inr (mode_for_goal (gp_thread_id p) i db)))"

text \<open>The answer of a request, with the effects it queued for the actor.\<close>

definition thread_goal_set ::
  "clock \<Rightarrow> turn_id option option \<Rightarrow> goal_set_params \<Rightarrow> goal_runtime \<Rightarrow>
   ((thread_goal \<times> thread_goal_mode) \<times> goal_effect list) goal_op_result" where
  "thread_goal_set ck loaded p =
     (let t = gp_thread_id p in
      and_then (reading (get_thread_goal t)) (\<lambda>current.
      and_then (reading (\<lambda>_. validate_goal_set p)) (\<lambda>_.
      and_then (reading (\<lambda>db. Inr (case current of None \<Rightarrow> ModeStandard
          | Some r \<Rightarrow> mode_for_goal t (go_goal_id r) db))) (\<lambda>previous_mode.
      and_then (account_before_external_mutation ck loaded t) (\<lambda>_.
      and_then (write_goal ck p current) (\<lambda>r.
      and_then (write_mode ck p (current = None) (go_goal_id r)) (\<lambda>mode.
        let g = thread_goal_from_record r;
            changed = map_option go_goal_id current \<noteq> Some (tg_goal_id g) \<or> previous_mode \<noteq> mode
        in case loaded of
             None \<Rightarrow> return_op ((g, mode), [])
           | Some _ \<Rightarrow>
             and_then (apply_event ck
                 (GvExternalSet t g (map_option thread_goal_from_record current)))
               (\<lambda>eff. return_op ((g, mode), filter (\<lambda>e. e \<noteq> GeNone)
                  (eff # (if changed then [GeEmitModeUpdated t (tg_goal_id g) mode] else [])))))))))))"

definition thread_goal_get ::
  "thread_id \<Rightarrow> index_db \<Rightarrow> error + (thread_goal option \<times> thread_goal_mode)" where
  "thread_goal_get t db =
     bind_res (get_thread_goal t db) (\<lambda>goal.
       Inr (map_option thread_goal_from_record goal,
            case goal of None \<Rightarrow> ModeStandard | Some r \<Rightarrow> mode_for_goal t (go_goal_id r) db))"

definition thread_goal_clear ::
  "clock \<Rightarrow> turn_id option option \<Rightarrow> thread_id \<Rightarrow> goal_runtime \<Rightarrow>
   (bool \<times> goal_effect list) goal_op_result" where
  "thread_goal_clear ck loaded t =
     and_then (account_before_external_mutation ck loaded t) (\<lambda>_.
     and_then (on_db (\<lambda>db. case delete_thread_goal t db of (b, db1) \<Rightarrow> (Inr b, db1))) (\<lambda>cleared s.
       let s1 = s\<lparr>gn_db := clear_modes_for_thread t (gn_db s)\<rparr> in
       case loaded of
         None \<Rightarrow> return_op (cleared, []) s1
       | Some _ \<Rightarrow> and_then (apply_event ck (GvExternalClear t))
           (\<lambda>eff. return_op (cleared, filter (\<lambda>e. e \<noteq> GeNone) [eff])) s1))"

section \<open>The goal tools\<close>

record create_goal_args =
  cg_objective :: string
  cg_token_budget :: "int option"
  cg_mode :: thread_goal_mode

datatype update_goal_status_arg = ArgComplete | ArgBlocked

text \<open>\<open>gj\<close> and \<open>pj\<close>: the JSON of a goal and the printer of JSON; \<open>err\<close>: the text of an error.\<close>

definition success_json :: "(json \<Rightarrow> string) \<Rightarrow> tool_call \<Rightarrow> json \<Rightarrow> tool_outcome" where
  "success_json pj call v = outcome_from_result
     \<lparr>tr_tool_call_id = tc_id call, tr_tool_name = tc_name call, tr_status = ToolSuccess,
      tr_content = pj v, tr_meta = Some v, tr_parts = []\<rparr>"

definition goal_tool_result ::
  "(error \<Rightarrow> string) \<Rightarrow> ('a \<Rightarrow> tool_outcome) \<Rightarrow> tool_call \<Rightarrow> 'a goal_op_result \<Rightarrow>
   tool_outcome \<times> goal_runtime" where
  "goal_tool_result err ok call res =
     (case res of (Inl e, s) \<Rightarrow> (tool_error call (err e), s) | (Inr x, s) \<Rightarrow> (ok x, s))"

definition get_goal_tool ::
  "(thread_goal \<Rightarrow> json) \<Rightarrow> (json \<Rightarrow> string) \<Rightarrow> (error \<Rightarrow> string) \<Rightarrow> thread_id option \<Rightarrow> tool_call \<Rightarrow>
   goal_runtime \<Rightarrow> tool_outcome \<times> goal_runtime" where
  "get_goal_tool gj pj err thread call s =
     (case thread of
        None \<Rightarrow> (tool_error call ''thread context missing'', s)
      | Some t \<Rightarrow> goal_tool_result err
          (\<lambda>g. success_json pj call
             (JObject [(''goal'', case g of None \<Rightarrow> JNull | Some x \<Rightarrow> gj x)])) call (get_goal t s, s))"

definition create_goal_tool ::
  "clock \<Rightarrow> bool \<Rightarrow> (thread_goal \<Rightarrow> json) \<Rightarrow> (json \<Rightarrow> string) \<Rightarrow> (error \<Rightarrow> string) \<Rightarrow>
   error + create_goal_args \<Rightarrow> thread_id option \<Rightarrow> tool_call \<Rightarrow> goal_runtime \<Rightarrow>
   tool_outcome \<times> goal_runtime" where
  "create_goal_tool ck forge_modes_enabled gj pj err args thread call s =
     (case args of
        Inl e \<Rightarrow> (tool_error call (err e), s)
      | Inr a \<Rightarrow>
        (case validate_thread_goal_objective (cg_objective a) of
           Inl e \<Rightarrow> (tool_error call (err e), s)
         | Inr _ \<Rightarrow>
           if (case cg_token_budget a of None \<Rightarrow> False | Some b \<Rightarrow> b \<le> 0)
           then (tool_error call ''token_budget must be positive'', s)
           else case thread of
               None \<Rightarrow> (tool_error call ''thread context missing'', s)
             | Some t \<Rightarrow> goal_tool_result err
                 (\<lambda>g. success_json pj call (JObject [(''goal'', gj g)])) call
                 (create_goal_with_options ck t (cg_objective a) (cg_token_budget a)
                    (if forge_modes_enabled then cg_mode a else ModeStandard) s)))"

definition update_goal_message :: "thread_goal \<Rightarrow> string" where
  "update_goal_message g =
     (case tg_status g of
        GsComplete \<Rightarrow> ''Goal marked complete. Report final token and time usage to the user.''
      | GsBlocked \<Rightarrow> ''Goal marked blocked. Explain the blocking condition.''
      | _ \<Rightarrow> ''Goal updated.'')"

definition update_goal_tool ::
  "clock \<Rightarrow> (thread_goal \<Rightarrow> json) \<Rightarrow> (json \<Rightarrow> string) \<Rightarrow> (error \<Rightarrow> string) \<Rightarrow>
   error + update_goal_status_arg \<Rightarrow> thread_id option \<Rightarrow> tool_call \<Rightarrow> goal_runtime \<Rightarrow>
   tool_outcome \<times> goal_runtime" where
  "update_goal_tool ck gj pj err args thread call s =
     (case args of
        Inl e \<Rightarrow> (tool_error call (err e), s)
      | Inr a \<Rightarrow>
        (case thread of
           None \<Rightarrow> (tool_error call ''thread context missing'', s)
         | Some t \<Rightarrow> goal_tool_result err
             (\<lambda>g. success_json pj call (JObject [(''goal'', gj g),
                     (''message'', JString (update_goal_message g))])) call
             (update_goal_status_from_tool ck t
                (case a of ArgComplete \<Rightarrow> GsComplete | ArgBlocked \<Rightarrow> GsBlocked) s)))"

section \<open>The actor continues a goal\<close>

text \<open>
  The actor looks for a goal to continue after a turn and after an effect, when its queue is empty.
  \<open>gated\<close>: an operation on the workspace is refused at the moment. The event is applied and its
  effect used only as a flag.
\<close>

definition maybe_enqueue_goal_continuation ::
  "clock \<Rightarrow> bool \<Rightarrow> thread_runtime \<Rightarrow> goal_runtime \<Rightarrow>
   (error + turn_id option) \<times> thread_runtime \<times> goal_runtime" where
  "maybe_enqueue_goal_continuation ck gated ru gr =
     (let t = ru_thread ru in
      if ru_queue ru \<noteq> [] \<or> gated \<or> active_turn_id (ru_reservations ru) \<noteq> None then (Inr None, ru, gr)
      else case apply_event ck (GvMaybeContinueIfIdle t) gr of
          (Inl e, gr1) \<Rightarrow> (Inl e, ru, gr1)
        | (Inr eff, gr1) \<Rightarrow>
          if eff \<noteq> GeScheduleContinuation then (Inr None, ru, gr1)
          else (case get_goal t gr1 of
            Inl e \<Rightarrow> (Inl e, ru, gr1)
          | Inr None \<Rightarrow> (Inr None, ru, gr1)
          | Inr (Some g) \<Rightarrow>
            if tg_status g \<noteq> GsActive \<or> tg_continuation_suppressed g then (Inr None, ru, gr1)
            else (case submit_turn (\<lambda>turn. OpGoalContinuation turn (tg_goal_id g)) ru of
              (Inl e, ru1) \<Rightarrow> (Inl e, ru1, gr1)
            | (Inr turn, ru1) \<Rightarrow> (Inr (Some turn), ru1, gr1))))"

text \<open>When the actor starts, it lets the goal runtime know, and ignores the answer.\<close>

definition resume_goal :: "clock \<Rightarrow> thread_id \<Rightarrow> runtime_event list \<Rightarrow> goal_runtime \<Rightarrow> goal_runtime" where
  "resume_goal ck t restored gr = snd (apply_event ck (GvThreadResumed t restored) gr)"

end
