(* ===== verification/GoalLaws.thy ===== *)
theory GoalLaws
  imports GoalApi
begin

text \<open>
  What the goal runtime guarantees over runs of its operations: a report is made at most once for
  each end of a goal, the usage of a turn is accounted exactly, however many tools the turn calls,
  and the places where an effect is computed and lost.
\<close>

section \<open>Reports are made once\<close>

text \<open>A call of the goal runtime: an event, or a goal tool of the model.\<close>

datatype goal_call =
    CallEvent goal_event
  | CallCreate thread_id string "int option" thread_goal_mode
  | CallUpdate thread_id thread_goal_status

definition effect_of :: "goal_effect goal_op_result \<Rightarrow> goal_effect" where
  "effect_of res = (case fst res of Inl _ \<Rightarrow> GeNone | Inr eff \<Rightarrow> eff)"

fun exec_call :: "clock \<times> goal_call \<Rightarrow> goal_runtime \<Rightarrow> goal_effect \<times> goal_runtime" where
  "exec_call (ck, CallEvent ev) s = (effect_of (apply_event ck ev s), snd (apply_event ck ev s))"
| "exec_call (ck, CallCreate t ob b m) s = (GeNone, snd (create_goal_with_options ck t ob b m s))"
| "exec_call (ck, CallUpdate t st) s = (GeNone, snd (update_goal_status_from_tool ck t st s))"

fun run_calls :: "(clock \<times> goal_call) list \<Rightarrow> goal_runtime \<Rightarrow> goal_effect list \<times> goal_runtime" where
  "run_calls [] s = ([], s)"
| "run_calls (c # cs) s =
     (case exec_call c s of (eff, s1) \<Rightarrow> (case run_calls cs s1 of (effs, s2) \<Rightarrow> (eff # effs, s2)))"

fun reports_of :: "goal_effect \<Rightarrow> thread_goal_report list" where
  "reports_of (GeEmitUpdatedAndGoalReport _ r) = [r]"
| "reports_of (GeEmitUpdatedInjectAndGoalReport _ _ _ r) = [r]"
| "reports_of _ = []"

definition report_key :: "thread_goal_report \<Rightarrow> string" where
  "report_key r = report_status_key (gr_goal_id r) (gr_final_status r)"

text \<open>The bookkeeping of reports grows; a pending effect carries no report.\<close>

definition quiet_pending :: "goal_runtime \<Rightarrow> bool" where
  "quiet_pending s \<longleftrightarrow> (\<forall>t eff. gn_pending s t = Some eff \<longrightarrow> reports_of eff = [])"

definition reported_mono :: "goal_runtime \<Rightarrow> goal_runtime \<Rightarrow> bool" where
  "reported_mono s s' \<longleftrightarrow> gn_reported s \<subseteq> gn_reported s' \<and> (quiet_pending s \<longrightarrow> quiet_pending s')"

definition reported_new :: "goal_runtime \<Rightarrow> goal_effect \<times> goal_runtime \<Rightarrow> bool" where
  "reported_new s r \<longleftrightarrow> reported_mono s (snd r) \<and> distinct (map report_key (reports_of (fst r))) \<and>
     report_key ` set (reports_of (fst r)) \<subseteq> gn_reported (snd r) - gn_reported s"

lemma reported_mono_refl [simp]: "reported_mono s s"
  by (simp add: reported_mono_def)

lemma reported_mono_trans: "reported_mono s s1 \<Longrightarrow> reported_mono s1 s2 \<Longrightarrow> reported_mono s s2"
  unfolding reported_mono_def by blast

lemma reported_mono_frame:
  "gn_reported s' = gn_reported s \<Longrightarrow> gn_pending s' = gn_pending s \<Longrightarrow> reported_mono s s'"
  by (simp add: reported_mono_def quiet_pending_def)

lemma reported_new_mono: "reported_new s r \<Longrightarrow> reported_mono s (snd r)"
  by (simp add: reported_new_def)

lemma reported_new_silent: "reports_of eff = [] \<Longrightarrow> reported_mono s s' \<Longrightarrow> reported_new s (eff, s')"
  by (simp add: reported_new_def)

lemma reported_new_trans:
  "reported_mono s s1 \<Longrightarrow> reported_new s1 r \<Longrightarrow> reported_new s r"
  unfolding reported_new_def reported_mono_def by blast

lemma reported_new_cong:
  "reported_new s (eff, s1) \<Longrightarrow> gn_reported s2 = gn_reported s1 \<Longrightarrow> gn_pending s2 = gn_pending s1 \<Longrightarrow>
   eff' = eff \<or> eff' = GeNone \<Longrightarrow> reported_new s (eff', s2)"
proof -
  assume "gn_pending s2 = gn_pending s1"
  then have "quiet_pending s2 = quiet_pending s1" by (simp add: quiet_pending_def)
  then show "reported_new s (eff, s1) \<Longrightarrow> gn_reported s2 = gn_reported s1 \<Longrightarrow>
      eff' = eff \<or> eff' = GeNone \<Longrightarrow> reported_new s (eff', s2)"
    by (elim disjE) (simp_all add: reported_new_def reported_mono_def)
qed

named_theorems reported_intros \<open>operations that only add to the reports made\<close>

text \<open>The rules of the combinators.\<close>

definition op_mono :: "(goal_runtime \<Rightarrow> 'a goal_op_result) \<Rightarrow> bool" where
  "op_mono m \<longleftrightarrow> (\<forall>s. reported_mono s (snd (m s)))"

definition op_new :: "(goal_runtime \<Rightarrow> goal_effect goal_op_result) \<Rightarrow> bool" where
  "op_new m \<longleftrightarrow> (\<forall>s. reported_new s (effect_of (m s), snd (m s)))"

lemma op_new_mono: "op_new m \<Longrightarrow> op_mono m"
  using reported_new_mono by (force simp: op_new_def op_mono_def)

lemma mono_and_then [reported_intros]:
  assumes "op_mono m" "\<And>x. op_mono (f x)"
  shows "op_mono (and_then m f)"
  unfolding op_mono_def
proof
  fix s
  obtain r s1 where m: "m s = (r, s1)" by force
  then have "reported_mono s s1" using assms(1) by (metis op_mono_def snd_conv)
  then show "reported_mono s (snd (and_then m f s))"
    using assms(2) m by (cases r) (auto simp: and_then_def op_mono_def intro: reported_mono_trans)
qed

lemma new_and_then [reported_intros]:
  assumes "op_mono m" "\<And>x. op_new (f x)"
  shows "op_new (and_then m f)"
  unfolding op_new_def
proof
  fix s
  obtain r s1 where m: "m s = (r, s1)" by force
  then have "reported_mono s s1" using assms(1) by (metis op_mono_def snd_conv)
  then show "reported_new s (effect_of (and_then m f s), snd (and_then m f s))"
    using assms(2) m by (cases r) (auto simp: and_then_def effect_of_def op_new_def
      intro: reported_new_silent reported_new_trans)
qed

lemma mono_basic [reported_intros]:
  "op_mono (on_db g)" "op_mono (reading h)" "op_mono (return_op x)" "op_mono (Pair y)"
  by (auto simp: op_mono_def on_db_def reading_def return_op_def split: prod.split
    intro: reported_mono_frame)

lemma effect_of_simps [simp]:
  "effect_of (return_op eff s) = eff" "snd (return_op x s) = s"
  "effect_of (pure_op f s) = fst (f s)" "snd (pure_op f s) = snd (f s)"
  "effect_of (Inl e, s) = GeNone"
  by (simp_all add: effect_of_def return_op_def pure_op_def split: prod.split)

lemma op_newI: "(\<And>s. reported_new s (effect_of (m s), snd (m s))) \<Longrightarrow> op_new m"
  by (simp add: op_new_def)

lemma op_monoI: "(\<And>s. reported_mono s (snd (m s))) \<Longrightarrow> op_mono m"
  by (simp add: op_mono_def)

lemma new_pure [reported_intros]: "(\<And>s. reported_new s (f s)) \<Longrightarrow> op_new (pure_op f)"
  by (simp add: op_new_def)

lemma new_return [reported_intros]: "reports_of eff = [] \<Longrightarrow> op_new (return_op eff)"
  by (rule op_newI) (simp add: reported_new_silent)

lemma new_fail [reported_intros]: "op_new (Pair (Inl e))"
  by (rule op_newI) (simp add: reported_new_silent)

lemma new_at: "op_new m \<Longrightarrow> reported_mono s0 s \<Longrightarrow> reported_new s0 (effect_of (m s), snd (m s))"
  unfolding op_new_def by (metis reported_new_trans)

lemma mono_at: "op_mono m \<Longrightarrow> reported_mono s0 s \<Longrightarrow> reported_mono s0 (snd (m s))"
  unfolding op_mono_def by (metis reported_mono_trans)

lemma case_intros [reported_intros]:
  "op_mono f \<Longrightarrow> (\<And>y. op_mono (g y)) \<Longrightarrow> op_mono (case x of None \<Rightarrow> f | Some y \<Rightarrow> g y)"
  "op_new f' \<Longrightarrow> (\<And>y. op_new (g' y)) \<Longrightarrow> op_new (case x of None \<Rightarrow> f' | Some y \<Rightarrow> g' y)"
  "op_mono f \<Longrightarrow> op_mono h \<Longrightarrow> op_mono (if b then f else h)"
  "op_new f' \<Longrightarrow> op_new h' \<Longrightarrow> op_new (if b then f' else h')"
  by (simp_all split: option.split)

lemma mono_tail [reported_intros]:
  "(\<And>s. gn_reported (g s) = gn_reported s) \<Longrightarrow> (\<And>s. gn_pending (g s) = gn_pending s) \<Longrightarrow>
   op_mono (\<lambda>s. return_op (x s) (g s))"
  by (rule op_monoI) (simp add: reported_mono_frame)

lemma new_tail [reported_intros]:
  "(\<And>s. reports_of (eff s) = []) \<Longrightarrow> (\<And>s. gn_reported (g s) = gn_reported s) \<Longrightarrow>
   (\<And>s. gn_pending (g s) = gn_pending s) \<Longrightarrow> op_new (\<lambda>s. return_op (eff s) (g s))"
  by (rule op_newI) (simp add: reported_mono_frame reported_new_silent)

text \<open>Reports.\<close>

lemma report_for_status_split:
  "report_for_status g b s = (None, s) \<or>
   (\<exists>r. report_for_status g b s = (Some r, s\<lparr>gn_reported := insert (report_key r) (gn_reported s)\<rparr>) \<and>
     report_key r \<notin> gn_reported s)"
  by (simp add: report_for_status_def Let_def report_key_def)

lemma report_for_status_cases:
  obtains "report_for_status g b s = (None, s)"
  | r where "report_for_status g b s = (Some r, s\<lparr>gn_reported := insert (report_key r) (gn_reported s)\<rparr>)"
      "report_key r \<notin> gn_reported s"
  using report_for_status_split by blast

lemma reported_mono_insert: "reported_mono s (s\<lparr>gn_reported := insert k (gn_reported s)\<rparr>)"
  by (auto simp: reported_mono_def quiet_pending_def)

lemma new_goal_updated [reported_intros]: "reported_new s (goal_updated_effect g p s)"
  by (cases rule: report_for_status_cases [of g False s])
    (auto simp: goal_updated_effect_def reported_new_def reported_mono_insert split: option.split)

lemma new_inject [reported_intros]: "reported_new s (inject_and_report b g source content s)"
  by (cases rule: report_for_status_cases [of g b s])
    (auto simp: inject_and_report_def reported_new_def reported_mono_insert split: option.split)

lemma new_budget [reported_intros]: "reported_new s (budget_limit_effect r s)"
proof -
  have "reported_mono s (s\<lparr>gn_budget_reported := X\<rparr>)" for X by (rule reported_mono_frame) simp_all
  then show ?thesis
    by (auto simp: budget_limit_effect_def Let_def reported_new_silent
      intro: reported_new_trans new_inject)
qed

text \<open>The bookkeeping of turns and clocks leaves the reports alone.\<close>

lemma bookkeeping_simps [simp]:
  "gn_reported (mark_active_goal ck t i s) = gn_reported s"
  "gn_pending (mark_active_goal ck t i s) = gn_pending s"
  "gn_reported (settle_accounting t usage b s) = gn_reported s"
  "gn_pending (settle_accounting t usage b s) = gn_pending s"
  "gn_reported (snd (time_delta_since_last_accounting ck t s)) = gn_reported s"
  "gn_pending (snd (time_delta_since_last_accounting ck t s)) = gn_pending s"
  "gn_reported (record_changed_files_for_current_goal t turn files s) = gn_reported s"
  "gn_pending (record_changed_files_for_current_goal t turn files s) = gn_pending s"
  "gn_reported (rebuild_report_facts_from_events t es s) = gn_reported s"
  "gn_pending (rebuild_report_facts_from_events t es s) = gn_pending s"
  by (simp_all add: mark_active_goal_def settle_accounting_def time_delta_since_last_accounting_def
    record_changed_files_for_current_goal_def rebuild_report_facts_from_events_def Let_def
    split: option.split prod.split)

lemma mono_set_status [reported_intros]: "op_mono (set_goal_status ck t st expected)"
  unfolding set_goal_status_def Let_def by (intro reported_intros) simp_all

lemma mono_update_tool [reported_intros]: "op_mono (update_goal_status_from_tool ck t st)"
proof -
  have "op_mono (\<lambda>s. return_op g (s\<lparr>gn_pending := (gn_pending s)(t \<mapsto> GeEmitUpdated g)\<rparr>))" for g
    by (rule op_monoI) (simp add: reported_mono_def quiet_pending_def)
  then show ?thesis
    unfolding update_goal_status_from_tool_def by (intro mono_and_then mono_set_status)
qed

lemma mono_create [reported_intros]: "op_mono (create_goal_with_options ck t ob b m)"
  unfolding create_goal_with_options_def by (intro reported_intros) simp_all

lemma mono_reset [reported_intros]: "op_mono (reset_suppression_for_current_goal ck t)"
  unfolding reset_suppression_for_current_goal_def Let_def
  by (rule op_monoI) (rule mono_at [OF mono_and_then [OF mono_basic(1,3)] reported_mono_refl])

lemma new_turn_started [reported_intros]: "op_new (turn_started ck t turn trigger usage)"
  unfolding turn_started_def Let_def
  by (intro reported_intros) (simp_all split: option.split)

lemma new_account [reported_intros]:
  "op_new (account_turn_progress_locked ck t turn usage mark silent mode)"
proof (rule op_newI)
  fix s
  obtain secs s1 where tm: "time_delta_since_last_accounting ck t s = (secs, s1)" by force
  then have 1: "reported_mono s s1"
    using bookkeeping_simps(5,6) [of ck t s] by (auto intro: reported_mono_frame)
  have settle: "op_new (\<lambda>s2. m (settle_accounting t usage b s2))" if "op_new m" for m b
    by (intro op_newI new_at [OF that] reported_mono_frame) simp_all
  let ?f = "\<lambda>b outcome s2. (let s3 = settle_accounting t usage b s2 in
      case outcome of
        Unchanged _ \<Rightarrow> return_op GeNone s3
      | Updated r \<Rightarrow>
          if go_status r = GoalBudgetLimited \<and> \<not> silent then pure_op (budget_limit_effect r) s3
          else return_op (GeEmitUpdated (thread_goal_from_record r)) s3)"
  have "op_new (?f b outcome)" for b outcome
  proof (cases outcome)
    case (Updated r)
    have "op_new (if go_status r = GoalBudgetLimited \<and> \<not> silent then pure_op (budget_limit_effect r)
        else return_op (GeEmitUpdated (thread_goal_from_record r)))"
      by (intro reported_intros) simp_all
    from settle [OF this, of b] show ?thesis by (simp add: Updated Let_def if_distribR)
  qed (simp add: Let_def settle new_return)
  then have "op_new (and_then (on_db g) (?f b))" for g b
    by (intro reported_intros)
  note new_at [OF this 1]
  then show "reported_new s
     (effect_of (account_turn_progress_locked ck t turn usage mark silent mode s),
      snd (account_turn_progress_locked ck t turn usage mark silent mode s))"
    by (auto simp: account_turn_progress_locked_def tm Let_def split: option.split
      intro!: reported_new_silent reported_mono_frame)
qed

lemma mono_account [reported_intros]:
  "op_mono (account_turn_progress_locked ck t turn usage mark silent mode)"
  by (rule op_new_mono [OF new_account])

lemma new_after_turn [reported_intros]: "op_new (after_turn ck t turn a)"
  unfolding after_turn_def by (intro reported_intros) (simp_all split: option.split)

lemma new_refresh:
  "reports_of eff = [] \<Longrightarrow> op_new (refresh_pending_status_effect_after_accounting t eff)"
  unfolding refresh_pending_status_effect_after_accounting_def
  by (cases eff) (auto intro!: reported_intros)

text \<open>The invariant: a pending effect carries no report. It starts the last steps of a turn.\<close>

definition call_ok :: "(goal_runtime \<Rightarrow> goal_effect goal_op_result) \<Rightarrow> bool" where
  "call_ok m \<longleftrightarrow> (\<forall>s. quiet_pending s \<longrightarrow> reported_new s (effect_of (m s), snd (m s)))"

lemma call_ok_new: "op_new m \<Longrightarrow> call_ok m"
  by (simp add: op_new_def call_ok_def)

lemma call_turn_finished: "call_ok (turn_finished ck t turn usage active)"
  unfolding call_ok_def
proof (intro allI impI)
  fix s
  let ?m = "account_turn_progress_locked ck t turn usage active False (pending_mode t s)"
  assume quiet: "quiet_pending s"
  obtain r s1 where m: "?m s = (r, s1)" by force
  have 1: "reported_mono s s1"
    using mono_account [of ck t turn usage active False "pending_mode t s"] m
    by (metis op_mono_def snd_conv)
  then have q1: "quiet_pending s1" using quiet by (simp add: reported_mono_def)
  define s2 where "s2 = s1\<lparr>gn_turns := (gn_turns s1)(t := None), gn_pending := (gn_pending s1)(t := None)\<rparr>"
  have "reported_mono s1 s2" using q1
    by (auto simp: reported_mono_def quiet_pending_def s2_def)
  with 1 have 2: "reported_mono s s2" by (rule reported_mono_trans)
  show "reported_new s (effect_of (turn_finished ck t turn usage active s),
      snd (turn_finished ck t turn usage active s))"
  proof (cases r)
    case (Inl e)
    with 1 m show ?thesis by (simp add: turn_finished_def and_then_def reported_new_silent)
  next
    case (Inr eff)
    then have f: "turn_finished ck t turn usage active s = (case gn_pending s1 t of
        Some eff \<Rightarrow> refresh_pending_status_effect_after_accounting t eff s2
      | None \<Rightarrow> (case gn_turns s1 t of None \<Rightarrow> return_op GeNone s2
          | Some a \<Rightarrow> after_turn ck t turn a s2))"
      using m by (simp add: turn_finished_def and_then_def s2_def Let_def split: option.split)
    have "reports_of eff = []" if "gn_pending s1 t = Some eff" for eff
      using that q1 by (simp add: quiet_pending_def)
    then show ?thesis
      using 2 by (auto simp: f reported_new_silent new_at [OF new_refresh] new_at [OF new_after_turn]
        split: option.split)
  qed
qed

lemma new_external_mutation [reported_intros]: "op_new (external_mutation_starting ck t turn)"
proof (rule op_newI)
  fix s
  have tm: "reported_mono s (snd (time_delta_since_last_accounting ck t s))"
    by (rule reported_mono_frame) simp_all
  have a: "op_new (and_then (account_turn_progress_locked ck t u usage False True ActiveOnly)
      (\<lambda>_. return_op GeNone))" for u usage
    by (intro reported_intros) simp
  have b: "op_new (and_then (on_db f) (\<lambda>outcome. return_op (case outcome of
      Updated r \<Rightarrow> GeEmitUpdated (thread_goal_from_record r) | Unchanged _ \<Rightarrow> GeNone)))" for f
    by (intro reported_intros) (simp split: accounting_outcome.split)
  show "reported_new s (effect_of (external_mutation_starting ck t turn s),
      snd (external_mutation_starting ck t turn s))"
    using new_at [OF a reported_mono_refl, of s] new_at [OF b tm]
    by (simp add: external_mutation_starting_def reported_new_silent split_beta split: option.split)
qed

lemma new_external_set [reported_intros]: "op_new (external_set ck t g previous)"
proof -
  have tail: "reported_new s (effect_of (m (mark_active_goal ck t i s)), snd (m (mark_active_goal ck t i s)))"
    if "op_new m" for m i s
    by (intro new_at [OF that] reported_mono_frame) simp_all
  have obj: "op_new (\<lambda>s. let (eff, s2) = goal_updated_effect g previous s in
      return_op (case eff of GeEmitUpdatedAndGoalReport _ r \<Rightarrow>
          GeEmitUpdatedInjectAndGoalReport g ''goal_objective_updated'' content r
        | _ \<Rightarrow> GeEmitUpdatedAndInject g ''goal_objective_updated'' content) s2)" (is "op_new ?o") for content
  proof (rule op_newI)
    fix s
    obtain eff s2 where u: "goal_updated_effect g previous s = (eff, s2)" by force
    from new_goal_updated [of s g previous] u
    show "reported_new s (effect_of (?o s), snd (?o s))"
      by (cases eff) (auto simp: reported_new_def)
  qed
  have sched: "op_new (\<lambda>s. if active \<and> \<not> has_active_turn t s then return_op GeScheduleContinuation s
      else pure_op (goal_updated_effect g previous) s)" for active
    using new_goal_updated by (intro op_newI) (simp add: reported_new_silent)
  show ?thesis
    unfolding external_set_def Let_def [of "tg_status g = GsActive"]
    apply (intro new_and_then case_intros mono_basic op_newI)
    using tail [OF obj] tail [OF sched]
    by (simp add: Let_def split_beta)
qed

lemma new_external_clear [reported_intros]: "op_new (external_clear t)"
  by (rule op_newI) (simp add: external_clear_def reported_new_silent reported_mono_frame)

lemma new_thread_resumed [reported_intros]: "op_new (thread_resumed ck t es)"
proof (rule op_newI)
  fix s
  have "op_new (and_then (reading f) (\<lambda>goal s. return_op
         (case goal of None \<Rightarrow> GeNone
          | Some r \<Rightarrow> if go_status r = GoalActive \<and> \<not> go_suppressed r then GeScheduleContinuation
                      else GeNone) (mark_active_goal ck t (active_id goal) s)))" for f
    by (intro reported_intros) (simp_all split: option.split)
  from new_at [OF this, of s "rebuild_report_facts_from_events t es s"]
  show "reported_new s (effect_of (thread_resumed ck t es s), snd (thread_resumed ck t es s))"
    by (simp add: thread_resumed_def reported_mono_frame)
qed

lemma new_forge_escalation:
  assumes "op_new (f None)" "\<And>e. f (Some e) = return_op e"
  shows "op_new (and_then (forge_escalation_effect ck t goal) f)"
proof -
  have key: "op_new (and_then (if_new_key key m) f)" if m: "op_new m" for key m
  proof (rule op_newI)
    fix s :: goal_runtime
    let ?s = "s\<lparr>gn_notified := insert key (gn_notified s)\<rparr>"
    have "reported_mono s ?s" by (rule reported_mono_frame) simp_all
    from new_at [OF m this] new_at [OF assms(1) reported_mono_refl, of s]
    show "reported_new s (effect_of (and_then (if_new_key key m) f s), snd (and_then (if_new_key key m) f s))"
      by (auto simp: if_new_key_def and_then_def return_op_def effect_of_def assms(2)
        split: prod.split sum.split)
  qed
  have assoc: "and_then (and_then m g) f = and_then m (\<lambda>x. and_then (g x) f)" for m :: "_ \<Rightarrow> 'x goal_op_result" and g
    by (rule ext) (simp add: and_then_def split: prod.split sum.split)
  have none: "and_then (return_op None) f = f None"
    by (rule ext) (simp add: and_then_def return_op_def)
  show ?thesis
    unfolding forge_escalation_effect_def assoc update_goal_status_for_forge_escalation_def
    by (rule new_and_then [OF mono_basic(2)])
      (simp add: none assms(1) key [OF new_return]
        key [OF new_and_then [OF mono_set_status new_pure [OF new_inject]]]
        split: escalation_decision.split)
qed

lemma new_continue [reported_intros]: "op_new (maybe_continue_if_idle ck t)"
proof -
  have esc: "op_new (and_then (forge_escalation_effect ck t r) (\<lambda>eff. case eff of
      Some e \<Rightarrow> return_op e | None \<Rightarrow> return_op GeScheduleContinuation))" for r
    by (rule new_forge_escalation) (auto intro: reported_intros)
  have "op_new (and_then (reading (get_thread_goal t)) (\<lambda>goal. case goal of
          None \<Rightarrow> return_op GeNone
        | Some r \<Rightarrow>
          if go_status r = GoalActive \<and> \<not> go_suppressed r
          then and_then (forge_escalation_effect ck t r) (\<lambda>eff. case eff of
              Some e \<Rightarrow> return_op e
            | None \<Rightarrow> return_op GeScheduleContinuation)
          else return_op GeNone))"
    by (intro new_and_then mono_basic case_intros esc new_return) simp_all
  from new_at [OF this reported_mono_refl] show ?thesis
    by (intro op_newI) (simp add: maybe_continue_if_idle_def reported_new_silent)
qed

lemma call_apply_event: "call_ok (apply_event ck ev)"
proof (cases ev)
  case (GvToolCompleted t turn tool usage files)
  show ?thesis unfolding call_ok_def
  proof (intro allI impI)
    fix s
    let ?s0 = "record_changed_files_for_current_goal t turn files s"
    let ?r = "if tool \<noteq> ''update_goal'' then reset_suppression_for_current_goal ck t else return_op ()"
    obtain r s1 where m: "account_turn_progress_locked ck t turn usage True False ActiveOnly ?s0 = (r, s1)"
      by force
    have "reported_mono s ?s0" by (rule reported_mono_frame) simp_all
    from new_at [OF new_account this, of ck t turn usage True False ActiveOnly] m
    have 1: "reported_new s (effect_of (r, s1), s1)" by simp
    have r: "gn_reported (snd (?r s1)) = gn_reported s1 \<and> gn_pending (snd (?r s1)) = gn_pending s1"
      by (simp add: reset_suppression_for_current_goal_def and_then_def on_db_def return_op_def Let_def
        split: prod.split sum.split)
    obtain x s2 where x: "?r s1 = (x, s2)" by force
    with r have 2: "gn_reported s2 = gn_reported s1" "gn_pending s2 = gn_pending s1" by simp_all
    have "apply_event ck ev s = (case r of Inl e \<Rightarrow> (Inl e, s1)
        | Inr eff \<Rightarrow> (case ?r s1 of (Inl e, s2) \<Rightarrow> (Inl e, s2) | (Inr _, s2) \<Rightarrow> (Inr eff, s2)))"
      unfolding GvToolCompleted apply_event.simps and_then_def [of _ _ ?s0] m
      by (simp add: and_then_def return_op_def split: sum.split prod.split)
    then have "apply_event ck ev s = (case r of Inl e \<Rightarrow> (Inl e, s1)
        | Inr eff \<Rightarrow> (case x of Inl e \<Rightarrow> (Inl e, s2) | Inr _ \<Rightarrow> (Inr eff, s2)))"
      by (simp only: x prod.case)
    with 1 2 show "reported_new s (effect_of (apply_event ck ev s), snd (apply_event ck ev s))"
      by (cases r; cases x) (simp_all add: effect_of_def reported_new_cong [of s _ s1 s2] reported_new_cong [of s _ s1 s1])
  qed
next
  case (GvToolCompletedGoal t turn usage)
  have "op_new (and_then (account_turn_progress_locked ck t turn usage False True mode)
      (\<lambda>_. return_op GeNone))" for mode
    by (intro reported_intros) simp
  then show ?thesis
    by (auto simp: call_ok_def GvToolCompletedGoal intro: new_at)
qed (simp_all add: call_turn_finished [unfolded call_ok_def] call_ok_def new_at [OF _ reported_mono_refl]
  new_turn_started new_external_mutation new_external_set new_external_clear new_thread_resumed
  new_continue)

lemma exec_call_new:
  assumes "quiet_pending s"
  shows "reported_new s (exec_call c s)"
proof -
  obtain ck d where c: "c = (ck, d)" by force
  have "reported_mono s (snd (create_goal_with_options ck t ob b m s))"
    "reported_mono s (snd (update_goal_status_from_tool ck t st s))" for t ob b m st
    using mono_create mono_update_tool by (auto simp: op_mono_def)
  with call_apply_event [unfolded call_ok_def] assms show ?thesis
    by (cases d) (simp_all add: c reported_new_silent)
qed

lemma run_calls_new:
  assumes "quiet_pending s"
  shows "distinct (map report_key (concat (map reports_of (fst (run_calls cs s))))) \<and>
    report_key ` set (concat (map reports_of (fst (run_calls cs s)))) \<inter> gn_reported s = {}"
  using assms
proof (induction cs arbitrary: s)
  case (Cons c cs)
  obtain eff s1 where e: "exec_call c s = (eff, s1)" by force
  obtain effs s2 where r: "run_calls cs s1 = (effs, s2)" by force
  from exec_call_new [OF Cons.prems, of c] e
  have 1: "quiet_pending s1" "gn_reported s \<subseteq> gn_reported s1" "distinct (map report_key (reports_of eff))"
    "report_key ` set (reports_of eff) \<subseteq> gn_reported s1 - gn_reported s"
    using Cons.prems by (auto simp: reported_new_def reported_mono_def)
  from Cons.IH [OF 1(1)] r have 2: "distinct (map report_key (concat (map reports_of effs)))"
    "report_key ` set (concat (map reports_of effs)) \<inter> gn_reported s1 = {}" by simp_all
  from 1(2-4) 2 show ?case
    by (simp add: e r) blast
qed simp

definition end_of :: "thread_goal_report \<Rightarrow> string \<times> thread_goal_status" where
  "end_of r = (gr_goal_id r, gr_final_status r)"

text \<open>
  C19: However turns, tools, requests and continuations are ordered, the effects of the goal
  runtime contain at most one report for each end of a goal (its identifier and final status): no
  two reports of a process tell the user about the same end.
\<close>

theorem goal_reports_unique:
  "distinct (map end_of (concat (map reports_of (fst (run_calls cs (goal_runtime_new db))))))"
proof -
  have "quiet_pending (goal_runtime_new db)"
    by (simp add: quiet_pending_def goal_runtime_new_def)
  from run_calls_new [OF this] have "distinct (map report_key
      (concat (map reports_of (fst (run_calls cs (goal_runtime_new db))))))" by simp
  moreover have "report_key = (\<lambda>(i, st). report_status_key i st) \<circ> end_of"
    by (rule ext) (simp add: report_key_def end_of_def)
  ultimately show ?thesis by (metis distinct_map map_map)
qed

section \<open>The usage of a turn\<close>

lemma account_answer:
  assumes "rows_ok db" "goal_map db t = Some g"
  obtains db' where "account_thread_goal_usage now t secs tok mode i db =
      (Inr (if accounts mode i g then Updated (account_goal now secs tok mode i g)
            else Unchanged (Some g)), db')"
    and "rows_ok db'" "goal_map db' = (goal_map db)(t \<mapsto> account_goal now secs tok mode i g)"
proof -
  let ?db = "snd (account_thread_goal_usage now t secs tok mode i db)"
  have r: "rows_ok ?db" "goal_map ?db = (goal_map db)(t \<mapsto> account_goal now secs tok mode i g)"
    using refine_account [OF assms(1), of now t secs tok mode i] assms(2)
    by (auto simp: refines_def goal_state_of_def)
  have get: "get_thread_goal t ?db = Inr (Some (account_goal now secs tok mode i g))"
    by (simp add: get_goal_map [OF r(1)] r(2))
  have "fst (account_thread_goal_usage now t secs tok mode i db) =
      Inr (if accounts mode i g then Updated (account_goal now secs tok mode i g) else Unchanged (Some g))"
  proof (cases "accounts mode i g")
    case False
    then show ?thesis
      by (cases mode) (auto simp: account_thread_goal_usage_def get_goal_map [OF assms(1)] assms(2)
        accounts_def id_matches_def split: option.splits)
  next
    case True
    then have "\<not> (case i of None \<Rightarrow> False | Some i \<Rightarrow> i \<noteq> go_goal_id g)"
      "\<not> (mode = ActiveOnly \<and> go_status g \<noteq> GoalActive)"
      by (auto simp: accounts_def id_matches_def split: option.splits)
    with True get show ?thesis
      by (auto simp: account_thread_goal_usage_def get_goal_map [OF assms(1)] assms(2) Let_def
        simp del: get_goal_map)
  qed
  then show thesis using that [of ?db] r by (metis prod.collapse)
qed

lemma reset_result:
  assumes "rows_ok db" "goal_map db t = Some g"
  obtains x db' where "reset_thread_goal_continuation_suppression now t i db = (Inr x, db')"
    and "rows_ok db'" "goal_map db' = (goal_map db)(t \<mapsto> reset_goal now i g)"
proof -
  let ?r = "reset_thread_goal_continuation_suppression now t i db"
  have r: "rows_ok (snd ?r)" "goal_map (snd ?r) = (goal_map db)(t \<mapsto> reset_goal now i g)"
    using refine_reset [OF assms(1), of now t i] assms(2)
    by (auto simp: refines_def goal_state_of_def)
  have "\<exists>x. fst ?r = Inr x"
    using get_goal_map [OF r(1), of t]
    by (auto simp: reset_thread_goal_continuation_suppression_def get_goal_map [OF assms(1)] assms(2)
      Let_def simp del: get_goal_map split: option.splits if_splits)
  then show thesis using that r by (metis prod.collapse)
qed

text \<open>A turn is under way for the active goal \<open>g\<close>: the usage accounted last, and the instant up to
  which the time is accounted.\<close>

definition in_turn ::
  "thread_id \<Rightarrow> turn_id \<Rightarrow> int \<Rightarrow> nat \<Rightarrow> goal_record \<Rightarrow> goal_runtime \<Rightarrow> bool" where
  "in_turn t turn u l g s \<longleftrightarrow> rows_ok (gn_db s) \<and> goal_map (gn_db s) t = Some g \<and>
     go_status g = GoalActive \<and>
     (\<exists>a. gn_turns s t = Some a \<and> ta_turn_id a = turn \<and> ta_active_goal a = Some (go_goal_id g) \<and>
        tu_total (ta_last_usage a) = u) \<and>
     (\<exists>w. gn_wall s t = Some w \<and> wc_last w = l)"

definition spent :: "int \<Rightarrow> int \<Rightarrow> goal_record \<Rightarrow> goal_record \<Rightarrow> bool" where
  "spent tokens secs g g' \<longleftrightarrow> go_goal_id g' = go_goal_id g \<and> go_token_budget g' = go_token_budget g \<and>
     go_tokens_used g' = go_tokens_used g + tokens \<and>
     go_time_used_seconds g' = go_time_used_seconds g + secs"

lemma account_goal_exact:
  assumes "go_status g = GoalActive" "id_matches i g" "0 \<le> tok" "0 \<le> secs"
    and "is_i64 (go_tokens_used g + tok)" "is_i64 (go_time_used_seconds g + secs)"
    and "\<not> over_budget (go_token_budget g) (go_tokens_used g + tok)"
  shows "spent tok secs g (account_goal now secs tok mode i g)"
    and "go_status (account_goal now secs tok mode i g) = GoalActive"
  using assms by (simp_all add: account_goal_def accounts_def Let_def sat_add_exact spent_def max_def)

lemma account_frame [simp]:
  "gn_turns (mark_active_goal ck t i s) = gn_turns s"
  "gn_db (mark_active_goal ck t i s) = gn_db s"
  "gn_turns (record_changed_files_for_current_goal t turn files s) = gn_turns s"
  "gn_wall (record_changed_files_for_current_goal t turn files s) = gn_wall s"
  "gn_db (record_changed_files_for_current_goal t turn files s) = gn_db s"
  "gn_db (settle_accounting t usage b s) = gn_db s"
  "gn_wall (settle_accounting t usage b s) = gn_wall s"
  by (simp_all add: mark_active_goal_def record_changed_files_for_current_goal_def
    settle_accounting_def split: option.split)

lemma in_turn_account:
  assumes it: "in_turn t turn u l g s"
    and v: "u \<le> tu_total usage" "is_i64 (tu_total usage - u)"
    and n: "l \<le> ck_instant ck" "int ((ck_instant ck - l) div 1000) \<le> i64_max"
    and room: "is_i64 (go_tokens_used g + (tu_total usage - u))"
      "is_i64 (go_time_used_seconds g + int ((ck_instant ck - l) div 1000))"
      "\<not> over_budget (go_token_budget g) (go_tokens_used g + (tu_total usage - u))"
  obtains eff s' g' where
    "account_turn_progress_locked ck t turn usage mark silent ActiveOnly s = (Inr eff, s')"
    and "in_turn t turn (tu_total usage) (l + 1000 * ((ck_instant ck - l) div 1000)) g' s'"
    and "spent (tu_total usage - u) (int ((ck_instant ck - l) div 1000)) g g'"
proof -
  from it obtain a w where s: "rows_ok (gn_db s)" "goal_map (gn_db s) t = Some g" "go_status g = GoalActive"
    and a: "gn_turns s t = Some a" "ta_turn_id a = turn" "ta_active_goal a = Some (go_goal_id g)"
      "tu_total (ta_last_usage a) = u" and w: "gn_wall s t = Some w" "wc_last w = l"
    by (auto simp: in_turn_def)
  let ?secs = "(ck_instant ck - l) div 1000" and ?tok = "tu_total usage - u"
  let ?g = "account_goal (ck_now ck) (int ?secs) ?tok ActiveOnly (Some (go_goal_id g)) g"
  let ?w = "w\<lparr>wc_last := l + 1000 * ?secs\<rparr>"
  let ?s1 = "s\<lparr>gn_wall := (gn_wall s)(t \<mapsto> ?w)\<rparr>"
  have tok: "token_delta (ta_last_usage a) usage = ?tok"
    using v by (simp add: token_delta_def a(4) sat_sub_def clamp_i64_id)
  have tm: "time_delta_since_last_accounting ck t s = (int ?secs, ?s1)"
    using n by (simp add: time_delta_since_last_accounting_def w Let_def min_def)
  have acc: "accounts ActiveOnly (Some (go_goal_id g)) g"
    by (simp add: accounts_def id_matches_def s(3))
  from account_answer [OF s(1,2), of "ck_now ck" "int ?secs" ?tok ActiveOnly "Some (go_goal_id g)"]
  obtain db' where db': "account_thread_goal_usage (ck_now ck) t (int ?secs) ?tok ActiveOnly
      (Some (go_goal_id g)) (gn_db s) = (Inr (Updated ?g), db')"
    "rows_ok db'" "goal_map db' = (goal_map (gn_db s))(t \<mapsto> ?g)"
    using acc by auto
  have ex: "spent ?tok (int ?secs) g ?g" "go_status ?g = GoalActive"
    using account_goal_exact [OF s(3) _ _ _ room(1,2,3)] v(1) by (simp_all add: id_matches_def)
  let ?s3 = "settle_accounting t usage (mark \<or> ?tok > 0) (?s1\<lparr>gn_db := db'\<rparr>)"
  have "account_turn_progress_locked ck t turn usage mark silent ActiveOnly s =
      (Inr (GeEmitUpdated (thread_goal_from_record ?g)), ?s3)"
    using ex(2) by (simp add: account_turn_progress_locked_def a tok tm and_then_def on_db_def db'(1)
      return_op_def Let_def)
  moreover have "in_turn t turn (tu_total usage) (l + 1000 * ?secs) ?g ?s3"
    using db'(2,3) ex a by (simp add: in_turn_def settle_accounting_def spent_def)
  ultimately show thesis using that ex(1) by blast
qed

lemma in_turn_tool:
  assumes it: "in_turn t turn u l g s"
    and v: "u \<le> tu_total usage" "is_i64 (tu_total usage - u)"
    and n: "l \<le> ck_instant ck" "int ((ck_instant ck - l) div 1000) \<le> i64_max"
    and room: "is_i64 (go_tokens_used g + (tu_total usage - u))"
      "is_i64 (go_time_used_seconds g + int ((ck_instant ck - l) div 1000))"
      "\<not> over_budget (go_token_budget g) (go_tokens_used g + (tu_total usage - u))"
  obtains g' where "in_turn t turn (tu_total usage) (l + 1000 * ((ck_instant ck - l) div 1000)) g'
      (snd (apply_event ck (GvToolCompleted t turn tool usage files) s))"
    and "spent (tu_total usage - u) (int ((ck_instant ck - l) div 1000)) g g'"
proof -
  let ?s0 = "record_changed_files_for_current_goal t turn files s"
  let ?l = "l + 1000 * ((ck_instant ck - l) div 1000)"
  have "in_turn t turn u l g ?s0" using it by (simp add: in_turn_def)
  from in_turn_account [OF this v n room, of True False] obtain eff s1 g1
    where acc: "account_turn_progress_locked ck t turn usage True False ActiveOnly ?s0 = (Inr eff, s1)"
      and 1: "in_turn t turn (tu_total usage) ?l g1 s1"
      and g1: "spent (tu_total usage - u) (int ((ck_instant ck - l) div 1000)) g g1" .
  show thesis
  proof (cases "tool = ''update_goal''")
    case True
    then show thesis using that [OF _ g1] 1 acc by (simp add: and_then_def return_op_def)
  next
    case False
    from 1 have ok: "rows_ok (gn_db s1)" "goal_map (gn_db s1) t = Some g1" by (auto simp: in_turn_def)
    let ?i = "case gn_turns s1 t of None \<Rightarrow> None | Some a \<Rightarrow> ta_active_goal a"
    from reset_result [OF ok, of "ck_now ck" ?i] obtain x db'
      where r: "reset_thread_goal_continuation_suppression (ck_now ck) t ?i (gn_db s1) = (Inr x, db')"
        "rows_ok db'" "goal_map db' = (goal_map (gn_db s1))(t \<mapsto> reset_goal (ck_now ck) ?i g1)" .
    have "snd (apply_event ck (GvToolCompleted t turn tool usage files) s) = s1\<lparr>gn_db := db'\<rparr>"
      using acc False r(1)
      by (simp add: and_then_def return_op_def reset_suppression_for_current_goal_def on_db_def Let_def)
    moreover have "in_turn t turn (tu_total usage) ?l (reset_goal (ck_now ck) ?i g1) (s1\<lparr>gn_db := db'\<rparr>)"
      using 1 r(2,3) by (auto simp: in_turn_def reset_goal_def)
    moreover have "spent (tu_total usage - u) (int ((ck_instant ck - l) div 1000)) g (reset_goal (ck_now ck) ?i g1)"
      using g1 by (simp add: spent_def reset_goal_def)
    ultimately show thesis using that by simp
  qed
qed

type_synonym tool_end = "clock \<times> string \<times> token_usage \<times> string list"

fun tools_run :: "thread_id \<Rightarrow> turn_id \<Rightarrow> tool_end list \<Rightarrow> goal_runtime \<Rightarrow> goal_runtime" where
  "tools_run t turn [] s = s"
| "tools_run t turn ((ck, tool, usage, files) # es) s =
     tools_run t turn es (snd (apply_event ck (GvToolCompleted t turn tool usage files) s))"

definition end_instant :: "tool_end \<Rightarrow> nat" where
  "end_instant e = (case e of (ck, _, _, _) \<Rightarrow> ck_instant ck)"

definition end_tokens :: "tool_end \<Rightarrow> int" where
  "end_tokens e = (case e of (_, _, usage, _) \<Rightarrow> tu_total usage)"

definition whole_secs :: "nat \<Rightarrow> nat \<Rightarrow> int" where
  "whole_secs l n = int ((n - l) div 1000)"

lemma whole_secs_add:
  assumes "l \<le> n" "n \<le> m"
  shows "whole_secs l n + whole_secs (l + 1000 * ((n - l) div 1000)) m = whole_secs l m"
    and "l + 1000 * ((n - l) div 1000) \<le> n"
    and "whole_secs l n \<le> whole_secs l m"
    and "l + 1000 * ((n - l) div 1000) + 1000 * ((m - (l + 1000 * ((n - l) div 1000))) div 1000) =
      l + 1000 * ((m - l) div 1000)"
proof -
  let ?q = "(n - l) div 1000"
  have q: "1000 * ?q \<le> n - l" by simp
  then have "m - l = 1000 * ?q + (m - (l + 1000 * ?q))" using assms by linarith
  then have qm: "(m - l) div 1000 = ?q + (m - (l + 1000 * ?q)) div 1000"
    by (metis div_mult_self4 zero_neq_numeral)
  show "l + 1000 * ?q + 1000 * ((m - (l + 1000 * ?q)) div 1000) = l + 1000 * ((m - l) div 1000)"
    unfolding qm by simp
  from qm show "whole_secs l n + whole_secs (l + 1000 * ?q) m = whole_secs l m"
    by (simp add: whole_secs_def)
  show "l + 1000 * ?q \<le> n" using q assms(1) by linarith
  show "whole_secs l n \<le> whole_secs l m"
    unfolding whole_secs_def using assms by (intro zle_int [THEN iffD2] div_le_mono diff_le_mono)
qed

lemma sorted_last: "sorted (x # xs) \<Longrightarrow> x \<le> last (x # xs)"
  by (metis last_in_set list.discI list.set_intros(1) sorted_simps(2) set_ConsD order_refl)

lemma is_i64_between: "0 \<le> x \<Longrightarrow> x \<le> y \<Longrightarrow> is_i64 y \<Longrightarrow> is_i64 x"
  by (simp add: is_i64_def i64_min_def)

lemma in_turn_tools:
  assumes "in_turn t turn u l g s"
    and "sorted (u # map end_tokens es)" "sorted (l # map end_instant es)"
    and "0 \<le> u" "is_i64 (last (u # map end_tokens es))"
    and "0 \<le> go_tokens_used g" "0 \<le> go_time_used_seconds g"
    and "is_i64 (go_tokens_used g + (last (u # map end_tokens es) - u))"
    and "is_i64 (go_time_used_seconds g + whole_secs l (last (l # map end_instant es)))"
    and "\<not> over_budget (go_token_budget g) (go_tokens_used g + (last (u # map end_tokens es) - u))"
  shows "\<exists>g'. in_turn t turn (last (u # map end_tokens es))
      (l + 1000 * ((last (l # map end_instant es) - l) div 1000)) g' (tools_run t turn es s) \<and>
    spent (last (u # map end_tokens es) - u) (whole_secs l (last (l # map end_instant es))) g g'"
  using assms
proof (induction es arbitrary: u l g s)
  case Nil
  then have "spent 0 (whole_secs l l) g g" by (simp add: spent_def whole_secs_def)
  with Nil.prems(1) show ?case by auto
next
  case (Cons e es)
  obtain ck tool usage files where e: "e = (ck, tool, usage, files)" by (cases e)
  let ?v = "tu_total usage" and ?n = "ck_instant ck"
  let ?l = "l + 1000 * ((?n - l) div 1000)"
  let ?u = "last (?v # map end_tokens es)" and ?m = "last (?n # map end_instant es)"
  have ends: "end_tokens e = ?v" "end_instant e = ?n" by (simp_all add: e end_tokens_def end_instant_def)
  have lu: "last (u # map end_tokens (e # es)) = ?u" and lm: "last (l # map end_instant (e # es)) = ?m"
    by (simp_all add: ends)
  have v: "u \<le> ?v" "?v \<le> ?u" and n: "l \<le> ?n" "?n \<le> ?m"
    using Cons.prems(2,3) sorted_last [of ?v "map end_tokens es"] sorted_last [of ?n "map end_instant es"]
    by (auto simp: ends)
  note ws = whole_secs_add [OF n]
  have nonneg: "0 \<le> whole_secs a b" for a b by (simp add: whole_secs_def)
  have room: "is_i64 (?v - u)" "is_i64 (go_tokens_used g + (?v - u))"
    "is_i64 (go_time_used_seconds g + whole_secs l ?n)" "whole_secs l ?n \<le> i64_max"
    "\<not> over_budget (go_token_budget g) (go_tokens_used g + (?v - u))"
    using Cons.prems(4-10) v ws(3) nonneg [of l ?n] unfolding lu lm
    by (auto simp: is_i64_def i64_min_def over_budget_def split: option.splits)
  from in_turn_tool [OF Cons.prems(1) v(1) room(1) n(1) _ room(2) _ room(5), of tool files]
  obtain g1 where 1: "in_turn t turn ?v ?l g1 (snd (apply_event ck (GvToolCompleted t turn tool usage files) s))"
      and g1: "spent (?v - u) (whole_secs l ?n) g g1"
    using room(3,4) by (auto simp: whole_secs_def)
  have sortl: "sorted (?l # map end_instant es)"
    using Cons.prems(3) ws(2) by (auto simp: ends)
  have ml: "last (?l # map end_instant es) = (if es = [] then ?l else ?m)" by simp
  have secs: "whole_secs ?l (last (?l # map end_instant es)) = whole_secs ?l ?m"
    using ws(2) n by (cases "es = []") (auto simp: whole_secs_def)
  have lv: "last (?v # map end_tokens es) = ?u" ..
  have li: "?l + 1000 * ((last (?l # map end_instant es) - ?l) div 1000) = l + 1000 * ((?m - l) div 1000)"
    using ws(2,4) by (cases "es = []") auto
  have IH: "\<exists>g'. in_turn t turn ?u (l + 1000 * ((?m - l) div 1000)) g'
       (tools_run t turn es (snd (apply_event ck (GvToolCompleted t turn tool usage files) s))) \<and>
     spent (?u - ?v) (whole_secs ?l ?m) g1 g'"
    unfolding secs [symmetric] li [symmetric]
  proof (rule Cons.IH [OF 1 _ sortl])
    show "sorted (?v # map end_tokens es)" using Cons.prems(2) by (simp add: ends)
    show "0 \<le> ?v" using Cons.prems(4) v by linarith
    show "is_i64 ?u" using Cons.prems(5) unfolding lu .
    show "0 \<le> go_tokens_used g1" "0 \<le> go_time_used_seconds g1"
      using g1 Cons.prems(6,7) v(1) nonneg [of l ?n] by (auto simp: spent_def)
    show "is_i64 (go_tokens_used g1 + (?u - ?v))"
      "\<not> over_budget (go_token_budget g1) (go_tokens_used g1 + (?u - ?v))"
      using g1 Cons.prems(8,10) unfolding lu by (simp_all add: spent_def)
    show "is_i64 (go_time_used_seconds g1 + whole_secs ?l (last (?l # map end_instant es)))"
      using g1 Cons.prems(9) ws(1) unfolding lm secs by (simp add: spent_def add.assoc)
  qed
  then obtain g' where "in_turn t turn ?u (l + 1000 * ((?m - l) div 1000)) g' (tools_run t turn (e # es) s)"
      "spent (?u - ?v) (whole_secs ?l ?m) g1 g'" by (auto simp: e)
  moreover from this(2) g1 ws(1) have "spent (?u - u) (whole_secs l ?m) g g'"
    by (simp add: spent_def)
  ultimately show ?case unfolding lu lm by blast
qed

lemma pending_frame:
  "gn_pending (snd (account_turn_progress_locked ck t turn usage mark silent mode s)) = gn_pending s"
  "gn_pending (snd (turn_started ck t turn trigger usage s)) = gn_pending s"
  "gn_pending (snd (apply_event ck (GvToolCompleted t turn tool usage files) s)) = gn_pending s"
proof -
  have budget: "gn_pending (snd (budget_limit_effect r s)) = gn_pending s" for r s
    by (simp add: budget_limit_effect_def inject_and_report_def report_for_status_def Let_def)
  show acc: "gn_pending (snd (account_turn_progress_locked ck t turn usage mark silent mode s)) = gn_pending s"
    for ck t turn usage mark silent mode s
  proof -
    obtain secs s1 where tm: "time_delta_since_last_accounting ck t s = (secs, s1)" by force
    then have "gn_pending s1 = gn_pending s" using bookkeeping_simps(6) [of ck t s] by simp
    then show ?thesis
      by (simp add: account_turn_progress_locked_def tm and_then_def on_db_def return_op_def
        pure_op_def budget Let_def split_beta split: option.split sum.split accounting_outcome.split)
  qed
  show "gn_pending (snd (turn_started ck t turn trigger usage s)) = gn_pending s"
    by (simp add: turn_started_def and_then_def on_db_def reading_def return_op_def Let_def split_beta
      split: option.split sum.split)
  let ?r = "reset_suppression_for_current_goal ck t"
  have reset: "gn_pending (snd (?r s)) = gn_pending s" for s
    by (simp add: reset_suppression_for_current_goal_def and_then_def on_db_def return_op_def Let_def
      split_beta split: sum.split)
  show "gn_pending (snd (apply_event ck (GvToolCompleted t turn tool usage files) s)) = gn_pending s"
    using acc [of ck t turn usage True False ActiveOnly "record_changed_files_for_current_goal t turn files s"]
    by (simp add: and_then_def return_op_def reset split_beta split: sum.split)
qed

lemma pending_tools: "gn_pending (tools_run t turn es s) = gn_pending s"
proof (induction es arbitrary: s)
  case (Cons e es)
  then show ?case by (cases e) (simp add: pending_frame del: apply_event.simps)
qed simp

lemma in_turn_started:
  assumes "rows_ok (gn_db s)" "goal_map (gn_db s) t = Some g" "go_status g = GoalActive"
    and "gn_wall s t = None"
  obtains g0 where "in_turn t turn (tu_total usage) (ck_instant ck) g0
      (snd (turn_started ck t turn trigger usage s))" and "spent 0 0 g g0"
proof -
  obtain x db' g0 where r: "(if trigger = TriggerUser
       then reset_thread_goal_continuation_suppression (ck_now ck) t (Some (go_goal_id g)) (gn_db s)
       else (Inr None, gn_db s)) = (Inr x, db')"
    "rows_ok db'" "goal_map db' t = Some g0" "spent 0 0 g g0" "go_status g0 = GoalActive"
  proof (cases "trigger = TriggerUser")
    case True
    from reset_result [OF assms(1,2), of "ck_now ck" "Some (go_goal_id g)"] obtain x db'
      where "reset_thread_goal_continuation_suppression (ck_now ck) t (Some (go_goal_id g)) (gn_db s) = (Inr x, db')"
        "rows_ok db'"
        "goal_map db' = (goal_map (gn_db s))(t \<mapsto> reset_goal (ck_now ck) (Some (go_goal_id g)) g)" .
    with True assms(3) that show thesis by (simp add: spent_def reset_goal_def)
  next
    case False
    with assms that show thesis by (simp add: spent_def)
  qed
  have "in_turn t turn (tu_total usage) (ck_instant ck) g0 (snd (turn_started ck t turn trigger usage s))"
    using r assms(3,4)
    by (cases "trigger = TriggerUser")
      (simp_all add: turn_started_def and_then_def on_db_def reading_def return_op_def Let_def
        get_goal_map [OF assms(1)] get_goal_map [OF r(2)] assms(2) active_id_def in_turn_def
        mark_active_goal_def spent_def)
  then show thesis using that r(4) by blast
qed

lemma suppress_result:
  assumes "rows_ok db" "goal_map db t = Some g"
  obtains x db' where "suppress_thread_goal_continuation now t i after db = (Inr x, db')"
    and "goal_map db' = (goal_map db)(t \<mapsto> suppress_goal now i after g)"
proof -
  let ?r = "suppress_thread_goal_continuation now t i after db"
  have r: "rows_ok (snd ?r)" "goal_map (snd ?r) = (goal_map db)(t \<mapsto> suppress_goal now i after g)"
    using refine_suppress [OF assms(1), of now t i after] assms(2)
    by (auto simp: refines_def goal_state_of_def)
  have "\<exists>x. fst ?r = Inr x"
    using get_goal_map [OF r(1), of t]
    by (auto simp: suppress_thread_goal_continuation_def Let_def simp del: get_goal_map
      split: option.splits if_splits)
  then show thesis using that r by (metis prod.collapse)
qed

lemma in_turn_finished:
  assumes it: "in_turn t turn u l g s" and p: "gn_pending s t = None"
    and v: "u \<le> tu_total usage" "is_i64 (tu_total usage - u)"
    and n: "l \<le> ck_instant ck" "whole_secs l (ck_instant ck) \<le> i64_max"
    and room: "is_i64 (go_tokens_used g + (tu_total usage - u))"
      "is_i64 (go_time_used_seconds g + whole_secs l (ck_instant ck))"
      "\<not> over_budget (go_token_budget g) (go_tokens_used g + (tu_total usage - u))"
  shows "\<exists>eff s' g'. turn_finished ck t turn usage active s = (Inr eff, s') \<and>
    goal_map (gn_db s') t = Some g' \<and> go_status g' = GoalActive \<and>
    spent (tu_total usage - u) (whole_secs l (ck_instant ck)) g g'"
proof -
  from in_turn_account [OF it v n(1) n(2) [unfolded whole_secs_def] room(1) room(2) [unfolded whole_secs_def] room(3)]
  obtain eff s1 g1 where acc: "account_turn_progress_locked ck t turn usage active False ActiveOnly s = (Inr eff, s1)"
    and 1: "in_turn t turn (tu_total usage) (l + 1000 * ((ck_instant ck - l) div 1000)) g1 s1"
    and g1: "spent (tu_total usage - u) (whole_secs l (ck_instant ck)) g g1"
    by (metis whole_secs_def)
  have p1: "gn_pending s1 t = None"
    using pending_frame(1) [of ck t turn usage active False ActiveOnly s] acc p by simp
  let ?s2 = "s1\<lparr>gn_turns := (gn_turns s1)(t := None), gn_pending := (gn_pending s1)(t := None)\<rparr>"
  from 1 obtain a where a: "gn_turns s1 t = Some a" "ta_active_goal a = Some (go_goal_id g1)"
    and ok: "rows_ok (gn_db s1)" "goal_map (gn_db s1) t = Some g1" "go_status g1 = GoalActive"
    by (auto simp: in_turn_def)
  have f: "turn_finished ck t turn usage active s = after_turn ck t turn a ?s2"
    using acc p p1 a by (simp add: turn_finished_def pending_mode_def has_pending_status_effect_def and_then_def)
  from suppress_result [OF ok(1,2), of "ck_now ck" "go_goal_id g1" turn] obtain x db'
    where "suppress_thread_goal_continuation (ck_now ck) t (go_goal_id g1) turn (gn_db s1) = (Inr x, db')"
      "goal_map db' = (goal_map (gn_db s1))(t \<mapsto> suppress_goal (ck_now ck) (go_goal_id g1) turn g1)" .
  then show ?thesis
    using a ok g1
    by (auto simp: f after_turn_def and_then_def reading_def on_db_def return_op_def
      get_goal_map [OF ok(1)] suppress_goal_def spent_def)
qed

lemma sorted_ends:
  fixes x y :: "'a::linorder"
  assumes "sorted (x # xs @ [y])"
  shows "sorted (x # xs)" "last (x # xs) \<le> y" "x \<le> last (x # xs)"
proof -
  show 1: "sorted (x # xs)" using assms sorted_append [of "x # xs" "[y]"] by simp
  then show "x \<le> last (x # xs)" by (rule sorted_last)
  show "last (x # xs) \<le> y"
    using assms sorted_append [of "x # xs" "[y]"] last_in_set [of "x # xs"] by simp
qed


definition usage_total :: "int \<Rightarrow> token_usage" where
  "usage_total n = token_usage_default\<lparr>tu_total := n\<rparr>"

definition at_ms :: "nat \<Rightarrow> clock" where
  "at_ms n = \<lparr>ck_now = int n, ck_instant = n\<rparr>"

definition sample_goal_db :: "int option \<Rightarrow> index_db" where
  "sample_goal_db budget = (db_new [''t''])\<lparr>db_goals := [''t'' \<mapsto> fresh_row ''goal_1'' ''ship'' ''active'' budget 0]\<rparr>"

definition sample_goal_record :: "int option \<Rightarrow> goal_record" where
  "sample_goal_record budget = fresh_goal ''t'' ''goal_1'' ''ship'' GoalActive budget 0"

lemma sample_goal_db_simps [simp]:
  "rows_ok (sample_goal_db b)" "goal_map (sample_goal_db b) ''t'' = Some (sample_goal_record b)"
proof -
  have active: "''active'' = goal_status_as_str GoalActive" by simp
  show "rows_ok (sample_goal_db b)"
    unfolding sample_goal_db_def active by (auto simp: rows_ok_def fresh_row_def db_new_def simp del: goal_status_as_str.simps)
  show "goal_map (sample_goal_db b) ''t'' = Some (sample_goal_record b)"
    unfolding sample_goal_db_def active sample_goal_record_def
    by (simp add: goal_map_def row_goal_fresh del: goal_status_as_str.simps)
qed

lemma sample_record_simps [simp]:
  "go_status (sample_goal_record b) = GoalActive" "go_tokens_used (sample_goal_record b) = 0"
  "go_time_used_seconds (sample_goal_record b) = 0" "go_token_budget (sample_goal_record b) = b"
  "go_goal_id (sample_goal_record b) = ''goal_1''" "go_suppressed (sample_goal_record b) = False"
  by (simp_all add: sample_goal_record_def fresh_goal_def)

lemma sample_clock_simps [simp]:
  "tu_total (usage_total n) = n" "ck_instant (at_ms m) = m" "ck_now (at_ms m) = int m"
  "end_tokens (ck, tool, usage_total n, files) = n" "end_instant (at_ms m, tool, usage, files) = m"
  by (simp_all add: usage_total_def at_ms_def end_tokens_def end_instant_def)


section \<open>Effects that are lost\<close>

text \<open>
  A budget reached by the last tokens of a turn is reported to nobody. The goal is limited, the
  turn's end has no effect, and the goal counts as reported, so no later accounting injects the
  notice that tells the model to stop: it is only injected when the budget is reached during a tool
  call.
\<close>

theorem budget_at_turn_end_is_silent:
  assumes it: "in_turn t turn u l g s" and p: "gn_pending s t = None"
    and v: "u \<le> tu_total usage" "is_i64 (tu_total usage - u)"
    and crossed: "over_budget (go_token_budget g) (sat_add (go_tokens_used g) (tu_total usage - u))"
  shows "\<exists>s' g'. turn_finished ck t turn usage active s = (Inr GeNone, s') \<and>
    goal_map (gn_db s') t = Some g' \<and> go_status g' = GoalBudgetLimited \<and>
    budget_limit_effect g' s' = (GeEmitUpdated (thread_goal_from_record g'), s')"
proof -
  from it obtain a w where s: "rows_ok (gn_db s)" "goal_map (gn_db s) t = Some g" "go_status g = GoalActive"
    and a: "gn_turns s t = Some a" "ta_turn_id a = turn" "ta_active_goal a = Some (go_goal_id g)"
      "tu_total (ta_last_usage a) = u" and w: "gn_wall s t = Some w" "wc_last w = l"
    by (auto simp: in_turn_def)
  obtain secs s1 where tm: "time_delta_since_last_accounting ck t s = (secs, s1)" by force
  then have s1: "gn_db s1 = gn_db s" "gn_turns s1 = gn_turns s" "gn_pending s1 = gn_pending s"
    by (auto simp: time_delta_since_last_accounting_def Let_def split: option.splits)
  let ?tok = "tu_total usage - u"
  let ?g = "account_goal (ck_now ck) secs ?tok ActiveOnly (Some (go_goal_id g)) g"
  have tok: "token_delta (ta_last_usage a) usage = ?tok"
    using v by (simp add: token_delta_def a(4) sat_sub_def clamp_i64_id)
  have acc: "accounts ActiveOnly (Some (go_goal_id g)) g"
    by (simp add: accounts_def id_matches_def s(3))
  then have g: "go_status ?g = GoalBudgetLimited" "go_goal_id ?g = go_goal_id g"
    using crossed v(1) max_absorb1 [of 0 ?tok] by (simp_all add: account_goal_def Let_def)
  from account_answer [OF s(1,2), of "ck_now ck" secs ?tok ActiveOnly "Some (go_goal_id g)"]
  obtain db' where db': "account_thread_goal_usage (ck_now ck) t secs ?tok ActiveOnly
      (Some (go_goal_id g)) (gn_db s) = (Inr (Updated ?g), db')"
    "rows_ok db'" "goal_map db' = (goal_map (gn_db s))(t \<mapsto> ?g)"
    using acc by auto
  let ?s3 = "settle_accounting t usage (active \<or> ?tok > 0) (s1\<lparr>gn_db := db'\<rparr>)"
  obtain eff s4 where b: "budget_limit_effect ?g ?s3 = (eff, s4)" by force
  have "account_turn_progress_locked ck t turn usage active False ActiveOnly s = (Inr eff, s4)"
    using g(1) b by (simp add: account_turn_progress_locked_def a tok tm and_then_def on_db_def db'(1) s1
      return_op_def pure_op_def Let_def)
  moreover have s4: "gn_db s4 = db'" "gn_turns s4 t = map_option (\<lambda>a. a\<lparr>ta_last_usage := usage,
      ta_counted := ta_counted a \<or> active \<or> ?tok > 0\<rparr>) (gn_turns s t)" "gn_pending s4 = gn_pending s"
    "go_goal_id g \<in> gn_budget_reported s4"
    using b g(2) s1 by (auto simp: budget_limit_effect_def inject_and_report_def report_for_status_def
      settle_accounting_def Let_def split: if_splits)
  let ?s5 = "s4\<lparr>gn_turns := (gn_turns s4)(t := None), gn_pending := (gn_pending s4)(t := None)\<rparr>"
  have "turn_finished ck t turn usage active s = (Inr GeNone, ?s5)"
    using calculation p s4 a g db'
    by (simp add: turn_finished_def pending_mode_def has_pending_status_effect_def and_then_def
      after_turn_def reading_def return_op_def get_goal_map)
  then show ?thesis using s4 db'(3) g by (auto simp: budget_limit_effect_def Let_def)
qed

lemma sample_in_turn:
  obtains g0 where "in_turn ''t'' ''turn_1'' 10 100 g0 (snd (turn_started (at_ms 100) ''t'' ''turn_1'' TriggerUser
      (usage_total 10) (goal_runtime_new (sample_goal_db b))))" "spent 0 0 (sample_goal_record b) g0"
  using in_turn_started [of "goal_runtime_new (sample_goal_db b)" "''t''" "sample_goal_record b"
      "''turn_1''" "usage_total 10" "at_ms 100" TriggerUser]
  by (auto simp: goal_runtime_new_def)

theorem budget_at_turn_end_is_silent_witness:
  "\<exists>s' g'. turn_finished (at_ms 500) ''t'' ''turn_1'' (usage_total 200) True
      (snd (turn_started (at_ms 100) ''t'' ''turn_1'' TriggerUser (usage_total 10)
        (goal_runtime_new (sample_goal_db (Some 100))))) = (Inr GeNone, s') \<and>
    goal_map (gn_db s') ''t'' = Some g' \<and> go_status g' = GoalBudgetLimited \<and>
    budget_limit_effect g' s' = (GeEmitUpdated (thread_goal_from_record g'), s')"
proof (rule sample_in_turn [of "Some 100"])
  fix g0
  assume it: "in_turn ''t'' ''turn_1'' 10 100 g0 (snd (turn_started (at_ms 100) ''t'' ''turn_1'' TriggerUser
      (usage_total 10) (goal_runtime_new (sample_goal_db (Some 100)))))"
    and g0: "spent 0 0 (sample_goal_record (Some 100)) g0"
  show ?thesis
    using g0 by (intro budget_at_turn_end_is_silent [OF it])
      (simp_all add: pending_frame goal_runtime_new_def spent_def sat_add_exact over_budget_def
        is_i64_def i64_min_def i64_max_def)
qed

section \<open>The actor continues a goal\<close>

lemma if_new_key_result:
  "if_new_key key f s = (Inr None, s') \<Longrightarrow> s' = s"
  "if_new_key key f s = (Inr (Some e), s') \<Longrightarrow> \<exists>s0. f s0 = (Inr e, s')"
  by (auto simp: if_new_key_def return_op_def and_then_def split: if_splits prod.splits sum.splits)

lemma inject_result: "fst (inject_and_report b g source content s) \<noteq> GeScheduleContinuation"
  by (simp add: inject_and_report_def split: prod.split option.split)

lemma escalation_result:
  "forge_escalation_effect ck t r s = (Inr None, s') \<Longrightarrow> s' = s"
  "forge_escalation_effect ck t r s = (Inr (Some e), s') \<Longrightarrow> e \<noteq> GeScheduleContinuation"
proof -
  show "forge_escalation_effect ck t r s = (Inr None, s') \<Longrightarrow> s' = s"
    by (cases "decision_for_goal (go_goal_id r) (gn_db s)")
      (auto simp: forge_escalation_effect_def and_then_def [of "reading _"] reading_def return_op_def
        dest!: if_new_key_result(1) split: escalation_decision.splits)
  have upd: "e \<noteq> GeScheduleContinuation"
    if "and_then (set_goal_status ck t st i) (\<lambda>g. pure_op (inject_and_report b g source content)) s0 = (Inr e, s')"
    for s0 b source content st i e
  proof -
    from that obtain g s1 where "inject_and_report b g source content s1 = (e, s')"
      by (auto simp: and_then_def pure_op_def split: prod.splits sum.splits)
    then show ?thesis using inject_result [of b g source content s1] by auto
  qed
  show "forge_escalation_effect ck t r s = (Inr (Some e), s') \<Longrightarrow> e \<noteq> GeScheduleContinuation"
    by (cases "decision_for_goal (go_goal_id r) (gn_db s)")
      (auto simp: forge_escalation_effect_def and_then_def [of "reading _"] reading_def return_op_def
        update_goal_status_for_forge_escalation_def
        dest!: if_new_key_result(2) dest: upd split: escalation_decision.splits)
qed

lemma continue_scheduled:
  assumes "maybe_continue_if_idle ck t s = (Inr GeScheduleContinuation, s')" "rows_ok (gn_db s)"
  obtains g where "s' = s" "gn_turns s t = None" "goal_map (gn_db s) t = Some g"
    "go_status g = GoalActive" "\<not> go_suppressed g"
proof -
  from assms(1) have idle: "gn_turns s t = None"
    by (auto simp: maybe_continue_if_idle_def has_active_turn_def return_op_def split: if_splits)
  from assms idle obtain g where g: "goal_map (gn_db s) t = Some g" "go_status g = GoalActive" "\<not> go_suppressed g"
    by (auto simp: maybe_continue_if_idle_def has_active_turn_def return_op_def and_then_def [of "reading _"]
      reading_def get_goal_map split: if_splits option.splits)
  obtain r s1 where e: "forge_escalation_effect ck t g s = (r, s1)" by force
  have "s' = s"
    using assms idle g e escalation_result [of ck t g s]
    by (cases r) (auto simp: maybe_continue_if_idle_def has_active_turn_def return_op_def and_then_def
      reading_def get_goal_map split: option.splits)
  then show thesis using that idle g by blast
qed


lemma escalation_none: "db_tickets db = [] \<Longrightarrow> decision_for_goal i db = Inr EscNone"
  by (simp add: decision_for_goal_def latest_ticket_def tickets_desc_def)


text \<open>
  The guidance that follows a rejected review never reaches the thread. The goal runtime
  computes it when the actor asks whether to continue; the actor then queues nothing, keeps nothing
  of the effect, and has it marked as delivered. The next time the actor asks, it continues the goal
  without the guidance.
\<close>

theorem escalation_guidance_is_lost:
  assumes "ru_queue ru = []" "active_turn_id (ru_reservations ru) = None"
    and "rv_active (ru_reservations ru) = None" "\<not> ru_stopped ru"
    and "rows_ok (gn_db gr)" "goal_map (gn_db gr) (ru_thread ru) = Some g"
    and "go_status g = GoalActive" "\<not> go_suppressed g" "gn_turns gr (ru_thread ru) = None"
    and "decision_for_goal (go_goal_id g) (gn_db gr) = Inr (EscActiveGuidance key content)"
    and "key \<notin> gn_notified gr"
  shows "maybe_enqueue_goal_continuation ck False ru gr =
      (Inr None, ru, gr\<lparr>gn_notified := insert key (gn_notified gr)\<rparr>) \<and>
    (\<exists>turn ru'. maybe_enqueue_goal_continuation ck' False ru
        (gr\<lparr>gn_notified := insert key (gn_notified gr)\<rparr>) =
      (Inr (Some turn), ru', gr\<lparr>gn_notified := insert key (gn_notified gr)\<rparr>))"
proof
  let ?gr = "gr\<lparr>gn_notified := insert key (gn_notified gr)\<rparr>" and ?t = "ru_thread ru"
  have "maybe_continue_if_idle ck ?t gr = (Inr (GeEmitUpdatedAndInject (thread_goal_from_record g)
      ''forge_review_guidance'' content), ?gr)"
    using assms(5-11) by (simp add: maybe_continue_if_idle_def has_active_turn_def and_then_def reading_def
      return_op_def get_goal_map forge_escalation_effect_def if_new_key_def)
  then show "maybe_enqueue_goal_continuation ck False ru gr = (Inr None, ru, ?gr)"
    using assms(1,2) by (simp add: maybe_enqueue_goal_continuation_def Let_def)
  have m: "maybe_continue_if_idle ck' ?t ?gr = (Inr GeScheduleContinuation, ?gr)"
    using assms(5-11) by (simp add: maybe_continue_if_idle_def has_active_turn_def and_then_def reading_def
      return_op_def get_goal_map forge_escalation_effect_def if_new_key_def)
  obtain turn ru' where "submit_turn (\<lambda>turn. OpGoalContinuation turn (go_goal_id g)) ru = (Inr turn, ru')"
    using assms(3,4) by (auto simp: submit_turn_def reserve_next_def Let_def)
  then have "maybe_enqueue_goal_continuation ck' False ru ?gr = (Inr (Some turn), ru', ?gr)"
    using m assms(1,2,5-8)
    by (simp add: maybe_enqueue_goal_continuation_def Let_def get_goal_def get_goal_map thread_goal_from_record_def)
  then show "\<exists>turn ru'. maybe_enqueue_goal_continuation ck' False ru ?gr = (Inr (Some turn), ru', ?gr)"
    by blast
qed

definition rejected_ticket :: ticket_row where
  "rejected_ticket = \<lparr>kr_ticket_id = ''rev_1'', kr_goal_id = ''goal_1'', kr_baseline_hash = None,
     kr_status = ''rejected'', kr_reviewed_hash = None, kr_findings = Some ''tests fail'',
     kr_reject_category = Some ''retriable_gap'', kr_created_at_ms = 0, kr_updated_at_ms = 0,
     kr_ticket_order = 1\<rparr>"

theorem escalation_guidance_is_lost_witness:
  "\<exists>key gr turn ru'.
    maybe_enqueue_goal_continuation (at_ms 5) False (runtime_new ''t'' 4)
      (goal_runtime_new ((sample_goal_db None)\<lparr>db_tickets := [rejected_ticket]\<rparr>)) =
        (Inr None, runtime_new ''t'' 4, gr) \<and> gn_notified gr = {key} \<and>
    maybe_enqueue_goal_continuation (at_ms 6) False (runtime_new ''t'' 4) gr = (Inr (Some turn), ru', gr)"
proof -
  let ?db = "(sample_goal_db None)\<lparr>db_tickets := [rejected_ticket]\<rparr>"
  have db: "rows_ok ?db" "goal_map ?db ''t'' = Some (sample_goal_record None)"
    using sample_goal_db_simps [of None] by (auto simp: rows_ok_def goal_map_def)
  have q: "db_questions ?db = []" by (simp add: sample_goal_db_def db_new_def)
  obtain key content where d: "decision_for_goal ''goal_1'' ?db = Inr (EscActiveGuidance key content)"
    by (simp add: decision_for_goal_def latest_ticket_def tickets_desc_def rejected_ticket_def
      review_ticket_from_row_def reject_category_from_str_def review_status_from_str_def
      unresolved_for_goal_def q [simplified] consecutive_stuck_count_def guidance_from_ticket_def Let_def)
  have "gn_notified (goal_runtime_new ?db) = {}" "gn_db (goal_runtime_new ?db) = ?db"
    "gn_turns (goal_runtime_new ?db) = Map.empty" by (simp_all add: goal_runtime_new_def)
  with escalation_guidance_is_lost [of "runtime_new ''t'' 4" "goal_runtime_new ?db" "sample_goal_record None"
      key content "at_ms 5" "at_ms 6"] db d
  have "maybe_enqueue_goal_continuation (at_ms 5) False (runtime_new ''t'' 4) (goal_runtime_new ?db) =
      (Inr None, runtime_new ''t'' 4, (goal_runtime_new ?db)\<lparr>gn_notified := {key}\<rparr>) \<and>
    (\<exists>turn ru'. maybe_enqueue_goal_continuation (at_ms 6) False (runtime_new ''t'' 4)
        ((goal_runtime_new ?db)\<lparr>gn_notified := {key}\<rparr>) =
      (Inr (Some turn), ru', (goal_runtime_new ?db)\<lparr>gn_notified := {key}\<rparr>))"
    by (simp add: runtime_new_def reservations_new_def active_turn_id_def)
  then obtain turn ru' where r: "maybe_enqueue_goal_continuation (at_ms 5) False (runtime_new ''t'' 4)
        (goal_runtime_new ?db) = (Inr None, runtime_new ''t'' 4, (goal_runtime_new ?db)\<lparr>gn_notified := {key}\<rparr>)"
      "maybe_enqueue_goal_continuation (at_ms 6) False (runtime_new ''t'' 4)
        ((goal_runtime_new ?db)\<lparr>gn_notified := {key}\<rparr>) =
      (Inr (Some turn), ru', (goal_runtime_new ?db)\<lparr>gn_notified := {key}\<rparr>)" by blast
  show ?thesis
    by (rule exI [of _ key], rule exI [of _ "(goal_runtime_new ?db)\<lparr>gn_notified := {key}\<rparr>"],
      rule exI [of _ turn], rule exI [of _ ru'], intro conjI) (rule r, simp, rule r)
qed

section \<open>A mode that is requested for a new goal\<close>

lemma mode_cleared: "mode_for_goal t i (clear_modes_for_thread t db) = ModeStandard"
  by (simp add: mode_for_goal_def clear_modes_for_thread_def)

lemma mode_kept [simp]:
  "mode_for_goal t i (snd (reset_thread_goal_continuation_suppression now t' e db)) = mode_for_goal t i db"
  by (simp add: reset_thread_goal_continuation_suppression_def mode_for_goal_def Let_def
    split: sum.split option.split)

lemma external_set_resets_mode:
  assumes "external_set ck t g None s = (r, s')"
  shows "mode_for_goal t (tg_goal_id g) (gn_db s') = ModeStandard"
proof -
  have db: "gn_db s2 = gn_db s" if "goal_updated_effect g p s = (e, s2)" for p s e s2
    using that by (cases rule: report_for_status_cases [of g False s])
      (auto simp: goal_updated_effect_def split: if_splits)
  have repl: "replace_for_thread_goal now t i ModeStandard db = (Inr (), clear_modes_for_thread t db)" for now i db
    by (simp add: replace_for_thread_goal_def Let_def)
  have st: "goal_mode_from_bool False = ModeStandard" by (simp add: goal_mode_from_bool_def)
  let ?db = "clear_modes_for_thread t (gn_db s)"
  obtain x db1 where x: "reset_thread_goal_continuation_suppression (ck_now ck) t (Some (tg_goal_id g)) ?db = (x, db1)"
    by force
  then have "mode_for_goal t (tg_goal_id g) db1 = ModeStandard"
    using mode_kept [of t "tg_goal_id g" "ck_now ck" t "Some (tg_goal_id g)" ?db] by (simp add: mode_cleared)
  moreover have "gn_db s' = db1"
    using assms x
    by (cases x) (auto simp: external_set_def st repl and_then_def on_db_def return_op_def pure_op_def Let_def
      split: if_splits prod.splits dest!: db)
  ultimately show ?thesis by simp
qed

lemma replace_result:
  assumes "rows_ok db" "t \<in> set (db_threads db)"
  obtains g db' where "replace_thread_goal now t ob st b db = (Inr g, db')" "rows_ok db'"
    "goal_map db' t = Some g" "db_threads db' = db_threads db"
proof -
  let ?r = "replace_thread_goal now t ob st b db"
  let ?g = "fresh_goal t (next_goal_id (db_next_goal db) now) ob st b now"
  have r: "rows_ok (snd ?r)" "goal_map (snd ?r) t = Some ?g" "db_threads (snd ?r) = db_threads db"
    using refine_replace [OF assms(1), of now t ob st b] assms(2)
    by (auto simp: refines_def goal_state_of_def)
  have "fst ?r = Inr ?g"
    using assms(2) get_goal_map [OF r(1), of t] r(2)
    by (auto simp: replace_thread_goal_def new_goal_id_def Let_def simp del: get_goal_map)
  then show thesis using that r by (metis prod.collapse)
qed

lemma set_mode_frame:
  assumes "t \<in> set (db_threads db)"
  obtains db' where "replace_for_thread_goal now t i m db = (Inr (), db')"
    "\<And>t. goal_map db' t = goal_map db t" "rows_ok db' = rows_ok db" "db_threads db' = db_threads db"
  using assms
  by (cases "m = ModeStandard")
    (auto simp: replace_for_thread_goal_def set_mode_def clear_modes_for_thread_def Let_def
      goal_map_def rows_ok_def)

text \<open>
  A mode requested for a new goal does not last when the runtime of the thread is loaded. The
  request answers with the requested mode and stores it, then tells the runtime that a goal was set
  from outside, and the runtime sees a new goal and resets its mode: the review gate of a goal
  created as reviewed or intensive is off.
\<close>

theorem requested_mode_is_reset:
  assumes "rows_ok (gn_db s)" "goal_map (gn_db s) t = None" "t \<in> set (db_threads (gn_db s))"
    and "gn_wall s t = None" "gp_thread_id p = t" "gp_objective p = Some ob"
    and "gp_mode p = Some m" "validate_goal_set p = Inr ()"
  shows "\<exists>g effs s'. thread_goal_set ck (Some None) p s = (Inr ((g, m), effs), s') \<and>
    mode_for_goal t (tg_goal_id g) (gn_db s') = ModeStandard"
proof -
  let ?st = "case gp_status p of None \<Rightarrow> GoalActive | Some st \<Rightarrow> status_record_from_protocol st"
  let ?b = "Option.bind (gp_token_budget p) id"
  from replace_result [OF assms(1,3), of "ck_now ck" ob ?st ?b] obtain r db1
    where r: "replace_thread_goal (ck_now ck) t ob ?st ?b (gn_db s) = (Inr r, db1)" "rows_ok db1"
      "goal_map db1 t = Some r" "db_threads db1 = db_threads (gn_db s)" .
  from set_mode_frame [of t db1 "ck_now ck" "go_goal_id r" m] r(4) assms(3) obtain db2
    where db2: "replace_for_thread_goal (ck_now ck) t (go_goal_id r) m db1 = (Inr (), db2)"
      "goal_map db2 t = Some r" "rows_ok db2" "db_threads db2 = db_threads db1"
    using r by metis
  let ?g = "thread_goal_from_record r"
  have tg: "tg_goal_id ?g = go_goal_id r" by (simp add: thread_goal_from_record_def)
  obtain res s3 where e: "external_set ck t ?g None (s\<lparr>gn_db := db2\<rparr>) = (res, s3)" by force
  let ?db3 = "clear_modes_for_thread t db2"
  have "goal_map ?db3 t = Some r" "rows_ok ?db3"
    using db2 by (simp_all add: clear_modes_for_thread_def goal_map_def rows_ok_def)
  then obtain x db4 where x: "reset_thread_goal_continuation_suppression (ck_now ck) t (Some (go_goal_id r)) ?db3 =
      (Inr x, db4)" using reset_result by metis
  have "replace_for_thread_goal (ck_now ck) t (go_goal_id r) ModeStandard db2 = (Inr (), ?db3)"
    by (simp add: replace_for_thread_goal_def Let_def)
  with e x obtain eff where eff: "res = Inr eff"
    by (auto simp: external_set_def and_then_def on_db_def return_op_def pure_op_def tg Let_def
      goal_mode_from_bool_def split: if_splits prod.splits)
  have "\<exists>effs. thread_goal_set ck (Some None) p s = (Inr ((?g, m), effs), s3)"
    using assms r(1) db2(1) e eff tg
    by (simp add: thread_goal_set_def and_then_def reading_def get_goal_map account_before_external_mutation_def
      external_mutation_starting_def return_op_def write_goal_def on_db_def write_mode_def Let_def)
  moreover have "mode_for_goal t (tg_goal_id ?g) (gn_db s3) = ModeStandard"
    using external_set_resets_mode [OF e] .
  ultimately show ?thesis by blast
qed

definition reviewed_request :: goal_set_params where
  "reviewed_request = \<lparr>gp_thread_id = ''t'', gp_objective = Some ''ship'', gp_status = None,
     gp_token_budget = None, gp_mode = Some ModeReviewed\<rparr>"

theorem requested_mode_is_reset_witness:
  "\<exists>g effs s'. thread_goal_set (at_ms 5) (Some None) reviewed_request (goal_runtime_new (db_new [''t''])) =
      (Inr ((g, ModeReviewed), effs), s') \<and>
    mode_for_goal ''t'' (tg_goal_id g) (gn_db s') = ModeStandard"
proof -
  have db: "rows_ok (db_new [''t''])" "goal_map (db_new [''t'']) ''t'' = None"
    "db_threads (db_new [''t'']) = [''t'']"
    by (simp_all add: db_new_def rows_ok_def goal_map_def)
  have "trim ''ship'' = ''ship''" by code_simp
  moreover have "length (utf8_chars ''ship'') = 4" by code_simp
  ultimately have "validate_goal_set reviewed_request = Inr ()"
    by (simp add: validate_goal_set_def reviewed_request_def validate_thread_goal_objective_def
      max_thread_goal_objective_chars_def)
  then show ?thesis
    using requested_mode_is_reset [of "goal_runtime_new (db_new [''t''])" "''t''" reviewed_request "''ship''"
        ModeReviewed "at_ms 5"] db
    by (simp add: reviewed_request_def goal_runtime_new_def)
qed

end
