(* ===== verification/TurnLoop.thy ===== *)
theory TurnLoop
  imports Restart GoalLaws
begin

text \<open>
  A whole turn (\<^verbatim>\<open>src/runtime/thread_session/turn/mod.rs\<close>, \<open>sampling.rs\<close>,
  \<open>goal_effects.rs\<close>): the loop that samples the model and runs the tools it calls, between the
  start of the turn and its end, with the goal runtime in step. The model, the tools, the hooks and
  the clock are parameters over an outside state \<open>'o\<close>; the tools also see the goal runtime. The
  loop may go on as long as the model calls tools, so it has a number of rounds to spend; an
  interrupt is an argument that says at which point of the loop it arrives.
\<close>

section \<open>Parts of a round\<close>

datatype stream_event = StreamReasoning string | StreamText string

type_synonym completion = "error + assistant_turn \<times> token_usage option"

text \<open>
  The surroundings of a turn: those of the session (hooks, tools, mail, compaction), the policy of
  the turn's profile, the model with its input modalities and context window, the limit of automatic
  compaction, whether goals are enabled, the contexts that a turn is given, and a clock.
\<close>

record 'o turn_env =
  te_session :: "(goal_runtime \<times> 'o) session_env"
  te_policy :: agent_tool_policy
  te_model :: "conversation_message list \<Rightarrow> 'o \<Rightarrow> (stream_event list \<times> completion) \<times> 'o"
  te_mods :: "input_modality list"
  te_window :: "int option"
  te_window_error :: "error \<Rightarrow> bool"
  te_compact_limit :: "int option"
  te_goals :: bool
  te_overlay :: "thread_goal_mode \<Rightarrow> string option"
  te_contexts :: "live_session \<Rightarrow> goal_runtime \<Rightarrow> 'o \<Rightarrow>
    (string, conversation_message) hmap \<times> (string, conversation_message) hmap"
  te_clock :: "'o \<Rightarrow> clock \<times> 'o"
  te_error_text :: "error \<Rightarrow> string"

record 'o turn_state =
  tn_snap :: thread_snapshot
  tn_session :: live_session
  tn_goal :: goal_runtime
  tn_out :: 'o

definition on_session ::
  "(thread_snapshot \<Rightarrow> live_session \<Rightarrow> thread_snapshot \<times> live_session) \<Rightarrow> 'o turn_state \<Rightarrow>
   'o turn_state" where
  "on_session f st = (case f (tn_snap st) (tn_session st) of
     (sn, s) \<Rightarrow> st\<lparr>tn_snap := sn, tn_session := s\<rparr>)"

definition event_in_turn :: "turn_id \<Rightarrow> runtime_event_kind \<Rightarrow> 'o turn_state \<Rightarrow> 'o turn_state" where
  "event_in_turn t kind = on_session (\<lambda>sn s. (sn, record_event sn (Some t) kind s))"

definition current_token_usage :: "context_manager \<Rightarrow> token_usage" where
  "current_token_usage c =
     (case cx_token_info c of None \<Rightarrow> token_usage_default | Some i \<Rightarrow> ti_total i)"

definition assistant_turn_has_activity :: "assistant_turn \<Rightarrow> bool" where
  "assistant_turn_has_activity turn \<longleftrightarrow>
     (case at_text turn of None \<Rightarrow> False | Some x \<Rightarrow> trim x \<noteq> []) \<or>
     at_reasoning turn \<noteq> [] \<or> at_tool_calls turn \<noteq> []"

definition json_strings :: "json \<Rightarrow> string list" where
  "json_strings v = (case v of JArray vs \<Rightarrow> List.map_filter json_as_str vs | _ \<Rightarrow> [])"

definition first_string :: "string list \<Rightarrow> json \<Rightarrow> string option" where
  "first_string keys meta =
     (case List.map_filter (\<lambda>k. Option.bind (json_get k meta) json_as_str) keys of
        [] \<Rightarrow> None | x # _ \<Rightarrow> Some x)"

definition changed_files_for_goal_report :: "string \<Rightarrow> tool_result \<Rightarrow> string list" where
  "changed_files_for_goal_report tool r =
     (if tr_status r \<noteq> ToolSuccess then []
      else case tr_meta r of
        None \<Rightarrow> []
      | Some meta \<Rightarrow> add_files
          (if tool = ''apply_patch''
           then (case json_get ''changed_files'' meta of None \<Rightarrow> [] | Some v \<Rightarrow> json_strings v)
           else if tool = ''write_file''
           then (case first_string [''normalized_path'', ''requested_path'', ''path''] meta of
                   None \<Rightarrow> [] | Some f \<Rightarrow> [f])
           else []) [])"

text \<open>An event is given to the goal runtime, and its effect applied to the session.\<close>

definition apply_goal_event ::
  "'o turn_env \<Rightarrow> turn_id \<Rightarrow> goal_event \<Rightarrow> 'o turn_state \<Rightarrow> (error + unit) \<times> 'o turn_state" where
  "apply_goal_event E t ev st =
     (let (ck, o1) = te_clock E (tn_out st) in
      case apply_event ck ev (tn_goal st) of
        (Inl e, g1) \<Rightarrow> (Inl e, st\<lparr>tn_goal := g1, tn_out := o1\<rparr>)
      | (Inr eff, g1) \<Rightarrow>
          (Inr (), on_session (apply_goal_effect (env_sample (te_session E)) (Some t) eff)
             (st\<lparr>tn_goal := g1, tn_out := o1\<rparr>)))"

text \<open>One tool call of the model, until its outcome is in the history and accounted.\<close>

definition run_tool_call ::
  "'o turn_env \<Rightarrow> turn_id \<Rightarrow> tool_call \<Rightarrow> 'o turn_state \<Rightarrow> (error + unit) \<times> 'o turn_state" where
  "run_tool_call E t call st =
     (case execute_with_lifecycle (env_hooks (te_session E)) (env_tools (te_session E)) (te_policy E) t
             (tn_snap st) call (tn_session st) (tn_goal st, tn_out st) of
        (Inl e, s1, g1, o1) \<Rightarrow> (Inl e, st\<lparr>tn_session := s1, tn_goal := g1, tn_out := o1\<rparr>)
      | (Inr out, s1, g1, o1) \<Rightarrow>
          (let files = changed_files_for_goal_report (tc_name call) (to_model_result out);
               st1 = on_session (record_tool_outcome t out)
                       (st\<lparr>tn_session := s1, tn_goal := g1, tn_out := o1\<rparr>)
           in if \<not> te_goals E then (Inr (), st1)
              else
                let thread = sn_thread_id (tn_snap st1);
                    st2 = (case (if files = [] then None else active_goal_id_for_turn thread t (tn_goal st1)) of
                             None \<Rightarrow> st1
                           | Some i \<Rightarrow> event_in_turn t (EkThreadGoalToolCompleted i files) st1);
                    usage = current_token_usage (ls_context (tn_session st2))
                in apply_goal_event E t
                     (if tc_name call = ''update_goal'' then GvToolCompletedGoal thread t usage
                      else GvToolCompleted thread t (tc_name call) usage files) st2))"

fun run_tool_calls ::
  "'o turn_env \<Rightarrow> turn_id \<Rightarrow> tool_call list \<Rightarrow> 'o turn_state \<Rightarrow> (error + unit) \<times> 'o turn_state" where
  "run_tool_calls E t [] st = (Inr (), st)"
| "run_tool_calls E t (c # cs) st =
     (case run_tool_call E t c st of
        (Inl e, st1) \<Rightarrow> (Inl e, st1)
      | (Inr _, st1) \<Rightarrow> run_tool_calls E t cs st1)"

text \<open>The deltas of the model are only broadcast.\<close>

definition stream_assistant_turn ::
  "'o turn_env \<Rightarrow> turn_id \<Rightarrow> 'o turn_state \<Rightarrow> completion \<times> 'o turn_state" where
  "stream_assistant_turn E t st =
     (case te_model E (for_prompt (te_mods E) (ls_context (tn_session st))) (tn_out st) of
        ((deltas, res), o1) \<Rightarrow>
          (res, st\<lparr>tn_out := o1, tn_session := fold (\<lambda>d. record_live_only (Some t)
             (case d of StreamReasoning x \<Rightarrow> EkReasoningDelta x | StreamText x \<Rightarrow> EkAssistantTextDelta x))
             deltas (tn_session st)\<rparr>))"

text \<open>The sampling of a round: when the prompt was too long, it compacts and tries once more.\<close>

definition sample_round ::
  "'o turn_env \<Rightarrow> turn_id \<Rightarrow> turn_context_item \<Rightarrow> 'o turn_state \<Rightarrow> completion \<times> 'o turn_state" where
  "sample_round E t tc st =
     (case stream_assistant_turn E t st of
        (Inr x, st1) \<Rightarrow> (Inr x, st1)
      | (Inl e, st1) \<Rightarrow>
          if te_window_error E e \<and> te_window E \<noteq> None
          then (case compact_after_context_window_error (te_window E) (env_compact (te_session E))
                       (te_mods E) (env_guidance (te_session E)) t tc (tn_snap st1) (tn_session st1) of
              (Inl e2, sn2, s2) \<Rightarrow> (Inl e2, st1\<lparr>tn_snap := sn2, tn_session := s2\<rparr>)
            | (Inr _, sn2, s2) \<Rightarrow>
                stream_assistant_turn E t (st1\<lparr>tn_snap := sn2, tn_session := s2\<rparr>))
          else (Inl e, st1))"

definition record_completion ::
  "'o turn_env \<Rightarrow> turn_id \<Rightarrow> assistant_turn \<times> token_usage option \<Rightarrow> 'o turn_state \<Rightarrow> 'o turn_state" where
  "record_completion E t c st =
     on_session (record_model_usage t (snd c) (te_window E))
       (on_session (record_assistant_turn t (fst c)) st)"

datatype round_result = RoundAgain | RoundDone assistant_turn | RoundError error

text \<open>A round: mail, the model, its tools; a turn without tool calls is final unless mail waits.\<close>

definition turn_round ::
  "'o turn_env \<Rightarrow> turn_id \<Rightarrow> turn_context_item \<Rightarrow> 'o turn_state \<Rightarrow> round_result \<times> 'o turn_state" where
  "turn_round E t tc st =
     (case sample_round E t tc (on_session (drain_inbox_into_turn_context (env_mail (te_session E)) t) st) of
        (Inl e, st1) \<Rightarrow> (RoundError e, st1)
      | (Inr c, st1) \<Rightarrow>
          (let st2 = record_completion E t c st1 in
           if at_tool_calls (fst c) = []
           then (if inbox_has_pending (ls_inbox (tn_session st2)) then (RoundAgain, st2)
                 else (RoundDone (fst c), st2))
           else case run_tool_calls E t (at_tool_calls (fst c)) st2 of
               (Inl e, st3) \<Rightarrow> (RoundError e, st3)
             | (Inr _, st3) \<Rightarrow> (RoundAgain, st3)))"

fun run_session_turn ::
  "nat \<Rightarrow> 'o turn_env \<Rightarrow> turn_id \<Rightarrow> turn_context_item \<Rightarrow> 'o turn_state \<Rightarrow>
   (error + assistant_turn) option \<times> 'o turn_state" where
  "run_session_turn 0 E t tc st = (None, st)"
| "run_session_turn (Suc n) E t tc st =
     (case turn_round E t tc st of
        (RoundError e, st1) \<Rightarrow> (Some (Inl e), st1)
      | (RoundDone turn, st1) \<Rightarrow> (Some (Inr turn), st1)
      | (RoundAgain, st1) \<Rightarrow> run_session_turn n E t tc st1)"

section \<open>The race against the interrupt\<close>

text \<open>
  A turn runs to its end, within a number of rounds, or is cut: in the round after the given number
  of rounds, while the model is asked, or during a tool call (counted in the round). A tool call that
  is cut has been announced; what its handler did outside is not known and left as it was.
\<close>

datatype turn_race = RunsFor nat | CutIn nat "nat option"

datatype turn_end = TurnDone assistant_turn | TurnFailed error | TurnCut

fun skip_rounds ::
  "nat \<Rightarrow> 'o turn_env \<Rightarrow> turn_id \<Rightarrow> turn_context_item \<Rightarrow> 'o turn_state \<Rightarrow> 'o turn_state option" where
  "skip_rounds 0 E t tc st = Some st"
| "skip_rounds (Suc n) E t tc st =
     (case turn_round E t tc st of
        (RoundAgain, st1) \<Rightarrow> skip_rounds n E t tc st1
      | _ \<Rightarrow> None)"

definition open_tool_call :: "'o turn_env \<Rightarrow> turn_id \<Rightarrow> tool_call \<Rightarrow> 'o turn_state \<Rightarrow> 'o turn_state" where
  "open_tool_call E t call st =
     (let i = invocation_id_of call;
          mutating = (case env_tools (te_session E) (tc_name call) of None \<Rightarrow> False | Some (m, _) \<Rightarrow> m)
      in on_session (\<lambda>sn s. (sn, map_overlay (mark_tool_invocation_active
             \<lparr>ai_invocation_id = i, ai_tool_call_id = tc_id call, ai_tool_name = tc_name call\<rparr>)
           (record_event sn (Some t) (EkToolInvocationStarted i (tc_id call) (tc_name call) mutating) s))) st)"

definition cut_round ::
  "nat option \<Rightarrow> 'o turn_env \<Rightarrow> turn_id \<Rightarrow> turn_context_item \<Rightarrow> 'o turn_state \<Rightarrow> 'o turn_state option"
  where
  "cut_round k E t tc st =
     (let st0 = on_session (drain_inbox_into_turn_context (env_mail (te_session E)) t) st in
      case k of
        None \<Rightarrow> Some st0
      | Some j \<Rightarrow>
        (case sample_round E t tc st0 of
           (Inl _, _) \<Rightarrow> None
         | (Inr c, st1) \<Rightarrow>
           if length (at_tool_calls (fst c)) \<le> j then None
           else (case run_tool_calls E t (take j (at_tool_calls (fst c))) (record_completion E t c st1) of
               (Inl _, _) \<Rightarrow> None
             | (Inr _, st2) \<Rightarrow> Some (open_tool_call E t (at_tool_calls (fst c) ! j) st2))))"

definition race_turn ::
  "turn_race \<Rightarrow> 'o turn_env \<Rightarrow> turn_id \<Rightarrow> turn_context_item \<Rightarrow> 'o turn_state \<Rightarrow>
   (turn_end \<times> 'o turn_state) option" where
  "race_turn r E t tc st =
     (case r of
        RunsFor n \<Rightarrow>
          (case run_session_turn n E t tc st of
             (None, _) \<Rightarrow> None
           | (Some (Inl e), st1) \<Rightarrow> Some (TurnFailed e, st1)
           | (Some (Inr turn), st1) \<Rightarrow> Some (TurnDone turn, st1))
      | CutIn n k \<Rightarrow>
          Option.bind (skip_rounds n E t tc st) (\<lambda>st1.
            map_option (Pair TurnCut) (cut_round k E t tc st1)))"

section \<open>The handlers of a turn\<close>

definition thread_of :: "'o turn_state \<Rightarrow> thread_id" where
  "thread_of st = sn_thread_id (tn_snap st)"

definition usage_of :: "'o turn_state \<Rightarrow> token_usage" where
  "usage_of st = current_token_usage (ls_context (tn_session st))"

definition tracks_goal :: "'o turn_env \<Rightarrow> turn_context_item \<Rightarrow> bool" where
  "tracks_goal E tc \<longleftrightarrow> te_goals E \<and> tc_turn_mode tc \<noteq> TurnPlan"

definition record_error :: "'o turn_env \<Rightarrow> turn_id \<Rightarrow> error \<Rightarrow> 'o turn_state \<Rightarrow> 'o turn_state" where
  "record_error E t e = event_in_turn t (EkRuntimeError (te_error_text E e))"

definition record_goal_turn_started_marker :: "turn_id \<Rightarrow> 'o turn_state \<Rightarrow> 'o turn_state" where
  "record_goal_turn_started_marker t st =
     (case active_goal_id_for_turn (thread_of st) t (tn_goal st) of
        None \<Rightarrow> st | Some i \<Rightarrow> event_in_turn t (EkThreadGoalTurnStarted i) st)"

text \<open>The start of a user turn; when the goal runtime fails, its contexts are only in memory.\<close>

definition start_user_turn ::
  "'o turn_env \<Rightarrow> turn_id \<Rightarrow> user_input list \<Rightarrow> turn_context_item \<Rightarrow> 'o turn_state \<Rightarrow>
   (error + unit) \<times> 'o turn_state" where
  "start_user_turn E t inp tc st =
     (let contexts = te_contexts E (tn_session st) (tn_goal st) (tn_out st);
          start = on_session (record_user_turn_start (env_mail (te_session E))
                    (env_guidance (te_session E)) t inp tc contexts)
      in if \<not> tracks_goal E tc then (Inr (), start st)
         else case apply_goal_event E t (GvTurnStarted (thread_of st) t TriggerUser (usage_of st)) st of
             (Inr _, st1) \<Rightarrow> (Inr (), start st1)
           | (Inl e, st1) \<Rightarrow> (Inl e, st1\<lparr>tn_session := (tn_session st1)
               \<lparr>ls_context := refresh_contexts contexts (snd (apply_context_updates
                  (env_guidance (te_session E)) tc (ls_context (tn_session st1))))\<rparr>\<rparr>))"

definition finish_user_turn ::
  "'o turn_env \<Rightarrow> turn_id \<Rightarrow> turn_context_item \<Rightarrow> assistant_turn \<Rightarrow> 'o turn_state \<Rightarrow>
   (error + assistant_turn) \<times> 'o turn_state" where
  "finish_user_turn E t tc turn st =
     (if \<not> tracks_goal E tc then (Inr turn, event_in_turn t EkTurnCompleted st)
      else case apply_goal_event E t (GvTurnFinished (thread_of st) t True (usage_of st)
                 (assistant_turn_has_activity turn)) st of
          (Inl e, st1) \<Rightarrow> (Inl e, st1)
        | (Inr _, st1) \<Rightarrow>
            (Inr turn, event_in_turn t EkTurnCompleted (record_goal_turn_started_marker t st1)))"

definition interrupt_turn :: "turn_id \<Rightarrow> 'o turn_state \<Rightarrow> (error + 'b) \<times> 'o turn_state" where
  "interrupt_turn t st =
     (Inl (TurnInterruptedError (ls_thread_id (tn_session st)) t),
      on_session (record_turn_interrupted t) st)"

text \<open>
  The handler of user input. \<open>images\<close>: whether the local images can be loaded; \<open>agent\<close>: whether
  there is an agent for the model of the turn; \<open>early\<close>: the interrupt arrives during the compaction
  before the turn. None: the race cannot end so.
\<close>

definition handle_user_input ::
  "'o turn_env \<Rightarrow> turn_id \<Rightarrow> user_input list \<Rightarrow> turn_context_item \<Rightarrow> error + unit \<Rightarrow> error + unit \<Rightarrow>
   bool \<Rightarrow> turn_race \<Rightarrow> 'o turn_state \<Rightarrow> ((error + assistant_turn) \<times> 'o turn_state) option" where
  "handle_user_input E t inp tc images agent early race st0 =
     (case bind_res (validate_turn_input_modalities inp (te_mods E)) (\<lambda>_. images) of
        Inl e \<Rightarrow> Some (Inl e, st0)
      | Inr _ \<Rightarrow>
        (let st = event_in_turn t EkTurnStarted (st0\<lparr>tn_snap := ls_snapshot (tn_session st0)\<rparr>) in
         case agent of
           Inl e \<Rightarrow> Some (Inl e, record_error E t e st)
         | Inr _ \<Rightarrow>
           if early then Some (interrupt_turn t st)
           else (case compact_before_turn_if_needed (te_compact_limit E) (env_compact (te_session E))
                        (te_mods E) t (tn_snap st) (tn_session st) of
             (Inl e, sn1, s1) \<Rightarrow>
               Some (Inl e, record_error E t e (st\<lparr>tn_snap := sn1, tn_session := s1\<rparr>))
           | (Inr _, sn1, s1) \<Rightarrow>
             (case start_user_turn E t inp tc (st\<lparr>tn_snap := sn1, tn_session := s1\<rparr>) of
                (Inl e, st2) \<Rightarrow> Some (Inl e, record_error E t e st2)
              | (Inr _, st2) \<Rightarrow>
                map_option (\<lambda>(end, st3). case end of
                    TurnDone turn \<Rightarrow> finish_user_turn E t tc turn st3
                  | TurnFailed e \<Rightarrow> (Inl e, record_error E t e st3)
                  | TurnCut \<Rightarrow> interrupt_turn t st3)
                  (race_turn race E t tc st2)))))"

text \<open>The handler of a goal continuation; \<open>tc\<close>: the context a retry after compaction announces.\<close>

definition start_goal_turn ::
  "'o turn_env \<Rightarrow> turn_id \<Rightarrow> string \<Rightarrow> 'o turn_state \<Rightarrow> (error + unit) \<times> 'o turn_state" where
  "start_goal_turn E t goal_id st =
     (if \<not> te_goals E then (Inl (Anyhow ''goal continuation requested without goal runtime''), st)
      else case get_goal (thread_of st) (tn_goal st) of
        Inl e \<Rightarrow> (Inl e, st)
      | Inr None \<Rightarrow> (Inl (Anyhow ''goal continuation requested without active goal''), st)
      | Inr (Some g) \<Rightarrow>
        if tg_goal_id g \<noteq> goal_id \<or> tg_status g \<noteq> GsActive
        then (Inl (Anyhow ''goal continuation candidate is no longer active''), st)
        else
          let st1 = event_in_turn t (EkThreadGoalContinuationStarted (tg_goal_id g)) st;
              prompt = continuation_prompt_for_goal (te_overlay E) (thread_of st) g (tn_goal st);
              st2 = on_session (inject_context (Some t) ''goal_continuation'' prompt) st1
          in case apply_goal_event E t
                 (GvTurnStarted (thread_of st2) t TriggerGoalContinuation (usage_of st2)) st2 of
               (Inl e, st3) \<Rightarrow> (Inl e, st3)
             | (Inr _, st3) \<Rightarrow> (Inr (), event_in_turn t (EkThreadGoalTurnStarted (tg_goal_id g)) st3))"

definition finish_goal_turn ::
  "'o turn_env \<Rightarrow> turn_id \<Rightarrow> assistant_turn \<Rightarrow> 'o turn_state \<Rightarrow>
   (error + assistant_turn) \<times> 'o turn_state" where
  "finish_goal_turn E t turn st =
     (case apply_goal_event E t (GvTurnFinished (thread_of st) t True (usage_of st)
              (assistant_turn_has_activity turn)) st of
        (Inl e, st1) \<Rightarrow> (Inl e, st1)
      | (Inr _, st1) \<Rightarrow> (Inr turn, event_in_turn t EkTurnCompleted st1))"

text \<open>An error that is no interrupt is recorded with the published snapshot.\<close>

definition handle_goal_continuation ::
  "'o turn_env \<Rightarrow> turn_id \<Rightarrow> string \<Rightarrow> turn_context_item \<Rightarrow> turn_race \<Rightarrow> 'o turn_state \<Rightarrow>
   ((error + assistant_turn) \<times> 'o turn_state) option" where
  "handle_goal_continuation E t goal_id tc race st0 =
     (let st = event_in_turn t EkTurnStarted (st0\<lparr>tn_snap := ls_snapshot (tn_session st0)\<rparr>);
          failed = (\<lambda>(r, st1). case r of
              Inr turn \<Rightarrow> (Inr turn, st1)
            | Inl (TurnInterruptedError th u) \<Rightarrow> (Inl (TurnInterruptedError th u), st1)
            | Inl e \<Rightarrow> (Inl e, record_error E t e
                         (st1\<lparr>tn_snap := ls_snapshot (tn_session st1)\<rparr>)))
      in case start_goal_turn E t goal_id st of
        (Inl e, st1) \<Rightarrow> Some (failed (Inl e, st1))
      | (Inr _, st1) \<Rightarrow>
          map_option (\<lambda>(end, st2). failed (case end of
              TurnDone turn \<Rightarrow> finish_goal_turn E t turn st2
            | TurnFailed e \<Rightarrow> (Inl e, st2)
            | TurnCut \<Rightarrow> interrupt_turn t st2)) (race_turn race E t tc st1))"

section \<open>A turn is a run of the session\<close>

definition view :: "'o turn_state \<Rightarrow> live_session \<times> goal_runtime \<times> 'o" where
  "view st = (tn_session st, tn_goal st, tn_out st)"

text \<open>Runs that note no goal turn and lose no history.\<close>

definition quiet_labels :: "step_label set" where
  "quiet_labels = {StepPlain, StepLosesOverlay}"

definition runs :: "'o turn_env \<Rightarrow> 'o turn_state \<Rightarrow> 'o turn_state \<Rightarrow> bool" where
  "runs E st st' \<longleftrightarrow> session_run (te_session E) quiet_labels (view st) (view st')"

named_theorems runs_intros \<open>parts of a turn as runs of the session\<close>

lemma session_run_trans:
  "session_run E l b c \<Longrightarrow> session_run E l a b \<Longrightarrow> session_run E l a c"
  by (induction rule: session_run.induct) (auto intro: session_run.intros)

lemma session_run_mono: "session_run E l a b \<Longrightarrow> l \<subseteq> l' \<Longrightarrow> session_run E l' a b"
  by (induction rule: session_run.induct) (auto intro: session_run.intros)

lemma session_run_one: "session_step E l a b \<Longrightarrow> l \<in> ls \<Longrightarrow> session_run E ls a b"
  by (rule session_run.run_step [OF session_run.run_start])

lemma runs_refl [runs_intros]: "runs E st st"
  by (simp add: runs_def session_run.run_start)

lemma runs_trans: "runs E a b \<Longrightarrow> runs E b c \<Longrightarrow> runs E a c"
  unfolding runs_def by (rule session_run_trans)

lemma runs_step:
  "runs E st st' \<Longrightarrow> session_step (te_session E) l (view st') (view st'') \<Longrightarrow> l \<in> quiet_labels \<Longrightarrow> runs E st st''"
  unfolding runs_def by (rule session_run.run_step)

lemma quiet_labels_simps [simp]:
  "StepPlain \<in> quiet_labels" "StepLosesOverlay \<in> quiet_labels" "StepMarksGoal \<notin> quiet_labels"
  "StepLosesContext \<notin> quiet_labels"
  by (simp_all add: quiet_labels_def)

lemma view_on_session: "view (on_session f st) = (snd (f (tn_snap st) (tn_session st)), tn_goal st, tn_out st)"
  by (simp add: view_def on_session_def split: prod.split)

lemma on_session_sels [simp]:
  "tn_goal (on_session f st) = tn_goal st" "tn_out (on_session f st) = tn_out st"
  "tn_session (on_session f st) = snd (f (tn_snap st) (tn_session st))"
  "tn_snap (on_session f st) = fst (f (tn_snap st) (tn_session st))"
  by (simp_all add: on_session_def split: prod.split)

text \<open>Only the outside changed, or the snapshot.\<close>

lemma runs_outside [runs_intros]:
  "runs E st st' \<Longrightarrow> runs E st (st'\<lparr>tn_goal := g, tn_out := o1\<rparr>)"
  "runs E st st' \<Longrightarrow> runs E st (st'\<lparr>tn_out := o1\<rparr>)"
  "runs E st st' \<Longrightarrow> runs E st (st'\<lparr>tn_goal := g\<rparr>)"
  "runs E st st' \<Longrightarrow> runs E st (st'\<lparr>tn_snap := sn\<rparr>)"
  by (auto elim!: runs_step simp: view_def intro: session_step.outside)

lemma runs_event [runs_intros]:
  "runs E st st' \<Longrightarrow> turn_marker kind \<Longrightarrow> \<not> goal_marker kind \<Longrightarrow> runs E st (event_in_turn t kind st')"
  unfolding event_in_turn_def
  by (erule runs_step, simp add: view_on_session, simp add: view_def)
    (use session_step.turn_event [of kind] in \<open>fastforce\<close>)+

lemma runs_session:
  assumes "runs E st st'"
    and "\<And>sn s w. session_step (te_session E) StepPlain (s, w) (snd (f sn s), w)"
  shows "runs E st (on_session f st')"
  by (rule runs_step [OF assms(1), of StepPlain]) (simp_all add: view_on_session assms(2), simp add: view_def assms(2))

lemma runs_goal_effect [runs_intros]:
  "runs E st st' \<Longrightarrow> runs E st (on_session (apply_goal_effect (env_sample (te_session E)) (Some t) eff) st')"
  by (erule runs_session) (use session_step.goal_effect [of _ "Some t" eff] in fastforce)

lemma runs_apply_goal_event:
  "apply_goal_event E t ev st' = (r, st'') \<Longrightarrow> runs E st st' \<Longrightarrow> runs E st st''"
  by (auto simp: apply_goal_event_def Let_def split: prod.splits sum.splits intro!: runs_intros)

lemma runs_tool_call:
  assumes "run_tool_call E t call st' = (r, st'')" "runs E st st'"
  shows "runs E st st''"
proof -
  obtain res s1 g1 o1 where e: "execute_with_lifecycle (env_hooks (te_session E)) (env_tools (te_session E))
      (te_policy E) t (tn_snap st') call (tn_session st') (tn_goal st', tn_out st') = (res, s1, g1, o1)"
    by (metis prod_cases4)
  let ?st = "st'\<lparr>tn_session := s1, tn_goal := g1, tn_out := o1\<rparr>"
  have lab: "tool_label s call \<in> quiet_labels" for s by (simp add: tool_label_def)
  show ?thesis
  proof (cases res)
    case (Inl x)
    then have "runs E st ?st"
      using session_step.tool_error [of "te_session E" "te_policy E" t "tn_snap st'" call "tn_session st'"
          "(tn_goal st', tn_out st')" x s1 "(g1, o1)"] e
      by (intro runs_step [OF assms(2) _ lab [of "tn_session st'"]]) (simp add: view_def)
    with assms(1) e Inl show ?thesis by (simp add: run_tool_call_def)
  next
    case (Inr out)
    let ?st1 = "on_session (record_tool_outcome t out) ?st"
    have "runs E st ?st1"
      using session_step.tool [of "te_session E" "te_policy E" t "tn_snap st'" call "tn_session st'"
          "(tn_goal st', tn_out st')" out s1 "(g1, o1)"] e Inr
      by (intro runs_step [OF assms(2) _ lab [of "tn_session st'"]]) (simp add: view_def)
    then have ev: "runs E st (event_in_turn t (EkThreadGoalToolCompleted i fs) ?st1)" for i fs
      by (rule runs_intros) simp_all
    show ?thesis
      using assms(1) \<open>runs E st ?st1\<close> ev
      by (auto simp: run_tool_call_def e Inr Let_def split: if_splits option.splits
        elim!: runs_apply_goal_event)
  qed
qed

lemma runs_tool_calls:
  "run_tool_calls E t calls st' = (r, st'') \<Longrightarrow> runs E st st' \<Longrightarrow> runs E st st''"
  by (induction E t calls st' rule: run_tool_calls.induct)
    (auto split: prod.splits sum.splits dest: runs_tool_call)

lemma runs_stream:
  assumes "stream_assistant_turn E t st' = (r, st'')" "runs E st st'"
  shows "runs E st st''"
proof -
  have live: "session_run (te_session E) quiet_labels a (fold (\<lambda>d. record_live_only (Some t) (f d)) ds s, w)"
    if "session_run (te_session E) quiet_labels a (s, w)" for a s w f ds
    using that
  proof (induction ds arbitrary: s)
    case (Cons d ds)
    have "session_run (te_session E) quiet_labels a (record_live_only (Some t) (f d) s, w)"
      by (rule session_run.run_step [OF Cons.prems session_step.live_event]) simp
    then show ?case by (simp add: Cons.IH)
  qed simp
  obtain ds res o1 where m: "te_model E (for_prompt (te_mods E) (ls_context (tn_session st'))) (tn_out st') =
      ((ds, res), o1)" by (metis surj_pair)
  have "runs E st (st'\<lparr>tn_out := o1\<rparr>)" using assms(2) by (rule runs_intros)
  with assms(1) m live show ?thesis
    by (auto simp: stream_assistant_turn_def runs_def view_def)
qed

lemma runs_compacted:
  "compact_after_context_window_error (te_window E) (env_compact (te_session E)) mods
     (env_guidance (te_session E)) t tc (tn_snap st') (tn_session st') = (r, sn2, s2) \<Longrightarrow> runs E st st' \<Longrightarrow>
   runs E st (st'\<lparr>tn_snap := sn2, tn_session := s2\<rparr>)"
  by (erule runs_step [of E st st']) (auto simp: view_def intro: session_step.compact_after)

lemma runs_sample:
  assumes "sample_round E t tc st' = (r, st'')" "runs E st st'"
  shows "runs E st st''"
proof -
  obtain res st1 where s: "stream_assistant_turn E t st' = (res, st1)" by force
  have 1: "runs E st st1" by (rule runs_stream [OF s assms(2)])
  obtain rc sn2 s2 where c: "compact_after_context_window_error (te_window E) (env_compact (te_session E))
      (te_mods E) (env_guidance (te_session E)) t tc (tn_snap st1) (tn_session st1) = (rc, sn2, s2)"
    by (metis surj_pair)
  from runs_compacted [OF c 1] have 2: "runs E st (st1\<lparr>tn_snap := sn2, tn_session := s2\<rparr>)" .
  from assms(1) s c 1 2 show ?thesis
    by (auto simp: sample_round_def simp del: split_paired_Ex split: sum.splits if_splits
      elim: runs_stream)
qed

lemma runs_completion [runs_intros]:
  assumes "runs E st st'" shows "runs E st (record_completion E t c st')"
  unfolding record_completion_def
  by (intro runs_session assms session_step.assistant session_step.usage)

lemma runs_drain [runs_intros]:
  "runs E st st' \<Longrightarrow> runs E st (on_session (drain_inbox_into_turn_context (env_mail (te_session E)) t) st')"
  by (erule runs_session) (rule session_step.drain)

lemma runs_round:
  assumes "turn_round E t tc st' = (r, st'')" "runs E st st'"
  shows "runs E st st''"
proof -
  let ?st0 = "on_session (drain_inbox_into_turn_context (env_mail (te_session E)) t) st'"
  obtain res st1 where s: "sample_round E t tc ?st0 = (res, st1)" by force
  from runs_sample [OF this runs_drain [OF assms(2)]] have "runs E st st1" .
  with assms(1) s show ?thesis
    by (auto simp: turn_round_def Let_def split: sum.splits prod.splits if_splits
      intro!: runs_intros elim!: runs_tool_calls)
qed

lemma runs_session_turn:
  "run_session_turn n E t tc st' = (r, st'') \<Longrightarrow> runs E st st' \<Longrightarrow> runs E st st''"
  by (induction n E t tc st' rule: run_session_turn.induct)
    (auto split: prod.splits round_result.splits dest: runs_round)

lemma runs_skip: "skip_rounds n E t tc st' = Some st'' \<Longrightarrow> runs E st st' \<Longrightarrow> runs E st st''"
  by (induction n E t tc st' rule: skip_rounds.induct)
    (auto split: prod.splits round_result.splits dest: runs_round)

lemma runs_open_tool_call [runs_intros]:
  assumes "runs E st st'" shows "runs E st (open_tool_call E t call st')"
  unfolding open_tool_call_def Let_def
proof (rule runs_session [OF assms])
  let ?a = "\<lparr>ai_invocation_id = invocation_id_of call, ai_tool_call_id = tc_id call, ai_tool_name = tc_name call\<rparr>"
  fix sn s w
  from session_step.tool_cut [of "te_session E" s w ?a sn t]
  show "session_step (te_session E) StepPlain (s, w) (snd (sn, map_overlay (mark_tool_invocation_active ?a)
      (record_event sn (Some t) (EkToolInvocationStarted (invocation_id_of call) (tc_id call) (tc_name call)
        (case env_tools (te_session E) (tc_name call) of None \<Rightarrow> False | Some (m, _) \<Rightarrow> m)) s)), w)"
    by simp
qed

lemma runs_cut:
  assumes "cut_round k E t tc st' = Some st''" "runs E st st'"
  shows "runs E st st''"
proof (cases k)
  case None
  with assms show ?thesis by (auto simp: cut_round_def Let_def intro: runs_intros)
next
  case (Some j)
  let ?st0 = "on_session (drain_inbox_into_turn_context (env_mail (te_session E)) t) st'"
  obtain res st1 where s: "sample_round E t tc ?st0 = (res, st1)" by force
  from runs_sample [OF this runs_drain [OF assms(2)]] have "runs E st st1" .
  with assms(1) Some s show ?thesis
    by (auto simp: cut_round_def Let_def split: sum.splits prod.splits if_splits
      intro!: runs_open_tool_call elim!: runs_tool_calls intro: runs_completion)
qed

lemma runs_race:
  "race_turn race E t tc st' = Some (x, st'') \<Longrightarrow> runs E st st' \<Longrightarrow> runs E st st''"
  by (cases race) (auto simp: race_turn_def split: prod.splits option.splits sum.splits bind_splits
    dest: runs_session_turn runs_skip elim: runs_cut)

lemma runs_interrupt:
  "interrupt_turn t st' = (r, st'') \<Longrightarrow> runs E st st' \<Longrightarrow> runs E st st''"
proof -
  assume i: "interrupt_turn t st' = (r, st'')" and st: "runs E st st'"
  let ?l = "if nothing_pending (tn_session st') then StepPlain else StepLosesOverlay"
  have "session_step (te_session E) ?l (view st') (view st'')"
    using i session_step.interrupted [of "te_session E" "tn_session st'" "(tn_goal st', tn_out st')" t "tn_snap st'"]
    by (auto simp: interrupt_turn_def view_on_session) (auto simp: view_def)
  then show "runs E st st''" by (rule runs_step [OF st]) simp
qed

text \<open>
  The end of a turn removes its accounting, so the marker that is recorded after it finds no goal.
\<close>

lemma turn_finished_forgets:
  assumes "turn_finished ck t turn usage active s = (Inr eff, s')"
  shows "gn_turns s' t = None"
proof -
  have upd: "gn_turns (snd (goal_updated_effect g p s)) = gn_turns s" for g p s
    by (cases rule: report_for_status_cases [of g False s])
      (auto simp: goal_updated_effect_def split: option.split)
  have refresh: "gn_turns (snd (refresh_pending_status_effect_after_accounting t e s)) = gn_turns s" for e s
    by (cases e) (simp_all add: refresh_pending_status_effect_after_accounting_def and_then_def reading_def
      return_op_def pure_op_def upd split_beta split: sum.split option.split)
  have after: "gn_turns (snd (after_turn ck t turn a s)) = gn_turns s" for a s
    by (simp add: after_turn_def and_then_def reading_def on_db_def return_op_def split_beta
      split: sum.split option.split)
  obtain r s1 where a: "account_turn_progress_locked ck t turn usage active False (pending_mode t s) s = (r, s1)"
    by force
  let ?s2 = "s1\<lparr>gn_turns := (gn_turns s1)(t := None), gn_pending := (gn_pending s1)(t := None)\<rparr>"
  from assms a obtain e where "r = Inr e" by (cases r) (auto simp: turn_finished_def and_then_def)
  with assms a have "s' = (case gn_pending s1 t of
        Some eff \<Rightarrow> snd (refresh_pending_status_effect_after_accounting t eff ?s2)
      | None \<Rightarrow> (case gn_turns s1 t of None \<Rightarrow> ?s2 | Some a \<Rightarrow> snd (after_turn ck t turn a ?s2)))"
    by (auto simp: turn_finished_def and_then_def Let_def return_op_def split: option.splits)
  then show ?thesis by (simp add: refresh after split: option.split)
qed

lemma effect_thread [simp]:
  "sn_thread_id (fst (apply_goal_effect sample turn eff sn s)) = sn_thread_id sn"
  by (simp add: apply_goal_effect_def inject_context_def sync_snapshot_def Let_def split_beta
    split: goal_effect.split)

lemma marker_finds_nothing:
  assumes "apply_goal_event E t (GvTurnFinished (thread_of st) t b usage active) st = (Inr u, st1)"
  shows "record_goal_turn_started_marker t st1 = st1"
proof -
  from assms have "gn_turns (tn_goal st1) (thread_of st) = None" "thread_of st1 = thread_of st"
    by (auto simp: apply_goal_event_def Let_def thread_of_def dest!: turn_finished_forgets
      split: prod.splits sum.splits)
  then show ?thesis
    by (simp add: record_goal_turn_started_marker_def active_goal_id_for_turn_def)
qed

lemma runs_finish:
  assumes "finish_user_turn E t tc turn st' = (r, st'')" "runs E st st'"
  shows "runs E st st''"
proof -
  let ?ev = "GvTurnFinished (thread_of st') t True (usage_of st') (assistant_turn_has_activity turn)"
  obtain x st1 where e: "apply_goal_event E t ?ev st' = (x, st1)" by force
  from runs_apply_goal_event [OF this assms(2)] have 1: "runs E st st1" .
  from runs_event [OF 1] runs_event [OF assms(2)]
  have fin: "runs E st (event_in_turn t EkTurnCompleted st1)" "runs E st (event_in_turn t EkTurnCompleted st')"
    by simp_all
  show ?thesis
    using assms(1) 1 fin e marker_finds_nothing [of E t st' True "usage_of st'" "assistant_turn_has_activity turn"]
    by (auto simp: finish_user_turn_def split: if_splits sum.splits)
qed

text \<open>The start of a turn, when the goal can be read.\<close>

lemma turn_started_succeeds:
  assumes "rows_ok (gn_db s)"
  shows "\<exists>s'. turn_started ck t turn trigger usage s = (Inr GeNone, s')"
proof -
  have "\<exists>x. fst (reset_thread_goal_continuation_suppression now t i (gn_db s)) = Inr x" for now i
  proof (cases "goal_map (gn_db s) t")
    case None
    then show ?thesis by (simp add: reset_thread_goal_continuation_suppression_def get_goal_map [OF assms])
  next
    case (Some g)
    from reset_result [OF assms this, of now i] show ?thesis by (metis fst_conv)
  qed
  then obtain x where "fst (reset_thread_goal_continuation_suppression (ck_now ck) t
      (active_id (goal_map (gn_db s) t)) (gn_db s)) = Inr x" by blast
  then show ?thesis
    by (simp add: turn_started_def and_then_def on_db_def reading_def return_op_def Let_def
      get_goal_map [OF assms] split_beta split: sum.split)
qed

lemma runs_start:
  assumes "start_user_turn E t inp tc st' = (r, st'')" "runs E st st'"
    and "tracks_goal E tc \<longrightarrow> rows_ok (gn_db (tn_goal st'))"
  shows "runs E st st''"
proof -
  have start: "runs E st (on_session (record_user_turn_start (env_mail (te_session E))
      (env_guidance (te_session E)) t inp tc contexts) st1)" if "runs E st st1" for contexts st1
    by (rule runs_session [OF that]) (rule session_step.user_turn)
  let ?contexts = "te_contexts E (tn_session st') (tn_goal st') (tn_out st')"
  show ?thesis
  proof (cases "tracks_goal E tc")
    case False
    with assms start [OF assms(2), of ?contexts] show ?thesis by (auto simp: start_user_turn_def Let_def)
  next
    case True
    let ?ev = "GvTurnStarted (thread_of st') t TriggerUser (usage_of st')"
    obtain ck o1 where ck: "te_clock E (tn_out st') = (ck, o1)" by force
    obtain s' where "turn_started ck (thread_of st') t TriggerUser (usage_of st') (tn_goal st') = (Inr GeNone, s')"
      using turn_started_succeeds assms(3) True by blast
    then obtain st1 where e: "apply_goal_event E t ?ev st' = (Inr (), st1)"
      by (simp add: apply_goal_event_def ck)
    from start [OF runs_apply_goal_event [OF e assms(2)], of ?contexts] assms(1) True e show ?thesis
      by (auto simp: start_user_turn_def Let_def)
  qed
qed

text \<open>The whole handler.\<close>

lemma runs_record_error: "runs E st st' \<Longrightarrow> runs E st (record_error E t e st')"
  unfolding record_error_def by (erule runs_event) simp_all

lemma runs_user_input:
  assumes "handle_user_input E t inp tc images agent early race st = Some (r, st')"
    and "tracks_goal E tc \<longrightarrow> rows_ok (gn_db (tn_goal st))"
  shows "runs E st st'"
proof -
  let ?st = "event_in_turn t EkTurnStarted (st\<lparr>tn_snap := ls_snapshot (tn_session st)\<rparr>)"
  have 0: "runs E st ?st" by (intro runs_event runs_outside runs_refl) simp_all
  have g: "tn_goal ?st = tn_goal st" by (simp add: event_in_turn_def)
  obtain rc sn1 s1 where c: "compact_before_turn_if_needed (te_compact_limit E) (env_compact (te_session E))
      (te_mods E) t (tn_snap ?st) (tn_session ?st) = (rc, sn1, s1)" by (metis surj_pair)
  let ?st1 = "?st\<lparr>tn_snap := sn1, tn_session := s1\<rparr>"
  have 1: "runs E st ?st1"
    using session_step.compact_before [where E = "te_session E", OF c]
    by (intro runs_step [OF 0, of StepPlain]) (simp_all add: view_def)
  obtain rs st2 where s: "start_user_turn E t inp tc ?st1 = (rs, st2)" by force
  have 2: "runs E st st2" by (rule runs_start [OF s 1]) (simp add: g assms(2))
  have ends: "runs E st (snd (case end of TurnDone turn \<Rightarrow> finish_user_turn E t tc turn st3
      | TurnFailed e \<Rightarrow> (Inl e, record_error E t e st3) | TurnCut \<Rightarrow> interrupt_turn t st3))"
    if "race_turn race E t tc st2 = Some (end, st3)" for "end" st3
  proof -
    from runs_race [OF that 2] have 3: "runs E st st3" .
    show ?thesis
      using runs_finish [OF surjective_pairing 3] runs_interrupt [OF surjective_pairing 3] runs_record_error [OF 3]
      by (cases "end") simp_all
  qed
  have early: "runs E st (snd (interrupt_turn t ?st :: (error + assistant_turn) \<times> _))"
    by (rule runs_interrupt [OF surjective_pairing 0])
  show ?thesis
    using assms(1) runs_refl [of E st] runs_record_error [OF 0] early runs_record_error [OF 1]
      runs_record_error [OF 2] ends c s
    by (fastforce simp: handle_user_input_def Let_def split: sum.splits if_splits)
qed

section \<open>Properties\<close>


text \<open>A model that answers at once.\<close>

definition sample_answer :: assistant_turn where
  "sample_answer = \<lparr>at_text = Some ''done'', at_tool_calls = [], at_reasoning = []\<rparr>"

definition sample_session_env :: "(goal_runtime \<times> unit) session_env" where
  "sample_session_env =
     \<lparr>env_hooks = \<lparr>hk_before_invocation = \<lambda>_ w. (Inr [], w), hk_before_handler = \<lambda>_ w. (Inr [], w),
        hk_approval_requested = \<lambda>_ _ w. (Inr [], w), hk_after_completion = \<lambda>_ _ w. (Inr [], w),
        hk_failed = \<lambda>_ _ w. (Inr [], w)\<rparr>,
      env_tools = Map.empty, env_mail = \<lambda>_. Inl (Anyhow []), env_guidance = \<lambda>_. None,
      env_sample = \<lambda>_. None, env_compact = \<lambda>_. Inl (Anyhow [])\<rparr>"

definition sample_env :: "(unit \<Rightarrow> (stream_event list \<times> completion) \<times> unit) \<Rightarrow> unit turn_env" where
  "sample_env model =
     \<lparr>te_session = sample_session_env, te_policy = policy_all, te_model = \<lambda>_. model, te_mods = [],
      te_window = None, te_window_error = \<lambda>_. False, te_compact_limit = None, te_goals = False,
      te_overlay = \<lambda>_. None, te_contexts = \<lambda>_ _ _. ([], []), te_clock = \<lambda>w. (at_ms 0, w),
      te_error_text = \<lambda>_. ''error''\<rparr>"

definition sample_state :: "live_session \<Rightarrow> unit turn_state" where
  "sample_state s = \<lparr>tn_snap = ls_snapshot s, tn_session = s,
     tn_goal = goal_runtime_new (db_new []), tn_out = ()\<rparr>"

lemma record_frames [simp]:
  "ls_inbox (snd (record_assistant_turn t turn sn s)) = ls_inbox s"
  "ls_inbox (snd (record_model_usage t u w sn s)) = ls_inbox s"
  by (simp_all add: record_assistant_turn_def record_model_usage_def record_token_count_event_def Let_def
    map_context_def split: option.split)

lemma inbox_drained:
  "\<not> inbox_has_pending (ls_inbox (snd (drain_inbox_into_turn_context pr t sn s)))"
  by (simp add: drain_inbox_into_turn_context_def inbox_drain_def inbox_has_pending_def Let_def
    record_inter_agent_communications_def publish_snapshot_def)

lemma sample_turn_completes:
  "\<exists>st'. run_session_turn 1 (sample_env (\<lambda>w. (([], Inr (sample_answer, None)), w))) t tc st =
     (Some (Inr sample_answer), st')"
  using inbox_drained [of "env_mail sample_session_env" t "tn_snap st" "tn_session st"]
  by (simp add: turn_round_def sample_round_def stream_assistant_turn_def sample_env_def sample_answer_def
    record_completion_def Let_def)


text \<open>
  A user turn never records the marker that says it worked for a goal. The marker is looked up
  after the goal runtime has ended the turn and forgotten it, so the end of a user turn does exactly
  what the end of a continuation does, which records none: a restart, which counts the turns of a
  goal by these markers, forgets every user turn.
\<close>

theorem goal_turn_marker_never_recorded:
  assumes "tracks_goal E tc"
  shows "finish_user_turn E t tc turn st = finish_goal_turn E t turn st"
proof -
  let ?ev = "GvTurnFinished (thread_of st) t True (usage_of st) (assistant_turn_has_activity turn)"
  obtain x st1 where e: "apply_goal_event E t ?ev st = (x, st1)" by force
  show ?thesis
    using assms e marker_finds_nothing [of E t st True "usage_of st" "assistant_turn_has_activity turn"]
    by (cases x) (simp_all add: finish_user_turn_def finish_goal_turn_def)
qed

definition sample_turn_context :: turn_context_item where
  "sample_turn_context =
     \<lparr>tc_turn_id = ''turn_1'', tc_workspace_root = ''/w'', tc_cwd = ''/w'',
      tc_model = \<lparr>mr_provider_id = ''p'', mr_model_id = ''m''\<rparr>, tc_policy_mode = PolicyOff,
      tc_permission_profile = Managed, tc_command_timeout_secs = 10, tc_max_output_bytes = 100,
      tc_turn_mode = TurnDefault, tc_agent_type = None, tc_agent_profile_instructions = None,
      tc_agent_response_guidance = None, tc_agent_role = None, tc_thinking_mode = None,
      tc_current_utc_date = None\<rparr>"

theorem goal_turn_marker_never_recorded_witness:
  "\<forall>model s. tracks_goal (sample_env model\<lparr>te_goals := True\<rparr>) sample_turn_context \<and>
     finish_user_turn (sample_env model\<lparr>te_goals := True\<rparr>) ''turn_1'' sample_turn_context sample_answer
       (sample_state s) =
     finish_goal_turn (sample_env model\<lparr>te_goals := True\<rparr>) ''turn_1'' sample_answer (sample_state s)"
proof (intro allI)
  fix model s
  have "tracks_goal (sample_env model\<lparr>te_goals := True\<rparr>) sample_turn_context"
    by (simp add: tracks_goal_def sample_turn_context_def)
  then show "tracks_goal (sample_env model\<lparr>te_goals := True\<rparr>) sample_turn_context \<and>
     finish_user_turn (sample_env model\<lparr>te_goals := True\<rparr>) ''turn_1'' sample_turn_context sample_answer
       (sample_state s) =
     finish_goal_turn (sample_env model\<lparr>te_goals := True\<rparr>) ''turn_1'' sample_answer (sample_state s)"
    using goal_turn_marker_never_recorded by blast
qed

end
