(* ===== verification/ThreadProjection.thy ===== *)
theory ThreadProjection
  imports ForkHistory Overlay
begin

text \<open>
  The view of a thread that the app server gives to its clients
  (\<^verbatim>\<open>src/app_server/thread_projection.rs\<close>, the view types of \<open>protocol.rs\<close> and the
  status of \<open>thread_processor.rs\<close>): the turns are rebuilt from the runtime events, the messages of
  the rollout are merged into them, and the active turn is marked.
\<close>

section \<open>Views\<close>

datatype view_status = TsIdle | TsRunning | TsWaitingApproval | TsFailed | TsArchived

datatype turn_status = TuQueued | TuRunning | TuInProgress | TuWaitingApproval | TuCompleted
  | TuFailed | TuInterrupted

record turn_progress =
  tp_turn_id :: turn_id
  tp_status :: turn_status

record invocation_item =
  iv_invocation_id :: string
  iv_tool_call_id :: "string option"
  iv_tool_name :: "string option"
  iv_approval_id :: "string option"
  iv_request_id :: "string option"
  iv_status :: string
  iv_mutating :: "bool option"
  iv_reason :: "string option"
  iv_message :: "string option"
  iv_output_preview :: "string option"

datatype (plugins only: code size) thread_item =
    TiUserMessage string "user_input list"
  | TiAssistantMessage "event_id option" "string option"
  | TiReasoning "event_id option" "string list" "string list"
  | TiToolResult "event_id option" string
  | TiExecOutput "event_id option" string
  | TiToolInvocation invocation_item
  | TiApprovalRequested "event_id option" string string string "string option" permission_profile
      string string string
  | TiApprovalDecision "event_id option" "string option" string "string option"
  | TiUserInputRequested "event_id option" string string "question_prompt list" string
  | TiUserInputResolved "event_id option" string bool
  | TiRuntimeError "event_id option" string
  | TiCompactionWritten
  | TiSubagentSpawn "event_id option" string string thread_id thread_id string string
  | TiSubagentClose "event_id option" string string thread_id thread_id string
  | TiInterAgentMessage "event_id option" string string thread_id thread_id string string string bool
      "turn_id option"
  | TiGoalReport "event_id option" thread_goal_report

record turn_view =
  vw_id :: turn_id
  vw_status :: turn_status
  vw_items :: "thread_item list"

record thread_view =
  th_id :: thread_id
  th_status :: view_status
  th_active_turn :: "turn_view option"
  th_turns :: "turn_view list"
  th_model :: "model_ref option"
  th_thinking_mode :: "thinking_mode option"
  th_goal :: "thread_goal option"
  th_goal_mode :: thread_goal_mode

definition system_goal_report_turn_id :: turn_id where
  "system_goal_report_turn_id = ''system_goal_reports''"

section \<open>The state of the latest turn\<close>

fun turn_status_of_kind :: "runtime_event_kind \<Rightarrow> turn_status option" where
  "turn_status_of_kind EkTurnCompleted = Some TuCompleted"
| "turn_status_of_kind EkTurnInterrupted = Some TuInterrupted"
| "turn_status_of_kind (EkRuntimeError _) = Some TuFailed"
| "turn_status_of_kind (EkAssistantTurn _) = Some TuCompleted"
| "turn_status_of_kind (EkThreadGoalUpdated _) = None"
| "turn_status_of_kind (EkThreadGoalModeUpdated _ _ _) = None"
| "turn_status_of_kind (EkThreadGoalCleared _) = None"
| "turn_status_of_kind (EkThreadGoalContinuationStarted _) = None"
| "turn_status_of_kind (EkThreadGoalContinuationSuppressed _ _) = None"
| "turn_status_of_kind (EkThreadGoalTurnStarted _) = None"
| "turn_status_of_kind (EkThreadGoalToolCompleted _ _) = None"
| "turn_status_of_kind (EkThreadGoalReport _) = None"
| "turn_status_of_kind (EkWorkflowStarted _ _ _ _) = None"
| "turn_status_of_kind (EkWorkflowPhaseStarted _ _ _ _) = None"
| "turn_status_of_kind (EkWorkflowPhaseUpdated _ _) = None"
| "turn_status_of_kind (EkWorkflowArtifactRecorded _ _) = None"
| "turn_status_of_kind (EkWorkflowCompleted _ _ _) = None"
| "turn_status_of_kind _ = Some TuInProgress"

definition latest_turn_state :: "runtime_event list \<Rightarrow> turn_progress option" where
  "latest_turn_state es =
     (case List.map_filter (\<lambda>e. Option.bind (ev_turn_id e) (\<lambda>t.
             map_option (\<lambda>s. \<lparr>tp_turn_id = t, tp_status = s\<rparr>) (turn_status_of_kind (ev_kind e))))
           (rev es) of
        [] \<Rightarrow> None | p # _ \<Rightarrow> Some p)"

section \<open>Items of a turn\<close>

definition approval_status_name :: "approval_status \<Rightarrow> string" where
  "approval_status_name st = (case st of ApprovalPending \<Rightarrow> ''pending'' | ApprovalApproved \<Rightarrow> ''approved''
     | ApprovalDenied \<Rightarrow> ''denied'')"

definition thread_item_from_event :: "runtime_event \<Rightarrow> thread_item option" where
  "thread_item_from_event e =
     (let i = Some (ev_event_id e) in
      case ev_kind e of
        EkAssistantTurn turn \<Rightarrow> map_option (\<lambda>x. TiAssistantMessage i (Some x)) (at_text turn)
      | EkReasoning summary content \<Rightarrow> Some (TiReasoning i summary content)
      | EkToolResult r \<Rightarrow> Some (TiToolResult i (tr_tool_name r))
      | EkExecOutput _ _ chunk _ \<Rightarrow> Some (TiExecOutput i chunk)
      | EkApprovalRequested a tool reason ckpt profile fs net env _ \<Rightarrow>
          Some (TiApprovalRequested i a tool reason ckpt profile fs net env)
      | EkApprovalDecision a st note \<Rightarrow>
          Some (TiApprovalDecision i (Some a) (approval_status_name st) note)
      | EkUserInputRequested r tool qs \<Rightarrow> Some (TiUserInputRequested i r tool qs ''pending'')
      | EkUserInputResolved r dismissed \<Rightarrow> Some (TiUserInputResolved i r dismissed)
      | EkRuntimeError m \<Rightarrow> Some (TiRuntimeError i m)
      | EkCompactionWritten _ \<Rightarrow> Some TiCompactionWritten
      | EkSubagentSpawned ivk call parent child name preview \<Rightarrow>
          Some (TiSubagentSpawn i ivk call parent child name preview)
      | EkSubagentClosed ivk call parent closed path \<Rightarrow>
          Some (TiSubagentClose i ivk call parent closed path)
      | EkInterAgentMessageSent ivk call author recipient apath rpath preview followup started \<Rightarrow>
          Some (TiInterAgentMessage i ivk call author recipient apath rpath preview followup started)
      | EkThreadGoalReport report \<Rightarrow> Some (TiGoalReport i report)
      | _ \<Rightarrow> None)"

definition new_invocation_item :: "string \<Rightarrow> invocation_item" where
  "new_invocation_item i = \<lparr>iv_invocation_id = i, iv_tool_call_id = None, iv_tool_name = None,
     iv_approval_id = None, iv_request_id = None, iv_status = ''started'', iv_mutating = None,
     iv_reason = None, iv_message = None, iv_output_preview = None\<rparr>"

fun is_invocation :: "string \<Rightarrow> thread_item \<Rightarrow> bool" where
  "is_invocation i (TiToolInvocation v) \<longleftrightarrow> iv_invocation_id v = i"
| "is_invocation _ _ \<longleftrightarrow> False"

fun map_invocation :: "(invocation_item \<Rightarrow> invocation_item) \<Rightarrow> thread_item \<Rightarrow> thread_item" where
  "map_invocation f (TiToolInvocation v) = TiToolInvocation (f v)"
| "map_invocation f x = x"

text \<open>The first item of the invocation is changed; when there is none, a new one at the end.\<close>

definition ensure_tool_invocation_item :: "string \<Rightarrow> thread_item list \<Rightarrow> nat \<times> thread_item list" where
  "ensure_tool_invocation_item i items =
     (if list_ex (is_invocation i) items then (length (takeWhile (\<lambda>x. \<not> is_invocation i x) items), items)
      else (length items, items @ [TiToolInvocation (new_invocation_item i)]))"

definition on_invocation ::
  "string \<Rightarrow> (invocation_item \<Rightarrow> invocation_item) \<Rightarrow> thread_item list \<Rightarrow> thread_item list" where
  "on_invocation i f items =
     (case ensure_tool_invocation_item i items of (k, xs) \<Rightarrow> xs[k := map_invocation f (xs ! k)])"

definition apply_tool_invocation_event ::
  "runtime_event_kind \<Rightarrow> thread_item list \<Rightarrow> thread_item list" where
  "apply_tool_invocation_event kind items =
     (case kind of
        EkToolInvocationStarted i call tool mutating \<Rightarrow>
          on_invocation i (\<lambda>v. v\<lparr>iv_tool_call_id := Some call, iv_tool_name := Some tool,
            iv_approval_id := None, iv_request_id := None, iv_status := ''started'',
            iv_mutating := Some mutating, iv_reason := None, iv_message := None\<rparr>) items
      | EkToolInvocationWaitingApproval i a reason \<Rightarrow>
          on_invocation i (\<lambda>v. v\<lparr>iv_approval_id := Some a, iv_request_id := None,
            iv_status := ''waiting_approval'', iv_reason := Some reason, iv_message := None\<rparr>) items
      | EkToolInvocationWaitingUserInput i r reason \<Rightarrow>
          on_invocation i (\<lambda>v. v\<lparr>iv_approval_id := None, iv_request_id := Some r,
            iv_status := ''waiting_user_input'', iv_reason := Some reason, iv_message := None\<rparr>) items
      | EkToolInvocationOutputDelta i _ chunk _ \<Rightarrow>
          on_invocation i (\<lambda>v. v\<lparr>iv_output_preview :=
            Some (case iv_output_preview v of None \<Rightarrow> chunk | Some p \<Rightarrow> p @ chunk)\<rparr>) items
      | EkToolInvocationCompleted i call tool _ \<Rightarrow>
          on_invocation i (\<lambda>v. v\<lparr>iv_tool_call_id := Some call, iv_tool_name := Some tool,
            iv_status := ''completed'', iv_reason := None, iv_message := None,
            iv_request_id := None\<rparr>) items
      | EkToolInvocationFailed i call tool m \<Rightarrow>
          on_invocation i (\<lambda>v. v\<lparr>iv_tool_call_id := Some call, iv_tool_name := Some tool,
            iv_status := ''failed'', iv_reason := None, iv_message := Some m,
            iv_request_id := None\<rparr>) items
      | EkToolInvocationCancelled i call tool reason \<Rightarrow>
          on_invocation i (\<lambda>v. v\<lparr>iv_tool_call_id := Some call, iv_tool_name := Some tool,
            iv_status := ''cancelled'', iv_reason := Some reason, iv_message := None,
            iv_request_id := None\<rparr>) items
      | _ \<Rightarrow> items)"

definition apply_approval_decision_to_tool_invocation ::
  "string \<Rightarrow> approval_status \<Rightarrow> thread_item list \<Rightarrow> thread_item list" where
  "apply_approval_decision_to_tool_invocation a st =
     map (map_invocation (\<lambda>v. if iv_approval_id v \<noteq> Some a then v
       else v\<lparr>iv_status := approval_status_name st, iv_reason := None, iv_message := None\<rparr>))"

definition apply_user_input_resolved_to_tool_invocation ::
  "string \<Rightarrow> thread_item list \<Rightarrow> thread_item list" where
  "apply_user_input_resolved_to_tool_invocation r =
     map (map_invocation (\<lambda>v. if iv_request_id v \<noteq> Some r then v
       else v\<lparr>iv_status := ''completed'', iv_reason := None, iv_message := None\<rparr>))"

section \<open>Turns from events\<close>

definition ensure_turn_view :: "turn_view list \<Rightarrow> turn_id \<Rightarrow> nat \<times> turn_view list" where
  "ensure_turn_view turns t =
     (if list_ex (\<lambda>v. vw_id v = t) turns then (length (takeWhile (\<lambda>v. vw_id v \<noteq> t) turns), turns)
      else (length turns, turns @ [\<lparr>vw_id = t, vw_status = TuInProgress, vw_items = []\<rparr>]))"

definition on_turn :: "turn_id \<Rightarrow> (turn_view \<Rightarrow> turn_view) \<Rightarrow> turn_view list \<Rightarrow> turn_view list" where
  "on_turn t f turns = (case ensure_turn_view turns t of (k, vs) \<Rightarrow> vs[k := f (vs ! k)])"

definition view_turn_id :: "runtime_event \<Rightarrow> turn_id option \<Rightarrow> turn_id option" where
  "view_turn_id e current = (case current of Some t \<Rightarrow> Some t | None \<Rightarrow> ev_turn_id e)"

definition goal_report_turn_id :: "runtime_event \<Rightarrow> turn_id option \<Rightarrow> turn_id" where
  "goal_report_turn_id e current =
     (case view_turn_id e current of Some t \<Rightarrow> t | None \<Rightarrow> system_goal_report_turn_id)"

definition push_item :: "runtime_event \<Rightarrow> turn_view \<Rightarrow> turn_view" where
  "push_item e v = (case thread_item_from_event e of None \<Rightarrow> v
     | Some x \<Rightarrow> v\<lparr>vw_items := vw_items v @ [x]\<rparr>)"

definition on_items :: "(thread_item list \<Rightarrow> thread_item list) \<Rightarrow> turn_view \<Rightarrow> turn_view" where
  "on_items f v = v\<lparr>vw_items := f (vw_items v)\<rparr>"

definition set_turn_status :: "turn_status \<Rightarrow> turn_view \<Rightarrow> turn_view" where
  "set_turn_status st v = v\<lparr>vw_status := st\<rparr>"

fun is_invocation_event :: "runtime_event_kind \<Rightarrow> bool" where
  "is_invocation_event (EkToolInvocationStarted _ _ _ _) = True"
| "is_invocation_event (EkToolInvocationWaitingApproval _ _ _) = True"
| "is_invocation_event (EkToolInvocationWaitingUserInput _ _ _) = True"
| "is_invocation_event (EkToolInvocationOutputDelta _ _ _ _) = True"
| "is_invocation_event (EkToolInvocationCompleted _ _ _ _) = True"
| "is_invocation_event (EkToolInvocationFailed _ _ _ _) = True"
| "is_invocation_event (EkToolInvocationCancelled _ _ _ _) = True"
| "is_invocation_event _ = False"

text \<open>The goal and workflow events that a turn does not show.\<close>

fun is_hidden_event :: "runtime_event_kind \<Rightarrow> bool" where
  "is_hidden_event (EkThreadGoalUpdated _) = True"
| "is_hidden_event (EkThreadGoalModeUpdated _ _ _) = True"
| "is_hidden_event (EkThreadGoalCleared _) = True"
| "is_hidden_event (EkThreadGoalContinuationStarted _) = True"
| "is_hidden_event (EkThreadGoalContinuationSuppressed _ _) = True"
| "is_hidden_event (EkThreadGoalTurnStarted _) = True"
| "is_hidden_event (EkThreadGoalToolCompleted _ _) = True"
| "is_hidden_event (EkWorkflowStarted _ _ _ _) = True"
| "is_hidden_event (EkWorkflowPhaseStarted _ _ _ _) = True"
| "is_hidden_event (EkWorkflowPhaseUpdated _ _) = True"
| "is_hidden_event (EkWorkflowArtifactRecorded _ _) = True"
| "is_hidden_event (EkWorkflowCompleted _ _ _) = True"
| "is_hidden_event _ = False"

definition end_turn_view ::
  "turn_status \<Rightarrow> runtime_event \<Rightarrow> turn_view list \<times> turn_id option \<Rightarrow> turn_view list \<times> turn_id option"
  where
  "end_turn_view st e s = (case s of (turns, current) \<Rightarrow>
     (case ev_turn_id e of
        None \<Rightarrow> (turns, current)
      | Some t \<Rightarrow> (on_turn t (set_turn_status st) turns, if current = Some t then None else current)))"

text \<open>One event: the turns and the current turn after it.\<close>

definition turn_view_step ::
  "turn_view list \<times> turn_id option \<Rightarrow> runtime_event \<Rightarrow> turn_view list \<times> turn_id option" where
  "turn_view_step s e = (case s of (turns, current) \<Rightarrow>
     let attributed = (\<lambda>f. case view_turn_id e current of None \<Rightarrow> (turns, current)
           | Some t \<Rightarrow> (on_turn t f turns, current))
     in case ev_kind e of
          EkTurnStarted \<Rightarrow>
            (case ev_turn_id e of None \<Rightarrow> (turns, current)
             | Some t \<Rightarrow> (on_turn t (set_turn_status TuInProgress) turns, Some t))
        | EkTurnCompleted \<Rightarrow> end_turn_view TuCompleted e s
        | EkTurnInterrupted \<Rightarrow> end_turn_view TuInterrupted e s
        | EkRuntimeError _ \<Rightarrow> attributed (push_item e \<circ> set_turn_status TuFailed)
        | EkApprovalDecision a st _ \<Rightarrow>
            attributed (push_item e \<circ> on_items (apply_approval_decision_to_tool_invocation a st))
        | EkUserInputResolved r _ \<Rightarrow>
            attributed (push_item e \<circ> on_items (apply_user_input_resolved_to_tool_invocation r))
        | EkThreadGoalReport _ \<Rightarrow>
            (on_turn (goal_report_turn_id e current)
               (push_item e \<circ> (if ev_turn_id e = None \<and> current = None
                               then set_turn_status TuCompleted else id)) turns, current)
        | kind \<Rightarrow>
            if is_hidden_event kind then (turns, current)
            else if is_invocation_event kind
            then attributed (on_items (apply_tool_invocation_event kind))
            else attributed (push_item e))"

definition build_turn_views :: "runtime_event list \<Rightarrow> turn_view list" where
  "build_turn_views es = fst (foldl turn_view_step ([], None) es)"

section \<open>Messages of the rollout\<close>

record projected_messages =
  pm_user :: "conversation_message option"
  pm_assistants :: "conversation_message list"

definition is_projectable_message :: "conversation_message \<Rightarrow> bool" where
  "is_projectable_message m \<longleftrightarrow> \<not> cm_injected m \<and>
     (trim (cm_content m) \<noteq> [] \<or>
      (cm_role m = User \<and> list_ex part_is_image (cm_parts m)) \<or>
      (cm_role m = Assistant \<and> (cm_reasoning m \<noteq> [] \<or> cm_tool_calls m \<noteq> [])))"

fun input_of_part :: "content_part \<Rightarrow> user_input" where
  "input_of_part (PartText x) = UiText x"
| "input_of_part (PartLocalImage p d) = UiLocalImage p d"
| "input_of_part (PartImageUrl u d) = UiImageUrl u d"

definition projected_user_input :: "conversation_message \<Rightarrow> user_input list" where
  "projected_user_input m =
     (let ps = effective_parts m
      in if \<not> list_ex part_is_image ps then [] else map input_of_part ps)"

definition displayable_reasoning_content :: "conversation_message \<Rightarrow> string list" where
  "displayable_reasoning_content m =
     filter (\<lambda>x. x \<noteq> []) (map (\<lambda>b. trim (rb_text b)) (filter (\<lambda>b. \<not> rb_redacted b) (cm_reasoning m)))"

fun is_reasoning_item :: "string list \<Rightarrow> thread_item \<Rightarrow> bool" where
  "is_reasoning_item c (TiReasoning _ _ c') \<longleftrightarrow> c' = c"
| "is_reasoning_item _ _ \<longleftrightarrow> False"

definition reasoning_item_exists :: "thread_item list \<Rightarrow> string list \<Rightarrow> bool" where
  "reasoning_item_exists items c \<longleftrightarrow> list_ex (is_reasoning_item c) items"

fun is_assistant_item :: "string \<Rightarrow> thread_item \<Rightarrow> bool" where
  "is_assistant_item x (TiAssistantMessage _ (Some y)) \<longleftrightarrow> y = x"
| "is_assistant_item _ _ \<longleftrightarrow> False"

definition assistant_message_exists :: "thread_item list \<Rightarrow> string \<Rightarrow> bool" where
  "assistant_message_exists items x \<longleftrightarrow> list_ex (is_assistant_item x) items"

fun is_tool_item :: "thread_item \<Rightarrow> bool" where
  "is_tool_item (TiToolInvocation _) = True"
| "is_tool_item (TiToolResult _ _) = True"
| "is_tool_item (TiExecOutput _ _) = True"
| "is_tool_item _ = False"

fun is_user_item :: "string \<Rightarrow> thread_item \<Rightarrow> bool" where
  "is_user_item x (TiUserMessage y _) \<longleftrightarrow> y = x"
| "is_user_item _ _ \<longleftrightarrow> False"

definition first_tool_item_index :: "thread_item list \<Rightarrow> nat option" where
  "first_tool_item_index items =
     (if list_ex is_tool_item items then Some (length (takeWhile (\<lambda>x. \<not> is_tool_item x) items)) else None)"

definition insert_at :: "nat \<Rightarrow> 'a \<Rightarrow> 'a list \<Rightarrow> 'a list" where
  "insert_at k x xs = take k xs @ x # drop k xs"

text \<open>A message with tool calls goes before the first tool item, another one to the end.\<close>

definition message_index :: "conversation_message \<Rightarrow> thread_item list \<Rightarrow> nat" where
  "message_index m items =
     (if cm_tool_calls m = [] then length items
      else case first_tool_item_index items of None \<Rightarrow> length items | Some k \<Rightarrow> k)"

definition insert_user_message :: "conversation_message \<Rightarrow> thread_item list \<Rightarrow> thread_item list" where
  "insert_user_message m items =
     (if list_ex (is_user_item (cm_content m)) items then items
      else TiUserMessage (cm_content m) (projected_user_input m) # items)"

definition insert_assistant_message :: "thread_item list \<Rightarrow> conversation_message \<Rightarrow> thread_item list"
  where
  "insert_assistant_message items m =
     (let c = displayable_reasoning_content m;
          items1 = (if c \<noteq> [] \<and> \<not> reasoning_item_exists items c
                    then insert_at (message_index m items) (TiReasoning None [] c) items else items)
      in if assistant_message_exists items1 (cm_content m) then items1
         else insert_at (message_index m items1) (TiAssistantMessage None (Some (cm_content m))) items1)"

definition insert_projected_turn_messages :: "projected_messages \<Rightarrow> turn_view \<Rightarrow> turn_view" where
  "insert_projected_turn_messages p =
     on_items (\<lambda>items. foldl insert_assistant_message
       (case pm_user p of None \<Rightarrow> items | Some m \<Rightarrow> insert_user_message m items) (pm_assistants p))"

definition project_message :: "projected_messages \<Rightarrow> conversation_message \<Rightarrow> projected_messages" where
  "project_message p m =
     (if \<not> is_projectable_message m then p
      else case cm_role m of
          User \<Rightarrow> p\<lparr>pm_user := Some m\<rparr>
        | Assistant \<Rightarrow> p\<lparr>pm_assistants := pm_assistants p @ [m]\<rparr>
        | _ \<Rightarrow> p)"

definition messages_of_turn :: "response_item list \<Rightarrow> turn_id \<Rightarrow> projected_messages" where
  "messages_of_turn rs t =
     foldl project_message \<lparr>pm_user = None, pm_assistants = []\<rparr>
       (map ri_message (filter (\<lambda>r. ri_turn_id r = t) rs))"

text \<open>A turn known only by its messages counts as completed.\<close>

definition ensure_response_turn :: "turn_view list \<Rightarrow> turn_id \<Rightarrow> turn_view list" where
  "ensure_response_turn turns t =
     (if list_ex (\<lambda>v. vw_id v = t) turns then turns else on_turn t (set_turn_status TuCompleted) turns)"

definition insert_response_items :: "response_item list \<Rightarrow> turn_view list \<Rightarrow> turn_view list" where
  "insert_response_items rs0 turns =
     (let rs = filter (\<lambda>r. ri_turn_id r \<noteq> fork_context_turn_id) rs0
      in map (\<lambda>v. insert_projected_turn_messages (messages_of_turn rs (vw_id v)) v)
           (foldl ensure_response_turn turns (map ri_turn_id rs)))"

section \<open>The view of a thread\<close>

definition build_thread_view_with_selection ::
  "thread_id \<Rightarrow> view_status \<Rightarrow> turn_progress option \<Rightarrow> model_ref option \<Rightarrow> thinking_mode option \<Rightarrow>
   runtime_event list \<Rightarrow> response_item list \<Rightarrow> thread_view" where
  "build_thread_view_with_selection thread status active model thinking es rs =
     (let turns = insert_response_items rs (build_turn_views es);
          (active_view, turns1) =
            (case active of None \<Rightarrow> (None, turns)
             | Some p \<Rightarrow> (case ensure_turn_view turns (tp_turn_id p) of
                 (k, vs) \<Rightarrow> let v = set_turn_status (tp_status p) (vs ! k) in (Some v, vs[k := v])))
      in \<lparr>th_id = thread, th_status = status, th_active_turn = active_view, th_turns = turns1,
          th_model = model, th_thinking_mode = thinking, th_goal = None,
          th_goal_mode = ModeStandard\<rparr>)"

definition thread_read_from_state_view ::
  "turn_progress option \<Rightarrow> thread_id \<Rightarrow> thread_snapshot \<Rightarrow> response_item list \<Rightarrow> overlay \<Rightarrow>
   runtime_event list \<Rightarrow> thread_view" where
  "thread_read_from_state_view active thread sn rs ov es =
     (let status =
        (if active \<noteq> None then TsRunning
         else if has_pending_approval ov \<or> has_pending_user_input ov then TsWaitingApproval
         else if (case latest_turn_state es of None \<Rightarrow> False | Some p \<Rightarrow> tp_status p = TuFailed)
         then TsFailed else TsIdle)
      in build_thread_view_with_selection thread status active
           (map_option tc_model (sn_reference_turn_context sn))
           (Option.bind (sn_reference_turn_context sn) tc_thinking_mode) es rs)"

section \<open>Turns as folds over their own events\<close>

text \<open>
  Where an event goes, and what it does there: the turn it is shown in, the change of that turn, and
  the current turn after it. They depend on the turn that is current before it.
\<close>

definition shown_in :: "turn_id option \<Rightarrow> runtime_event \<Rightarrow> turn_id option" where
  "shown_in current e =
     (case ev_kind e of
        EkTurnStarted \<Rightarrow> ev_turn_id e
      | EkTurnCompleted \<Rightarrow> ev_turn_id e
      | EkTurnInterrupted \<Rightarrow> ev_turn_id e
      | EkThreadGoalReport _ \<Rightarrow> Some (goal_report_turn_id e current)
      | kind \<Rightarrow> if is_hidden_event kind then None else view_turn_id e current)"

definition change_of_turn :: "turn_id option \<Rightarrow> runtime_event \<Rightarrow> turn_view \<Rightarrow> turn_view" where
  "change_of_turn current e =
     (case ev_kind e of
        EkTurnStarted \<Rightarrow> set_turn_status TuInProgress
      | EkTurnCompleted \<Rightarrow> set_turn_status TuCompleted
      | EkTurnInterrupted \<Rightarrow> set_turn_status TuInterrupted
      | EkRuntimeError _ \<Rightarrow> push_item e \<circ> set_turn_status TuFailed
      | EkApprovalDecision a st _ \<Rightarrow>
          push_item e \<circ> on_items (apply_approval_decision_to_tool_invocation a st)
      | EkUserInputResolved r _ \<Rightarrow>
          push_item e \<circ> on_items (apply_user_input_resolved_to_tool_invocation r)
      | EkThreadGoalReport _ \<Rightarrow>
          push_item e \<circ> (if ev_turn_id e = None \<and> current = None
                         then set_turn_status TuCompleted else id)
      | kind \<Rightarrow> if is_invocation_event kind then on_items (apply_tool_invocation_event kind)
               else push_item e)"

definition current_after :: "turn_id option \<Rightarrow> runtime_event \<Rightarrow> turn_id option" where
  "current_after current e =
     (case ev_kind e of
        EkTurnStarted \<Rightarrow> (case ev_turn_id e of None \<Rightarrow> current | Some t \<Rightarrow> Some t)
      | EkTurnCompleted \<Rightarrow> if current = ev_turn_id e then None else current
      | EkTurnInterrupted \<Rightarrow> if current = ev_turn_id e then None else current
      | _ \<Rightarrow> current)"

fun changes_of_turns ::
  "turn_id option \<Rightarrow> runtime_event list \<Rightarrow> (turn_id \<times> (turn_view \<Rightarrow> turn_view)) list" where
  "changes_of_turns current [] = []"
| "changes_of_turns current (e # es) =
     (case shown_in current e of
        None \<Rightarrow> changes_of_turns (current_after current e) es
      | Some t \<Rightarrow> (t, change_of_turn current e) # changes_of_turns (current_after current e) es)"

definition new_turn_view :: "turn_id \<Rightarrow> turn_view" where
  "new_turn_view t = \<lparr>vw_id = t, vw_status = TuInProgress, vw_items = []\<rparr>"

definition in_order_of_first :: "'a list \<Rightarrow> 'a list" where
  "in_order_of_first xs = rev (remdups (rev xs))"

lemma turn_view_step_eq:
  "turn_view_step (turns, current) e =
     ((case shown_in current e of None \<Rightarrow> turns | Some t \<Rightarrow> on_turn t (change_of_turn current e) turns),
      current_after current e)"
  by (cases "ev_kind e")
    (auto simp: turn_view_step_def shown_in_def change_of_turn_def current_after_def end_turn_view_def
      split: option.split)

lemma fold_turn_view_step:
  "fst (foldl turn_view_step (turns, current) es) =
     foldl (\<lambda>ts (t, f). on_turn t f ts) turns (changes_of_turns current es)"
  by (induction es arbitrary: turns current) (simp_all add: turn_view_step_eq split: option.split)

lemma set_in_order [simp]: "set (in_order_of_first xs) = set xs"
  by (simp add: in_order_of_first_def)

lemma distinct_in_order [simp]: "distinct (in_order_of_first xs)"
  by (simp add: in_order_of_first_def)

lemma in_order_snoc:
  "in_order_of_first (xs @ [x]) =
     (if x \<in> set xs then in_order_of_first xs else in_order_of_first xs @ [x])"
  by (simp add: in_order_of_first_def)

text \<open>The update of the first match, when there is one, as a map.\<close>

lemma update_first_match:
  assumes "distinct (map g xs)" "list_ex (\<lambda>x. g x = i) xs"
  shows "xs[length (takeWhile (\<lambda>x. g x \<noteq> i) xs) := f (xs ! length (takeWhile (\<lambda>x. g x \<noteq> i) xs))] =
    map (\<lambda>x. if g x = i then f x else x) xs"
  using assms
proof (induction xs)
  case (Cons x xs)
  have "map (\<lambda>y. if g y = i then f y else y) xs = xs" if "g x = i"
    using Cons.prems(1) that by (intro map_idI) (metis distinct.simps(2) image_eqI list.map(2) set_map)
  with Cons show ?case by (cases "g x = i") simp_all
qed simp

lemma on_turn_known:
  "distinct (map vw_id turns) \<Longrightarrow> t \<in> vw_id ` set turns \<Longrightarrow>
   on_turn t f turns = map (\<lambda>v. if vw_id v = t then f v else v) turns"
  using update_first_match [of vw_id turns t f]
  by (auto simp: on_turn_def ensure_turn_view_def list_ex_iff)

lemma on_turn_new:
  "t \<notin> vw_id ` set turns \<Longrightarrow> on_turn t f turns = turns @ [f (new_turn_view t)]"
  by (auto simp: on_turn_def ensure_turn_view_def list_ex_iff new_turn_view_def)

definition fold_of_turn :: "(turn_id \<times> (turn_view \<Rightarrow> turn_view)) list \<Rightarrow> turn_id \<Rightarrow> turn_view" where
  "fold_of_turn cs t = foldl (\<lambda>v c. snd c v) (new_turn_view t) (filter (\<lambda>c. fst c = t) cs)"

lemma change_keeps_id [simp]: "vw_id (change_of_turn current e v) = vw_id v"
  by (cases "ev_kind e")
    (simp_all add: change_of_turn_def push_item_def on_items_def set_turn_status_def split: option.split)

text \<open>Changes that keep the identifier of a turn.\<close>

definition keep_ids :: "(turn_id \<times> (turn_view \<Rightarrow> turn_view)) list \<Rightarrow> bool" where
  "keep_ids cs \<longleftrightarrow> (\<forall>c \<in> set cs. \<forall>v. vw_id (snd c v) = vw_id v)"

lemma changes_keep_id: "keep_ids (changes_of_turns current es)"
  by (induction es arbitrary: current) (auto simp: keep_ids_def split: option.splits)

lemma keep_ids_foldl: "keep_ids cs \<Longrightarrow> vw_id (foldl (\<lambda>v c. snd c v) v cs) = vw_id v"
  by (induction cs arbitrary: v) (simp_all add: keep_ids_def)

lemma fold_of_turn_id: "keep_ids cs \<Longrightarrow> vw_id (fold_of_turn cs t) = t"
  using keep_ids_foldl [of "filter (\<lambda>c. fst c = t) cs"]
  by (simp add: fold_of_turn_def new_turn_view_def keep_ids_def)

lemma fold_on_turn:
  assumes "keep_ids cs"
  shows "foldl (\<lambda>ts (t, f). on_turn t f ts) [] cs =
    map (fold_of_turn cs) (in_order_of_first (map fst cs))"
  using assms
proof (induction cs rule: rev_induct)
  case Nil
  then show ?case by (simp add: in_order_of_first_def)
next
  case (snoc c cs)
  obtain t f where c: "c = (t, f)" by force
  let ?vs = "map (fold_of_turn cs) (in_order_of_first (map fst cs))"
  have ids: "vw_id (fold_of_turn cs u) = u" for u
    using snoc.prems by (intro fold_of_turn_id) (simp add: keep_ids_def)
  then have m: "map vw_id ?vs = in_order_of_first (map fst cs)" by (simp add: comp_def)
  then have s: "vw_id ` set ?vs = fst ` set cs" by (metis list.set_map set_in_order)
  have step: "fold_of_turn (cs @ [c]) u = (if u = t then f (fold_of_turn cs u) else fold_of_turn cs u)" for u
    by (simp add: fold_of_turn_def c)
  have new: "fold_of_turn cs t = new_turn_view t" if "t \<notin> fst ` set cs"
  proof -
    have "filter (\<lambda>c. fst c = t) cs = []" using that by (force simp: filter_empty_conv)
    then show ?thesis by (simp add: fold_of_turn_def)
  qed
  have IH: "foldl (\<lambda>ts (t, f). on_turn t f ts) [] cs = ?vs" using snoc by (simp add: keep_ids_def)
  show ?case
  proof (cases "t \<in> fst ` set cs")
    case True
    then show ?thesis
      using on_turn_known [of ?vs t f] m s
      by (simp add: IH c in_order_snoc step [unfolded c] ids comp_def del: map_map)
        (simp add: ids)
  next
    case False
    then have "map (fold_of_turn (cs @ [c])) (in_order_of_first (map fst cs)) = ?vs"
      using step by (intro map_cong) auto
    then show ?thesis
      using on_turn_new [of t ?vs f] s False new
      by (simp add: IH c in_order_snoc step [unfolded c])
  qed
qed

lemma turns_by_event_eq:
  "build_turn_views es =
     map (fold_of_turn (changes_of_turns None es)) (in_order_of_first (map fst (changes_of_turns None es)))"
  unfolding build_turn_views_def fold_turn_view_step
  by (rule fold_on_turn) (rule changes_keep_id)


section \<open>Well-formed views\<close>

text \<open>The invocations that a turn lists.\<close>

fun invocation_of_item :: "thread_item \<Rightarrow> string option" where
  "invocation_of_item (TiToolInvocation v) = Some (iv_invocation_id v)"
| "invocation_of_item _ = None"

definition invocations :: "thread_item list \<Rightarrow> string list" where
  "invocations items = List.map_filter invocation_of_item items"

definition turn_view_ok :: "turn_view \<Rightarrow> bool" where
  "turn_view_ok v \<longleftrightarrow> distinct (invocations (vw_items v))"

lemma invocations_simps [simp]:
  "invocations [] = []"
  "invocations (xs @ ys) = invocations xs @ invocations ys"
  "invocations (x # xs) = (case invocation_of_item x of None \<Rightarrow> [] | Some i \<Rightarrow> [i]) @ invocations xs"
  by (simp_all add: invocations_def map_filter_def split: option.split)

lemma invocations_update:
  "invocation_of_item y = invocation_of_item (xs ! k) \<Longrightarrow> invocations (xs[k := y]) = invocations xs"
  by (induction xs arbitrary: k) (auto split: nat.split)

lemma invocations_map:
  "(\<And>x. invocation_of_item (f x) = invocation_of_item x) \<Longrightarrow> invocations (map f xs) = invocations xs"
  by (induction xs) simp_all

lemma invocation_map_invocation:
  "(\<And>v. iv_invocation_id (f v) = iv_invocation_id v) \<Longrightarrow>
   invocation_of_item (map_invocation f x) = invocation_of_item x"
  by (cases x) simp_all

lemma invocation_listed: "list_ex (is_invocation i) items \<longleftrightarrow> i \<in> set (invocations items)"
proof (induction items)
  case (Cons x xs)
  then show ?case by (cases x) auto
qed simp

lemma invocations_on_invocation:
  assumes "\<And>v. iv_invocation_id (f v) = iv_invocation_id v"
  shows "invocations (on_invocation i f items) =
    (if i \<in> set (invocations items) then invocations items else invocations items @ [i])"
proof -
  have "invocation_of_item (map_invocation f x) = invocation_of_item x" for x
    by (rule invocation_map_invocation) (rule assms)
  then show ?thesis
    by (simp add: on_invocation_def ensure_tool_invocation_item_def invocation_listed
      invocations_update assms) (simp add: new_invocation_item_def)
qed

lemma ok_invocation_event:
  "distinct (invocations items) \<Longrightarrow> distinct (invocations (apply_tool_invocation_event kind items))"
  by (cases kind) (simp_all add: apply_tool_invocation_event_def invocations_on_invocation)

lemma event_item_no_invocation:
  "thread_item_from_event e = Some x \<Longrightarrow> invocation_of_item x = None"
  by (cases "ev_kind e") (auto simp: thread_item_from_event_def)

lemma ok_changes [simp]:
  "turn_view_ok (push_item e v) = turn_view_ok v"
  "turn_view_ok (set_turn_status st v) = turn_view_ok v"
  "turn_view_ok (on_items (apply_approval_decision_to_tool_invocation a d) v) = turn_view_ok v"
  "turn_view_ok (on_items (apply_user_input_resolved_to_tool_invocation r) v) = turn_view_ok v"
  by (auto simp: turn_view_ok_def push_item_def set_turn_status_def on_items_def
    apply_approval_decision_to_tool_invocation_def apply_user_input_resolved_to_tool_invocation_def
    invocations_map invocation_map_invocation event_item_no_invocation split: option.split)

lemma ok_change_of_turn: "turn_view_ok v \<Longrightarrow> turn_view_ok (change_of_turn current e v)"
proof -
  have "turn_view_ok (on_items (apply_tool_invocation_event kind) v)" if "turn_view_ok v" for kind
    using that by (simp add: turn_view_ok_def on_items_def ok_invocation_event)
  then show "turn_view_ok v \<Longrightarrow> turn_view_ok (change_of_turn current e v)"
    by (cases "ev_kind e") (simp_all add: change_of_turn_def)
qed

lemma ok_fold_of_turn: "turn_view_ok (fold_of_turn (changes_of_turns None es) t)"
proof -
  have "c \<in> set (changes_of_turns cur ds) \<Longrightarrow> turn_view_ok v \<Longrightarrow> turn_view_ok (snd c v)" for c v cur ds
    by (induction ds arbitrary: cur) (auto simp: ok_change_of_turn split: option.splits)
  then have "turn_view_ok v \<Longrightarrow> set ds \<subseteq> set (changes_of_turns None es) \<Longrightarrow>
      turn_view_ok (foldl (\<lambda>v c. snd c v) v ds)" for v ds
    by (induction ds arbitrary: v) (simp, metis foldl_Cons insert_subset list.set(2))
  then show ?thesis by (simp add: fold_of_turn_def new_turn_view_def turn_view_ok_def)
qed

lemma invocations_insert_at: "invocation_of_item x = None \<Longrightarrow> invocations (insert_at k x xs) = invocations xs"
  by (simp add: insert_at_def) (simp only: append_take_drop_id flip: invocations_simps(2))

lemma invocations_messages:
  "invocations (insert_user_message m items) = invocations items"
  "invocations (foldl insert_assistant_message items ms) = invocations items"
proof -
  show "invocations (insert_user_message m items) = invocations items"
    by (simp add: insert_user_message_def)
  have "invocations (insert_assistant_message items m) = invocations items" for m items
    by (simp add: insert_assistant_message_def Let_def invocations_insert_at)
  then show "invocations (foldl insert_assistant_message items ms) = invocations items"
    by (induction ms arbitrary: items) simp_all
qed

lemma ok_messages: "turn_view_ok (insert_projected_turn_messages p v) = turn_view_ok v"
  by (simp add: insert_projected_turn_messages_def turn_view_ok_def on_items_def invocations_messages
    split: option.split)

text \<open>A list of turns that is kept by every change: identifiers once, each turn well formed.\<close>

definition turns_ok :: "turn_view list \<Rightarrow> bool" where
  "turns_ok turns \<longleftrightarrow> distinct (map vw_id turns) \<and> list_all turn_view_ok turns"

lemma on_turn_ids:
  assumes "turns_ok turns" "\<And>v. vw_id (f v) = vw_id v" "\<And>v. turn_view_ok v \<Longrightarrow> turn_view_ok (f v)"
  shows "turns_ok (on_turn t f turns)" "vw_id ` set (on_turn t f turns) = insert t (vw_id ` set turns)"
    "t \<in> vw_id ` set turns \<Longrightarrow> map vw_id (on_turn t f turns) = map vw_id turns"
proof -
  have d: "distinct (map vw_id turns)" and a: "\<forall>v \<in> set turns. turn_view_ok v"
    using assms(1) by (auto simp: turns_ok_def list_all_iff)
  have new: "vw_id (f (new_turn_view t)) = t" "turn_view_ok (f (new_turn_view t))"
    using assms(2,3) by (simp_all add: new_turn_view_def turn_view_ok_def)
  have ids: "map vw_id (map (\<lambda>v. if vw_id v = t then f v else v) turns) = map vw_id turns"
    by (simp add: assms(2))
  show "turns_ok (on_turn t f turns)"
  proof (cases "t \<in> vw_id ` set turns")
    case True
    then show ?thesis
      using on_turn_known [OF d True, of f] d a assms(3)
      by (simp only: turns_ok_def ids) (auto simp: list_all_iff)
  next
    case False
    then show ?thesis
      using on_turn_new [OF False, of f] d a new by (auto simp: turns_ok_def list_all_iff)
  qed
  show "vw_id ` set (on_turn t f turns) = insert t (vw_id ` set turns)"
  proof (cases "t \<in> vw_id ` set turns")
    case True
    with on_turn_known [OF d True, of f] ids show ?thesis by (metis insert_absorb list.set_map)
  next
    case False
    with on_turn_new [OF False, of f] new show ?thesis by auto
  qed
  show "map vw_id (on_turn t f turns) = map vw_id turns" if "t \<in> vw_id ` set turns"
    using on_turn_known [OF d that, of f] ids by simp
qed

lemma ensure_turn_view_on_turn:
  "ensure_turn_view turns t = (k, vs) \<Longrightarrow> on_turn t f turns = vs[k := f (vs ! k)]"
  "ensure_turn_view turns t = (k, vs) \<Longrightarrow> k < length vs \<and> vw_id (vs ! k) = t"
proof -
  assume e: "ensure_turn_view turns t = (k, vs)"
  then show "on_turn t f turns = vs[k := f (vs ! k)]" by (simp add: on_turn_def)
  show "k < length vs \<and> vw_id (vs ! k) = t"
  proof (cases "list_ex (\<lambda>v. vw_id v = t) turns")
    case True
    have "\<not> vw_id (turns ! length (takeWhile (\<lambda>v. vw_id v \<noteq> t) turns)) \<noteq> t"
      if "length (takeWhile (\<lambda>v. vw_id v \<noteq> t) turns) < length turns"
      using nth_length_takeWhile [OF that] .
    moreover have "length (takeWhile (\<lambda>v. vw_id v \<noteq> t) turns) < length turns"
    proof (rule ccontr)
      assume "\<not> length (takeWhile (\<lambda>v. vw_id v \<noteq> t) turns) < length turns"
      then have "takeWhile (\<lambda>v. vw_id v \<noteq> t) turns = turns"
        by (metis length_takeWhile_le linorder_not_less order_antisym takeWhile_eq_take take_all)
      then have "\<forall>v \<in> set turns. vw_id v \<noteq> t" by (simp add: takeWhile_eq_all_conv)
      with True show False by (auto simp: list_ex_iff)
    qed
    ultimately show ?thesis using e True by (auto simp: ensure_turn_view_def)
  next
    case False
    with e show ?thesis by (auto simp: ensure_turn_view_def)
  qed
qed

lemma turns_ok_build: "turns_ok (build_turn_views es)"
  using fold_of_turn_id [OF changes_keep_id, of None es]
  by (simp add: turns_by_event_eq turns_ok_def comp_def list_all_iff ok_fold_of_turn)

lemma turns_ok_ensure:
  assumes "turns_ok turns"
  shows "turns_ok (foldl ensure_response_turn turns ts) \<and>
    vw_id ` set (foldl ensure_response_turn turns ts) = vw_id ` set turns \<union> set ts"
  using assms
proof (induction ts arbitrary: turns)
  case (Cons t ts)
  have keep: "vw_id (set_turn_status TuCompleted v) = vw_id v" for v by (simp add: set_turn_status_def)
  note new = on_turn_ids [OF Cons.prems keep, of t]
  have "turns_ok (ensure_response_turn turns t) \<and>
      vw_id ` set (ensure_response_turn turns t) = insert t (vw_id ` set turns)"
    using new(1,2) Cons.prems by (auto simp: ensure_response_turn_def list_ex_iff)
  with Cons.IH show ?case by auto
qed simp

lemma turns_ok_messages:
  assumes "turns_ok turns"
  shows "turns_ok (insert_response_items rs turns)"
    "vw_id ` set (insert_response_items rs turns) = vw_id ` set turns \<union>
       ri_turn_id ` {r \<in> set rs. ri_turn_id r \<noteq> fork_context_turn_id}"
proof -
  have id: "vw_id (insert_projected_turn_messages p v) = vw_id v" for p v
    by (simp add: insert_projected_turn_messages_def on_items_def)
  let ?us = "map ri_turn_id (filter (\<lambda>r. ri_turn_id r \<noteq> fork_context_turn_id) rs)"
  note e = turns_ok_ensure [OF assms, of ?us]
  show "turns_ok (insert_response_items rs turns)"
    using e by (simp add: insert_response_items_def turns_ok_def Let_def comp_def id list_all_iff ok_messages)
  show "vw_id ` set (insert_response_items rs turns) = vw_id ` set turns \<union>
       ri_turn_id ` {r \<in> set rs. ri_turn_id r \<noteq> fork_context_turn_id}"
    using e by (simp add: insert_response_items_def Let_def image_image id)
qed

text \<open>
  C22: The view of a thread is well formed: it lists every turn once, namely the turns that an event
  is shown in, those of the messages that no fork brought in, and the active one; within a turn a tool
  invocation is listed once; and the active turn is one of the listed turns, with the active status.
\<close>

theorem thread_view_well_formed:
  "let view = build_thread_view_with_selection thread status active model thinking es rs in
    distinct (map vw_id (th_turns view)) \<and>
    list_all (\<lambda>v. distinct (invocations (vw_items v))) (th_turns view) \<and>
    set (map vw_id (th_turns view)) = fst ` set (changes_of_turns None es) \<union>
      ri_turn_id ` {r \<in> set rs. ri_turn_id r \<noteq> fork_context_turn_id} \<union>
      (case active of None \<Rightarrow> {} | Some p \<Rightarrow> {tp_turn_id p}) \<and>
    (case active of None \<Rightarrow> th_active_turn view = None
     | Some p \<Rightarrow> (\<exists>v \<in> set (th_turns view). th_active_turn view = Some v \<and>
         vw_id v = tp_turn_id p \<and> vw_status v = tp_status p))"
proof -
  define view where "view = build_thread_view_with_selection thread status active model thinking es rs"
  let ?turns = "insert_response_items rs (build_turn_views es)"
  have built: "vw_id ` set (build_turn_views es) = fst ` set (changes_of_turns None es)"
    using fold_of_turn_id [OF changes_keep_id, of None es]
    by (simp add: turns_by_event_eq image_image)
  note ok = turns_ok_messages [OF turns_ok_build, of rs es]
  show ?thesis
  proof (cases active)
    case None
    with ok built show ?thesis
      by (simp add: build_thread_view_with_selection_def turns_ok_def list_all_iff turn_view_ok_def)
  next
    case (Some p)
    obtain k vs where e: "ensure_turn_view ?turns (tp_turn_id p) = (k, vs)" by force
    let ?f = "set_turn_status (tp_status p)"
    have f: "vw_id (?f v) = vw_id v" "vw_status (?f v) = tp_status p" for v
      by (simp_all add: set_turn_status_def)
    have g: "turn_view_ok v \<Longrightarrow> turn_view_ok (?f v)" for v by simp
    note on = ensure_turn_view_on_turn(1) [OF e, of ?f] ensure_turn_view_on_turn(2) [OF e]
    have turns: "th_turns view = on_turn (tp_turn_id p) ?f ?turns" "th_active_turn view = Some (?f (vs ! k))"
      using Some e on by (simp_all add: view_def build_thread_view_with_selection_def Let_def)
    have "?f (vs ! k) \<in> set (th_turns view)" using on turns by (simp add: set_update_memI)
    then show ?thesis
      using on_turn_ids(1,2) [OF ok(1) f(1) g, of "tp_turn_id p"] turns on(2) ok(2) built Some
      unfolding view_def [symmetric] Let_def
      by (auto simp: turns_ok_def list_all_iff turn_view_ok_def f)
  qed
qed

section \<open>The conversation in the view\<close>

definition message_shown :: "thread_item list \<Rightarrow> conversation_message \<Rightarrow> bool" where
  "message_shown items m \<longleftrightarrow>
     (case cm_role m of
        User \<Rightarrow> list_ex (is_user_item (cm_content m)) items
      | Assistant \<Rightarrow> assistant_message_exists items (cm_content m) \<and>
          (displayable_reasoning_content m = [] \<or>
           reasoning_item_exists items (displayable_reasoning_content m))
      | _ \<Rightarrow> True)"

lemma subseq_insert_at: "subseq xs (insert_at k x xs)"
proof -
  have "subseq (take k xs @ drop k xs) (take k xs @ x # drop k xs)"
    by (intro list_emb_append_mono list_emb_Cons) simp_all
  then show ?thesis by (simp add: insert_at_def)
qed

lemma insert_at_set [simp]: "set (insert_at k x xs) = insert x (set xs)"
  by (metis Un_insert_right append_take_drop_id insert_at_def list.simps(15) set_append)

lemma subseq_assistant: "subseq items (insert_assistant_message items m)"
  unfolding insert_assistant_message_def Let_def
  by (auto intro: subseq_insert_at subseq_order.trans [OF subseq_insert_at])

lemma subseq_assistants: "subseq items (foldl insert_assistant_message items ms)"
  by (induction ms arbitrary: items) (auto intro: subseq_order.trans [OF subseq_assistant])

lemma set_assistants: "set items \<subseteq> set (foldl insert_assistant_message items ms)"
  using subseq_assistants [of items ms] by (auto elim: list_emb_set)

lemma shown_mono: "message_shown items m \<Longrightarrow> set items \<subseteq> set items' \<Longrightarrow> message_shown items' m"
  by (cases "cm_role m")
    (auto simp: message_shown_def assistant_message_exists_def reasoning_item_exists_def list_ex_iff)

lemma assistant_shown:
  "cm_role m = Assistant \<Longrightarrow> message_shown (insert_assistant_message items m) m"
  by (auto simp: insert_assistant_message_def Let_def message_shown_def assistant_message_exists_def
    reasoning_item_exists_def list_ex_iff)

lemma assistant_settled: "cm_role m = Assistant \<Longrightarrow> message_shown items m \<Longrightarrow> insert_assistant_message items m = items"
  by (auto simp: insert_assistant_message_def Let_def message_shown_def)

lemma assistants_shown:
  "list_all (\<lambda>m. cm_role m = Assistant) ms \<Longrightarrow> list_all (message_shown (foldl insert_assistant_message items ms)) ms"
proof (induction ms arbitrary: items)
  case (Cons m ms)
  have "set (insert_assistant_message items m) \<subseteq>
      set (foldl insert_assistant_message (insert_assistant_message items m) ms)"
    by (rule set_assistants)
  with Cons assistant_shown [of m items] show ?case by (auto intro: shown_mono)
qed simp

lemma assistants_settled:
  "list_all (\<lambda>m. cm_role m = Assistant) ms \<Longrightarrow> list_all (message_shown items) ms \<Longrightarrow>
   foldl insert_assistant_message items ms = items"
  by (induction ms) (simp_all add: assistant_settled)

text \<open>What the messages of a turn are.\<close>

lemma messages_of_turn_snoc:
  "messages_of_turn (rs @ [r]) t =
     (if ri_turn_id r = t then project_message (messages_of_turn rs t) (ri_message r) else messages_of_turn rs t)"
  by (simp add: messages_of_turn_def)

lemma messages_of_turn_roles:
  "list_all (\<lambda>m. cm_role m = Assistant) (pm_assistants (messages_of_turn rs t)) \<and>
   (case pm_user (messages_of_turn rs t) of None \<Rightarrow> True | Some m \<Rightarrow> cm_role m = User)"
proof (induction rs rule: rev_induct)
  case Nil
  then show ?case by (simp add: messages_of_turn_def)
next
  case (snoc r rs)
  then show ?case by (simp add: messages_of_turn_snoc project_message_def split: message_role.split option.splits)
qed

lemma messages_of_turn_has:
  assumes "is_projectable_message (ri_message r)"
  shows "cm_role (ri_message r) = Assistant \<Longrightarrow>
      ri_message r \<in> set (pm_assistants (messages_of_turn (before @ r # after) (ri_turn_id r)))"
    and "cm_role (ri_message r) = User \<Longrightarrow>
      list_all (\<lambda>q. ri_turn_id q \<noteq> ri_turn_id r \<or> \<not> is_projectable_message (ri_message q) \<or>
        cm_role (ri_message q) \<noteq> User) after \<Longrightarrow>
      pm_user (messages_of_turn (before @ r # after) (ri_turn_id r)) = Some (ri_message r)"
proof -
  have split: "before @ r # after @ [q] = (before @ r # after) @ [q]" for q after by simp
  show "cm_role (ri_message r) = Assistant \<Longrightarrow>
      ri_message r \<in> set (pm_assistants (messages_of_turn (before @ r # after) (ri_turn_id r)))"
    using assms
    by (induction after rule: rev_induct)
      (simp_all add: messages_of_turn_snoc project_message_def messages_of_turn_snoc [of "before @ r # xs" for xs, simplified]
        split: message_role.split)
  show "cm_role (ri_message r) = User \<Longrightarrow>
      list_all (\<lambda>q. ri_turn_id q \<noteq> ri_turn_id r \<or> \<not> is_projectable_message (ri_message q) \<or>
        cm_role (ri_message q) \<noteq> User) after \<Longrightarrow>
      pm_user (messages_of_turn (before @ r # after) (ri_turn_id r)) = Some (ri_message r)"
    using assms
    by (induction after rule: rev_induct)
      (auto simp add: messages_of_turn_snoc project_message_def messages_of_turn_snoc [of "before @ r # xs" for xs, simplified]
        split: message_role.split)
qed

text \<open>After the merge, the messages of a turn are shown and its items kept.\<close>

lemma merge_shows:
  "list_all (message_shown (vw_items (insert_projected_turn_messages (messages_of_turn rs t) v)))
     (pm_assistants (messages_of_turn rs t))"
  "pm_user (messages_of_turn rs t) = Some m \<Longrightarrow>
     message_shown (vw_items (insert_projected_turn_messages (messages_of_turn rs t) v)) m"
  "subseq (vw_items v) (vw_items (insert_projected_turn_messages (messages_of_turn rs t) v))"
proof -
  let ?p = "messages_of_turn rs t"
  let ?items = "\<lambda>u. case u of None \<Rightarrow> vw_items v | Some m \<Rightarrow> insert_user_message m (vw_items v)"
  have items: "vw_items (insert_projected_turn_messages ?p v) =
      foldl insert_assistant_message (?items (pm_user ?p)) (pm_assistants ?p)"
    by (simp add: insert_projected_turn_messages_def on_items_def)
  show "list_all (message_shown (vw_items (insert_projected_turn_messages ?p v))) (pm_assistants ?p)"
    using messages_of_turn_roles [of rs t] assistants_shown by (simp add: items)
  show "message_shown (vw_items (insert_projected_turn_messages ?p v)) m" if "pm_user ?p = Some m"
  proof -
    have "cm_role m = User" using messages_of_turn_roles [of rs t] that by simp
    then have "message_shown (?items (pm_user ?p)) m"
      using that by (simp add: message_shown_def insert_user_message_def)
    then show ?thesis
      unfolding items by (rule shown_mono) (rule set_assistants)
  qed
  have "subseq (vw_items v) (?items u)" for u
    by (simp add: insert_user_message_def list_emb_Cons split: option.split)
  then show "subseq (vw_items v) (vw_items (insert_projected_turn_messages ?p v))"
    unfolding items by (rule subseq_order.trans) (rule subseq_assistants)
qed

lemma merge_again:
  "insert_projected_turn_messages (messages_of_turn rs t) (insert_projected_turn_messages (messages_of_turn rs t) v) =
   insert_projected_turn_messages (messages_of_turn rs t) v"
proof -
  let ?p = "messages_of_turn rs t"
  let ?w = "insert_projected_turn_messages ?p v"
  have "(case pm_user ?p of None \<Rightarrow> vw_items ?w | Some m \<Rightarrow> insert_user_message m (vw_items ?w)) = vw_items ?w"
    using merge_shows(2) [of rs t _ v] messages_of_turn_roles [of rs t]
    by (auto simp: insert_user_message_def message_shown_def split: option.split)
  with merge_shows(1) [of rs t v] messages_of_turn_roles [of rs t]
  have "on_items (\<lambda>items. foldl insert_assistant_message
      (case pm_user ?p of None \<Rightarrow> items | Some m \<Rightarrow> insert_user_message m items) (pm_assistants ?p)) ?w = ?w"
    by (simp add: on_items_def assistants_settled)
  then show ?thesis by (simp add: insert_projected_turn_messages_def)
qed

lemma ensure_response_known:
  "t \<in> vw_id ` set turns \<Longrightarrow> ensure_response_turn turns t = turns"
  by (auto simp: ensure_response_turn_def list_ex_iff)

lemma ensure_response_ids:
  "vw_id ` set (foldl ensure_response_turn turns ts) = vw_id ` set turns \<union> set ts"
proof (induction ts arbitrary: turns)
  case (Cons t ts)
  have "vw_id ` set (ensure_response_turn turns t) = insert t (vw_id ` set turns)"
  proof (cases "t \<in> vw_id ` set turns")
    case True
    then show ?thesis by (simp add: ensure_response_known insert_absorb)
  next
    case False
    then have "ensure_response_turn turns t = turns @ [set_turn_status TuCompleted (new_turn_view t)]"
      using on_turn_new [OF False] by (auto simp: ensure_response_turn_def list_ex_iff)
    then show ?thesis by (simp add: set_turn_status_def new_turn_view_def)
  qed
  with Cons show ?case by auto
qed simp

lemma ensure_response_keeps: "set turns \<subseteq> set (foldl ensure_response_turn turns ts)"
proof (induction ts arbitrary: turns)
  case (Cons t ts)
  have "set turns \<subseteq> set (ensure_response_turn turns t)"
    using on_turn_new [of t turns "set_turn_status TuCompleted"]
    by (cases "t \<in> vw_id ` set turns") (auto simp: ensure_response_turn_def list_ex_iff)
  with Cons show ?case by (simp add: subset_trans)
qed simp

lemma ensure_response_again:
  "set ts \<subseteq> vw_id ` set turns \<Longrightarrow> foldl ensure_response_turn turns ts = turns"
  by (induction ts) (simp_all add: ensure_response_known)

text \<open>
  The messages of the rollout are merged into the turns of the events once: merging them again
  changes nothing, however often the view is rebuilt from its own turns.
\<close>

theorem merge_idempotent:
  "insert_response_items rs (insert_response_items rs turns) = insert_response_items rs turns"
proof -
  let ?rs = "filter (\<lambda>r. ri_turn_id r \<noteq> fork_context_turn_id) rs"
  let ?merge = "\<lambda>v. insert_projected_turn_messages (messages_of_turn ?rs (vw_id v)) v"
  have id: "vw_id (?merge v) = vw_id v" for v
    by (simp add: insert_projected_turn_messages_def on_items_def)
  have "vw_id ` set (insert_response_items rs turns) = vw_id ` set turns \<union> ri_turn_id ` set ?rs"
    using ensure_response_ids [of turns "map ri_turn_id ?rs"]
    by (simp add: insert_response_items_def Let_def image_image id)
  then have "insert_response_items rs (insert_response_items rs turns) = map ?merge (insert_response_items rs turns)"
    by (simp add: insert_response_items_def [of rs "insert_response_items rs turns"] Let_def ensure_response_again)
  also have "\<dots> = insert_response_items rs turns"
    by (simp add: insert_response_items_def Let_def id merge_again)
  finally show ?thesis .
qed

text \<open>
  C23: The view shows the conversation: a message of the model in a turn is shown in that turn with
  its text and its reasoning, so is the last message of the user, and the items that the events put
  into the turn are all still there, in their order.
\<close>

theorem conversation_is_shown:
  assumes "rs = before @ r # after" "ri_turn_id r \<noteq> fork_context_turn_id"
    and "is_projectable_message (ri_message r)"
    and "cm_role (ri_message r) = User \<Longrightarrow>
      list_all (\<lambda>q. ri_turn_id q \<noteq> ri_turn_id r \<or> \<not> is_projectable_message (ri_message q) \<or>
        cm_role (ri_message q) \<noteq> User) after"
  shows "\<exists>v \<in> set (th_turns (build_thread_view_with_selection thread status active model thinking es rs)).
    vw_id v = ri_turn_id r \<and> message_shown (vw_items v) (ri_message r) \<and>
    subseq (vw_items (fold_of_turn (changes_of_turns None es) (ri_turn_id r))) (vw_items v)"
proof -
  let ?t = "ri_turn_id r" and ?fork = "\<lambda>r. ri_turn_id r \<noteq> fork_context_turn_id"
  let ?rs = "filter ?fork before @ r # filter ?fork after"
  let ?turns = "foldl ensure_response_turn (build_turn_views es) (map ri_turn_id ?rs)"
  let ?merge = "\<lambda>v. insert_projected_turn_messages (messages_of_turn ?rs (vw_id v)) v"
  have rs: "filter ?fork rs = ?rs" using assms by simp
  have "?t \<in> vw_id ` set ?turns" unfolding ensure_response_ids by simp
  then obtain v where v: "v \<in> set ?turns" "vw_id v = ?t" by force
  have last: "list_all (\<lambda>q. ri_turn_id q \<noteq> ?t \<or> \<not> is_projectable_message (ri_message q) \<or>
        cm_role (ri_message q) \<noteq> User) (filter ?fork after)" if "cm_role (ri_message r) = User"
    using assms(4) [OF that] by (auto simp: list_all_iff)
  have shown: "message_shown (vw_items (?merge v)) (ri_message r)" unfolding v(2)
  proof (cases "cm_role (ri_message r)")
    case User
    then show "message_shown (vw_items (insert_projected_turn_messages (messages_of_turn ?rs ?t) v)) (ri_message r)"
      by (intro merge_shows(2) messages_of_turn_has(2) [OF assms(3)] last) auto
  next
    case Assistant
    from messages_of_turn_has(1) [OF assms(3) this, of "filter ?fork before" "filter ?fork after"]
      merge_shows(1) [of ?rs ?t v]
    show "message_shown (vw_items (insert_projected_turn_messages (messages_of_turn ?rs ?t) v)) (ri_message r)"
      unfolding list_all_iff by blast
  qed (simp_all add: message_shown_def)
  have "subseq (vw_items (fold_of_turn (changes_of_turns None es) ?t)) (vw_items v)"
  proof (cases "?t \<in> fst ` set (changes_of_turns None es)")
    case True
    then have w: "fold_of_turn (changes_of_turns None es) ?t \<in> set ?turns"
      using ensure_response_keeps [of "build_turn_views es" "map ri_turn_id ?rs"]
      by (auto simp: turns_by_event_eq)
    have "distinct (map vw_id ?turns)"
      using turns_ok_ensure [OF turns_ok_build, of es "map ri_turn_id ?rs"] unfolding turns_ok_def by blast
    then have "fold_of_turn (changes_of_turns None es) ?t = v"
      using w v fold_of_turn_id [OF changes_keep_id, of None es ?t] by (metis distinct_map inj_onD)
    then show ?thesis by simp
  next
    case False
    then have "filter (\<lambda>c. fst c = ?t) (changes_of_turns None es) = []" by (force simp: filter_empty_conv)
    then show ?thesis by (simp add: fold_of_turn_def new_turn_view_def)
  qed
  then have items: "subseq (vw_items (fold_of_turn (changes_of_turns None es) ?t)) (vw_items (?merge v))"
    by (rule subseq_order.trans) (rule merge_shows(3))
  let ?merged = "insert_response_items rs (build_turn_views es)"
  have eq: "?merged = map ?merge ?turns" by (simp only: insert_response_items_def rs Let_def)
  have "?merge v \<in> set ?merged" unfolding eq set_map by (rule imageI) (rule v(1))
  moreover have "vw_id (?merge v) = ?t"
    using v(2) by (simp add: insert_projected_turn_messages_def on_items_def)
  moreover note turns_ok_messages(1) [OF turns_ok_build, of rs es]
  ultimately have merged: "?merge v \<in> set ?merged" "turns_ok ?merged" "vw_id (?merge v) = ?t" by blast+
  obtain w where "w \<in> set (th_turns (build_thread_view_with_selection thread status active model thinking es rs))"
    "vw_id w = ?t" "vw_items w = vw_items (?merge v)"
  proof (cases active)
    case None
    with that [of "?merge v"] merged show thesis by (simp add: build_thread_view_with_selection_def)
  next
    case (Some p)
    obtain k vs where e: "ensure_turn_view ?merged (tp_turn_id p) = (k, vs)" by force
    let ?f = "set_turn_status (tp_status p)"
    have turns: "th_turns (build_thread_view_with_selection thread status active model thinking es rs) =
        on_turn (tp_turn_id p) ?f ?merged"
      using Some e ensure_turn_view_on_turn(1) [OF e, of ?f]
      by (simp add: build_thread_view_with_selection_def Let_def)
    have "\<exists>w \<in> set (on_turn (tp_turn_id p) ?f ?merged). w = ?merge v \<or> w = ?f (?merge v)"
      using merged(1,2) on_turn_known [of ?merged "tp_turn_id p" ?f] on_turn_new [of "tp_turn_id p" ?merged ?f]
      by (cases "tp_turn_id p \<in> vw_id ` set ?merged") (auto simp: turns_ok_def)
    with that merged turns show thesis by (force simp: set_turn_status_def)
  qed
  with shown items show ?thesis by metis
qed

theorem conversation_is_shown_witness:
  "\<exists>v \<in> set (th_turns (build_thread_view_with_selection ''t'' TsIdle None None None []
      [\<lparr>ri_turn_id = ''turn_1'', ri_message = msg_user ''hi''\<rparr>])).
    vw_id v = ''turn_1'' \<and> list_ex (is_user_item ''hi'') (vw_items v)"
proof -
  let ?r = "\<lparr>ri_turn_id = ''turn_1'', ri_message = msg_user ''hi''\<rparr>"
  have "is_projectable_message (ri_message ?r)" "ri_turn_id ?r \<noteq> fork_context_turn_id"
    by (simp_all add: is_projectable_message_def msg_user_def trim_def fork_context_turn_id_def) code_simp
  from conversation_is_shown [OF _ this(2,1), of "[?r]" "[]" "[]" "''t''" TsIdle None None None "[]"]
  show ?thesis by (simp add: message_shown_def msg_user_def) blast
qed

section \<open>A decision after a failed turn\<close>

text \<open>
  A turn asks for an approval and completes; the next turn fails; then the approval is given, the
  tool runs, and its events carry the first turn.
\<close>

definition approval_after ::
  "runtime_event_kind \<Rightarrow> event_id \<Rightarrow> thread_id \<Rightarrow> string \<Rightarrow> string \<Rightarrow> string \<Rightarrow> runtime_event list" where
  "approval_after ending i thread invocation call tool =
     (let ev = (\<lambda>t k. \<lparr>ev_event_id = i, ev_thread_id = thread, ev_turn_id = Some t, ev_kind = k\<rparr>)
      in [ev ''turn_1'' EkTurnStarted,
          ev ''turn_1'' (EkToolInvocationWaitingApproval invocation ''a'' ''reason''),
          ev ''turn_1'' EkTurnCompleted,
          ev ''turn_2'' EkTurnStarted,
          ev ''turn_2'' ending,
          ev ''turn_1'' (EkApprovalDecision ''a'' ApprovalApproved None),
          ev ''turn_1'' (EkToolInvocationCompleted invocation call tool ToolSuccess)])"

definition invocation_states :: "turn_view \<Rightarrow> turn_id \<times> (string \<times> string) list" where
  "invocation_states v = (vw_id v, List.map_filter (\<lambda>x. case x of
     TiToolInvocation i \<Rightarrow> Some (iv_invocation_id i, iv_status i) | _ \<Rightarrow> None) (vw_items v))"

text \<open>
  The view misplaces what happens after a failed turn: the failed turn stays the current one, so
  the decision on an earlier approval and the run of its tool are shown in the failed turn, as a
  second entry of the same invocation, while the turn that asked goes on waiting. Had the turn
  completed, the entry of the first turn would have been updated.
\<close>

theorem late_decision_is_misplaced:
  "map invocation_states (build_turn_views (approval_after (EkRuntimeError m) i thread invocation call tool)) =
     [(''turn_1'', [(invocation, ''waiting_approval'')]), (''turn_2'', [(invocation, ''completed'')])]"
  "map invocation_states (build_turn_views (approval_after EkTurnCompleted i thread invocation call tool)) =
     [(''turn_1'', [(invocation, ''completed'')]), (''turn_2'', [])]"
  by (simp_all add: approval_after_def build_turn_views_def turn_view_step_def end_turn_view_def on_turn_def
    ensure_turn_view_def view_turn_id_def set_turn_status_def push_item_def on_items_def
    thread_item_from_event_def apply_tool_invocation_event_def on_invocation_def
    ensure_tool_invocation_item_def new_invocation_item_def
    apply_approval_decision_to_tool_invocation_def approval_status_name_def invocation_states_def
    map_filter_def)

end
