(* ===== verification/Workspace.thy ===== *)
theory Workspace
  imports Prelude
begin

text \<open>
  Paths inside a workspace (\<^verbatim>\<open>src/workspace.rs\<close>): the components of a path, its lexical
  normalisation, and the resolution of a requested path below the roots that may be read. What the
  file system answers is a record of functions. Only paths with a root directory and no drive prefix
  are modelled.
\<close>

section \<open>Paths\<close>

datatype path_component = CRoot | CCur | CParent | CNormal string

type_synonym path = "path_component list"

function split_on :: "char \<Rightarrow> string \<Rightarrow> string list" where
  "split_on c s =
     (case dropWhile (\<lambda>x. x \<noteq> c) s of
        [] \<Rightarrow> [s] | _ # rest \<Rightarrow> takeWhile (\<lambda>x. x \<noteq> c) s # split_on c rest)"
  by pat_completeness auto
termination
proof (relation "measure (length \<circ> snd)", simp)
  fix c :: char and s x rest
  assume "dropWhile (\<lambda>x. x \<noteq> c) s = x # rest"
  then have "length (x # rest) \<le> length s" by (metis length_dropWhile_le)
  then show "((c, rest), c, s) \<in> measure (length \<circ> snd)" by simp
qed

declare split_on.simps [simp del]

text \<open>The components of a text: repeated separators and inner dots are skipped.\<close>

definition path_of :: "string \<Rightarrow> path" where
  "path_of s =
     (let segs = split_on CHR ''/'' s in
      (if starts_with s ''/'' then [CRoot] else if hd segs = ''.'' then [CCur] else []) @
      map (\<lambda>x. if x = ''..'' then CParent else CNormal x) (filter (\<lambda>x. x \<noteq> [] \<and> x \<noteq> ''.'') segs))"

definition is_absolute :: "path \<Rightarrow> bool" where
  "is_absolute p \<longleftrightarrow> (case p of CRoot # _ \<Rightarrow> True | _ \<Rightarrow> False)"

definition path_join :: "path \<Rightarrow> path \<Rightarrow> path" where
  "path_join p q = (if is_absolute q then q else if p = [] then q else p @ filter (\<lambda>c. c \<noteq> CCur) q)"

definition path_parent :: "path \<Rightarrow> path option" where
  "path_parent p = (if p = [] \<or> last p = CRoot then None else Some (butlast p))"

definition path_file_name :: "path \<Rightarrow> string option" where
  "path_file_name p = (if p = [] then None else case last p of CNormal x \<Rightarrow> Some x | _ \<Rightarrow> None)"

definition show_path :: "path \<Rightarrow> string" where
  "show_path p =
     (let name = (\<lambda>c. case c of CRoot \<Rightarrow> [] | CCur \<Rightarrow> ''.'' | CParent \<Rightarrow> ''..'' | CNormal x \<Rightarrow> x)
      in if p = [CRoot] then ''/'' else join ''/'' (map name p))"

text \<open>The normalisation works on the components only.\<close>

fun normalize_onto :: "path \<Rightarrow> path \<Rightarrow> path option" where
  "normalize_onto acc [] = Some acc"
| "normalize_onto acc (CRoot # cs) = normalize_onto [CRoot] cs"
| "normalize_onto acc (CCur # cs) = normalize_onto acc cs"
| "normalize_onto acc (CNormal x # cs) = normalize_onto (acc @ [CNormal x]) cs"
| "normalize_onto acc (CParent # cs) =
     (case path_parent acc of
        Some p \<Rightarrow> normalize_onto p cs
      | None \<Rightarrow> if is_absolute acc then normalize_onto acc cs else None)"

definition normalize_path :: "path \<Rightarrow> path option" where
  "normalize_path p = normalize_onto [] p"

section \<open>The file system\<close>

datatype lstat = StatOk | StatNotFound | StatError string

record fs_view =
  fv_canonicalize :: "path \<Rightarrow> string + path"
  fv_lstat :: "path \<Rightarrow> lstat"

text \<open>
  The nearest existing ancestor is canonicalised, and the missing components are put back. The
  messages differ between the callers: of a failing canonicalisation, a failing query, and a path
  without an existing ancestor.
\<close>

function canonical_ancestor ::
  "fs_view \<Rightarrow> (string \<Rightarrow> 'e) \<Rightarrow> (string \<Rightarrow> 'e) \<Rightarrow> 'e \<Rightarrow> path \<Rightarrow> path \<Rightarrow> 'e + path" where
  "canonical_ancestor F canon_err stat_err no_parent existing missing =
     (case fv_lstat F existing of
        StatOk \<Rightarrow> (case fv_canonicalize F existing of
            Inl e \<Rightarrow> Inl (canon_err e) | Inr c \<Rightarrow> Inr (c @ missing))
      | StatNotFound \<Rightarrow>
          (case (path_file_name existing, path_parent existing) of
             (Some n, Some p) \<Rightarrow>
               canonical_ancestor F canon_err stat_err no_parent p (CNormal n # missing)
           | _ \<Rightarrow> Inl no_parent)
      | StatError e \<Rightarrow> Inl (stat_err e))"
  by pat_completeness auto
termination
  by (relation "measure (\<lambda>(_, _, _, _, existing, _). length existing)")
    (auto simp: path_parent_def split: if_splits)

declare canonical_ancestor.simps [simp del]

definition canonicalize_existing_or_missing :: "fs_view \<Rightarrow> path \<Rightarrow> error + path" where
  "canonicalize_existing_or_missing F p =
     (let gone = Anyhow (''path does not exist or is not accessible: '' @ show_path p)
      in canonical_ancestor F (\<lambda>_. gone) (\<lambda>_. gone)
           (Anyhow (''path does not have an existing parent: '' @ show_path p)) p [])"

section \<open>Resolution\<close>

record resolved_workspace_path =
  rw_requested_path :: path
  rw_normalized_path :: path
  rw_canonical_path :: path
  rw_was_absolute :: bool

definition canonical_read_roots :: "fs_view \<Rightarrow> path \<Rightarrow> path list \<Rightarrow> error + path list" where
  "canonical_read_roots F root extra =
     (case fv_canonicalize F root of
        Inl _ \<Rightarrow> Inl (Anyhow (''workspace_root does not exist or is not accessible: '' @ show_path root))
      | Inr r \<Rightarrow> Inr (r # List.map_filter
          (\<lambda>p. case fv_canonicalize F p of Inl _ \<Rightarrow> None | Inr c \<Rightarrow> Some c) extra))"

definition path_stays_within_roots :: "path \<Rightarrow> path list \<Rightarrow> bool" where
  "path_stays_within_roots p roots \<longleftrightarrow> list_ex (\<lambda>r. prefix r p) roots"

definition resolve_readable_path ::
  "fs_view \<Rightarrow> path \<Rightarrow> path list \<Rightarrow> string \<Rightarrow> error + resolved_workspace_path" where
  "resolve_readable_path F root0 extra raw =
     bind_res (canonical_read_roots F root0 extra) (\<lambda>roots.
       let root = hd roots;
           requested = path_of raw;
           was_absolute = is_absolute requested;
           candidate = (if was_absolute then requested else path_join root requested)
       in case normalize_path candidate of
            None \<Rightarrow> Inl (Anyhow ''Path escapes workspace'')
          | Some normalized \<Rightarrow>
              bind_res (canonicalize_existing_or_missing F normalized) (\<lambda>canonical.
                if \<not> path_stays_within_roots canonical roots
                then Inl (Anyhow ''Path must stay within workspace_root'')
                else Inr \<lparr>rw_requested_path = requested, rw_normalized_path = normalized,
                          rw_canonical_path = canonical, rw_was_absolute = was_absolute\<rparr>))"

definition resolve_workspace_path :: "fs_view \<Rightarrow> path \<Rightarrow> string \<Rightarrow> error + resolved_workspace_path" where
  "resolve_workspace_path F root raw = resolve_readable_path F root [] raw"

text \<open>The working directory of a command must exist; its root is compared as it is given.\<close>

definition canonicalize_from_root :: "fs_view \<Rightarrow> path \<Rightarrow> string \<Rightarrow> error + path" where
  "canonicalize_from_root F root raw =
     (let p = path_of raw; candidate = (if is_absolute p then p else path_join root p)
      in case fv_canonicalize F candidate of
           Inl _ \<Rightarrow> Inl (Anyhow (''cwd does not exist or is not accessible: '' @ show_path candidate))
         | Inr c \<Rightarrow> if prefix root c then Inr c else Inl (Anyhow ''cwd must stay within workspace_root''))"

section \<open>Normal paths\<close>

fun is_normal_component :: "path_component \<Rightarrow> bool" where
  "is_normal_component (CNormal _) = True"
| "is_normal_component _ = False"

definition absolute_normal :: "path \<Rightarrow> bool" where
  "absolute_normal p \<longleftrightarrow> (\<exists>cs. p = CRoot # cs \<and> list_all is_normal_component cs)"

lemma absolute_normal_snoc: "absolute_normal acc \<Longrightarrow> absolute_normal (acc @ [CNormal x])"
  by (auto simp: absolute_normal_def)

lemma absolute_normal_parent:
  "absolute_normal acc \<Longrightarrow> path_parent acc = Some p \<Longrightarrow> absolute_normal p"
  by (auto simp: absolute_normal_def path_parent_def list_all_iff in_set_butlastD split: if_splits)

lemma normalize_absolute:
  "absolute_normal acc \<Longrightarrow> \<exists>q. normalize_onto acc p = Some q \<and> absolute_normal q"
proof (induction acc p rule: normalize_onto.induct)
  case (2 acc cs)
  then show ?case by (simp add: absolute_normal_def)
next
  case (5 acc cs)
  show ?case
  proof (cases "path_parent acc")
    case None
    with 5 show ?thesis by (auto simp: absolute_normal_def is_absolute_def)
  next
    case (Some p)
    with 5 absolute_normal_parent [OF 5(3) Some] show ?thesis by simp
  qed
qed (simp_all add: absolute_normal_snoc)

lemma normalize_normal:
  "list_all is_normal_component cs \<Longrightarrow> normalize_onto acc cs = Some (acc @ cs)"
  by (induction acc cs rule: normalize_onto.induct) simp_all

text \<open>The ancestor that is canonicalised is the longest existing one.\<close>

lemma canonical_ancestor_spec:
  "canonical_ancestor F ce se np existing missing = Inr c \<Longrightarrow>
     \<exists>k a. k \<le> length existing \<and> c = a @ drop k existing @ missing \<and>
       fv_lstat F (take k existing) = StatOk \<and> fv_canonicalize F (take k existing) = Inr a \<and>
       list_all is_normal_component (drop k existing) \<and>
       (\<forall>j \<le> length existing. k < j \<longrightarrow> fv_lstat F (take j existing) = StatNotFound)"
proof (induction F ce se np existing missing rule: canonical_ancestor.induct)
  case (1 F ce se np existing missing)
  show ?case
  proof (cases "fv_lstat F existing")
    case StatOk
    with 1 show ?thesis
      by (intro exI [of _ "length existing"])
        (auto simp: canonical_ancestor.simps [of F _ _ _ existing] split: sum.splits)
  next
    case StatNotFound
    then obtain n p where n: "path_file_name existing = Some n" "path_parent existing = Some p"
      and c: "canonical_ancestor F ce se np p (CNormal n # missing) = Inr c"
      using 1(2) by (auto simp: canonical_ancestor.simps [of F _ _ _ existing] split: option.splits)
    from n have e: "existing = p @ [CNormal n]"
      by (auto simp: path_file_name_def path_parent_def split: if_splits path_component.splits)
        (metis append_butlast_last_id)
    from 1(1) [OF StatNotFound _ n(1,2) c] n obtain k a where k: "k \<le> length p"
      "c = a @ drop k p @ CNormal n # missing" "fv_lstat F (take k p) = StatOk"
      "fv_canonicalize F (take k p) = Inr a" "list_all is_normal_component (drop k p)"
      "\<forall>j \<le> length p. k < j \<longrightarrow> fv_lstat F (take j p) = StatNotFound" by blast
    then show ?thesis
      using StatNotFound by (intro exI [of _ k] exI [of _ a]) (auto simp: e le_Suc_eq)
  next
    case (StatError e)
    with 1(2) show ?thesis by (simp add: canonical_ancestor.simps [of F _ _ _ existing])
  qed
qed

text \<open>
  C24: A path that may be read stays in the readable roots: its canonical form lies below a
  canonicalised root; it is the canonical form of the longest existing ancestor of the normalised
  path, followed by the components that do not exist yet, none of which leads upwards.
\<close>

theorem readable_path_confined:
  assumes "resolve_readable_path F root extra raw = Inr r"
  shows "\<exists>roots k a. canonical_read_roots F root extra = Inr roots \<and>
    path_stays_within_roots (rw_canonical_path r) roots \<and>
    normalize_path (if is_absolute (path_of raw) then path_of raw else path_join (hd roots) (path_of raw))
      = Some (rw_normalized_path r) \<and>
    rw_canonical_path r = a @ drop k (rw_normalized_path r) \<and>
    fv_canonicalize F (take k (rw_normalized_path r)) = Inr a \<and>
    list_all is_normal_component (drop k (rw_normalized_path r)) \<and>
    (\<forall>j \<le> length (rw_normalized_path r). k < j \<longrightarrow>
       fv_lstat F (take j (rw_normalized_path r)) = StatNotFound)"
proof -
  obtain roots where roots: "canonical_read_roots F root extra = Inr roots"
    using assms by (auto simp: resolve_readable_path_def bind_res_def split: sum.splits)
  with assms obtain canonical where
    n: "normalize_path (if is_absolute (path_of raw) then path_of raw else path_join (hd roots) (path_of raw))
          = Some (rw_normalized_path r)"
    and c: "canonicalize_existing_or_missing F (rw_normalized_path r) = Inr canonical"
    and w: "path_stays_within_roots canonical roots" "rw_canonical_path r = canonical"
    by (auto simp: resolve_readable_path_def bind_res_def Let_def split: sum.splits option.splits if_splits)
  from canonical_ancestor_spec [OF c [unfolded canonicalize_existing_or_missing_def Let_def]]
  show ?thesis using roots n w by auto
qed

definition sample_fs :: fs_view where
  "sample_fs = \<lparr>fv_canonicalize = Inr, fv_lstat = (\<lambda>p. if length p \<le> 2 then StatOk else StatNotFound)\<rparr>"

lemma sample_resolves:
  "resolve_readable_path sample_fs [CRoot, CNormal ''w''] [] ''a/../new'' =
     Inr \<lparr>rw_requested_path = [CNormal ''a'', CParent, CNormal ''new''],
          rw_normalized_path = [CRoot, CNormal ''w'', CNormal ''new''],
          rw_canonical_path = [CRoot, CNormal ''w'', CNormal ''new''], rw_was_absolute = False\<rparr>"
  by (simp add: resolve_readable_path_def canonical_read_roots_def sample_fs_def map_filter_def path_of_def
    split_on.simps starts_with_def is_absolute_def path_join_def normalize_path_def path_parent_def
    canonicalize_existing_or_missing_def canonical_ancestor.simps path_file_name_def Let_def
    path_stays_within_roots_def)

theorem readable_path_confined_witness:
  "\<exists>roots. canonical_read_roots sample_fs [CRoot, CNormal ''w''] [] = Inr roots \<and>
     path_stays_within_roots [CRoot, CNormal ''w'', CNormal ''new''] roots"
  using readable_path_confined [OF sample_resolves] by auto

end
