(* ===== verification/ApplyPatch.thy ===== *)
theory ApplyPatch
  imports Workspace ThreadSession ForgeGate
begin

text \<open>
  The patch tool (\<^verbatim>\<open>src/tools/files/apply_patch.rs\<close>): a patch is parsed, every target is
  resolved inside the workspace and the new contents are computed before anything is written, and the
  writes are undone when one of them fails. The disk is a map from resolved paths to contents;
  each access to it may fail, and a failing write may leave something behind.
\<close>

section \<open>Patches\<close>

datatype change_line = ChContext string | ChRemove string | ChAdd string

datatype file_patch =
    FpAdd string "string list"
  | FpDelete string
  | FpUpdate string "string option" "change_line list"

datatype prepared_patch =
    PpAdd string path string
  | PpDelete string path
  | PpUpdate string path string
  | PpMove string path string path string

fun changed_path :: "prepared_patch \<Rightarrow> string" where
  "changed_path (PpAdd label _ _) = label"
| "changed_path (PpDelete label _) = label"
| "changed_path (PpUpdate label _ _) = label"
| "changed_path (PpMove _ _ move_to _ _) = move_to"

section \<open>Parsing\<close>

definition is_patch_boundary :: "string \<Rightarrow> bool" where
  "is_patch_boundary l \<longleftrightarrow> l = ''*** End Patch'' \<or> starts_with l ''*** Add File: '' \<or>
     starts_with l ''*** Delete File: '' \<or> starts_with l ''*** Update File: ''"

fun parse_add_body :: "string list \<Rightarrow> string list \<Rightarrow> string + (string list \<times> string list)" where
  "parse_add_body [] body = Inr (body, [])"
| "parse_add_body (l # ls) body =
     (if is_patch_boundary l then Inr (body, l # ls)
      else case strip_prefix ''+'' l of
          None \<Rightarrow> Inl (''add file lines must start with `+`: '' @ l)
        | Some c \<Rightarrow> parse_add_body ls (body @ [c]))"

fun parse_changes :: "string list \<Rightarrow> change_line list \<Rightarrow> string + (change_line list \<times> string list)" where
  "parse_changes [] cs = Inr (cs, [])"
| "parse_changes (l # ls) cs =
     (if is_patch_boundary l then Inr (cs, l # ls)
      else if starts_with l ''@@'' then parse_changes ls cs
      else case strip_prefix ''+'' l of Some c \<Rightarrow> parse_changes ls (cs @ [ChAdd c])
      | None \<Rightarrow> (case strip_prefix ''-'' l of Some c \<Rightarrow> parse_changes ls (cs @ [ChRemove c])
      | None \<Rightarrow> (case strip_prefix '' '' l of Some c \<Rightarrow> parse_changes ls (cs @ [ChContext c])
      | None \<Rightarrow> Inl (''update lines must start with ` `, `-`, `+`, or `@@`: '' @ l))))"

definition parse_move :: "string list \<Rightarrow> string option \<times> string list" where
  "parse_move ls = (case ls of
     [] \<Rightarrow> (None, [])
   | l # rest \<Rightarrow> (case strip_prefix ''*** Move to: '' l of
       None \<Rightarrow> (None, ls) | Some d \<Rightarrow> (Some d, rest)))"

lemma parse_add_body_length: "parse_add_body ls b = Inr (b', rest) \<Longrightarrow> length rest \<le> length ls"
  by (induction ls b rule: parse_add_body.induct) (auto split: if_splits option.splits)

lemma parse_changes_length: "parse_changes ls cs = Inr (cs', rest) \<Longrightarrow> length rest \<le> length ls"
  by (induction ls cs rule: parse_changes.induct) (auto split: if_splits option.splits)

lemma parse_move_length: "length (snd (parse_move ls)) \<le> length ls"
  by (auto simp: parse_move_def split: list.split option.split)

function parse_sections :: "string list \<Rightarrow> file_patch list \<Rightarrow> string + file_patch list" where
  "parse_sections [] ps = Inl ''patch must end with `*** End Patch`''"
| "parse_sections (l # ls) ps =
     (if l = ''*** End Patch''
      then (if ls \<noteq> [] then Inl ''unexpected content after `*** End Patch`'' else Inr ps)
      else case strip_prefix ''*** Add File: '' l of
        Some p \<Rightarrow> (case parse_add_body ls [] of
            Inl e \<Rightarrow> Inl e | Inr (body, rest) \<Rightarrow> parse_sections rest (ps @ [FpAdd p body]))
      | None \<Rightarrow> (case strip_prefix ''*** Delete File: '' l of
        Some p \<Rightarrow> parse_sections ls (ps @ [FpDelete p])
      | None \<Rightarrow> (case strip_prefix ''*** Update File: '' l of
        Some p \<Rightarrow> (case parse_changes (snd (parse_move ls)) [] of
            Inl e \<Rightarrow> Inl e
          | Inr (cs, rest) \<Rightarrow> parse_sections rest (ps @ [FpUpdate p (fst (parse_move ls)) cs]))
      | None \<Rightarrow> Inl (''unsupported patch header: '' @ l))))"
  by pat_completeness auto
termination
  by (relation "measure (length \<circ> fst)")
    (auto dest!: parse_add_body_length parse_changes_length simp: le_imp_less_Suc
      intro: le_less_trans [OF _ le_imp_less_Suc] order_trans [OF _ parse_move_length])

definition parse_patch :: "string \<Rightarrow> string + file_patch list" where
  "parse_patch patch =
     (case text_lines patch of
        l # ls \<Rightarrow> if l = ''*** Begin Patch'' then parse_sections ls []
                 else Inl ''patch must start with `*** Begin Patch`''
      | [] \<Rightarrow> Inl ''patch must start with `*** Begin Patch`'')"

section \<open>Changing the lines of a file\<close>

definition find_line :: "string list \<Rightarrow> nat \<Rightarrow> string \<Rightarrow> nat option" where
  "find_line ls start expected =
     (if expected \<in> set (drop start ls)
      then Some (start + length (takeWhile (\<lambda>l. l \<noteq> expected) (drop start ls))) else None)"

definition ends_with_newline :: "string \<Rightarrow> bool" where
  "ends_with_newline s \<longleftrightarrow> s \<noteq> [] \<and> last s = CHR 0x0A"

definition lines_to_file_with_trailing :: "string list \<Rightarrow> bool \<Rightarrow> string" where
  "lines_to_file_with_trailing ls trailing =
     (if ls = [] then [] else join nl ls @ (if trailing then nl else []))"

definition lines_to_file :: "string list \<Rightarrow> string" where
  "lines_to_file ls = lines_to_file_with_trailing ls True"

text \<open>The lines up to the one that is looked for are copied; \<open>cursor\<close> is the next line to copy.\<close>

fun change_lines ::
  "string list \<Rightarrow> change_line list \<Rightarrow> string list \<Rightarrow> nat \<Rightarrow> string + string list" where
  "change_lines original [] out cursor = Inr (out @ drop cursor original)"
| "change_lines original (ChAdd l # cs) out cursor = change_lines original cs (out @ [l]) cursor"
| "change_lines original (ChContext l # cs) out cursor =
     (case find_line original cursor l of
        None \<Rightarrow> Inl (''context line not found after line '' @ show_nat (cursor + 1) @ '': '' @ l)
      | Some i \<Rightarrow> change_lines original cs
          (out @ take (i - cursor) (drop cursor original) @ [original ! i]) (i + 1))"
| "change_lines original (ChRemove l # cs) out cursor =
     (case find_line original cursor l of
        None \<Rightarrow> Inl (''remove line not found after line '' @ show_nat (cursor + 1) @ '': '' @ l)
      | Some i \<Rightarrow> change_lines original cs (out @ take (i - cursor) (drop cursor original)) (i + 1))"

definition apply_change_lines :: "string \<Rightarrow> change_line list \<Rightarrow> string + string" where
  "apply_change_lines body cs =
     (case change_lines (text_lines body) cs [] 0 of
        Inl e \<Rightarrow> Inl e
      | Inr ls \<Rightarrow> Inr (lines_to_file_with_trailing ls (ends_with_newline body)))"

section \<open>Preparing\<close>

record patch_fs = fs_view +
  pf_exists :: "path \<Rightarrow> string + bool"
  pf_read_to_string :: "path \<Rightarrow> string + string"

definition resolve_patch_path :: "patch_fs \<Rightarrow> path \<Rightarrow> string \<Rightarrow> bool \<Rightarrow> string + path" where
  "resolve_patch_path F workspace_root raw must_exist =
     bind_res (fv_canonicalize F workspace_root) (\<lambda>root.
       let p = path_of raw;
           candidate = (if is_absolute p then p else path_join root p)
       in case normalize_path candidate of
            None \<Rightarrow> Inl ''Path escapes workspace''
          | Some normalized \<Rightarrow>
              bind_res
                (if must_exist then fv_canonicalize F normalized
                 else canonical_ancestor (fs_view.truncate F)
                   (\<lambda>e. ''path does not exist or is not accessible: '' @ e) (\<lambda>e. e)
                   (''path does not have an existing parent: '' @ show_path normalized) normalized [])
                (\<lambda>resolved. if \<not> prefix root resolved then Inl ''Path must stay within workspace_root''
                            else Inr resolved))"

definition reserve_mutation :: "path \<Rightarrow> string \<Rightarrow> path set \<Rightarrow> string + path set" where
  "reserve_mutation target label planned =
     (if target \<in> planned then Inl (''Path is modified more than once in patch: '' @ label)
      else Inr (insert target planned))"

definition prepare_patch ::
  "patch_fs \<Rightarrow> path \<Rightarrow> path set \<Rightarrow> file_patch \<Rightarrow> string + (prepared_patch \<times> path set)" where
  "prepare_patch F root planned fp =
     (case fp of
        FpAdd label ls \<Rightarrow>
          bind_res (resolve_patch_path F root label False) (\<lambda>target.
          bind_res (pf_exists F target) (\<lambda>there.
            if there then Inl (''Add file already exists: '' @ label)
            else bind_res (reserve_mutation target label planned) (\<lambda>planned1.
              Inr (PpAdd label target (lines_to_file ls), planned1))))
      | FpDelete label \<Rightarrow>
          bind_res (resolve_patch_path F root label True) (\<lambda>target.
          bind_res (reserve_mutation target label planned) (\<lambda>planned1.
            Inr (PpDelete label target, planned1)))
      | FpUpdate label move cs \<Rightarrow>
          bind_res (resolve_patch_path F root label True) (\<lambda>source.
          bind_res (pf_read_to_string F source) (\<lambda>body.
          bind_res (apply_change_lines body cs) (\<lambda>updated.
            case move of
              Some move_to \<Rightarrow>
                bind_res (resolve_patch_path F root move_to False) (\<lambda>destination.
                bind_res (if destination \<noteq> source then pf_exists F destination else Inr False) (\<lambda>there.
                  if there then Inl (''Move target already exists: '' @ move_to)
                  else bind_res (reserve_mutation source label planned) (\<lambda>planned1.
                    bind_res (if destination \<noteq> source then reserve_mutation destination move_to planned1
                              else Inr planned1) (\<lambda>planned2.
                      Inr (PpMove label source move_to destination updated, planned2)))))
            | None \<Rightarrow>
                bind_res (reserve_mutation source label planned) (\<lambda>planned1.
                  Inr (PpUpdate label source updated, planned1))))))"

fun prepare_patches ::
  "patch_fs \<Rightarrow> path \<Rightarrow> path set \<Rightarrow> file_patch list \<Rightarrow> string + prepared_patch list" where
  "prepare_patches F root planned [] = Inr []"
| "prepare_patches F root planned (fp # fps) =
     bind_res (prepare_patch F root planned fp) (\<lambda>(pp, planned1).
     bind_res (prepare_patches F root planned1 fps) (\<lambda>pps. Inr (pp # pps)))"

section \<open>The disk\<close>

text \<open>
  A fault has a message and may leave a file with some content behind. Accesses are counted, and the
  faults are those of the counted accesses.
\<close>

datatype io_fault = IoFault string "string option"

record disk =
  dk_files :: "path \<rightharpoonup> string"
  dk_step :: nat

type_synonym faults = "nat \<Rightarrow> io_fault option"

definition tick :: "disk \<Rightarrow> disk" where
  "tick d = d\<lparr>dk_step := Suc (dk_step d)\<rparr>"

definition io_query :: "faults \<Rightarrow> (disk \<Rightarrow> 'a) \<Rightarrow> disk \<Rightarrow> (string + 'a) \<times> disk" where
  "io_query flt f d = (case flt (dk_step d) of
     Some (IoFault m _) \<Rightarrow> (Inl m, tick d) | None \<Rightarrow> (Inr (f d), tick d))"

definition io_write :: "faults \<Rightarrow> path \<Rightarrow> string \<Rightarrow> disk \<Rightarrow> (string + unit) \<times> disk" where
  "io_write flt p c d = (case flt (dk_step d) of
     None \<Rightarrow> (Inr (), tick (d\<lparr>dk_files := (dk_files d)(p \<mapsto> c)\<rparr>))
   | Some (IoFault m left) \<Rightarrow> (Inl m, tick (case left of None \<Rightarrow> d
       | Some x \<Rightarrow> d\<lparr>dk_files := (dk_files d)(p \<mapsto> x)\<rparr>)))"

definition io_remove :: "faults \<Rightarrow> path \<Rightarrow> disk \<Rightarrow> (string + unit) \<times> disk" where
  "io_remove flt p d = (case flt (dk_step d) of
     Some (IoFault m _) \<Rightarrow> (Inl m, tick d)
   | None \<Rightarrow> if dk_files d p = None then (Inl ''No such file or directory (os error 2)'', tick d)
             else (Inr (), tick (d\<lparr>dk_files := (dk_files d)(p := None)\<rparr>)))"

text \<open>Steps in a row, until one fails.\<close>

definition io_then ::
  "('s \<Rightarrow> (string + 'a) \<times> 's) \<Rightarrow> ('a \<Rightarrow> 's \<Rightarrow> (string + 'b) \<times> 's) \<Rightarrow> 's \<Rightarrow> (string + 'b) \<times> 's" where
  "io_then m f s = (case m s of (Inl e, s1) \<Rightarrow> (Inl e, s1) | (Inr x, s1) \<Rightarrow> f x s1)"

definition io_done :: "'s \<Rightarrow> (string + unit) \<times> 's" where
  "io_done s = (Inr (), s)"

definition create_parent :: "faults \<Rightarrow> path \<Rightarrow> disk \<Rightarrow> (string + unit) \<times> disk" where
  "create_parent flt p = (case path_parent p of None \<Rightarrow> io_done | Some _ \<Rightarrow> io_query flt (\<lambda>_. ()))"

definition write_file :: "faults \<Rightarrow> path \<Rightarrow> string \<Rightarrow> disk \<Rightarrow> (string + unit) \<times> disk" where
  "write_file flt p c = io_then (create_parent flt p) (\<lambda>_. io_write flt p c)"

section \<open>Committing\<close>

record rollback_log =
  rb_snapshots :: "(path \<times> string option) list"
  rb_seen :: "path set"

definition capture :: "faults \<Rightarrow> path \<Rightarrow> rollback_log \<times> disk \<Rightarrow> (string + unit) \<times> rollback_log \<times> disk" where
  "capture flt p s = (case s of (log, d) \<Rightarrow>
     if p \<in> rb_seen log then (Inr (), log, d)
     else
       let log1 = log\<lparr>rb_seen := insert p (rb_seen log)\<rparr>
       in case io_query flt (\<lambda>d. dk_files d p) d of
            (Inl e, d1) \<Rightarrow> (Inl e, log1, d1)
          | (Inr c, d1) \<Rightarrow> (Inr (), log1\<lparr>rb_snapshots := rb_snapshots log1 @ [(p, c)]\<rparr>, d1))"

definition on_disk :: "(disk \<Rightarrow> (string + 'a) \<times> disk) \<Rightarrow> rollback_log \<times> disk \<Rightarrow> (string + 'a) \<times> rollback_log \<times> disk"
  where
  "on_disk f s = (case s of (log, d) \<Rightarrow> case f d of (r, d1) \<Rightarrow> (r, log, d1))"

definition restore_snapshot :: "faults \<Rightarrow> path \<times> string option \<Rightarrow> disk \<Rightarrow> (string + unit) \<times> disk" where
  "restore_snapshot flt snapshot = (case snapshot of (p, content) \<Rightarrow>
     (case content of
        Some c \<Rightarrow> io_then (create_parent flt p) (\<lambda>_. io_write flt p c)
      | None \<Rightarrow> io_then (io_query flt (\<lambda>d. dk_files d p \<noteq> None))
          (\<lambda>there. if there then io_remove flt p else io_done)))"

fun restore_all :: "faults \<Rightarrow> (path \<times> string option) list \<Rightarrow> disk \<Rightarrow> (string + unit) \<times> disk" where
  "restore_all flt [] d = (Inr (), d)"
| "restore_all flt (x # xs) d = io_then (restore_snapshot flt x) (\<lambda>_. restore_all flt xs) d"

definition rollback :: "faults \<Rightarrow> rollback_log \<Rightarrow> disk \<Rightarrow> (string + unit) \<times> disk" where
  "rollback flt log = restore_all flt (rev (rb_snapshots log))"

definition commit_patch ::
  "faults \<Rightarrow> prepared_patch \<Rightarrow> rollback_log \<times> disk \<Rightarrow> (string + unit) \<times> rollback_log \<times> disk" where
  "commit_patch flt pp =
     (case pp of
        PpAdd _ target c \<Rightarrow> io_then (capture flt target) (\<lambda>_. on_disk (write_file flt target c))
      | PpUpdate _ target c \<Rightarrow> io_then (capture flt target) (\<lambda>_. on_disk (write_file flt target c))
      | PpDelete _ target \<Rightarrow> io_then (capture flt target) (\<lambda>_. on_disk (io_remove flt target))
      | PpMove _ source _ destination c \<Rightarrow>
          io_then (capture flt destination) (\<lambda>_.
          io_then (capture flt source) (\<lambda>_.
          io_then (on_disk (write_file flt destination c)) (\<lambda>_.
            if destination \<noteq> source then on_disk (io_remove flt source) else io_done))))"

text \<open>The error of a commit, with that of its rollback when it failed too.\<close>

fun commit_all ::
  "faults \<Rightarrow> prepared_patch list \<Rightarrow> rollback_log \<times> disk \<Rightarrow> (string \<times> string option + unit) \<times> disk" where
  "commit_all flt [] s = (Inr (), snd s)"
| "commit_all flt (pp # pps) s =
     (case commit_patch flt pp s of
        (Inr _, s1) \<Rightarrow> commit_all flt pps s1
      | (Inl e, log, d) \<Rightarrow>
          (case rollback flt log d of
             (Inl e2, d1) \<Rightarrow> (Inl (e, Some e2), d1)
           | (Inr _, d1) \<Rightarrow> (Inl (e, None), d1)))"

definition commit_prepared_patches ::
  "faults \<Rightarrow> prepared_patch list \<Rightarrow> disk \<Rightarrow> (string \<times> string option + unit) \<times> disk" where
  "commit_prepared_patches flt pps d = commit_all flt pps (\<lparr>rb_snapshots = [], rb_seen = {}\<rparr>, d)"

definition commit_error :: "string \<times> string option \<Rightarrow> string" where
  "commit_error e = (case e of (e1, None) \<Rightarrow> e1 | (e1, Some e2) \<Rightarrow> e1 @ ''; rollback failed: '' @ e2)"

definition apply_patch ::
  "patch_fs \<Rightarrow> faults \<Rightarrow> path \<Rightarrow> string \<Rightarrow> disk \<Rightarrow> (string + string list) \<times> disk" where
  "apply_patch F flt root patch d =
     (case bind_res (parse_patch patch) (prepare_patches F root {}) of
        Inl e \<Rightarrow> (Inl e, d)
      | Inr pps \<Rightarrow>
          (case commit_prepared_patches flt pps d of
             (Inl e, d1) \<Rightarrow> (Inl (commit_error e), d1)
           | (Inr _, d1) \<Rightarrow> (Inr (map changed_path pps), d1)))"

text \<open>The tool; \<open>args\<close> is the patch of its arguments, or why they cannot be read.\<close>

definition apply_patch_tool ::
  "patch_fs \<Rightarrow> faults \<Rightarrow> path \<Rightarrow> string + string \<Rightarrow> tool_call \<Rightarrow> disk \<Rightarrow> tool_outcome \<times> disk" where
  "apply_patch_tool F flt root args call d =
     (case args of
        Inl e \<Rightarrow> (tool_error call e, d)
      | Inr patch \<Rightarrow>
          (case apply_patch F flt root patch d of
             (Inl e, d1) \<Rightarrow> (tool_error call e, d1)
           | (Inr files, d1) \<Rightarrow>
               (outcome_from_result
                  \<lparr>tr_tool_call_id = tc_id call, tr_tool_name = tc_name call, tr_status = ToolSuccess,
                   tr_content = ''Applied patch to '' @ show_nat (length files) @ '' file(s)'',
                   tr_meta = Some (JObject [(''changed_files'', JArray (map JString files))]),
                   tr_parts = []\<rparr>, d1)))"

section \<open>Printing a patch\<close>

fun print_change :: "change_line \<Rightarrow> string" where
  "print_change (ChContext l) = '' '' @ l"
| "print_change (ChRemove l) = ''-'' @ l"
| "print_change (ChAdd l) = ''+'' @ l"

fun print_section :: "file_patch \<Rightarrow> string list" where
  "print_section (FpAdd p ls) = (''*** Add File: '' @ p) # map (Cons CHR ''+'') ls"
| "print_section (FpDelete p) = [''*** Delete File: '' @ p]"
| "print_section (FpUpdate p move cs) =
     (''*** Update File: '' @ p) #
     (case move of None \<Rightarrow> [] | Some d \<Rightarrow> [''*** Move to: '' @ d]) @ map print_change cs"

definition print_patch :: "file_patch list \<Rightarrow> string" where
  "print_patch ps =
     terminated (''*** Begin Patch'' # concat (map print_section ps) @ [''*** End Patch''])"

definition one_line :: "string \<Rightarrow> bool" where
  "one_line l \<longleftrightarrow> CHR 0x0A \<notin> set l \<and> (l = [] \<or> last l \<noteq> CHR 0x0D)"

fun change_text :: "change_line \<Rightarrow> string" where
  "change_text (ChContext l) = l"
| "change_text (ChRemove l) = l"
| "change_text (ChAdd l) = l"

fun texts_of_patch :: "file_patch \<Rightarrow> string list" where
  "texts_of_patch (FpAdd p ls) = p # ls"
| "texts_of_patch (FpDelete p) = [p]"
| "texts_of_patch (FpUpdate p move cs) = p # (case move of None \<Rightarrow> [] | Some d \<Rightarrow> [d]) @ map change_text cs"

lemma one_line_Nil [simp]: "one_line []"
  by (simp add: one_line_def)

lemma one_line_Cons [simp]:
  "c \<noteq> CHR 0x0A \<Longrightarrow> c \<noteq> CHR 0x0D \<Longrightarrow> one_line (c # l) = one_line l"
  by (auto simp: one_line_def)

lemma text_lines_file: "list_all one_line ls \<Longrightarrow> text_lines (terminated ls) = ls"
  by (induction ls) (auto simp: text_lines_append one_line_def)

lemma file_of_lines:
  "ls \<noteq> [] \<Longrightarrow> lines_to_file_with_trailing ls True = terminated ls"
  "ls \<noteq> [] \<Longrightarrow> ends_with_newline (terminated ls)"
proof -
  show "ls \<noteq> [] \<Longrightarrow> lines_to_file_with_trailing ls True = terminated ls"
    by (induction ls rule: join.induct [of _ nl]) (simp_all add: lines_to_file_with_trailing_def)
  have "ls \<noteq> [] \<Longrightarrow> last (terminated ls) = CHR 0x0A \<and> terminated ls \<noteq> []"
    by (induction ls) (auto simp: nl_def, metis terminated.simps(1))
  then show "ls \<noteq> [] \<Longrightarrow> ends_with_newline (terminated ls)" by (simp add: ends_with_newline_def)
qed

lemma print_not_boundary [simp]:
  "\<not> is_patch_boundary (CHR ''+'' # l)" "\<not> is_patch_boundary (print_change c)"
  by (simp_all add: is_patch_boundary_def starts_with_def) (cases c; simp add: starts_with_def)

lemma parse_add_body_printed:
  "rest = b # ls' \<Longrightarrow> is_patch_boundary b \<Longrightarrow>
   parse_add_body (map (Cons CHR ''+'') ls @ rest) body = Inr (body @ ls, rest)"
  by (induction ls arbitrary: body) (simp_all add: strip_prefix_def is_patch_boundary_def starts_with_def)

lemma parse_changes_printed:
  "rest = b # ls' \<Longrightarrow> is_patch_boundary b \<Longrightarrow>
   parse_changes (map print_change cs @ rest) acc = Inr (acc @ cs, rest)"
proof (induction cs arbitrary: acc)
  case (Cons c cs)
  from Cons print_not_boundary(2) [of c] show ?case
    by (cases c) (simp_all add: strip_prefix_def starts_with_def)
qed simp

text \<open>Every section is followed by a boundary.\<close>

lemma sections_boundary:
  "\<exists>b ls. concat (map print_section ps) @ [''*** End Patch''] = b # ls \<and> is_patch_boundary b"
proof (cases ps)
  case (Cons p ps')
  then show ?thesis by (cases p) (simp_all add: is_patch_boundary_def starts_with_def)
qed (simp add: is_patch_boundary_def)

lemma parse_sections_printed:
  "parse_sections (concat (map print_section ps) @ [''*** End Patch'']) acc = Inr (acc @ ps)"
proof (induction ps arbitrary: acc)
  case (Cons p ps)
  obtain b ls where rest: "concat (map print_section ps) @ [''*** End Patch''] = b # ls" "is_patch_boundary b"
    using sections_boundary by blast
  let ?rest = "concat (map print_section ps) @ [''*** End Patch'']"
  show ?case
  proof (cases p)
    case (FpAdd path body)
    have "parse_add_body (map (Cons CHR ''+'') body @ ?rest) [] = Inr (body, ?rest)"
      using parse_add_body_printed [OF rest, of body "[]"] by (simp only: append_Nil)
    with FpAdd Cons show ?thesis by (simp add: strip_prefix_def)
  next
    case (FpDelete path)
    with Cons show ?thesis by (simp add: strip_prefix_def)
  next
    case (FpUpdate path move cs)
    let ?move = "case move of None \<Rightarrow> [] | Some d \<Rightarrow> [''*** Move to: '' @ d]"
    have "parse_move (?move @ map print_change cs @ ?rest) = (move, map print_change cs @ ?rest)"
    proof (cases move)
      case None
      have "strip_prefix ''*** Move to: '' (print_change c) = None" for c
        by (cases c) (simp_all add: strip_prefix_def)
      moreover have "strip_prefix ''*** Move to: '' b = None"
        using rest(2) by (auto simp: is_patch_boundary_def starts_with_def strip_prefix_def prefix_def)
      ultimately show ?thesis using None unfolding rest(1) by (cases cs) (simp_all add: parse_move_def)
    next
      case (Some d)
      then show ?thesis by (simp add: parse_move_def strip_prefix_def)
    qed
    moreover have "parse_changes (map print_change cs @ ?rest) [] = Inr (cs, ?rest)"
      using parse_changes_printed [OF rest, of cs "[]"] by (simp only: append_Nil)
    ultimately show ?thesis using FpUpdate Cons by (simp add: strip_prefix_def)
  qed
qed simp

text \<open>
  C25: Printing a patch and parsing it gives the patch back: the sections in their order, with their
  paths, their moves and their lines, as long as every path and line is a line of text.
\<close>

theorem patch_roundtrip:
  assumes "list_all (\<lambda>p. list_all one_line (texts_of_patch p)) ps"
  shows "parse_patch (print_patch ps) = Inr ps"
proof -
  have change: "one_line (print_change c)" if "one_line (change_text c)" for c
    using that by (cases c) simp_all
  have "list_all one_line (print_section p)" if "list_all one_line (texts_of_patch p)" for p
    using that change by (cases p) (auto simp: list_all_iff split: option.splits)
  with assms have "list_all one_line (concat (map print_section ps))"
    by (fastforce simp: list_all_iff)
  then have "text_lines (print_patch ps) = ''*** Begin Patch'' # concat (map print_section ps) @ [''*** End Patch'']"
    unfolding print_patch_def by (intro text_lines_file) simp
  then show ?thesis by (simp add: parse_patch_def parse_sections_printed)
qed

theorem patch_roundtrip_witness:
  "parse_patch (print_patch [FpAdd ''a'' [''x''], FpUpdate ''b'' (Some ''c'') [ChContext ''y'', ChAdd []],
      FpDelete ''d'']) =
   Inr [FpAdd ''a'' [''x''], FpUpdate ''b'' (Some ''c'') [ChContext ''y'', ChAdd []], FpDelete ''d'']"
  by (rule patch_roundtrip) (simp add: one_line_def)

lemma first_match: "x \<notin> set xs \<Longrightarrow> takeWhile (\<lambda>l. l \<noteq> x) (xs @ x # ys) = xs"
  by (induction xs) auto

section \<open>Changes that tell the whole file\<close>

fun old_lines :: "change_line list \<Rightarrow> string list" where
  "old_lines [] = []"
| "old_lines (ChAdd _ # cs) = old_lines cs"
| "old_lines (ChContext l # cs) = l # old_lines cs"
| "old_lines (ChRemove l # cs) = l # old_lines cs"

fun new_lines :: "change_line list \<Rightarrow> string list" where
  "new_lines [] = []"
| "new_lines (ChAdd l # cs) = l # new_lines cs"
| "new_lines (ChContext l # cs) = l # new_lines cs"
| "new_lines (ChRemove _ # cs) = new_lines cs"

lemma find_line_here: "find_line (pre @ l # ls) (length pre) l = Some (length pre)"
  by (simp add: find_line_def)

lemma change_lines_script:
  "change_lines (pre @ old_lines cs @ rest) cs out (length pre) = Inr (out @ new_lines cs @ rest)"
proof (induction cs arbitrary: pre out)
  case (Cons c cs)
  show ?case
  proof (cases c)
    case (ChContext l)
    with Cons.IH [of "pre @ [l]"] show ?thesis by (simp add: find_line_here nth_append)
  next
    case (ChRemove l)
    with Cons.IH [of "pre @ [l]"] show ?thesis by (simp add: find_line_here)
  next
    case (ChAdd l)
    with Cons.IH show ?thesis by simp
  qed
qed simp

text \<open>
  C26: A patch that tells the lines of a file from its first line on is applied exactly: the context
  and removed lines being the beginning of the file, the result is the file with the context and
  added lines in their place, the rest of the file after them, and a line feed at the end as before.
\<close>

theorem whole_file_change_applies:
  assumes "text_lines body = old_lines cs @ rest"
  shows "apply_change_lines body cs =
    Inr (lines_to_file_with_trailing (new_lines cs @ rest) (ends_with_newline body))"
  using change_lines_script [of "[]" cs rest "[]"] assms by (simp add: apply_change_lines_def)

theorem whole_file_change_applies_witness:
  "apply_change_lines (terminated [''a'', ''b'', ''c'']) [ChContext ''a'', ChAdd ''x'', ChRemove ''b''] =
     Inr (terminated [''a'', ''x'', ''c''])"
proof -
  have "text_lines (terminated [''a'', ''b'', ''c''] @ []) = [''a'', ''b'', ''c''] @ text_lines []"
    by (rule text_lines_terminated) simp
  then have "text_lines (terminated [''a'', ''b'', ''c'']) =
      old_lines [ChContext ''a'', ChAdd ''x'', ChRemove ''b''] @ [''c'']" by simp
  from whole_file_change_applies [OF this] show ?thesis
    by (simp add: lines_to_file_with_trailing_def ends_with_newline_def nl_def)
qed

text \<open>
  Lines that a patch adds before their context land where the last change was, not before the
  context: the lines between are copied after them. A section that begins with added lines puts
  them at the top of the file, wherever its context is.
\<close>

theorem additions_land_too_early:
  assumes "list_all one_line (before @ context # after)" "context \<notin> set before"
  shows "apply_change_lines (terminated (before @ context # after)) [ChAdd new, ChContext context] =
    Inr (terminated (new # before @ context # after))"
proof -
  let ?ls = "before @ context # after"
  have "find_line ?ls 0 context = Some (length before)"
    using assms(2) by (simp add: find_line_def first_match)
  then have "change_lines ?ls [ChAdd new, ChContext context] [] 0 = Inr (new # ?ls)" by simp
  with text_lines_file [OF assms(1)] file_of_lines [of ?ls] file_of_lines [of "new # ?ls"] show ?thesis
    by (simp add: apply_change_lines_def)
qed

theorem additions_land_too_early_witness:
  "apply_change_lines (terminated [''a'', ''b'', ''c'']) [ChAdd ''x'', ChContext ''c''] =
     Inr (terminated [''x'', ''a'', ''b'', ''c''])"
  using additions_land_too_early [of "[''a'', ''b'']" "''c''" "[]" "''x''"] by (simp add: one_line_def)

section \<open>All or nothing\<close>

definition commit_effect :: "(path \<rightharpoonup> string) \<Rightarrow> prepared_patch \<Rightarrow> path \<rightharpoonup> string" where
  "commit_effect files pp =
     (case pp of
        PpAdd _ target c \<Rightarrow> files(target \<mapsto> c)
      | PpUpdate _ target c \<Rightarrow> files(target \<mapsto> c)
      | PpDelete _ target \<Rightarrow> files(target := None)
      | PpMove _ source _ destination c \<Rightarrow>
          (if destination = source then files(destination \<mapsto> c)
           else (files(destination \<mapsto> c))(source := None)))"

fun touched :: "prepared_patch \<Rightarrow> path set" where
  "touched (PpAdd _ target _) = {target}"
| "touched (PpUpdate _ target _) = {target}"
| "touched (PpDelete _ target) = {target}"
| "touched (PpMove _ source _ destination _) = {source, destination}"

text \<open>
  What the log knows: the original content of every path it has, each path once; all other files are
  as they were.
\<close>

definition log_ok :: "(path \<rightharpoonup> string) \<Rightarrow> rollback_log \<Rightarrow> disk \<Rightarrow> bool" where
  "log_ok orig log d \<longleftrightarrow> distinct (map fst (rb_snapshots log)) \<and>
     (\<forall>p c. map_of (rb_snapshots log) p = Some c \<longrightarrow> c = orig p) \<and>
     (\<forall>p. map_of (rb_snapshots log) p = None \<longrightarrow> dk_files d p = orig p)"

definition captured :: "rollback_log \<Rightarrow> path set" where
  "captured log = dom (map_of (rb_snapshots log))"

definition log_complete :: "rollback_log \<Rightarrow> bool" where
  "log_complete log \<longleftrightarrow> rb_seen log = captured log"

lemma tick_files [simp]: "dk_files (tick d) = dk_files d"
  by (simp add: tick_def)

lemma query_result:
  "io_query flt f d = (r, d') \<Longrightarrow> dk_files d' = dk_files d \<and> (\<forall>x. r = Inr x \<longrightarrow> x = f d)"
  by (auto simp: io_query_def split: option.splits io_fault.splits)

lemma write_result:
  "io_write flt p c d = (r, d') \<Longrightarrow>
     (\<forall>q. q \<noteq> p \<longrightarrow> dk_files d' q = dk_files d q) \<and> (r = Inr () \<longrightarrow> dk_files d' = (dk_files d)(p \<mapsto> c))"
  by (auto simp: io_write_def split: option.splits io_fault.splits)

lemma remove_result:
  "io_remove flt p d = (r, d') \<Longrightarrow>
     (\<forall>q. q \<noteq> p \<longrightarrow> dk_files d' q = dk_files d q) \<and> (r = Inr () \<longrightarrow> dk_files d' = (dk_files d)(p := None))"
  by (auto simp: io_remove_def split: option.splits io_fault.splits if_splits)

lemma create_parent_result: "create_parent flt p d = (r, d') \<Longrightarrow> dk_files d' = dk_files d"
  by (auto simp: create_parent_def io_done_def dest: query_result split: option.splits)

lemma write_file_result:
  "write_file flt p c d = (r, d') \<Longrightarrow>
     (\<forall>q. q \<noteq> p \<longrightarrow> dk_files d' q = dk_files d q) \<and> (r = Inr () \<longrightarrow> dk_files d' = (dk_files d)(p \<mapsto> c))"
  by (auto simp: write_file_def io_then_def dest!: create_parent_result write_result
    split: prod.splits sum.splits)

text \<open>A successful restoration puts back exactly the snapshots.\<close>

lemma restore_snapshot_result:
  assumes "restore_snapshot flt (p, c) d = (r, d')"
  shows "(\<forall>q. q \<noteq> p \<longrightarrow> dk_files d' q = dk_files d q) \<and> (r = Inr () \<longrightarrow> dk_files d' = (dk_files d)(p := c))"
proof (cases c)
  case (Some x)
  obtain r1 d1 where 1: "create_parent flt p d = (r1, d1)" by force
  with assms Some create_parent_result [OF 1] write_result [of flt p x d1 r d'] show ?thesis
    by (auto simp: restore_snapshot_def io_then_def split: sum.splits)
next
  case None
  obtain r1 d1 where 1: "io_query flt (\<lambda>d. dk_files d p \<noteq> None) d = (r1, d1)" by force
  with assms None query_result [OF 1] remove_result [of flt p d1 r d'] show ?thesis
    by (cases r1) (auto simp: restore_snapshot_def io_then_def io_done_def fun_upd_idem_iff split: if_splits)
qed

lemma restore_all_result:
  "restore_all flt xs d = (r, d') \<Longrightarrow> distinct (map fst xs) \<Longrightarrow>
     (\<forall>q. map_of xs q = None \<longrightarrow> dk_files d' q = dk_files d q) \<and>
     (r = Inr () \<longrightarrow> (\<forall>q c. map_of xs q = Some c \<longrightarrow> dk_files d' q = c))"
proof (induction xs arbitrary: d)
  case (Cons x xs)
  obtain p c where x: "x = (p, c)" by force
  obtain r1 d1 where one: "restore_snapshot flt (p, c) d = (r1, d1)" by force
  note 1 = restore_snapshot_result [OF one]
  show ?case
  proof (cases r1)
    case (Inl e)
    with Cons.prems one 1 show ?thesis by (auto simp: x io_then_def)
  next
    case (Inr u)
    with Cons.prems one have rest: "restore_all flt xs d1 = (r, d')" "distinct (map fst xs)" "p \<notin> fst ` set xs"
      by (auto simp: x io_then_def)
    note IH = Cons.IH [OF rest(1,2)]
    have "map_of xs p = None" using rest(3) by (simp add: map_of_eq_None_iff)
    with IH 1 Inr show ?thesis by (simp add: x)
  qed
qed simp

lemma map_of_reversed: "distinct (map fst xs) \<Longrightarrow> map_of (rev xs) = map_of xs"
proof (induction xs)
  case (Cons x xs)
  then have "map_of xs (fst x) = None" by (simp add: map_of_eq_None_iff)
  with Cons show ?case by (auto simp: fun_eq_iff map_add_def split: option.split)
qed simp

lemma rollback_restores:
  assumes "rollback flt log d = (r, d')" "log_ok orig log d"
  shows "(r = Inr () \<longrightarrow> dk_files d' = orig) \<and> (\<forall>q. q \<notin> captured log \<longrightarrow> dk_files d' q = orig q)"
proof -
  let ?xs = "rb_snapshots log"
  have ok: "distinct (map fst ?xs)" "\<And>p c. map_of ?xs p = Some c \<Longrightarrow> c = orig p"
    "\<And>p. map_of ?xs p = None \<Longrightarrow> dk_files d p = orig p"
    using assms(2) by (auto simp: log_ok_def)
  have "distinct (map fst (rev ?xs))" using ok(1) by (simp add: rev_map [symmetric])
  note res = restore_all_result [OF assms(1) [unfolded rollback_def] this]
  have m: "map_of (rev ?xs) = map_of ?xs" using ok(1) by (rule map_of_reversed)
  have "dk_files d' q = orig q" if "r = Inr () \<or> map_of ?xs q = None" for q
    using res [unfolded m] ok(2,3) [of q] that by (cases "map_of ?xs q") auto
  then show ?thesis by (auto simp: captured_def domIff)
qed

lemma capture_result:
  assumes "capture flt p (log, d) = (r, log', d')" "log_ok orig log d" "log_complete log"
  shows "log_ok orig log' d' \<and> dk_files d' = dk_files d \<and> captured log' \<subseteq> insert p (captured log) \<and>
    (r = Inr () \<longrightarrow> log_complete log' \<and> p \<in> captured log' \<and> captured log \<subseteq> captured log')"
proof (cases "p \<in> captured log")
  case True
  with assms show ?thesis by (auto simp: capture_def log_complete_def)
next
  case False
  then have new: "map_of (rb_snapshots log) p = None" "p \<notin> fst ` set (rb_snapshots log)"
    by (auto simp: captured_def domIff map_of_eq_None_iff)
  obtain q d1 where q: "io_query flt (\<lambda>d. dk_files d p) d = (q, d1)" by force
  from query_result [OF q] have f: "dk_files d1 = dk_files d" "\<And>c. q = Inr c \<Longrightarrow> c = dk_files d p" by auto
  show ?thesis
  proof (cases q)
    case (Inl e)
    with False assms q f show ?thesis
      by (auto simp: capture_def log_complete_def log_ok_def captured_def)
  next
    case (Inr c)
    let ?log = "log\<lparr>rb_seen := insert p (rb_seen log), rb_snapshots := rb_snapshots log @ [(p, c)]\<rparr>"
    have r: "r = Inr ()" "log' = ?log" "d' = d1"
      using Inr False assms(1,3) q by (auto simp: capture_def log_complete_def)
    have c: "c = orig p" using assms(2) f Inr new by (simp add: log_ok_def)
    have m: "map_of (rb_snapshots ?log) = (map_of (rb_snapshots log))(p \<mapsto> c)"
      using new by (auto simp: fun_eq_iff map_add_def split: option.split)
    then have "captured ?log = insert p (captured log)" by (simp add: captured_def)
    moreover have "log_ok orig ?log d1"
      using assms(2) new m c f(1) by (simp add: log_ok_def)
    ultimately show ?thesis using r f(1) assms(3) by (auto simp: log_complete_def)
  qed
qed

text \<open>A write or a removal of a captured path keeps the log correct.\<close>

lemma log_ok_change:
  "log_ok orig log d \<Longrightarrow> p \<in> captured log \<Longrightarrow> (\<forall>q. q \<noteq> p \<longrightarrow> dk_files d' q = dk_files d q) \<Longrightarrow>
   log_ok orig log d'"
  unfolding log_ok_def captured_def by (metis domIff)

text \<open>A write to a captured path, or its removal.\<close>

lemma on_disk_result:
  assumes "on_disk f (log, d) = (r, log', d')" "log_ok orig log d" "p \<in> captured log"
    and "\<And>r d'. f d = (r, d') \<Longrightarrow> \<forall>q. q \<noteq> p \<longrightarrow> dk_files d' q = dk_files d q"
  shows "log' = log \<and> log_ok orig log d' \<and> f d = (r, d')"
  using assms log_ok_change [of orig log d p d'] by (cases "f d") (auto simp: on_disk_def)

lemma commit_one_result:
  assumes "io_then (capture flt p) (\<lambda>_. on_disk f) (log, d) = (r, log', d')"
    and "log_ok orig log d" "log_complete log"
    and "\<And>r d d'. f d = (r, d') \<Longrightarrow> (\<forall>q. q \<noteq> p \<longrightarrow> dk_files d' q = dk_files d q) \<and>
      (r = Inr () \<longrightarrow> dk_files d' = (dk_files d)(p := c))"
  shows "log_ok orig log' d' \<and> captured log' \<subseteq> insert p (captured log) \<and>
    (r = Inr () \<longrightarrow> log_complete log' \<and> dk_files d' = (dk_files d)(p := c))"
proof -
  obtain r1 log1 d1 where 1: "capture flt p (log, d) = (r1, log1, d1)" by (metis surj_pair)
  note c = capture_result [OF 1 assms(2,3)]
  show ?thesis
  proof (cases r1)
    case (Inl e)
    with assms(1) 1 c show ?thesis by (auto simp: io_then_def)
  next
    case (Inr u)
    with assms(1) 1 have 2: "on_disk f (log1, d1) = (r, log', d')" by (simp add: io_then_def)
    from Inr c have "log_ok orig log1 d1" "p \<in> captured log1" by auto
    from on_disk_result [OF 2 this] assms(4) have "log' = log1" "log_ok orig log1 d'" "f d1 = (r, d')" by blast+
    with assms(4) [of d1 r d'] c Inr show ?thesis by auto
  qed
qed

lemma commit_patch_result:
  assumes "commit_patch flt pp (log, d) = (r, log', d')" "log_ok orig log d" "log_complete log"
  shows "log_ok orig log' d' \<and> captured log' \<subseteq> touched pp \<union> captured log \<and>
    (r = Inr () \<longrightarrow> log_complete log' \<and> dk_files d' = commit_effect (dk_files d) pp)"
proof (cases pp)
  case (PpAdd label target c)
  with assms(1) have "io_then (capture flt target) (\<lambda>_. on_disk (write_file flt target c)) (log, d) = (r, log', d')"
    by (simp add: commit_patch_def)
  from commit_one_result [OF this assms(2,3) write_file_result] show ?thesis
    by (simp add: PpAdd commit_effect_def)
next
  case (PpUpdate label target c)
  with assms(1) have "io_then (capture flt target) (\<lambda>_. on_disk (write_file flt target c)) (log, d) = (r, log', d')"
    by (simp add: commit_patch_def)
  from commit_one_result [OF this assms(2,3) write_file_result] show ?thesis
    by (simp add: PpUpdate commit_effect_def)
next
  case (PpDelete label target)
  with assms(1) have "io_then (capture flt target) (\<lambda>_. on_disk (io_remove flt target)) (log, d) = (r, log', d')"
    by (simp add: commit_patch_def)
  from commit_one_result [OF this assms(2,3) remove_result] show ?thesis
    by (simp add: PpDelete commit_effect_def)
next
  case (PpMove label src to dst c)
  obtain r1 log1 d1 where 1: "capture flt dst (log, d) = (r1, log1, d1)" by (metis surj_pair)
  note c1 = capture_result [OF 1 assms(2,3)]
  show ?thesis
  proof (cases r1)
    case (Inl e)
    with assms(1) 1 c1 PpMove show ?thesis by (auto simp: commit_patch_def io_then_def)
  next
    case (Inr u)
    obtain r2 log2 d2 where 2: "capture flt src (log1, d1) = (r2, log2, d2)" by (metis surj_pair)
    from c1 Inr have ok1: "log_ok orig log1 d1" "log_complete log1" "dst \<in> captured log1" by auto
    note c2 = capture_result [OF 2 ok1(1,2)]
    show ?thesis
    proof (cases r2)
      case (Inl e)
      with assms(1) 1 2 c1 c2 Inr PpMove show ?thesis by (auto simp: commit_patch_def io_then_def)
    next
      case (Inr u2)
      from c2 Inr ok1(3) have ok2: "log_ok orig log2 d2" "log_complete log2" "src \<in> captured log2"
        "dst \<in> captured log2" "dk_files d2 = dk_files d" using c1 by auto
      obtain r3 log3 d3 where 3: "on_disk (write_file flt dst c) (log2, d2) = (r3, log3, d3)" by (metis surj_pair)
      have "\<And>r d'. write_file flt dst c d2 = (r, d') \<Longrightarrow> \<forall>q. q \<noteq> dst \<longrightarrow> dk_files d' q = dk_files d2 q"
        using write_file_result by blast
      note w = on_disk_result [OF 3 ok2(1,4) this]
      have sub: "captured log2 \<subseteq> touched pp \<union> captured log"
        using c1 c2 by (auto simp: PpMove)
      show ?thesis
      proof (cases r3)
        case (Inl e)
        with assms(1) 1 2 3 w sub \<open>r1 = Inr u\<close> Inr PpMove show ?thesis
          by (auto simp: commit_patch_def io_then_def)
      next
        case (Inr u3)
        with w write_file_result [of flt dst c d2 r3 d3] have f3: "dk_files d3 = (dk_files d)(dst \<mapsto> c)"
          "log3 = log2" "log_ok orig log2 d3" using ok2(5) by auto
        show ?thesis
        proof (cases "dst = src")
          case True
          with assms(1) 1 2 3 f3 sub ok2 \<open>r1 = Inr u\<close> \<open>r2 = Inr u2\<close> Inr PpMove show ?thesis
            by (auto simp: commit_patch_def io_then_def io_done_def commit_effect_def)
        next
          case False
          with assms(1) 1 2 3 \<open>r1 = Inr u\<close> \<open>r2 = Inr u2\<close> Inr PpMove f3
          have 4: "on_disk (io_remove flt src) (log2, d3) = (r, log', d')"
            by (simp add: commit_patch_def io_then_def)
          have "\<And>r d'. io_remove flt src d3 = (r, d') \<Longrightarrow> \<forall>q. q \<noteq> src \<longrightarrow> dk_files d' q = dk_files d3 q"
            using remove_result by blast
          note x = on_disk_result [OF 4 f3(3) ok2(3) this]
          with remove_result [of flt src d3 r d'] False sub ok2 f3 show ?thesis
            by (auto simp: PpMove commit_effect_def)
        qed
      qed
    qed
  qed
qed

lemma log_ok_rest: "log_ok orig log d \<Longrightarrow> q \<notin> captured log \<Longrightarrow> dk_files d q = orig q"
  unfolding log_ok_def captured_def by (metis domIff)

lemma commit_all_result:
  assumes "commit_all flt pps (log, d) = (r, d')" "log_ok orig log d" "log_complete log"
  shows "(case r of Inr _ \<Rightarrow> dk_files d' = foldl commit_effect (dk_files d) pps
      | Inl (e, None) \<Rightarrow> dk_files d' = orig | Inl (e, Some _) \<Rightarrow> True) \<and>
    (\<forall>q. q \<notin> captured log \<union> \<Union> (touched ` set pps) \<longrightarrow> dk_files d' q = orig q)"
  using assms
proof (induction pps arbitrary: log d)
  case Nil
  then show ?case using log_ok_rest by auto
next
  case (Cons pp pps)
  obtain r1 log1 d1 where 1: "commit_patch flt pp (log, d) = (r1, log1, d1)" by (metis surj_pair)
  note c = commit_patch_result [OF 1 Cons.prems(2,3)]
  show ?case
  proof (cases r1)
    case (Inl e)
    obtain r2 d2 where 2: "rollback flt log1 d1 = (r2, d2)" by force
    with c rollback_restores [OF 2] Cons.prems(1) 1 Inl show ?thesis by (cases r2) auto
  next
    case (Inr u)
    with Cons.prems(1) 1 have 2: "commit_all flt pps (log1, d1) = (r, d')" by simp
    from Cons.IH [OF 2] c Inr show ?thesis by (auto split: sum.splits prod.splits option.splits)
  qed
qed

text \<open>
  C27: A patch is applied entirely or not at all, whatever accesses to the disk fail and whatever a
  failing write leaves behind: when the tool reports success, the disk has exactly the changes of the
  prepared patch, and it names the changed files; when it reports an error, every file is as it was,
  unless the error says that the rollback failed as well.
\<close>

theorem patch_all_or_nothing:
  "case apply_patch F flt root patch d of
     (Inr changed, d') \<Rightarrow> \<exists>ps pps. parse_patch patch = Inr ps \<and> prepare_patches F root {} ps = Inr pps \<and>
       changed = map changed_path pps \<and> dk_files d' = foldl commit_effect (dk_files d) pps
   | (Inl e, d') \<Rightarrow> dk_files d' = dk_files d \<or> (\<exists>e1 e2. e = e1 @ ''; rollback failed: '' @ e2)"
proof (cases "bind_res (parse_patch patch) (prepare_patches F root {})")
  case (Inl e)
  then show ?thesis by (simp add: apply_patch_def)
next
  case (Inr pps)
  then obtain ps where ps: "parse_patch patch = Inr ps" "prepare_patches F root {} ps = Inr pps"
    by (auto simp: bind_res_eq_Inr)
  obtain r d' where c: "commit_prepared_patches flt pps d = (r, d')" by force
  from commit_all_result [OF c [unfolded commit_prepared_patches_def], of "dk_files d"]
  show ?thesis using Inr ps c
    by (auto simp: apply_patch_def commit_error_def log_ok_def log_complete_def captured_def
      split: sum.splits prod.splits option.splits)
qed

lemma resolved_inside:
  "resolve_patch_path F root raw b = Inr p \<Longrightarrow> fv_canonicalize F root = Inr base \<Longrightarrow> prefix base p"
  by (auto simp: resolve_patch_path_def bind_res_def Let_def split: sum.splits option.splits if_splits)

lemma bind_resE: "bind_res r f = Inr y \<Longrightarrow> (\<And>x. r = Inr x \<Longrightarrow> f x = Inr y \<Longrightarrow> P) \<Longrightarrow> P"
  by (auto simp: bind_res_eq_Inr)

lemma prepared_patch_inside:
  assumes "prepare_patch F root planned fp = Inr (pp, planned1)" "fv_canonicalize F root = Inr base"
    and "p \<in> touched pp"
  shows "prefix base p"
proof (cases fp)
  case (FpAdd label ls)
  from assms(1) [unfolded prepare_patch_def FpAdd file_patch.case] assms(3) resolved_inside [OF _ assms(2)]
  show ?thesis by (elim bind_resE) (auto split: if_splits elim!: bind_resE)
next
  case (FpDelete label)
  from assms(1) [unfolded prepare_patch_def FpDelete file_patch.case] assms(3) resolved_inside [OF _ assms(2)]
  show ?thesis by (elim bind_resE) auto
next
  case (FpUpdate label move cs)
  show ?thesis
  proof (cases move)
    case None
    from assms(1) [unfolded prepare_patch_def FpUpdate file_patch.case None option.case] assms(3)
      resolved_inside [OF _ assms(2)]
    show ?thesis by (elim bind_resE) auto
  next
    case (Some to)
    from assms(1) [unfolded prepare_patch_def FpUpdate file_patch.case Some option.case] assms(3)
      resolved_inside [OF _ assms(2)]
    show ?thesis by (elim bind_resE) (auto split: if_splits elim!: bind_resE)
  qed
qed

lemma prepared_inside:
  "prepare_patches F root planned ps = Inr pps \<Longrightarrow> fv_canonicalize F root = Inr base \<Longrightarrow>
   p \<in> \<Union> (touched ` set pps) \<Longrightarrow> prefix base p"
proof (induction ps arbitrary: planned pps)
  case (Cons fp fps)
  then obtain pp planned1 pps1 where pp: "prepare_patch F root planned fp = Inr (pp, planned1)"
    "prepare_patches F root planned1 fps = Inr pps1" "pps = pp # pps1"
    by (auto simp: bind_res_eq_Inr)
  note prepared_patch_inside [OF pp(1) Cons.prems(2), of p]
  with Cons pp show ?case by auto
qed simp

text \<open>
  C28: A patch never changes a file outside the workspace: not by its paths, absolute or with
  components that lead upwards, not when it fails, and not when its rollback fails.
\<close>

theorem patch_stays_in_workspace:
  assumes "fv_canonicalize F root = Inr base" "\<not> prefix base p"
  shows "dk_files (snd (apply_patch F flt root patch d)) p = dk_files d p"
proof (cases "bind_res (parse_patch patch) (prepare_patches F root {})")
  case (Inl e)
  then show ?thesis by (simp add: apply_patch_def)
next
  case (Inr pps)
  then obtain ps where ps: "prepare_patches F root {} ps = Inr pps" by (auto simp: bind_res_eq_Inr)
  obtain r d' where c: "commit_prepared_patches flt pps d = (r, d')" by force
  have "p \<notin> \<Union> (touched ` set pps)" using prepared_inside [OF ps assms(1)] assms(2) by blast
  with commit_all_result [OF c [unfolded commit_prepared_patches_def], of "dk_files d"]
  have "dk_files d' p = dk_files d p" by (auto simp: log_ok_def log_complete_def captured_def)
  with Inr c show ?thesis by (auto simp: apply_patch_def split: sum.splits)
qed

definition sample_patch_fs :: patch_fs where
  "sample_patch_fs = fs_view.extend sample_fs
     \<lparr>pf_exists = \<lambda>_. Inr False, pf_read_to_string = \<lambda>_. Inl ''not found''\<rparr>"

theorem patch_stays_in_workspace_witness:
  "dk_files (snd (apply_patch sample_patch_fs (\<lambda>_. None) [CRoot, CNormal ''w'']
     (print_patch [FpAdd ''../etc/passwd'' []]) \<lparr>dk_files = Map.empty, dk_step = 0\<rparr>))
     [CRoot, CNormal ''etc'', CNormal ''passwd''] = None"
  by (subst patch_stays_in_workspace [of _ _ "[CRoot, CNormal ''w'']"])
    (simp_all add: sample_patch_fs_def sample_fs_def fs_view.defs)

end
