(* ===== verification/WorkflowRun.thy ===== *)
theory WorkflowRun
  imports Protocol "HOL-Library.Sublist"
begin

text \<open>
  The state of a workflow run (\<^verbatim>\<open>runtime/workflow/runtime.rs\<close>), its artifacts
  (\<^verbatim>\<open>artifacts.rs\<close>) and the limits of the presets (\<^verbatim>\<open>types.rs\<close>). Every operation reads the
  clock: a reading is an argument. \<^verbatim>\<open>cancel\<close> and \<^verbatim>\<open>record_artifact\<close> read it twice. The run is
  behind a mutex, so that the calls on its handle are a sequence of operations.
\<close>

section \<open>Artifacts\<close>

record artifact_record =
  ar_id :: string
  ar_label :: string
  ar_status :: "string option"
  ar_payload :: json
  ar_created_at_ms :: int
  ar_updated_at_ms :: int

definition artifact_summary :: "artifact_record \<Rightarrow> workflow_artifact_summary" where
  "artifact_summary a = \<lparr> wa_id = ar_id a, wa_label = ar_label a, wa_status = ar_status a,
     wa_created_at_ms = ar_created_at_ms a, wa_updated_at_ms = ar_updated_at_ms a \<rparr>"

record artifact_store =
  af_records :: "artifact_record list"
  af_next_index :: nat

definition artifact_id :: "nat \<Rightarrow> string" where
  "artifact_id n = ''artifact_'' @ show_nat n"

definition artifact_record_new ::
  "int \<Rightarrow> string \<Rightarrow> string option \<Rightarrow> json \<Rightarrow> artifact_store \<Rightarrow> workflow_artifact_summary \<times> artifact_store"
  where
  "artifact_record_new now label status payload st =
     (let n = Suc (af_next_index st);
          a = \<lparr> ar_id = artifact_id n, ar_label = label, ar_status = status,
               ar_payload = payload, ar_created_at_ms = now, ar_updated_at_ms = now \<rparr>
      in (artifact_summary a, \<lparr> af_records = af_records st @ [a], af_next_index = n \<rparr>))"

fun update_first :: "('a \<Rightarrow> bool) \<Rightarrow> ('a \<Rightarrow> 'a) \<Rightarrow> 'a list \<Rightarrow> 'a list" where
  "update_first P f [] = []"
| "update_first P f (x # xs) = (if P x then f x # xs else x # update_first P f xs)"

definition artifact_get :: "string \<Rightarrow> artifact_store \<Rightarrow> artifact_record option" where
  "artifact_get i st = find (\<lambda>a. ar_id a = i) (af_records st)"

definition artifact_update ::
  "int \<Rightarrow> string \<Rightarrow> string option \<Rightarrow> json \<Rightarrow> artifact_store \<Rightarrow>
   workflow_artifact_summary option \<times> artifact_store" where
  "artifact_update now i status payload st =
     (let upd = (\<lambda>a. a\<lparr>ar_status := status, ar_payload := payload,
                       ar_updated_at_ms := max now (ar_created_at_ms a)\<rparr>)
      in case artifact_get i st of
           None \<Rightarrow> (None, st)
         | Some a \<Rightarrow> (Some (artifact_summary (upd a)),
             st\<lparr>af_records := update_first (\<lambda>a. ar_id a = i) upd (af_records st)\<rparr>))"

definition list_summaries :: "artifact_store \<Rightarrow> workflow_artifact_summary list" where
  "list_summaries st = map artifact_summary (af_records st)"

section \<open>Limits\<close>

record deep_search_limits =
  dl_max_angles :: nat
  dl_max_sources :: nat
  dl_max_claims :: nat
  dl_votes_per_claim :: nat
  dl_refutations_required :: nat
  dl_max_concurrency :: nat
  dl_token_budget :: "int option"
  dl_max_runtime_secs :: "nat option"

fun limits_for_preset :: "workflow_preset_id \<Rightarrow> deep_search_limits" where
  "limits_for_preset PresetQuick = \<lparr> dl_max_angles = 3, dl_max_sources = 8, dl_max_claims = 8,
     dl_votes_per_claim = 2, dl_refutations_required = 2, dl_max_concurrency = 5,
     dl_token_budget = Some 80000, dl_max_runtime_secs = Some 120 \<rparr>"
| "limits_for_preset PresetStandard = \<lparr> dl_max_angles = 4, dl_max_sources = 12,
     dl_max_claims = 12, dl_votes_per_claim = 2, dl_refutations_required = 2,
     dl_max_concurrency = 6, dl_token_budget = Some 160000, dl_max_runtime_secs = Some 300 \<rparr>"
| "limits_for_preset PresetDeep = \<lparr> dl_max_angles = 5, dl_max_sources = 15,
     dl_max_claims = 20, dl_votes_per_claim = 3, dl_refutations_required = 2,
     dl_max_concurrency = 8, dl_token_budget = Some 320000, dl_max_runtime_secs = Some 600 \<rparr>"

definition planned_agent_calls :: "deep_search_limits \<Rightarrow> nat" where
  "planned_agent_calls l = 1 + dl_max_sources l + dl_max_claims l * dl_votes_per_claim l + 1"

section \<open>The state of a run\<close>

record workflow_run =
  rn_run_id :: string
  rn_thread_id :: thread_id
  rn_template_id :: workflow_template_id
  rn_preset_id :: workflow_preset_id
  rn_label :: string
  rn_status :: workflow_run_status
  rn_phases :: "workflow_phase_view list"
  rn_phase_index :: "string \<rightharpoonup> nat"
  rn_artifacts :: artifact_store
  rn_stats :: workflow_stats
  rn_report_summary :: "string option"
  rn_stop_reason :: "workflow_stop_reason option"
  rn_created_at_ms :: int
  rn_updated_at_ms :: int
  rn_started_at_ms :: "int option"
  rn_completed_at_ms :: "int option"

definition workflow_run_new ::
  "int \<Rightarrow> string \<Rightarrow> thread_id \<Rightarrow> workflow_template_id \<Rightarrow> workflow_preset_id \<Rightarrow> string \<Rightarrow> workflow_run"
  where
  "workflow_run_new now run_id thread template preset label = \<lparr>
     rn_run_id = run_id, rn_thread_id = thread, rn_template_id = template,
     rn_preset_id = preset, rn_label = label, rn_status = WrQueued, rn_phases = [],
     rn_phase_index = Map.empty, rn_artifacts = \<lparr> af_records = [], af_next_index = 0 \<rparr>,
     rn_stats = \<lparr> ws_agent_calls = 0, ws_failed_agent_calls = 0, ws_skipped_agent_calls = 0,
       ws_total_artifacts = 0, ws_tokens_used = None, ws_elapsed_ms = 0,
       ws_template_stats = JNull \<rparr>,
     rn_report_summary = None, rn_stop_reason = None, rn_created_at_ms = now,
     rn_updated_at_ms = now, rn_started_at_ms = None, rn_completed_at_ms = None \<rparr>"

definition is_terminal_status :: "workflow_run_status \<Rightarrow> bool" where
  "is_terminal_status s \<longleftrightarrow> s = WrCompleted \<or> s = WrFailed \<or> s = WrCancelled"

definition is_phase_terminal :: "workflow_phase_status \<Rightarrow> bool" where
  "is_phase_terminal s \<longleftrightarrow> s = WpCompleted \<or> s = WpFailed \<or> s = WpSkipped \<or> s = WpCancelled"

abbreviation is_terminal :: "workflow_run \<Rightarrow> bool" where
  "is_terminal r \<equiv> is_terminal_status (rn_status r)"

definition touch :: "int \<Rightarrow> workflow_run \<Rightarrow> int \<times> workflow_run" where
  "touch clock r =
     (let now = max clock (rn_updated_at_ms r) in (now, r\<lparr>rn_updated_at_ms := now\<rparr>))"

definition start_run :: "int \<Rightarrow> workflow_run \<Rightarrow> workflow_run" where
  "start_run clock r =
     (if is_terminal r then r
      else let (now, r) = touch clock r
           in r\<lparr>rn_status := WrRunning,
                rn_started_at_ms := Some (case rn_started_at_ms r of Some s \<Rightarrow> s | None \<Rightarrow> now)\<rparr>)"

definition set_phase :: "nat \<Rightarrow> (workflow_phase_view \<Rightarrow> workflow_phase_view) \<Rightarrow> workflow_run \<Rightarrow> workflow_run"
  where
  "set_phase i f r = r\<lparr>rn_phases := (rn_phases r)[i := f (rn_phases r ! i)]\<rparr>"

definition push_phase :: "workflow_phase_view \<Rightarrow> workflow_run \<Rightarrow> workflow_run" where
  "push_phase p r = r\<lparr>rn_phase_index := (rn_phase_index r)(wp_id p \<mapsto> length (rn_phases r)),
                      rn_phases := rn_phases r @ [p]\<rparr>"

definition declare_phase :: "int \<Rightarrow> string \<Rightarrow> string \<Rightarrow> nat \<Rightarrow> workflow_run \<Rightarrow> workflow_run" where
  "declare_phase clock i label planned r =
     (if is_terminal r then r
      else case rn_phase_index r i of
        Some k \<Rightarrow>
          if is_phase_terminal (wp_status (rn_phases r ! k)) then r
          else let (now, r) = touch clock r
               in set_phase k (\<lambda>p. p\<lparr>wp_label := label, wp_status := WpPending,
                    wp_planned_count := planned, wp_completed_count := 0, wp_failed_count := 0,
                    wp_skipped_count := 0, wp_started_at_ms := None, wp_updated_at_ms := now,
                    wp_completed_at_ms := None\<rparr>) r
      | None \<Rightarrow>
          let (now, r) = touch clock r
          in push_phase \<lparr> wp_id = i, wp_label = label, wp_status = WpPending,
               wp_planned_count = planned, wp_completed_count = 0, wp_failed_count = 0,
               wp_skipped_count = 0, wp_started_at_ms = None, wp_updated_at_ms = now,
               wp_completed_at_ms = None \<rparr> r)"

definition start_phase :: "int \<Rightarrow> string \<Rightarrow> string \<Rightarrow> nat \<Rightarrow> workflow_run \<Rightarrow> workflow_run" where
  "start_phase clock i label planned r =
     (if is_terminal r then r
      else case rn_phase_index r i of
        Some k \<Rightarrow>
          if is_phase_terminal (wp_status (rn_phases r ! k)) then r
          else let (now, r) = touch clock r
               in set_phase k (\<lambda>p. p\<lparr>wp_label := label, wp_status := WpRunning,
                    wp_planned_count := planned,
                    wp_started_at_ms := Some (case wp_started_at_ms p of Some s \<Rightarrow> s | None \<Rightarrow> now),
                    wp_updated_at_ms := now\<rparr>) r
      | None \<Rightarrow>
          let (now, r) = touch clock r
          in push_phase \<lparr> wp_id = i, wp_label = label, wp_status = WpRunning,
               wp_planned_count = planned, wp_completed_count = 0, wp_failed_count = 0,
               wp_skipped_count = 0, wp_started_at_ms = Some now, wp_updated_at_ms = now,
               wp_completed_at_ms = None \<rparr> r)"

definition on_open_phase ::
  "int \<Rightarrow> string \<Rightarrow> (int \<Rightarrow> workflow_phase_view \<Rightarrow> workflow_phase_view) \<Rightarrow> workflow_run \<Rightarrow> workflow_run"
  where
  "on_open_phase clock i f r =
     (if is_terminal r then r
      else case rn_phase_index r i of
        None \<Rightarrow> r
      | Some k \<Rightarrow>
          if is_phase_terminal (wp_status (rn_phases r ! k)) then r
          else let (now, r) = touch clock r in set_phase k (f now) r)"

definition update_phase_counts :: "int \<Rightarrow> string \<Rightarrow> nat \<Rightarrow> nat \<Rightarrow> nat \<Rightarrow> workflow_run \<Rightarrow> workflow_run"
  where
  "update_phase_counts clock i completed failed skipped =
     on_open_phase clock i (\<lambda>now p. p\<lparr>wp_completed_count := completed, wp_failed_count := failed,
       wp_skipped_count := skipped, wp_updated_at_ms := now\<rparr>)"

definition finish_phase :: "int \<Rightarrow> string \<Rightarrow> workflow_phase_status \<Rightarrow> workflow_run \<Rightarrow> workflow_run" where
  "finish_phase clock i status =
     on_open_phase clock i (\<lambda>now p. p\<lparr>wp_status := status, wp_updated_at_ms := now,
       wp_completed_at_ms := Some now\<rparr>)"

definition record_artifact ::
  "int \<Rightarrow> int \<Rightarrow> string \<Rightarrow> string option \<Rightarrow> json \<Rightarrow> workflow_run \<Rightarrow>
   workflow_artifact_summary option \<times> workflow_run" where
  "record_artifact clock1 clock2 label status payload r =
     (if is_terminal r then (None, r)
      else let (summary, st) = artifact_record_new clock1 label status payload (rn_artifacts r);
               r = r\<lparr>rn_artifacts := st,
                     rn_stats := (rn_stats r)\<lparr>ws_total_artifacts := length (af_records st)\<rparr>\<rparr>
           in (Some summary, snd (touch clock2 r)))"

definition add_agent_stats ::
  "int \<Rightarrow> nat \<Rightarrow> nat \<Rightarrow> nat \<Rightarrow> int option \<Rightarrow> workflow_run \<Rightarrow> workflow_run" where
  "add_agent_stats clock calls failed skipped tokens r =
     (if is_terminal r then r
      else let st = rn_stats r;
               st = st\<lparr>ws_agent_calls := ws_agent_calls st + calls,
                       ws_failed_agent_calls := ws_failed_agent_calls st + failed,
                       ws_skipped_agent_calls := ws_skipped_agent_calls st + skipped,
                       ws_tokens_used := (case tokens of None \<Rightarrow> ws_tokens_used st
                          | Some t \<Rightarrow> Some ((case ws_tokens_used st of None \<Rightarrow> 0 | Some u \<Rightarrow> u) + t))\<rparr>
           in snd (touch clock (r\<lparr>rn_stats := st\<rparr>)))"

definition finish_run :: "int \<Rightarrow> workflow_run_status \<Rightarrow> workflow_run \<Rightarrow> workflow_run" where
  "finish_run clock status r =
     (if is_terminal r then r
      else let (now, r) = touch clock r;
               started = (case rn_started_at_ms r of None \<Rightarrow> rn_created_at_ms r | Some s \<Rightarrow> s)
           in r\<lparr>rn_status := status, rn_completed_at_ms := Some now,
                rn_stats := (rn_stats r)\<lparr>ws_elapsed_ms := sat_sub now started\<rparr>\<rparr>)"

definition cancel_non_terminal_phases :: "int \<Rightarrow> workflow_run \<Rightarrow> workflow_run" where
  "cancel_non_terminal_phases clock r =
     (let (now, r) = touch clock r
      in r\<lparr>rn_phases := map (\<lambda>p. if is_phase_terminal (wp_status p) then p
             else p\<lparr>wp_status := WpCancelled, wp_updated_at_ms := now,
                    wp_completed_at_ms := Some now\<rparr>) (rn_phases r)\<rparr>)"

definition cancel_run :: "int \<Rightarrow> int \<Rightarrow> workflow_run \<Rightarrow> workflow_run" where
  "cancel_run clock1 clock2 r =
     (if is_terminal r then r
      else finish_run clock2 WrCancelled (cancel_non_terminal_phases clock1 r))"

definition set_report_summary :: "int \<Rightarrow> string option \<Rightarrow> workflow_run \<Rightarrow> workflow_run" where
  "set_report_summary clock s r =
     (if is_terminal r then r else snd (touch clock (r\<lparr>rn_report_summary := s\<rparr>)))"

definition set_template_stats :: "int \<Rightarrow> json \<Rightarrow> workflow_run \<Rightarrow> workflow_run" where
  "set_template_stats clock v r =
     (if is_terminal r then r
      else snd (touch clock (r\<lparr>rn_stats := (rn_stats r)\<lparr>ws_template_stats := v\<rparr>\<rparr>)))"

definition set_stop_reason :: "int \<Rightarrow> workflow_stop_reason option \<Rightarrow> workflow_run \<Rightarrow> workflow_run" where
  "set_stop_reason clock s r =
     (if is_terminal r then r else snd (touch clock (r\<lparr>rn_stop_reason := s\<rparr>)))"

definition workflow_view :: "workflow_run \<Rightarrow> workflow_run_view" where
  "workflow_view r = \<lparr> wr_run_id = rn_run_id r, wr_thread_id = rn_thread_id r,
     wr_template_id = rn_template_id r, wr_preset_id = rn_preset_id r, wr_label = rn_label r,
     wr_status = rn_status r, wr_phases = rn_phases r,
     wr_artifacts = list_summaries (rn_artifacts r), wr_stats = rn_stats r,
     wr_report_summary = rn_report_summary r, wr_stop_reason = rn_stop_reason r,
     wr_created_at_ms = rn_created_at_ms r, wr_updated_at_ms = rn_updated_at_ms r,
     wr_started_at_ms = rn_started_at_ms r, wr_completed_at_ms = rn_completed_at_ms r \<rparr>"

section \<open>The calls on a handle\<close>

datatype run_op =
    RoStart
  | RoDeclarePhase string string nat
  | RoStartPhase string string nat
  | RoUpdateCounts string nat nat nat
  | RoCompletePhase string
  | RoFailPhase string
  | RoCancelPhase string
  | RoSkipPhase string
  | RoRecordArtifact string "string option" json
  | RoAddAgentStats nat nat nat "int option"
  | RoComplete
  | RoFail
  | RoCancel
  | RoSetReportSummary "string option"
  | RoSetTemplateStats json
  | RoSetStopReason "workflow_stop_reason option"

text \<open>An operation with the two readings of the clock it may take.\<close>

type_synonym clocked_op = "run_op \<times> int \<times> int"

fun apply_run_op :: "clocked_op \<Rightarrow> workflow_run \<Rightarrow> workflow_run" where
  "apply_run_op (RoStart, c, _) r = start_run c r"
| "apply_run_op (RoDeclarePhase i l n, c, _) r = declare_phase c i l n r"
| "apply_run_op (RoStartPhase i l n, c, _) r = start_phase c i l n r"
| "apply_run_op (RoUpdateCounts i a b d, c, _) r = update_phase_counts c i a b d r"
| "apply_run_op (RoCompletePhase i, c, _) r = finish_phase c i WpCompleted r"
| "apply_run_op (RoFailPhase i, c, _) r = finish_phase c i WpFailed r"
| "apply_run_op (RoCancelPhase i, c, _) r = finish_phase c i WpCancelled r"
| "apply_run_op (RoSkipPhase i, c, _) r = finish_phase c i WpSkipped r"
| "apply_run_op (RoRecordArtifact l s p, c, c') r = snd (record_artifact c c' l s p r)"
| "apply_run_op (RoAddAgentStats a f s t, c, _) r = add_agent_stats c a f s t r"
| "apply_run_op (RoComplete, c, _) r = finish_run c WrCompleted r"
| "apply_run_op (RoFail, c, _) r = finish_run c WrFailed r"
| "apply_run_op (RoCancel, c, c') r = cancel_run c c' r"
| "apply_run_op (RoSetReportSummary s, c, _) r = set_report_summary c s r"
| "apply_run_op (RoSetTemplateStats v, c, _) r = set_template_stats c v r"
| "apply_run_op (RoSetStopReason s, c, _) r = set_stop_reason c s r"

definition run_ops :: "clocked_op list \<Rightarrow> workflow_run \<Rightarrow> workflow_run" where
  "run_ops xs r = fold apply_run_op xs r"

section \<open>The invariant of a run\<close>

definition index_ok :: "string list \<Rightarrow> (string \<rightharpoonup> nat) \<Rightarrow> bool" where
  "index_ok ids ix \<longleftrightarrow> distinct ids \<and> (\<forall>i k. ix i = Some k \<longleftrightarrow> k < length ids \<and> ids ! k = i)"

definition phase_ok :: "int \<Rightarrow> workflow_phase_view \<Rightarrow> bool" where
  "phase_ok now p \<longleftrightarrow> wp_updated_at_ms p \<le> now \<and>
     (wp_completed_at_ms p \<noteq> None) = is_phase_terminal (wp_status p) \<and>
     wp_completed_at_ms p \<in> {None, Some (wp_updated_at_ms p)} \<and>
     (case wp_started_at_ms p of None \<Rightarrow> True | Some s \<Rightarrow> s \<le> wp_updated_at_ms p)"

definition artifacts_ok :: "artifact_store \<Rightarrow> bool" where
  "artifacts_ok st \<longleftrightarrow> af_next_index st = length (af_records st) \<and>
     map ar_id (af_records st) = map artifact_id [1..<Suc (length (af_records st))]"

definition run_ok :: "workflow_run \<Rightarrow> bool" where
  "run_ok r \<longleftrightarrow> index_ok (map wp_id (rn_phases r)) (rn_phase_index r) \<and>
     list_all (phase_ok (rn_updated_at_ms r)) (rn_phases r) \<and>
     artifacts_ok (rn_artifacts r) \<and>
     ws_total_artifacts (rn_stats r) = length (af_records (rn_artifacts r)) \<and>
     rn_created_at_ms r \<le> rn_updated_at_ms r \<and>
     (rn_completed_at_ms r \<noteq> None) = is_terminal r \<and>
     rn_completed_at_ms r \<in> {None, Some (rn_updated_at_ms r)} \<and>
     (case rn_started_at_ms r of None \<Rightarrow> True
      | Some s \<Rightarrow> rn_created_at_ms r \<le> s \<and> s \<le> rn_updated_at_ms r)"

lemma index_ok_empty: "index_ok [] Map.empty"
  by (simp add: index_ok_def)

lemma index_ok_push:
  assumes "index_ok ids ix" "ix i = None"
  shows "index_ok (ids @ [i]) (ix(i \<mapsto> length ids))"
proof -
  have new: "ids ! k \<noteq> i" if "k < length ids" for k
    using assms that by (metis index_ok_def option.distinct(1))
  then have "i \<notin> set ids" by (auto simp: in_set_conv_nth)
  with assms(1) have "distinct (ids @ [i])" by (simp add: index_ok_def)
  moreover have "(ix(i \<mapsto> length ids)) j = Some k \<longleftrightarrow> k < length (ids @ [i]) \<and> (ids @ [i]) ! k = j"
    for j k
  proof (cases "k < length ids")
    case True
    with assms(1) new [of k] show ?thesis by (auto simp: index_ok_def nth_append)
  next
    case False
    with assms(1) show ?thesis by (auto simp: index_ok_def nth_append less_Suc_eq)
  qed
  ultimately show ?thesis by (simp add: index_ok_def)
qed

lemma phase_ok_mono: "phase_ok now p \<Longrightarrow> now \<le> now' \<Longrightarrow> phase_ok now' p"
  by (auto simp: phase_ok_def)

lemma phases_ok_mono:
  "list_all (phase_ok now) ps \<Longrightarrow> now \<le> now' \<Longrightarrow> list_all (phase_ok now') ps"
  by (auto simp: list_all_iff intro: phase_ok_mono)

lemma artifacts_ok_new:
  "artifacts_ok st \<Longrightarrow> artifacts_ok (snd (artifact_record_new now l s p st))"
  by (simp add: artifacts_ok_def artifact_record_new_def Let_def)

lemma run_ok_touch:
  assumes "run_ok r" "\<not> is_terminal r"
  shows "run_ok (snd (touch c r))"
  using assms phases_ok_mono [of "rn_updated_at_ms r" "rn_phases r" "max c (rn_updated_at_ms r)"]
  by (auto simp: run_ok_def touch_def Let_def split: option.splits)

lemma run_ok_phases:
  assumes "run_ok r" "map wp_id ps = map wp_id (rn_phases r)"
    "list_all (phase_ok (rn_updated_at_ms r)) ps"
  shows "run_ok (r\<lparr>rn_phases := ps\<rparr>)"
  using assms by (auto simp: run_ok_def split: option.splits)

lemma run_ok_set_phase:
  assumes "run_ok r" "rn_phase_index r i = Some k" "wp_id (f (rn_phases r ! k)) = wp_id (rn_phases r ! k)"
    "phase_ok (rn_updated_at_ms r) (rn_phases r ! k) \<Longrightarrow>
     phase_ok (rn_updated_at_ms r) (f (rn_phases r ! k))"
  shows "run_ok (set_phase k f r)"
proof -
  have k: "k < length (rn_phases r)" using assms(1,2) by (auto simp: run_ok_def index_ok_def)
  have ids: "map wp_id ((rn_phases r)[k := f (rn_phases r ! k)]) = map wp_id (rn_phases r)"
    using k assms(3) by (simp add: map_update list_update_same_conv)
  have "list_all (phase_ok (rn_updated_at_ms r)) ((rn_phases r)[k := f (rn_phases r ! k)])"
    using assms(1,4) k by (auto simp: run_ok_def list_all_length nth_list_update)
  with assms(1) ids show ?thesis
    unfolding set_phase_def by (intro run_ok_phases)
qed

lemma run_ok_push_phase:
  assumes "run_ok r" "rn_phase_index r (wp_id p) = None" "phase_ok (rn_updated_at_ms r) p"
  shows "run_ok (push_phase p r)"
  using assms index_ok_push [of "map wp_id (rn_phases r)" "rn_phase_index r" "wp_id p"]
  by (auto simp: run_ok_def push_phase_def split: option.splits)

lemma touch_simps [simp]:
  "fst (touch c r) = max c (rn_updated_at_ms r)"
  "rn_updated_at_ms (snd (touch c r)) = max c (rn_updated_at_ms r)"
  "rn_phases (snd (touch c r)) = rn_phases r"
  "rn_phase_index (snd (touch c r)) = rn_phase_index r"
  "rn_status (snd (touch c r)) = rn_status r"
  "rn_artifacts (snd (touch c r)) = rn_artifacts r"
  "rn_stats (snd (touch c r)) = rn_stats r"
  "rn_started_at_ms (snd (touch c r)) = rn_started_at_ms r"
  "rn_created_at_ms (snd (touch c r)) = rn_created_at_ms r"
  by (simp_all add: touch_def Let_def)

lemma run_ok_declare_phase: "run_ok r \<Longrightarrow> run_ok (declare_phase c i l n r)"
  using run_ok_touch [of r c]
  by (auto simp: declare_phase_def split_def Let_def phase_ok_def is_phase_terminal_def
      split: option.split
      intro!: run_ok_set_phase [of _ i] run_ok_push_phase)

lemma run_ok_start_phase: "run_ok r \<Longrightarrow> run_ok (start_phase c i l n r)"
  using run_ok_touch [of r c]
  by (auto simp: start_phase_def split_def Let_def phase_ok_def
      split: option.split
      intro!: run_ok_set_phase [of _ i] run_ok_push_phase; fastforce simp: is_phase_terminal_def split: option.splits)

lemma run_ok_on_open_phase:
  assumes "run_ok r" "\<And>now p. wp_id (f now p) = wp_id p"
    "\<And>now p. phase_ok now p \<Longrightarrow> \<not> is_phase_terminal (wp_status p) \<Longrightarrow> phase_ok now (f now p)"
  shows "run_ok (on_open_phase c i f r)"
  using assms run_ok_touch [of r c]
  by (auto simp: on_open_phase_def split_def Let_def split: option.split
      intro!: run_ok_set_phase [of _ i])

lemma run_ok_update_phase_counts: "run_ok r \<Longrightarrow> run_ok (update_phase_counts c i a b d r)"
  unfolding update_phase_counts_def
  by (rule run_ok_on_open_phase) (auto simp: phase_ok_def split: option.splits)

lemma run_ok_finish_phase:
  "run_ok r \<Longrightarrow> is_phase_terminal s \<Longrightarrow> run_ok (finish_phase c i s r)"
  unfolding finish_phase_def
  by (rule run_ok_on_open_phase) (auto simp: phase_ok_def split: option.splits)

lemma run_ok_record_artifact: "run_ok r \<Longrightarrow> run_ok (snd (record_artifact c c' l s p r))"
proof (cases "is_terminal r")
  case False
  assume r: "run_ok r"
  let ?st = "snd (artifact_record_new c l s p (rn_artifacts r))"
  let ?r = "r\<lparr>rn_artifacts := ?st,
     rn_stats := (rn_stats r)\<lparr>ws_total_artifacts := length (af_records ?st)\<rparr>\<rparr>"
  have "run_ok ?r"
    using r artifacts_ok_new [of "rn_artifacts r" c l s p]
    by (auto simp: run_ok_def split: option.splits)
  with False run_ok_touch [of ?r c'] show ?thesis
    by (simp add: record_artifact_def split_def Let_def)
qed (simp add: record_artifact_def)

lemma run_ok_add_agent_stats: "run_ok r \<Longrightarrow> run_ok (add_agent_stats c a f s t r)"
  unfolding add_agent_stats_def Let_def
  by (auto intro!: run_ok_touch) (auto simp: run_ok_def split: option.splits)

lemma run_ok_set_report_summary: "run_ok r \<Longrightarrow> run_ok (set_report_summary c s r)"
  unfolding set_report_summary_def
  by (auto intro!: run_ok_touch) (auto simp: run_ok_def split: option.splits)

lemma run_ok_set_template_stats: "run_ok r \<Longrightarrow> run_ok (set_template_stats c v r)"
  unfolding set_template_stats_def
  by (auto intro!: run_ok_touch) (auto simp: run_ok_def split: option.splits)

lemma run_ok_set_stop_reason: "run_ok r \<Longrightarrow> run_ok (set_stop_reason c s r)"
  unfolding set_stop_reason_def
  by (auto intro!: run_ok_touch) (auto simp: run_ok_def split: option.splits)

lemma run_ok_start_run: "run_ok r \<Longrightarrow> run_ok (start_run c r)"
  using run_ok_touch [of r c]
  by (auto simp: start_run_def split_def Let_def run_ok_def is_terminal_status_def
      split: option.splits)

lemma run_ok_finish_run: "run_ok r \<Longrightarrow> is_terminal_status s \<Longrightarrow> run_ok (finish_run c s r)"
  using run_ok_touch [of r c]
  by (auto simp: finish_run_def split_def Let_def run_ok_def split: option.splits)

lemma run_ok_cancel_phases:
  assumes "run_ok r" "\<not> is_terminal r"
  shows "run_ok (cancel_non_terminal_phases c r)"
proof -
  let ?now = "max c (rn_updated_at_ms r)"
  let ?f = "\<lambda>p. if is_phase_terminal (wp_status p) then p
     else p\<lparr>wp_status := WpCancelled, wp_updated_at_ms := ?now, wp_completed_at_ms := Some ?now\<rparr>"
  have t: "run_ok (snd (touch c r))" using assms by (rule run_ok_touch)
  have f: "phase_ok ?now p \<Longrightarrow> phase_ok ?now (?f p)" for p
    by (auto simp: phase_ok_def is_phase_terminal_def split: option.splits)
  have "list_all (phase_ok ?now) (rn_phases r)"
    using t by (simp add: run_ok_def)
  then have "list_all (phase_ok ?now) (map ?f (rn_phases r))"
    unfolding list_all_iff set_map using f by blast
  then have "run_ok ((snd (touch c r))\<lparr>rn_phases := map ?f (rn_phases r)\<rparr>)"
    by (intro run_ok_phases [OF t]) simp_all
  then show ?thesis unfolding cancel_non_terminal_phases_def split_def Let_def touch_simps .
qed

lemma run_ok_cancel_run: "run_ok r \<Longrightarrow> run_ok (cancel_run c c' r)"
  by (auto simp: cancel_run_def is_terminal_status_def
      intro!: run_ok_finish_run run_ok_cancel_phases)

lemmas run_ok_intros =
  run_ok_declare_phase run_ok_start_phase run_ok_update_phase_counts run_ok_finish_phase
  run_ok_record_artifact run_ok_add_agent_stats run_ok_set_report_summary
  run_ok_set_template_stats run_ok_set_stop_reason run_ok_start_run run_ok_finish_run
  run_ok_cancel_run

lemma run_ok_step: "run_ok r \<Longrightarrow> run_ok (apply_run_op x r)"
  by (cases "(x, r)" rule: apply_run_op.cases)
    (simp_all add: run_ok_intros is_phase_terminal_def is_terminal_status_def)

lemma run_ok_ops: "run_ok r \<Longrightarrow> run_ok (run_ops xs r)"
  by (induction xs arbitrary: r) (simp_all add: run_ops_def run_ok_step)

lemma run_ok_new: "run_ok (workflow_run_new now i t tm p l)"
  by (simp add: run_ok_def workflow_run_new_def index_ok_empty artifacts_ok_def
      is_terminal_status_def)

text \<open>
  C35: Whatever sequence of calls a workflow run receives, with whatever clock readings, its phases
  have distinct identifiers and the index gives exactly their positions; its artifacts are numbered
  from one in the order they were recorded, with distinct identifiers, and their count is the one of
  the statistics; no phase was updated after the run; the run, and a phase, has an end time exactly
  when it has ended, and times are ordered although the clock may run backwards.
\<close>

theorem workflow_run_sound:
  "let r = run_ops xs (workflow_run_new now run_id thread template preset label)
   in run_ok r \<and> distinct (map wa_id (wr_artifacts (workflow_view r)))"
proof -
  let ?r = "run_ops xs (workflow_run_new now run_id thread template preset label)"
  have ok: "run_ok ?r" by (intro run_ok_ops run_ok_new)
  have "map wa_id (list_summaries (rn_artifacts ?r)) = map ar_id (af_records (rn_artifacts ?r))"
    by (simp add: list_summaries_def artifact_summary_def)
  also have "\<dots> = map artifact_id [1..<Suc (length (af_records (rn_artifacts ?r)))]"
    using ok by (simp add: run_ok_def artifacts_ok_def)
  finally have "distinct (map wa_id (list_summaries (rn_artifacts ?r)))"
    by (simp add: distinct_map inj_on_def artifact_id_def str_simps del: upt_Suc)
  with ok show ?thesis by (simp add: workflow_view_def Let_def)
qed

section \<open>The life of a run\<close>

text \<open>
  What stays when a run goes on: the phases keep their positions and identifiers, a phase that has
  ended keeps everything, and the time of the last update does not go back.
\<close>

definition later_run :: "workflow_run \<Rightarrow> workflow_run \<Rightarrow> bool" where
  "later_run r r' \<longleftrightarrow> length (rn_phases r) \<le> length (rn_phases r') \<and>
     (\<forall>k < length (rn_phases r). wp_id (rn_phases r' ! k) = wp_id (rn_phases r ! k) \<and>
        (is_phase_terminal (wp_status (rn_phases r ! k)) \<longrightarrow> rn_phases r' ! k = rn_phases r ! k)) \<and>
     rn_updated_at_ms r \<le> rn_updated_at_ms r'"

definition cancelled_is_closed :: "workflow_run \<Rightarrow> bool" where
  "cancelled_is_closed r \<longleftrightarrow>
     (rn_status r = WrCancelled \<longrightarrow> list_all (is_phase_terminal \<circ> wp_status) (rn_phases r))"

lemma later_refl: "later_run r r"
  by (simp add: later_run_def)

lemma later_trans: "later_run r s \<Longrightarrow> later_run s t \<Longrightarrow> later_run r t"
  unfolding later_run_def by (metis order_less_le_trans order_trans)

lemma later_same_phases:
  "rn_phases r' = rn_phases r \<Longrightarrow> rn_updated_at_ms r \<le> rn_updated_at_ms r' \<Longrightarrow> later_run r r'"
  by (simp add: later_run_def)

lemma later_touch: "later_run r (snd (touch c r))"
  by (intro later_same_phases) simp_all

lemma later_set_phase:
  "\<not> is_phase_terminal (wp_status (rn_phases r ! k)) \<Longrightarrow>
   wp_id (f (rn_phases r ! k)) = wp_id (rn_phases r ! k) \<Longrightarrow> later_run r (set_phase k f r)"
  unfolding later_run_def set_phase_def by (simp, metis nth_list_update_eq nth_list_update_neq)

lemma later_push_phase: "later_run r (push_phase p r)"
  by (auto simp: later_run_def push_phase_def nth_append)

lemma later_on_open_phase:
  "(\<And>now p. wp_id (f now p) = wp_id p) \<Longrightarrow> later_run r (on_open_phase c i f r)"
  by (auto simp: on_open_phase_def split_def Let_def later_refl split: option.split
      intro!: later_trans [OF later_touch [of r c]] later_set_phase)

lemma later_declare_phase: "later_run r (declare_phase c i l n r)"
  by (auto simp: declare_phase_def split_def Let_def later_refl split: option.split
      intro!: later_trans [OF later_touch [of r c]] later_set_phase later_push_phase)

lemma later_start_phase: "later_run r (start_phase c i l n r)"
  by (auto simp: start_phase_def split_def Let_def later_refl split: option.split
      intro!: later_trans [OF later_touch [of r c]] later_set_phase later_push_phase)

lemma later_cancel_phases: "later_run r (cancel_non_terminal_phases c r)"
  by (auto simp: later_run_def cancel_non_terminal_phases_def split_def Let_def)

lemma later_finish_run: "later_run r (finish_run c s r)"
  by (auto simp: finish_run_def split_def Let_def intro!: later_same_phases)

lemma later_step: "later_run r (apply_run_op x r)"
  by (cases "(x, r)" rule: apply_run_op.cases)
    (auto simp: later_declare_phase later_start_phase later_finish_run update_phase_counts_def
      finish_phase_def start_run_def record_artifact_def add_agent_stats_def cancel_run_def
      set_report_summary_def set_template_stats_def set_stop_reason_def split_def Let_def later_refl
      intro!: later_on_open_phase later_same_phases
        later_trans [OF later_cancel_phases later_finish_run])

lemma later_ops: "later_run r (run_ops xs r)"
proof (induction xs arbitrary: r)
  case (Cons x xs)
  from later_trans [OF later_step [of r x] Cons [of "apply_run_op x r"]]
  show ?case by (simp add: run_ops_def)
qed (simp add: run_ops_def later_refl)

lemma terminal_step: "is_terminal r \<Longrightarrow> apply_run_op x r = r"
  by (cases "(x, r)" rule: apply_run_op.cases)
    (simp_all add: declare_phase_def start_phase_def on_open_phase_def update_phase_counts_def
      finish_phase_def start_run_def record_artifact_def add_agent_stats_def cancel_run_def
      set_report_summary_def set_template_stats_def set_stop_reason_def finish_run_def)

lemma terminal_ops: "is_terminal r \<Longrightarrow> run_ops xs r = r"
  by (induction xs) (simp_all add: run_ops_def terminal_step)

lemma terminal_statuses:
  "is_terminal_status WrCompleted" "is_terminal_status WrFailed" "is_terminal_status WrCancelled"
  by (simp_all add: is_terminal_status_def)

lemma ended_is_terminal: "x \<in> {RoComplete, RoFail, RoCancel} \<Longrightarrow> is_terminal (apply_run_op (x, c) r)"
proof -
  have "is_terminal_status s \<Longrightarrow> is_terminal (finish_run t s r)" for t s r
    by (simp add: finish_run_def split_def Let_def)
  then show "x \<in> {RoComplete, RoFail, RoCancel} \<Longrightarrow> ?thesis"
    by (cases c) (auto simp: cancel_run_def terminal_statuses)
qed

lemma status_step:
  "rn_status (apply_run_op (x, c) r) = WrCancelled \<Longrightarrow> x = RoCancel \<or> rn_status r = WrCancelled"
  by (cases "((x, c), r)" rule: apply_run_op.cases)
    (auto simp: declare_phase_def start_phase_def on_open_phase_def update_phase_counts_def
      finish_phase_def start_run_def record_artifact_def add_agent_stats_def
      set_report_summary_def set_template_stats_def set_stop_reason_def finish_run_def
      set_phase_def push_phase_def split_def Let_def
      split: option.splits if_splits)

lemma cancelled_closed_step:
  assumes "cancelled_is_closed r"
  shows "cancelled_is_closed (apply_run_op (x, c) r)"
proof (cases "is_terminal r \<or> x \<noteq> RoCancel")
  case True
  with assms status_step [of x c r] terminal_step [of r "(x, c)"] show ?thesis
    by (auto simp: cancelled_is_closed_def is_terminal_status_def)
next
  case False
  then show ?thesis
    by (cases c) (auto simp: cancelled_is_closed_def cancel_run_def finish_run_def
        cancel_non_terminal_phases_def split_def Let_def list_all_iff is_phase_terminal_def)
qed

lemma cancelled_closed_ops: "cancelled_is_closed r \<Longrightarrow> cancelled_is_closed (run_ops xs r)"
proof (induction xs arbitrary: r)
  case (Cons x xs)
  then show ?case
    by (cases x) (simp only: run_ops_def fold_simps comp_apply cancelled_closed_step)
qed (simp add: run_ops_def)

text \<open>
  In every state of a workflow run, whatever calls follow, the phases stay in place and one that
  has ended is never changed, restarted or counted again; a run that was completed, failed or
  cancelled is never changed by any further call; and a cancelled run has no open phase.
\<close>

theorem workflow_life_cycle:
  "let r = run_ops xs (workflow_run_new now run_id thread template preset label)
   in later_run r (run_ops ys r) \<and> cancelled_is_closed r \<and>
      run_ops ys (apply_run_op (RoComplete, c) r) = apply_run_op (RoComplete, c) r \<and>
      run_ops ys (apply_run_op (RoFail, c) r) = apply_run_op (RoFail, c) r \<and>
      run_ops ys (apply_run_op (RoCancel, c) r) = apply_run_op (RoCancel, c) r"
proof -
  let ?new = "workflow_run_new now run_id thread template preset label"
  have "cancelled_is_closed ?new"
    by (simp add: cancelled_is_closed_def workflow_run_new_def)
  then have "cancelled_is_closed (run_ops xs ?new)" by (rule cancelled_closed_ops)
  then show ?thesis
    by (simp add: Let_def later_ops terminal_ops ended_is_terminal)
qed

end
