(* ===== verification/Scheduler.thy ===== *)
theory Scheduler
  imports WorkflowRun "HOL-Library.Multiset" "HOL-Library.More_List"
begin

text \<open>
  The scheduler of a workflow phase (\<^verbatim>\<open>runtime/workflow/scheduler.rs\<close>) and the events it sends to
  its sink (\<^verbatim>\<open>progress.rs\<close>). The tasks run concurrently and the cancellation may come at any
  time, so that a run of \<^verbatim>\<open>run_inner\<close> is a sequence of choices of the environment: the answers of the
  controller, the task that is joined next, the branch that \<^verbatim>\<open>select!\<close> takes, and the moment of the
  cancellation. The outcome of a task is a parameter, by its position in the input.
\<close>

section \<open>Progress events\<close>

datatype progress_event =
    PeDeclared string string nat
  | PeStarted string string nat
  | PeCountsUpdated string nat nat nat
  | PeCompleted string
  | PeFailed string
  | PeCancelled string
  | PeSkipped string

text \<open>What the sink of the app server does with an event: it calls the handle of the run.\<close>

fun sink_op :: "progress_event \<Rightarrow> run_op" where
  "sink_op (PeDeclared i l n) = RoDeclarePhase i l n"
| "sink_op (PeStarted i l n) = RoStartPhase i l n"
| "sink_op (PeCountsUpdated i a b c) = RoUpdateCounts i a b c"
| "sink_op (PeCompleted i) = RoCompletePhase i"
| "sink_op (PeFailed i) = RoFailPhase i"
| "sink_op (PeCancelled i) = RoCancelPhase i"
| "sink_op (PeSkipped i) = RoSkipPhase i"

section \<open>The state of a run\<close>

datatype sched_pc = PcFill | PcJoin | PcEnd | PcDone

record sched_config =
  sg_max_concurrency :: nat
  sg_progress :: "(string \<times> string) option"
  sg_controlled :: bool

definition scheduler_new :: "nat \<Rightarrow> (string \<times> string) option \<Rightarrow> bool \<Rightarrow> sched_config" where
  "scheduler_new m progress controlled =
     \<lparr> sg_max_concurrency = max m 1, sg_progress = progress, sg_controlled = controlled \<rparr>"

type_synonym 'v task_result = "string + 'v \<times> int option"

record 'v schedule =
  sd_pc :: sched_pc
  sd_next :: nat
  sd_total :: nat
  sd_running :: "nat list"
  sd_calls :: nat
  sd_skipped :: nat
  sd_completed :: nat
  sd_failed :: nat
  sd_tokens :: "int option"
  sd_outputs :: "(nat \<times> 'v) list"
  sd_finished :: bool
  sd_stopped :: bool
  sd_cancelled :: bool
  sd_events :: "progress_event list"

definition emit :: "sched_config \<Rightarrow> (string \<Rightarrow> string \<Rightarrow> progress_event) \<Rightarrow> 'v schedule \<Rightarrow> 'v schedule"
  where
  "emit cfg e s = (case sg_progress cfg of
      None \<Rightarrow> s | Some (i, l) \<Rightarrow> s\<lparr>sd_events := sd_events s @ [e i l]\<rparr>)"

definition emit_counts :: "sched_config \<Rightarrow> 'v schedule \<Rightarrow> 'v schedule" where
  "emit_counts cfg s =
     emit cfg (\<lambda>i _. PeCountsUpdated i (sd_completed s) (sd_failed s) (sd_skipped s)) s"

definition sched_start :: "sched_config \<Rightarrow> bool \<Rightarrow> nat \<Rightarrow> 'v schedule" where
  "sched_start cfg cancelled n = emit cfg (\<lambda>i l. PeStarted i l n)
     \<lparr> sd_pc = PcFill, sd_next = 0, sd_total = n, sd_running = [], sd_calls = 0, sd_skipped = 0,
       sd_completed = 0, sd_failed = 0, sd_tokens = None, sd_outputs = [], sd_finished = False,
       sd_stopped = False, sd_cancelled = cancelled, sd_events = [] \<rparr>"

section \<open>Steps\<close>

datatype sched_choice =
    ScFill bool
  | ScJoin nat bool
  | ScWakeCancelled
  | ScCancel
  | ScFinish

text \<open>The tasks that the iterator still holds.\<close>

abbreviation sd_left :: "'v schedule \<Rightarrow> nat" where
  "sd_left s \<equiv> sd_total s - sd_next s"

definition leave_fill :: "'v schedule \<Rightarrow> 'v schedule" where
  "leave_fill s = s\<lparr>sd_pc := (if sd_running s = [] then PcEnd else PcJoin)\<rparr>"

text \<open>One round of the loop that fills the join set; the argument is the answer of the controller.\<close>

definition fill_step :: "sched_config \<Rightarrow> bool \<Rightarrow> 'v schedule \<Rightarrow> 'v schedule" where
  "fill_step cfg should_schedule s =
     (if sd_finished s \<or> sg_max_concurrency cfg \<le> length (sd_running s) then leave_fill s
      else if sd_cancelled s
      then leave_fill (emit_counts cfg
             (s\<lparr>sd_skipped := sd_skipped s + sd_left s, sd_finished := True\<rparr>))
      else if sd_left s = 0 then leave_fill (s\<lparr>sd_finished := True\<rparr>)
      else let index = sd_next s; s = s\<lparr>sd_next := Suc index\<rparr> in
        if sg_controlled cfg \<and> \<not> should_schedule
        then leave_fill (emit_counts cfg
               (s\<lparr>sd_skipped := sd_skipped s + (sd_left s + 1), sd_finished := True,
                  sd_stopped := True\<rparr>))
        else s\<lparr>sd_calls := sd_calls s + 1, sd_running := sd_running s @ [index]\<rparr>)"

definition join_step ::
  "sched_config \<Rightarrow> (nat \<Rightarrow> 'v task_result) \<Rightarrow> nat \<Rightarrow> bool \<Rightarrow> 'v schedule \<Rightarrow> 'v schedule" where
  "join_step cfg res i should_continue s =
     (let s = s\<lparr>sd_running := remove1 i (sd_running s), sd_pc := PcFill\<rparr>
      in emit_counts cfg
       (case res i of
          Inr (v, tokens) \<Rightarrow>
            let s = s\<lparr>sd_tokens := (case tokens of None \<Rightarrow> sd_tokens s
                        | Some t \<Rightarrow> Some ((case sd_tokens s of None \<Rightarrow> 0 | Some u \<Rightarrow> u) + t)),
                      sd_outputs := sd_outputs s @ [(i, v)],
                      sd_completed := sd_completed s + 1\<rparr>
            in if sg_controlled cfg \<and> \<not> sd_finished s \<and> \<not> should_continue
               then s\<lparr>sd_skipped := sd_skipped s + sd_left s, sd_finished := True,
                      sd_stopped := True\<rparr>
               else s
        | Inl _ \<Rightarrow> s\<lparr>sd_failed := sd_failed s + 1\<rparr>))"

definition wake_step :: "sched_config \<Rightarrow> 'v schedule \<Rightarrow> 'v schedule" where
  "wake_step cfg s = emit_counts cfg
     (s\<lparr>sd_skipped := sd_skipped s + sd_left s, sd_finished := True, sd_pc := PcFill\<rparr>)"

definition phase_outcome :: "'v schedule \<Rightarrow> string \<Rightarrow> progress_event" where
  "phase_outcome s i =
     (if sd_cancelled s then PeCancelled i
      else if sd_stopped s then PeFailed i
      else if sd_total s = 0 \<and> sd_skipped s = 0 \<and> sd_calls s = 0 then PeSkipped i
      else if 0 < sd_failed s then PeFailed i
      else PeCompleted i)"

fun sched_next ::
  "sched_config \<Rightarrow> (nat \<Rightarrow> 'v task_result) \<Rightarrow> sched_choice \<Rightarrow> 'v schedule \<Rightarrow> 'v schedule option" where
  "sched_next cfg res (ScFill b) s = (if sd_pc s = PcFill then Some (fill_step cfg b s) else None)"
| "sched_next cfg res (ScJoin i b) s =
     (if sd_pc s = PcJoin \<and> i \<in> set (sd_running s) then Some (join_step cfg res i b s) else None)"
| "sched_next cfg res ScWakeCancelled s =
     (if sd_pc s = PcJoin \<and> \<not> sd_finished s \<and> sd_cancelled s then Some (wake_step cfg s) else None)"
| "sched_next cfg res ScCancel s =
     (if sd_cancelled s \<or> sd_pc s = PcDone then None else Some (s\<lparr>sd_cancelled := True\<rparr>))"
| "sched_next cfg res ScFinish s =
     (if sd_pc s = PcEnd
      then Some (emit cfg (\<lambda>i _. phase_outcome s i) (s\<lparr>sd_pc := PcDone\<rparr>)) else None)"

primrec sched_run ::
  "sched_config \<Rightarrow> (nat \<Rightarrow> 'v task_result) \<Rightarrow> sched_choice list \<Rightarrow> 'v schedule \<Rightarrow> 'v schedule option" where
  "sched_run cfg res [] s = Some s"
| "sched_run cfg res (c # cs) s =
     (case sched_next cfg res c s of None \<Rightarrow> None | Some s' \<Rightarrow> sched_run cfg res cs s')"

section \<open>The report\<close>

record 'v schedule_report =
  sr_outputs :: "'v list"
  sr_agent_calls :: nat
  sr_failed_agent_calls :: nat
  sr_skipped_agent_calls :: nat
  sr_control_stopped :: bool
  sr_tokens_used :: "int option"

definition schedule_report :: "'v schedule \<Rightarrow> 'v schedule_report" where
  "schedule_report s = \<lparr> sr_outputs = map snd (sort_key fst (sd_outputs s)),
     sr_agent_calls = sd_calls s, sr_failed_agent_calls = sd_failed s,
     sr_skipped_agent_calls = sd_skipped s, sr_control_stopped = sd_stopped s,
     sr_tokens_used = sd_tokens s \<rparr>"

section \<open>The invariant\<close>

definition succeeded :: "(nat \<Rightarrow> 'v task_result) \<Rightarrow> nat \<Rightarrow> bool" where
  "succeeded res i \<longleftrightarrow> \<not> isl (res i)"

definition task_value :: "(nat \<Rightarrow> 'v task_result) \<Rightarrow> nat \<Rightarrow> 'v" where
  "task_value res i = fst (projr (res i))"

definition task_tokens :: "(nat \<Rightarrow> 'v task_result) \<Rightarrow> nat \<Rightarrow> int option" where
  "task_tokens res i = (case res i of Inl _ \<Rightarrow> None | Inr (_, t) \<Rightarrow> t)"

definition sum_tokens :: "int option list \<Rightarrow> int option" where
  "sum_tokens ts = (let xs = List.map_filter id ts in if xs = [] then None else Some (sum_list xs))"

text \<open>The outputs are those of the tasks that were joined and succeeded.\<close>

definition outputs_ok ::
  "(nat \<Rightarrow> 'v task_result) \<Rightarrow> nat \<Rightarrow> nat list \<Rightarrow> (nat \<times> 'v) list \<Rightarrow> int option \<Rightarrow> bool" where
  "outputs_ok res calls running outs tokens \<longleftrightarrow>
     distinct running \<and> set running \<subseteq> {..<calls} \<and> distinct (map fst outs) \<and>
     set (map fst outs) = {i. i < calls \<and> i \<notin> set running \<and> succeeded res i} \<and>
     map snd outs = map (task_value res) (map fst outs) \<and>
     tokens = sum_tokens (map (task_tokens res) (map fst outs))"

definition sched_ok :: "sched_config \<Rightarrow> (nat \<Rightarrow> 'v task_result) \<Rightarrow> nat \<Rightarrow> 'v schedule \<Rightarrow> bool" where
  "sched_ok cfg res n s \<longleftrightarrow>
     sd_total s = n \<and> sd_next s \<le> n \<and> 0 < sg_max_concurrency cfg \<and>
     (if sd_finished s then sd_calls s + sd_skipped s = n
      else sd_calls s = sd_next s \<and> sd_skipped s = 0 \<and> \<not> sd_stopped s) \<and>
     sd_calls s = sd_completed s + sd_failed s + length (sd_running s) \<and>
     length (sd_running s) \<le> sg_max_concurrency cfg \<and>
     outputs_ok res (sd_calls s) (sd_running s) (sd_outputs s) (sd_tokens s) \<and>
     sd_completed s = length (sd_outputs s) \<and>
     (sd_pc s = PcJoin \<longrightarrow> sd_running s \<noteq> []) \<and>
     (sd_pc s \<in> {PcEnd, PcDone} \<longrightarrow> sd_running s = [] \<and> sd_finished s) \<and>
     (sd_skipped s = 0 \<or> sd_cancelled s \<or> sd_stopped s)"

lemma emit_simps [simp]:
  "sd_pc (emit cfg e s) = sd_pc s" "sd_next (emit cfg e s) = sd_next s"
  "sd_total (emit cfg e s) = sd_total s" "sd_running (emit cfg e s) = sd_running s"
  "sd_calls (emit cfg e s) = sd_calls s" "sd_skipped (emit cfg e s) = sd_skipped s"
  "sd_completed (emit cfg e s) = sd_completed s" "sd_failed (emit cfg e s) = sd_failed s"
  "sd_tokens (emit cfg e s) = sd_tokens s" "sd_outputs (emit cfg e s) = sd_outputs s"
  "sd_finished (emit cfg e s) = sd_finished s" "sd_stopped (emit cfg e s) = sd_stopped s"
  "sd_cancelled (emit cfg e s) = sd_cancelled s"
  by (simp_all add: emit_def split: option.split prod.split)

lemma sched_ok_emit [simp]: "sched_ok cfg res n (emit cfg' e s) = sched_ok cfg res n s"
  by (simp only: sched_ok_def emit_simps)

lemma emit_counts_simps [simp]:
  "sd_pc (emit_counts cfg s) = sd_pc s" "sd_finished (emit_counts cfg s) = sd_finished s"
  by (simp_all add: emit_counts_def)

lemma sched_ok_emit_counts [simp]: "sched_ok cfg res n (emit_counts cfg' s) = sched_ok cfg res n s"
  by (simp add: emit_counts_def)

lemma outputs_ok_Nil: "outputs_ok res 0 [] [] None"
  by (simp add: outputs_ok_def sum_tokens_def)

lemma sched_ok_start: "0 < sg_max_concurrency cfg \<Longrightarrow> sched_ok cfg res n (sched_start cfg c n)"
  by (simp add: sched_start_def) (simp add: sched_ok_def outputs_ok_Nil)

lemma sum_tokens_snoc:
  "sum_tokens (ts @ [t]) = (case t of None \<Rightarrow> sum_tokens ts
     | Some x \<Rightarrow> Some ((case sum_tokens ts of None \<Rightarrow> 0 | Some y \<Rightarrow> y) + x))"
proof -
  have "List.map_filter id (ts @ [t]) = List.map_filter id ts @ (case t of None \<Rightarrow> [] | Some x \<Rightarrow> [x])"
    by (induction ts) (auto split: option.splits)
  then show ?thesis by (auto simp: sum_tokens_def Let_def split: option.splits)
qed

lemma outputs_ok_spawn: "outputs_ok res c run outs t \<Longrightarrow> outputs_ok res (Suc c) (run @ [c]) outs t"
  by (auto simp: outputs_ok_def less_Suc_eq)

lemma outputs_ok_joined:
  assumes "outputs_ok res c run outs t" "i \<in> set run" "res i = Inr (v, tk)"
  shows "outputs_ok res c (remove1 i run) (outs @ [(i, v)])
     (case tk of None \<Rightarrow> t | Some x \<Rightarrow> Some ((case t of None \<Rightarrow> 0 | Some u \<Rightarrow> u) + x))"
  using assms by (auto simp: outputs_ok_def set_remove1_eq succeeded_def task_value_def
      task_tokens_def sum_tokens_snoc)

lemma outputs_ok_failed:
  assumes "outputs_ok res c run outs t" "i \<in> set run" "res i = Inl e"
  shows "outputs_ok res c (remove1 i run) outs t"
  using assms by (auto simp: outputs_ok_def set_remove1_eq succeeded_def)

lemma sched_ok_leave_fill:
  "sched_ok cfg res n s \<Longrightarrow> sd_finished s \<or> sd_running s \<noteq> [] \<Longrightarrow> sched_ok cfg res n (leave_fill s)"
  by (auto simp: sched_ok_def leave_fill_def)

lemma sched_ok_fill:
  assumes "sched_ok cfg res n s" "sd_pc s = PcFill"
  shows "sched_ok cfg res n (fill_step cfg b s)"
  using assms outputs_ok_spawn [of res "sd_next s" "sd_running s" "sd_outputs s" "sd_tokens s"]
  by (auto simp: fill_step_def Let_def emit_counts_def intro!: sched_ok_leave_fill)
    (auto simp: sched_ok_def split: if_splits)

lemma sched_ok_join:
  assumes "sched_ok cfg res n s" "i \<in> set (sd_running s)"
  shows "sched_ok cfg res n (join_step cfg res i b s)"
proof -
  have l: "length (remove1 i (sd_running s)) = length (sd_running s) - 1" "0 < length (sd_running s)"
    using assms(2) by (auto simp: length_remove1)
  have o: "outputs_ok res (sd_calls s) (sd_running s) (sd_outputs s) (sd_tokens s)"
    using assms(1) unfolding sched_ok_def by blast
  show ?thesis
  proof (cases "res i")
    case (Inl e)
    from assms(1) l outputs_ok_failed [OF o assms(2) Inl] show ?thesis
      by (simp add: join_step_def Inl Let_def) (auto simp: sched_ok_def)
  next
    case (Inr p)
    then obtain v tk where r: "res i = Inr (v, tk)" by (cases p) auto
    from assms(1) l outputs_ok_joined [OF o assms(2) r] show ?thesis
      by (simp add: join_step_def r Let_def) (auto simp: sched_ok_def split: option.split)
  qed
qed

lemma sched_ok_wake:
  "sched_ok cfg res n s \<Longrightarrow> \<not> sd_finished s \<Longrightarrow> sd_cancelled s \<Longrightarrow> sched_ok cfg res n (wake_step cfg s)"
  by (auto simp: wake_step_def) (auto simp: sched_ok_def)

lemma sched_ok_next:
  assumes "sched_ok cfg res n s" "sched_next cfg res c s = Some s'"
  shows "sched_ok cfg res n s'"
proof (cases c)
  case (ScFill b)
  with assms show ?thesis by (auto intro: sched_ok_fill split: if_splits)
next
  case (ScJoin i b)
  with assms show ?thesis by (auto intro: sched_ok_join split: if_splits)
next
  case ScWakeCancelled
  with assms show ?thesis by (auto intro: sched_ok_wake split: if_splits)
next
  case ScCancel
  with assms show ?thesis by (auto simp: sched_ok_def split: if_splits)
next
  case ScFinish
  with assms show ?thesis by (auto split: if_splits) (auto simp: sched_ok_def)
qed

lemma sched_ok_run:
  "sched_run cfg res cs s = Some s' \<Longrightarrow> sched_ok cfg res n s \<Longrightarrow> sched_ok cfg res n s'"
  by (induction cs arbitrary: s) (auto intro: sched_ok_next split: option.splits)

section \<open>Outcome\<close>

lemma sort_key_distinct:
  assumes "distinct (map fst xs)"
  shows "map fst (sort_key fst xs) = sorted_list_of_set (set (map fst xs))"
  using assms by (intro sorted_distinct_set_unique) (simp_all add: distinct_map)

lemma sorted_list_of_filter: "sorted_list_of_set {i. i < c \<and> P i} = filter P [0..<c]"
  by (intro sorted_distinct_set_unique) (auto simp: sorted_wrt_filter)

lemma sum_tokens_perm: "mset ts = mset us \<Longrightarrow> sum_tokens ts = sum_tokens us"
proof -
  assume "mset ts = mset us"
  then have m: "mset (List.map_filter id ts) = mset (List.map_filter id us)"
    by (simp add: List.map_filter_def)
  then have "sum_list (List.map_filter id ts) = sum_list (List.map_filter id us)"
    by (metis sum_mset_sum_list)
  moreover have "List.map_filter id ts = [] \<longleftrightarrow> List.map_filter id us = []"
    using m by (metis mset_zero_iff)
  ultimately show ?thesis by (simp add: sum_tokens_def Let_def)
qed

lemma outputs_sorted:
  assumes "outputs_ok res c [] outs t"
  shows "map snd (sort_key fst outs) = map (task_value res) (filter (succeeded res) [0..<c])"
    and "t = sum_tokens (map (task_tokens res) (filter (succeeded res) [0..<c]))"
    and "length outs = length (filter (succeeded res) [0..<c])"
proof -
  let ?ss = "sort_key fst outs"
  from assms have d: "distinct (map fst outs)"
    and st: "set (map fst outs) = {i. i < c \<and> succeeded res i}"
    and v: "map snd outs = map (task_value res) (map fst outs)"
    and t: "t = sum_tokens (map (task_tokens res) (map fst outs))"
    by (simp_all add: outputs_ok_def)
  have f: "map fst ?ss = filter (succeeded res) [0..<c]"
    using sort_key_distinct [OF d] unfolding st sorted_list_of_filter .
  have "snd x = task_value res (fst x)" if "x \<in> set ?ss" for x
    using v that by simp
  then have "map snd ?ss = map (task_value res) (map fst ?ss)" by simp
  then show "map snd ?ss = map (task_value res) (filter (succeeded res) [0..<c])"
    unfolding f .
  have m: "mset (map fst outs) = mset (filter (succeeded res) [0..<c])"
    unfolding f [symmetric] by simp
  show "t = sum_tokens (map (task_tokens res) (filter (succeeded res) [0..<c]))"
    unfolding t by (intro sum_tokens_perm) (metis m mset_map)
  show "length outs = length (filter (succeeded res) [0..<c])"
    using m by (metis length_map mset_eq_length)
qed

lemma schedule_outcome_eq:
  assumes "sched_ok cfg res n s" "sd_pc s = PcDone"
  defines "c \<equiv> sd_calls s"
  shows "schedule_report s = \<lparr>
     sr_outputs = map (task_value res) (filter (succeeded res) [0..<c]),
     sr_agent_calls = c,
     sr_failed_agent_calls = length (filter (isl \<circ> res) [0..<c]),
     sr_skipped_agent_calls = n - c,
     sr_control_stopped = sd_stopped s,
     sr_tokens_used = sum_tokens (map (task_tokens res) (filter (succeeded res) [0..<c])) \<rparr>"
    and "c \<le> n" "c = n \<or> sd_cancelled s \<or> sd_stopped s"
proof -
  from assms have r: "sd_running s = []" and f: "sd_finished s" and cs: "c + sd_skipped s = n"
    and cc: "c = sd_completed s + sd_failed s" and cl: "sd_completed s = length (sd_outputs s)"
    and sk: "sd_skipped s = 0 \<or> sd_cancelled s \<or> sd_stopped s"
    and ok: "outputs_ok res c [] (sd_outputs s) (sd_tokens s)"
    by (auto simp: sched_ok_def split: if_splits)
  note os = outputs_sorted [OF ok]
  have "length (filter (succeeded res) [0..<c]) + length (filter (isl \<circ> res) [0..<c]) = c"
    using sum_length_filter_compl [of "succeeded res" "[0..<c]"]
    by (simp add: succeeded_def comp_def)
  then have "sd_failed s = length (filter (isl \<circ> res) [0..<c])"
    using cc cl os(3) by linarith
  then show "schedule_report s = \<lparr>
     sr_outputs = map (task_value res) (filter (succeeded res) [0..<c]),
     sr_agent_calls = c,
     sr_failed_agent_calls = length (filter (isl \<circ> res) [0..<c]),
     sr_skipped_agent_calls = n - c,
     sr_control_stopped = sd_stopped s,
     sr_tokens_used = sum_tokens (map (task_tokens res) (filter (succeeded res) [0..<c])) \<rparr>"
    using os(1,2) cs by (simp add: schedule_report_def c_def)
  show "c \<le> n" using cs by simp
  show "c = n \<or> sd_cancelled s \<or> sd_stopped s" using cs sk by auto
qed

section \<open>Termination\<close>

definition sched_measure :: "'v schedule \<Rightarrow> nat" where
  "sched_measure s = 3 * sd_left s + 2 * length (sd_running s) + (if sd_finished s then 0 else 2) +
     (case sd_pc s of PcFill \<Rightarrow> 2 | PcDone \<Rightarrow> 0 | _ \<Rightarrow> 1) + (if sd_cancelled s then 0 else 1)"

lemma leave_fill_measure:
  "sd_pc s = PcFill \<Longrightarrow> sched_measure (leave_fill s) < sched_measure s"
  by (simp add: leave_fill_def sched_measure_def)

lemma emit_measure [simp]: "sched_measure (emit cfg e s) = sched_measure s"
  by (simp only: sched_measure_def emit_simps)

lemma sched_next_measure:
  assumes "sched_next cfg res c s = Some s'"
  shows "sched_measure s' < sched_measure s"
proof (cases c)
  case (ScFill b)
  with assms show ?thesis
    by (auto simp: fill_step_def emit_counts_def Let_def leave_fill_def split: if_splits,
        auto simp: sched_measure_def)
next
  case (ScJoin i b)
  with assms have i: "sd_pc s = PcJoin" "i \<in> set (sd_running s)" and s': "s' = join_step cfg res i b s"
    by (auto split: if_splits)
  have l: "length (sd_running s) = Suc (length (remove1 i (sd_running s)))"
    using length_pos_if_in_set [OF i(2)] i(2) by (simp add: length_remove1)
  show ?thesis
    unfolding s' using i(1) l
    by (auto simp: join_step_def emit_counts_def Let_def split: sum.split prod.split,
        auto simp: sched_measure_def)
next
  case ScWakeCancelled
  with assms show ?thesis
    by (auto simp: wake_step_def emit_counts_def split: if_splits) (auto simp: sched_measure_def)
qed (use assms in \<open>auto simp: sched_measure_def split: if_splits\<close>)

lemma sched_run_measure:
  "sched_run cfg res cs s = Some s' \<Longrightarrow> length cs + sched_measure s' \<le> sched_measure s"
proof (induction cs arbitrary: s)
  case (Cons c cs)
  then obtain t where t: "sched_next cfg res c s = Some t" "sched_run cfg res cs t = Some s'"
    by (auto split: option.splits)
  from Cons.IH [OF t(2)] sched_next_measure [OF t(1)] show ?case by simp
qed simp

lemma sched_progress:
  assumes "sched_ok cfg res n s" "sd_pc s \<noteq> PcDone"
  shows "sched_next cfg res (case sd_pc s of PcFill \<Rightarrow> ScFill True
    | PcJoin \<Rightarrow> ScJoin (hd (sd_running s)) True | _ \<Rightarrow> ScFinish) s \<noteq> None"
  using assms by (cases "sd_pc s") (auto simp: sched_ok_def)

text \<open>
  C32: Whatever the order in which tasks end, the controller answers and the cancellation comes, a
  finished run of the scheduler reports this: the calls are the first tasks of the input, all of them
  unless the run was cancelled or stopped by the controller; the outputs are the values of those that
  succeeded, in input order; calls and skipped tasks add up to the input, failures are counted, and
  the tokens are the sum of those of the successes.
\<close>

theorem schedule_outcome:
  assumes "sched_run (scheduler_new m progress controlled) res cs
      (sched_start (scheduler_new m progress controlled) cancelled n) = Some s"
    and "sd_pc s = PcDone"
  shows "let c = sd_calls s in schedule_report s = \<lparr>
     sr_outputs = map (task_value res) (filter (succeeded res) [0..<c]),
     sr_agent_calls = c,
     sr_failed_agent_calls = length (filter (isl \<circ> res) [0..<c]),
     sr_skipped_agent_calls = n - c,
     sr_control_stopped = sd_stopped s,
     sr_tokens_used = sum_tokens (map (task_tokens res) (filter (succeeded res) [0..<c])) \<rparr> \<and>
     c \<le> n \<and> (c = n \<or> sd_cancelled s \<or> sd_stopped s)"
proof -
  have "sched_ok (scheduler_new m progress controlled) res n s"
    by (rule sched_ok_run [OF assms(1) sched_ok_start]) (simp add: scheduler_new_def)
  from schedule_outcome_eq [OF this assms(2)] show ?thesis by (simp add: Let_def)
qed

definition sample_tasks :: "nat \<Rightarrow> string task_result" where
  "sample_tasks i = (if i = 1 then Inl ''refused'' else Inr (''out'' @ show_nat i, Some (int i + 5)))"

definition sample_choices :: "sched_choice list" where
  "sample_choices = [ScFill True, ScFill True, ScFill True, ScJoin 1 True, ScFill True, ScFill True,
     ScJoin 2 True, ScFill True, ScJoin 0 True, ScFill True, ScFinish]"

theorem schedule_outcome_witness:
  "\<exists>s. sched_run (scheduler_new 2 (Some (''search'', ''Search'')) False) sample_tasks sample_choices
     (sched_start (scheduler_new 2 (Some (''search'', ''Search'')) False) False 3) = Some s \<and>
   sr_outputs (schedule_report s) = [''out0'', ''out2''] \<and>
   sr_tokens_used (schedule_report s) = Some 12 \<and> sr_failed_agent_calls (schedule_report s) = 1"
proof -
  let ?cfg = "scheduler_new 2 (Some (''search'', ''Search'')) False"
  obtain s where s: "sched_run ?cfg sample_tasks sample_choices (sched_start ?cfg False 3) = Some s"
    and d: "sd_pc s = PcDone" and c: "sd_calls s = 3"
    by (simp add: sample_choices_def sched_start_def emit_def emit_counts_def scheduler_new_def
        fill_step_def join_step_def leave_fill_def sample_tasks_def Let_def numeral_2_eq_2)
  have "map (task_value sample_tasks) (filter (succeeded sample_tasks) [0..<3]) = [''out0'', ''out2'']"
    "length (filter (isl \<circ> sample_tasks) [0..<3]) = 1"
    "sum_tokens (map (task_tokens sample_tasks) (filter (succeeded sample_tasks) [0..<3])) = Some 12"
    by code_simp+
  with schedule_outcome [OF s d] s c show ?thesis by (simp add: Let_def del: upt_Suc)
qed

text \<open>
  C33: A run of the scheduler ends: of any sequence of choices at most three per task and five more
  are possible, never more tasks run at once than the limit, and a run that is not done can always
  go on, without waiting for a cancellation.
\<close>

theorem schedule_terminates:
  assumes "sched_run (scheduler_new m progress controlled) res cs
      (sched_start (scheduler_new m progress controlled) cancelled n) = Some s"
  shows "length cs \<le> 3 * n + 5 \<and> length (sd_running s) \<le> max m 1 \<and>
    (sd_pc s = PcDone \<or>
     (\<exists>c s'. c \<noteq> ScCancel \<and> sched_next (scheduler_new m progress controlled) res c s = Some s'))"
proof (intro conjI)
  let ?cfg = "scheduler_new m progress controlled"
  have ok: "sched_ok ?cfg res n s"
    by (rule sched_ok_run [OF assms sched_ok_start]) (simp add: scheduler_new_def)
  have "sched_measure (sched_start ?cfg cancelled n :: 'a schedule) \<le> 3 * n + 5"
    by (simp add: sched_start_def) (simp add: sched_measure_def)
  with sched_run_measure [OF assms] show "length cs \<le> 3 * n + 5" by linarith
  show "length (sd_running s) \<le> max m 1"
    using ok by (auto simp: sched_ok_def scheduler_new_def)
  show "sd_pc s = PcDone \<or> (\<exists>c s'. c \<noteq> ScCancel \<and> sched_next ?cfg res c s = Some s')"
  proof -
    let ?c = "case sd_pc s of PcFill \<Rightarrow> ScFill True
      | PcJoin \<Rightarrow> ScJoin (hd (sd_running s)) True | _ \<Rightarrow> ScFinish"
    have "?c \<noteq> ScCancel" by (simp split: sched_pc.split)
    with sched_progress [OF ok] show ?thesis by blast
  qed
qed

theorem schedule_terminates_witness:
  "\<exists>s. sched_run (scheduler_new 2 None False) sample_tasks [ScFill True, ScFill True, ScFill True]
     (sched_start (scheduler_new 2 None False) False 3) = Some s \<and> length (sd_running s) \<le> max 2 1"
proof -
  obtain s where "sched_run (scheduler_new 2 None False) sample_tasks
      [ScFill True, ScFill True, ScFill True] (sched_start (scheduler_new 2 None False) False 3) = Some s"
    by (simp add: sched_start_def emit_def emit_counts_def scheduler_new_def
        fill_step_def leave_fill_def Let_def numeral_2_eq_2)
  from this schedule_terminates [OF this] show ?thesis by blast
qed

section \<open>The phase in the run\<close>

text \<open>
  The events of a run of the scheduler: the start, the counts after every change, and the outcome.
  The last counts are those of the report.
\<close>

definition counts_event :: "string \<Rightarrow> nat \<times> nat \<times> nat \<Rightarrow> progress_event" where
  "counts_event i c = (case c of (a, b, d) \<Rightarrow> PeCountsUpdated i a b d)"

definition events_ok :: "string \<Rightarrow> string \<Rightarrow> nat \<Rightarrow> 'v schedule \<Rightarrow> bool" where
  "events_ok i l n s \<longleftrightarrow>
     (\<exists>cs. sd_events s = PeStarted i l n # map (counts_event i) cs @
        (if sd_pc s = PcDone then [phase_outcome s i] else []) \<and>
      last ((0, 0, 0) # cs) = (sd_completed s, sd_failed s, sd_skipped s))"

lemma events_ok_emit_counts:
  assumes "sg_progress cfg = Some (i, l)" "sd_pc s \<noteq> PcDone"
    "\<exists>cs. sd_events s = PeStarted i l n # map (counts_event i) cs"
  shows "events_ok i l n (emit_counts cfg s)"
proof -
  from assms(3) obtain cs where cs: "sd_events s = PeStarted i l n # map (counts_event i) cs" by blast
  show ?thesis
    unfolding events_ok_def using assms(1,2) cs
    by (intro exI [of _ "cs @ [(sd_completed s, sd_failed s, sd_skipped s)]"])
      (simp add: emit_counts_def emit_def counts_event_def)
qed

lemma events_ok_events:
  "events_ok i l n s \<Longrightarrow> sd_pc s \<noteq> PcDone \<Longrightarrow>
   \<exists>cs. sd_events s = PeStarted i l n # map (counts_event i) cs"
  by (auto simp: events_ok_def)

lemma events_ok_same:
  assumes "events_ok i l n s" "sd_pc s \<noteq> PcDone" "sd_pc s' \<noteq> PcDone" "sd_events s' = sd_events s"
    "sd_completed s' = sd_completed s" "sd_failed s' = sd_failed s" "sd_skipped s' = sd_skipped s"
  shows "events_ok i l n s'"
  using assms by (auto simp: events_ok_def)

lemma events_ok_leave_fill:
  "events_ok i l n s \<Longrightarrow> sd_pc s \<noteq> PcDone \<Longrightarrow> events_ok i l n (leave_fill s)"
  by (rule events_ok_same [of _ _ _ s]) (simp_all add: leave_fill_def)

lemma events_ok_fill:
  assumes "sg_progress cfg = Some (i, l)" "events_ok i l n s" "sd_pc s = PcFill"
  shows "events_ok i l n (fill_step cfg b s)"
proof -
  have e: "\<exists>cs. sd_events s = PeStarted i l n # map (counts_event i) cs"
    using assms by (intro events_ok_events) simp_all
  show ?thesis
    unfolding fill_step_def Let_def
    using e by (auto intro!: events_ok_leave_fill events_ok_emit_counts [OF assms(1)]
        intro: events_ok_same [OF assms(2)] simp: assms(2,3))
qed

lemma events_ok_join:
  assumes "sg_progress cfg = Some (i, l)" "events_ok i l n s" "sd_pc s = PcJoin"
  shows "events_ok i l n (join_step cfg res j b s)"
proof -
  have e: "\<exists>cs. sd_events s = PeStarted i l n # map (counts_event i) cs"
    using assms by (intro events_ok_events) simp_all
  then show ?thesis
    unfolding join_step_def Let_def
    by (intro events_ok_emit_counts [OF assms(1)]; cases "res j") (simp_all add: split_def)
qed

lemma events_ok_wake:
  assumes "sg_progress cfg = Some (i, l)" "events_ok i l n s" "sd_pc s = PcJoin"
  shows "events_ok i l n (wake_step cfg s)"
  using assms events_ok_events [of i l n s] unfolding wake_step_def
  by (intro events_ok_emit_counts [OF assms(1)]) simp_all

lemma events_ok_next:
  assumes "sg_progress cfg = Some (i, l)" "events_ok i l n s" "sched_next cfg res c s = Some s'"
  shows "events_ok i l n s'"
proof (cases c)
  case ScFinish
  with assms have p: "sd_pc s = PcEnd"
    and s': "s' = s\<lparr>sd_pc := PcDone, sd_events := sd_events s @ [phase_outcome s i]\<rparr>"
    by (auto simp: emit_def split: if_splits)
  have "phase_outcome s' i = phase_outcome s i" by (simp add: s' phase_outcome_def)
  with assms(2) p show ?thesis by (auto simp: events_ok_def s')
next
  case ScCancel
  with assms show ?thesis by (auto intro: events_ok_same [OF assms(2)] split: if_splits)
qed (use assms in \<open>auto intro: events_ok_fill events_ok_join events_ok_wake split: if_splits\<close>)

lemma events_ok_run:
  "sg_progress cfg = Some (i, l) \<Longrightarrow> sched_run cfg res cs s = Some s' \<Longrightarrow> events_ok i l n s \<Longrightarrow>
   events_ok i l n s'"
  by (induction cs arbitrary: s) (auto intro: events_ok_next split: option.splits)

lemma events_ok_start:
  "sg_progress cfg = Some (i, l) \<Longrightarrow> events_ok i l n (sched_start cfg c n)"
  by (simp add: events_ok_def sched_start_def emit_def)

text \<open>What the run shows of a phase: its status, and the planned, completed, failed and skipped tasks.\<close>

definition phase_shown ::
  "workflow_run \<Rightarrow> string \<Rightarrow> (workflow_phase_status \<times> nat \<times> nat \<times> nat \<times> nat) option" where
  "phase_shown r i = (case rn_phase_index r i of
      None \<Rightarrow> None
    | Some k \<Rightarrow> (let p = rn_phases r ! k in Some (wp_status p, wp_planned_count p,
        wp_completed_count p, wp_failed_count p, wp_skipped_count p)))"

definition run_open :: "workflow_run \<Rightarrow> bool" where
  "run_open r \<longleftrightarrow> run_ok r \<and> \<not> is_terminal r"

fun event_status :: "progress_event \<Rightarrow> workflow_phase_status" where
  "event_status (PeDeclared _ _ _) = WpPending"
| "event_status (PeStarted _ _ _) = WpRunning"
| "event_status (PeCountsUpdated _ _ _ _) = WpRunning"
| "event_status (PeCompleted _) = WpCompleted"
| "event_status (PeFailed _) = WpFailed"
| "event_status (PeCancelled _) = WpCancelled"
| "event_status (PeSkipped _) = WpSkipped"

lemma run_open_bound:
  "run_open r \<Longrightarrow> rn_phase_index r i = Some k \<Longrightarrow> k < length (rn_phases r)"
  by (auto simp: run_open_def run_ok_def index_ok_def)

lemma start_phase_shown:
  assumes "run_open r" "phase_shown r i = None \<or> phase_shown r i = Some (WpPending, m, 0, 0, 0)"
  shows "run_open (start_phase c i l n r)"
    "phase_shown (start_phase c i l n r) i = Some (WpRunning, n, 0, 0, 0)"
  using assms run_open_bound [OF assms(1), of i]
  by (auto simp: run_open_def run_ok_start_phase)
    (auto simp: start_phase_def phase_shown_def set_phase_def push_phase_def split_def Let_def
      is_phase_terminal_def run_open_def split: option.splits)

lemma update_counts_shown:
  assumes "run_open r" "phase_shown r i = Some (WpRunning, n, x)"
  shows "run_open (update_phase_counts c i a b d r)"
    "phase_shown (update_phase_counts c i a b d r) i = Some (WpRunning, n, a, b, d)"
  using assms run_open_bound [OF assms(1), of i]
  by (auto simp: run_open_def run_ok_update_phase_counts)
    (auto simp: update_phase_counts_def on_open_phase_def phase_shown_def set_phase_def split_def
      Let_def is_phase_terminal_def run_open_def split: option.splits)

lemma finish_phase_shown:
  assumes "run_open r" "phase_shown r i = Some (WpRunning, x)"
  shows "phase_shown (finish_phase c i st r) i = Some (st, x)"
  using assms run_open_bound [OF assms(1), of i]
  by (auto simp: finish_phase_def on_open_phase_def phase_shown_def set_phase_def split_def
      Let_def is_phase_terminal_def run_open_def split: option.splits)

lemma run_ops_Cons: "run_ops (x # xs) r = run_ops xs (apply_run_op x r)"
  by (simp add: run_ops_def)

lemma run_ops_append: "run_ops (xs @ ys) r = run_ops ys (run_ops xs r)"
  by (simp add: run_ops_def)

lemma counts_shown:
  assumes "run_open r" "phase_shown r i = Some (WpRunning, n, x)"
    "map fst xs = map (sink_op \<circ> counts_event i) cs"
  shows "run_open (run_ops xs r) \<and> phase_shown (run_ops xs r) i = Some (WpRunning, n, last (x # cs))"
  using assms
proof (induction cs arbitrary: xs r x)
  case Nil
  then show ?case by (simp add: run_ops_def)
next
  case (Cons c cs)
  obtain a b d where c: "c = (a, b, d)" by (cases c)
  from Cons.prems(3) obtain t ys where xs: "xs = (RoUpdateCounts i a b d, t) # ys"
    and ys: "map fst ys = map (sink_op \<circ> counts_event i) cs"
    by (cases xs) (auto simp: c counts_event_def)
  obtain t1 t2 where t: "t = (t1, t2)" by (cases t)
  note u = update_counts_shown [OF Cons.prems(1,2), of t1 a b d]
  from Cons.IH [OF u ys] show ?case
    by (simp add: xs t c run_ops_Cons)
qed

lemma outcome_shown:
  assumes "run_open r" "phase_shown r i = Some (WpRunning, x)"
  shows "phase_shown (apply_run_op (sink_op (phase_outcome s i), t) r) i =
     Some (event_status (phase_outcome s i), x)"
  using finish_phase_shown [OF assms] by (cases t) (simp add: phase_outcome_def)

lemma phase_shows_schedule_eq:
  assumes "events_ok i l n s" "sd_pc s = PcDone" "run_open r"
    "phase_shown r i = None \<or> phase_shown r i = Some (WpPending, m, 0, 0, 0)"
    "map fst xs = map sink_op (sd_events s)"
  shows "phase_shown (run_ops xs r) i =
    Some (event_status (phase_outcome s i), n, sd_completed s, sd_failed s, sd_skipped s)"
proof -
  from assms(1,2) obtain cs where e: "sd_events s = PeStarted i l n # map (counts_event i) cs @ [phase_outcome s i]"
    and l: "last ((0, 0, 0) # cs) = (sd_completed s, sd_failed s, sd_skipped s)"
    by (auto simp: events_ok_def)
  from assms(5) obtain t ys where xs: "xs = (RoStartPhase i l n, t) # ys"
    and ys: "map fst ys = map (sink_op \<circ> counts_event i) cs @ [sink_op (phase_outcome s i)]"
    by (cases xs) (auto simp: e)
  from ys obtain zs u where yz: "ys = zs @ [(sink_op (phase_outcome s i), u)]"
    and zs: "map fst zs = map (sink_op \<circ> counts_event i) cs"
    by (cases ys rule: rev_cases) auto
  obtain t1 t2 where t: "t = (t1, t2)" by (cases t)
  note st = start_phase_shown [OF assms(3,4), of t1 l n]
  from counts_shown [OF st(1) st(2) zs] l
  have "run_open (run_ops zs (start_phase t1 i l n r))"
    "phase_shown (run_ops zs (start_phase t1 i l n r)) i =
       Some (WpRunning, n, sd_completed s, sd_failed s, sd_skipped s)" by simp_all
  from outcome_shown [OF this] show ?thesis
    by (simp add: xs t yz run_ops_Cons run_ops_append run_ops_def)
qed

text \<open>
  C34: When the scheduler has run a phase and its events have reached the run, the run shows that phase
  with all tasks accounted for: as many planned as there were tasks, and exactly the successes,
  failures and skipped tasks of the report, which add up to the planned ones; its status says whether
  it was cancelled, stopped, empty, has failures or completed.
\<close>

theorem phase_shows_schedule:
  assumes "sched_run (scheduler_new m (Some (i, l)) controlled) res cs
      (sched_start (scheduler_new m (Some (i, l)) controlled) cancelled n) = Some s"
    and "sd_pc s = PcDone"
    and "run_ok r" "\<not> is_terminal_status (rn_status r)"
    and "phase_shown r i = None \<or> phase_shown r i = Some (WpPending, k, 0, 0, 0)"
    and "map fst xs = map sink_op (sd_events s)"
  shows "let rep = schedule_report s in
    phase_shown (run_ops xs r) i = Some (event_status (phase_outcome s i), n,
      length (sr_outputs rep), sr_failed_agent_calls rep, sr_skipped_agent_calls rep) \<and>
    length (sr_outputs rep) + sr_failed_agent_calls rep + sr_skipped_agent_calls rep = n"
proof -
  let ?cfg = "scheduler_new m (Some (i, l)) controlled"
  have p: "sg_progress ?cfg = Some (i, l)" by (simp add: scheduler_new_def)
  have ok: "sched_ok ?cfg res n s"
    by (rule sched_ok_run [OF assms(1) sched_ok_start]) (simp add: scheduler_new_def)
  have "events_ok i l n s" by (rule events_ok_run [OF p assms(1) events_ok_start [OF p]])
  from phase_shows_schedule_eq [OF this assms(2) _ assms(5,6)] assms(2-4) ok show ?thesis
    by (auto simp: run_open_def schedule_report_def sched_ok_def Let_def split: if_splits)
qed

definition sample_run :: workflow_run where
  "sample_run = workflow_run_new 10 ''run_1'' ''thread_1'' DeepResearch PresetQuick ''Search''"

theorem phase_shows_schedule_witness:
  "\<exists>s. sched_run (scheduler_new 2 (Some (''search'', ''Search'')) False) sample_tasks sample_choices
     (sched_start (scheduler_new 2 (Some (''search'', ''Search'')) False) False 3) = Some s \<and>
   phase_shown (run_ops (map (\<lambda>e. (sink_op e, 12, 12)) (sd_events s)) (start_run 11 sample_run))
     ''search'' = Some (WpFailed, 3, 2, 1, 0)"
proof -
  let ?cfg = "scheduler_new 2 (Some (''search'', ''Search'')) False"
  let ?s0 = "sched_start ?cfg False 3"
  obtain s where s: "sched_run ?cfg sample_tasks sample_choices ?s0 = Some s"
    and d: "sd_pc s = PcDone" and f: "sd_failed s = 1" "sd_skipped s = 0" "\<not> sd_cancelled s"
      "\<not> sd_stopped s" "sd_total s = 3"
    by (simp add: sample_choices_def sched_start_def emit_def emit_counts_def scheduler_new_def
        fill_step_def join_step_def leave_fill_def sample_tasks_def Let_def numeral_2_eq_2)
  have r: "run_ok (start_run 11 sample_run)" "\<not> is_terminal_status (rn_status (start_run 11 sample_run))"
    "phase_shown (start_run 11 sample_run) ''search'' = None"
    unfolding sample_run_def
    by (intro run_ok_start_run run_ok_new)
      (simp_all add: start_run_def workflow_run_new_def is_terminal_status_def touch_def
        phase_shown_def)
  have "map fst (map (\<lambda>e. (sink_op e, 12::int, 12::int)) (sd_events s)) = map sink_op (sd_events s)"
    by simp
  from phase_shows_schedule [OF s d r(1,2) disjI1 [OF r(3)] this] s f
  show ?thesis by (auto simp: Let_def phase_outcome_def schedule_report_def)
qed

text \<open>
  When the budget runs out with the last task of a phase, the phase is failed if there are as many
  tasks as may run at once, although nothing was skipped, and completed if more may run.
\<close>

lemma last_task_over_budget:
  "\<exists>s. sched_run (scheduler_new 1 (Some (''extract'', ''Extract'')) True) (\<lambda>_. Inr ((), Some 9))
     [ScFill True, ScFill True, ScJoin 0 False, ScFill True, ScFinish]
     (sched_start (scheduler_new 1 (Some (''extract'', ''Extract'')) True) False 1) = Some s \<and>
   sd_pc s = PcDone \<and> sd_skipped s = 0 \<and> sd_completed s = 1 \<and>
   phase_outcome s ''extract'' = PeFailed ''extract''"
  "\<exists>s. sched_run (scheduler_new 2 (Some (''extract'', ''Extract'')) True) (\<lambda>_. Inr ((), Some 9))
     [ScFill True, ScFill True, ScJoin 0 False, ScFill True, ScFinish]
     (sched_start (scheduler_new 2 (Some (''extract'', ''Extract'')) True) False 1) = Some s \<and>
   sd_pc s = PcDone \<and> sd_skipped s = 0 \<and> sd_completed s = 1 \<and>
   phase_outcome s ''extract'' = PeCompleted ''extract''"
  by (simp_all add: sched_start_def emit_def emit_counts_def scheduler_new_def fill_step_def
      join_step_def leave_fill_def phase_outcome_def Let_def)

end
