(* ===== verification/DeepSearch.thy ===== *)
theory DeepSearch
  imports Prelude WorkflowRun "HOL-Library.List_Lexorder" "HOL-Library.Char_ord"
    "HOL-Library.Product_Lexorder" "HOL-Library.Multiset"
begin

text \<open>
  The data of a deep search and its pure parts (\<^verbatim>\<open>templates/deep_search.rs\<close>,
  \<^verbatim>\<open>templates/deep_search_prompts.rs\<close>): selecting sources, ranking claims, aggregating verdicts,
  the budget, the reports and the prompts. Parsing and printing a URL is a library: its functions
  are the fields of \<^verbatim>\<open>url_lib\<close>. The schemas and the JSON text of a value are parameters.
\<close>

section \<open>Data\<close>

record search_angle =
  an_label :: string
  an_query :: string
  an_rationale :: string

record scope_output =
  so_question :: string
  so_summary :: string
  so_angles :: "search_angle list"

datatype search_relevance = RelHigh | RelMedium | RelLow

record search_result_item =
  si_url :: string
  si_title :: string
  si_snippet :: string
  si_relevance :: search_relevance

datatype claim_importance = ImCritical | ImHigh | ImMedium | ImLow

record extracted_claim =
  ec_claim :: string
  ec_quote :: string
  ec_importance :: claim_importance

datatype source_quality = SqPrimary | SqHigh | SqMedium | SqLow | SqUnknown

record source_extract_output =
  se_source_url :: string
  se_source_title :: string
  se_source_quality :: source_quality
  se_publish_date :: "string option"
  se_claims :: "extracted_claim list"

datatype verdict_confidence = CfHigh | CfMedium | CfLow

record claim_verdict =
  cv_refuted :: bool
  cv_evidence :: string
  cv_confidence :: verdict_confidence
  cv_counter_source :: "string option"

record deep_search_report =
  dr_summary :: string
  dr_findings :: "string list"
  dr_caveats :: "string list"
  dr_open_questions :: "string list"

record deep_search_stats =
  ds_sources_fetched :: nat
  ds_claims_extracted :: nat
  ds_claims_verified :: nat
  ds_survived :: nat
  ds_killed :: nat
  ds_url_dupes :: nat
  ds_budget_dropped :: nat
  ds_approval_blocked :: nat

record selected_source =
  sl_angle_label :: string
  sl_normalized_url :: string
  sl_url :: string
  sl_title :: string
  sl_snippet :: string
  sl_relevance :: search_relevance

record dedupe_result =
  dd_sources :: "selected_source list"
  dd_url_dupes :: nat
  dd_budget_dropped :: nat

record ranked_claim =
  rc_id :: string
  rc_source_url :: string
  rc_source_title :: string
  rc_source_quality :: source_quality
  rc_claim :: extracted_claim

record claim_vote_summary =
  vs_claim :: ranked_claim
  vs_refuted_votes :: nat
  vs_non_refuting_or_weak_votes :: nat
  vs_failed_votes :: nat
  vs_total_votes :: nat

record aggregated_verdicts =
  av_survived :: "claim_vote_summary list"
  av_killed :: "claim_vote_summary list"
  av_unverified :: "claim_vote_summary list"

section \<open>Selecting sources\<close>

record 'u url_lib =
  ul_parse :: "string \<Rightarrow> 'u option"
  ul_scheme :: "'u \<Rightarrow> string"
  ul_host :: "'u \<Rightarrow> string option"
  ul_set_host :: "string \<Rightarrow> 'u \<Rightarrow> 'u option"
  ul_clear_query :: "'u \<Rightarrow> 'u"
  ul_clear_fragment :: "'u \<Rightarrow> 'u"
  ul_path :: "'u \<Rightarrow> string"
  ul_set_path :: "string \<Rightarrow> 'u \<Rightarrow> 'u"
  ul_to_string :: "'u \<Rightarrow> string"

definition slash :: char where
  "slash = CHR ''/''"

definition normalize_source_url :: "'u url_lib \<Rightarrow> string \<Rightarrow> string option" where
  "normalize_source_url L source =
     (case ul_parse L source of None \<Rightarrow> None | Some url \<Rightarrow>
      if ul_scheme L url \<notin> {''http'', ''https''} then None
      else case ul_host L url of None \<Rightarrow> None | Some h \<Rightarrow>
        let host = to_ascii_lowercase h;
            host = (if starts_with host ''www.'' then drop 4 host else host)
        in case ul_set_host L host url of None \<Rightarrow> None | Some url \<Rightarrow>
          let url = ul_clear_fragment L (ul_clear_query L url);
              path = trim_end_char slash (ul_path L url);
              path = (if path = [] then ''/'' else path);
              url = ul_set_path L path url
          in Some (trim_end_char slash (ul_to_string L url)))"

definition search_relevance_for_rank :: "nat \<Rightarrow> search_relevance" where
  "search_relevance_for_rank rank =
     (if rank \<le> 3 then RelHigh else if rank \<le> 8 then RelMedium else RelLow)"

record workflow_search_result =
  wsr_title :: string
  wsr_url :: string
  wsr_snippet :: string
  wsr_rank :: nat
  wsr_provider :: string

definition search_result_item_from_workflow :: "workflow_search_result \<Rightarrow> search_result_item" where
  "search_result_item_from_workflow r = \<lparr> si_url = wsr_url r, si_title = wsr_title r,
     si_snippet = wsr_snippet r, si_relevance = search_relevance_for_rank (wsr_rank r) \<rparr>"

definition selected_from :: "string \<Rightarrow> string \<Rightarrow> search_result_item \<Rightarrow> selected_source" where
  "selected_from angle norm r = \<lparr> sl_angle_label = angle, sl_normalized_url = norm,
     sl_url = si_url r, sl_title = si_title r, sl_snippet = si_snippet r,
     sl_relevance = si_relevance r \<rparr>"

text \<open>One result of the inner loop; the set holds the normalised URLs seen so far.\<close>

definition dedupe_step ::
  "(string \<Rightarrow> string option) \<Rightarrow> nat \<Rightarrow> string \<times> search_result_item \<Rightarrow>
   string set \<times> dedupe_result \<Rightarrow> string set \<times> dedupe_result" where
  "dedupe_step norm_url max_sources x st =
     (case x of (angle, r) \<Rightarrow> case st of (seen, out) \<Rightarrow>
      case norm_url (si_url r) of
        None \<Rightarrow> (seen, out)
      | Some u \<Rightarrow>
          if u \<in> seen then (seen, out\<lparr>dd_url_dupes := dd_url_dupes out + 1\<rparr>)
          else if max_sources \<le> length (dd_sources out)
          then (insert u seen, out\<lparr>dd_budget_dropped := dd_budget_dropped out + 1\<rparr>)
          else (insert u seen, out\<lparr>dd_sources := dd_sources out @ [selected_from angle u r]\<rparr>))"

definition flatten_groups ::
  "(string \<times> search_result_item list) list \<Rightarrow> (string \<times> search_result_item) list" where
  "flatten_groups groups = concat (map (\<lambda>(a, rs). map (Pair a) rs) groups)"

definition dedupe_search_results_by_angle ::
  "(string \<Rightarrow> string option) \<Rightarrow> (string \<times> search_result_item list) list \<Rightarrow> nat \<Rightarrow> dedupe_result" where
  "dedupe_search_results_by_angle norm_url groups max_sources =
     snd (fold (dedupe_step norm_url max_sources) (flatten_groups groups)
       ({}, \<lparr> dd_sources = [], dd_url_dupes = 0, dd_budget_dropped = 0 \<rparr>))"

section \<open>Ranking claims\<close>

fun importance_rank :: "claim_importance \<Rightarrow> nat" where
  "importance_rank ImCritical = 4" | "importance_rank ImHigh = 3"
| "importance_rank ImMedium = 2" | "importance_rank ImLow = 1"

fun source_quality_rank :: "source_quality \<Rightarrow> nat" where
  "source_quality_rank SqPrimary = 5" | "source_quality_rank SqHigh = 4"
| "source_quality_rank SqMedium = 3" | "source_quality_rank SqLow = 2"
| "source_quality_rank SqUnknown = 1"

definition claim_rank_key :: "ranked_claim \<Rightarrow> nat \<times> nat" where
  "claim_rank_key c = (importance_rank (ec_importance (rc_claim c)), source_quality_rank (rc_source_quality c))"

text \<open>The sort key; \<^verbatim>\<open>Reverse\<close> of a pair is the pair of the negated ranks.\<close>

definition claim_sort_key :: "ranked_claim \<Rightarrow> (int \<times> int) \<times> string \<times> string" where
  "claim_sort_key c = (case claim_rank_key c of (i, q) \<Rightarrow> ((- int i, - int q), rc_id c, rc_source_url c))"

definition rank_claims :: "ranked_claim list \<Rightarrow> nat \<Rightarrow> ranked_claim list" where
  "rank_claims claims max_claims = take max_claims (sort_key claim_sort_key claims)"

section \<open>Aggregating verdicts\<close>

definition strong_refutation :: "claim_verdict \<Rightarrow> bool" where
  "strong_refutation v \<longleftrightarrow> cv_refuted v \<and> cv_confidence v \<noteq> CfLow"

definition vote_summary :: "(string \<rightharpoonup> claim_verdict list) \<Rightarrow> nat \<Rightarrow> ranked_claim \<Rightarrow> claim_vote_summary" where
  "vote_summary by_id expected c =
     (let vs = (case by_id (rc_id c) of None \<Rightarrow> [] | Some vs \<Rightarrow> vs)
      in \<lparr> vs_claim = c, vs_refuted_votes = length (filter strong_refutation vs),
           vs_non_refuting_or_weak_votes =
             length (filter (\<lambda>v. \<not> cv_refuted v \<or> cv_confidence v = CfLow) vs),
           vs_failed_votes = expected - length vs, vs_total_votes = length vs \<rparr>)"

definition aggregate_step :: "nat \<Rightarrow> claim_vote_summary \<Rightarrow> aggregated_verdicts \<Rightarrow> aggregated_verdicts" where
  "aggregate_step threshold s a =
     (if threshold \<le> vs_refuted_votes s then a\<lparr>av_killed := av_killed a @ [s]\<rparr>
      else if threshold \<le> vs_total_votes s then a\<lparr>av_survived := av_survived a @ [s]\<rparr>
      else a\<lparr>av_unverified := av_unverified a @ [s]\<rparr>)"

definition aggregate_verdicts ::
  "ranked_claim list \<Rightarrow> (string \<rightharpoonup> claim_verdict list) \<Rightarrow> nat \<Rightarrow> nat \<Rightarrow> aggregated_verdicts" where
  "aggregate_verdicts claims by_id refutations_required expected =
     fold (\<lambda>c. aggregate_step (max refutations_required 1) (vote_summary by_id expected c)) claims
       \<lparr> av_survived = [], av_killed = [], av_unverified = [] \<rparr>"

section \<open>The budget\<close>

datatype deep_search_phase_id = PhScope | PhSearch | PhExtract | PhVerify | PhSynthesize

fun phase_name :: "deep_search_phase_id \<Rightarrow> string" where
  "phase_name PhScope = ''scope''" | "phase_name PhSearch = ''search''"
| "phase_name PhExtract = ''extract''" | "phase_name PhVerify = ''verify''"
| "phase_name PhSynthesize = ''synthesize''"

fun stop_reason_name :: "workflow_stop_reason \<Rightarrow> string" where
  "stop_reason_name TokenBudgetExceeded = ''token_budget_exceeded''"
| "stop_reason_name RuntimeExceeded = ''runtime_exceeded''"

record deep_search_stopped =
  dx_phase :: deep_search_phase_id
  dx_reason :: workflow_stop_reason
  dx_observed :: int
  dx_limit :: int

record budget_guard =
  bg_token_budget :: "int option"
  bg_max_runtime_secs :: "nat option"
  bg_tokens_used :: int

definition budget_guard_new :: "deep_search_limits \<Rightarrow> budget_guard" where
  "budget_guard_new l = \<lparr> bg_token_budget = dl_token_budget l,
     bg_max_runtime_secs = dl_max_runtime_secs l, bg_tokens_used = 0 \<rparr>"

text \<open>The counter is an atomic machine word: it wraps.\<close>

definition wrap_i64 :: "int \<Rightarrow> int" where
  "wrap_i64 x = (x + 2 ^ 63) mod 2 ^ 64 - 2 ^ 63"

definition add_tokens :: "int option \<Rightarrow> budget_guard \<Rightarrow> budget_guard" where
  "add_tokens t g = (case t of None \<Rightarrow> g
     | Some n \<Rightarrow> g\<lparr>bg_tokens_used := wrap_i64 (bg_tokens_used g + n)\<rparr>)"

text \<open>The time since the start is read twice, in milliseconds here.\<close>

definition ensure_within_limits ::
  "nat \<Rightarrow> nat \<Rightarrow> deep_search_phase_id \<Rightarrow> budget_guard \<Rightarrow> deep_search_stopped option" where
  "ensure_within_limits elapsed elapsed' phase g =
     (case bg_max_runtime_secs g of
        Some m \<Rightarrow>
          if 1000 * m \<le> elapsed
          then Some \<lparr> dx_phase = phase, dx_reason = RuntimeExceeded,
                      dx_observed = min (int (elapsed' div 1000)) i64_max,
                      dx_limit = min (int m) i64_max \<rparr>
          else (case bg_token_budget g of
              Some b \<Rightarrow> if b < bg_tokens_used g
                then Some \<lparr> dx_phase = phase, dx_reason = TokenBudgetExceeded,
                            dx_observed = bg_tokens_used g, dx_limit = b \<rparr> else None
            | None \<Rightarrow> None)
      | None \<Rightarrow> (case bg_token_budget g of
              Some b \<Rightarrow> if b < bg_tokens_used g
                then Some \<lparr> dx_phase = phase, dx_reason = TokenBudgetExceeded,
                            dx_observed = bg_tokens_used g, dx_limit = b \<rparr> else None
            | None \<Rightarrow> None))"

section \<open>Reports\<close>

definition stats_open_questions :: "deep_search_stats \<Rightarrow> string list" where
  "stats_open_questions st =
     (let qs = (if 0 < ds_budget_dropped st
          then [''Review additional omitted candidates; budget dropped '' @
                show_nat (ds_budget_dropped st) @ '' items across source and claim limits.'']
          else []) @
        (if 0 < ds_approval_blocked st
         then [''Resolve approval blockers for '' @ show_nat (ds_approval_blocked st) @
               '' skipped actions.'']
         else [])
      in if qs = []
         then [''Run another pass with broader source coverage if the answer needs higher confidence.'']
         else qs)"

definition no_claims_report :: "string \<Rightarrow> deep_search_stats \<Rightarrow> deep_search_report" where
  "no_claims_report q st = \<lparr>
     dr_summary = ''No verifiable claims were extracted for: '' @ q, dr_findings = [],
     dr_caveats = [''Deep search extracted '' @ show_nat (ds_claims_extracted st) @
       '' claims from '' @ show_nat (ds_sources_fetched st) @ '' fetched sources.''],
     dr_open_questions = stats_open_questions st \<rparr>"

definition no_sources_report :: "string \<Rightarrow> deep_search_stats \<Rightarrow> deep_search_report" where
  "no_sources_report q st = \<lparr>
     dr_summary = ''No usable sources were found for: '' @ q, dr_findings = [],
     dr_caveats = [''Deep search found 0 usable sources; '' @ show_nat (ds_budget_dropped st) @
       '' search results were dropped by duplicate or budget filters.''],
     dr_open_questions = stats_open_questions st \<rparr>"

definition all_refuted_report ::
  "string \<Rightarrow> claim_vote_summary list \<Rightarrow> deep_search_stats \<Rightarrow> deep_search_report" where
  "all_refuted_report q killed st = \<lparr>
     dr_summary = ''All candidate claims were refuted for: '' @ q,
     dr_findings = map (\<lambda>s. ''Refuted: '' @ ec_claim (rc_claim (vs_claim s)) @ '' ('' @
       show_nat (vs_refuted_votes s) @ '' refuting votes)'') killed,
     dr_caveats = [''No claims survived verification; '' @ show_nat (ds_killed st) @ '' of '' @
       show_nat (ds_claims_verified st) @ '' verified claims were killed.''],
     dr_open_questions = stats_open_questions st \<rparr>"

definition all_unverified_report ::
  "string \<Rightarrow> claim_vote_summary list \<Rightarrow> deep_search_stats \<Rightarrow> deep_search_report" where
  "all_unverified_report q unverified st = \<lparr>
     dr_summary = ''Candidate claims did not reach verification quorum for: '' @ q,
     dr_findings = map (\<lambda>s. ''Unverified: '' @ ec_claim (rc_claim (vs_claim s)) @ '' ('' @
       show_nat (vs_total_votes s) @ '' valid votes, '' @ show_nat (vs_failed_votes s) @
       '' failed or missing votes)'') unverified,
     dr_caveats = [show_nat (max (length unverified)
         (ds_claims_extracted st - ds_claims_verified st)) @
       '' candidate claims lacked enough successful verifier votes to confirm or refute.''],
     dr_open_questions = stats_open_questions st \<rparr>"

definition synthesis_failed_report ::
  "string \<Rightarrow> claim_vote_summary list \<Rightarrow> claim_vote_summary list \<Rightarrow> deep_search_stats \<Rightarrow> string \<Rightarrow>
   deep_search_report" where
  "synthesis_failed_report q survived killed st err = \<lparr>
     dr_summary = ''Synthesis failed for: '' @ q,
     dr_findings = map (\<lambda>s. ec_claim (rc_claim (vs_claim s))) survived,
     dr_caveats = [''Report synthesis failed after '' @
       show_nat (max (length survived) (ds_survived st)) @ '' survived and '' @
       show_nat (max (length killed) (ds_killed st)) @ '' refuted claims: '' @ err],
     dr_open_questions = stats_open_questions st \<rparr>"

section \<open>What is selected\<close>

fun firsts :: "'k set \<Rightarrow> ('k \<times> 'a) list \<Rightarrow> ('k \<times> 'a) list" where
  "firsts S [] = []"
| "firsts S (x # xs) = (if fst x \<in> S then firsts S xs else x # firsts (insert (fst x) S) xs)"

text \<open>The results whose URL can be normalised, as candidate sources.\<close>

definition candidates ::
  "(string \<Rightarrow> string option) \<Rightarrow> (string \<times> search_result_item) list \<Rightarrow> (string \<times> selected_source) list" where
  "candidates norm_url xs = List.map_filter
     (\<lambda>(a, r). map_option (\<lambda>u. (u, selected_from a u r)) (norm_url (si_url r))) xs"

lemma firsts_distinct: "distinct (map fst (firsts S xs)) \<and> fst ` set (firsts S xs) \<inter> S = {}"
  by (induction S xs rule: firsts.induct) auto

lemma firsts_set: "fst ` set (firsts S xs) = fst ` set xs - S"
  by (induction S xs rule: firsts.induct) auto

lemma firsts_subseq: "set (firsts S xs) \<subseteq> set xs"
  by (induction S xs rule: firsts.induct) auto

lemma firsts_length: "length (firsts S xs) \<le> length xs"
  by (induction S xs rule: firsts.induct) (auto intro: le_SucI)

lemma dedupe_fold:
  "length (dd_sources out) \<le> m \<Longrightarrow>
   snd (fold (dedupe_step norm_url m) xs (S, out)) = \<lparr>
     dd_sources = dd_sources out @ map snd (take (m - length (dd_sources out)) (firsts S (candidates norm_url xs))),
     dd_url_dupes = dd_url_dupes out +
       (length (candidates norm_url xs) - length (firsts S (candidates norm_url xs))),
     dd_budget_dropped = dd_budget_dropped out +
       (length (firsts S (candidates norm_url xs)) - (m - length (dd_sources out))) \<rparr>"
proof (induction xs arbitrary: S out)
  case Nil
  then show ?case by (simp add: candidates_def)
next
  case (Cons x xs)
  obtain a r where x: "x = (a, r)" by (cases x)
  have len: "length (firsts T (candidates norm_url xs)) \<le> length (candidates norm_url xs)" for T
    by (rule firsts_length)
  show ?case
  proof (cases "norm_url (si_url r)")
    case None
    with Cons show ?thesis by (simp add: x dedupe_step_def candidates_def)
  next
    case (Some u)
    consider (dup) "u \<in> S" | (full) "u \<notin> S" "m \<le> length (dd_sources out)"
      | (keep) "u \<notin> S" "length (dd_sources out) < m" by linarith
    then show ?thesis
    proof cases
      case dup
      with Cons Some len [of S] show ?thesis
        by (simp add: x dedupe_step_def candidates_def Suc_diff_le)
    next
      case full
      with Cons Some len [of "insert u S"] show ?thesis
        by (simp add: x dedupe_step_def candidates_def)
    next
      case keep
      with Cons.prems Some len [of "insert u S"] Cons.IH [of "out\<lparr>dd_sources := dd_sources out @ [selected_from a u r]\<rparr>" "insert u S"]
      show ?thesis
        by (simp add: x dedupe_step_def candidates_def take_Cons' Suc_diff_Suc)
    qed
  qed
qed

lemma candidates_url: "x \<in> set (candidates norm_url xs) \<Longrightarrow> sl_normalized_url (snd x) = fst x"
  by (auto simp: candidates_def List.map_filter_def selected_from_def)

lemma dedupe_search_results_eq:
  "let cs = candidates norm_url (flatten_groups groups);
       fs = firsts {} cs;
       out = dedupe_search_results_by_angle norm_url groups m
   in dd_sources out = map snd (take m fs) \<and>
      distinct (map sl_normalized_url (dd_sources out)) \<and>
      length (dd_sources out) + dd_url_dupes out + dd_budget_dropped out = length cs \<and>
      length (dd_sources out) \<le> m"
proof -
  let ?cs = "candidates norm_url (flatten_groups groups)"
  let ?out = "dedupe_search_results_by_angle norm_url groups m"
  have out: "?out = \<lparr> dd_sources = map snd (take m (firsts {} ?cs)),
      dd_url_dupes = length ?cs - length (firsts {} ?cs),
      dd_budget_dropped = length (firsts {} ?cs) - m \<rparr>"
    by (simp add: dedupe_search_results_by_angle_def dedupe_fold)
  have "map sl_normalized_url (map snd (take m (firsts {} ?cs))) = map fst (take m (firsts {} ?cs))"
    using firsts_subseq [of "{}" ?cs] by (auto dest!: in_set_takeD intro!: candidates_url)
  then have "distinct (map sl_normalized_url (dd_sources ?out))"
    using firsts_distinct [of "{}" ?cs] by (simp add: out take_map [symmetric] distinct_take)
  moreover have "length (firsts {} ?cs) \<le> length ?cs" by (rule firsts_length)
  ultimately show ?thesis by (auto simp: out Let_def)
qed


section \<open>What is ranked and aggregated\<close>


lemma aggregate_fold:
  "fold (\<lambda>c. aggregate_step t (f c)) cs a = \<lparr>
     av_survived = av_survived a @ filter (\<lambda>s. vs_refuted_votes s < t \<and> t \<le> vs_total_votes s) (map f cs),
     av_killed = av_killed a @ filter (\<lambda>s. t \<le> vs_refuted_votes s) (map f cs),
     av_unverified = av_unverified a @
       filter (\<lambda>s. vs_refuted_votes s < t \<and> vs_total_votes s < t) (map f cs) \<rparr>"
  by (induction cs arbitrary: a) (simp_all add: aggregate_step_def not_le)

lemma vote_summary_counts:
  "vs_refuted_votes (vote_summary b e c) + vs_non_refuting_or_weak_votes (vote_summary b e c) =
     vs_total_votes (vote_summary b e c)"
proof -
  have "(\<lambda>v. \<not> cv_refuted v \<or> cv_confidence v = CfLow) = (\<lambda>v. \<not> strong_refutation v)"
    by (auto simp: strong_refutation_def)
  then show ?thesis
    by (simp add: vote_summary_def Let_def sum_length_filter_compl)
qed

lemma aggregate_verdicts_eq:
  "let a = aggregate_verdicts claims by_id required expected;
       t = max required 1;
       ss = map (vote_summary by_id expected) claims
   in av_killed a = filter (\<lambda>s. t \<le> vs_refuted_votes s) ss \<and>
      av_survived a = filter (\<lambda>s. vs_refuted_votes s < t \<and> t \<le> vs_total_votes s) ss \<and>
      av_unverified a = filter (\<lambda>s. vs_total_votes s < t) ss \<and>
      mset (av_survived a @ av_killed a @ av_unverified a) = mset ss \<and>
      list_all (\<lambda>s. vs_refuted_votes s + vs_non_refuting_or_weak_votes s = vs_total_votes s) ss"
proof -
  define t where "t = max required 1"
  define ss where "ss = map (vote_summary by_id expected) claims"
  have le: "vs_refuted_votes s \<le> vs_total_votes s" if "s \<in> set ss" for s
    using that vote_summary_counts [of by_id expected] unfolding ss_def by auto (metis le_add1)
  then have u: "filter (\<lambda>s. vs_refuted_votes s < t \<and> vs_total_votes s < t) ss =
      filter (\<lambda>s. vs_total_votes s < t) ss"
    by (intro filter_cong refl) (use le_less_trans in blast)
  have "mset (filter (\<lambda>s. vs_refuted_votes s < t \<and> t \<le> vs_total_votes s) xs) +
      (mset (filter (\<lambda>s. t \<le> vs_refuted_votes s) xs) +
       mset (filter (\<lambda>s. vs_refuted_votes s < t \<and> vs_total_votes s < t) xs)) = mset xs" for xs
    by (induction xs) auto
  from this [of ss] u
  have "mset (filter (\<lambda>s. vs_refuted_votes s < t \<and> t \<le> vs_total_votes s) ss @
      filter (\<lambda>s. t \<le> vs_refuted_votes s) ss @ filter (\<lambda>s. vs_total_votes s < t) ss) = mset ss"
    by simp
  moreover have "list_all (\<lambda>s. vs_refuted_votes s + vs_non_refuting_or_weak_votes s = vs_total_votes s) ss"
    by (auto simp: ss_def list_all_iff vote_summary_counts)
  moreover have "aggregate_verdicts claims by_id required expected = \<lparr>
      av_survived = filter (\<lambda>s. vs_refuted_votes s < t \<and> t \<le> vs_total_votes s) ss,
      av_killed = filter (\<lambda>s. t \<le> vs_refuted_votes s) ss,
      av_unverified = filter (\<lambda>s. vs_total_votes s < t) ss \<rparr>"
    unfolding u [symmetric] unfolding aggregate_verdicts_def aggregate_fold t_def ss_def by simp
  ultimately show ?thesis
    unfolding Let_def t_def [symmetric] ss_def [symmetric] by (simp del: mset_append)
qed

text \<open>
  C39: Aggregating verdicts splits the claims, in their order, into those that enough confident votes
  refute, those that enough votes were cast on without being refuted, and those without enough votes;
  no claim is lost or counted twice, and the votes of each add up.
\<close>

theorem aggregate_verdicts_partition:
  "let a = aggregate_verdicts claims by_id required expected;
       t = max required 1;
       ss = map (vote_summary by_id expected) claims
   in av_killed a = filter (\<lambda>s. t \<le> vs_refuted_votes s) ss \<and>
      av_survived a = filter (\<lambda>s. vs_refuted_votes s < t \<and> t \<le> vs_total_votes s) ss \<and>
      av_unverified a = filter (\<lambda>s. vs_total_votes s < t) ss \<and>
      mset (av_survived a @ av_killed a @ av_unverified a) = mset ss \<and>
      list_all (\<lambda>s. vs_refuted_votes s + vs_non_refuting_or_weak_votes s = vs_total_votes s) ss"
  by (rule aggregate_verdicts_eq)

end
