(* ===== verification/DeepSearchRun.thy ===== *)
theory DeepSearchRun
  imports DeepSearch Scheduler
begin

text \<open>
  A run of the deep search template (\<^verbatim>\<open>templates/deep_search.rs\<close>, \<^verbatim>\<open>run\<close>), from the question to
  the report, on top of the scheduler, and what the app server records of it
  (\<^verbatim>\<open>request_processors/workflow_processor.rs\<close>). Everything outside is the environment: the model,
  the search and fetch providers, the clock, the cancellation, and the choices of the scheduler.
\<close>

section \<open>Prompts\<close>

definition build_schema_prompt :: "string \<Rightarrow> string \<Rightarrow> string \<Rightarrow> string" where
  "build_schema_prompt prompt schema_name compact_schema =
     prompt @ nl @ nl @ ''Schema name: '' @ schema_name @ nl @ ''Schema JSON: '' @
     compact_schema @ nl @ nl @
     ''Return exactly one JSON object matching this schema. Do not include Markdown. If evidence is missing, return an empty array or a low-confidence verdict instead of inventing facts.''"

definition trim_for_prompt :: "string \<Rightarrow> nat \<Rightarrow> string" where
  "trim_for_prompt text max_chars =
     (let cs = utf8_chars text
      in if length cs \<le> max_chars then text else concat (take max_chars cs) @ ''...'')"

definition scope_prompt :: "(string \<Rightarrow> string) \<Rightarrow> string \<Rightarrow> string" where
  "scope_prompt schema q = build_schema_prompt
     (''Turn the research question into concise search angles.'' @ nl @ ''Question: '' @ q @
      nl @ ''Use 3-6 angles with specific search queries.'')
     ''ScopeOutput'' (schema ''ScopeOutput'')"

definition extract_prompt :: "(string \<Rightarrow> string) \<Rightarrow> string \<Rightarrow> selected_source \<Rightarrow> string \<Rightarrow> string" where
  "extract_prompt schema q source body = build_schema_prompt
     (''Extract verifiable claims from this source.'' @ nl @ ''Question: '' @ q @ nl @
      ''Source URL: '' @ sl_url source @ nl @ ''Source title: '' @ sl_title source @ nl @
      ''Source text:'' @ nl @ trim_for_prompt body 8000)
     ''SourceExtractOutput'' (schema ''SourceExtractOutput'')"

definition verify_prompt :: "(string \<Rightarrow> string) \<Rightarrow> string \<Rightarrow> ranked_claim \<Rightarrow> string \<Rightarrow> string" where
  "verify_prompt schema q c evidence = build_schema_prompt
     (''Check whether the evidence refutes the claim.'' @ nl @ ''Question: '' @ q @ nl @
      ''Claim id: '' @ rc_id c @ nl @ ''Claim: '' @ ec_claim (rc_claim c) @ nl @
      ''Original source: '' @ rc_source_url c @ nl @ ''Evidence text:'' @ nl @
      trim_for_prompt evidence 6000)
     ''ClaimVerdict'' (schema ''ClaimVerdict'')"

definition claims_for_prompt :: "(json \<Rightarrow> string) \<Rightarrow> ranked_claim list \<Rightarrow> string" where
  "claims_for_prompt to_string cs = to_string (JArray (map (\<lambda>c. JObject
     [(''id'', JString (rc_id c)), (''claim'', JString (ec_claim (rc_claim c))),
      (''source_url'', JString (rc_source_url c))]) cs))"

definition synthesize_prompt ::
  "(string \<Rightarrow> string) \<Rightarrow> (json \<Rightarrow> string) \<Rightarrow> string \<Rightarrow> ranked_claim list \<Rightarrow> ranked_claim list \<Rightarrow> string"
  where
  "synthesize_prompt schema to_string q survived killed = build_schema_prompt
     (''Write a concise research report.'' @ nl @ ''Question: '' @ q @ nl @
      ''Surviving unrefuted claims JSON: '' @ claims_for_prompt to_string survived @ nl @
      ''Refuted claims JSON: '' @ claims_for_prompt to_string killed)
     ''DeepSearchReport'' (schema ''DeepSearchReport'')"

definition verification_evidence_text :: "ranked_claim \<Rightarrow> string" where
  "verification_evidence_text c =
     ''Original quote: '' @ ec_quote (rc_claim c) @ nl @ ''Source title: '' @
     rc_source_title c @ nl @ ''Source URL: '' @ rc_source_url c"

section \<open>Errors and results\<close>

datatype deep_search_error =
    DePhase deep_search_phase_id string deep_search_error
  | DeCancelled deep_search_phase_id
  | DeStopped deep_search_stopped
  | DeOther string

fun show_deep_error :: "deep_search_error \<Rightarrow> string" where
  "show_deep_error (DePhase p ctx e) =
     ''deep search '' @ phase_name p @ '' phase failed'' @ ctx @ '': '' @ show_deep_error e"
| "show_deep_error (DeCancelled p) =
     ''deep search cancelled before scheduling '' @ phase_name p @ '' work''"
| "show_deep_error (DeStopped x) =
     ''deep search stopped during '' @ phase_name (dx_phase x) @ '': '' @
     stop_reason_name (dx_reason x) @ '' ('' @ show_int (dx_observed x) @ '' > '' @
     show_int (dx_limit x) @ '')''"
| "show_deep_error (DeOther s) = s"

record deep_search_phase_counts =
  dc_scoped_angles :: nat
  dc_searched_angles :: nat
  dc_search_failed :: nat
  dc_search_skipped :: nat
  dc_search_results :: nat
  dc_sources_selected :: nat
  dc_sources_extracted :: nat
  dc_extract_failed :: nat
  dc_extract_skipped :: nat
  dc_claims_ranked :: nat
  dc_verdict_votes :: nat
  dc_verdict_failed :: nat
  dc_verdict_skipped :: nat
  dc_synthesized :: bool

record deep_search_result =
  dt_report :: deep_search_report
  dt_stats :: deep_search_stats
  dt_selected_sources :: "selected_source list"
  dt_ranked_claims :: "ranked_claim list"
  dt_aggregated_verdicts :: aggregated_verdicts
  dt_phase_counts :: deep_search_phase_counts

definition no_stats :: deep_search_stats where
  "no_stats = \<lparr> ds_sources_fetched = 0, ds_claims_extracted = 0, ds_claims_verified = 0,
     ds_survived = 0, ds_killed = 0, ds_url_dupes = 0, ds_budget_dropped = 0,
     ds_approval_blocked = 0 \<rparr>"

definition no_counts :: deep_search_phase_counts where
  "no_counts = \<lparr> dc_scoped_angles = 0, dc_searched_angles = 0, dc_search_failed = 0,
     dc_search_skipped = 0, dc_search_results = 0, dc_sources_selected = 0,
     dc_sources_extracted = 0, dc_extract_failed = 0, dc_extract_skipped = 0,
     dc_claims_ranked = 0, dc_verdict_votes = 0, dc_verdict_failed = 0, dc_verdict_skipped = 0,
     dc_synthesized = False \<rparr>"

definition no_verdicts :: aggregated_verdicts where
  "no_verdicts = \<lparr> av_survived = [], av_killed = [], av_unverified = [] \<rparr>"

section \<open>The environment and the state\<close>

text \<open>The points of the code that look at the cancellation or the budget.\<close>

datatype checkpoint =
    CkScope | CkScopeAgent | CkSearch | CkSearchCancelled | CkSearchDone
  | CkExtract | CkExtractCancelled | CkExtractDone | CkVerify | CkVerifyCancelled | CkVerifyDone
  | CkSynthesize | CkSynthesizeAgent | CkEnd

datatype fetch_status = FetchFetched | FetchApprovalBlocked | FetchFailed

record fetch_output =
  fo_status :: fetch_status
  fo_content :: "string option"
  fo_error :: "string option"

type_synonym 'a agent = "string \<Rightarrow> string \<Rightarrow> string + 'a \<times> int option"

record deep_env =
  ev_cancel :: "checkpoint \<Rightarrow> bool"
  ev_elapsed :: "checkpoint \<Rightarrow> nat \<times> nat"
  ev_choices :: "deep_search_phase_id \<Rightarrow> sched_choice list"
  ev_scope :: "scope_output agent"
  ev_extract :: "source_extract_output agent"
  ev_verify :: "claim_verdict agent"
  ev_synthesize :: "deep_search_report agent"
  ev_search :: "nat \<Rightarrow> string \<Rightarrow> nat \<Rightarrow> string + workflow_search_result list"
  ev_fetch :: "string \<Rightarrow> fetch_output"
  ev_normalize :: "string \<Rightarrow> string option"
  ev_schema :: "string \<Rightarrow> string"
  ev_json :: "json \<Rightarrow> string"
  ev_run_label :: string

record deep_state =
  de_events :: "progress_event list"
  de_guard :: budget_guard
  de_cancelled :: bool

text \<open>
  How a step of the run can leave it: by an error, by a result, or not at all when the choices are not
  a complete run of the scheduler.
\<close>

datatype deep_exit = ExError deep_search_error | ExResult deep_search_result | ExStuck

type_synonym 'a deep = "deep_state \<Rightarrow> (deep_exit + 'a) \<times> deep_state"

definition deep_return :: "'a \<Rightarrow> 'a deep" where
  "deep_return x st = (Inr x, st)"

definition deep_exit :: "deep_exit \<Rightarrow> 'a deep" where
  "deep_exit e st = (Inl e, st)"

definition deep_then :: "'a deep \<Rightarrow> ('a \<Rightarrow> 'b deep) \<Rightarrow> 'b deep" where
  "deep_then m f st = (case m st of (Inl e, st') \<Rightarrow> (Inl e, st') | (Inr x, st') \<Rightarrow> f x st')"

definition deep_emit :: "progress_event list \<Rightarrow> unit deep" where
  "deep_emit es st = (Inr (), st\<lparr>de_events := de_events st @ es\<rparr>)"

definition is_cancelled_at :: "deep_env \<Rightarrow> checkpoint \<Rightarrow> bool deep" where
  "is_cancelled_at E ck st =
     (let c = de_cancelled st \<or> ev_cancel E ck in (Inr c, st\<lparr>de_cancelled := c\<rparr>))"

definition check_can_continue ::
  "deep_env \<Rightarrow> checkpoint \<Rightarrow> deep_search_phase_id \<Rightarrow> deep_state \<Rightarrow> deep_search_error option \<times> deep_state"
  where
  "check_can_continue E ck phase st =
     (let c = de_cancelled st \<or> ev_cancel E ck; st = st\<lparr>de_cancelled := c\<rparr>
      in (if c then Some (DeCancelled phase)
          else map_option DeStopped
            (ensure_within_limits (fst (ev_elapsed E ck)) (snd (ev_elapsed E ck)) phase (de_guard st)),
          st))"

definition ensure_can_continue :: "deep_env \<Rightarrow> checkpoint \<Rightarrow> deep_search_phase_id \<Rightarrow> unit deep" where
  "ensure_can_continue E ck phase st =
     (case check_can_continue E ck phase st of
        (Some e, st) \<Rightarrow> (Inl (ExError e), st) | (None, st) \<Rightarrow> (Inr (), st))"

definition run_agent_in_phase ::
  "deep_env \<Rightarrow> checkpoint \<Rightarrow> deep_search_phase_id \<Rightarrow> 'a agent \<Rightarrow> string \<Rightarrow> string \<Rightarrow>
   deep_state \<Rightarrow> (deep_search_error + 'a) \<times> deep_state" where
  "run_agent_in_phase E ck phase agent label prompt st =
     (case agent (ev_run_label E @ '':'' @ label) prompt of
        Inl e \<Rightarrow> (Inl (DeOther e), st)
      | Inr (v, tokens) \<Rightarrow>
          (case check_can_continue E ck phase (st\<lparr>de_guard := add_tokens tokens (de_guard st)\<rparr>) of
             (Some e, st) \<Rightarrow> (Inl e, st) | (None, st) \<Rightarrow> (Inr v, st)))"

text \<open>
  A phase run by the scheduler, controlled by the budget. The answers of the controller are among the
  choices; what it records of the outputs stays in the guard.
\<close>

definition run_phase_controlled ::
  "deep_env \<Rightarrow> deep_search_limits \<Rightarrow> deep_search_phase_id \<Rightarrow> string \<Rightarrow> (nat \<Rightarrow> 'v task_result) \<Rightarrow> nat \<Rightarrow>
   'v schedule deep" where
  "run_phase_controlled E l phase label res n st =
     (let cfg = scheduler_new (dl_max_concurrency l) (Some (phase_name phase, label)) True
      in case sched_run cfg res (ev_choices E phase) (sched_start cfg (de_cancelled st) n) of
           None \<Rightarrow> (Inl ExStuck, st)
         | Some s \<Rightarrow>
             if sd_pc s \<noteq> PcDone then (Inl ExStuck, st)
             else (Inr s, st\<lparr>de_events := de_events st @ sd_events s,
                    de_guard := fold add_tokens (map (task_tokens res \<circ> fst) (sd_outputs s)) (de_guard st),
                    de_cancelled := sd_cancelled s\<rparr>))"

section \<open>Scope and search\<close>

definition declare_progress_phases :: "deep_search_limits \<Rightarrow> progress_event list" where
  "declare_progress_phases l = [PeDeclared ''scope'' ''Scope'' 1,
     PeDeclared ''search'' ''Search'' (dl_max_angles l),
     PeDeclared ''extract'' ''Extract'' (dl_max_sources l),
     PeDeclared ''verify'' ''Verify'' (dl_max_claims l * dl_votes_per_claim l),
     PeDeclared ''synthesize'' ''Synthesize'' 1]"

definition run_scope :: "deep_env \<Rightarrow> deep_search_limits \<Rightarrow> string \<Rightarrow> scope_output deep" where
  "run_scope E l q =
     deep_then (deep_emit (declare_progress_phases l)) (\<lambda>_.
     deep_then (ensure_can_continue E CkScope PhScope) (\<lambda>_.
     deep_then (deep_emit [PeStarted ''scope'' ''Scope'' 1]) (\<lambda>_.
     deep_then (\<lambda>st. case run_agent_in_phase E CkScopeAgent PhScope (ev_scope E) ''scope''
                          (scope_prompt (ev_schema E) q) st of
                   (Inl e, st) \<Rightarrow> (Inl (ExError (DePhase PhScope '''' e)), st)
                 | (Inr v, st) \<Rightarrow> (Inr v, st)) (\<lambda>scope.
     deep_then (deep_emit [PeCountsUpdated ''scope'' 1 0 0, PeCompleted ''scope'']) (\<lambda>_.
     deep_return scope)))))"

text \<open>The task of an angle: its label and the results, without tokens.\<close>

definition search_task ::
  "deep_env \<Rightarrow> deep_search_limits \<Rightarrow> search_angle list \<Rightarrow> nat \<Rightarrow> (string \<times> search_result_item list) task_result"
  where
  "search_task E l angles i =
     (let a = angles ! i
      in case ev_search E i (an_query a) (dl_max_sources l) of
           Inl e \<Rightarrow> Inl e
         | Inr rs \<Rightarrow> Inr ((an_label a, map search_result_item_from_workflow rs), None))"

definition run_search ::
  "deep_env \<Rightarrow> deep_search_limits \<Rightarrow> search_angle list \<Rightarrow> deep_search_phase_counts \<Rightarrow>
   (dedupe_result \<times> deep_search_phase_counts) deep" where
  "run_search E l angles counts =
     deep_then (ensure_can_continue E CkSearch PhSearch) (\<lambda>_.
     deep_then (run_phase_controlled E l PhSearch ''Search'' (search_task E l angles) (length angles)) (\<lambda>s.
     let rep = schedule_report s;
         counts = counts\<lparr>dc_searched_angles := length (sr_outputs rep),
           dc_search_failed := sr_failed_agent_calls rep,
           dc_search_skipped := sr_skipped_agent_calls rep,
           dc_search_results := sum_list (map (length \<circ> snd) (sr_outputs rep))\<rparr>
     in if sr_outputs rep = [] \<and> 0 < sr_failed_agent_calls rep
        then deep_exit (ExError (DePhase PhSearch '' after every search task failed''
          (DeOther (show_nat (sr_failed_agent_calls rep) @
             '' search task(s) failed before any usable sources could be found''))))
        else
     deep_then (is_cancelled_at E CkSearchCancelled) (\<lambda>c.
     if c then deep_exit (ExError (DeCancelled PhSearch)) else
     deep_then (ensure_can_continue E CkSearchDone PhSearch) (\<lambda>_.
     let d = dedupe_search_results_by_angle (ev_normalize E) (sr_outputs rep) (dl_max_sources l)
     in deep_return (d, counts\<lparr>dc_sources_selected := length (dd_sources d)\<rparr>)))))"

section \<open>Extraction\<close>

definition pad4 :: "nat \<Rightarrow> string" where
  "pad4 n = (let s = show_nat n in replicate (4 - length s) (CHR ''0'') @ s)"

definition extract_task ::
  "deep_env \<Rightarrow> string \<Rightarrow> selected_source list \<Rightarrow> nat \<Rightarrow> (selected_source \<times> source_extract_output) task_result"
  where
  "extract_task E q sources i =
     (let source = sources ! i; f = ev_fetch E (sl_url source)
      in case fo_status f of
           FetchApprovalBlocked \<Rightarrow>
             Inl (case fo_error f of Some e \<Rightarrow> e | None \<Rightarrow> ''source fetch requires approval'')
         | FetchFailed \<Rightarrow> Inl (case fo_error f of Some e \<Rightarrow> e | None \<Rightarrow> ''source fetch failed'')
         | FetchFetched \<Rightarrow>
             (case ev_extract E (ev_run_label E @ '':'' @ ''extract-'' @ pad4 (i + 1))
                 (extract_prompt (ev_schema E) q source (case fo_content f of Some c \<Rightarrow> c | None \<Rightarrow> '''')) of
                Inl e \<Rightarrow> Inl e
              | Inr (v, t) \<Rightarrow> Inr ((source, v), t)))"

definition count_fetches :: "deep_env \<Rightarrow> fetch_status \<Rightarrow> selected_source list \<Rightarrow> nat" where
  "count_fetches E k sources = length (filter (\<lambda>s. fo_status (ev_fetch E (sl_url s)) = k) sources)"

definition non_empty_or :: "string \<Rightarrow> string \<Rightarrow> string" where
  "non_empty_or v fallback = (if trim v = [] then fallback else v)"

definition claims_of_output ::
  "selected_source \<times> source_extract_output \<Rightarrow> (string \<Rightarrow> ranked_claim) list" where
  "claims_of_output x = (case x of (source, out) \<Rightarrow>
     map (\<lambda>c i. \<lparr> rc_id = i, rc_source_url = non_empty_or (se_source_url out) (sl_url source),
       rc_source_title = non_empty_or (se_source_title out) (sl_title source),
       rc_source_quality = se_source_quality out, rc_claim = c \<rparr>) (se_claims out))"

definition extracted_claims ::
  "(selected_source \<times> source_extract_output) list \<Rightarrow> ranked_claim list" where
  "extracted_claims outs =
     map (\<lambda>(k, c). c (''claim-'' @ pad4 k)) (enumerate 1 (concat (map claims_of_output outs)))"

definition run_extract ::
  "deep_env \<Rightarrow> deep_search_limits \<Rightarrow> string \<Rightarrow> dedupe_result \<Rightarrow> deep_search_stats \<Rightarrow>
   deep_search_phase_counts \<Rightarrow>
   (ranked_claim list \<times> deep_search_stats \<times> deep_search_phase_counts) deep" where
  "run_extract E l q d stats counts =
     deep_then (ensure_can_continue E CkExtract PhExtract) (\<lambda>_.
     if dd_sources d = []
     then deep_then (deep_emit [PeCountsUpdated ''extract'' 0 0 0, PeSkipped ''extract'',
            PeCountsUpdated ''verify'' 0 0 0, PeSkipped ''verify'',
            PeCountsUpdated ''synthesize'' 0 0 1, PeSkipped ''synthesize'']) (\<lambda>_.
          deep_exit (ExResult \<lparr> dt_report = no_sources_report q stats, dt_stats = stats,
            dt_selected_sources = dd_sources d, dt_ranked_claims = [],
            dt_aggregated_verdicts = no_verdicts, dt_phase_counts = counts \<rparr>))
     else
     deep_then (run_phase_controlled E l PhExtract ''Extract'' (extract_task E q (dd_sources d))
                  (length (dd_sources d))) (\<lambda>s.
     let rep = schedule_report s; ran = take (sr_agent_calls rep) (dd_sources d);
         counts = counts\<lparr>dc_sources_extracted := length (sr_outputs rep),
           dc_extract_failed := sr_failed_agent_calls rep,
           dc_extract_skipped := sr_skipped_agent_calls rep\<rparr>;
         stats = stats\<lparr>ds_sources_fetched := count_fetches E FetchFetched ran,
           ds_approval_blocked := count_fetches E FetchApprovalBlocked ran\<rparr>
     in
     deep_then (is_cancelled_at E CkExtractCancelled) (\<lambda>c.
     if c then deep_exit (ExError (DeCancelled PhExtract)) else
     deep_then (ensure_can_continue E CkExtractDone PhExtract) (\<lambda>_.
     let claims = extracted_claims (sr_outputs rep);
         ranked = rank_claims claims (dl_max_claims l)
     in deep_return (ranked,
          stats\<lparr>ds_claims_extracted := length claims,
            ds_budget_dropped := ds_budget_dropped stats + (length claims - length ranked)\<rparr>,
          counts\<lparr>dc_claims_ranked := length ranked\<rparr>)))))"

section \<open>Verification\<close>

definition verify_tasks :: "deep_search_limits \<Rightarrow> ranked_claim list \<Rightarrow> (string \<times> ranked_claim) list" where
  "verify_tasks l ranked = concat (map (\<lambda>(k, c).
     map (\<lambda>v. (''verify-'' @ pad4 (k + 1) @ ''-vote-'' @ pad4 (v + 1), c))
       [0..<dl_votes_per_claim l]) (enumerate 0 ranked))"

definition verify_task ::
  "deep_env \<Rightarrow> string \<Rightarrow> (string \<times> ranked_claim) list \<Rightarrow> nat \<Rightarrow> (string \<times> claim_verdict) task_result" where
  "verify_task E q tasks i =
     (case tasks ! i of (label, c) \<Rightarrow>
      case ev_verify E (ev_run_label E @ '':'' @ label)
             (verify_prompt (ev_schema E) q c (verification_evidence_text c)) of
        Inl e \<Rightarrow> Inl e
      | Inr (v, t) \<Rightarrow> Inr ((rc_id c, v), t))"

definition push_verdict ::
  "string \<times> claim_verdict \<Rightarrow> (string \<rightharpoonup> claim_verdict list) \<Rightarrow> string \<rightharpoonup> claim_verdict list" where
  "push_verdict x m = (case x of (i, v) \<Rightarrow>
     m(i \<mapsto> (case m i of None \<Rightarrow> [] | Some vs \<Rightarrow> vs) @ [v]))"

definition run_verify ::
  "deep_env \<Rightarrow> deep_search_limits \<Rightarrow> string \<Rightarrow> ranked_claim list \<Rightarrow> deep_search_phase_counts \<Rightarrow>
   ((string \<times> claim_verdict) list \<times> deep_search_phase_counts) deep" where
  "run_verify E l q ranked counts =
     (if length ranked * dl_votes_per_claim l = 0
      then deep_then (deep_emit [PeCountsUpdated ''verify'' 0 0 0, PeSkipped ''verify'']) (\<lambda>_.
           deep_return ([], counts))
      else
      let tasks = verify_tasks l ranked in
      deep_then (run_phase_controlled E l PhVerify ''Verify'' (verify_task E q tasks) (length tasks)) (\<lambda>s.
      let rep = schedule_report s;
          counts = counts\<lparr>dc_verdict_votes := length (sr_outputs rep),
            dc_verdict_failed := sr_failed_agent_calls rep,
            dc_verdict_skipped := sr_skipped_agent_calls rep\<rparr>
      in
      deep_then (is_cancelled_at E CkVerifyCancelled) (\<lambda>c.
      if c then deep_exit (ExError (DeCancelled PhVerify)) else
      deep_then (ensure_can_continue E CkVerifyDone PhVerify) (\<lambda>_.
      deep_return (sr_outputs rep, counts)))))"

section \<open>Synthesis\<close>

definition skip_synthesis :: "deep_search_result \<Rightarrow> deep_search_result deep" where
  "skip_synthesis res =
     deep_then (deep_emit [PeCountsUpdated ''synthesize'' 0 0 1, PeSkipped ''synthesize'']) (\<lambda>_.
     deep_exit (ExResult res))"

definition run_synthesis ::
  "deep_env \<Rightarrow> string \<Rightarrow> deep_search_result \<Rightarrow> deep_search_result deep" where
  "run_synthesis E q res =
     (let av = dt_aggregated_verdicts res; stats = dt_stats res;
          claims = (\<lambda>xs. map vs_claim xs)
      in
      deep_then (deep_emit [PeStarted ''synthesize'' ''Synthesize'' 1]) (\<lambda>_.
      deep_then (\<lambda>st. (case run_agent_in_phase E CkSynthesizeAgent PhSynthesize (ev_synthesize E)
                 ''synthesize'' (synthesize_prompt (ev_schema E) (ev_json E) q
                   (claims (av_survived av)) (claims (av_killed av))) st of
          (Inr report, st) \<Rightarrow> deep_then
             (deep_emit [PeCountsUpdated ''synthesize'' 1 0 0, PeCompleted ''synthesize'']) (\<lambda>_.
              deep_return (res\<lparr>dt_report := report,
                dt_phase_counts := (dt_phase_counts res)\<lparr>dc_synthesized := True\<rparr>\<rparr>)) st
        | (Inl e, st) \<Rightarrow> deep_then
             (deep_emit [PeCountsUpdated ''synthesize'' 0 0 1, PeSkipped ''synthesize'']) (\<lambda>_.
              deep_return (res\<lparr>dt_report := synthesis_failed_report q (av_survived av)
                (av_killed av) stats (show_deep_error e)\<rparr>)) st)) (\<lambda>res.
      deep_then (ensure_can_continue E CkEnd PhSynthesize) (\<lambda>_. deep_return res))))"

section \<open>The run\<close>

definition deep_search_body ::
  "deep_env \<Rightarrow> deep_search_limits \<Rightarrow> string \<Rightarrow> deep_search_result deep" where
  "deep_search_body E l q =
     deep_then (run_scope E l q) (\<lambda>scope.
     let counts = no_counts\<lparr>dc_scoped_angles := length (so_angles scope)\<rparr>;
         angles = take (dl_max_angles l) (so_angles scope)
     in
     deep_then (run_search E l angles counts) (\<lambda>(d, counts).
     let stats = no_stats\<lparr>ds_url_dupes := dd_url_dupes d, ds_budget_dropped := dd_budget_dropped d\<rparr> in
     deep_then (run_extract E l q d stats counts) (\<lambda>(ranked, stats, counts).
     let res = \<lparr> dt_report = no_claims_report q stats, dt_stats = stats,
           dt_selected_sources = dd_sources d, dt_ranked_claims = ranked,
           dt_aggregated_verdicts = no_verdicts, dt_phase_counts = counts \<rparr> in
     deep_then (ensure_can_continue E CkVerify PhVerify) (\<lambda>_.
     if ranked = [] then
       if dc_sources_extracted counts = 0 \<and> 0 < dc_extract_failed counts
       then deep_exit (ExError (DePhase PhExtract '' after every selected source failed''
          (DeOther (show_nat (dc_extract_failed counts) @
            '' selected source extraction task(s) failed before any claims could be extracted''))))
       else deep_then (deep_emit [PeCountsUpdated ''verify'' 0 0 0, PeSkipped ''verify'']) (\<lambda>_.
            skip_synthesis res)
     else
     deep_then (run_verify E l q ranked counts) (\<lambda>(votes, counts).
     let by_id = fold push_verdict votes Map.empty;
         av = aggregate_verdicts ranked by_id (dl_refutations_required l) (dl_votes_per_claim l);
         stats = stats\<lparr>ds_claims_verified :=
             length (filter (\<lambda>i. by_id i \<noteq> Some []) (remdups (map fst votes))),
           ds_survived := length (av_survived av), ds_killed := length (av_killed av)\<rparr>;
         res = res\<lparr>dt_stats := stats, dt_aggregated_verdicts := av, dt_phase_counts := counts\<rparr>
     in
     deep_then (ensure_can_continue E CkSynthesize PhSynthesize) (\<lambda>_.
     if av_survived av = [] \<and> length (av_killed av) = length ranked
     then skip_synthesis (res\<lparr>dt_report := all_refuted_report q (av_killed av) stats\<rparr>)
     else if av_survived av = [] \<and> av_killed av = [] \<and> length (av_unverified av) = length ranked
     then skip_synthesis (res\<lparr>dt_report := all_unverified_report q (av_unverified av) stats\<rparr>)
     else run_synthesis E q res))))))"

definition deep_search_run ::
  "deep_env \<Rightarrow> deep_search_limits \<Rightarrow> string \<Rightarrow> ((deep_search_error + deep_search_result) option) \<times> deep_state"
  where
  "deep_search_run E l q =
     (case deep_search_body E l q
        \<lparr> de_events = [], de_guard = budget_guard_new l, de_cancelled = False \<rparr> of
        (Inr r, st) \<Rightarrow> (Some (Inr r), st)
      | (Inl (ExResult r), st) \<Rightarrow> (Some (Inr r), st)
      | (Inl (ExError e), st) \<Rightarrow> (Some (Inl e), st)
      | (Inl ExStuck, st) \<Rightarrow> (None, st))"

section \<open>Reasoning about a run\<close>

text \<open>What holds after a step: \<open>Q\<close> if it goes on, \<open>X\<close> if it leaves the run.\<close>

definition deep_valid ::
  "(deep_state \<Rightarrow> bool) \<Rightarrow> 'a deep \<Rightarrow> ('a \<Rightarrow> deep_state \<Rightarrow> bool) \<Rightarrow> (deep_exit \<Rightarrow> deep_state \<Rightarrow> bool) \<Rightarrow> bool"
  where
  "deep_valid P m Q X \<longleftrightarrow>
     (\<forall>st. P st \<longrightarrow> (case m st of (Inl e, st') \<Rightarrow> X e st' | (Inr x, st') \<Rightarrow> Q x st'))"

lemma deep_valid_then:
  "deep_valid P m Q X \<Longrightarrow> (\<And>x. deep_valid (Q x) (f x) R X) \<Longrightarrow> deep_valid P (deep_then m f) R X"
  unfolding deep_valid_def deep_then_def by (fastforce split: prod.splits sum.splits)

lemma deep_valid_return: "(\<And>st. P st \<Longrightarrow> Q x st) \<Longrightarrow> deep_valid P (deep_return x) Q X"
  by (simp add: deep_valid_def deep_return_def)

lemma deep_valid_exit: "(\<And>st. P st \<Longrightarrow> X e st) \<Longrightarrow> deep_valid P (deep_exit e) Q X"
  by (simp add: deep_valid_def deep_exit_def)

lemma deep_valid_emit:
  "(\<And>st. P st \<Longrightarrow> Q () (st\<lparr>de_events := de_events st @ es\<rparr>)) \<Longrightarrow> deep_valid P (deep_emit es) Q X"
  by (simp add: deep_valid_def deep_emit_def)

text \<open>A property of the events alone is kept by the checks, and by an agent.\<close>

definition on_events :: "(progress_event list \<Rightarrow> bool) \<Rightarrow> deep_state \<Rightarrow> bool" where
  "on_events I st \<longleftrightarrow> I (de_events st)"

lemma check_events [simp]: "de_events (snd (check_can_continue E ck p st)) = de_events st"
  by (simp add: check_can_continue_def Let_def)

lemma run_agent_events [simp]:
  "de_events (snd (run_agent_in_phase E ck p ag lb pr st)) = de_events st"
  by (auto simp: run_agent_in_phase_def split: sum.split prod.split option.split)
    (metis check_events snd_conv deep_state.select_convs(1) deep_state.surjective
      deep_state.update_convs(2))+

lemma deep_valid_ensure:
  "deep_valid (on_events I) (ensure_can_continue E ck p) (\<lambda>_. on_events I)
     (\<lambda>e st. (\<exists>x. e = ExError x) \<and> on_events I st)"
  unfolding deep_valid_def ensure_can_continue_def
  by (auto simp: on_events_def split: prod.split option.split) (metis check_events snd_conv)+

lemma deep_valid_cancelled:
  "deep_valid (on_events I) (is_cancelled_at E ck) (\<lambda>_. on_events I) X"
  by (simp add: deep_valid_def is_cancelled_at_def on_events_def Let_def)

text \<open>The scheduler: its final state is sound, and its events are those of one phase.\<close>

definition scheduled :: "deep_search_phase_id \<Rightarrow> string \<Rightarrow> nat \<Rightarrow> 'v schedule \<Rightarrow> bool" where
  "scheduled phase label n s \<longleftrightarrow> sd_pc s = PcDone \<and> events_ok (phase_name phase) label n s \<and>
     sd_total s = n \<and> length (sd_outputs s) + sd_failed s + sd_skipped s = n \<and>
     sd_completed s = length (sd_outputs s)"

lemma run_phase_scheduled:
  assumes "run_phase_controlled E l phase label res n st = (Inr s, st')"
  shows "scheduled phase label n s" "de_events st' = de_events st @ sd_events s"
proof -
  let ?cfg = "scheduler_new (dl_max_concurrency l) (Some (phase_name phase, label)) True"
  from assms have r: "sched_run ?cfg res (ev_choices E phase) (sched_start ?cfg (de_cancelled st) n) = Some s"
    and d: "sd_pc s = PcDone" and e: "de_events st' = de_events st @ sd_events s"
    by (auto simp: run_phase_controlled_def Let_def split: option.splits if_splits)
  have p: "sg_progress ?cfg = Some (phase_name phase, label)" by (simp add: scheduler_new_def)
  have "sched_ok ?cfg res n s"
    by (rule sched_ok_run [OF r sched_ok_start]) (simp add: scheduler_new_def)
  moreover have "events_ok (phase_name phase) label n s"
    by (rule events_ok_run [OF p r events_ok_start [OF p]])
  ultimately show "scheduled phase label n s"
    using d by (auto simp: scheduled_def sched_ok_def split: if_splits)
  show "de_events st' = de_events st @ sd_events s" by (rule e)
qed

lemma deep_valid_phase:
  fixes res :: "nat \<Rightarrow> 'v task_result"
  shows "(\<And>(s :: 'v schedule) st. on_events I st \<Longrightarrow> scheduled phase label n s \<Longrightarrow> J (de_events st @ sd_events s)) \<Longrightarrow>
   deep_valid (on_events I) (run_phase_controlled E l phase label res n)
     (\<lambda>s st. scheduled phase label n s \<and> on_events J st)
     (\<lambda>e st. e = ExStuck)"
  unfolding deep_valid_def
proof (intro allI impI)
  fix st
  assume I: "on_events I st"
    and J: "\<And>(s :: 'v schedule) st. on_events I st \<Longrightarrow> scheduled phase label n s \<Longrightarrow> J (de_events st @ sd_events s)"
  show "case run_phase_controlled E l phase label res n st of
      (Inl e, st') \<Rightarrow> e = ExStuck
    | (Inr s, st') \<Rightarrow> scheduled phase label n s \<and> on_events J st'"
  proof (cases "run_phase_controlled E l phase label res n st")
    case (Pair r st')
    then show ?thesis
    proof (cases r)
      case (Inl e)
      with Pair show ?thesis
        by (auto simp: run_phase_controlled_def Let_def split: option.splits if_splits)
    next
      case (Inr s)
      with run_phase_scheduled [of E l phase label res n st s st'] Pair I J [of st s] show ?thesis
        by (auto simp: on_events_def)
    qed
  qed
qed

section \<open>What a run returns, and what it has shown\<close>

fun event_id :: "progress_event \<Rightarrow> string" where
  "event_id (PeDeclared i _ _) = i" | "event_id (PeStarted i _ _) = i"
| "event_id (PeCountsUpdated i _ _ _) = i" | "event_id (PeCompleted i) = i"
| "event_id (PeFailed i) = i" | "event_id (PeCancelled i) = i" | "event_id (PeSkipped i) = i"

fun ends_phase :: "progress_event \<Rightarrow> bool" where
  "ends_phase (PeDeclared _ _ _) = False" | "ends_phase (PeStarted _ _ _) = False"
| "ends_phase (PeCountsUpdated _ _ _ _) = False" | "ends_phase _ = True"

definition phase_names :: "string list" where
  "phase_names = [''scope'', ''search'', ''extract'', ''verify'', ''synthesize'']"

definition closed_ids :: "progress_event list \<Rightarrow> string set" where
  "closed_ids es = event_id ` set (filter ends_phase es)"

text \<open>The events of a run so far: the declarations, then events of the five phases, \<open>C\<close> of them ended.\<close>

definition shown_ok :: "deep_search_limits \<Rightarrow> string set \<Rightarrow> progress_event list \<Rightarrow> bool" where
  "shown_ok l C es \<longleftrightarrow>
     (\<exists>rest. es = declare_progress_phases l @ rest \<and> list_all (\<lambda>e. event_id e \<in> set phase_names) rest) \<and>
     C \<subseteq> closed_ids es"

definition result_ok :: "deep_search_limits \<Rightarrow> deep_search_result \<Rightarrow> bool" where
  "result_ok l r \<longleftrightarrow>
     (let c = dt_phase_counts r; av = dt_aggregated_verdicts r; st = dt_stats r in
      length (dt_selected_sources r) \<le> dl_max_sources l \<and>
      distinct (map sl_normalized_url (dt_selected_sources r)) \<and>
      length (dt_ranked_claims r) \<le> dl_max_claims l \<and>
      dc_searched_angles c + dc_search_failed c + dc_search_skipped c =
        min (dl_max_angles l) (dc_scoped_angles c) \<and>
      dc_sources_selected c = length (dt_selected_sources r) \<and>
      dc_sources_extracted c + dc_extract_failed c + dc_extract_skipped c = dc_sources_selected c \<and>
      dc_claims_ranked c = length (dt_ranked_claims r) \<and>
      dc_verdict_votes c + dc_verdict_failed c + dc_verdict_skipped c =
        dc_claims_ranked c * dl_votes_per_claim l \<and>
      mset (map vs_claim (av_survived av @ av_killed av @ av_unverified av)) \<subseteq># mset (dt_ranked_claims r) \<and>
      ds_survived st = length (av_survived av) \<and> ds_killed st = length (av_killed av))"

definition left_ok :: "deep_search_limits \<Rightarrow> deep_exit \<Rightarrow> deep_state \<Rightarrow> bool" where
  "left_ok l e st = (case e of
      ExStuck \<Rightarrow> True
    | ExError _ \<Rightarrow> on_events (shown_ok l {}) st
    | ExResult r \<Rightarrow> result_ok l r \<and> on_events (shown_ok l (set phase_names)) st)"

lemma phase_name_in: "phase_name p \<in> set phase_names"
  by (cases p) (simp_all add: phase_names_def)

lemma closed_ids_append [simp]: "closed_ids (xs @ ys) = closed_ids xs \<union> closed_ids ys"
  by (auto simp: closed_ids_def)

lemma shown_ok_append:
  "shown_ok l C es \<Longrightarrow> list_all (\<lambda>e. event_id e \<in> set phase_names) ds \<Longrightarrow> D \<subseteq> C \<union> closed_ids ds \<Longrightarrow>
   shown_ok l D (es @ ds)"
  unfolding shown_ok_def by fastforce

lemma shown_ok_mono: "shown_ok l C es \<Longrightarrow> D \<subseteq> C \<Longrightarrow> shown_ok l D es"
  by (auto simp: shown_ok_def)

lemma scheduled_events:
  assumes "scheduled p label n s"
  shows "list_all (\<lambda>e. event_id e \<in> set phase_names) (sd_events s)"
    "phase_name p \<in> closed_ids (sd_events s)"
proof -
  from assms obtain cs where e: "sd_events s = PeStarted (phase_name p) label n #
      map (counts_event (phase_name p)) cs @ [phase_outcome s (phase_name p)]"
    by (auto simp: scheduled_def events_ok_def)
  have o: "event_id (phase_outcome s (phase_name p)) = phase_name p"
    "ends_phase (phase_outcome s (phase_name p))"
    by (auto simp: phase_outcome_def)
  show "list_all (\<lambda>e. event_id e \<in> set phase_names) (sd_events s)"
    by (auto simp: e o phase_name_in list_all_iff counts_event_def)
  show "phase_name p \<in> closed_ids (sd_events s)"
    by (simp add: e closed_ids_def o)
qed

lemma left_ok_error: "on_events (shown_ok l C) st \<Longrightarrow> left_ok l (ExError x) st"
  by (auto simp: left_ok_def on_events_def intro: shown_ok_mono)

lemma deep_valid_weaken:
  "deep_valid P m Q X \<Longrightarrow> (\<And>st. P' st \<Longrightarrow> P st) \<Longrightarrow> (\<And>x st. Q x st \<Longrightarrow> Q' x st) \<Longrightarrow>
   (\<And>e st. X e st \<Longrightarrow> X' e st) \<Longrightarrow> deep_valid P' m Q' X'"
  unfolding deep_valid_def by (fastforce split: prod.splits sum.splits)

lemma ensure_ok:
  "deep_valid (on_events (shown_ok l C)) (ensure_can_continue E ck p)
     (\<lambda>_. on_events (shown_ok l C)) (left_ok l)"
  by (rule deep_valid_weaken [OF deep_valid_ensure]) (auto intro: left_ok_error)

lemma emit_ok:
  "list_all (\<lambda>e. event_id e \<in> set phase_names) es \<Longrightarrow> D \<subseteq> C \<union> closed_ids es \<Longrightarrow>
   deep_valid (on_events (shown_ok l C)) (deep_emit es) (\<lambda>_. on_events (shown_ok l D)) X"
  by (rule deep_valid_emit) (auto simp: on_events_def intro: shown_ok_append)

lemma phase_ok_valid:
  "deep_valid (on_events (shown_ok l C)) (run_phase_controlled E l p label res n)
     (\<lambda>s st. scheduled p label n s \<and> on_events (shown_ok l (insert (phase_name p) C)) st) (left_ok l)"
proof (rule deep_valid_weaken [OF deep_valid_phase
      [where I = "shown_ok l C" and J = "shown_ok l (insert (phase_name p) C)"]])
  fix s :: "'a schedule" and st
  assume "on_events (shown_ok l C) st" and s: "scheduled p label n s"
  then show "shown_ok l (insert (phase_name p) C) (de_events st @ sd_events s)"
    using scheduled_events [OF s] by (auto simp: on_events_def intro: shown_ok_append)
qed (auto simp: left_ok_def)

lemma deep_valid_if:
  "(b \<Longrightarrow> deep_valid P m Q X) \<Longrightarrow> (\<not> b \<Longrightarrow> deep_valid P m' Q X) \<Longrightarrow>
   deep_valid P (if b then m else m') Q X"
  by simp

lemma deep_valid_pure:
  "(Q \<Longrightarrow> deep_valid P m R X) \<Longrightarrow> deep_valid (\<lambda>st. Q \<and> P st) m R X"
  by (auto simp: deep_valid_def)

abbreviation shown_at :: "deep_search_limits \<Rightarrow> string set \<Rightarrow> deep_state \<Rightarrow> bool" where
  "shown_at l C \<equiv> on_events (shown_ok l C)"

lemma run_scope_valid:
  "deep_valid (on_events (\<lambda>es. es = [])) (run_scope E l q) (\<lambda>_. shown_at l {''scope''}) (left_ok l)"
  unfolding run_scope_def
proof (rule deep_valid_then)
  show "deep_valid (on_events (\<lambda>es. es = [])) (deep_emit (declare_progress_phases l))
      (\<lambda>_. shown_at l {}) (left_ok l)"
    by (rule deep_valid_emit) (simp add: on_events_def shown_ok_def)
next
  have agent: "deep_valid (shown_at l {}) (\<lambda>st. case run_agent_in_phase E CkScopeAgent PhScope
        (ev_scope E) ''scope'' (scope_prompt (ev_schema E) q) st of
          (Inl e, st) \<Rightarrow> (Inl (ExError (DePhase PhScope '''' e)), st) | (Inr v, st) \<Rightarrow> (Inr v, st))
      (\<lambda>_. shown_at l {}) (left_ok l)"
    unfolding deep_valid_def
    by (auto simp: on_events_def left_ok_def split: prod.split sum.split)
      (metis run_agent_events snd_conv)+
  show "deep_valid (shown_at l {}) (deep_then (ensure_can_continue E CkScope PhScope) (\<lambda>_.
     deep_then (deep_emit [PeStarted ''scope'' ''Scope'' 1]) (\<lambda>_.
     deep_then (\<lambda>st. case run_agent_in_phase E CkScopeAgent PhScope (ev_scope E) ''scope''
                          (scope_prompt (ev_schema E) q) st of
                   (Inl e, st) \<Rightarrow> (Inl (ExError (DePhase PhScope '''' e)), st)
                 | (Inr v, st) \<Rightarrow> (Inr v, st)) (\<lambda>scope.
     deep_then (deep_emit [PeCountsUpdated ''scope'' 1 0 0, PeCompleted ''scope'']) (\<lambda>_.
     deep_return scope))))) (\<lambda>_. shown_at l {''scope''}) (left_ok l)"
    by (rule deep_valid_then [OF ensure_ok] deep_valid_then [OF emit_ok [where D = "{}"]]
        deep_valid_then [OF agent] deep_valid_then [OF emit_ok [where D = "{''scope''}"]]
        deep_valid_return
      | simp add: phase_names_def closed_ids_def)+
qed

lemma scheduled_report:
  "scheduled p label n s \<Longrightarrow>
   length (sr_outputs (schedule_report s)) + sr_failed_agent_calls (schedule_report s) +
     sr_skipped_agent_calls (schedule_report s) = n"
  by (simp add: scheduled_def schedule_report_def)

lemma dedupe_bounds:
  "length (dd_sources (dedupe_search_results_by_angle f gs m)) \<le> m"
  "distinct (map sl_normalized_url (dd_sources (dedupe_search_results_by_angle f gs m)))"
  using dedupe_search_results_eq [of f gs m] by (auto simp: Let_def)

definition searched_ok ::
  "deep_search_limits \<Rightarrow> nat \<Rightarrow> dedupe_result \<times> deep_search_phase_counts \<Rightarrow> bool" where
  "searched_ok l n x \<longleftrightarrow> (case x of (d, c) \<Rightarrow>
     length (dd_sources d) \<le> dl_max_sources l \<and> distinct (map sl_normalized_url (dd_sources d)) \<and>
     dc_scoped_angles c = n \<and>
     dc_searched_angles c + dc_search_failed c + dc_search_skipped c = min (dl_max_angles l) n \<and>
     dc_sources_selected c = length (dd_sources d) \<and>
     dc_sources_extracted c = 0 \<and> dc_extract_failed c = 0 \<and> dc_extract_skipped c = 0 \<and>
     dc_claims_ranked c = 0 \<and> dc_verdict_votes c = 0 \<and> dc_verdict_failed c = 0 \<and>
     dc_verdict_skipped c = 0)"

lemma run_search_valid:
  "length angles = min (dl_max_angles l) n \<Longrightarrow>
   deep_valid (shown_at l {''scope''}) (run_search E l angles (no_counts\<lparr>dc_scoped_angles := n\<rparr>))
     (\<lambda>x st. searched_ok l n x \<and> shown_at l {''scope'', ''search''} st) (left_ok l)"
  unfolding run_search_def Let_def
  apply (rule deep_valid_then [OF ensure_ok])
  apply (rule deep_valid_then [OF phase_ok_valid])
  apply (rule deep_valid_pure)
  apply (rule deep_valid_if)
   apply (rule deep_valid_exit, erule left_ok_error)
  apply (rule deep_valid_then [OF deep_valid_cancelled])
  apply (rule deep_valid_if)
   apply (rule deep_valid_exit, erule left_ok_error)
  apply (rule deep_valid_then [OF ensure_ok])
  apply (rule deep_valid_return)
  apply (auto simp: searched_ok_def dedupe_bounds no_counts_def insert_commute dest: scheduled_report)
  done

definition extracted_ok ::
  "deep_search_limits \<Rightarrow> dedupe_result \<Rightarrow> deep_search_phase_counts \<Rightarrow>
   ranked_claim list \<times> deep_search_stats \<times> deep_search_phase_counts \<Rightarrow> bool" where
  "extracted_ok l d c0 x \<longleftrightarrow> (case x of (ranked, st, c) \<Rightarrow>
     length ranked \<le> dl_max_claims l \<and> dc_claims_ranked c = length ranked \<and>
     dc_sources_extracted c + dc_extract_failed c + dc_extract_skipped c = length (dd_sources d) \<and>
     dc_scoped_angles c = dc_scoped_angles c0 \<and>
     dc_searched_angles c = dc_searched_angles c0 \<and> dc_search_failed c = dc_search_failed c0 \<and>
     dc_search_skipped c = dc_search_skipped c0 \<and>
     dc_sources_selected c = dc_sources_selected c0 \<and>
     dc_verdict_votes c = 0 \<and> dc_verdict_failed c = 0 \<and> dc_verdict_skipped c = 0 \<and>
     ds_survived st = 0 \<and> ds_killed st = 0)"

lemma no_sources_result_ok:
  "searched_ok l n (d, c) \<Longrightarrow> dd_sources d = [] \<Longrightarrow> ds_survived st = 0 \<Longrightarrow> ds_killed st = 0 \<Longrightarrow>
   result_ok l \<lparr> dt_report = r, dt_stats = st, dt_selected_sources = [], dt_ranked_claims = [],
     dt_aggregated_verdicts = no_verdicts, dt_phase_counts = c \<rparr>"
  by (simp add: result_ok_def searched_ok_def no_verdicts_def)

lemma rank_claims_length: "length (rank_claims cs m) \<le> m"
  by (simp add: rank_claims_def)

lemma run_extract_valid:
  assumes "searched_ok l n (d, c)" "ds_survived st0 = 0" "ds_killed st0 = 0"
  shows "deep_valid (shown_at l {''scope'', ''search''}) (run_extract E l q d st0 c)
     (\<lambda>x st. extracted_ok l d c x \<and> shown_at l {''scope'', ''search'', ''extract''} st) (left_ok l)"
  unfolding run_extract_def Let_def
  apply (rule deep_valid_then [OF ensure_ok])
  apply (rule deep_valid_if)
   apply (rule deep_valid_then [OF emit_ok [where D = "set phase_names"]])
     apply (simp add: phase_names_def)
    apply (simp add: phase_names_def closed_ids_def)
   apply (rule deep_valid_exit)
   apply (simp add: left_ok_def no_sources_result_ok [OF assms(1)] assms(2,3))
  apply (rule deep_valid_then [OF phase_ok_valid])
  apply (rule deep_valid_pure)
  apply (rule deep_valid_then [OF deep_valid_cancelled])
  apply (rule deep_valid_if)
   apply (rule deep_valid_exit, erule left_ok_error)
  apply (rule deep_valid_then [OF ensure_ok])
  apply (rule deep_valid_return)
  using assms apply (auto simp: extracted_ok_def searched_ok_def rank_claims_length insert_commute
      dest: scheduled_report)
  done

definition four_phases :: "string set" where
  "four_phases = {''scope'', ''search'', ''extract'', ''verify''}"

definition verified_ok ::
  "deep_search_limits \<Rightarrow> deep_search_phase_counts \<Rightarrow>
   (string \<times> claim_verdict) list \<times> deep_search_phase_counts \<Rightarrow> bool" where
  "verified_ok l c0 x \<longleftrightarrow> (case x of (votes, c) \<Rightarrow>
     dc_verdict_votes c + dc_verdict_failed c + dc_verdict_skipped c =
       dc_claims_ranked c0 * dl_votes_per_claim l \<and>
     c\<lparr>dc_verdict_votes := 0, dc_verdict_failed := 0, dc_verdict_skipped := 0\<rparr> = c0)"

lemma length_verify_tasks: "length (verify_tasks l ranked) = length ranked * dl_votes_per_claim l"
proof -
  have "length (concat (map (\<lambda>(k, c). map (\<lambda>v. (f k v, c)) [0..<m]) xs)) = length xs * m"
    for f :: "nat \<Rightarrow> nat \<Rightarrow> string" and m and xs :: "(nat \<times> ranked_claim) list"
    by (induction xs) auto
  then show ?thesis by (simp add: verify_tasks_def)
qed

lemma run_verify_valid:
  assumes "dc_claims_ranked c = length ranked" "dc_verdict_votes c = 0" "dc_verdict_failed c = 0"
    "dc_verdict_skipped c = 0"
  shows "deep_valid (shown_at l {''scope'', ''search'', ''extract''}) (run_verify E l q ranked c)
     (\<lambda>x st. verified_ok l c x \<and> shown_at l four_phases st)
     (left_ok l)"
  unfolding run_verify_def Let_def four_phases_def
  apply (rule deep_valid_if)
   apply (rule deep_valid_then [OF emit_ok [where D = "{''scope'', ''search'', ''extract'', ''verify''}"]])
     apply (simp add: phase_names_def)
    apply (simp add: closed_ids_def)
   apply (rule deep_valid_return)
  using assms apply (simp add: verified_ok_def)
  apply (rule deep_valid_then [OF phase_ok_valid])
  apply (rule deep_valid_pure)
  apply (rule deep_valid_then [OF deep_valid_cancelled])
  apply (rule deep_valid_if)
   apply (rule deep_valid_exit, erule left_ok_error)
  apply (rule deep_valid_then [OF ensure_ok])
  apply (rule deep_valid_return)
  using assms apply (auto simp: verified_ok_def insert_commute length_verify_tasks
      dest: scheduled_report)
  done

lemma skip_synthesis_valid:
  "result_ok l res \<Longrightarrow> deep_valid (shown_at l four_phases) (skip_synthesis res) Q (left_ok l)"
  unfolding skip_synthesis_def
  apply (rule deep_valid_then [OF emit_ok [where D = "set phase_names"]])
    apply (simp add: phase_names_def)
   apply (simp add: phase_names_def closed_ids_def four_phases_def)
  apply (rule deep_valid_exit)
  apply (simp add: left_ok_def)
  done

lemma result_ok_report:
  "result_ok l (res\<lparr>dt_report := r\<rparr>) = result_ok l res"
  "result_ok l (res\<lparr>dt_report := r, dt_phase_counts := (dt_phase_counts res)\<lparr>dc_synthesized := b\<rparr>\<rparr>) =
     result_ok l res"
  by (simp_all add: result_ok_def Let_def)

lemma run_synthesis_valid:
  assumes "result_ok l res"
  shows "deep_valid (shown_at l four_phases) (run_synthesis E q res)
     (\<lambda>r st. result_ok l r \<and> shown_at l (set phase_names) st) (left_ok l)"
proof -
  let ?ag = "run_agent_in_phase E CkSynthesizeAgent PhSynthesize (ev_synthesize E) ''synthesize''
     (synthesize_prompt (ev_schema E) (ev_json E) q
       (map vs_claim (av_survived (dt_aggregated_verdicts res)))
       (map vs_claim (av_killed (dt_aggregated_verdicts res))))"
  have end_ok: "shown_ok l (set phase_names) (de_events st' @ es)"
    if "shown_ok l four_phases (de_events st)" "?ag st = (r, st')"
      "es = [PeCountsUpdated ''synthesize'' a 0 b, e]" "event_id e = ''synthesize''" "ends_phase e"
    for st st' r es a b e
  proof -
    from that(1,2) have "shown_ok l four_phases (de_events st')" by (metis run_agent_events snd_conv)
    then show ?thesis
      by (rule shown_ok_append)
        (use that in \<open>simp_all add: phase_names_def closed_ids_def four_phases_def\<close>)
  qed
  show ?thesis
    unfolding run_synthesis_def Let_def
    apply (rule deep_valid_then [OF emit_ok [where D = four_phases]])
      apply (simp add: phase_names_def)
     apply simp
    apply (rule deep_valid_then [where Q = "\<lambda>r st. result_ok l r \<and> shown_at l (set phase_names) st"])
     apply (auto simp: deep_valid_def deep_then_def deep_emit_def deep_return_def on_events_def
        assms result_ok_report split: prod.split sum.split intro!: end_ok) [1]
    apply (rule deep_valid_pure)
    apply (rule deep_valid_then [OF ensure_ok])
    apply (rule deep_valid_return)
    apply simp
    done
qed

lemma aggregate_claims:
  "mset (map vs_claim (av_survived a @ av_killed a @ av_unverified a)) = mset ranked"
  if "a = aggregate_verdicts ranked m k n"
proof -
  have "mset (av_survived a @ av_killed a @ av_unverified a) = mset (map (vote_summary m n) ranked)"
    using aggregate_verdicts_eq [of ranked m k n] unfolding Let_def that [symmetric] by blast
  then have "image_mset vs_claim (mset (av_survived a @ av_killed a @ av_unverified a)) =
      image_mset vs_claim (mset (map (vote_summary m n) ranked))" by simp
  moreover have "vs_claim (vote_summary m n c) = c" for c
    by (simp add: vote_summary_def Let_def)
  ultimately show ?thesis by (simp add: multiset.map_comp comp_def)
qed

lemma no_claims_result_ok:
  "searched_ok l n (d, c0) \<Longrightarrow> extracted_ok l d c0 ([], st, c) \<Longrightarrow>
   result_ok l \<lparr> dt_report = r, dt_stats = st, dt_selected_sources = dd_sources d,
     dt_ranked_claims = [], dt_aggregated_verdicts = no_verdicts, dt_phase_counts = c \<rparr>"
  by (simp add: result_ok_def searched_ok_def extracted_ok_def no_verdicts_def)

lemma verified_result_ok:
  assumes "searched_ok l n (d, c0)" "extracted_ok l d c0 (ranked, st, c)" "verified_ok l c (votes, c')"
    "a = aggregate_verdicts ranked m k v"
  shows "result_ok l \<lparr> dt_report = r,
     dt_stats = st\<lparr>ds_claims_verified := x, ds_survived := length (av_survived a),
       ds_killed := length (av_killed a)\<rparr>, dt_selected_sources = dd_sources d,
     dt_ranked_claims = ranked, dt_aggregated_verdicts = a, dt_phase_counts = c' \<rparr>"
proof -
  have "c'\<lparr>dc_verdict_votes := 0, dc_verdict_failed := 0, dc_verdict_skipped := 0\<rparr> = c"
    using assms(3) by (simp add: verified_ok_def)
  then have "dc_scoped_angles c' = dc_scoped_angles c" "dc_searched_angles c' = dc_searched_angles c"
    "dc_search_failed c' = dc_search_failed c" "dc_search_skipped c' = dc_search_skipped c"
    "dc_sources_selected c' = dc_sources_selected c"
    "dc_sources_extracted c' = dc_sources_extracted c" "dc_extract_failed c' = dc_extract_failed c"
    "dc_extract_skipped c' = dc_extract_skipped c" "dc_claims_ranked c' = dc_claims_ranked c"
    by auto
  with assms(1-3) aggregate_claims [OF assms(4)] show ?thesis
    by (simp add: result_ok_def searched_ok_def extracted_ok_def verified_ok_def Let_def)
qed

lemma deep_valid_case_prod:
  "(\<And>a b. x = (a, b) \<Longrightarrow> deep_valid P (f a b) Q X) \<Longrightarrow>
   deep_valid P (case x of (a, b) \<Rightarrow> f a b) Q X"
  by (cases x) simp

lemma deep_search_body_valid:
  "deep_valid (on_events (\<lambda>es. es = [])) (deep_search_body E l q)
     (\<lambda>r st. result_ok l r \<and> shown_at l (set phase_names) st) (left_ok l)"
  unfolding deep_search_body_def Let_def
  apply (rule deep_valid_then [OF run_scope_valid])
  subgoal for scope
    apply (rule deep_valid_then [OF run_search_valid [where n = "length (so_angles scope)"]])
     apply (simp add: min.commute)
    apply (rule deep_valid_pure, rule deep_valid_case_prod, hypsubst)
    subgoal for _ d c0
      apply (rule deep_valid_then [OF run_extract_valid], assumption)
        apply (simp add: no_stats_def)
       apply (simp add: no_stats_def)
      apply (rule deep_valid_pure, rule deep_valid_case_prod, rule deep_valid_case_prod, hypsubst)
      subgoal for _ ranked _ st c
        apply (rule deep_valid_then [OF ensure_ok])
        apply (rule deep_valid_if)
         apply (rule deep_valid_if)
          apply (rule deep_valid_exit, erule left_ok_error)
         apply (rule deep_valid_then [OF emit_ok [where D = four_phases]])
           apply (simp add: phase_names_def)
          apply (simp add: closed_ids_def four_phases_def)
         apply (rule skip_synthesis_valid)
         apply (simp add: no_claims_result_ok)
        apply (rule deep_valid_then [OF run_verify_valid])
            apply (simp_all add: extracted_ok_def)[4]
        apply (rule deep_valid_pure, rule deep_valid_case_prod, hypsubst)
        apply (rule deep_valid_then [OF ensure_ok])
        apply (rule deep_valid_if)
         apply (rule skip_synthesis_valid)
         apply (simp (no_asm), erule (2) verified_result_ok, rule refl)
        apply (rule deep_valid_if)
         apply (rule skip_synthesis_valid)
         apply (simp (no_asm), erule (2) verified_result_ok, rule refl)
        apply (rule run_synthesis_valid)
        apply (simp (no_asm), erule (2) verified_result_ok, rule refl)
        done
      done
    done
  done

end
