(* ===== verification/WorkflowApi.thy ===== *)
theory WorkflowApi
  imports DeepSearchRun Rollout
begin

text \<open>
  What the app server does with a deep search (\<^verbatim>\<open>request_processors/workflow_processor.rs\<close>): the
  label and the identifiers of a run, the calls on the handle that record its success or failure, and
  the whole execution as the sequence of these calls. The JSON form of a value is a parameter.
\<close>

section \<open>Labels and identifiers\<close>

definition max_label_chars :: nat where "max_label_chars = 120"
definition max_artifact_items :: nat where "max_artifact_items = 50"
definition max_template_stats_bytes :: nat where "max_template_stats_bytes = 16 * 1024"

definition truncate_label :: "string \<Rightarrow> string" where
  "truncate_label v =
     (let cs = utf8_chars v; t = concat (take max_label_chars cs)
      in if max_label_chars < length cs then t @ ''...'' else t)"

definition workflow_label :: "workflow_template_id \<Rightarrow> string \<Rightarrow> string" where
  "workflow_label t question =
     (let name = (case t of DeepResearch \<Rightarrow> ''Deep research''); q = trim question
      in if q = [] then name else name @ '': '' @ truncate_label q)"

definition is_alphanumeric_byte :: "char \<Rightarrow> bool" where
  "is_alphanumeric_byte c \<longleftrightarrow>
     list_ex (\<lambda>(lo, hi). lo \<le> byte c \<and> byte c \<le> hi) [(48, 57), (65, 90), (97, 122)]"

definition is_valid_workflow_thread_id_suffix :: "string \<Rightarrow> bool" where
  "is_valid_workflow_thread_id_suffix t \<longleftrightarrow> t \<noteq> [] \<and> t \<noteq> ''.'' \<and> t \<noteq> ''..'' \<and>
     list_all (\<lambda>b. is_alphanumeric_byte b \<or> b = CHR ''-'' \<or> b = CHR ''_'') t"

definition workflow_run_id :: "thread_id \<Rightarrow> string" where
  "workflow_run_id thread = ''workflow_run_'' @ thread"

definition workflow_thread_id_from_run_id :: "string \<Rightarrow> string + thread_id" where
  "workflow_thread_id_from_run_id run_id =
     (if \<not> starts_with run_id ''workflow_run_'' then Inl (''workflow run not found: '' @ run_id)
      else let t = drop 13 run_id
           in if is_valid_workflow_thread_id_suffix t then Inr t
              else Inl (''workflow run not found: '' @ run_id))"

section \<open>Payloads\<close>

record report_codec =
  rj_report :: "deep_search_report \<Rightarrow> json"
  rj_sources :: "selected_source list \<Rightarrow> json"
  rj_claims :: "ranked_claim list \<Rightarrow> json"
  rj_verdicts :: "aggregated_verdicts \<Rightarrow> json"
  rj_counts :: "deep_search_phase_counts \<Rightarrow> json"
  rj_length :: "json \<Rightarrow> nat option"

definition json_nat :: "nat \<Rightarrow> json" where
  "json_nat n = JNumber (show_nat n)"

definition to_template_stats :: "deep_search_stats \<Rightarrow> (string \<times> json) list" where
  "to_template_stats s =
     [(''sources_fetched'', json_nat (ds_sources_fetched s)),
      (''claims_extracted'', json_nat (ds_claims_extracted s)),
      (''claims_verified'', json_nat (ds_claims_verified s)),
      (''survived'', json_nat (ds_survived s)), (''killed'', json_nat (ds_killed s)),
      (''url_dupes'', json_nat (ds_url_dupes s)),
      (''budget_dropped'', json_nat (ds_budget_dropped s)),
      (''approval_blocked'', json_nat (ds_approval_blocked s))]"

definition compact_json_array :: "json list \<Rightarrow> nat \<Rightarrow> json" where
  "compact_json_array items m =
     (if length items \<le> m then JArray items
      else JObject [(''items'', JArray (take m items)),
        (''truncated_count'', json_nat (length items - m)), (''max_items'', json_nat m)])"

fun compact_json_value :: "json \<Rightarrow> nat \<Rightarrow> json" where
  "compact_json_value (JArray items) m = compact_json_array items m"
| "compact_json_value (JObject fs) m = JObject (map (\<lambda>(k, v).
     (k, case v of JArray items \<Rightarrow> compact_json_array items m | _ \<Rightarrow> v)) fs)"
| "compact_json_value v m = v"

definition compact_template_stats :: "report_codec \<Rightarrow> json \<Rightarrow> json" where
  "compact_template_stats K v =
     (case rj_length K v of
        None \<Rightarrow> JObject [(''truncated'', JBool True), (''reason'', JString ''template_stats_not_serializable'')]
      | Some n \<Rightarrow> if n \<le> max_template_stats_bytes then v
          else JObject [(''truncated'', JBool True), (''original_bytes'', json_nat n),
            (''max_bytes'', json_nat max_template_stats_bytes)])"

section \<open>Recording the outcome\<close>

record agent_stats =
  ag_calls :: nat
  ag_failed_calls :: nat
  ag_tokens_used :: "int option"

definition finish_counted_phase :: "string \<Rightarrow> nat \<Rightarrow> nat \<Rightarrow> run_op" where
  "finish_counted_phase i completed failed =
     (if 0 < failed then RoFailPhase i else if 0 < completed then RoCompletePhase i
      else RoSkipPhase i)"

definition project_phase_counts :: "deep_search_phase_counts \<Rightarrow> deep_search_limits \<Rightarrow> run_op list" where
  "project_phase_counts c l =
     (let votes = dc_claims_ranked c * dl_votes_per_claim l;
          synthesized = (if dc_synthesized c then 1 else 0)
      in [RoUpdateCounts ''scope'' 1 0 0, RoCompletePhase ''scope'',
          RoUpdateCounts ''search'' (dc_searched_angles c) (dc_search_failed c)
            (dc_search_skipped c + (dl_max_angles l - (dc_searched_angles c + dc_search_failed c))),
          finish_counted_phase ''search'' (dc_searched_angles c) (dc_search_failed c),
          RoUpdateCounts ''extract'' (dc_sources_extracted c) (dc_extract_failed c)
            (dc_sources_selected c - (dc_sources_extracted c + dc_extract_failed c) + dc_extract_skipped c),
          finish_counted_phase ''extract'' (dc_sources_extracted c) (dc_extract_failed c),
          RoUpdateCounts ''verify'' (dc_verdict_votes c) (dc_verdict_failed c)
            (dc_verdict_skipped c + (votes - (dc_verdict_votes c + dc_verdict_failed c))),
          finish_counted_phase ''verify'' (dc_verdict_votes c) (dc_verdict_failed c),
          RoUpdateCounts ''synthesize'' synthesized 0 (1 - synthesized),
          finish_counted_phase ''synthesize'' synthesized 0])"

definition record_success ::
  "report_codec \<Rightarrow> agent_stats \<Rightarrow> deep_search_limits \<Rightarrow> deep_search_result \<Rightarrow> run_op list" where
  "record_success K ag l r =
     project_phase_counts (dt_phase_counts r) l @
     [RoRecordArtifact ''Report'' (Some ''completed'') (rj_report K (dt_report r)),
      RoRecordArtifact ''Sources'' (Some (show_nat (length (dt_selected_sources r)) @ '' selected''))
        (compact_json_value (rj_sources K (dt_selected_sources r)) max_artifact_items),
      RoRecordArtifact ''Ranked claims'' (Some (show_nat (length (dt_ranked_claims r)) @ '' claims''))
        (compact_json_value (rj_claims K (dt_ranked_claims r)) max_artifact_items),
      RoRecordArtifact ''Verdicts'' (Some ''aggregated'')
        (compact_json_value (rj_verdicts K (dt_aggregated_verdicts r)) max_artifact_items),
      RoSetReportSummary (Some (dr_summary (dt_report r))),
      RoSetTemplateStats (compact_template_stats K (JObject (to_template_stats (dt_stats r) @
        [(''phase_counts'', rj_counts K (dt_phase_counts r))]))),
      RoAddAgentStats (ag_calls ag) (ag_failed_calls ag) 0 (ag_tokens_used ag),
      RoComplete]"

fun stopped_from_error :: "deep_search_error \<Rightarrow> deep_search_stopped option" where
  "stopped_from_error (DePhase _ _ e) = stopped_from_error e"
| "stopped_from_error (DeStopped x) = Some x"
| "stopped_from_error _ = None"

definition failed_phase_from_error :: "deep_search_error \<Rightarrow> string" where
  "failed_phase_from_error e =
     (case stopped_from_error e of Some x \<Rightarrow> phase_name (dx_phase x)
      | None \<Rightarrow> (case e of DePhase p _ _ \<Rightarrow> phase_name p | _ \<Rightarrow> ''scope''))"

definition skip_unfinished_phases :: "string \<Rightarrow> run_op list" where
  "skip_unfinished_phases failed = map RoSkipPhase (filter (\<lambda>i. i \<noteq> failed) phase_names)"

definition record_failure :: "agent_stats \<Rightarrow> deep_search_error \<Rightarrow> run_op list" where
  "record_failure ag e =
     (let msg = show_deep_error e; failed = failed_phase_from_error e;
          payload = (case stopped_from_error e of
             None \<Rightarrow> JObject [(''error'', JString msg)]
           | Some x \<Rightarrow> JObject [(''error'', JString msg),
               (''stop_reason'', JString (stop_reason_name (dx_reason x))),
               (''phase'', JString (phase_name (dx_phase x))),
               (''observed'', JNumber (show_int (dx_observed x))),
               (''limit'', JNumber (show_int (dx_limit x)))])
      in [RoRecordArtifact ''Error'' (Some ''failed'') payload,
          RoSetReportSummary (Some (''Deep search failed: '' @ msg))] @
         (case stopped_from_error e of None \<Rightarrow> [] | Some x \<Rightarrow> [RoSetStopReason (Some (dx_reason x))]) @
         [RoAddAgentStats (ag_calls ag) (ag_failed_calls ag) 0 (ag_tokens_used ag),
          RoFailPhase failed] @ skip_unfinished_phases failed @ [RoFail])"

text \<open>
  The calls on the handle, in order. A run that is terminal ignores them, so that the checks of the
  status between them decide only what is persisted. A cancellation is recognised by the error itself
  and not by what caused it.
\<close>

fun is_cancelled_error :: "deep_search_error \<Rightarrow> bool" where
  "is_cancelled_error (DeCancelled _) = True"
| "is_cancelled_error _ = False"

definition record_outcome ::
  "report_codec \<Rightarrow> agent_stats \<Rightarrow> deep_search_limits \<Rightarrow> deep_search_error + deep_search_result \<Rightarrow> run_op list"
  where
  "record_outcome K ag l res = (case res of
      Inr r \<Rightarrow> record_success K ag l r
    | Inl e \<Rightarrow> if is_cancelled_error e then [RoCancel] else record_failure ag e)"

definition run_deep_research_workflow ::
  "deep_env \<Rightarrow> report_codec \<Rightarrow> agent_stats \<Rightarrow> deep_search_limits \<Rightarrow> string \<Rightarrow> run_op list option" where
  "run_deep_research_workflow E K ag l q =
     (case deep_search_run E l q of
        (None, _) \<Rightarrow> None
      | (Some res, st) \<Rightarrow> Some (RoStart # map sink_op (de_events st) @ record_outcome K ag l res))"

section \<open>Phases of a run\<close>

fun op_ends :: "run_op \<Rightarrow> bool" where
  "op_ends RoComplete = True" | "op_ends RoFail = True" | "op_ends RoCancel = True"
| "op_ends _ = False"

fun op_finishes :: "run_op \<Rightarrow> string option" where
  "op_finishes (RoCompletePhase i) = Some i" | "op_finishes (RoFailPhase i) = Some i"
| "op_finishes (RoCancelPhase i) = Some i" | "op_finishes (RoSkipPhase i) = Some i"
| "op_finishes _ = None"

fun op_adds :: "run_op \<Rightarrow> string option" where
  "op_adds (RoDeclarePhase i _ _) = Some i" | "op_adds (RoStartPhase i _ _) = Some i"
| "op_adds _ = None"

definition phase_closed :: "workflow_run \<Rightarrow> string \<Rightarrow> bool" where
  "phase_closed r i \<longleftrightarrow> (\<exists>p\<in>set (rn_phases r). wp_id p = i \<and> is_phase_terminal (wp_status p))"

abbreviation phase_ids :: "workflow_run \<Rightarrow> string list" where
  "phase_ids r \<equiv> map wp_id (rn_phases r)"

lemma index_some:
  "run_ok r \<Longrightarrow> i \<in> set (phase_ids r) \<Longrightarrow>
   \<exists>k. rn_phase_index r i = Some k \<and> k < length (rn_phases r) \<and> wp_id (rn_phases r ! k) = i"
proof -
  assume "run_ok r" and i: "i \<in> set (phase_ids r)"
  then have ix: "rn_phase_index r j = Some k \<longleftrightarrow> k < length (phase_ids r) \<and> phase_ids r ! k = j" for j k
    unfolding run_ok_def index_ok_def by blast
  from i obtain k where "k < length (phase_ids r)" "phase_ids r ! k = i"
    by (metis in_set_conv_nth)
  with ix show ?thesis by (auto intro!: exI [of _ k])
qed

lemma open_step:
  "run_open r \<Longrightarrow> \<not> op_ends x \<Longrightarrow> run_open (apply_run_op (x, c) r)"
  unfolding run_open_def
  apply (rule conjI)
   apply (simp add: run_ok_step)
  apply (cases c)
  apply (cases x)
    apply (auto simp: declare_phase_def start_phase_def on_open_phase_def update_phase_counts_def
      finish_phase_def start_run_def record_artifact_def add_agent_stats_def
      set_report_summary_def set_template_stats_def set_stop_reason_def
      set_phase_def push_phase_def split_def Let_def is_terminal_status_def
      split: option.splits if_splits)
  done

lemma open_ops:
  "run_open r \<Longrightarrow> list_all (\<lambda>x. \<not> op_ends (fst x)) xs \<Longrightarrow> run_open (run_ops xs r)"
  by (induction xs arbitrary: r) (auto simp: run_ops_def open_step)

text \<open>Operations on known phases keep the phases.\<close>

lemma ids_step:
  assumes "run_ok r" "\<And>i. op_adds x = Some i \<Longrightarrow> i \<in> set (phase_ids r)"
  shows "phase_ids (apply_run_op (x, c) r) = phase_ids r"
proof -
  have set: "phase_ids (set_phase k f r') = phase_ids r'"
    if "\<And>p. wp_id (f p) = wp_id p" for k f r'
  proof (cases "k < length (rn_phases r')")
    case True
    have "(phase_ids r')[k := phase_ids r' ! k] = phase_ids r'" by (rule list_update_id)
    with True that show ?thesis by (simp add: set_phase_def map_update)
  qed (simp add: set_phase_def list_update_beyond)
  have known: "rn_phase_index r i \<noteq> None" if "op_adds x = Some i" for i
    using index_some [OF assms(1) assms(2) [OF that]] by auto
  show ?thesis
    using known
    by (cases c; cases x) (auto simp: declare_phase_def start_phase_def on_open_phase_def
        update_phase_counts_def finish_phase_def start_run_def record_artifact_def
        add_agent_stats_def finish_run_def cancel_run_def cancel_non_terminal_phases_def
        set_report_summary_def set_template_stats_def set_stop_reason_def set split_def Let_def
        split: option.splits)
qed

lemma ids_ops:
  "run_ok r \<Longrightarrow> list_all (\<lambda>x. case op_adds (fst x) of None \<Rightarrow> True | Some i \<Rightarrow> i \<in> set (phase_ids r)) xs \<Longrightarrow>
   phase_ids (run_ops xs r) = phase_ids r"
proof (induction xs arbitrary: r)
  case (Cons x xs)
  obtain y c where x: "x = (y, c)" by (cases x)
  have "phase_ids (apply_run_op x r) = phase_ids r"
    unfolding x using Cons.prems by (intro ids_step) (auto simp: x split: option.splits)
  note eq = this
  have "phase_ids (run_ops xs (apply_run_op x r)) = phase_ids (apply_run_op x r)"
  proof (rule Cons.IH)
    show "run_ok (apply_run_op x r)" using Cons.prems(1) by (rule run_ok_step)
    show "list_all (\<lambda>y. case op_adds (fst y) of None \<Rightarrow> True
        | Some i \<Rightarrow> i \<in> set (phase_ids (apply_run_op x r))) xs"
      unfolding eq using Cons.prems(2) by simp
  qed
  then show ?case unfolding run_ops_Cons eq .
qed (simp add: run_ops_def)

lemma phase_closed_later:
  assumes "later_run r r'" "phase_closed r i"
  shows "phase_closed r' i"
proof -
  from assms(2) obtain k where k: "k < length (rn_phases r)" "wp_id (rn_phases r ! k) = i"
      "is_phase_terminal (wp_status (rn_phases r ! k))"
    by (auto simp: phase_closed_def in_set_conv_nth)
  with assms(1) have "rn_phases r' ! k = rn_phases r ! k" "k < length (rn_phases r')"
    by (auto simp: later_run_def)
  with k show ?thesis unfolding phase_closed_def by (metis nth_mem)
qed

lemma finish_closes:
  assumes "run_open r" "i \<in> set (phase_ids r)" "op_finishes x = Some i"
  shows "phase_closed (apply_run_op (x, c) r) i"
proof -
  obtain t1 t2 where c: "c = (t1, t2)" by (cases c)
  from assms obtain k where k: "rn_phase_index r i = Some k" "k < length (rn_phases r)"
      "wp_id (rn_phases r ! k) = i" using index_some by (auto simp: run_open_def)
  have "phase_closed (finish_phase t1 i s r) i" if "is_phase_terminal s" for s
    using k that assms(1) nth_mem [OF k(2)]
    by (auto simp: phase_closed_def finish_phase_def on_open_phase_def set_phase_def split_def Let_def
        run_open_def intro!: bexI [of _ "rn_phases r ! k"] bexI [OF _ set_update_memI])
  with assms(3) show ?thesis
    unfolding c by (cases x) (auto simp: is_phase_terminal_def)
qed

lemma finish_closes_ops:
  assumes "run_open r" "list_all (\<lambda>x. \<not> op_ends (fst x)) xs" "i \<in> set (phase_ids r)"
    "\<exists>x\<in>set xs. op_finishes (fst x) = Some i"
    "list_all (\<lambda>x. case op_adds (fst x) of None \<Rightarrow> True | Some i \<Rightarrow> i \<in> set (phase_ids r)) xs"
  shows "phase_closed (run_ops xs r) i"
proof -
  from assms(4) obtain ys x zs where xs: "xs = ys @ x # zs" and x: "op_finishes (fst x) = Some i"
    by (metis split_list)
  let ?r = "run_ops ys r"
  from assms(1,2) have o: "run_open ?r" by (intro open_ops) (simp_all add: xs)
  have "phase_ids ?r = phase_ids r"
    using assms(1,5) by (intro ids_ops) (simp_all add: xs run_open_def)
  then have "phase_closed (apply_run_op x ?r) i"
    using finish_closes [OF o _ x, of "snd x"] assms(3) by simp
  then have "phase_closed (run_ops zs (apply_run_op x ?r)) i"
    using phase_closed_later [OF later_ops] by simp
  then show ?thesis by (simp add: xs run_ops_append run_ops_Cons)
qed

lemma declare_ids:
  assumes "run_open r" "i \<notin> set (phase_ids r)"
  shows "phase_ids (apply_run_op (RoDeclarePhase i l n, c) r) = phase_ids r @ [i]"
proof -
  have "rn_phase_index r i = None"
  proof (rule ccontr)
    assume "rn_phase_index r i \<noteq> None"
    then obtain k where "rn_phase_index r i = Some k" by blast
    with assms(1) have "k < length (phase_ids r)" "phase_ids r ! k = i"
      unfolding run_open_def run_ok_def index_ok_def by blast+
    with assms(2) show False by (metis nth_mem)
  qed
  with assms(1) show ?thesis
    by (cases c) (simp add: declare_phase_def push_phase_def split_def Let_def run_open_def)
qed

lemma start_declares_phases:
  assumes "map fst xs = RoStart # map sink_op (declare_progress_phases l)"
  shows "run_open (run_ops xs (workflow_run_new now run_id thread template preset label))"
    "phase_ids (run_ops xs (workflow_run_new now run_id thread template preset label)) = phase_names"
proof -
  let ?new = "workflow_run_new now run_id thread template preset label"
  have new: "run_open ?new" "phase_ids ?new = []"
    by (simp_all add: run_open_def run_ok_new) (simp_all add: workflow_run_new_def is_terminal_status_def)
  from assms obtain c0 c1 c2 c3 c4 c5 where xs: "xs = [(RoStart, c0),
      (RoDeclarePhase ''scope'' ''Scope'' 1, c1), (RoDeclarePhase ''search'' ''Search'' (dl_max_angles l), c2),
      (RoDeclarePhase ''extract'' ''Extract'' (dl_max_sources l), c3),
      (RoDeclarePhase ''verify'' ''Verify'' (dl_max_claims l * dl_votes_per_claim l), c4),
      (RoDeclarePhase ''synthesize'' ''Synthesize'' 1, c5)]"
    by (auto simp: declare_progress_phases_def map_eq_Cons_conv)
  have s: "run_open (apply_run_op (RoStart, c0) ?new)" "phase_ids (apply_run_op (RoStart, c0) ?new) = []"
    using open_step [OF new(1), of RoStart c0] ids_step [of ?new RoStart c0] new
    by (simp_all add: run_open_def)
  show "run_open (run_ops xs ?new)"
    by (rule open_ops [OF new(1)]) (simp add: xs)
  show "phase_ids (run_ops xs ?new) = phase_names"
    unfolding xs run_ops_Cons
    by (simp add: run_ops_def declare_ids open_step s phase_names_def del: apply_run_op.simps)
qed

section \<open>The end of a run\<close>

lemma deep_search_run_shown:
  "deep_search_run E l q = (Some res, st) \<Longrightarrow>
   shown_ok l {} (de_events st) \<and>
   (case res of Inr r \<Rightarrow> result_ok l r \<and> shown_ok l (set phase_names) (de_events st) | Inl _ \<Rightarrow> True)"
proof -
  assume run: "deep_search_run E l q = (Some res, st)"
  let ?st0 = "\<lparr> de_events = [], de_guard = budget_guard_new l, de_cancelled = False \<rparr>"
  have "case deep_search_body E l q ?st0 of
      (Inl e, st') \<Rightarrow> left_ok l e st'
    | (Inr r, st') \<Rightarrow> result_ok l r \<and> shown_at l (set phase_names) st'"
    using deep_search_body_valid [of E l q] unfolding deep_valid_def on_events_def
    by (elim allE [of _ ?st0]) simp
  with run show ?thesis
    by (auto simp: deep_search_run_def left_ok_def on_events_def intro: shown_ok_mono
        split: prod.splits sum.splits deep_exit.splits)
qed

definition outcome_status :: "deep_search_error + deep_search_result \<Rightarrow> workflow_run_status" where
  "outcome_status res = (case res of Inr _ \<Rightarrow> WrCompleted
     | Inl e \<Rightarrow> if is_cancelled_error e then WrCancelled else WrFailed)"

fun ending_op :: "workflow_run_status \<Rightarrow> run_op" where
  "ending_op WrCompleted = RoComplete" | "ending_op WrFailed = RoFail" | "ending_op _ = RoCancel"

definition plain_op :: "run_op \<Rightarrow> bool" where
  "plain_op x \<longleftrightarrow> \<not> op_ends x \<and> (case op_adds x of None \<Rightarrow> True | Some i \<Rightarrow> i \<in> set phase_names)"

lemma finish_counted_simps [simp]:
  "plain_op (finish_counted_phase i a b)" "op_finishes (finish_counted_phase i a b) = Some i"
  by (simp_all add: finish_counted_phase_def plain_op_def)

lemma record_outcome_form:
  obtains body where "record_outcome K ag l res = body @ [ending_op (outcome_status res)]"
    "list_all plain_op body"
    "outcome_status res = WrCancelled \<or> (\<forall>i\<in>set phase_names. \<exists>x\<in>set body. op_finishes x = Some i)"
proof (cases res)
  case (Inr r)
  let ?body = "butlast (record_success K ag l r)"
  have "record_success K ag l r = ?body @ [RoComplete]"
    by (simp add: record_success_def project_phase_counts_def)
  moreover have "list_all plain_op ?body"
    by (simp add: record_success_def project_phase_counts_def Let_def plain_op_def [of "RoUpdateCounts _ _ _ _"]
        plain_op_def [of "RoCompletePhase _"] plain_op_def [of "RoRecordArtifact _ _ _"]
        plain_op_def [of "RoSetReportSummary _"] plain_op_def [of "RoSetTemplateStats _"]
        plain_op_def [of "RoAddAgentStats _ _ _ _"])
  moreover have "\<forall>i\<in>set phase_names. \<exists>x\<in>set ?body. op_finishes x = Some i"
    by (simp add: record_success_def project_phase_counts_def Let_def phase_names_def)
  ultimately show ?thesis
    using that by (simp add: record_outcome_def Inr outcome_status_def)
next
  case (Inl e)
  show ?thesis
  proof (cases "is_cancelled_error e")
    case True
    then show ?thesis using that [of "[]"] by (simp add: record_outcome_def Inl outcome_status_def)
  next
    case False
    let ?body = "butlast (record_failure ag e)"
    have "record_failure ag e = ?body @ [RoFail]"
      by (simp add: record_failure_def Let_def butlast_append)
    moreover have "list_all plain_op ?body"
      by (auto simp: record_failure_def Let_def butlast_append skip_unfinished_phases_def plain_op_def
          list_all_iff split: option.split)
    moreover have "\<exists>x\<in>set ?body. op_finishes x = Some i" if "i \<in> set phase_names" for i
    proof (cases "i = failed_phase_from_error e")
      case True
      then have "RoFailPhase i \<in> set ?body" by (simp add: record_failure_def Let_def butlast_append)
      then show ?thesis by force
    next
      case False
      with that have "RoSkipPhase i \<in> set ?body"
        by (simp add: record_failure_def Let_def butlast_append skip_unfinished_phases_def)
      then show ?thesis by force
    qed
    ultimately show ?thesis
      using that False by (simp add: record_outcome_def Inl outcome_status_def)
  qed
qed

lemma plain_ops:
  assumes "run_open r" "phase_ids r = phase_names" "list_all plain_op (map fst xs)"
  shows "run_open (run_ops xs r)" "phase_ids (run_ops xs r) = phase_names"
    "i \<in> set phase_names \<Longrightarrow> \<exists>x\<in>set (map fst xs). op_finishes x = Some i \<Longrightarrow>
     phase_closed (run_ops xs r) i"
proof -
  have ne: "list_all (\<lambda>x. \<not> op_ends (fst x)) xs"
    and ad: "list_all (\<lambda>x. case op_adds (fst x) of None \<Rightarrow> True | Some i \<Rightarrow> i \<in> set (phase_ids r)) xs"
    using assms(3) unfolding assms(2) by (auto simp: list_all_iff plain_op_def split: option.splits)
  show "run_open (run_ops xs r)" by (rule open_ops [OF assms(1) ne])
  show "phase_ids (run_ops xs r) = phase_names"
    using ids_ops [OF _ ad] assms(1,2) by (simp add: run_open_def)
  show "phase_closed (run_ops xs r) i"
    if "i \<in> set phase_names" "\<exists>x\<in>set (map fst xs). op_finishes x = Some i"
    using finish_closes_ops [OF assms(1) ne _ _ ad, of i] that assms(2) by auto
qed

lemma all_closed:
  assumes "run_ok r" "phase_ids r = phase_names" "\<forall>i\<in>set phase_names. phase_closed r i"
  shows "list_all (is_phase_terminal \<circ> wp_status) (rn_phases r)"
proof -
  have d: "distinct (phase_ids r)" using assms(1) by (simp add: run_ok_def index_ok_def)
  have "is_phase_terminal (wp_status p)" if p: "p \<in> set (rn_phases r)" for p
  proof -
    from p assms(2) have "wp_id p \<in> set phase_names" by (metis image_eqI set_map)
    with assms(3) obtain p' where "p' \<in> set (rn_phases r)" "wp_id p' = wp_id p"
        "is_phase_terminal (wp_status p')" by (auto simp: phase_closed_def)
    with d p show ?thesis by (auto simp: distinct_map inj_on_def)
  qed
  then show ?thesis by (simp add: list_all_iff)
qed

lemma ending_ends:
  assumes "run_open r" "s \<in> {WrCompleted, WrFailed, WrCancelled}"
  shows "rn_status (apply_run_op (ending_op s, c) r) = s"
    "s \<noteq> WrCancelled \<Longrightarrow> rn_phases (apply_run_op (ending_op s, c) r) = rn_phases r"
  using assms by (cases c; auto simp: finish_run_def cancel_run_def cancel_non_terminal_phases_def
      run_open_def split_def Let_def is_terminal_status_def)+

lemma plain_sink: "event_id e \<in> set phase_names \<Longrightarrow> plain_op (sink_op e)"
  by (cases e) (simp_all add: plain_op_def)

lemma outcome_status_cases: "outcome_status res \<in> {WrCompleted, WrFailed, WrCancelled}"
  by (simp add: outcome_status_def split: sum.split)

text \<open>The calls of a run: the start, the declarations, calls that end nothing, and the end.\<close>

lemma workflow_ops_form:
  assumes "deep_search_run E l q = (Some res, st)"
  obtains body where
    "run_deep_research_workflow E K ag l q =
       Some ((RoStart # map sink_op (declare_progress_phases l)) @ body @ [ending_op (outcome_status res)])"
    "list_all plain_op body"
    "outcome_status res = WrCancelled \<or> (\<forall>i\<in>set phase_names. \<exists>x\<in>set body. op_finishes x = Some i)"
proof -
  from deep_search_run_shown [OF assms] obtain rest where
    e: "de_events st = declare_progress_phases l @ rest"
    and r: "list_all (\<lambda>e. event_id e \<in> set phase_names) rest" by (auto simp: shown_ok_def)
  obtain body where b: "record_outcome K ag l res = body @ [ending_op (outcome_status res)]"
    "list_all plain_op body"
    "outcome_status res = WrCancelled \<or> (\<forall>i\<in>set phase_names. \<exists>x\<in>set body. op_finishes x = Some i)"
    by (rule record_outcome_form)
  show ?thesis
    by (rule that [of "map sink_op rest @ body"])
      (use assms e r b in \<open>auto simp: run_deep_research_workflow_def list_all_iff plain_sink\<close>)
qed

lemma split_ops:
  assumes "map fst xs = as @ bs @ [e]"
  obtains ys zs c where "xs = ys @ zs @ [(e, c)]" "map fst ys = as" "map fst zs = bs"
proof -
  from assms obtain ys vs where 1: "xs = ys @ vs" "map fst ys = as" "map fst vs = bs @ [e]"
    by (metis map_eq_append_conv)
  from 1(3) obtain zs ws where 2: "vs = zs @ ws" "map fst zs = bs" "map fst ws = [e]"
    by (metis map_eq_append_conv)
  from 2(3) obtain c where "ws = [(e, c)]" by (cases ws) auto
  with 1 2 that show ?thesis by simp
qed

lemma workflow_run_closes_eq:
  assumes "deep_search_run E l q = (Some res, st)"
    "run_deep_research_workflow E K ag l q = Some ops" "map fst xs = ops"
  shows "let r = run_ops xs (workflow_run_new now run_id thread template preset label)
    in rn_status r = outcome_status res \<and> map wp_id (rn_phases r) = phase_names \<and>
       list_all (is_phase_terminal \<circ> wp_status) (rn_phases r)"
proof -
  let ?new = "workflow_run_new now run_id thread template preset label"
  obtain body where ops: "ops = (RoStart # map sink_op (declare_progress_phases l)) @ body @ [ending_op (outcome_status res)]"
    and b: "list_all plain_op body"
      "outcome_status res = WrCancelled \<or> (\<forall>i\<in>set phase_names. \<exists>x\<in>set body. op_finishes x = Some i)"
    using workflow_ops_form [OF assms(1), of K ag] assms(2) by auto
  from assms(3) obtain ys zs c where xs: "xs = ys @ zs @ [(ending_op (outcome_status res), c)]"
    and ys: "map fst ys = RoStart # map sink_op (declare_progress_phases l)" and zs: "map fst zs = body"
    unfolding ops by (rule split_ops)
  let ?r1 = "run_ops ys ?new" and ?r2 = "run_ops zs (run_ops ys ?new)"
  let ?r = "apply_run_op (ending_op (outcome_status res), c) ?r2"
  note r1 = start_declares_phases [OF ys, of now run_id thread template preset label]
  note r2 = plain_ops [OF r1, of zs, unfolded zs, OF b(1)]
  note ends = ending_ends [OF r2(1) outcome_status_cases, of res c]
  have ok: "run_ok ?r" using r2(1) by (simp add: run_open_def run_ok_step)
  have ids: "phase_ids ?r = phase_names"
    using ids_step [of ?r2 "ending_op (outcome_status res)" c] r2(1,2) outcome_status_cases [of res]
    by (auto simp: run_open_def)
  have "list_all (is_phase_terminal \<circ> wp_status) (rn_phases ?r)"
  proof (cases "outcome_status res = WrCancelled")
    case True
    have "cancelled_is_closed ?r2" using r2(1)
      by (auto simp: cancelled_is_closed_def run_open_def is_terminal_status_def)
    then have "cancelled_is_closed ?r" by (rule cancelled_closed_step)
    with ends(1) True show ?thesis by (simp add: cancelled_is_closed_def)
  next
    case False
    with b(2) r2(3) have "\<forall>i\<in>set phase_names. phase_closed ?r2 i" by blast
    then have "\<forall>i\<in>set phase_names. phase_closed ?r i"
      using phase_closed_later [OF later_step] by blast
    with ok ids show ?thesis by (rule all_closed)
  qed
  with ends(1) ids show ?thesis
    by (simp add: xs run_ops_append run_ops_def Let_def)
qed

text \<open>
  C29: However a deep search ends, with a report, by an error, by its budget or cancelled, and whatever
  the clock reads, the workflow run ends with it: it is completed, failed or cancelled accordingly,
  shows exactly the five phases, in order, and none of them is left open.
\<close>

theorem workflow_run_closes:
  assumes "deep_search_run E l q = (Some res, st)"
    and "run_deep_research_workflow E K ag l q = Some ops" and "map fst xs = ops"
  shows "let r = run_ops xs (workflow_run_new now run_id thread template preset label)
    in rn_status r = outcome_status res \<and> map wp_id (rn_phases r) = phase_names \<and>
       list_all (is_phase_terminal \<circ> wp_status) (rn_phases r)"
  using assms by (rule workflow_run_closes_eq)

text \<open>An environment: one angle without results.\<close>

definition sample_env :: deep_env where
  "sample_env = \<lparr> ev_cancel = (\<lambda>_. False), ev_elapsed = (\<lambda>_. (1000, 1000)),
     ev_choices = (\<lambda>_. [ScFill True, ScFill True, ScJoin 0 True, ScFill True, ScFinish]),
     ev_scope = (\<lambda>_ _. Inr (\<lparr> so_question = ''q'', so_summary = ''s'',
        so_angles = [\<lparr> an_label = ''a'', an_query = ''b'', an_rationale = ''c'' \<rparr>] \<rparr>, Some 7)),
     ev_extract = (\<lambda>_ _. Inl ''no model''), ev_verify = (\<lambda>_ _. Inl ''no model''),
     ev_synthesize = (\<lambda>_ _. Inl ''no model''), ev_search = (\<lambda>_ _ _. Inr []),
     ev_fetch = (\<lambda>_. \<lparr> fo_status = FetchFailed, fo_content = None, fo_error = None \<rparr>),
     ev_normalize = Some, ev_schema = (\<lambda>_. ''{}''), ev_json = (\<lambda>_. ''''),
     ev_run_label = ''workflow:1'' \<rparr>"

definition sample_codec :: report_codec where
  "sample_codec = \<lparr> rj_report = (\<lambda>_. JNull), rj_sources = (\<lambda>_. JNull), rj_claims = (\<lambda>_. JNull),
     rj_verdicts = (\<lambda>_. JNull), rj_counts = (\<lambda>_. JNull), rj_length = (\<lambda>_. None) \<rparr>"

definition sample_limits :: deep_search_limits where
  "sample_limits = limits_for_preset PresetQuick"

lemmas sample_eval =
  deep_then_def deep_emit_def deep_return_def deep_exit_def ensure_can_continue_def
  check_can_continue_def is_cancelled_at_def sample_env_def sample_limits_def
  ensure_within_limits_def Let_def

lemma sample_scope:
  "\<exists>st. run_scope sample_env sample_limits ''q'' \<lparr> de_events = [],
       de_guard = budget_guard_new sample_limits, de_cancelled = False \<rparr> =
     (Inr \<lparr> so_question = ''q'', so_summary = ''s'',
        so_angles = [\<lparr> an_label = ''a'', an_query = ''b'', an_rationale = ''c'' \<rparr>] \<rparr>, st) \<and>
     \<not> de_cancelled st \<and> de_guard st = (budget_guard_new sample_limits)\<lparr>bg_tokens_used := 7\<rparr>"
  by (simp add: run_scope_def run_agent_in_phase_def budget_guard_new_def add_tokens_def wrap_i64_def
      sample_eval)

definition sample_counts :: deep_search_phase_counts where
  "sample_counts = no_counts\<lparr>dc_scoped_angles := 1, dc_searched_angles := 1\<rparr>"

lemma sample_search:
  assumes "\<not> de_cancelled st" "de_guard st = (budget_guard_new sample_limits)\<lparr>bg_tokens_used := 7\<rparr>"
  shows "\<exists>st'. run_search sample_env sample_limits
       [\<lparr> an_label = ''a'', an_query = ''b'', an_rationale = ''c'' \<rparr>]
       (no_counts\<lparr>dc_scoped_angles := 1\<rparr>) st =
     (Inr (\<lparr> dd_sources = [], dd_url_dupes = 0, dd_budget_dropped = 0 \<rparr>, sample_counts), st') \<and>
     \<not> de_cancelled st' \<and> de_guard st' = de_guard st"
  using assms
  by (simp add: run_search_def run_phase_controlled_def scheduler_new_def sched_start_def emit_def
      emit_counts_def fill_step_def join_step_def leave_fill_def schedule_report_def search_task_def
      dedupe_search_results_by_angle_def flatten_groups_def budget_guard_new_def sample_eval
      sample_counts_def no_counts_def add_tokens_def task_tokens_def)

lemma sample_extract:
  assumes "\<not> de_cancelled st" "de_guard st = (budget_guard_new sample_limits)\<lparr>bg_tokens_used := 7\<rparr>"
  shows "\<exists>r st'. run_extract sample_env sample_limits ''q''
       \<lparr> dd_sources = [], dd_url_dupes = 0, dd_budget_dropped = 0 \<rparr> s c st = (Inl (ExResult r), st') \<and>
     dt_phase_counts r = c"
  using assms by (simp add: run_extract_def budget_guard_new_def sample_eval)

lemma sample_search_runs:
  "\<exists>r st. deep_search_run sample_env sample_limits ''q'' = (Some (Inr r), st) \<and>
     dc_searched_angles (dt_phase_counts r) = 1"
proof -
  let ?st0 = "\<lparr> de_events = [], de_guard = budget_guard_new sample_limits, de_cancelled = False \<rparr>"
  obtain st1 where 1: "run_scope sample_env sample_limits ''q'' ?st0 =
     (Inr \<lparr> so_question = ''q'', so_summary = ''s'',
        so_angles = [\<lparr> an_label = ''a'', an_query = ''b'', an_rationale = ''c'' \<rparr>] \<rparr>, st1)"
    and c1: "\<not> de_cancelled st1" "de_guard st1 = (budget_guard_new sample_limits)\<lparr>bg_tokens_used := 7\<rparr>"
    using sample_scope by blast
  obtain st2 where 2: "run_search sample_env sample_limits
       [\<lparr> an_label = ''a'', an_query = ''b'', an_rationale = ''c'' \<rparr>]
       (no_counts\<lparr>dc_scoped_angles := 1\<rparr>) st1 =
     (Inr (\<lparr> dd_sources = [], dd_url_dupes = 0, dd_budget_dropped = 0 \<rparr>, sample_counts), st2)"
    and c2: "\<not> de_cancelled st2" "de_guard st2 = (budget_guard_new sample_limits)\<lparr>bg_tokens_used := 7\<rparr>"
    using sample_search [OF c1] c1 by auto
  have m: "0 < dl_max_angles sample_limits" by (simp add: sample_limits_def)
  obtain r st3 where 3: "run_extract sample_env sample_limits ''q''
       \<lparr> dd_sources = [], dd_url_dupes = 0, dd_budget_dropped = 0 \<rparr>
       (no_stats\<lparr>ds_url_dupes := 0, ds_budget_dropped := 0\<rparr>) sample_counts st2 = (Inl (ExResult r), st3)"
    and r: "dt_phase_counts r = sample_counts"
    using sample_extract [OF c2] by blast
  have "deep_search_run sample_env sample_limits ''q'' = (Some (Inr r), st3)"
    using 1 2 3 m by (simp add: deep_search_run_def deep_search_body_def deep_then_def [of "run_scope _ _ _"]
        deep_then_def [of "run_search _ _ _ _"] deep_then_def [of "run_extract _ _ _ _ _ _"] Let_def take_Cons')
  with r show ?thesis by (auto simp: sample_counts_def)
qed

theorem workflow_run_closes_witness:
  "\<exists>ops. run_deep_research_workflow sample_env sample_codec \<lparr> ag_calls = 1, ag_failed_calls = 0,
       ag_tokens_used = Some 7 \<rparr> sample_limits ''q'' = Some ops \<and>
     rn_status (run_ops (map (\<lambda>x. (x, 5, 5)) ops)
       (workflow_run_new 1 ''run'' ''thread'' DeepResearch PresetQuick ''Deep research'')) = WrCompleted"
proof -
  let ?ag = "\<lparr> ag_calls = 1, ag_failed_calls = 0, ag_tokens_used = Some 7 \<rparr>"
  obtain r st where run: "deep_search_run sample_env sample_limits ''q'' = (Some (Inr r), st)"
    using sample_search_runs by blast
  obtain ops where ops: "run_deep_research_workflow sample_env sample_codec ?ag sample_limits ''q'' = Some ops"
    by (rule workflow_ops_form [OF run]) blast
  have "map fst (map (\<lambda>x. (x, 5::int, 5::int)) ops) = ops" by (simp add: comp_def)
  from workflow_run_closes [OF run ops this] ops show ?thesis
    by (auto simp: Let_def outcome_status_def)
qed

text \<open>
  C31: A deep search that returns keeps its limits and its books: at most as many sources, with distinct
  addresses, and claims as allowed; in every phase the done, failed and skipped tasks add up to the
  ones planned from the phase before; the verdicts are about ranked claims, none judged twice, and
  the statistics count them.
\<close>

theorem deep_search_result_consistent:
  assumes "deep_search_run E l q = (Some (Inr r), st)"
  shows "result_ok l r"
  using deep_search_run_shown [OF assms] by simp

theorem deep_search_result_consistent_witness:
  "\<exists>r st. deep_search_run sample_env sample_limits ''q'' = (Some (Inr r), st) \<and>
     result_ok sample_limits r \<and> dc_searched_angles (dt_phase_counts r) = 1"
  using sample_search_runs deep_search_result_consistent by blast

lemma split_op:
  assumes "map fst xs = as @ x # bs"
  obtains ys c zs where "xs = ys @ (x, c) # zs" "map fst ys = as"
proof -
  from assms obtain ys vs where 1: "xs = ys @ vs" "map fst ys = as" "map fst vs = x # bs"
    by (metis map_eq_append_conv)
  from 1(3) obtain c zs where "vs = (x, c) # zs" by (cases vs) auto
  with 1 that show ?thesis by simp
qed

lemma terminal_after_cancel:
  assumes "run_ok r" "cancelled_is_closed r"
  shows "is_terminal_status (rn_status (run_ops xs (apply_run_op (RoCancel, c) r)))"
    "\<not> is_terminal_status (rn_status r) \<Longrightarrow>
     list_all (is_phase_terminal \<circ> wp_status) (rn_phases (run_ops xs (apply_run_op (RoCancel, c) r)))"
proof -
  have t: "is_terminal_status (rn_status (apply_run_op (RoCancel, c) r))"
    by (rule ended_is_terminal) simp
  then show "is_terminal_status (rn_status (run_ops xs (apply_run_op (RoCancel, c) r)))"
    by (simp add: terminal_ops)
  assume "\<not> is_terminal_status (rn_status r)"
  then have "rn_status (apply_run_op (RoCancel, c) r) = WrCancelled"
    by (cases c) (auto simp: cancel_run_def finish_run_def cancel_non_terminal_phases_def split_def
        Let_def is_terminal_status_def)
  with cancelled_closed_step [OF assms(2), of RoCancel c] t
  show "list_all (is_phase_terminal \<circ> wp_status) (rn_phases (run_ops xs (apply_run_op (RoCancel, c) r)))"
    by (simp add: terminal_ops cancelled_is_closed_def)
qed

text \<open>
  C30: A cancellation that arrives at any moment of a deep search, between any two calls on the run or
  after its end, leaves the run ended and none of its phases open, whatever is still recorded
  afterwards.
\<close>

theorem cancel_any_time_closes:
  assumes "deep_search_run E l q = (Some res, st)"
    and "run_deep_research_workflow E K ag l q = Some ops"
    and "map fst xs = take k ops @ RoCancel # drop k ops"
  shows "let r = run_ops xs (workflow_run_new now run_id thread template preset label)
    in is_terminal_status (rn_status r) \<and> list_all (is_phase_terminal \<circ> wp_status) (rn_phases r)"
proof -
  let ?new = "workflow_run_new now run_id thread template preset label"
  from assms(3) obtain ys c zs where xs: "xs = ys @ (RoCancel, c) # zs" and ys: "map fst ys = take k ops"
    by (elim split_op)
  let ?r = "run_ops ys ?new"
  have r: "run_ok ?r" "cancelled_is_closed ?r"
    by (rule run_ok_ops [OF run_ok_new])
      (rule cancelled_closed_ops, simp add: cancelled_is_closed_def workflow_run_new_def)
  note t = terminal_after_cancel [OF r, of zs c]
  have "list_all (is_phase_terminal \<circ> wp_status) (rn_phases (run_ops zs (apply_run_op (RoCancel, c) ?r)))"
  proof (cases "is_terminal_status (rn_status ?r)")
    case True
    show ?thesis
    proof (cases "length ops \<le> k")
      case True
      with ys have "map fst ys = ops" by simp
      from workflow_run_closes_eq [OF assms(1,2) this, of now run_id thread template preset label]
      show ?thesis
        using \<open>is_terminal_status (rn_status ?r)\<close> by (simp add: Let_def terminal_step terminal_ops)
    next
      case False
      obtain body where b: "ops = (RoStart # map sink_op (declare_progress_phases l)) @ body @
          [ending_op (outcome_status res)]" "list_all plain_op body"
        by (rule workflow_ops_form [OF assms(1), of K ag]) (use assms(2) in auto)
      have "list_all (\<lambda>x. \<not> op_ends x) (butlast ops)"
        using b by (auto simp: butlast_append plain_op_def list_all_iff declare_progress_phases_def)
      then have "list_all (\<lambda>x. \<not> op_ends x) (take k (butlast ops))"
        by (auto simp: list_all_iff dest: in_set_takeD)
      moreover have "take k (butlast ops) = take k ops"
        using False by (simp add: butlast_conv_take)
      ultimately have "list_all (\<lambda>x. \<not> op_ends (fst x)) ys"
        unfolding ys [symmetric] by (simp add: list_all_iff)
      then have "run_open ?r"
        by (intro open_ops) (simp_all add: run_open_def run_ok_new, simp add: workflow_run_new_def is_terminal_status_def)
      with True show ?thesis by (simp add: run_open_def)
    qed
  next
    case False
    then show ?thesis by (rule t(2))
  qed
  with t(1) show ?thesis by (simp add: xs run_ops_append run_ops_Cons Let_def)
qed

theorem cancel_any_time_closes_witness:
  "\<exists>ops. run_deep_research_workflow sample_env sample_codec \<lparr> ag_calls = 1, ag_failed_calls = 0,
       ag_tokens_used = Some 7 \<rparr> sample_limits ''q'' = Some ops \<and>
     list_all (is_phase_terminal \<circ> wp_status) (rn_phases (run_ops
       (map (\<lambda>x. (x, 5, 5)) (take 4 ops @ RoCancel # drop 4 ops))
       (workflow_run_new 1 ''run'' ''thread'' DeepResearch PresetQuick ''Deep research'')))"
proof -
  let ?ag = "\<lparr> ag_calls = 1, ag_failed_calls = 0, ag_tokens_used = Some 7 \<rparr>"
  obtain r st where run: "deep_search_run sample_env sample_limits ''q'' = (Some (Inr r), st)"
    using sample_search_runs by blast
  obtain ops where ops: "run_deep_research_workflow sample_env sample_codec ?ag sample_limits ''q'' = Some ops"
    by (rule workflow_ops_form [OF run]) blast
  have "map fst (map (\<lambda>x. (x, 5::int, 5::int)) (take 4 ops @ RoCancel # drop 4 ops)) =
      take 4 ops @ RoCancel # drop 4 ops" by (simp add: comp_def)
  from cancel_any_time_closes [OF run ops this] ops show ?thesis
    by (auto simp: Let_def)
qed

text \<open>
  A cancellation that is noticed while the model scopes the question is wrapped as an error of that
  phase, so it is recorded as a failure when it comes before the call that cancels the run.
\<close>

definition cancelled_env :: deep_env where
  "cancelled_env = sample_env\<lparr>ev_cancel := (\<lambda>ck. ck = CkScopeAgent)\<rparr>"

lemma scope_cancellation_is_recorded_as_failure:
  "\<exists>e st. deep_search_run cancelled_env sample_limits ''q'' = (Some (Inl e), st) \<and>
     de_cancelled st \<and> outcome_status (Inl e) = WrFailed"
  by (simp add: deep_search_run_def deep_search_body_def run_scope_def run_agent_in_phase_def
      budget_guard_new_def add_tokens_def wrap_i64_def cancelled_env_def outcome_status_def sample_eval)

section \<open>The registry and the ledger\<close>

record registry_entry =
  re_workspace_root :: string
  re_run :: workflow_run
  re_cancelled :: bool

text \<open>The ledgers of the workspaces, by workspace and thread, as the items they hold.\<close>

record workflow_server =
  wv_runs :: "string \<rightharpoonup> registry_entry"
  wv_ledger :: "string \<Rightarrow> thread_id \<Rightarrow> rollout_item list"

definition persist_terminal_workflow_run ::
  "string \<Rightarrow> workflow_run_view \<Rightarrow> workflow_server \<Rightarrow> workflow_server" where
  "persist_terminal_workflow_run ws v srv =
     (if \<not> is_terminal_status (wr_status v) then srv
      else let t = wr_thread_id v
           in srv\<lparr>wv_ledger := (wv_ledger srv)(ws := (wv_ledger srv ws)(t := wv_ledger srv ws t @
                filter should_persist_rollout_item [WorkflowRun v]))\<rparr>)"

definition read_terminal_workflow_run ::
  "string \<Rightarrow> string \<Rightarrow> workflow_server \<Rightarrow> string + workflow_run_view option" where
  "read_terminal_workflow_run ws run_id srv =
     (case workflow_thread_id_from_run_id run_id of
        Inl e \<Rightarrow> Inl e
      | Inr t \<Rightarrow> Inr (case latest_workflow_run_from_rollout_items (wv_ledger srv ws t) run_id of
          Some v \<Rightarrow> if is_terminal_status (wr_status v) then Some v else None
        | None \<Rightarrow> None))"

definition run_not_found :: "string \<Rightarrow> string" where
  "run_not_found run_id = ''workflow run not found: '' @ run_id"

definition stored_run :: "string \<Rightarrow> string \<Rightarrow> workflow_server \<Rightarrow> string + workflow_run_view" where
  "stored_run ws run_id srv =
     (case read_terminal_workflow_run ws run_id srv of
        Inl e \<Rightarrow> Inl e | Inr None \<Rightarrow> Inl (run_not_found run_id) | Inr (Some v) \<Rightarrow> Inr v)"

definition workflow_read :: "string \<Rightarrow> string \<Rightarrow> workflow_server \<Rightarrow> string + workflow_run_view" where
  "workflow_read ws run_id srv =
     (case wv_runs srv run_id of
        Some en \<Rightarrow> if re_workspace_root en \<noteq> ws
          then Inl (''workflow run not found in workspace: '' @ run_id)
          else Inr (workflow_view (re_run en))
      | None \<Rightarrow> stored_run ws run_id srv)"

definition workflow_cancel ::
  "int \<Rightarrow> int \<Rightarrow> string \<Rightarrow> string \<Rightarrow> workflow_server \<Rightarrow> (string + workflow_run_view) \<times> workflow_server" where
  "workflow_cancel c c' ws run_id srv =
     (case wv_runs srv run_id of
        None \<Rightarrow> (stored_run ws run_id srv, srv)
      | Some en \<Rightarrow>
          if re_workspace_root en \<noteq> ws
          then (Inl (''workflow run not found in workspace: '' @ run_id), srv)
          else let en = (if is_terminal_status (rn_status (re_run en)) then en
                         else en\<lparr>re_cancelled := True, re_run := cancel_run c c' (re_run en)\<rparr>);
                   v = workflow_view (re_run en)
               in (Inr v, persist_terminal_workflow_run ws v (srv\<lparr>wv_runs := (wv_runs srv)(run_id \<mapsto> en)\<rparr>)))"

definition workflow_start ::
  "int \<Rightarrow> string \<Rightarrow> thread_id \<Rightarrow> workflow_template_id \<Rightarrow> workflow_preset_id \<Rightarrow> string \<Rightarrow> workflow_server \<Rightarrow>
   string \<times> workflow_server" where
  "workflow_start now ws thread template preset question srv =
     (let run_id = workflow_run_id thread;
          r = workflow_run_new now run_id thread template preset (workflow_label template question)
      in (run_id, srv\<lparr>wv_runs := (wv_runs srv)(run_id \<mapsto>
            \<lparr> re_workspace_root = ws, re_run = r, re_cancelled = False \<rparr>)\<rparr>))"

lemma run_ids_step:
  "rn_run_id (apply_run_op (x, c) r) = rn_run_id r \<and> rn_thread_id (apply_run_op (x, c) r) = rn_thread_id r"
  by (cases c; cases x) (auto simp: declare_phase_def start_phase_def on_open_phase_def touch_def
      update_phase_counts_def finish_phase_def start_run_def record_artifact_def add_agent_stats_def
      finish_run_def cancel_run_def cancel_non_terminal_phases_def set_report_summary_def
      set_template_stats_def set_stop_reason_def set_phase_def push_phase_def split_def Let_def
      split: option.splits)

lemma run_ids_ops: "rn_run_id (run_ops xs r) = rn_run_id r \<and> rn_thread_id (run_ops xs r) = rn_thread_id r"
proof (induction xs arbitrary: r)
  case (Cons x xs)
  then show ?case using run_ids_step [of "fst x" "snd x" r] by (simp add: run_ops_Cons)
qed (simp add: run_ops_def)

lemma thread_of_run_id:
  "is_valid_workflow_thread_id_suffix thread \<Longrightarrow>
   workflow_thread_id_from_run_id (workflow_run_id thread) = Inr thread"
  by (simp add: workflow_thread_id_from_run_id_def workflow_run_id_def starts_with_def)

text \<open>
  C37: A workflow run that has ended is found again after a restart: once it is persisted, a server with
  an empty registry answers a read, and a cancellation, with the very view of the run, and stays as
  it is.
\<close>

theorem ended_run_survives_restart:
  assumes "is_valid_workflow_thread_id_suffix thread"
    and "r = run_ops xs (workflow_run_new now (workflow_run_id thread) thread template preset label)"
    and "is_terminal_status (rn_status r)"
    and "srv' = (persist_terminal_workflow_run ws (workflow_view r) srv)\<lparr>wv_runs := Map.empty\<rparr>"
  shows "workflow_read ws (workflow_run_id thread) srv' = Inr (workflow_view r) \<and>
    workflow_cancel c c' ws (workflow_run_id thread) srv' = (Inr (workflow_view r), srv')"
proof -
  have ids: "rn_run_id r = workflow_run_id thread" "rn_thread_id r = thread"
    using run_ids_ops [of xs] assms(2) by (simp_all add: workflow_run_new_def)
  have "read_terminal_workflow_run ws (workflow_run_id thread) srv' = Inr (Some (workflow_view r))"
    using assms(3) by (simp add: assms(4) read_terminal_workflow_run_def thread_of_run_id [OF assms(1)]
        persist_terminal_workflow_run_def workflow_view_def ids latest_run_snoc
        should_persist_rollout_item_def)
  then show ?thesis
    by (simp add: workflow_read_def workflow_cancel_def stored_run_def assms(4))
qed

theorem ended_run_survives_restart_witness:
  "workflow_read ''w'' ''workflow_run_t1'' ((persist_terminal_workflow_run ''w''
     (workflow_view (run_ops [(RoStart, 2, 2), (RoFail, 3, 3)]
       (workflow_run_new 1 (workflow_run_id ''t1'') ''t1'' DeepResearch PresetDeep ''Deep research'')))
     \<lparr> wv_runs = Map.empty, wv_ledger = (\<lambda>_ _. []) \<rparr>)\<lparr>wv_runs := Map.empty\<rparr>) =
   Inr (workflow_view (run_ops [(RoStart, 2, 2), (RoFail, 3, 3)]
       (workflow_run_new 1 (workflow_run_id ''t1'') ''t1'' DeepResearch PresetDeep ''Deep research'')))"
proof -
  let ?r = "run_ops [(RoStart, 2, 2), (RoFail, 3, 3)]
       (workflow_run_new 1 (workflow_run_id ''t1'') ''t1'' DeepResearch PresetDeep ''Deep research'')"
  have v: "is_valid_workflow_thread_id_suffix ''t1''" by code_simp
  have "is_terminal_status (rn_status ?r)"
    by (simp add: run_ops_def start_run_def finish_run_def workflow_run_new_def touch_def
        is_terminal_status_def)
  from ended_run_survives_restart [OF v refl this refl] show ?thesis
    by (simp add: workflow_run_id_def)
qed

end
