(* ===== verification/AgentJson.thy ===== *)
theory AgentJson
  imports DeepSearchRun
begin

text \<open>
  Reading the JSON answer of an agent (\<^verbatim>\<open>runtime/workflow/agent_runner.rs\<close>,
  \<^verbatim>\<open>json_repair.rs\<close>, \<^verbatim>\<open>run_agent_with_runner\<close> of \<^verbatim>\<open>templates/deep_search.rs\<close>): the scanner that
  finds the JSON objects in a text, the one attempt at a repair, and the agent built from them. The
  JSON parser and the decoder of a type are parameters. The scanner looks at ASCII characters only,
  so that it runs on the bytes of the text.
\<close>

section \<open>Finding objects\<close>

record scan_state =
  sn_start :: "string option"
  sn_depth :: nat
  sn_in_string :: bool
  sn_escaped :: bool
  sn_blocked_depth :: nat
  sn_blocked_string :: bool
  sn_blocked_escaped :: bool
  sn_candidates :: "string list"

definition scan_init :: scan_state where
  "scan_init = \<lparr> sn_start = None, sn_depth = 0, sn_in_string = False, sn_escaped = False,
     sn_blocked_depth = 0, sn_blocked_string = False, sn_blocked_escaped = False,
     sn_candidates = [] \<rparr>"

definition quote_char :: char where "quote_char = CHR 0x22"
definition backslash :: char where "backslash = CHR 0x5C"
definition open_brace :: char where "open_brace = CHR 0x7B"
definition close_brace :: char where "close_brace = CHR 0x7D"
definition open_bracket :: char where "open_bracket = CHR 0x5B"
definition close_bracket :: char where "close_bracket = CHR 0x5D"

lemmas json_chars = quote_char_def backslash_def open_brace_def close_brace_def open_bracket_def
  close_bracket_def

text \<open>Inside a bracketed text outside every object.\<close>

definition scan_blocked :: "char \<Rightarrow> scan_state \<Rightarrow> scan_state" where
  "scan_blocked c s =
     (if sn_blocked_string s
      then if sn_blocked_escaped s then s\<lparr>sn_blocked_escaped := False\<rparr>
           else if c = backslash then s\<lparr>sn_blocked_escaped := True\<rparr>
           else if c = quote_char then s\<lparr>sn_blocked_string := False\<rparr> else s
      else if c = quote_char then s\<lparr>sn_blocked_string := True\<rparr>
      else if c = open_bracket \<or> c = open_brace then s\<lparr>sn_blocked_depth := sn_blocked_depth s + 1\<rparr>
      else if c = close_bracket \<or> c = close_brace then s\<lparr>sn_blocked_depth := sn_blocked_depth s - 1\<rparr>
      else s)"

text \<open>The object begun holds the text from its start to the current character.\<close>

definition scan_object :: "char \<Rightarrow> string \<Rightarrow> scan_state \<Rightarrow> scan_state" where
  "scan_object c source s =
     (let s = s\<lparr>sn_start := Some source\<rparr>
      in if sn_in_string s
         then if sn_escaped s then s\<lparr>sn_escaped := False\<rparr>
              else if c = backslash then s\<lparr>sn_escaped := True\<rparr>
              else if c = quote_char then s\<lparr>sn_in_string := False\<rparr> else s
         else if c = quote_char then s\<lparr>sn_in_string := True\<rparr>
         else if c = open_brace then s\<lparr>sn_depth := sn_depth s + 1\<rparr>
         else if c = close_brace
         then if sn_depth s - 1 = 0
              then s\<lparr>sn_depth := 0, sn_start := None, sn_candidates := sn_candidates s @ [source]\<rparr>
              else s\<lparr>sn_depth := sn_depth s - 1\<rparr>
         else s)"

definition scan_char :: "char \<Rightarrow> scan_state \<Rightarrow> scan_state" where
  "scan_char c s =
     (if 0 < sn_blocked_depth s then scan_blocked c s
      else case sn_start s of
        None \<Rightarrow>
          if c = open_brace
          then s\<lparr>sn_start := Some [c], sn_depth := 1, sn_in_string := False, sn_escaped := False\<rparr>
          else if c = open_bracket then s\<lparr>sn_blocked_depth := 1\<rparr> else s
      | Some text \<Rightarrow> scan_object c (text @ [c]) s)"

definition json_object_candidates :: "string \<Rightarrow> string + string list" where
  "json_object_candidates text =
     (let s = fold scan_char text scan_init
      in if sn_start s \<noteq> None then Inl ''unterminated JSON object candidate''
         else Inr (sn_candidates s))"

section \<open>Parsing an answer\<close>

fun is_object :: "json \<Rightarrow> bool" where
  "is_object (JObject _) = True"
| "is_object _ = False"

definition parse_json_object ::
  "(string \<Rightarrow> string + json) \<Rightarrow> (json \<Rightarrow> string + 'a) \<Rightarrow> string \<Rightarrow> string + 'a" where
  "parse_json_object parse decode text =
     (case json_object_candidates text of
        Inl e \<Rightarrow> Inl e
      | Inr [] \<Rightarrow> Inl ''no JSON object found in text''
      | Inr [c] \<Rightarrow> (case parse c of
            Inl e \<Rightarrow> Inl (''invalid JSON object candidate: '' @ e)
          | Inr v \<Rightarrow> if is_object v then decode v else Inl ''JSON value is not an object'')
      | Inr (_ # _ # _) \<Rightarrow>
          Inl ''multiple top-level JSON objects found; expected exactly one'')"

record parse_failure =
  pf_schema_name :: string
  pf_raw_text :: string
  pf_error :: string

definition show_parse_failure :: "parse_failure \<Rightarrow> string" where
  "show_parse_failure f = ''failed to parse '' @ pf_schema_name f @ '' JSON: '' @ pf_error f"

definition json_repair_prompt :: "parse_failure \<Rightarrow> string" where
  "json_repair_prompt f =
     ''Repair this workflow agent JSON response.'' @ nl @ ''Schema name: '' @ pf_schema_name f @ nl @
     ''Parse error: '' @ pf_error f @ nl @ nl @ ''Original response:'' @ nl @ pf_raw_text f @ nl @ nl @
     ''Return exactly one valid JSON object. Preserve the original meaning and evidence. Do not invent facts, URLs, quotes, or verdicts. Do not include Markdown.''"

definition parse_agent_json_response_for_schema ::
  "(string \<Rightarrow> string + json) \<Rightarrow> (json \<Rightarrow> string + 'a) \<Rightarrow> (parse_failure \<Rightarrow> string + string) option \<Rightarrow>
   string \<Rightarrow> string \<Rightarrow> string + 'a" where
  "parse_agent_json_response_for_schema parse decode repair schema text =
     (case parse_json_object parse decode text of
        Inr v \<Rightarrow> Inr v
      | Inl e \<Rightarrow>
          let failure = \<lparr> pf_schema_name = schema, pf_raw_text = text, pf_error = e \<rparr>
          in case repair of
               None \<Rightarrow> Inl (show_parse_failure failure)
             | Some rp \<Rightarrow> (case rp failure of
                   Inl e' \<Rightarrow> Inl e'
                 | Inr repaired \<Rightarrow> (case parse_json_object parse decode repaired of
                       Inr v \<Rightarrow> Inr v
                     | Inl e' \<Rightarrow> Inl (show_parse_failure
                         \<lparr> pf_schema_name = schema, pf_raw_text = repaired, pf_error = e' \<rparr>))))"

record json_response =
  jr_text :: string
  jr_value :: json
  jr_tokens :: "int option"

text \<open>The agents of \<^term>\<open>deep_env\<close> are instances of this one.\<close>

definition run_agent_with_runner ::
  "(string \<Rightarrow> string \<Rightarrow> string + json_response) \<Rightarrow> (string \<Rightarrow> string + json) \<Rightarrow> (json \<Rightarrow> string + 'a) \<Rightarrow>
   (parse_failure \<Rightarrow> string + string) option \<Rightarrow> string \<Rightarrow> string \<Rightarrow> 'a agent" where
  "run_agent_with_runner runner parse decode repair run_label schema label prompt =
     (case runner (run_label @ '':'' @ label) prompt of
        Inl e \<Rightarrow> Inl e
      | Inr r \<Rightarrow>
          (case (if is_object (jr_value r) then decode (jr_value r) else Inl '''') of
             Inr v \<Rightarrow> Inr (v, jr_tokens r)
           | Inl _ \<Rightarrow>
               (case parse_agent_json_response_for_schema parse decode repair schema (jr_text r) of
                  Inl e \<Rightarrow> Inl e | Inr v \<Rightarrow> Inr (v, jr_tokens r))))"

section \<open>What the scanner finds\<close>

text \<open>The text of a string up to its closing quote, and the inside of an object.\<close>

inductive string_body :: "string \<Rightarrow> bool" where
  "string_body []"
| "string_body s \<Longrightarrow> c \<noteq> quote_char \<Longrightarrow> c \<noteq> backslash \<Longrightarrow> string_body (c # s)"
| "string_body s \<Longrightarrow> string_body (backslash # c # s)"

inductive object_body :: "string \<Rightarrow> bool" where
  "object_body []"
| "object_body b \<Longrightarrow> c \<noteq> quote_char \<Longrightarrow> c \<noteq> open_brace \<Longrightarrow> c \<noteq> close_brace \<Longrightarrow> object_body (c # b)"
| "object_body b \<Longrightarrow> string_body s \<Longrightarrow> object_body (quote_char # s @ quote_char # b)"
| "object_body b \<Longrightarrow> object_body b' \<Longrightarrow> object_body (open_brace # b' @ close_brace # b)"

definition object_text :: "string \<Rightarrow> bool" where
  "object_text t \<longleftrightarrow> (\<exists>b. object_body b \<and> t = open_brace # b @ [close_brace])"

definition prose :: "string \<Rightarrow> bool" where
  "prose t \<longleftrightarrow> open_brace \<notin> set t \<and> open_bracket \<notin> set t"

definition in_object :: "scan_state \<Rightarrow> bool" where
  "in_object s \<longleftrightarrow> sn_blocked_depth s = 0 \<and> sn_start s \<noteq> None \<and> 0 < sn_depth s \<and>
     \<not> sn_in_string s \<and> \<not> sn_escaped s"

lemma scan_prose:
  "prose t \<Longrightarrow> sn_blocked_depth s = 0 \<Longrightarrow> sn_start s = None \<Longrightarrow> fold scan_char t s = s"
  by (induction t) (auto simp: prose_def scan_char_def)

lemma scan_string:
  "string_body t \<Longrightarrow> sn_blocked_depth s = 0 \<Longrightarrow> sn_start s = Some x \<Longrightarrow> sn_in_string s \<Longrightarrow>
   \<not> sn_escaped s \<Longrightarrow> fold scan_char t s = s\<lparr>sn_start := Some (x @ t)\<rparr>"
proof (induction arbitrary: s x rule: string_body.induct)
  case 1
  then show ?case by simp
next
  case (2 t c)
  then show ?case by (simp add: scan_char_def scan_object_def Let_def)
next
  case (3 t c)
  then show ?case by (simp add: scan_char_def scan_object_def Let_def)
qed

lemma scan_body:
  "object_body b \<Longrightarrow> in_object s \<Longrightarrow> sn_start s = Some x \<Longrightarrow>
   fold scan_char b s = s\<lparr>sn_start := Some (x @ b)\<rparr>"
proof (induction arbitrary: s x rule: object_body.induct)
  case 1
  then show ?case by simp
next
  case (2 b c)
  then show ?case
    by (simp add: in_object_def scan_char_def scan_object_def Let_def)
next
  case (3 b t)
  let ?s = "s\<lparr>sn_start := Some (x @ [quote_char]), sn_in_string := True\<rparr>"
  have a: "scan_char quote_char s = ?s"
    using "3.prems" by (simp add: in_object_def scan_char_def scan_object_def Let_def)
  have b: "fold scan_char t ?s = ?s\<lparr>sn_start := Some ((x @ [quote_char]) @ t)\<rparr>"
    by (rule scan_string [OF "3.hyps"(2)]) (use "3.prems" in \<open>simp_all add: in_object_def\<close>)
  have c: "scan_char quote_char (?s\<lparr>sn_start := Some ((x @ [quote_char]) @ t)\<rparr>)
      = s\<lparr>sn_start := Some (x @ quote_char # t @ [quote_char])\<rparr>"
    using "3.prems"
    by (simp add: in_object_def scan_char_def scan_object_def Let_def json_chars)
  have d: "fold scan_char b (s\<lparr>sn_start := Some (x @ quote_char # t @ [quote_char])\<rparr>)
      = s\<lparr>sn_start := Some ((x @ quote_char # t @ [quote_char]) @ b)\<rparr>"
    by (rule trans [OF "3.IH" [of _ "x @ quote_char # t @ [quote_char]"]])
       (use "3.prems" in \<open>simp_all add: in_object_def\<close>)
  have e: "(x @ quote_char # t @ [quote_char]) @ b = x @ quote_char # t @ quote_char # b" by simp
  show ?case
    unfolding fold_append fold.simps comp_def a b c id_apply d unfolding e ..
next
  case (4 b b')
  let ?s = "s\<lparr>sn_start := Some (x @ [open_brace]), sn_depth := sn_depth s + 1\<rparr>"
  have a: "scan_char open_brace s = ?s"
    using "4.prems" by (simp add: in_object_def scan_char_def scan_object_def Let_def json_chars)
  have b: "fold scan_char b' ?s = ?s\<lparr>sn_start := Some ((x @ [open_brace]) @ b')\<rparr>"
    by (rule "4.IH"(2)) (use "4.prems" in \<open>simp_all add: in_object_def\<close>)
  have c: "scan_char close_brace (?s\<lparr>sn_start := Some ((x @ [open_brace]) @ b')\<rparr>)
      = s\<lparr>sn_start := Some (x @ open_brace # b' @ [close_brace])\<rparr>"
    using "4.prems"
    by (simp add: in_object_def scan_char_def scan_object_def Let_def json_chars)
  have d: "fold scan_char b (s\<lparr>sn_start := Some (x @ open_brace # b' @ [close_brace])\<rparr>)
      = s\<lparr>sn_start := Some ((x @ open_brace # b' @ [close_brace]) @ b)\<rparr>"
    by (rule trans [OF "4.IH"(1) [of _ "x @ open_brace # b' @ [close_brace]"]])
       (use "4.prems" in \<open>simp_all add: in_object_def\<close>)
  have e: "(x @ open_brace # b' @ [close_brace]) @ b = x @ open_brace # b' @ close_brace # b" by simp
  show ?case
    unfolding fold_append fold.simps comp_def a b c id_apply d unfolding e ..
qed

lemma scan_whole_object:
  assumes "object_body b" "sn_blocked_depth s = 0" "sn_start s = None"
  shows "fold scan_char (open_brace # b @ [close_brace]) s
    = s\<lparr>sn_depth := 0, sn_in_string := False, sn_escaped := False,
        sn_candidates := sn_candidates s @ [open_brace # b @ [close_brace]]\<rparr>"
proof -
  let ?s = "s\<lparr>sn_start := Some [open_brace], sn_depth := 1, sn_in_string := False, sn_escaped := False\<rparr>"
  have a: "scan_char open_brace s = ?s"
    using assms by (simp add: scan_char_def)
  have b: "fold scan_char b ?s = ?s\<lparr>sn_start := Some ([open_brace] @ b)\<rparr>"
    by (rule scan_body [OF assms(1)]) (use assms in \<open>simp_all add: in_object_def\<close>)
  have c: "scan_char close_brace (?s\<lparr>sn_start := Some ([open_brace] @ b)\<rparr>)
      = s\<lparr>sn_depth := 0, sn_in_string := False, sn_escaped := False,
        sn_candidates := sn_candidates s @ [open_brace # b @ [close_brace]]\<rparr>"
    using assms
    by (cases s) (simp add: scan_char_def scan_object_def Let_def json_chars)
  show ?thesis unfolding fold_append fold.simps comp_def a b c id_apply ..
qed

lemma json_object_candidates_single:
  assumes "prose p" "object_body b" "prose q"
  shows "json_object_candidates (p @ open_brace # b @ [close_brace] @ q)
    = Inr [open_brace # b @ [close_brace]]"
proof -
  have f: "fold scan_char (p @ open_brace # b @ [close_brace] @ q) scan_init
    = fold scan_char q (fold scan_char (open_brace # b @ [close_brace]) (fold scan_char p scan_init))"
    by simp
  have i: "fold scan_char p scan_init = scan_init"
    by (rule scan_prose [OF assms(1)]) (simp_all add: scan_init_def)
  have "fold scan_char (p @ open_brace # b @ [close_brace] @ q) scan_init
    = scan_init\<lparr>sn_candidates := [open_brace # b @ [close_brace]]\<rparr>"
    unfolding f i
    by (subst scan_whole_object [OF assms(2)])
       (simp_all add: scan_init_def scan_prose [OF assms(3)])
  then show ?thesis by (simp add: json_object_candidates_def Let_def scan_init_def)
qed

text \<open>No answer is read out of a text without an object, nor out of one with several.\<close>

lemma scan_objects:
  "\<forall>(b, q) \<in> set bs. object_body b \<and> prose q \<Longrightarrow> sn_blocked_depth s = 0 \<Longrightarrow> sn_start s = None \<Longrightarrow>
   sn_depth s = 0 \<Longrightarrow> \<not> sn_in_string s \<Longrightarrow> \<not> sn_escaped s \<Longrightarrow>
   fold scan_char (concat (map (\<lambda>(b, q). open_brace # b @ [close_brace] @ q) bs)) s
   = s\<lparr>sn_candidates := sn_candidates s @ map (\<lambda>(b, q). open_brace # b @ [close_brace]) bs\<rparr>"
proof (induction bs arbitrary: s)
  case Nil
  then show ?case by simp
next
  case (Cons x bs)
  obtain b q where x: "x = (b, q)" by (cases x)
  let ?s = "s\<lparr>sn_candidates := sn_candidates s @ [open_brace # b @ [close_brace]]\<rparr>"
  have w: "fold scan_char (open_brace # b @ [close_brace]) s = ?s"
    by (subst scan_whole_object) (use Cons.prems x in \<open>cases s; simp\<close>)+
  have p: "fold scan_char q ?s = ?s"
    by (rule scan_prose) (use Cons.prems x in simp_all)
  have r: "fold scan_char (concat (map (\<lambda>(b, q). open_brace # b @ [close_brace] @ q) bs)) ?s
    = ?s\<lparr>sn_candidates := sn_candidates ?s @ map (\<lambda>(b, q). open_brace # b @ [close_brace]) bs\<rparr>"
    by (rule Cons.IH) (use Cons.prems in simp_all)
  from w have w': "fold scan_char [close_brace] (fold scan_char b (scan_char open_brace s)) = ?s"
    by simp
  show ?case
    using w' p r by (simp add: x)
qed

lemma json_object_candidates_all:
  assumes "prose p" "\<forall>(b, q) \<in> set bs. object_body b \<and> prose q"
  shows "json_object_candidates (p @ concat (map (\<lambda>(b, q). open_brace # b @ [close_brace] @ q) bs))
    = Inr (map (\<lambda>(b, q). open_brace # b @ [close_brace]) bs)"
proof -
  have i: "fold scan_char p scan_init = scan_init"
    by (rule scan_prose [OF assms(1)]) (simp_all add: scan_init_def)
  show ?thesis
    unfolding json_object_candidates_def Let_def fold_append comp_def i
    by (subst (1 2) scan_objects [OF assms(2)]) (simp_all add: scan_init_def)
qed

lemma list_cases_two:
  "(xs = [] \<Longrightarrow> P) \<Longrightarrow> (\<And>x. xs = [x] \<Longrightarrow> P) \<Longrightarrow> (\<And>x y ys. xs = x # y # ys \<Longrightarrow> P) \<Longrightarrow> P"
  by (cases xs; cases "tl xs") auto

text \<open>A text that holds objects: prose, and behind every object prose again.\<close>

definition object_of :: "string \<Rightarrow> string" where
  "object_of b = open_brace # b @ [close_brace]"

definition reply_of :: "string \<Rightarrow> (string \<times> string) list \<Rightarrow> string" where
  "reply_of p bs = p @ concat (map (\<lambda>(b, q). object_of b @ q) bs)"

definition well_formed_reply :: "string \<Rightarrow> (string \<times> string) list \<Rightarrow> bool" where
  "well_formed_reply p bs \<longleftrightarrow> prose p \<and> (\<forall>(b, q) \<in> set bs. object_body b \<and> prose q)"

lemma candidates_of_reply:
  "well_formed_reply p bs \<Longrightarrow> json_object_candidates (reply_of p bs) = Inr (map (object_of \<circ> fst) bs)"
  using json_object_candidates_all [of p bs]
  by (simp add: well_formed_reply_def reply_of_def object_of_def comp_def case_prod_unfold)

text \<open>C36: An answer of prose and JSON objects is read object by object, whatever the braces and
  quotes inside the strings and the nesting of the objects: exactly one object is parsed, and
  decoded, as it stands in the text; none, or several, is an error, which starts the one repair
  there is, and the repaired text is read the same way.\<close>

theorem agent_answer_is_its_object:
  assumes "well_formed_reply p bs"
  shows "parse_agent_json_response_for_schema parse decode repair schema (reply_of p bs)
    = (let retry = (\<lambda>e. case repair of
           None \<Rightarrow> Inl (''failed to parse '' @ schema @ '' JSON: '' @ e)
         | Some rp \<Rightarrow>
             bind_res (rp \<lparr> pf_schema_name = schema, pf_raw_text = reply_of p bs, pf_error = e \<rparr>)
               (\<lambda>text. case parse_json_object parse decode text of
                   Inl e' \<Rightarrow> Inl (''failed to parse '' @ schema @ '' JSON: '' @ e')
                 | Inr v \<Rightarrow> Inr v))
       in case bs of
         [] \<Rightarrow> retry ''no JSON object found in text''
       | [(b, q)] \<Rightarrow>
           (case parse (object_of b) of
              Inl e \<Rightarrow> retry (''invalid JSON object candidate: '' @ e)
            | Inr v \<Rightarrow> if \<not> is_object v then retry ''JSON value is not an object''
                else (case decode v of Inl e \<Rightarrow> retry e | Inr x \<Rightarrow> Inr x))
       | _ \<Rightarrow> retry ''multiple top-level JSON objects found; expected exactly one'')"
  unfolding parse_agent_json_response_for_schema_def parse_json_object_def [of parse decode "reply_of p bs"]
    candidates_of_reply [OF assms] Let_def bind_res_def show_parse_failure_def
  by (cases bs rule: list_cases_two)
     (auto split: option.splits sum.splits prod.splits)

text \<open>An answer with a nested object, and a brace and an escaped quote in a string.\<close>

definition sample_body :: string where
  "sample_body = [quote_char, open_brace, backslash, quote_char, quote_char, CHR '':'',
     open_brace, close_brace]"

lemma sample_body_ok: "object_body sample_body"
proof -
  have s: "string_body [open_brace, backslash, quote_char]"
    by (intro string_body.intros) (simp_all add: json_chars)
  have o: "object_body (CHR '':'' # open_brace # [] @ close_brace # [])"
    by (intro object_body.intros) (simp_all add: json_chars)
  show ?thesis
    using object_body.intros(3) [OF o s] by (simp add: sample_body_def)
qed

theorem agent_answer_is_its_object_witness:
  "parse_agent_json_response_for_schema (\<lambda>t. Inr (JObject [(t, JNull)]))
     (\<lambda>v. case v of JObject [(t, _)] \<Rightarrow> Inr t | _ \<Rightarrow> Inl ''bad'') None ''Scope''
     (reply_of ''Sure: '' [(sample_body, '' done'')])
   = Inr (object_of sample_body)"
proof -
  have "well_formed_reply ''Sure: '' [(sample_body, '' done'')]"
    using sample_body_ok by (simp add: well_formed_reply_def prose_def json_chars)
  then show ?thesis by (subst agent_answer_is_its_object) (simp_all add: Let_def)
qed

end
