(* ===== verification/WorkflowAgents.thy ===== *)
theory WorkflowAgents
  imports AgentJson WorkflowApi "HOL-Library.Word"
begin

text \<open>
  The agents of a workflow of the app server (\<^verbatim>\<open>AppServerAgentJsonRunner\<close> of
  \<^verbatim>\<open>app_server/request_processors/workflow_processor.rs\<close>): every call runs one turn of a
  child thread of its own and counts calls, failures and tokens; a repair is a call as well. The
  child thread, from its start to its shutdown, is a parameter.
\<close>

section \<open>Names of agents\<close>

definition path_char :: "string \<Rightarrow> char" where
  "path_char ch = (case ch of
       [b] \<Rightarrow> if is_alphanumeric_byte b \<or> b = CHR ''-'' \<or> b = CHR ''_'' then ascii_lower b else CHR ''-''
     | _ \<Rightarrow> CHR ''-'')"

definition trim_dashes :: "string \<Rightarrow> string" where
  "trim_dashes s = trim_end_char (CHR ''-'') (dropWhile (\<lambda>c. c = CHR ''-'') s)"

definition sanitize_agent_path_segment :: "string \<Rightarrow> string" where
  "sanitize_agent_path_segment v =
     (let t = trim_dashes (map path_char (utf8_chars v)) in if t = [] then ''agent'' else t)"

definition agent_path :: "string \<Rightarrow> nat \<Rightarrow> string \<Rightarrow> string" where
  "agent_path run_id call_index label =
     ''/root/workflow-'' @ sanitize_agent_path_segment run_id @ ''/'' @ show_nat call_index @ ''-'' @
     sanitize_agent_path_segment label"

section \<open>A call\<close>

text \<open>What the life of the child thread yields: the start, the turn, the shutdown, and the tokens
  its live view or its ledger shows.\<close>

record child_run =
  cr_start :: "string + thread_id"
  cr_turn :: "string + string option"
  cr_shutdown :: "string option"
  cr_tokens :: "int option"

text \<open>\<open>chr_run\<close> takes the call index, the agent path, the label and the prompt.\<close>

record agent_runner =
  jn_run_id :: string
  jn_calls :: nat
  jn_failed_calls :: nat
  jn_tokens_used :: "64 word"
  jn_has_token_usage :: bool

definition new_agent_runner :: "string \<Rightarrow> agent_runner" where
  "new_agent_runner run_id = \<lparr> jn_run_id = run_id, jn_calls = 0, jn_failed_calls = 0,
     jn_tokens_used = 0, jn_has_token_usage = False \<rparr>"

definition runner_stats :: "agent_runner \<Rightarrow> agent_stats" where
  "runner_stats rn = \<lparr> ag_calls = jn_calls rn, ag_failed_calls = jn_failed_calls rn,
     ag_tokens_used = (if jn_has_token_usage rn then Some (sint (jn_tokens_used rn)) else None) \<rparr>"

definition next_call_index :: "agent_runner \<Rightarrow> nat \<times> agent_runner" where
  "next_call_index rn = (jn_calls rn + 1, rn\<lparr>jn_calls := jn_calls rn + 1\<rparr>)"

definition record_tokens :: "int option \<Rightarrow> agent_runner \<Rightarrow> agent_runner" where
  "record_tokens t rn =
     (case t of None \<Rightarrow> rn
      | Some n \<Rightarrow> rn\<lparr>jn_has_token_usage := True, jn_tokens_used := jn_tokens_used rn + word_of_int n\<rparr>)"

type_synonym child_threads = "nat \<Rightarrow> string \<Rightarrow> string \<Rightarrow> string \<Rightarrow> child_run"

definition run_json_inner ::
  "(string \<Rightarrow> string + json) \<Rightarrow> child_threads \<Rightarrow> string \<Rightarrow> string \<Rightarrow> nat \<Rightarrow> agent_runner \<Rightarrow>
   (string + json_response) \<times> agent_runner" where
  "run_json_inner parse threads label prompt call_index rn =
     (let c = threads call_index (agent_path (jn_run_id rn) call_index label) label prompt
      in case cr_start c of
           Inl e \<Rightarrow> (Inl e, rn)
         | Inr _ \<Rightarrow>
             (case cr_turn c of
                Inl e \<Rightarrow> (Inl e, rn)
              | Inr answer \<Rightarrow>
                  let rn = record_tokens (cr_tokens c) rn
                  in if cr_shutdown c \<noteq> None
                     then (Inl ''failed to shut down workflow child runtime'', rn)
                     else let text = (case answer of None \<Rightarrow> '''' | Some t \<Rightarrow> t)
                          in (Inr \<lparr> jr_text = text,
                                    jr_value = (case parse_json_object parse Inr text of
                                        Inl _ \<Rightarrow> JNull | Inr v \<Rightarrow> v),
                                    jr_tokens = cr_tokens c \<rparr>, rn)))"

definition count_failure :: "(string + 'a) \<times> agent_runner \<Rightarrow> (string + 'a) \<times> agent_runner" where
  "count_failure r = (case r of
       (Inl e, rn) \<Rightarrow> (Inl e, rn\<lparr>jn_failed_calls := jn_failed_calls rn + 1\<rparr>)
     | (Inr x, rn) \<Rightarrow> (Inr x, rn))"

definition run_json ::
  "(string \<Rightarrow> string + json) \<Rightarrow> child_threads \<Rightarrow> string \<Rightarrow> string \<Rightarrow> agent_runner \<Rightarrow>
   (string + json_response) \<times> agent_runner" where
  "run_json parse threads label prompt rn =
     (let (i, rn) = next_call_index rn
      in count_failure (run_json_inner parse threads label prompt i rn))"

definition repair_label :: "parse_failure \<Rightarrow> string" where
  "repair_label f = ''repair-'' @ sanitize_agent_path_segment (pf_schema_name f)"

definition repair_json ::
  "(string \<Rightarrow> string + json) \<Rightarrow> (json \<Rightarrow> string) \<Rightarrow> child_threads \<Rightarrow> parse_failure \<Rightarrow> agent_runner \<Rightarrow>
   (string + string) \<times> agent_runner" where
  "repair_json parse print threads failure rn =
     (let (i, rn) = next_call_index rn;
          (r, rn) = run_json_inner parse threads (repair_label failure) (json_repair_prompt failure) i rn
      in count_failure (case r of
           Inl e \<Rightarrow> Inl e
         | Inr resp \<Rightarrow> Inr (if trim (jr_text resp) = [] \<and> is_object (jr_value resp)
              then print (jr_value resp) else jr_text resp), rn))"

text \<open>A call of the template on this runner: \<^verbatim>\<open>run_agent_with_runner\<close> of
  \<^verbatim>\<open>templates/deep_search.rs\<close> with the runner as its repair too, as the app server sets it up.\<close>

definition agent_call ::
  "(string \<Rightarrow> string + json) \<Rightarrow> (json \<Rightarrow> string) \<Rightarrow> (json \<Rightarrow> string + 'a) \<Rightarrow> child_threads \<Rightarrow> string \<Rightarrow> string \<Rightarrow>
   string \<Rightarrow> string \<Rightarrow> agent_runner \<Rightarrow> (string + 'a \<times> int option) \<times> agent_runner" where
  "agent_call parse print decode threads run_label schema label prompt rn =
     (case run_json parse threads (run_label @ '':'' @ label) prompt rn of
        (Inl e, rn) \<Rightarrow> (Inl e, rn)
      | (Inr r, rn) \<Rightarrow>
          (case (if is_object (jr_value r) then decode (jr_value r) else Inl '''') of
             Inr v \<Rightarrow> (Inr (v, jr_tokens r), rn)
           | Inl _ \<Rightarrow>
               (case parse_json_object parse decode (jr_text r) of
                  Inr v \<Rightarrow> (Inr (v, jr_tokens r), rn)
                | Inl e \<Rightarrow>
                    (case repair_json parse print threads
                        \<lparr> pf_schema_name = schema, pf_raw_text = jr_text r, pf_error = e \<rparr> rn of
                       (Inl e', rn) \<Rightarrow> (Inl e', rn)
                     | (Inr text, rn) \<Rightarrow>
                         (case parse_json_object parse decode text of
                            Inr v \<Rightarrow> (Inr (v, jr_tokens r), rn)
                          | Inl e' \<Rightarrow> (Inl (show_parse_failure
                              \<lparr> pf_schema_name = schema, pf_raw_text = text, pf_error = e' \<rparr>), rn))))))"

section \<open>What the statistics say\<close>

lemma agent_call_is_run_agent:
  "fst (agent_call parse print decode threads run_label schema label prompt rn)
   = (let (r, rn') = run_json parse threads (run_label @ '':'' @ label) prompt rn
      in run_agent_with_runner (\<lambda>_ _. r) parse decode
           (Some (\<lambda>f. fst (repair_json parse print threads f rn'))) run_label schema label prompt)"
  unfolding agent_call_def run_agent_with_runner_def parse_agent_json_response_for_schema_def
  by (auto simp: Let_def split: prod.splits sum.splits if_splits)

text \<open>Calls in the order in which they take their index. The counters are atomic and are only added
  to, so that calls that overlap leave the same statistics.\<close>

datatype runner_op = OpRun string string | OpRepair parse_failure

fun op_label :: "runner_op \<Rightarrow> string" where
  "op_label (OpRun label _) = label"
| "op_label (OpRepair f) = repair_label f"

fun op_prompt :: "runner_op \<Rightarrow> string" where
  "op_prompt (OpRun _ prompt) = prompt"
| "op_prompt (OpRepair f) = json_repair_prompt f"

fun apply_runner_op ::
  "(string \<Rightarrow> string + json) \<Rightarrow> (json \<Rightarrow> string) \<Rightarrow> child_threads \<Rightarrow> runner_op \<Rightarrow> agent_runner \<Rightarrow> agent_runner"
  where
  "apply_runner_op parse print threads (OpRun label prompt) rn =
     snd (run_json parse threads label prompt rn)"
| "apply_runner_op parse print threads (OpRepair f) rn = snd (repair_json parse print threads f rn)"

definition child_of :: "child_threads \<Rightarrow> string \<Rightarrow> nat \<times> runner_op \<Rightarrow> child_run" where
  "child_of threads run_id c =
     (let l = op_label (snd c)
      in threads (fst c) (agent_path run_id (fst c) l) l (op_prompt (snd c)))"

definition call_fails :: "child_run \<Rightarrow> bool" where
  "call_fails c \<longleftrightarrow> isl (cr_start c) \<or> isl (cr_turn c) \<or> cr_shutdown c \<noteq> None"

definition call_tokens :: "child_run \<Rightarrow> int option" where
  "call_tokens c = (if isl (cr_start c) \<or> isl (cr_turn c) then None else cr_tokens c)"

lemma run_json_inner_state:
  "snd (run_json_inner parse threads label prompt i rn)
     = record_tokens (call_tokens (threads i (agent_path (jn_run_id rn) i label) label prompt)) rn"
  "isl (fst (run_json_inner parse threads label prompt i rn))
     \<longleftrightarrow> call_fails (threads i (agent_path (jn_run_id rn) i label) label prompt)"
  by (auto simp: run_json_inner_def Let_def call_tokens_def call_fails_def record_tokens_def isl_def
      split: sum.splits option.splits)

lemma count_failure_state:
  "snd (count_failure p)
   = (if isl (fst p) then (snd p)\<lparr>jn_failed_calls := jn_failed_calls (snd p) + 1\<rparr> else snd p)"
  by (cases p) (auto simp: count_failure_def split: sum.splits)

lemma record_tokens_fields [simp]:
  "jn_calls (record_tokens t rn) = jn_calls rn" "jn_failed_calls (record_tokens t rn) = jn_failed_calls rn"
  "jn_run_id (record_tokens t rn) = jn_run_id rn"
  "jn_has_token_usage (record_tokens t rn) \<longleftrightarrow> t \<noteq> None \<or> jn_has_token_usage rn"
  "jn_tokens_used (record_tokens t rn) = jn_tokens_used rn + (case t of None \<Rightarrow> 0 | Some n \<Rightarrow> word_of_int n)"
  by (auto simp: record_tokens_def split: option.splits)

lemma isl_case_Inr: "isl (case r of Inl e \<Rightarrow> Inl e | Inr x \<Rightarrow> Inr (g x)) = isl r"
  by (simp split: sum.splits)

definition count_call :: "child_run \<Rightarrow> agent_runner \<Rightarrow> agent_runner" where
  "count_call c rn =
     (let rn' = record_tokens (call_tokens c) (rn\<lparr>jn_calls := jn_calls rn + 1\<rparr>)
      in if call_fails c then rn'\<lparr>jn_failed_calls := jn_failed_calls rn' + 1\<rparr> else rn')"

lemma run_json_state:
  "snd (run_json parse threads label prompt rn)
   = count_call (child_of threads (jn_run_id rn) (jn_calls rn + 1, OpRun label prompt)) rn"
  by (simp add: run_json_def next_call_index_def Let_def child_of_def run_json_inner_state
      count_failure_state count_call_def)

lemma repair_json_state:
  "snd (repair_json parse print threads f rn)
   = count_call (child_of threads (jn_run_id rn) (jn_calls rn + 1, OpRepair f)) rn"
  unfolding repair_json_def next_call_index_def Let_def child_of_def count_call_def
  by (simp add: run_json_inner_state count_failure_state case_prod_unfold isl_case_Inr)

lemma apply_runner_op_state:
  "apply_runner_op parse print threads op rn
   = count_call (child_of threads (jn_run_id rn) (jn_calls rn + 1, op)) rn"
  by (cases op) (simp_all add: run_json_state repair_json_state)

definition run_ops ::
  "(string \<Rightarrow> string + json) \<Rightarrow> (json \<Rightarrow> string) \<Rightarrow> child_threads \<Rightarrow> string \<Rightarrow> runner_op list \<Rightarrow> agent_runner"
  where
  "run_ops parse print threads run_id ops =
     fold (apply_runner_op parse print threads) ops (new_agent_runner run_id)"

definition children_of :: "child_threads \<Rightarrow> string \<Rightarrow> runner_op list \<Rightarrow> child_run list" where
  "children_of threads run_id ops = map (child_of threads run_id) (enumerate 1 ops)"

lemma count_call_fields [simp]:
  "jn_calls (count_call c rn) = jn_calls rn + 1" "jn_run_id (count_call c rn) = jn_run_id rn"
  "jn_failed_calls (count_call c rn) = jn_failed_calls rn + (if call_fails c then 1 else 0)"
  "jn_has_token_usage (count_call c rn) \<longleftrightarrow> call_tokens c \<noteq> None \<or> jn_has_token_usage rn"
  "jn_tokens_used (count_call c rn)
     = jn_tokens_used rn + (case call_tokens c of None \<Rightarrow> 0 | Some n \<Rightarrow> word_of_int n)"
  by (auto simp: count_call_def Let_def)

definition tokens_of :: "child_run list \<Rightarrow> int" where
  "tokens_of cs = sum_list (map (\<lambda>c. case call_tokens c of None \<Rightarrow> 0 | Some n \<Rightarrow> n) cs)"

lemma run_ops_state:
  "rn = run_ops parse print threads run_id ops \<Longrightarrow> cs = children_of threads run_id ops \<Longrightarrow>
    jn_run_id rn = run_id \<and> jn_calls rn = length ops \<and> jn_failed_calls rn = length (filter call_fails cs) \<and>
    (jn_has_token_usage rn \<longleftrightarrow> (\<exists>c \<in> set cs. call_tokens c \<noteq> None)) \<and>
    jn_tokens_used rn = word_of_int (tokens_of cs)"
proof (induction ops arbitrary: rn cs rule: rev_induct)
  case Nil
  then show ?case by (simp add: run_ops_def children_of_def new_agent_runner_def tokens_of_def)
next
  case (snoc op ops)
  let ?rn = "run_ops parse print threads run_id ops" and ?cs = "children_of threads run_id ops"
  note IH = snoc.IH [OF refl refl]
  have c: "cs = ?cs @ [child_of threads run_id (length ops + 1, op)]"
    by (simp add: snoc.prems children_of_def enumerate_append_eq)
  have r: "rn = count_call (child_of threads run_id (length ops + 1, op)) ?rn"
    using IH by (simp add: snoc.prems run_ops_def apply_runner_op_state)
  show ?case
    using IH unfolding r c by (auto simp: tokens_of_def split: option.splits)
qed

lemma set_trim_end_char: "set (trim_end_char c s) \<subseteq> set s"
  by (auto simp: trim_end_char_def dest: set_dropWhileD)

lemma set_trim_dashes: "set (trim_dashes s) \<subseteq> set s"
  using set_trim_end_char by (fastforce simp: trim_dashes_def dest: set_dropWhileD)

definition segment_char :: "char \<Rightarrow> bool" where
  "segment_char c \<longleftrightarrow> byte c \<in> {48..57} \<union> {97..122} \<or> c = CHR ''-'' \<or> c = CHR ''_''"

lemma byte_char_of: "n < 256 \<Longrightarrow> byte (char_of n) = n"
  by (simp add: byte_def)

lemma path_char_ok: "segment_char (path_char ch)"
  by (auto simp: path_char_def segment_char_def is_alphanumeric_byte_def ascii_lower_def byte_char_of
      split: list.splits)

lemma sanitized_segment:
  "sanitize_agent_path_segment v \<noteq> []" "c \<in> set (sanitize_agent_path_segment v) \<Longrightarrow> segment_char c"
proof -
  show "sanitize_agent_path_segment v \<noteq> []" by (simp add: sanitize_agent_path_segment_def Let_def)
  have a: "c \<in> set ''agent'' \<Longrightarrow> segment_char c"
    by (auto simp: segment_char_def byte_def)
  have "c \<in> set (trim_dashes (map path_char (utf8_chars v))) \<Longrightarrow> segment_char c"
    using set_trim_dashes [of "map path_char (utf8_chars v)"] path_char_ok by auto
  with a show "c \<in> set (sanitize_agent_path_segment v) \<Longrightarrow> segment_char c"
    by (simp add: sanitize_agent_path_segment_def Let_def split: if_splits)
qed

lemma slash_not_segment: "\<not> segment_char (CHR ''/'')"
  by (simp add: segment_char_def byte_def)

lemma show_nat_no_dash: "CHR ''-'' \<notin> set (show_nat n)"
proof (induction n rule: show_nat.induct)
  case (1 n)
  have "digit_char d \<noteq> CHR ''-''" if "d < 10" for d
    using byte_digit_char [OF that] by (auto simp: byte_def)
  with 1 show ?case by (cases "n < 10") (auto simp: show_nat.simps [of n] dest: sym)
qed

lemma agent_path_index:
  "agent_path run_id i l = agent_path run_id j m \<Longrightarrow> i = j"
proof -
  assume "agent_path run_id i l = agent_path run_id j m"
  then have "show_nat i @ CHR ''-'' # sanitize_agent_path_segment l
      = show_nat j @ CHR ''-'' # sanitize_agent_path_segment m"
    by (simp add: agent_path_def)
  then have "takeWhile (\<lambda>c. c \<noteq> CHR ''-'') (show_nat i @ CHR ''-'' # sanitize_agent_path_segment l)
      = takeWhile (\<lambda>c. c \<noteq> CHR ''-'') (show_nat j @ CHR ''-'' # sanitize_agent_path_segment m)"
    by simp
  then have "show_nat i = show_nat j"
    using show_nat_no_dash by (subst (asm) (1 2) takeWhile_append2) auto
  then show "i = j" by (simp add: show_nat_inj)
qed

lemma agent_path_form:
  "\<exists>r l. agent_path run_id i label = ''/root/workflow-'' @ r @ ''/'' @ show_nat i @ ''-'' @ l
     \<and> r \<noteq> [] \<and> l \<noteq> [] \<and> list_all segment_char r \<and> list_all segment_char l"
  by (rule exI [of _ "sanitize_agent_path_segment run_id"],
      rule exI [of _ "sanitize_agent_path_segment label"])
     (simp add: agent_path_def sanitized_segment list_all_iff)

text \<open>After any calls and repairs the statistics are exact: as many calls as were made, as many
  failures as calls whose child thread failed to start, to answer or to shut down, and, when any
  answer reported tokens, their sum in a machine word. Every call ran in a child thread of its own,
  whose path has four segments of lower-case letters, digits, dashes and underscores.\<close>

theorem agent_statistics_exact:
  "(let rn = run_ops parse print threads run_id ops; cs = children_of threads run_id ops
    in runner_stats rn = \<lparr> ag_calls = length ops, ag_failed_calls = length (filter call_fails cs),
         ag_tokens_used = (if list_ex (\<lambda>c. call_tokens c \<noteq> None) cs
           then Some (sint (word_of_int (tokens_of cs) :: 64 word)) else None) \<rparr>)
   \<and> distinct (map (\<lambda>(i, op). agent_path run_id i (op_label op)) (enumerate 1 ops))
   \<and> list_all (\<lambda>(i, op). \<exists>r l. agent_path run_id i (op_label op)
         = ''/root/workflow-'' @ r @ ''/'' @ show_nat i @ ''-'' @ l
         \<and> r \<noteq> [] \<and> l \<noteq> [] \<and> list_all segment_char r \<and> list_all segment_char l) (enumerate 1 ops)"
proof (intro conjI)
  show "let rn = run_ops parse print threads run_id ops; cs = children_of threads run_id ops
    in runner_stats rn = \<lparr> ag_calls = length ops, ag_failed_calls = length (filter call_fails cs),
         ag_tokens_used = (if list_ex (\<lambda>c. call_tokens c \<noteq> None) cs
           then Some (sint (word_of_int (tokens_of cs) :: 64 word)) else None) \<rparr>"
    using run_ops_state [OF refl refl, of parse print threads run_id ops]
    by (simp add: Let_def runner_stats_def list_ex_iff)
  have "inj_on (\<lambda>(i, op). agent_path run_id i (op_label op)) (set (enumerate 1 ops))"
    by (rule inj_onI) (auto dest!: agent_path_index simp: in_set_enumerate_eq)
  then show "distinct (map (\<lambda>(i, op). agent_path run_id i (op_label op)) (enumerate 1 ops))"
    by (simp add: distinct_map)
  show "list_all (\<lambda>(i, op). \<exists>r l. agent_path run_id i (op_label op)
         = ''/root/workflow-'' @ r @ ''/'' @ show_nat i @ ''-'' @ l
         \<and> r \<noteq> [] \<and> l \<noteq> [] \<and> list_all segment_char r \<and> list_all segment_char l) (enumerate 1 ops)"
    using agent_path_form by (simp add: list_all_iff case_prod_unfold)
qed

text \<open>The tokens of a repair are counted in the statistics and not in the budget of the run: the
  call yields the tokens of its first answer only.\<close>

lemma repair_tokens_not_in_budget:
  assumes "fst (agent_call parse print decode threads run_label schema label prompt rn) = Inr (v, t)"
  shows "\<exists>r. fst (run_json parse threads (run_label @ '':'' @ label) prompt rn) = Inr r \<and> t = jr_tokens r"
  using assms unfolding agent_call_def
  by (auto split: prod.splits sum.splits if_splits)

end
