(* ===== verification/MemoryText.thy ===== *)
theory MemoryText
  imports Prelude
begin

text \<open>
  What happens to a text before it becomes a memory: redaction of private blocks and secrets
  (\<^verbatim>\<open>src/state/memory/privacy.rs\<close>) and the search for injected instructions
  (\<^verbatim>\<open>safety.rs\<close>). The two regular expressions are matched as the \<^verbatim>\<open>regex\<close> crate
  documents it, on the scalar values of the text: without regard to case, a letter \<open>k\<close> also matches the
  Kelvin sign and an \<open>s\<close> the long \<open>s\<close>.
\<close>

section \<open>Regular expressions\<close>

type_synonym scalar = string

datatype rx_item = RxOne "scalar \<Rightarrow> bool" | RxOpt "scalar \<Rightarrow> bool" | RxStar "scalar \<Rightarrow> bool"

fun rx_match :: "rx_item list \<Rightarrow> scalar list \<Rightarrow> bool" where
  "rx_match [] s = True"
| "rx_match (RxOne p # r) [] = False"
| "rx_match (RxOne p # r) (c # s) = (p c \<and> rx_match r s)"
| "rx_match (RxOpt p # r) [] = rx_match r []"
| "rx_match (RxOpt p # r) (c # s) = (rx_match r (c # s) \<or> p c \<and> rx_match r s)"
| "rx_match (RxStar p # r) [] = rx_match r []"
| "rx_match (RxStar p # r) (c # s) = (rx_match r (c # s) \<or> p c \<and> rx_match (RxStar p # r) s)"

text \<open>A match may start anywhere.\<close>

fun rx_search :: "rx_item list list \<Rightarrow> scalar list \<Rightarrow> bool" where
  "rx_search alts [] = list_ex (\<lambda>r. rx_match r []) alts"
| "rx_search alts (c # s) = (list_ex (\<lambda>r. rx_match r (c # s)) alts \<or> rx_search alts s)"

definition kelvin_sign :: scalar where "kelvin_sign = [CHR 0xE2, CHR 0x84, CHR 0xAA]"
definition long_s :: scalar where "long_s = [CHR 0xC5, CHR 0xBF]"

text \<open>The literals of the expressions are written in lower case.\<close>

definition ci :: "char \<Rightarrow> scalar \<Rightarrow> bool" where
  "ci l c \<longleftrightarrow> (\<exists>b \<in> set c. c = [b] \<and> ascii_lower b = l) \<or>
     l = CHR ''k'' \<and> c = kelvin_sign \<or> l = CHR ''s'' \<and> c = long_s"

definition lit :: "string \<Rightarrow> rx_item list" where
  "lit s = map (\<lambda>l. RxOne (ci l)) s"

definition ci_class :: "string \<Rightarrow> scalar \<Rightarrow> bool" where
  "ci_class ls c \<longleftrightarrow> list_ex (\<lambda>l. ci l c) ls"

definition rx_plus :: "(scalar \<Rightarrow> bool) \<Rightarrow> rx_item list" where
  "rx_plus p = [RxOne p, RxStar p]"

definition white :: "scalar \<Rightarrow> bool" where
  "white c \<longleftrightarrow> 0 < ws_len c"

definition letters_digits :: string where
  "letters_digits = ''abcdefghijklmnopqrstuvwxyz0123456789''"

definition separator :: rx_item where "separator = RxOpt (ci_class ''_-'')"

definition secret_line_re :: "rx_item list list" where
  "secret_line_re =
     [lit ''api'' @ separator # lit ''key'',
      lit ''apikey'',
      lit ''token'' @ RxStar white # lit ''='',
      lit ''password'' @ RxStar white # lit ''='',
      lit ''authorization'' @ RxStar white # lit '':'' @ RxStar white # lit ''bearer'',
      lit ''aws_secret_access_key'',
      lit ''secret'' @ separator # lit ''key'',
      lit ''private'' @ separator # lit ''key'',
      lit ''client'' @ separator # lit ''secret'',
      lit ''-----begin '' @ RxStar (ci_class (letters_digits @ '' '')) # lit ''private key-----'',
      lit ''sk-'' @ rx_plus (ci_class (letters_digits @ ''_-'')),
      lit ''ghp_'' @ rx_plus (ci_class (letters_digits @ ''_''))]"

section \<open>Redaction\<close>

record privacy_flags =
  mp_redacted_secret :: bool
  mp_redacted_private_block :: bool
  mp_sensitive_path :: bool
  mp_output_truncated :: bool
  mp_suspicious_injection :: bool

definition no_flags :: privacy_flags where
  "no_flags = \<lparr> mp_redacted_secret = False, mp_redacted_private_block = False,
     mp_sensitive_path = False, mp_output_truncated = False, mp_suspicious_injection = False \<rparr>"

definition scalars :: "string \<Rightarrow> scalar list" where
  "scalars s = map (\<lambda>c. [c]) s"

definition starts_ci :: "string \<Rightarrow> scalar list \<Rightarrow> bool" where
  "starts_ci needle s \<longleftrightarrow> rx_match (lit needle) s"

text \<open>The text before the first occurrence and the text behind it.\<close>

fun split_ci :: "string \<Rightarrow> scalar list \<Rightarrow> (scalar list \<times> scalar list) option" where
  "split_ci needle [] = None"
| "split_ci needle (c # s) =
     (if starts_ci needle (c # s) then Some ([], drop (length needle) (c # s))
      else map_option (\<lambda>(b, r). (c # b, r)) (split_ci needle s))"

lemma split_ci_length:
  "split_ci needle s = Some (b, r) \<Longrightarrow> needle \<noteq> [] \<Longrightarrow> length b + length r < length s"
  by (induction s arbitrary: b r) (force split: if_splits)+

definition private_marker :: string where "private_marker = ''[REDACTED_PRIVATE_BLOCK]''"
definition secret_marker :: string where "secret_marker = ''[REDACTED_SECRET]''"

function replace_private_blocks :: "scalar list \<Rightarrow> scalar list" where
  "replace_private_blocks s =
     (case split_ci ''<private>'' s of
        None \<Rightarrow> s
      | Some (b, r) \<Rightarrow> b @ scalars private_marker @
          (case split_ci ''</private>'' r of None \<Rightarrow> [] | Some (_, rest) \<Rightarrow> replace_private_blocks rest))"
  by pat_completeness auto
termination
  by (relation "measure length") (auto dest!: split_ci_length)

declare replace_private_blocks.simps [simp del]

definition redact_private_blocks :: "scalar list \<Rightarrow> privacy_flags \<Rightarrow> scalar list \<times> privacy_flags" where
  "redact_private_blocks s f =
     (if split_ci ''<private>'' s \<noteq> None
      then (replace_private_blocks s, f\<lparr>mp_redacted_private_block := True\<rparr>) else (s, f))"

fun split_inclusive :: "scalar list \<Rightarrow> scalar list list" where
  "split_inclusive [] = []"
| "split_inclusive (c # s) =
     (if c = nl then [c] # split_inclusive s
      else case split_inclusive s of [] \<Rightarrow> [[c]] | g # gs \<Rightarrow> (c # g) # gs)"

definition cr :: scalar where "cr = [CHR 0x0D]"

definition split_line_ending :: "scalar list \<Rightarrow> scalar list \<times> scalar list" where
  "split_line_ending g =
     (if suffix [cr, nl] g then (take (length g - 2) g, [cr, nl])
      else if suffix [nl] g then (butlast g, [nl])
      else (g, []))"

definition looks_like_secret_line :: "scalar list \<Rightarrow> bool" where
  "looks_like_secret_line l = rx_search secret_line_re l"

definition redact_line :: "scalar list \<Rightarrow> scalar list" where
  "redact_line g = (let (line, ending) = split_line_ending g
     in if looks_like_secret_line line then scalars secret_marker @ ending else g)"

definition redact_secret_lines :: "scalar list \<Rightarrow> privacy_flags \<Rightarrow> scalar list \<times> privacy_flags" where
  "redact_secret_lines s f =
     (let gs = split_inclusive s
      in (concat (map redact_line gs),
          if list_ex (\<lambda>g. looks_like_secret_line (fst (split_line_ending g))) gs
          then f\<lparr>mp_redacted_secret := True\<rparr> else f))"

definition truncated_marker :: string where "truncated_marker = nl @ ''[TRUNCATED]''"

definition redact_scalars :: "scalar list \<Rightarrow> nat \<Rightarrow> scalar list \<times> privacy_flags" where
  "redact_scalars s max_chars =
     (let (t, f) = redact_private_blocks s no_flags;
          (t, f) = redact_secret_lines t f
      in if max_chars < length t
         then (take max_chars t @ scalars truncated_marker, f\<lparr>mp_output_truncated := True\<rparr>)
         else (t, f))"

definition redact_memory_text :: "string \<Rightarrow> nat \<Rightarrow> string \<times> privacy_flags" where
  "redact_memory_text input max_chars =
     (let (t, f) = redact_scalars (utf8_chars input) max_chars in (concat t, f))"

section \<open>Paths\<close>

datatype path_sensitivity = NormalPath | SensitivePath

fun rsplit_last :: "char \<Rightarrow> string \<Rightarrow> string" where
  "rsplit_last c [] = []"
| "rsplit_last c (x # s) = (if c \<in> set s then rsplit_last c s else if x = c then s else x # s)"

definition classify_memory_path :: "string \<Rightarrow> path_sensitivity" where
  "classify_memory_path path =
     (let lower = to_ascii_lowercase (replace_char (CHR 0x5C) ''/'' path);
          trimmed = trim_end_char (CHR ''/'') lower;
          basename = rsplit_last (CHR ''/'') trimmed
      in if basename = ''.env'' \<or> starts_with basename ''.env.'' \<or> basename = ''.ssh'' \<or>
            basename = ''credentials'' \<or> starts_with basename ''credentials.'' \<or>
            basename = ''id_rsa'' \<or> basename = ''id_ed25519'' \<or>
            str_contains ''/.ssh/'' lower \<or> str_contains ''secret'' lower \<or>
            str_contains ''secrets/'' lower \<or> suffix ''.pem'' lower \<or> suffix ''.key'' lower
         then SensitivePath else NormalPath)"

section \<open>Injected instructions\<close>

record injection_scan =
  is_suspicious :: bool
  is_reasons :: "string list"

definition has_instruction_override :: "string \<Rightarrow> bool" where
  "has_instruction_override t \<longleftrightarrow> list_ex (\<lambda>m. str_contains m t)
     [''ignore previous instructions'', ''ignore all previous'', ''disregard previous'',
      ''disregard all previous'', ''bypass approval'', ''bypass the approval'', ''always approve'',
      ''auto-approve'', ''skip confirmation'', ''without asking for confirmation'',
      ''run without asking'']"

definition is_token_char :: "char \<Rightarrow> bool" where
  "is_token_char c \<longleftrightarrow> byte c \<in> {48..57} \<union> {65..90} \<union> {97..122} \<or> c = CHR ''_''"

text \<open>The occurrences are taken from left to right, each behind the one before; the character before
  the first argument is kept for the boundary.\<close>

function word_token_from :: "char option \<Rightarrow> string \<Rightarrow> string \<Rightarrow> bool" where
  "word_token_from before needle text =
     (case text of
        [] \<Rightarrow> False
      | c # rest \<Rightarrow>
          if needle \<noteq> [] \<and> prefix needle text
          then let after = drop (length needle) text
               in ((case before of None \<Rightarrow> True | Some b \<Rightarrow> \<not> is_token_char b) \<and>
                   (case after of [] \<Rightarrow> True | a # _ \<Rightarrow> \<not> is_token_char a)) \<or>
                  word_token_from (Some (last needle)) needle after
          else word_token_from (Some c) needle rest)"
  by pat_completeness auto
termination
  by (relation "measure (\<lambda>(_, _, text). length text)")
     (auto simp: prefix_def split: list.splits)

declare word_token_from.simps [simp del]

definition contains_word_token :: "string \<Rightarrow> string \<Rightarrow> bool" where
  "contains_word_token text needle = word_token_from None needle text"

definition has_sensitive_target :: "string \<Rightarrow> bool" where
  "has_sensitive_target t \<longleftrightarrow> list_ex (\<lambda>m. str_contains m t)
     [''.env'', ''id_rsa'', ''id_ed25519'', ''~/.ssh'', ''/.ssh/'', ''credentials'', ''private key'',
      ''.pem'', ''.key''] \<or>
     str_contains ''secrets/'' t \<or> contains_word_token t ''secret'' \<or> contains_word_token t ''secrets''"

definition has_outbound_action :: "string \<Rightarrow> bool" where
  "has_outbound_action t \<longleftrightarrow>
     list_ex (\<lambda>m. str_contains m t) [''post http'', ''post to http'', ''fetch http''] \<or>
     list_ex (contains_word_token t) [''send'', ''upload'', ''curl'', ''wget'', ''exfiltrate'']"

definition has_shell_exfiltration_shape :: "string \<Rightarrow> bool" where
  "has_shell_exfiltration_shape t \<longleftrightarrow> has_sensitive_target t \<and>
     (str_contains ''$(cat '' t \<or> str_contains ''cat ~/.ssh'' t \<or> str_contains ''cat .env'' t \<or>
      str_contains ''cat '' t \<and> str_contains ''base64'' t)"

definition has_exfiltration_shape :: "string \<Rightarrow> bool" where
  "has_exfiltration_shape t \<longleftrightarrow>
     has_shell_exfiltration_shape t \<or> has_sensitive_target t \<and> has_outbound_action t"

definition push_reason :: "string \<Rightarrow> injection_scan \<Rightarrow> injection_scan" where
  "push_reason reason s = s\<lparr>is_suspicious := True,
     is_reasons := (if reason \<in> set (is_reasons s) then is_reasons s else is_reasons s @ [reason])\<rparr>"

definition scan_injection :: "string \<Rightarrow> injection_scan" where
  "scan_injection text =
     (let lower = to_ascii_lowercase text;
          s = \<lparr> is_suspicious = False, is_reasons = [] \<rparr>;
          s = (if has_instruction_override lower then push_reason ''instruction_override'' s else s)
      in if has_exfiltration_shape lower then push_reason ''exfiltration'' s else s)"

section \<open>Redaction is complete\<close>

definition lacks :: "string \<Rightarrow> scalar list \<Rightarrow> bool" where
  "lacks needle s \<longleftrightarrow> split_ci needle s = None"

lemma lacks_simps [simp]:
  "lacks needle []"
  "lacks needle (c # s) \<longleftrightarrow> \<not> starts_ci needle (c # s) \<and> lacks needle s"
  by (auto simp: lacks_def)

lemma rx_match_append: "rx_match r s \<Longrightarrow> rx_match r (s @ t)"
proof (induction r s rule: rx_match.induct)
  case (4 p r)
  then show ?case by (cases t) auto
next
  case (6 p r)
  then show ?case by (cases t) auto
qed auto

lemma rx_search_append: "rx_search alts s \<Longrightarrow> rx_search alts (s @ t)"
proof (induction s)
  case Nil
  then obtain r where "r \<in> set alts" "rx_match r []" by (auto simp: list_ex_iff)
  then show ?case
    using rx_match_append [of r "[]" t] by (cases t) (auto simp: list_ex_iff)
next
  case (Cons c s)
  then show ?case
    using rx_match_append [of _ "c # s" t] by (auto simp: list_ex_iff)
qed

definition barrier :: "string \<Rightarrow> scalar \<Rightarrow> bool" where
  "barrier needle c \<longleftrightarrow> needle \<noteq> [] \<and> list_all (\<lambda>l. \<not> ci l c) needle"

lemma starts_ci_barrier:
  "barrier needle c \<Longrightarrow> starts_ci needle (a @ c # t) \<longleftrightarrow> starts_ci needle a"
proof -
  have "list_all (\<lambda>l. \<not> ci l c) needle \<Longrightarrow> rx_match (lit needle) (a @ c # t) \<longleftrightarrow> rx_match (lit needle) a"
  proof (induction needle arbitrary: a)
    case Nil
    then show ?case by (simp add: lit_def)
  next
    case (Cons l needle)
    then show ?case by (cases a) (simp_all add: lit_def)
  qed
  then show "barrier needle c \<Longrightarrow> ?thesis" by (simp add: barrier_def starts_ci_def)
qed

lemma starts_ci_Nil: "needle \<noteq> [] \<Longrightarrow> \<not> starts_ci needle []"
  by (cases needle) (simp_all add: starts_ci_def lit_def)

lemma lacks_barrier:
  "barrier needle c \<Longrightarrow> lacks needle (a @ c # t) \<longleftrightarrow> lacks needle a \<and> lacks needle t"
proof (induction a)
  case Nil
  then show ?case
    using starts_ci_barrier [of needle c "[]" t] by (auto simp: barrier_def starts_ci_Nil)
next
  case (Cons x a)
  then show ?case using starts_ci_barrier [of needle c "x # a" t] by auto
qed

lemma lacks_barrier_end: "barrier needle c \<Longrightarrow> lacks needle (a @ [c]) \<longleftrightarrow> lacks needle a"
  using lacks_barrier [of needle c a "[]"] by simp

lemma lacks_prefix: "lacks needle (a @ t) \<Longrightarrow> lacks needle a"
proof (induction a)
  case (Cons x a)
  then show ?case
    using rx_match_append [of "lit needle" "x # a" t] by (auto simp: starts_ci_def)
qed simp

lemma barriers:
  "barrier ''<private>'' nl" "barrier ''<private>'' [CHR ''['']" "barrier ''<private>'' cr"
  by code_simp+

lemma lacks_markers:
  "lacks ''<private>'' (scalars ''REDACTED_PRIVATE_BLOCK]'')"
  "lacks ''<private>'' (scalars secret_marker)"
  "lacks ''<private>'' (scalars ''[TRUNCATED]'')"
  by code_simp+

lemma split_ci_before: "split_ci needle s = Some (b, r) \<Longrightarrow> \<exists>m. s = b @ m @ r"
proof (induction s arbitrary: b r)
  case (Cons c s)
  show ?case
  proof (cases "starts_ci needle (c # s)")
    case True
    with Cons.prems have "b = []" "r = drop (length needle) (c # s)" by auto
    then show ?thesis
      by (intro exI [of _ "take (length needle) (c # s)"]) (simp del: drop_Cons take_Cons)
  next
    case False
    with Cons.prems obtain b' where "split_ci needle s = Some (b', r)" "b = c # b'"
      by (auto split: if_splits)
    with Cons.IH show ?thesis by auto
  qed
qed simp

lemma split_ci_leftmost: "split_ci needle s = Some (b, r) \<Longrightarrow> lacks needle b"
proof (induction s arbitrary: b r)
  case (Cons c s)
  then show ?case
  proof (cases "starts_ci needle (c # s)")
    case False
    with Cons.prems obtain b' where b: "split_ci needle s = Some (b', r)" "b = c # b'"
      by (auto split: if_splits)
    obtain m where "s = b' @ m @ r" using split_ci_before [OF b(1)] by blast
    then have "\<not> starts_ci needle (c # b')"
      using False rx_match_append [of "lit needle" "c # b'" "m @ r"] by (auto simp: starts_ci_def)
    then show ?thesis using Cons.IH [OF b(1)] b(2) by simp
  qed auto
qed simp

lemma replaced_lacks_private: "lacks ''<private>'' (replace_private_blocks s)"
proof (induction s rule: replace_private_blocks.induct)
  case (1 s)
  show ?case
  proof (cases "split_ci ''<private>'' s")
    case None
    then show ?thesis by (simp add: replace_private_blocks.simps [of s] lacks_def)
  next
    case (Some p)
    obtain b r where p: "p = (b, r)" by (cases p)
    define x where "x = (case split_ci ''</private>'' r of None \<Rightarrow> [] | Some (_, rest) \<Rightarrow> replace_private_blocks rest)"
    have x: "lacks ''<private>'' x"
      using 1 [OF Some p [symmetric]] by (auto simp: x_def split: option.splits prod.splits)
    have m: "scalars private_marker = [CHR ''['']  # scalars ''REDACTED_PRIVATE_BLOCK'' @ [[CHR '']'']]"
      by (simp add: private_marker_def scalars_def)
    have "barrier ''<private>'' [CHR '']'']" by code_simp
    moreover have "lacks ''<private>'' (scalars ''REDACTED_PRIVATE_BLOCK'')" by code_simp
    ultimately have "lacks ''<private>'' (scalars ''REDACTED_PRIVATE_BLOCK'' @ [CHR '']''] # x)"
      using x by (simp add: lacks_barrier)
    then have "lacks ''<private>'' (b @ scalars private_marker @ x)"
      using split_ci_leftmost Some p by (simp add: m lacks_barrier [OF barriers(2)])
    then show ?thesis
      by (simp add: replace_private_blocks.simps [of s] Some p x_def)
  qed
qed

text \<open>Segments: every one ends with a line feed, but for the last one perhaps, and has no other.\<close>

fun segments_ok :: "scalar list list \<Rightarrow> bool" where
  "segments_ok [] = True"
| "segments_ok [g] = (g \<noteq> [] \<and> nl \<notin> set (butlast g))"
| "segments_ok (g # h # gs) =
     (g \<noteq> [] \<and> nl \<notin> set (butlast g) \<and> last g = nl \<and> segments_ok (h # gs))"

lemma segments_ok_Cons:
  "segments_ok (g # gs) \<longleftrightarrow>
     g \<noteq> [] \<and> nl \<notin> set (butlast g) \<and> (gs = [] \<or> last g = nl) \<and> segments_ok gs"
  by (cases gs) auto

lemma split_inclusive_ok: "segments_ok (split_inclusive s)" "concat (split_inclusive s) = s"
proof (induction s)
  case (Cons c s)
  {
    case 1
    with Cons show ?case
      by (cases "split_inclusive s") (auto simp: segments_ok_Cons)
  next
    case 2
    with Cons show ?case by (cases "split_inclusive s") auto
  }
qed simp_all

lemma split_inclusive_line: "nl \<notin> set l \<Longrightarrow> split_inclusive l = (if l = [] then [] else [l])"
  by (induction l) auto

lemma split_inclusive_append_nl:
  "nl \<notin> set l \<Longrightarrow> split_inclusive (l @ nl # s) = (l @ [nl]) # split_inclusive s"
  by (induction l) auto

lemma split_inclusive_concat: "segments_ok gs \<Longrightarrow> split_inclusive (concat gs) = gs"
proof (induction gs)
  case (Cons g gs)
  then have g: "g \<noteq> []" "nl \<notin> set (butlast g)" "gs = [] \<or> last g = nl" "segments_ok gs"
    by (simp_all add: segments_ok_Cons)
  show ?case
  proof (cases "last g = nl")
    case True
    then obtain l where l: "g = l @ [nl]" using g(1) by (metis append_butlast_last_id)
    then show ?thesis
      using split_inclusive_append_nl [of l "concat gs"] g(2) Cons.IH [OF g(4)] by simp
  next
    case False
    with g have "gs = []" "nl \<notin> set g"
      by (cases g rule: rev_cases; auto)+
    then show ?thesis using g(1) by (simp add: split_inclusive_line)
  qed
qed simp

definition line_of :: "scalar list \<Rightarrow> scalar list" where
  "line_of g = fst (split_line_ending g)"

definition safe_lines :: "scalar list \<Rightarrow> bool" where
  "safe_lines s \<longleftrightarrow> list_all (\<lambda>g. \<not> looks_like_secret_line (line_of g)) (split_inclusive s)"

text \<open>The line of a segment: without its line feed, and without the carriage return before it.\<close>

definition strip_cr :: "scalar list \<Rightarrow> scalar list" where
  "strip_cr l = (if l \<noteq> [] \<and> last l = cr then butlast l else l)"

lemma line_of_nl: "line_of (l @ [nl]) = strip_cr l"
proof (cases l rule: rev_cases)
  case (snoc m c)
  then show ?thesis
    by (auto simp: line_of_def split_line_ending_def strip_cr_def suffix_def butlast_append)
qed (simp add: line_of_def split_line_ending_def strip_cr_def suffix_def)

lemma line_of_open: "nl \<notin> set l \<Longrightarrow> line_of l = l"
  by (auto simp: line_of_def split_line_ending_def suffix_def)

lemma redact_line_form:
  "redact_line g = (if looks_like_secret_line (line_of g)
     then scalars secret_marker @ snd (split_line_ending g) else g)"
  by (simp add: redact_line_def line_of_def case_prod_unfold Let_def)

lemma ci_byte: "ci l [b] \<longleftrightarrow> ascii_lower b = l"
  by (auto simp: ci_def kelvin_sign_def long_s_def)

lemma lowered_markers:
  "map ascii_lower secret_marker = ''[redacted_secret]''"
  "map ascii_lower ''[TRUNCATED]'' = ''[truncated]''"
  by code_simp+

lemmas lowered_bytes = lowered_markers [unfolded secret_marker_def, simplified]

lemma marker_lines:
  "\<not> looks_like_secret_line (scalars secret_marker)" "\<not> looks_like_secret_line (scalars ''[TRUNCATED]'')"
  by (simp_all add: looks_like_secret_line_def secret_line_re_def lit_def scalars_def secret_marker_def
      separator_def ci_class_def ci_byte lowered_bytes)

lemma marker_facts:
  "\<not> looks_like_secret_line (scalars secret_marker)" "\<not> looks_like_secret_line (scalars ''[TRUNCATED]'')"
  "nl \<notin> set (scalars secret_marker)" "nl \<notin> set (scalars ''[TRUNCATED]'')"
  "scalars secret_marker \<noteq> []" "last (scalars secret_marker) \<noteq> cr"
  by (simp_all add: marker_lines) (code_simp+)

lemma redacted_segment:
  assumes "g \<noteq> []" "nl \<notin> set (butlast g)"
  shows "redact_line g \<noteq> []" "nl \<notin> set (butlast (redact_line g))"
    "last g = nl \<Longrightarrow> last (redact_line g) = nl" "\<not> looks_like_secret_line (line_of (redact_line g))"
    "lacks ''<private>'' g \<Longrightarrow> lacks ''<private>'' (redact_line g)"
proof -
  obtain l c where g: "g = l @ [c]" using assms(1) by (cases g rule: rev_cases) auto
  have l: "nl \<notin> set l" using assms(2) by (simp add: g)
  let ?m = "scalars secret_marker"
  consider (plain) "\<not> looks_like_secret_line (line_of g)" | (opened) "looks_like_secret_line (line_of g)" "c \<noteq> nl"
    | (nl) "looks_like_secret_line (line_of g)" "c = nl" "strip_cr l = l"
    | (crnl) m where "looks_like_secret_line (line_of g)" "c = nl" "l = m @ [cr]"
    by (cases "c = nl"; cases "strip_cr l = l"; cases l rule: rev_cases) (auto simp: strip_cr_def split: if_splits)
  then have "redact_line g \<noteq> [] \<and> nl \<notin> set (butlast (redact_line g)) \<and>
    (last g = nl \<longrightarrow> last (redact_line g) = nl) \<and> \<not> looks_like_secret_line (line_of (redact_line g)) \<and>
    (lacks ''<private>'' g \<longrightarrow> lacks ''<private>'' (redact_line g))"
  proof cases
    case plain
    then show ?thesis using assms by (simp add: redact_line_form)
  next
    case opened
    then have "redact_line g = ?m"
      using l by (auto simp: redact_line_form split_line_ending_def g suffix_def)
    then show ?thesis
      using marker_facts lacks_markers opened g by (auto simp: line_of_open dest: in_set_butlastD)
  next
    case nl
    then have "redact_line g = ?m @ [nl]"
      by (auto simp: redact_line_form split_line_ending_def g suffix_def strip_cr_def split: if_splits)
    then show ?thesis
      using marker_facts lacks_markers
      by (simp add: line_of_nl strip_cr_def lacks_barrier_end [OF barriers(1)])
  next
    case crnl
    then have r: "redact_line g = (?m @ [cr]) @ [nl]"
      by (simp add: redact_line_form split_line_ending_def g suffix_def)
    have "nl \<noteq> cr" by code_simp
    then show ?thesis
      unfolding r line_of_nl
      using marker_facts lacks_markers
      by (simp add: strip_cr_def lacks_barrier_end [OF barriers(1)] lacks_barrier_end [OF barriers(3)]
          del: append_assoc)
  qed
  then show "redact_line g \<noteq> []" "nl \<notin> set (butlast (redact_line g))"
    "last g = nl \<Longrightarrow> last (redact_line g) = nl" "\<not> looks_like_secret_line (line_of (redact_line g))"
    "lacks ''<private>'' g \<Longrightarrow> lacks ''<private>'' (redact_line g)" by blast+
qed

lemma redacted_segments_ok: "segments_ok gs \<Longrightarrow> segments_ok (map redact_line gs)"
  by (induction gs) (auto simp: segments_ok_Cons redacted_segment)

lemma segments_ok_mem: "segments_ok gs \<Longrightarrow> g \<in> set gs \<Longrightarrow> g \<noteq> [] \<and> nl \<notin> set (butlast g)"
  by (induction gs) (auto simp: segments_ok_Cons)

lemma redacted_lines_safe: "safe_lines (fst (redact_secret_lines s f))"
proof -
  have "g \<in> set (split_inclusive s) \<Longrightarrow> g \<noteq> [] \<and> nl \<notin> set (butlast g)" for g
    by (rule segments_ok_mem [OF split_inclusive_ok(1)])
  then show ?thesis
    by (auto simp: safe_lines_def redact_secret_lines_def Let_def list_all_iff
        split_inclusive_concat redacted_segments_ok split_inclusive_ok redacted_segment)
qed

lemma lacks_segments:
  "segments_ok gs \<Longrightarrow> lacks ''<private>'' (concat gs) \<longleftrightarrow> (\<forall>g \<in> set gs. lacks ''<private>'' g)"
proof (induction gs)
  case (Cons g gs)
  then have g: "g \<noteq> []" "gs = [] \<or> last g = nl" "segments_ok gs" by (auto simp: segments_ok_Cons)
  show ?case
  proof (cases "gs = []")
    case False
    then have "g = butlast g @ [nl]" using g by (metis append_butlast_last_id)
    then have "lacks ''<private>'' (g @ concat gs) \<longleftrightarrow> lacks ''<private>'' g \<and> lacks ''<private>'' (concat gs)"
      using lacks_barrier [OF barriers(1), of "butlast g" "concat gs"]
        lacks_barrier_end [OF barriers(1), of "butlast g"] by (metis append.assoc append_Cons append_Nil)
    then show ?thesis using Cons.IH [OF g(3)] by simp
  qed simp
qed simp

lemma looks_like_prefix: "looks_like_secret_line p \<Longrightarrow> looks_like_secret_line (p @ t)"
  by (simp add: looks_like_secret_line_def rx_search_append)

lemma strip_cr_prefix: "prefix p l \<Longrightarrow> prefix (strip_cr p) (strip_cr l)"
proof (cases "p = l")
  case False
  assume "prefix p l"
  then obtain t where t: "l = p @ t" by (auto simp: prefix_def)
  with False have "prefix p (butlast l)" by (simp add: butlast_append)
  then have "prefix p (strip_cr l)"
    by (auto simp: strip_cr_def prefix_def t)
  moreover have "prefix (strip_cr p) p" by (simp add: strip_cr_def prefixeq_butlast)
  ultimately show ?thesis by (meson prefix_order.trans)
qed simp

lemma safe_lines_nl:
  "nl \<notin> set l \<Longrightarrow> safe_lines (l @ nl # s) \<longleftrightarrow> \<not> looks_like_secret_line (strip_cr l) \<and> safe_lines s"
  by (simp add: safe_lines_def split_inclusive_append_nl line_of_nl)

lemma safe_lines_open:
  "nl \<notin> set l \<Longrightarrow> safe_lines l \<longleftrightarrow> l = [] \<or> \<not> looks_like_secret_line l"
  by (simp add: safe_lines_def split_inclusive_line line_of_open)

lemma first_nl: "nl \<in> set s \<Longrightarrow> \<exists>l r. s = l @ nl # r \<and> nl \<notin> set l"
  by (blast dest: split_list_first)

lemma not_secret_empty: "\<not> looks_like_secret_line []"
  by code_simp

text \<open>The marker of a cut text stands on a line of its own, and a cut line is still no secret.\<close>

lemma safe_lines_cut: "safe_lines (p @ t) \<Longrightarrow> safe_lines (p @ nl # scalars ''[TRUNCATED]'')"
proof (induction "length p" arbitrary: p rule: less_induct)
  case less
  have m: "safe_lines (scalars ''[TRUNCATED]'')"
    using marker_facts by (simp add: safe_lines_open)
  show ?case
  proof (cases "nl \<in> set p")
    case True
    then obtain l r where p: "p = l @ nl # r" "nl \<notin> set l" using first_nl by blast
    with less.prems less.hyps [of r] show ?thesis by (simp add: safe_lines_nl)
  next
    case False
    have "\<not> looks_like_secret_line (strip_cr p)"
    proof (cases "nl \<in> set (p @ t)")
      case True
      then obtain l r where l: "p @ t = l @ nl # r" "nl \<notin> set l" using first_nl by blast
      then have "\<not> looks_like_secret_line (strip_cr l)"
        using less.prems by (simp add: safe_lines_nl)
      moreover have "prefix p l"
        using l False by (auto simp: append_eq_append_conv2 prefix_def append_eq_Cons_conv)
      ultimately show ?thesis
        using strip_cr_prefix looks_like_prefix by (metis prefix_def)
    next
      case False
      then have "p @ t = [] \<or> \<not> looks_like_secret_line (p @ t)"
        using less.prems safe_lines_open by blast
      moreover have "prefix (strip_cr p) (p @ t)"
        by (metis prefix_order.trans prefixI prefixeq_butlast strip_cr_def)
      ultimately show ?thesis
        using looks_like_prefix not_secret_empty by (metis prefix_Nil prefix_def)
    qed
    then show ?thesis using m False by (simp add: safe_lines_nl)
  qed
qed

text \<open>The scalar values of a valid UTF-8 text are those of its parts.\<close>

definition scalar_ok :: "scalar \<Rightarrow> bool" where
  "scalar_ok c \<longleftrightarrow> c \<noteq> [] \<and> \<not> is_cont (hd c) \<and> list_all is_cont (tl c)"

definition valid_text :: "string \<Rightarrow> bool" where
  "valid_text s \<longleftrightarrow> s = [] \<or> \<not> is_cont (hd s)"

lemma while_stops:
  "s = [] \<or> \<not> P (hd s) \<Longrightarrow> takeWhile P s = []" "s = [] \<or> \<not> P (hd s) \<Longrightarrow> dropWhile P s = s"
  by (cases s; simp)+

lemma utf8_chars_scalars: "list_all scalar_ok cs \<Longrightarrow> utf8_chars (concat cs) = cs"
proof (induction cs)
  case (Cons c cs)
  then obtain b bs where c: "c = b # bs" "list_all is_cont bs" by (cases c) (auto simp: scalar_ok_def)
  have "concat cs = [] \<or> \<not> is_cont (hd (concat cs))"
    using Cons.prems by (cases cs) (auto simp: scalar_ok_def hd_append)
  then have "takeWhile is_cont (concat cs) = []" "dropWhile is_cont (concat cs) = concat cs"
    by (simp_all only: while_stops)
  then have "takeWhile is_cont (bs @ concat cs) = bs" "dropWhile is_cont (bs @ concat cs) = concat cs"
    using c(2) by (induction bs) simp_all
  then show ?case using Cons by (simp add: c(1))
qed simp

lemma scalars_of_valid: "valid_text s \<Longrightarrow> list_all scalar_ok (utf8_chars s)"
proof (induction s rule: utf8_chars.induct)
  case (2 b bs)
  have "valid_text (dropWhile is_cont bs)"
    by (metis hd_dropWhile valid_text_def)
  moreover have "list_all is_cont (takeWhile is_cont bs)"
    by (auto simp: list_all_iff dest: set_takeWhileD)
  ultimately show ?case using 2 by (simp add: scalar_ok_def valid_text_def)
qed simp

lemma set_replaced: "set (replace_private_blocks s) \<subseteq> set s \<union> set (scalars private_marker)"
proof (induction s rule: replace_private_blocks.induct)
  case (1 s)
  show ?case
  proof (cases "split_ci ''<private>'' s")
    case (Some p)
    obtain b r where p: "p = (b, r)" by (cases p)
    obtain m where m: "s = b @ m @ r" using split_ci_before Some p by blast
    have "set (replace_private_blocks rest) \<subseteq> set s \<union> set (scalars private_marker)"
      if h: "split_ci ''</private>'' r = Some (b', rest)" for b' rest
    proof -
      obtain m' where "r = b' @ m' @ rest" using split_ci_before h by blast
      with 1 [OF Some p [symmetric] h refl] m show ?thesis by auto
    qed
    with m show ?thesis
      unfolding replace_private_blocks.simps [of s] Some p by (cases "split_ci ''</private>'' r") (auto split: prod.splits)
  qed (simp add: replace_private_blocks.simps [of s])
qed

lemma set_redact_line: "set (redact_line g) \<subseteq> set g \<union> set (scalars secret_marker)"
proof -
  have "set (snd (split_line_ending g)) \<subseteq> set g"
    by (auto simp: split_line_ending_def suffix_def)
  then show ?thesis by (auto simp: redact_line_form)
qed

lemma set_redacted_lines:
  "set (fst (redact_secret_lines s f)) \<subseteq> set s \<union> set (scalars secret_marker)"
proof -
  have "set (concat (split_inclusive s)) = set s" by (simp only: split_inclusive_ok(2))
  then show ?thesis
    using set_redact_line by (fastforce simp: redact_secret_lines_def Let_def)
qed

lemma markers_scalar_ok:
  "list_all scalar_ok (scalars private_marker)" "list_all scalar_ok (scalars secret_marker)"
  "list_all scalar_ok (scalars truncated_marker)"
  by code_simp+

lemma redact_private_facts:
  "(t, f') = redact_private_blocks s f \<Longrightarrow>
     lacks ''<private>'' t \<and> set t \<subseteq> set s \<union> set (scalars private_marker) \<and>
     f' = f\<lparr>mp_redacted_private_block := mp_redacted_private_block f \<or> \<not> lacks ''<private>'' s\<rparr> \<and>
     (lacks ''<private>'' s \<longrightarrow> t = s)"
  using replaced_lacks_private [of s] set_replaced [of s]
  unfolding redact_private_blocks_def lacks_def
  by (cases "split_ci ''<private>'' s = None") (simp_all del: not_None_eq)

lemma redact_lines_facts:
  "(t, f') = redact_secret_lines s f \<Longrightarrow>
     safe_lines t \<and> (lacks ''<private>'' s \<longrightarrow> lacks ''<private>'' t) \<and>
     set t \<subseteq> set s \<union> set (scalars secret_marker) \<and>
     f' = f\<lparr>mp_redacted_secret := mp_redacted_secret f \<or> \<not> safe_lines s\<rparr> \<and> (safe_lines s \<longrightarrow> t = s)"
proof -
  assume h: "(t, f') = redact_secret_lines s f"
  let ?gs = "split_inclusive s"
  have t: "t = concat (map redact_line ?gs)" using h by (simp add: redact_secret_lines_def Let_def)
  have c: "concat ?gs = s" "segments_ok ?gs" by (rule split_inclusive_ok)+
  have "lacks ''<private>'' s \<longrightarrow> lacks ''<private>'' t"
  proof
    assume "lacks ''<private>'' s"
    then have "\<forall>g \<in> set ?gs. lacks ''<private>'' g" using lacks_segments [OF c(2)] c(1) by simp
    moreover have "lacks ''<private>'' (redact_line g)" if "g \<in> set ?gs" "lacks ''<private>'' g" for g
      using redacted_segment(5) segments_ok_mem [OF c(2) that(1)] that(2) by blast
    ultimately have "\<forall>g \<in> set ?gs. lacks ''<private>'' (redact_line g)" by blast
    then show "lacks ''<private>'' t"
      using lacks_segments [OF redacted_segments_ok [OF c(2)]] by (simp add: t)
  qed
  moreover have "safe_lines s \<longrightarrow> t = s"
  proof
    assume "safe_lines s"
    then have "map redact_line ?gs = ?gs"
      by (intro map_idI) (simp add: safe_lines_def list_all_iff redact_line_form)
    then show "t = s" by (simp add: t c)
  qed
  moreover have "f' = f\<lparr>mp_redacted_secret := mp_redacted_secret f \<or> \<not> safe_lines s\<rparr>"
    using h by (auto simp: redact_secret_lines_def Let_def safe_lines_def line_of_def list_ex_iff list_all_iff)
  ultimately show ?thesis
    using redacted_lines_safe [of s f] set_redacted_lines [of s f] h by (metis fst_conv)
qed

lemma truncated_marker_form: "scalars truncated_marker = nl # scalars ''[TRUNCATED]''"
  by (simp add: truncated_marker_def scalars_def nl_def)

lemma redact_scalars_facts:
  assumes "(t, f) = redact_scalars s n"
  shows "lacks ''<private>'' t \<and> safe_lines t \<and> length t \<le> n + 12 \<and> (f = no_flags \<longrightarrow> t = s) \<and>
    set t \<subseteq> set s \<union> set (scalars private_marker) \<union> set (scalars secret_marker) \<union> set (scalars truncated_marker)"
proof -
  obtain t1 f1 where p: "(t1, f1) = redact_private_blocks s no_flags" by (metis surj_pair)
  obtain t2 f2 where l: "(t2, f2) = redact_secret_lines t1 f1" by (metis surj_pair)
  note P = redact_private_facts [OF p] and L = redact_lines_facts [OF l]
  have r: "redact_scalars s n = (if n < length t2
      then (take n t2 @ scalars truncated_marker, f2\<lparr>mp_output_truncated := True\<rparr>) else (t2, f2))"
    by (simp add: redact_scalars_def flip: p l)
  show ?thesis
  proof (cases "n < length t2")
    case True
    have "lacks ''<private>'' (take n t2)"
      by (rule lacks_prefix [of _ _ "drop n t2"]) (use P L in simp)
    then have a: "lacks ''<private>'' (take n t2 @ scalars truncated_marker)"
      using lacks_markers by (simp add: truncated_marker_form lacks_barrier [OF barriers(1)])
    have b: "safe_lines (take n t2 @ scalars truncated_marker)"
      using safe_lines_cut [of "take n t2" "drop n t2"] L by (simp add: truncated_marker_form)
    have c: "f2\<lparr>mp_output_truncated := True\<rparr> \<noteq> no_flags"
      by (cases f2) (simp add: no_flags_def)
    have d: "length (scalars truncated_marker) = 12" by (simp add: truncated_marker_def scalars_def nl_def)
    have e: "set (take n t2) \<subseteq> set t2" by (rule set_take_subset)
    show ?thesis
      using assms a b c d e P L True by (auto simp: r)
  next
    case False
    have "f2 = no_flags \<longrightarrow> t2 = s"
    proof
      assume "f2 = no_flags"
      then have "\<not> mp_redacted_secret f2 \<and> \<not> mp_redacted_private_block f2" by (simp add: no_flags_def)
      then show "t2 = s" using P L by simp
    qed
    then show ?thesis using assms False P L by (auto simp: r)
  qed
qed

text \<open>C0: Redaction is complete, in any text and at any length: what is stored has no private block
  left, none of its lines looks like a secret, the cut line included, it exceeds the limit by the
  marker of the cut only, and a text whose flags are clear is stored as it was.\<close>

theorem redaction_complete:
  assumes "valid_text input"
  shows "case redact_memory_text input n of (t, f) \<Rightarrow>
    lacks ''<private>'' (utf8_chars t) \<and> safe_lines (utf8_chars t) \<and>
    length (utf8_chars t) \<le> n + 12 \<and> (f = no_flags \<longrightarrow> t = input)"
proof -
  obtain t f where r: "(t, f) = redact_scalars (utf8_chars input) n" by (metis surj_pair)
  note R = redact_scalars_facts [OF r]
  have "list_all scalar_ok t"
    using R scalars_of_valid [OF assms] markers_scalar_ok by (fastforce simp: list_all_iff)
  then have u: "utf8_chars (concat t) = t" by (rule utf8_chars_scalars)
  have "f = no_flags \<longrightarrow> concat t = input"
    using R by auto
  with R u show ?thesis by (simp add: redact_memory_text_def flip: r)
qed

lemma private_example:
  "replace_private_blocks (scalars ''a <PRIVATE>x</private>'') = scalars ''a [REDACTED_PRIVATE_BLOCK]''"
  by code_simp

theorem redaction_complete_witness:
  "fst (redact_memory_text ''API-KEY=1'' 60) = ''[REDACTED_SECRET]''
   \<and> safe_lines (utf8_chars (fst (redact_memory_text ''API-KEY=1'' 60)))"
proof -
  have "valid_text ''API-KEY=1''" by (simp add: valid_text_def is_cont_def byte_def)
  note redaction_complete [OF this, of 60]
  moreover have "fst (redact_memory_text ''API-KEY=1'' 60) = ''[REDACTED_SECRET]''" by code_simp
  ultimately show ?thesis by (simp add: case_prod_unfold)
qed

end
