(* ===== verification/MemoryStore.thy ===== *)
theory MemoryStore
  imports Codec MemoryText "HOL-Library.Product_Lexorder" "HOL-Library.List_Lexorder"
begin

text \<open>
  The memory store (\<^verbatim>\<open>src/state/memory/types.rs\<close>, \<^verbatim>\<open>store.rs\<close>): the entries with
  their life cycle, the full-text index over the live ones, and the audit log. Each operation is one
  transaction over the three tables; an error leaves them as they were. Columns with JSON text hold the
  value itself. The clock is an argument of an operation, in milliseconds.
\<close>

section \<open>Data\<close>

datatype memory_scope = GlobalScope | ProjectScope | ThreadScope

fun memory_scope_as_str :: "memory_scope \<Rightarrow> string" where
  "memory_scope_as_str GlobalScope = ''global''"
| "memory_scope_as_str ProjectScope = ''project''"
| "memory_scope_as_str ThreadScope = ''thread''"

definition parse_scope :: "string \<Rightarrow> error + memory_scope" where
  "parse_scope v =
     (if v = ''global'' then Inr GlobalScope
      else if v = ''project'' then Inr ProjectScope
      else if v = ''thread'' then Inr ThreadScope
      else Inl (Anyhow (''unknown memory scope '' @ v)))"

datatype memory_kind =
  ArchitectureMemory | PreferenceMemory | WorkflowMemory | BugMemory | FactMemory

fun memory_kind_as_str :: "memory_kind \<Rightarrow> string" where
  "memory_kind_as_str ArchitectureMemory = ''architecture''"
| "memory_kind_as_str PreferenceMemory = ''preference''"
| "memory_kind_as_str WorkflowMemory = ''workflow''"
| "memory_kind_as_str BugMemory = ''bug''"
| "memory_kind_as_str FactMemory = ''fact''"

definition parse_entry_kind :: "string \<Rightarrow> error + memory_kind" where
  "parse_entry_kind v =
     (if v = ''architecture'' then Inr ArchitectureMemory
      else if v = ''preference'' then Inr PreferenceMemory
      else if v = ''workflow'' then Inr WorkflowMemory
      else if v = ''bug'' then Inr BugMemory
      else if v = ''fact'' then Inr FactMemory
      else Inl (Anyhow (''unknown memory entry kind '' @ v)))"

datatype memory_status =
  MemCandidate | MemActive | MemSuperseded | MemRejected | MemArchived | MemDeleted

fun memory_status_as_str :: "memory_status \<Rightarrow> string" where
  "memory_status_as_str MemCandidate = ''candidate''"
| "memory_status_as_str MemActive = ''active''"
| "memory_status_as_str MemSuperseded = ''superseded''"
| "memory_status_as_str MemRejected = ''rejected''"
| "memory_status_as_str MemArchived = ''archived''"
| "memory_status_as_str MemDeleted = ''deleted''"

definition parse_memory_status :: "string \<Rightarrow> error + memory_status" where
  "parse_memory_status v =
     (if v = ''candidate'' then Inr MemCandidate
      else if v = ''active'' then Inr MemActive
      else if v = ''superseded'' then Inr MemSuperseded
      else if v = ''rejected'' then Inr MemRejected
      else if v = ''archived'' then Inr MemArchived
      else if v = ''deleted'' then Inr MemDeleted
      else Inl (Anyhow (''unknown memory status '' @ v)))"

interpretation memory_scope_codec: label_codec memory_scope_as_str parse_scope
proof
  show "parse_scope (memory_scope_as_str x) = Inr x" for x
    by (cases x) (simp_all add: parse_scope_def)
  show "s = memory_scope_as_str x" if "parse_scope s = Inr x" for s x
    using that by (auto simp: parse_scope_def split: if_splits)
qed

interpretation memory_kind_codec: label_codec memory_kind_as_str parse_entry_kind
proof
  show "parse_entry_kind (memory_kind_as_str x) = Inr x" for x
    by (cases x) (simp_all add: parse_entry_kind_def)
  show "s = memory_kind_as_str x" if "parse_entry_kind s = Inr x" for s x
    using that by (auto simp: parse_entry_kind_def split: if_splits)
qed

interpretation memory_status_codec: label_codec memory_status_as_str parse_memory_status
proof
  show "parse_memory_status (memory_status_as_str x) = Inr x" for x
    by (cases x) (simp_all add: parse_memory_status_def)
  show "s = memory_status_as_str x" if "parse_memory_status s = Inr x" for s x
    using that by (auto simp: parse_memory_status_def split: if_splits)
qed

record code_ref =
  cf_path :: string
  cf_line :: "nat option"
  cf_symbol :: "string option"

record source_ref =
  sf_thread_id :: thread_id
  sf_turn_id :: "turn_id option"
  sf_event_id :: "event_id option"
  sf_tool_call_id :: "string option"
  sf_tool_invocation_id :: "string option"

text \<open>The confidence is one of the two literals the store writes, in hundredths.\<close>

record memory_entry =
  me_id :: string
  me_scope :: memory_scope
  me_project_id :: "string option"
  me_thread_id :: "thread_id option"
  me_kind :: memory_kind
  me_title :: string
  me_content :: string
  me_files :: "string list"
  me_code_refs :: "code_ref list"
  me_concepts :: "string list"
  me_source_refs :: "source_ref list"
  me_confidence :: nat
  me_strength :: int
  me_pinned :: bool
  me_status :: memory_status
  me_inactive_reason :: "string option"
  me_supersedes_id :: "string option"
  me_suspicious :: bool
  me_privacy_flags :: privacy_flags
  me_created_by :: string
  me_created_at_ms :: int
  me_updated_at_ms :: int
  me_last_used_at_ms :: "int option"
  me_use_count :: int

record memory_input =
  mi_scope :: memory_scope
  mi_kind :: memory_kind
  mi_title :: string
  mi_content :: string
  mi_files :: "string list"
  mi_concepts :: "string list"
  mi_source_refs :: "source_ref list"
  mi_pinned :: bool

record fts_row =
  ft_id :: string
  ft_scope :: memory_scope
  ft_project_id :: "string option"
  ft_thread_id :: "thread_id option"
  ft_title :: string
  ft_content :: string
  ft_files :: string
  ft_concepts :: string

record audit_event =
  au_id :: string
  au_memory_id :: string
  au_action :: string
  au_actor :: string
  au_created_at_ms :: int

text \<open>\<open>md_counter\<close> is the counter of the process from which identifiers are made.\<close>

record memory_db =
  md_entries :: "memory_entry list"
  md_fts :: "fts_row list"
  md_audit :: "audit_event list"
  md_counter :: nat

definition empty_memory_db :: memory_db where
  "empty_memory_db = \<lparr> md_entries = [], md_fts = [], md_audit = [], md_counter = 0 \<rparr>"

type_synonym 'a memory_result = "(error + 'a) \<times> memory_db"

section \<open>Identifiers\<close>

definition fragment_step :: "string \<times> bool \<Rightarrow> char \<Rightarrow> string \<times> bool" where
  "fragment_step s c = (case s of (out, sep) \<Rightarrow>
     if 48 \<le> length out then (out, sep)
     else if is_token_char c \<and> c \<noteq> CHR ''_'' then (out @ [ascii_lower c], False)
     else if \<not> sep \<and> out \<noteq> [] \<and> \<not> is_cont c then (out @ ''_'', True) else (out, sep))"

definition trim_underscores :: "string \<Rightarrow> string" where
  "trim_underscores s = trim_end_char (CHR ''_'') (dropWhile (\<lambda>c. c = CHR ''_'') s)"

definition id_fragment :: "string \<Rightarrow> string" where
  "id_fragment v =
     (let out = trim_underscores (fst (foldl fragment_step ([], False) v))
      in if out = [] then ''memory'' else out)"

definition memory_id :: "int \<Rightarrow> nat \<Rightarrow> string \<Rightarrow> string" where
  "memory_id now n title = ''mem_'' @ show_int now @ ''_'' @ show_nat n @ ''_'' @ id_fragment title"

definition audit_id :: "int \<Rightarrow> nat \<Rightarrow> string \<Rightarrow> string \<Rightarrow> string" where
  "audit_id now n mid action =
     ''audit_'' @ show_int now @ ''_'' @ show_nat n @ ''_'' @ id_fragment action @ ''_'' @ id_fragment mid"

section \<open>Scopes\<close>

definition validate_memory_write_scope ::
  "memory_scope \<Rightarrow> string option \<Rightarrow> thread_id option \<Rightarrow> error + unit" where
  "validate_memory_write_scope scope project thread =
     (case scope of
        GlobalScope \<Rightarrow>
          if project \<noteq> None \<or> thread \<noteq> None
          then Inl (Anyhow ''global memory entries cannot include project_id or thread_id'') else Inr ()
      | ProjectScope \<Rightarrow>
          if project = None then Inl (Anyhow ''project memory entries require project_id'')
          else if thread \<noteq> None then Inl (Anyhow ''project memory entries cannot include thread_id'')
          else Inr ()
      | ThreadScope \<Rightarrow>
          if project = None then Inl (Anyhow ''thread memory entries require project_id'')
          else if thread = None then Inl (Anyhow ''thread memory entries require thread_id'')
          else Inr ())"

definition entry_matches_allowed_scope ::
  "memory_entry \<Rightarrow> string option \<Rightarrow> thread_id option \<Rightarrow> bool" where
  "entry_matches_allowed_scope e project thread =
     (case project of
        None \<Rightarrow> True
      | Some p \<Rightarrow>
          (case me_scope e of
             GlobalScope \<Rightarrow> False
           | ProjectScope \<Rightarrow> me_project_id e = Some p
           | ThreadScope \<Rightarrow> (case thread of
                None \<Rightarrow> False
              | Some t \<Rightarrow> me_project_id e = Some p \<and> me_thread_id e = Some t)))"

text \<open>An SQL comparison with NULL does not hold.\<close>

definition sql_eq :: "'a option \<Rightarrow> 'a option \<Rightarrow> bool" where
  "sql_eq a b \<longleftrightarrow> a \<noteq> None \<and> a = b"

definition scope_predicate :: "memory_scope \<Rightarrow> string option \<Rightarrow> thread_id option \<Rightarrow> memory_entry \<Rightarrow> bool" where
  "scope_predicate scope project thread e =
     (case scope of
        GlobalScope \<Rightarrow> me_scope e = GlobalScope
      | ProjectScope \<Rightarrow> me_scope e = GlobalScope \<or>
          me_scope e = ProjectScope \<and> sql_eq (me_project_id e) project
      | ThreadScope \<Rightarrow> me_scope e = GlobalScope \<or>
          me_scope e = ProjectScope \<and> sql_eq (me_project_id e) project \<or>
          me_scope e = ThreadScope \<and> sql_eq (me_project_id e) project \<and> sql_eq (me_thread_id e) thread)"

definition frozen_scope_predicate :: "string option \<Rightarrow> thread_id option \<Rightarrow> memory_entry \<Rightarrow> bool" where
  "frozen_scope_predicate project thread e =
     (case (project, thread) of
        (Some p, Some t) \<Rightarrow> me_scope e = GlobalScope \<or>
          me_scope e = ProjectScope \<and> me_project_id e = Some p \<or>
          me_scope e = ThreadScope \<and> me_project_id e = Some p \<and> me_thread_id e = Some t
      | (Some p, None) \<Rightarrow> me_scope e = GlobalScope \<or>
          me_scope e = ProjectScope \<and> me_project_id e = Some p
      | (None, _) \<Rightarrow> me_scope e = GlobalScope)"

section \<open>What is stored\<close>

definition merge_privacy_flags :: "privacy_flags \<Rightarrow> privacy_flags \<Rightarrow> privacy_flags" where
  "merge_privacy_flags target other =
     \<lparr> mp_redacted_secret = (mp_redacted_secret target \<or> mp_redacted_secret other),
       mp_redacted_private_block = (mp_redacted_private_block target \<or> mp_redacted_private_block other),
       mp_sensitive_path = (mp_sensitive_path target \<or> mp_sensitive_path other),
       mp_output_truncated = (mp_output_truncated target \<or> mp_output_truncated other),
       mp_suspicious_injection = (mp_suspicious_injection target \<or> mp_suspicious_injection other) \<rparr>"

definition is_sensitive_memory_path :: "string \<Rightarrow> bool" where
  "is_sensitive_memory_path p \<longleftrightarrow> classify_memory_path p = SensitivePath"

definition sanitize_memory_files :: "string list \<Rightarrow> privacy_flags \<Rightarrow> string list \<times> privacy_flags" where
  "sanitize_memory_files files f =
     (filter (\<lambda>p. \<not> is_sensitive_memory_path p) files,
      if list_ex is_sensitive_memory_path files then f\<lparr>mp_sensitive_path := True\<rparr> else f)"

fun sanitize_memory_concepts :: "string list \<Rightarrow> privacy_flags \<Rightarrow> string list \<times> privacy_flags" where
  "sanitize_memory_concepts [] f = ([], f)"
| "sanitize_memory_concepts (c # cs) f =
     (let (t, g) = redact_memory_text c 512;
          (ts, f') = sanitize_memory_concepts cs (merge_privacy_flags f g)
      in (t # ts, f'))"

definition combined_memory_text :: "string \<Rightarrow> string \<Rightarrow> string list \<Rightarrow> string" where
  "combined_memory_text title body concepts =
     title @ nl @ body @ concat (map (\<lambda>c. nl @ c) concepts)"

definition code_refs_for_files :: "string list \<Rightarrow> code_ref list" where
  "code_refs_for_files files =
     map (\<lambda>p. \<lparr> cf_path = p, cf_line = None, cf_symbol = None \<rparr>) files"

fun merge_source_refs :: "source_ref list \<Rightarrow> source_ref list \<Rightarrow> source_ref list" where
  "merge_source_refs acc [] = acc"
| "merge_source_refs acc (r # rs) =
     merge_source_refs (if r \<in> set acc then acc else acc @ [r]) rs"

text \<open>The fields of an input as they are stored: title, content, files, concepts, and the flags with
  the result of the scan.\<close>

record stored_input =
  si_title :: string
  si_content :: string
  si_files :: "string list"
  si_concepts :: "string list"
  si_flags :: privacy_flags

definition store_input :: "memory_input \<Rightarrow> stored_input" where
  "store_input i =
     (let (title, flags) = redact_memory_text (mi_title i) 512;
          (content, content_flags) = redact_memory_text (mi_content i) (12 * 1024);
          flags = merge_privacy_flags flags content_flags;
          (files, flags) = sanitize_memory_files (mi_files i) flags;
          (concepts, flags) = sanitize_memory_concepts (mi_concepts i) flags;
          scan = scan_injection (combined_memory_text title content concepts)
      in \<lparr> si_title = title, si_content = content, si_files = files, si_concepts = concepts,
           si_flags = flags\<lparr>mp_suspicious_injection :=
             mp_suspicious_injection flags \<or> is_suspicious scan\<rparr> \<rparr>)"

section \<open>Rows\<close>

definition entry_from_row :: "memory_entry \<Rightarrow> memory_entry" where
  "entry_from_row r =
     (let flags = me_privacy_flags r
      in r\<lparr>me_code_refs := (if me_code_refs r = [] then code_refs_for_files (me_files r) else me_code_refs r),
           me_privacy_flags := flags\<lparr>mp_suspicious_injection :=
             mp_suspicious_injection flags \<or> me_suspicious r\<rparr>\<rparr>)"

definition row_not_found :: error where
  "row_not_found = Anyhow ''no rows returned by a query that expected to return at least one row''"

definition memory_entry_by_id :: "string \<Rightarrow> memory_db \<Rightarrow> error + memory_entry" where
  "memory_entry_by_id i db =
     (case find (\<lambda>r. me_id r = i) (md_entries db) of
        None \<Rightarrow> Inl row_not_found | Some r \<Rightarrow> Inr (entry_from_row r))"

definition insert_entry_fts :: "memory_entry \<Rightarrow> memory_db \<Rightarrow> memory_db" where
  "insert_entry_fts e db = db\<lparr>md_fts := md_fts db @
     [\<lparr> ft_id = me_id e, ft_scope = me_scope e, ft_project_id = me_project_id e,
        ft_thread_id = me_thread_id e, ft_title = me_title e, ft_content = me_content e,
        ft_files = join '' '' (me_files e), ft_concepts = join '' '' (me_concepts e) \<rparr>]\<rparr>"

definition delete_entry_fts :: "string \<Rightarrow> memory_db \<Rightarrow> memory_db" where
  "delete_entry_fts i db = db\<lparr>md_fts := filter (\<lambda>r. ft_id r \<noteq> i) (md_fts db)\<rparr>"

definition unique_failed :: "string \<Rightarrow> error" where
  "unique_failed column = Anyhow (''UNIQUE constraint failed: '' @ column)"

text \<open>An insertion fails when its key is taken; the caller then drops the transaction.\<close>

definition insert_entry :: "memory_entry \<Rightarrow> memory_db \<Rightarrow> unit memory_result" where
  "insert_entry e db =
     (if me_id e \<in> me_id ` set (md_entries db) then (Inl (unique_failed ''memory_entries.id''), db)
      else (Inr (), db\<lparr>md_entries := md_entries db @ [e]\<rparr>))"

definition insert_audit_event ::
  "string \<Rightarrow> string \<Rightarrow> string \<Rightarrow> int \<Rightarrow> memory_db \<Rightarrow> unit memory_result" where
  "insert_audit_event mid action actor now db =
     (let i = audit_id now (md_counter db) mid action;
          db = db\<lparr>md_counter := md_counter db + 1\<rparr>
      in if i \<in> au_id ` set (md_audit db) then (Inl (unique_failed ''memory_audit_events.id''), db)
         else (Inr (), db\<lparr>md_audit := md_audit db @
           [\<lparr> au_id = i, au_memory_id = mid, au_action = action, au_actor = actor,
              au_created_at_ms = now \<rparr>]\<rparr>))"

definition update_rows ::
  "(memory_entry \<Rightarrow> bool) \<Rightarrow> (memory_entry \<Rightarrow> memory_entry) \<Rightarrow> memory_db \<Rightarrow> nat \<times> memory_db" where
  "update_rows P f db =
     (length (filter P (md_entries db)),
      db\<lparr>md_entries := map (\<lambda>r. if P r then f r else r) (md_entries db)\<rparr>)"

text \<open>A transaction: an error leaves the tables as they were; the numbers taken are gone.\<close>

definition then_tx :: "unit memory_result \<Rightarrow> (memory_db \<Rightarrow> unit memory_result) \<Rightarrow> unit memory_result" where
  "then_tx r g = (case r of (Inl e, db) \<Rightarrow> (Inl e, db) | (Inr _, db) \<Rightarrow> g db)"

definition in_tx :: "(memory_db \<Rightarrow> unit memory_result) \<Rightarrow> memory_db \<Rightarrow> unit memory_result" where
  "in_tx f db =
     (case f db of
        (Inl e, db') \<Rightarrow> (Inl e, db\<lparr>md_counter := md_counter db'\<rparr>)
      | (Inr _, db') \<Rightarrow> (Inr (), db'))"

definition then_read :: "string \<Rightarrow> unit memory_result \<Rightarrow> memory_entry memory_result" where
  "then_read i r = (case r of
     (Inl e, db) \<Rightarrow> (Inl e, db) | (Inr _, db) \<Rightarrow> (memory_entry_by_id i db, db))"

section \<open>Operations\<close>

text \<open>The row both statements that insert an entry write.\<close>

definition new_row ::
  "string \<Rightarrow> memory_input \<Rightarrow> stored_input \<Rightarrow> string option \<Rightarrow> thread_id option \<Rightarrow> source_ref list \<Rightarrow> nat \<Rightarrow>
   memory_status \<Rightarrow> string option \<Rightarrow> bool \<Rightarrow> string \<Rightarrow> int \<Rightarrow> memory_entry" where
  "new_row new_id i s project thread refs confidence status supersedes suspicious actor now =
     \<lparr> me_id = new_id, me_scope = mi_scope i, me_project_id = project, me_thread_id = thread,
       me_kind = mi_kind i, me_title = si_title s, me_content = si_content s, me_files = si_files s,
       me_code_refs = code_refs_for_files (si_files s), me_concepts = si_concepts s,
       me_source_refs = refs, me_confidence = confidence, me_strength = 7, me_pinned = mi_pinned i,
       me_status = status, me_inactive_reason = None, me_supersedes_id = supersedes,
       me_suspicious = suspicious,
       me_privacy_flags = (si_flags s)\<lparr>mp_suspicious_injection := suspicious\<rparr>,
       me_created_by = actor, me_created_at_ms = now, me_updated_at_ms = now,
       me_last_used_at_ms = None, me_use_count = 0 \<rparr>"

definition insert_memory_entry ::
  "string option \<Rightarrow> thread_id option \<Rightarrow> memory_input \<Rightarrow> string \<Rightarrow> memory_status \<Rightarrow> int \<Rightarrow> memory_db \<Rightarrow>
   memory_entry memory_result" where
  "insert_memory_entry project thread i actor status now db =
     (case validate_memory_write_scope (mi_scope i) project thread of
        Inl e \<Rightarrow> (Inl e, db)
      | Inr _ \<Rightarrow>
          let s = store_input i;
              new_id = memory_id now (md_counter db) (si_title s);
              db = db\<lparr>md_counter := md_counter db + 1\<rparr>
          in if status \<noteq> MemActive \<and> status \<noteq> MemCandidate
             then (Inl (Anyhow (''unsupported memory insert status '' @ memory_status_as_str status)), db)
             else let e = new_row new_id i s project thread (mi_source_refs i)
                       (if status = MemActive then 90 else 60) status None
                       (mp_suspicious_injection (si_flags s)) actor now
                  in then_read new_id (in_tx (\<lambda>db.
                       then_tx (insert_entry e db) (\<lambda>db.
                         insert_audit_event new_id (if status = MemActive then ''save'' else ''propose'')
                           actor now (insert_entry_fts e db))) db))"

definition save_memory_entry_for_scope ::
  "string option \<Rightarrow> thread_id option \<Rightarrow> memory_input \<Rightarrow> string \<Rightarrow> int \<Rightarrow> memory_db \<Rightarrow> memory_entry memory_result"
  where
  "save_memory_entry_for_scope project thread i actor = insert_memory_entry project thread i actor MemActive"

definition propose_memory_candidate ::
  "string option \<Rightarrow> thread_id option \<Rightarrow> memory_input \<Rightarrow> string \<Rightarrow> int \<Rightarrow> memory_db \<Rightarrow> memory_entry memory_result"
  where
  "propose_memory_candidate project thread i actor = insert_memory_entry project thread i actor MemCandidate"

definition status_mismatch :: "string \<Rightarrow> string \<Rightarrow> memory_entry \<Rightarrow> error" where
  "status_mismatch i expected e = Anyhow (''memory entry '' @ i @ '' must be '' @ expected @
     '', found '' @ memory_status_as_str (me_status e))"

definition outside_scope :: "string \<Rightarrow> error" where
  "outside_scope i = Anyhow (''memory entry '' @ i @ '' is outside the current memory scope'')"

definition promote_memory_candidate ::
  "string \<Rightarrow> string \<Rightarrow> bool \<Rightarrow> int \<Rightarrow> memory_db \<Rightarrow> memory_entry memory_result" where
  "promote_memory_candidate i actor allow_quarantined_override now db =
     (case memory_entry_by_id i db of
        Inl e \<Rightarrow> (Inl e, db)
      | Inr r \<Rightarrow>
          let quarantined = mp_suspicious_injection (me_privacy_flags r)
          in if me_status r \<noteq> MemCandidate then (Inl (status_mismatch i ''candidate to promote'' r), db)
             else if quarantined \<and> \<not> allow_quarantined_override
             then (case in_tx (insert_audit_event i ''promote_blocked_quarantine'' actor now) db of
                     (Inl e, db) \<Rightarrow> (Inl e, db)
                   | (Inr _, db) \<Rightarrow> (Inl (Anyhow (''memory entry '' @ i @
                       '' is quarantined and requires override to promote'')), db))
             else then_read i (in_tx (\<lambda>db.
                    case update_rows (\<lambda>r. me_id r = i \<and> me_status r = MemCandidate)
                        (\<lambda>r. r\<lparr>me_status := MemActive, me_inactive_reason := None, me_updated_at_ms := now\<rparr>) db of
                      (n, db) \<Rightarrow>
                        if n = 0 then (Inl (Anyhow (''memory candidate '' @ i @ '' was not promoted'')), db)
                        else insert_audit_event i
                          (if quarantined then ''promote_quarantined_override'' else ''promote'') actor now db) db))"

definition supersede_memory_entry_inner ::
  "string \<Rightarrow> memory_input \<Rightarrow> string \<Rightarrow> string option \<Rightarrow> thread_id option \<Rightarrow> int \<Rightarrow> memory_db \<Rightarrow>
   memory_entry memory_result" where
  "supersede_memory_entry_inner old_id i actor project thread now db =
     (case memory_entry_by_id old_id db of
        Inl e \<Rightarrow> (Inl e, db)
      | Inr old \<Rightarrow>
          if me_status old \<noteq> MemActive then (Inl (status_mismatch old_id ''active to supersede'' old), db)
          else if \<not> entry_matches_allowed_scope old project thread then (Inl (outside_scope old_id), db)
          else if mi_scope i \<noteq> me_scope old
          then (Inl (Anyhow (''memory supersession cannot change scope from '' @
                  memory_scope_as_str (me_scope old) @ '' to '' @ memory_scope_as_str (mi_scope i))), db)
          else case validate_memory_write_scope (mi_scope i) (me_project_id old) (me_thread_id old) of
              Inl e \<Rightarrow> (Inl e, db)
            | Inr _ \<Rightarrow>
                let s = store_input i;
                    suspicious = (mp_suspicious_injection (si_flags s) \<or>
                      mp_suspicious_injection (me_privacy_flags old));
                    new_id = memory_id now (md_counter db) (si_title s);
                    db = db\<lparr>md_counter := md_counter db + 1\<rparr>;
                    e = new_row new_id i s (me_project_id old) (me_thread_id old)
                       (merge_source_refs [] (me_source_refs old @ mi_source_refs i)) 90 MemActive
                       (Some old_id) suspicious actor now
                in then_read new_id (in_tx (\<lambda>db.
                     case update_rows (\<lambda>r. me_id r = old_id \<and> me_status r = MemActive)
                         (\<lambda>r. r\<lparr>me_status := MemSuperseded,
                             me_inactive_reason := Some (''superseded_by:'' @ new_id),
                             me_updated_at_ms := now\<rparr>) db of
                       (n, db) \<Rightarrow>
                         if n = 0 then (Inl (Anyhow (''memory entry '' @ old_id @ '' was not superseded'')), db)
                         else then_tx (insert_entry e (delete_entry_fts old_id db)) (\<lambda>db.
                           then_tx (insert_audit_event old_id ''supersede_old'' actor now (insert_entry_fts e db))
                             (insert_audit_event new_id ''supersede_new'' actor now))) db))"

definition set_memory_entry_pinned_inner ::
  "string \<Rightarrow> bool \<Rightarrow> string \<Rightarrow> string option \<Rightarrow> thread_id option \<Rightarrow> int \<Rightarrow> memory_db \<Rightarrow>
   memory_entry memory_result" where
  "set_memory_entry_pinned_inner i pinned actor project thread now db =
     (case memory_entry_by_id i db of
        Inl e \<Rightarrow> (Inl e, db)
      | Inr r \<Rightarrow>
          if me_status r \<noteq> MemActive then (Inl (status_mismatch i ''active to pin or unpin'' r), db)
          else if \<not> entry_matches_allowed_scope r project thread then (Inl (outside_scope i), db)
          else then_read i (in_tx (\<lambda>db.
                 case update_rows (\<lambda>r. me_id r = i)
                     (\<lambda>r. r\<lparr>me_pinned := pinned, me_updated_at_ms := now\<rparr>) db of
                   (n, db) \<Rightarrow>
                     if n = 0 then (Inl (Anyhow (''memory entry '' @ i @ '' does not exist'')), db)
                     else insert_audit_event i (if pinned then ''pin'' else ''unpin'') actor now db) db))"

definition transition_memory_entry_archive_state ::
  "string \<Rightarrow> memory_status \<Rightarrow> memory_status \<Rightarrow> string option \<Rightarrow> string \<Rightarrow> string \<Rightarrow> string option \<Rightarrow>
   thread_id option \<Rightarrow> int \<Rightarrow> memory_db \<Rightarrow> memory_entry memory_result" where
  "transition_memory_entry_archive_state i expected target reason action actor project thread now db =
     (case memory_entry_by_id i db of
        Inl e \<Rightarrow> (Inl e, db)
      | Inr r \<Rightarrow>
          if me_status r \<noteq> expected
          then (Inl (status_mismatch i (memory_status_as_str expected @ '' to '' @ action) r), db)
          else if \<not> entry_matches_allowed_scope r project thread then (Inl (outside_scope i), db)
          else then_read i (in_tx (\<lambda>db.
                 case update_rows (\<lambda>r. me_id r = i \<and> me_status r = expected)
                     (\<lambda>r. r\<lparr>me_status := target, me_inactive_reason := reason, me_updated_at_ms := now\<rparr>) db of
                   (n, db) \<Rightarrow>
                     if n = 0 then (Inl (Anyhow (''memory entry '' @ i @ '' was not '' @ action @ ''d'')), db)
                     else let db = delete_entry_fts i db;
                              db = (if target = MemActive then insert_entry_fts r db else db)
                          in insert_audit_event i action actor now db) db))"

definition archive_memory_entry_with_scope ::
  "string \<Rightarrow> string \<Rightarrow> string option \<Rightarrow> thread_id option \<Rightarrow> int \<Rightarrow> memory_db \<Rightarrow> memory_entry memory_result"
  where
  "archive_memory_entry_with_scope i =
     transition_memory_entry_archive_state i MemActive MemArchived (Some ''archived'') ''archive''"

definition unarchive_memory_entry_with_scope ::
  "string \<Rightarrow> string \<Rightarrow> string option \<Rightarrow> thread_id option \<Rightarrow> int \<Rightarrow> memory_db \<Rightarrow> memory_entry memory_result"
  where
  "unarchive_memory_entry_with_scope i =
     transition_memory_entry_archive_state i MemArchived MemActive None ''unarchive''"

definition forget_memory_entry_with_scope ::
  "string \<Rightarrow> string \<Rightarrow> string option \<Rightarrow> thread_id option \<Rightarrow> int \<Rightarrow> memory_db \<Rightarrow> unit memory_result" where
  "forget_memory_entry_with_scope i actor project thread now =
     in_tx (\<lambda>db.
       case update_rows (\<lambda>r. me_id r = i \<and> (case project of
               None \<Rightarrow> True
             | Some p \<Rightarrow> me_scope r = ProjectScope \<and> me_project_id r = Some p \<or>
                 (case thread of None \<Rightarrow> False
                  | Some t \<Rightarrow> me_scope r = ThreadScope \<and> me_project_id r = Some p \<and> me_thread_id r = Some t)))
           (\<lambda>r. r\<lparr>me_status := MemDeleted, me_inactive_reason := Some ''user_forget'',
               me_updated_at_ms := now\<rparr>) db of
         (n, db) \<Rightarrow>
           if n = 0 then (Inl (Anyhow (''memory entry '' @ i @ '' does not exist'')), db)
           else insert_audit_event i ''forget'' actor now (delete_entry_fts i db))"

definition reject_memory_candidate_with_scope ::
  "string \<Rightarrow> string \<Rightarrow> string option \<Rightarrow> thread_id option \<Rightarrow> int \<Rightarrow> memory_db \<Rightarrow> memory_entry memory_result"
  where
  "reject_memory_candidate_with_scope i actor project thread now db =
     (case memory_entry_by_id i db of
        Inl e \<Rightarrow> (Inl e, db)
      | Inr r \<Rightarrow>
          if me_status r \<noteq> MemCandidate then (Inl (status_mismatch i ''candidate to reject'' r), db)
          else if \<not> entry_matches_allowed_scope r project thread then (Inl (outside_scope i), db)
          else then_read i (in_tx (\<lambda>db.
                 case update_rows (\<lambda>r. me_id r = i \<and> me_status r = MemCandidate)
                     (\<lambda>r. r\<lparr>me_status := MemRejected, me_inactive_reason := Some ''candidate_rejected'',
                         me_updated_at_ms := now\<rparr>) db of
                   (n, db) \<Rightarrow>
                     if n = 0 then (Inl (Anyhow (''memory candidate '' @ i @ '' was not rejected'')), db)
                     else insert_audit_event i ''reject'' actor now (delete_entry_fts i db)) db))"

section \<open>Runs\<close>

datatype memory_op =
    MoSave "string option" "thread_id option" memory_input string
  | MoPropose "string option" "thread_id option" memory_input string
  | MoPromote string string bool
  | MoSupersede string memory_input string "string option" "thread_id option"
  | MoPin string bool string "string option" "thread_id option"
  | MoArchive string string "string option" "thread_id option"
  | MoUnarchive string string "string option" "thread_id option"
  | MoForget string string "string option" "thread_id option"
  | MoReject string string "string option" "thread_id option"

fun apply_memory_op :: "int \<Rightarrow> memory_op \<Rightarrow> memory_db \<Rightarrow> memory_db" where
  "apply_memory_op now (MoSave p t i a) db = snd (save_memory_entry_for_scope p t i a now db)"
| "apply_memory_op now (MoPropose p t i a) db = snd (propose_memory_candidate p t i a now db)"
| "apply_memory_op now (MoPromote i a ov) db = snd (promote_memory_candidate i a ov now db)"
| "apply_memory_op now (MoSupersede old i a p t) db = snd (supersede_memory_entry_inner old i a p t now db)"
| "apply_memory_op now (MoPin i b a p t) db = snd (set_memory_entry_pinned_inner i b a p t now db)"
| "apply_memory_op now (MoArchive i a p t) db = snd (archive_memory_entry_with_scope i a p t now db)"
| "apply_memory_op now (MoUnarchive i a p t) db = snd (unarchive_memory_entry_with_scope i a p t now db)"
| "apply_memory_op now (MoForget i a p t) db = snd (forget_memory_entry_with_scope i a p t now db)"
| "apply_memory_op now (MoReject i a p t) db = snd (reject_memory_candidate_with_scope i a p t now db)"

text \<open>The process may restart between two operations, and count from zero again.\<close>

datatype memory_step = MsOp int memory_op | MsRestart

fun apply_memory_step :: "memory_step \<Rightarrow> memory_db \<Rightarrow> memory_db" where
  "apply_memory_step (MsOp now oper) db = apply_memory_op now oper db"
| "apply_memory_step MsRestart db = db\<lparr>md_counter := 0\<rparr>"

definition memory_run :: "memory_step list \<Rightarrow> memory_db" where
  "memory_run steps = fold apply_memory_step steps empty_memory_db"

section \<open>The changes an operation makes\<close>

definition live_entry :: "memory_entry \<Rightarrow> bool" where
  "live_entry e \<longleftrightarrow> me_status e = MemActive \<or> me_status e = MemCandidate"

definition retired_entry :: "memory_entry \<Rightarrow> bool" where
  "retired_entry e \<longleftrightarrow> me_status e = MemSuperseded \<or> me_status e = MemDeleted"

definition fts_of :: "memory_entry \<Rightarrow> fts_row" where
  "fts_of e = \<lparr> ft_id = me_id e, ft_scope = me_scope e, ft_project_id = me_project_id e,
     ft_thread_id = me_thread_id e, ft_title = me_title e, ft_content = me_content e,
     ft_files = join '' '' (me_files e), ft_concepts = join '' '' (me_concepts e) \<rparr>"

text \<open>The status an entry has after an action, for the audit log to be replayed.\<close>

definition audit_effect :: "string \<Rightarrow> memory_status option \<Rightarrow> memory_status option" where
  "audit_effect action s =
     (if action = ''save'' \<or> action = ''promote'' \<or> action = ''promote_quarantined_override'' \<or>
         action = ''supersede_new'' \<or> action = ''unarchive'' then Some MemActive
      else if action = ''propose'' then Some MemCandidate
      else if action = ''supersede_old'' then Some MemSuperseded
      else if action = ''archive'' then Some MemArchived
      else if action = ''forget'' then Some MemDeleted
      else if action = ''reject'' then Some MemRejected
      else s)"

definition audit_status :: "string \<Rightarrow> audit_event list \<Rightarrow> memory_status option" where
  "audit_status i audit =
     fold (\<lambda>a s. if au_memory_id a = i then audit_effect (au_action a) s else s) audit None"

definition same_text :: "memory_entry \<Rightarrow> memory_entry \<Rightarrow> bool" where
  "same_text r r' \<longleftrightarrow> r' = r\<lparr>me_status := me_status r', me_inactive_reason := me_inactive_reason r',
     me_updated_at_ms := me_updated_at_ms r', me_pinned := me_pinned r'\<rparr>"

definition set_row :: "memory_entry \<Rightarrow> memory_db \<Rightarrow> memory_entry list" where
  "set_row r' db = map (\<lambda>r. if me_id r = me_id r' then r' else r) (md_entries db)"

definition quarantined_entry :: "memory_entry \<Rightarrow> bool" where
  "quarantined_entry e \<longleftrightarrow> mp_suspicious_injection (me_privacy_flags e) \<or> me_suspicious e"

definition well_scoped :: "memory_entry \<Rightarrow> bool" where
  "well_scoped e \<longleftrightarrow> validate_memory_write_scope (me_scope e) (me_project_id e) (me_thread_id e) = Inr ()"

definition clean_files :: "memory_entry \<Rightarrow> bool" where
  "clean_files e \<longleftrightarrow> list_all (\<lambda>p. \<not> is_sensitive_memory_path p) (me_files e)"

definition replaces :: "memory_entry \<Rightarrow> memory_entry \<Rightarrow> bool" where
  "replaces e d \<longleftrightarrow> me_supersedes_id e = Some (me_id d) \<and> retired_entry d \<and> me_scope d = me_scope e \<and>
     me_project_id d = me_project_id e \<and> me_thread_id d = me_thread_id e \<and>
     (quarantined_entry d \<longrightarrow> quarantined_entry e)"

text \<open>\<open>Q\<close> says which rows may be changed and how, \<open>N\<close> which may be added.\<close>

inductive memory_change ::
  "(memory_entry \<Rightarrow> memory_entry \<Rightarrow> bool) \<Rightarrow> (memory_entry \<Rightarrow> bool) \<Rightarrow> memory_db \<Rightarrow> memory_db \<Rightarrow> bool"
  for Q :: "memory_entry \<Rightarrow> memory_entry \<Rightarrow> bool" and N :: "memory_entry \<Rightarrow> bool" where
  mc_same: "md_entries db' = md_entries db \<Longrightarrow> md_fts db' = md_fts db \<Longrightarrow> md_audit db' = md_audit db \<Longrightarrow>
    memory_change Q N db db'"
| mc_noted: "md_entries db' = md_entries db \<Longrightarrow> md_fts db' = md_fts db \<Longrightarrow> md_audit db' = md_audit db @ [a] \<Longrightarrow>
    au_action a = ''promote_blocked_quarantine'' \<Longrightarrow> au_id a \<notin> au_id ` set (md_audit db) \<Longrightarrow>
    au_memory_id a \<in> me_id ` set (md_entries db) \<Longrightarrow> memory_change Q N db db'"
| mc_update: "r \<in> set (md_entries db) \<Longrightarrow> Q r r' \<Longrightarrow> same_text r r' \<Longrightarrow> md_entries db' = set_row r' db \<Longrightarrow>
    md_fts db' = (if live_entry r \<and> live_entry r' then md_fts db
      else filter (\<lambda>x. ft_id x \<noteq> me_id r) (md_fts db) @ (if live_entry r' then [fts_of r'] else [])) \<Longrightarrow>
    (retired_entry r \<Longrightarrow> retired_entry r') \<Longrightarrow>
    md_audit db' = md_audit db @ [a] \<Longrightarrow> au_memory_id a = me_id r \<Longrightarrow>
    audit_effect (au_action a) (Some (me_status r)) = Some (me_status r') \<Longrightarrow>
    au_id a \<notin> au_id ` set (md_audit db) \<Longrightarrow> memory_change Q N db db'"
| mc_add: "me_id e \<notin> me_id ` set (md_entries db) \<Longrightarrow> N e \<Longrightarrow> live_entry e \<Longrightarrow> well_scoped e \<Longrightarrow> clean_files e \<Longrightarrow>
    me_supersedes_id e = None \<or> (\<exists>d \<in> set (md_entries db). replaces e d) \<Longrightarrow>
    md_entries db' = md_entries db @ [e] \<Longrightarrow> md_fts db' = md_fts db @ [fts_of e] \<Longrightarrow>
    md_audit db' = md_audit db @ [a] \<Longrightarrow> au_memory_id a = me_id e \<Longrightarrow>
    audit_effect (au_action a) None = Some (me_status e) \<Longrightarrow> au_id a \<notin> au_id ` set (md_audit db) \<Longrightarrow>
    memory_change Q N db db'"

section \<open>The invariant\<close>

definition memory_ok :: "memory_db \<Rightarrow> bool" where
  "memory_ok db \<longleftrightarrow>
     distinct (map me_id (md_entries db)) \<and> distinct (map au_id (md_audit db)) \<and>
     distinct (map ft_id (md_fts db)) \<and>
     set (md_fts db) = fts_of ` {e \<in> set (md_entries db). live_entry e} \<and>
     (\<forall>e \<in> set (md_entries db). well_scoped e \<and> clean_files e \<and>
        audit_status (me_id e) (md_audit db) = Some (me_status e) \<and>
        (me_supersedes_id e = None \<or> (\<exists>d \<in> set (md_entries db). replaces e d))) \<and>
     (\<forall>a \<in> set (md_audit db). au_memory_id a \<in> me_id ` set (md_entries db))"

lemma memory_ok_empty: "memory_ok empty_memory_db"
  by (simp add: memory_ok_def empty_memory_db_def)

lemma audit_status_snoc:
  "audit_status i (as @ [a])
   = (if au_memory_id a = i then audit_effect (au_action a) (audit_status i as) else audit_status i as)"
  by (simp add: audit_status_def)

lemma audit_status_fresh: "i \<notin> au_memory_id ` set as \<Longrightarrow> audit_status i as = None"
  by (induction as rule: rev_induct) (auto simp: audit_status_snoc, simp add: audit_status_def)

lemma same_textD:
  "same_text r r' \<Longrightarrow> me_id r' = me_id r \<and> me_scope r' = me_scope r \<and> me_project_id r' = me_project_id r \<and>
     me_thread_id r' = me_thread_id r \<and> me_files r' = me_files r \<and> me_supersedes_id r' = me_supersedes_id r \<and>
     (quarantined_entry r' \<longleftrightarrow> quarantined_entry r) \<and> fts_of r' = fts_of r \<and>
     (well_scoped r' \<longleftrightarrow> well_scoped r) \<and> (clean_files r' \<longleftrightarrow> clean_files r)"
  unfolding same_text_def
  by (cases r; cases r') (simp add: quarantined_entry_def fts_of_def well_scoped_def clean_files_def)

lemma set_row_ids: "map me_id (set_row r' db) = map me_id (md_entries db)"
  by (simp add: set_row_def)

lemma set_set_row:
  "distinct (map me_id (md_entries db)) \<Longrightarrow> r \<in> set (md_entries db) \<Longrightarrow> me_id r' = me_id r \<Longrightarrow>
   set (set_row r' db) = insert r' (set (md_entries db) - {r})"
  by (auto simp: set_row_def distinct_map inj_on_def)

lemma fts_of_id [simp]: "ft_id (fts_of e) = me_id e"
  by (simp add: fts_of_def)

lemma replaces_same_text:
  "same_text e e' \<Longrightarrow> same_text d d' \<Longrightarrow> (retired_entry d \<Longrightarrow> retired_entry d') \<Longrightarrow> replaces e d \<Longrightarrow> replaces e' d'"
  by (auto simp: replaces_def dest!: same_textD)

lemma same_text_refl [simp]: "same_text e e"
  by (simp add: same_text_def)

lemma memory_update_ok:
  assumes ok: "memory_ok db" and r: "r \<in> set (md_entries db)" "same_text r r'"
    and e': "md_entries db' = set_row r' db"
    and f': "md_fts db' = (if live_entry r \<and> live_entry r' then md_fts db
      else filter (\<lambda>x. ft_id x \<noteq> me_id r) (md_fts db) @ (if live_entry r' then [fts_of r'] else []))"
    and ret: "retired_entry r \<Longrightarrow> retired_entry r'"
    and a: "md_audit db' = md_audit db @ [a]" "au_memory_id a = me_id r"
      "audit_effect (au_action a) (Some (me_status r)) = Some (me_status r')"
      "au_id a \<notin> au_id ` set (md_audit db)"
  shows "memory_ok db'"
proof -
  note R = same_textD [OF r(2)]
  have d: "distinct (map me_id (md_entries db))" using ok by (simp add: memory_ok_def)
  have S: "set (md_entries db') = insert r' (set (md_entries db) - {r})"
    using set_set_row [OF d r(1)] R e' by simp
  have fts: "set (md_fts db) = fts_of ` {e \<in> set (md_entries db). live_entry e}"
    and fd: "distinct (map ft_id (md_fts db))" using ok by (simp_all add: memory_ok_def)
  have uniq: "e \<in> set (md_entries db) \<Longrightarrow> me_id e = me_id r \<Longrightarrow> e = r" for e
    using d r(1) by (auto simp: distinct_map inj_on_def)
  have F: "set (md_fts db') = fts_of ` {e \<in> set (md_entries db'). live_entry e}"
  proof (cases "live_entry r \<and> live_entry r'")
    case True
    then have "set (md_fts db') = fts_of ` {e \<in> set (md_entries db). live_entry e}" using f' fts by simp
    also have "\<dots> = fts_of ` (insert r {e \<in> set (md_entries db) - {r}. live_entry e})"
      using True r(1) by (intro arg_cong [where f = "\<lambda>X. fts_of ` X"]) auto
    also have "\<dots> = fts_of ` insert r' {e \<in> set (md_entries db) - {r}. live_entry e}"
      using R by simp
    also have "insert r' {e \<in> set (md_entries db) - {r}. live_entry e} = {e \<in> set (md_entries db'). live_entry e}"
      using True unfolding S by auto
    finally show ?thesis .
  next
    case False
    have "{x \<in> fts_of ` {e \<in> set (md_entries db). live_entry e}. ft_id x \<noteq> me_id r}
      = fts_of ` {e \<in> set (md_entries db) - {r}. live_entry e}"
      using uniq by auto
    with False f' fts show ?thesis unfolding S by auto
  qed
  have FD: "distinct (map ft_id (md_fts db'))"
    using fd f' R by (auto simp: distinct_map inj_on_def)
  have E: "well_scoped e \<and> clean_files e \<and> audit_status (me_id e) (md_audit db') = Some (me_status e) \<and>
      (me_supersedes_id e = None \<or> (\<exists>d \<in> set (md_entries db'). replaces e d))"
    if e: "e \<in> set (md_entries db')" for e
  proof -
    obtain e0 where e0: "e0 \<in> set (md_entries db)" "same_text e0 e" "e = (if e0 = r then r' else e0)"
      using e r unfolding S by (cases "e = r'") auto
    have ok0: "well_scoped e0 \<and> clean_files e0 \<and> audit_status (me_id e0) (md_audit db) = Some (me_status e0) \<and>
      (me_supersedes_id e0 = None \<or> (\<exists>d \<in> set (md_entries db). replaces e0 d))"
      using ok e0(1) by (simp add: memory_ok_def)
    have "me_supersedes_id e = None \<or> (\<exists>d \<in> set (md_entries db'). replaces e d)"
    proof (cases "me_supersedes_id e0 = None")
      case False
      with ok0 have "\<exists>d \<in> set (md_entries db). replaces e0 d" by simp
      then obtain d where d: "d \<in> set (md_entries db)" "replaces e0 d" ..
      have "replaces e (if d = r then r' else d)"
        by (rule replaces_same_text [OF e0(2) _ _ d(2)]) (use r(2) ret in auto)
      moreover have "(if d = r then r' else d) \<in> set (md_entries db')" using d(1) unfolding S by auto
      ultimately show ?thesis by blast
    qed (use same_textD [OF e0(2)] in simp)
    moreover have "audit_status (me_id e) (md_audit db') = Some (me_status e)"
    proof (cases "e0 = r")
      case True
      then show ?thesis using ok0 e0(3) a R by (simp add: audit_status_snoc)
    next
      case False
      then have "me_id r \<noteq> me_id e0" using uniq [OF e0(1)] by auto
      then show ?thesis using False ok0 e0(3) a by (simp add: audit_status_snoc)
    qed
    ultimately show ?thesis using ok0 same_textD [OF e0(2)] by simp
  qed
  have ids: "me_id ` set (md_entries db') = me_id ` set (md_entries db)"
    using arg_cong [OF set_row_ids [of r' db], of set] e' by simp
  show ?thesis
    unfolding memory_ok_def
    using ok E F FD ids a r(1) e' by (auto simp: memory_ok_def set_row_ids)
qed

lemma memory_add_ok:
  assumes ok: "memory_ok db" and e: "me_id e \<notin> me_id ` set (md_entries db)" "live_entry e" "well_scoped e"
      "clean_files e" "me_supersedes_id e = None \<or> (\<exists>d \<in> set (md_entries db). replaces e d)"
    and db': "md_entries db' = md_entries db @ [e]" "md_fts db' = md_fts db @ [fts_of e]"
      "md_audit db' = md_audit db @ [a]"
    and a: "au_memory_id a = me_id e" "audit_effect (au_action a) None = Some (me_status e)"
      "au_id a \<notin> au_id ` set (md_audit db)"
  shows "memory_ok db'"
proof -
  have f: "me_id e \<notin> ft_id ` set (md_fts db)" using ok e(1) by (auto simp: memory_ok_def)
  have "me_id e \<notin> au_memory_id ` set (md_audit db)"
    using ok e(1) by (auto simp: memory_ok_def)
  then have n: "audit_status (me_id e) (md_audit db) = None" by (rule audit_status_fresh)
  have o: "audit_status (me_id x) (md_audit db') = audit_status (me_id x) (md_audit db)"
    if "x \<in> set (md_entries db)" for x
    using that e(1) a(1) by (auto simp: db' audit_status_snoc)
  have live: "set (md_fts db') = fts_of ` {x \<in> set (md_entries db'). live_entry x}"
    using ok e(2) by (auto simp: memory_ok_def db')
  have all: "well_scoped x \<and> clean_files x \<and> audit_status (me_id x) (md_audit db') = Some (me_status x) \<and>
      (me_supersedes_id x = None \<or> (\<exists>d \<in> set (md_entries db'). replaces x d))"
    if "x \<in> set (md_entries db')" for x
  proof (cases "x = e")
    case True
    then show ?thesis using e a n by (auto simp: db' audit_status_snoc)
  next
    case False
    then have "x \<in> set (md_entries db)" using that by (simp add: db')
    then show ?thesis using ok o by (auto simp: memory_ok_def db')
  qed
  show ?thesis
    unfolding memory_ok_def
    using ok live all e(1) f a by (auto simp: memory_ok_def db')
qed

lemma memory_change_ok: "memory_change Q N db db' \<Longrightarrow> memory_ok db \<Longrightarrow> memory_ok db'"
proof (induction rule: memory_change.induct)
  case (mc_same db' db)
  then show ?case by (simp add: memory_ok_def)
next
  case (mc_noted db' db a)
  then show ?case by (auto simp: memory_ok_def audit_status_snoc audit_effect_def)
next
  case (mc_update r db r' db' a)
  then show ?case by (rule_tac memory_update_ok) auto
next
  case (mc_add e db db' a)
  then show ?case by (rule_tac memory_add_ok) auto
qed

section \<open>Every operation is such a change\<close>

lemma snd_then_read [simp]: "snd (then_read i r) = snd r"
proof -
  obtain x d where "r = (x, d)" by (cases r)
  then show ?thesis by (cases x) (simp_all add: then_read_def)
qed

lemma find_SomeD: "find P xs = Some x \<Longrightarrow> x \<in> set xs \<and> P x"
  by (induction xs) (auto split: if_splits)

lemma found_row:
  assumes "memory_entry_by_id i db = Inr r"
  obtains r0 where "r0 \<in> set (md_entries db)" "me_id r0 = i" "r = entry_from_row r0"
  using assms by (auto simp: memory_entry_by_id_def split: option.splits dest!: find_SomeD)

lemma entry_from_row_fields [simp]:
  "me_id (entry_from_row r) = me_id r" "me_status (entry_from_row r) = me_status r"
  "me_scope (entry_from_row r) = me_scope r" "me_project_id (entry_from_row r) = me_project_id r"
  "me_thread_id (entry_from_row r) = me_thread_id r" "fts_of (entry_from_row r) = fts_of r"
  "me_supersedes_id (entry_from_row r) = me_supersedes_id r"
  "mp_suspicious_injection (me_privacy_flags (entry_from_row r)) \<longleftrightarrow> quarantined_entry r"
  by (simp_all add: entry_from_row_def Let_def fts_of_def quarantined_entry_def)

lemma insert_entry_fts_alt: "insert_entry_fts e db = db\<lparr>md_fts := md_fts db @ [fts_of e]\<rparr>"
  by (simp add: insert_entry_fts_def fts_of_def)

lemma entry_matches_from_row [simp]:
  "entry_matches_allowed_scope (entry_from_row r) p t = entry_matches_allowed_scope r p t"
  by (cases p; cases "me_scope r"; cases t) (simp_all add: entry_matches_allowed_scope_def)

lemma update_one_row:
  assumes "distinct (map me_id (md_entries db))" "r \<in> set (md_entries db)" "P r"
    and "\<And>x. P x \<Longrightarrow> me_id x = me_id r" "me_id (f r) = me_id r"
  shows "\<exists>n. n \<noteq> 0 \<and> update_rows P f db = (n, db\<lparr>md_entries := set_row (f r) db\<rparr>)"
proof (intro exI conjI)
  let ?n = "length (filter P (md_entries db))"
  show "?n \<noteq> 0" using assms(2,3) by (auto simp: filter_empty_conv)
  have q: "me_id x = me_id r \<longleftrightarrow> x = r" if "x \<in> set (md_entries db)" for x
    using assms(1,2) that by (auto simp: distinct_map inj_on_def)
  have p: "P x \<longleftrightarrow> x = r" if "x \<in> set (md_entries db)" for x
    using assms(3,4) q [OF that] by blast
  have "map (\<lambda>x. if P x then f x else x) (md_entries db) = set_row (f r) db"
    unfolding set_row_def assms(5) by (rule map_cong [OF refl]) (simp add: p q)
  then show "update_rows P f db = (?n, db\<lparr>md_entries := set_row (f r) db\<rparr>)"
    by (simp add: update_rows_def)
qed

lemma audit_insert_cases:
  obtains (taken) e where "insert_audit_event mid action actor now db = (Inl e, db\<lparr>md_counter := md_counter db + 1\<rparr>)"
  | (added) a where "insert_audit_event mid action actor now db
        = (Inr (), db\<lparr>md_counter := md_counter db + 1, md_audit := md_audit db @ [a]\<rparr>)"
      "au_memory_id a = mid" "au_action a = action" "au_id a \<notin> au_id ` set (md_audit db)"
proof (cases "audit_id now (md_counter db) mid action \<in> au_id ` set (md_audit db)")
  case True
  then show ?thesis by (intro taken) (simp add: insert_audit_event_def Let_def)
next
  case False
  then show ?thesis
    by (intro added [of "\<lparr> au_id = audit_id now (md_counter db) mid action, au_memory_id = mid,
        au_action = action, au_actor = actor, au_created_at_ms = now \<rparr>"])
       (simp_all add: insert_audit_event_def Let_def)
qed

lemma audit_effects:
  "audit_effect ''save'' s = Some MemActive" "audit_effect ''propose'' s = Some MemCandidate"
  "audit_effect ''promote'' s = Some MemActive"
  "audit_effect ''promote_quarantined_override'' s = Some MemActive"
  "audit_effect ''supersede_old'' s = Some MemSuperseded" "audit_effect ''supersede_new'' s = Some MemActive"
  "audit_effect ''archive'' s = Some MemArchived" "audit_effect ''unarchive'' s = Some MemActive"
  "audit_effect ''forget'' s = Some MemDeleted" "audit_effect ''reject'' s = Some MemRejected"
  "audit_effect ''pin'' s = s" "audit_effect ''unpin'' s = s"
  by (simp_all add: audit_effect_def)

lemma audited_update:
  assumes "r \<in> set (md_entries db)" "Q r r'" "same_text r r'"
    and "f db = insert_audit_event (me_id r) action actor now mid_db"
    and "md_entries mid_db = set_row r' db" "md_audit mid_db = md_audit db"
    and "md_fts mid_db = (if live_entry r \<and> live_entry r' then md_fts db
      else filter (\<lambda>x. ft_id x \<noteq> me_id r) (md_fts db) @ (if live_entry r' then [fts_of r'] else []))"
    and "retired_entry r \<Longrightarrow> retired_entry r'"
    and "audit_effect action (Some (me_status r)) = Some (me_status r')"
  shows "memory_change Q N db (snd (in_tx f db))"
proof (cases rule: audit_insert_cases [of "me_id r" action actor now mid_db])
  case (taken e)
  then show ?thesis using assms by (auto simp: in_tx_def intro: mc_same)
next
  case (added a)
  then show ?thesis
    using assms by (auto simp: in_tx_def intro!: mc_update [where r = r and r' = r' and a = a])
qed

lemma same_text_updates [simp]:
  "same_text r (r\<lparr>me_status := s, me_inactive_reason := q, me_updated_at_ms := n\<rparr>)"
  "same_text r (r\<lparr>me_pinned := b, me_updated_at_ms := n\<rparr>)"
  by (cases r; simp add: same_text_def)+

lemma memory_ok_distinct: "memory_ok db \<Longrightarrow> distinct (map me_id (md_entries db))"
  by (simp add: memory_ok_def)

lemma promote_change:
  assumes ok: "memory_ok db"
    and Q: "\<And>r r'. me_status r = MemCandidate \<Longrightarrow> me_status r' = MemActive \<Longrightarrow> Q r r'"
  shows "memory_change Q N db (snd (promote_memory_candidate i actor ov now db))"
proof (cases "memory_entry_by_id i db")
  case (Inl e)
  then show ?thesis by (simp add: promote_memory_candidate_def mc_same)
next
  case (Inr r)
  then obtain r0 where r0: "r0 \<in> set (md_entries db)" "me_id r0 = i" "r = entry_from_row r0"
    by (rule found_row)
  consider (other) "me_status r0 \<noteq> MemCandidate" | (blocked) "me_status r0 = MemCandidate" "quarantined_entry r0" "\<not> ov"
    | (promoted) "me_status r0 = MemCandidate" "quarantined_entry r0 \<longrightarrow> ov" by auto
  then show ?thesis
  proof cases
    case other
    then show ?thesis using Inr r0 by (simp add: promote_memory_candidate_def Let_def mc_same)
  next
    case blocked
    show ?thesis
    proof (cases rule: audit_insert_cases [of i "''promote_blocked_quarantine''" actor now db])
      case (taken e)
      then show ?thesis using Inr r0 blocked
        by (simp add: promote_memory_candidate_def Let_def in_tx_def mc_same)
    next
      case (added a)
      have "i \<in> me_id ` set (md_entries db)" using r0 by force
      with added show ?thesis using Inr r0 blocked
        by (auto simp: promote_memory_candidate_def Let_def in_tx_def intro!: mc_noted [of _ db a])
    qed
  next
    case promoted
    let ?f = "\<lambda>r. r\<lparr>me_status := MemActive, me_inactive_reason := None, me_updated_at_ms := now\<rparr>"
    let ?act = "if quarantined_entry r0 then ''promote_quarantined_override'' else ''promote''"
    obtain n where n: "n \<noteq> 0" "update_rows (\<lambda>r. me_id r = i \<and> me_status r = MemCandidate) ?f db
        = (n, db\<lparr>md_entries := set_row (?f r0) db\<rparr>)"
      using update_one_row [OF memory_ok_distinct [OF ok] r0(1), where f = ?f
        and P = "\<lambda>r. me_id r = i \<and> me_status r = MemCandidate"] promoted r0 by auto
    have "memory_change Q N db (snd (in_tx (\<lambda>db. case update_rows (\<lambda>r. me_id r = i \<and> me_status r = MemCandidate) ?f db of
        (n, db) \<Rightarrow> if n = 0 then (Inl (Anyhow (''memory candidate '' @ i @ '' was not promoted'')), db)
          else insert_audit_event i ?act actor now db) db))"
      by (rule audited_update [OF r0(1), where r' = "?f r0" and mid_db = "db\<lparr>md_entries := set_row (?f r0) db\<rparr>"])
         (use n r0 promoted in \<open>auto simp: live_entry_def retired_entry_def audit_effects split: if_split intro: Q\<close>)
    then show ?thesis using Inr r0 promoted by (auto simp: promote_memory_candidate_def Let_def)
  qed
qed

lemma pin_change:
  assumes ok: "memory_ok db"
    and Q: "\<And>r r'. entry_matches_allowed_scope r p t \<Longrightarrow> me_status r = MemActive \<Longrightarrow> me_status r' = MemActive \<Longrightarrow> Q r r'"
  shows "memory_change Q N db (snd (set_memory_entry_pinned_inner i b actor p t now db))"
proof (cases "memory_entry_by_id i db")
  case (Inl e)
  then show ?thesis by (simp add: set_memory_entry_pinned_inner_def mc_same)
next
  case (Inr r)
  then obtain r0 where r0: "r0 \<in> set (md_entries db)" "me_id r0 = i" "r = entry_from_row r0"
    by (rule found_row)
  show ?thesis
  proof (cases "me_status r0 = MemActive \<and> entry_matches_allowed_scope r p t")
    case False
    then show ?thesis using Inr r0 by (auto simp: set_memory_entry_pinned_inner_def mc_same)
  next
    case True
    let ?f = "\<lambda>r. r\<lparr>me_pinned := b, me_updated_at_ms := now\<rparr>"
    obtain n where n: "n \<noteq> 0" "update_rows (\<lambda>r. me_id r = i) ?f db = (n, db\<lparr>md_entries := set_row (?f r0) db\<rparr>)"
      using update_one_row [OF memory_ok_distinct [OF ok] r0(1), where f = ?f and P = "\<lambda>r. me_id r = i"] r0 by auto
    have "memory_change Q N db (snd (in_tx (\<lambda>db. case update_rows (\<lambda>r. me_id r = i) ?f db of
        (n, db) \<Rightarrow> if n = 0 then (Inl (Anyhow (''memory entry '' @ i @ '' does not exist'')), db)
          else insert_audit_event i (if b then ''pin'' else ''unpin'') actor now db) db))"
      by (rule audited_update [OF r0(1), where r' = "?f r0" and mid_db = "db\<lparr>md_entries := set_row (?f r0) db\<rparr>"])
         (use n r0 True in \<open>auto simp: live_entry_def retired_entry_def audit_effects split: if_split intro: Q\<close>)
    then show ?thesis using Inr r0 True by (simp add: set_memory_entry_pinned_inner_def)
  qed
qed

lemma transition_change:
  assumes ok: "memory_ok db"
    and Q: "\<And>r r'. entry_matches_allowed_scope r p t \<Longrightarrow> me_status r = expected \<Longrightarrow> me_status r' = target \<Longrightarrow> Q r r'"
    and legal: "expected = MemActive \<and> target = MemArchived \<and> action = ''archive'' \<or>
      expected = MemArchived \<and> target = MemActive \<and> action = ''unarchive''"
  shows "memory_change Q N db
    (snd (transition_memory_entry_archive_state i expected target reason action actor p t now db))"
proof (cases "memory_entry_by_id i db")
  case (Inl e)
  then show ?thesis by (simp add: transition_memory_entry_archive_state_def mc_same)
next
  case (Inr r)
  then obtain r0 where r0: "r0 \<in> set (md_entries db)" "me_id r0 = i" "r = entry_from_row r0"
    by (rule found_row)
  show ?thesis
  proof (cases "me_status r0 = expected \<and> entry_matches_allowed_scope r p t")
    case False
    then show ?thesis using Inr r0 by (auto simp: transition_memory_entry_archive_state_def mc_same)
  next
    case True
    let ?P = "\<lambda>r. me_id r = i \<and> me_status r = expected"
    let ?f = "\<lambda>r. r\<lparr>me_status := target, me_inactive_reason := reason, me_updated_at_ms := now\<rparr>"
    let ?del = "\<lambda>db. let db = delete_entry_fts i db; db = (if target = MemActive then insert_entry_fts r db else db)
      in insert_audit_event i action actor now db"
    obtain n where n: "n \<noteq> 0" "update_rows ?P ?f db = (n, db\<lparr>md_entries := set_row (?f r0) db\<rparr>)"
      using update_one_row [OF memory_ok_distinct [OF ok] r0(1), where f = ?f and P = ?P] r0 True by auto
    have "fts_of (?f r0) = fts_of r0" by (simp add: fts_of_def)
    then have "memory_change Q N db (snd (in_tx (\<lambda>db. case update_rows ?P ?f db of
        (n, db) \<Rightarrow> if n = 0 then (Inl (Anyhow (''memory entry '' @ i @ '' was not '' @ action @ ''d'')), db)
          else ?del db) db))"
      by (intro audited_update [OF r0(1), where r' = "?f r0" and action = action and actor = actor
            and now = now and mid_db = "(let db = delete_entry_fts i (db\<lparr>md_entries := set_row (?f r0) db\<rparr>)
              in if target = MemActive then insert_entry_fts r db else db)"])
         (use n r0 True legal in \<open>auto simp: live_entry_def retired_entry_def audit_effects Let_def
            delete_entry_fts_def insert_entry_fts_alt intro: Q\<close>)
    moreover have "me_status r = expected" using r0(3) True by simp
    ultimately show ?thesis using Inr True
      by (simp add: transition_memory_entry_archive_state_def)
  qed
qed

lemma reject_change:
  assumes ok: "memory_ok db"
    and Q: "\<And>r r'. entry_matches_allowed_scope r p t \<Longrightarrow> me_status r = MemCandidate \<Longrightarrow> me_status r' = MemRejected \<Longrightarrow> Q r r'"
  shows "memory_change Q N db (snd (reject_memory_candidate_with_scope i actor p t now db))"
proof (cases "memory_entry_by_id i db")
  case (Inl e)
  then show ?thesis by (simp add: reject_memory_candidate_with_scope_def mc_same)
next
  case (Inr r)
  then obtain r0 where r0: "r0 \<in> set (md_entries db)" "me_id r0 = i" "r = entry_from_row r0"
    by (rule found_row)
  show ?thesis
  proof (cases "me_status r0 = MemCandidate \<and> entry_matches_allowed_scope r p t")
    case False
    then show ?thesis using Inr r0 by (auto simp: reject_memory_candidate_with_scope_def mc_same)
  next
    case True
    let ?P = "\<lambda>r. me_id r = i \<and> me_status r = MemCandidate"
    let ?f = "\<lambda>r. r\<lparr>me_status := MemRejected, me_inactive_reason := Some ''candidate_rejected'',
      me_updated_at_ms := now\<rparr>"
    obtain n where n: "n \<noteq> 0" "update_rows ?P ?f db = (n, db\<lparr>md_entries := set_row (?f r0) db\<rparr>)"
      using update_one_row [OF memory_ok_distinct [OF ok] r0(1), where f = ?f and P = ?P] r0 True by auto
    have "memory_change Q N db (snd (in_tx (\<lambda>db. case update_rows ?P ?f db of
        (n, db) \<Rightarrow> if n = 0 then (Inl (Anyhow (''memory candidate '' @ i @ '' was not rejected'')), db)
          else insert_audit_event i ''reject'' actor now (delete_entry_fts i db)) db))"
      by (intro audited_update [OF r0(1), where r' = "?f r0" and action = "''reject''" and actor = actor
            and now = now and mid_db = "delete_entry_fts i (db\<lparr>md_entries := set_row (?f r0) db\<rparr>)"])
         (use n r0 True in \<open>auto simp: live_entry_def retired_entry_def audit_effects delete_entry_fts_def intro: Q\<close>)
    then show ?thesis using Inr r0 True by (simp add: reject_memory_candidate_with_scope_def)
  qed
qed

definition forget_matches :: "string \<Rightarrow> string option \<Rightarrow> thread_id option \<Rightarrow> memory_entry \<Rightarrow> bool" where
  "forget_matches i project thread r \<longleftrightarrow> me_id r = i \<and> (case project of
       None \<Rightarrow> True
     | Some p \<Rightarrow> me_scope r = ProjectScope \<and> me_project_id r = Some p \<or>
         (case thread of None \<Rightarrow> False
          | Some t \<Rightarrow> me_scope r = ThreadScope \<and> me_project_id r = Some p \<and> me_thread_id r = Some t))"

lemma forget_change:
  assumes ok: "memory_ok db"
    and Q: "\<And>r r'. forget_matches i p t r \<Longrightarrow> me_status r' = MemDeleted \<Longrightarrow> Q r r'"
  shows "memory_change Q N db (snd (forget_memory_entry_with_scope i actor p t now db))"
proof -
  let ?P = "forget_matches i p t"
  let ?f = "\<lambda>r. r\<lparr>me_status := MemDeleted, me_inactive_reason := Some ''user_forget'', me_updated_at_ms := now\<rparr>"
  let ?g = "\<lambda>db. case update_rows ?P ?f db of (n, db) \<Rightarrow>
      if n = 0 then (Inl (Anyhow (''memory entry '' @ i @ '' does not exist'')), db)
      else insert_audit_event i ''forget'' actor now (delete_entry_fts i db)"
  have g: "forget_memory_entry_with_scope i actor p t now = in_tx ?g"
    by (simp add: forget_memory_entry_with_scope_def forget_matches_def [abs_def])
  show ?thesis
  proof (cases "\<exists>r \<in> set (md_entries db). ?P r")
    case False
    then have "filter ?P (md_entries db) = []" by (simp add: filter_empty_conv)
    then have "fst (update_rows ?P ?f db) = 0" "md_entries (snd (update_rows ?P ?f db)) = md_entries db"
      using False by (auto simp: update_rows_def intro: map_idI)
    then show ?thesis unfolding g
      by (intro mc_same) (simp_all add: in_tx_def case_prod_unfold)
  next
    case True
    then obtain r0 where r0: "r0 \<in> set (md_entries db)" "?P r0" by blast
    then have i: "me_id r0 = i" by (simp add: forget_matches_def)
    obtain n where n: "n \<noteq> 0" "update_rows ?P ?f db = (n, db\<lparr>md_entries := set_row (?f r0) db\<rparr>)"
      using update_one_row [OF memory_ok_distinct [OF ok] r0(1), where f = ?f and P = ?P] r0 i
      by (auto simp: forget_matches_def)
    show ?thesis unfolding g
      by (intro audited_update [OF r0(1), where r' = "?f r0" and action = "''forget''" and actor = actor
            and now = now and mid_db = "delete_entry_fts i (db\<lparr>md_entries := set_row (?f r0) db\<rparr>)"])
         (use n i r0(2) in \<open>auto simp: live_entry_def retired_entry_def audit_effects delete_entry_fts_def intro: Q\<close>)
  qed
qed

text \<open>A new entry, with its row in the index and its event.\<close>

lemma audited_insert:
  assumes e: "N e" "live_entry e" "well_scoped e" "clean_files e"
      "me_supersedes_id e = None \<or> (\<exists>d \<in> set (md_entries db). replaces e d)"
    and act: "audit_effect action None = Some (me_status e)"
  shows "memory_change Q N db (snd (in_tx (\<lambda>db. then_tx (insert_entry e db) (\<lambda>db.
      insert_audit_event (me_id e) action actor now (insert_entry_fts e db))) db))"
proof (cases "me_id e \<in> me_id ` set (md_entries db)")
  case True
  then show ?thesis by (simp add: in_tx_def then_tx_def insert_entry_def mc_same)
next
  case False
  let ?db = "insert_entry_fts e (db\<lparr>md_entries := md_entries db @ [e]\<rparr>)"
  show ?thesis
  proof (cases rule: audit_insert_cases [of "me_id e" action actor now ?db])
    case (taken x)
    then show ?thesis using False by (simp add: in_tx_def then_tx_def insert_entry_def mc_same)
  next
    case (added a)
    show ?thesis
      by (rule mc_add [where e = e and a = a])
         (use False e act added in \<open>simp_all add: in_tx_def then_tx_def insert_entry_def insert_entry_fts_alt\<close>)
  qed
qed

lemma sanitized_files_clean: "list_all (\<lambda>p. \<not> is_sensitive_memory_path p) (si_files (store_input i))"
  by (simp add: store_input_def Let_def case_prod_unfold sanitize_memory_files_def list_all_iff)

lemma memory_change_counter: "memory_change Q N (db\<lparr>md_counter := n\<rparr>) db' \<longleftrightarrow> memory_change Q N db db'"
  by (simp add: memory_change.simps set_row_def)

lemma insert_change:
  assumes N: "\<And>e. me_scope e = mi_scope i \<Longrightarrow> me_project_id e = p \<Longrightarrow> me_thread_id e = t \<Longrightarrow>
      me_created_by e = actor \<Longrightarrow> me_supersedes_id e = None \<Longrightarrow> me_status e = status \<Longrightarrow> N e"
  shows "memory_change Q N db (snd (insert_memory_entry p t i actor status now db))"
proof -
  consider (bad) e where "validate_memory_write_scope (mi_scope i) p t = Inl e"
    | (status) "validate_memory_write_scope (mi_scope i) p t = Inr ()" "status \<noteq> MemActive" "status \<noteq> MemCandidate"
    | (ok) "validate_memory_write_scope (mi_scope i) p t = Inr ()" "status = MemActive \<or> status = MemCandidate"
    by (cases "validate_memory_write_scope (mi_scope i) p t") auto
  then show ?thesis
  proof cases
    case bad
    then show ?thesis by (simp add: insert_memory_entry_def mc_same)
  next
    case status
    then show ?thesis by (simp add: insert_memory_entry_def Let_def mc_same)
  next
    case ok
    define s where "s = store_input i"
    define e where "e = new_row (memory_id now (md_counter db) (si_title s)) i s p t (mi_source_refs i)
      (if status = MemActive then 90 else 60) status None (mp_suspicious_injection (si_flags s)) actor now"
    have m: "me_id e = memory_id now (md_counter db) (si_title s)" by (simp add: e_def new_row_def)
    have "memory_change Q N (db\<lparr>md_counter := md_counter db + 1\<rparr>)
      (snd (in_tx (\<lambda>db. then_tx (insert_entry e db) (\<lambda>db. insert_audit_event (me_id e)
        (if status = MemActive then ''save'' else ''propose'') actor now (insert_entry_fts e db)))
        (db\<lparr>md_counter := md_counter db + 1\<rparr>)))"
      by (rule audited_insert)
         (use ok sanitized_files_clean [of i] in \<open>auto simp: e_def new_row_def s_def live_entry_def
            well_scoped_def clean_files_def audit_effects intro: N\<close>)
    then have "memory_change Q N db
      (snd (in_tx (\<lambda>db. then_tx (insert_entry e db) (\<lambda>db. insert_audit_event (me_id e)
        (if status = MemActive then ''save'' else ''propose'') actor now (insert_entry_fts e db)))
        (db\<lparr>md_counter := md_counter db + 1\<rparr>)))"
      by (simp only: memory_change_counter)
    moreover have "snd (insert_memory_entry p t i actor status now db) = snd (in_tx (\<lambda>db.
        then_tx (insert_entry e db) (\<lambda>db. insert_audit_event (me_id e)
        (if status = MemActive then ''save'' else ''propose'') actor now (insert_entry_fts e db)))
        (db\<lparr>md_counter := md_counter db + 1\<rparr>))"
      using ok(2) unfolding insert_memory_entry_def ok(1) sum.case Let_def m
      unfolding e_def s_def by auto
    ultimately show ?thesis by simp
  qed
qed

lemma in_tx_failed: "f db = (Inl e, db') \<Longrightarrow> memory_change Q N db (snd (in_tx f db))"
  by (simp add: in_tx_def mc_same)

lemma in_tx_done: "f db = (Inr x, db') \<Longrightarrow> snd (in_tx f db) = db'"
  by (simp add: in_tx_def)

text \<open>A replacement is two changes: the old entry is retired, the new one is added.\<close>

lemma replace_change:
  assumes ok: "memory_ok db" and r: "r \<in> set (md_entries db)" "me_status r = MemActive"
    and r': "same_text r r'" "me_status r' = MemSuperseded" and QN: "Q r r'" "N e"
    and e: "live_entry e" "well_scoped e" "clean_files e" "me_status e = MemActive" "replaces e r'"
    and f: "f db = then_tx (insert_entry e (delete_entry_fts (me_id r) (db\<lparr>md_entries := set_row r' db\<rparr>)))
      (\<lambda>db. then_tx (insert_audit_event (me_id r) ''supersede_old'' actor now (insert_entry_fts e db))
         (insert_audit_event (me_id e) ''supersede_new'' actor now))"
  shows "(memory_change Q N)\<^sup>*\<^sup>* db (snd (in_tx f db))"
proof -
  note R = same_textD [OF r'(1)]
  let ?d = "delete_entry_fts (me_id r) (db\<lparr>md_entries := set_row r' db\<rparr>)"
  have ids: "me_id ` set (md_entries ?d) = me_id ` set (md_entries db)"
    using arg_cong [OF set_row_ids [of r' db], of set] by (simp add: delete_entry_fts_def)
  show ?thesis
  proof (cases "me_id e \<in> me_id ` set (md_entries ?d)")
    case True
    then have "f db = (Inl (unique_failed ''memory_entries.id''), ?d)"
      by (simp add: f then_tx_def insert_entry_def)
    then show ?thesis by (intro r_into_rtranclp in_tx_failed)
  next
    case new: False
    let ?d1 = "insert_entry_fts e (?d\<lparr>md_entries := md_entries ?d @ [e]\<rparr>)"
    have f1: "f db = then_tx (insert_audit_event (me_id r) ''supersede_old'' actor now ?d1)
         (insert_audit_event (me_id e) ''supersede_new'' actor now)"
      using new by (simp add: f then_tx_def insert_entry_def)
    show ?thesis
    proof (cases rule: audit_insert_cases [of "me_id r" "''supersede_old''" actor now ?d1])
      case (taken x)
      then show ?thesis
        by (intro r_into_rtranclp in_tx_failed [of f db x]) (simp add: f1 then_tx_def)
    next
      case a: (added a)
      let ?d2 = "?d1\<lparr>md_counter := md_counter ?d1 + 1, md_audit := md_audit ?d1 @ [a]\<rparr>"
      have f2: "f db = insert_audit_event (me_id e) ''supersede_new'' actor now ?d2"
        using a by (simp add: f1 then_tx_def)
      show ?thesis
      proof (cases rule: audit_insert_cases [of "me_id e" "''supersede_new''" actor now ?d2])
        case (taken x)
        then show ?thesis by (intro r_into_rtranclp in_tx_failed) (simp add: f2)
      next
        case b: (added b)
        let ?final = "?d2\<lparr>md_counter := md_counter ?d2 + 1, md_audit := md_audit ?d2 @ [b]\<rparr>"
        let ?mid = "?d\<lparr>md_audit := md_audit db @ [a]\<rparr>"
        have "memory_change Q N db ?mid"
          by (rule mc_update [where r = r and r' = r' and a = a])
             (use r r' R QN a in \<open>auto simp: live_entry_def retired_entry_def audit_effects
                delete_entry_fts_def insert_entry_fts_alt\<close>)
        moreover have "memory_change Q N ?mid ?final"
        proof (rule mc_add [where e = e and a = b])
          have "r' \<in> set (md_entries ?mid)"
            using set_set_row [OF memory_ok_distinct [OF ok] r(1)] R by (simp add: delete_entry_fts_def)
          then show "me_supersedes_id e = None \<or> (\<exists>d \<in> set (md_entries ?mid). replaces e d)"
            using e(5) by blast
          show "au_id b \<notin> au_id ` set (md_audit ?mid)"
            using b by (simp add: delete_entry_fts_def insert_entry_fts_alt)
        qed (use new e QN b in \<open>simp_all add: delete_entry_fts_def insert_entry_fts_alt audit_effects\<close>)
        moreover have "snd (in_tx f db) = ?final"
          by (rule in_tx_done [of f db "()"]) (use b in \<open>simp add: f2\<close>)
        ultimately show ?thesis
          by (metis converse_rtranclp_into_rtranclp r_into_rtranclp)
      qed
    qed
  qed
qed

lemma memory_change_counter_star:
  "(memory_change Q N)\<^sup>*\<^sup>* (db\<lparr>md_counter := n\<rparr>) db' \<Longrightarrow> (memory_change Q N)\<^sup>*\<^sup>* db db'"
proof -
  assume "(memory_change Q N)\<^sup>*\<^sup>* (db\<lparr>md_counter := n\<rparr>) db'"
  moreover have "memory_change Q N db (db\<lparr>md_counter := n\<rparr>)" by (simp add: mc_same)
  ultimately show ?thesis by (rule converse_rtranclp_into_rtranclp [rotated])
qed

lemma memory_ok_counter [simp]: "memory_ok (db\<lparr>md_counter := n\<rparr>) = memory_ok db"
  by (simp add: memory_ok_def)

lemma supersede_change:
  assumes ok: "memory_ok db"
    and Q: "\<And>r r'. entry_matches_allowed_scope r p t \<Longrightarrow> me_status r = MemActive \<Longrightarrow> me_status r' = MemSuperseded \<Longrightarrow> Q r r'"
    and N: "\<And>r e. entry_matches_allowed_scope r p t \<Longrightarrow> me_id r = old_id \<Longrightarrow> me_scope e = me_scope r \<Longrightarrow>
      me_project_id e = me_project_id r \<Longrightarrow> me_thread_id e = me_thread_id r \<Longrightarrow> me_created_by e = actor \<Longrightarrow>
      me_supersedes_id e = Some old_id \<Longrightarrow> me_status e = MemActive \<Longrightarrow> N e"
  shows "(memory_change Q N)\<^sup>*\<^sup>* db (snd (supersede_memory_entry_inner old_id i actor p t now db))"
proof (cases "memory_entry_by_id old_id db")
  case (Inl e)
  then show ?thesis by (simp add: supersede_memory_entry_inner_def)
next
  case (Inr old)
  then obtain r where r: "r \<in> set (md_entries db)" "me_id r = old_id" "old = entry_from_row r"
    by (rule found_row)
  show ?thesis
  proof (cases "me_status old = MemActive \<and> entry_matches_allowed_scope old p t \<and> mi_scope i = me_scope old \<and>
      validate_memory_write_scope (mi_scope i) (me_project_id old) (me_thread_id old) = Inr ()")
    case False
    then have "snd (supersede_memory_entry_inner old_id i actor p t now db) = db"
      using Inr by (auto simp: supersede_memory_entry_inner_def split: sum.splits)
    then show ?thesis by simp
  next
    case True
    define s where "s = store_input i"
    define new_id where "new_id = memory_id now (md_counter db) (si_title s)"
    define susp where "susp \<longleftrightarrow> mp_suspicious_injection (si_flags s) \<or> mp_suspicious_injection (me_privacy_flags old)"
    define e where "e = new_row new_id i s (me_project_id old) (me_thread_id old)
      (merge_source_refs [] (me_source_refs old @ mi_source_refs i)) 90 MemActive (Some old_id) susp actor now"
    let ?P = "\<lambda>r. me_id r = old_id \<and> me_status r = MemActive"
    let ?u = "\<lambda>r. r\<lparr>me_status := MemSuperseded, me_inactive_reason := Some (''superseded_by:'' @ new_id),
      me_updated_at_ms := now\<rparr>"
    let ?f = "\<lambda>db. case update_rows ?P ?u db of (n, db) \<Rightarrow>
      if n = 0 then (Inl (Anyhow (''memory entry '' @ old_id @ '' was not superseded'')), db)
      else then_tx (insert_entry e (delete_entry_fts old_id db)) (\<lambda>db.
        then_tx (insert_audit_event old_id ''supersede_old'' actor now (insert_entry_fts e db))
          (insert_audit_event new_id ''supersede_new'' actor now))"
    let ?db = "db\<lparr>md_counter := md_counter db + 1\<rparr>"
    have st: "me_status r = MemActive" using True r(3) by simp
    obtain n where n: "n \<noteq> 0" "update_rows ?P ?u ?db = (n, ?db\<lparr>md_entries := set_row (?u r) ?db\<rparr>)"
      using update_one_row [of ?db r ?P ?u] memory_ok_distinct [OF ok] r st by auto
    have id: "me_id e = new_id" by (simp add: e_def new_row_def)
    have q: "quarantined_entry (?u r) = quarantined_entry r" by (simp add: quarantined_entry_def)
    have "(memory_change Q N)\<^sup>*\<^sup>* ?db (snd (in_tx ?f ?db))"
    proof (rule replace_change [where db = ?db and r = r and r' = "?u r" and e = e and f = ?f and actor = actor and now = now])
      show "well_scoped e" using True r by (auto simp: well_scoped_def e_def new_row_def)
      show "clean_files e"
        using sanitized_files_clean [of i] by (simp add: clean_files_def e_def new_row_def s_def)
      show "replaces e (?u r)"
        unfolding replaces_def q using True r
        by (auto simp: e_def new_row_def retired_entry_def quarantined_entry_def susp_def)
      show "?f ?db = then_tx (insert_entry e (delete_entry_fts (me_id r) (?db\<lparr>md_entries := set_row (?u r) ?db\<rparr>)))
        (\<lambda>db. then_tx (insert_audit_event (me_id r) ''supersede_old'' actor now (insert_entry_fts e db))
           (insert_audit_event (me_id e) ''supersede_new'' actor now))"
        using n by (simp add: r(2) id)
      show "Q r (?u r)" by (rule Q) (use True r st in simp_all)
      show "N e" by (rule N [of r]) (use True r in \<open>simp_all add: e_def new_row_def\<close>)
    qed (use ok r st in \<open>simp_all add: live_entry_def e_def new_row_def\<close>)
    then have "(memory_change Q N)\<^sup>*\<^sup>* db (snd (in_tx ?f ?db))" by (rule memory_change_counter_star)
    moreover have "snd (supersede_memory_entry_inner old_id i actor p t now db) = snd (in_tx ?f ?db)"
      using True
      unfolding supersede_memory_entry_inner_def Inr conjunct2 [OF conjunct2 [OF conjunct2 [OF True]]] sum.case Let_def e_def new_id_def s_def susp_def
      by simp
    ultimately show ?thesis by simp
  qed
qed

lemma memory_changes_ok: "(memory_change Q N)\<^sup>*\<^sup>* db db' \<Longrightarrow> memory_ok db \<Longrightarrow> memory_ok db'"
  by (induction rule: rtranclp_induct) (auto intro: memory_change_ok)

abbreviation any_change :: "memory_db \<Rightarrow> memory_db \<Rightarrow> bool" where
  "any_change \<equiv> memory_change (\<lambda>_ _. True) (\<lambda>_. True)"

lemma memory_op_changes: "memory_ok db \<Longrightarrow> any_change\<^sup>*\<^sup>* db (apply_memory_op now oper db)"
  by (cases oper)
     (auto simp: save_memory_entry_for_scope_def propose_memory_candidate_def
        archive_memory_entry_with_scope_def unarchive_memory_entry_with_scope_def
        intro: r_into_rtranclp insert_change promote_change pin_change transition_change forget_change
          reject_change supersede_change)

lemma memory_step_changes: "memory_ok db \<Longrightarrow> any_change\<^sup>*\<^sup>* db (apply_memory_step st db)"
  by (cases st) (simp_all add: memory_op_changes r_into_rtranclp mc_same)

lemma memory_run_ok: "memory_ok (memory_run steps)"
  unfolding memory_run_def
proof (induction steps rule: rev_induct)
  case Nil
  then show ?case by (simp add: memory_ok_empty)
next
  case (snoc st steps)
  then show ?case using memory_changes_ok [OF memory_step_changes] by simp
qed

text \<open>C0: After any sequence of operations on the memory store, failed ones and restarts of the process
  included, identifiers are unique, the full-text index holds exactly the rows of the candidates and
  active entries, every entry belongs to a legal scope and names no sensitive file, and an entry that
  replaces another has the scope of the retired one and inherits its quarantine.\<close>

theorem memory_store_invariant:
  "let db = memory_run steps
   in distinct (map me_id (md_entries db)) \<and> distinct (map ft_id (md_fts db)) \<and>
      set (md_fts db) = fts_of ` {e \<in> set (md_entries db). live_entry e} \<and>
      list_all (\<lambda>e. well_scoped e \<and> clean_files e \<and>
        (me_supersedes_id e = None \<or> list_ex (replaces e) (md_entries db))) (md_entries db)"
  using memory_run_ok [of steps]
  by (simp add: memory_ok_def Let_def list_all_iff list_ex_iff)

text \<open>C0: The audit log explains the store: replaying the actions on an entry gives its status,
  after any sequence of operations, and every event is about an entry that exists.\<close>

theorem audit_explains_status:
  "let db = memory_run steps
   in list_all (\<lambda>e. audit_status (me_id e) (md_audit db) = Some (me_status e)) (md_entries db) \<and>
      list_all (\<lambda>a. au_memory_id a \<in> me_id ` set (md_entries db)) (md_audit db) \<and>
      distinct (map au_id (md_audit db))"
  using memory_run_ok [of steps]
  by (simp add: memory_ok_def Let_def list_all_iff)

lemma retired_change:
  "memory_change Q N db db' \<Longrightarrow> memory_ok db \<Longrightarrow> e \<in> set (md_entries db) \<Longrightarrow> retired_entry e \<Longrightarrow>
   \<exists>e' \<in> set (md_entries db'). me_id e' = me_id e \<and> retired_entry e'"
proof (induction rule: memory_change.induct)
  case (mc_update r db r' db' a)
  note R = same_textD [OF mc_update.hyps(3)]
  have "set (md_entries db') = insert r' (set (md_entries db) - {r})"
    using set_set_row [OF memory_ok_distinct [OF mc_update.prems(1)] mc_update.hyps(1)] R mc_update.hyps(4) by simp
  then show ?case using mc_update R by (cases "e = r") auto
qed auto

lemma retired_changes:
  "(memory_change Q N)\<^sup>*\<^sup>* db db' \<Longrightarrow> memory_ok db \<Longrightarrow> e \<in> set (md_entries db) \<Longrightarrow> retired_entry e \<Longrightarrow>
   \<exists>e' \<in> set (md_entries db'). me_id e' = me_id e \<and> retired_entry e'"
proof (induction rule: rtranclp_induct)
  case base
  then show ?case by blast
next
  case (step db' db'')
  then obtain e' where "e' \<in> set (md_entries db')" "me_id e' = me_id e" "retired_entry e'" by blast
  with retired_change [OF step.hyps(2) memory_changes_ok [OF step.hyps(1) step.prems(1)]]
  show ?case by metis
qed

text \<open>C0: What was superseded or forgotten stays so: whatever happens later, the entry is never in
  the index again and never active.\<close>

theorem retired_never_returns:
  assumes "e \<in> set (md_entries (memory_run xs))" "retired_entry e"
  shows "(\<exists>e' \<in> set (md_entries (memory_run (xs @ ys))). me_id e' = me_id e \<and> retired_entry e') \<and>
    me_id e \<notin> ft_id ` set (md_fts (memory_run (xs @ ys)))"
proof -
  have "any_change\<^sup>*\<^sup>* (memory_run xs) (memory_run (xs @ ys))"
  proof (induction ys rule: rev_induct)
    case (snoc y ys)
    have "memory_run (xs @ ys @ [y]) = apply_memory_step y (memory_run (xs @ ys))"
      by (simp add: memory_run_def)
    with snoc memory_step_changes [OF memory_run_ok, of "xs @ ys" y] show ?case
      by (metis rtranclp_trans)
  qed simp
  from retired_changes [OF this memory_run_ok assms]
  obtain e' where e': "e' \<in> set (md_entries (memory_run (xs @ ys)))" "me_id e' = me_id e" "retired_entry e'"
    by blast
  have "me_id e \<notin> ft_id ` set (md_fts (memory_run (xs @ ys)))"
  proof
    assume "me_id e \<in> ft_id ` set (md_fts (memory_run (xs @ ys)))"
    then obtain d where d: "d \<in> set (md_entries (memory_run (xs @ ys)))" "live_entry d" "me_id d = me_id e"
      using memory_run_ok [of "xs @ ys"] by (auto simp: memory_ok_def)
    then have "d = e'"
      using e' memory_ok_distinct [OF memory_run_ok, of "xs @ ys"] by (auto simp: distinct_map inj_on_def)
    then show False using d(2) e'(3) by (auto simp: live_entry_def retired_entry_def)
  qed
  with e' show ?thesis by blast
qed

definition sample_input :: memory_input where
  "sample_input = \<lparr> mi_scope = GlobalScope, mi_kind = FactMemory, mi_title = ''a'', mi_content = ''b'',
     mi_files = [], mi_concepts = [], mi_source_refs = [], mi_pinned = False \<rparr>"

definition sample_saved :: memory_db where
  "sample_saved = memory_run [MsOp 5 (MoSave None None sample_input ''desktop'')]"

definition sample_id :: string where
  "sample_id = memory_id 5 0 (si_title (store_input sample_input))"

definition sample_steps :: "memory_step list" where
  "sample_steps = [MsOp 5 (MoSave None None sample_input ''desktop''),
     MsOp 6 (MoForget sample_id ''desktop'' None None)]"

lemma sample_run:
  "map (\<lambda>e. (me_id e, me_status e)) (md_entries (memory_run sample_steps)) = [(sample_id, MemDeleted)]"
proof -
  have n: "show_int 5 = ''5''" "show_int 6 = ''6''" by code_simp+
  have d: "audit_id 6 j m x \<noteq> audit_id 5 k m y" for j k m x y
    by (simp add: audit_id_def n)
  have v: "validate_memory_write_scope (mi_scope sample_input) None None = Inr ()"
    by (simp add: validate_memory_write_scope_def sample_input_def)
  show ?thesis
    unfolding memory_run_def sample_steps_def fold.simps comp_def id_apply apply_memory_step.simps
      apply_memory_op.simps save_memory_entry_for_scope_def insert_memory_entry_def v sum.case Let_def
    by (simp add: d empty_memory_db_def in_tx_def then_tx_def insert_entry_def new_row_def
        insert_audit_event_def insert_entry_fts_def forget_memory_entry_with_scope_def update_rows_def
        delete_entry_fts_def sample_id_def)
qed

theorem retired_never_returns_witness:
  "\<exists>e \<in> set (md_entries (memory_run sample_steps)). retired_entry e \<and>
     me_id e \<notin> ft_id ` set (md_fts (memory_run (sample_steps @ [MsRestart])))"
proof -
  obtain e where e: "e \<in> set (md_entries (memory_run sample_steps))" "me_status e = MemDeleted"
    using sample_run by (cases "md_entries (memory_run sample_steps)") auto
  then have "retired_entry e" by (simp add: retired_entry_def)
  with e(1) retired_never_returns [OF e(1) this, of "[MsRestart]"] show ?thesis by blast
qed

end
