(* ===== verification/MemoryRecall.thy ===== *)
theory MemoryRecall
  imports MemoryStore Workspace
begin

text \<open>
  What is read from the memory store, and what of it reaches the model: the queries of
  \<^verbatim>\<open>src/state/memory/store.rs\<close>, the ranking (\<^verbatim>\<open>ranker.rs\<close>), the check for stale
  references (\<^verbatim>\<open>code_awareness.rs\<close>), the terms of a query (\<^verbatim>\<open>query.rs\<close>, in part) and the
  rendering of a context (\<^verbatim>\<open>src/runtime/memory/context.rs\<close>). The full-text engine and the
  floating-point score are parameters: the score is the integer that \<^verbatim>\<open>f64::total_cmp\<close> compares.
  Rows that a query leaves in no order keep the order of insertion.
\<close>

section \<open>Queries\<close>

datatype recall_mode = AutoInject | ToolPull | DesktopInspect

record memory_query =
  mq_scope :: memory_scope
  mq_project_id :: "string option"
  mq_thread_id :: "thread_id option"
  mq_query :: string
  mq_mode :: recall_mode
  mq_limit :: nat
  mq_include_entries :: bool

record memory_hit =
  mh_source_id :: string
  mh_scope :: memory_scope
  mh_kind :: string
  mh_title :: string
  mh_body :: string
  mh_files :: "string list"
  mh_code_refs :: "code_ref list"
  mh_concepts :: "string list"
  mh_source_refs :: "source_ref list"
  mh_confidence :: nat
  mh_stale :: bool
  mh_quarantined :: bool
  mh_pinned :: bool
  mh_status :: "memory_status option"
  mh_supersedes_id :: "string option"
  mh_use_count :: int
  mh_thread_id :: "thread_id option"

definition memory_entry_hit_from_row :: "memory_entry \<Rightarrow> memory_hit" where
  "memory_entry_hit_from_row row =
     (let e = entry_from_row row
      in \<lparr> mh_source_id = me_id e, mh_scope = me_scope e, mh_kind = memory_kind_as_str (me_kind e),
           mh_title = me_title e, mh_body = me_content e, mh_files = me_files e,
           mh_code_refs = me_code_refs e, mh_concepts = me_concepts e, mh_source_refs = me_source_refs e,
           mh_confidence = me_confidence e, mh_stale = False,
           mh_quarantined = mp_suspicious_injection (me_privacy_flags e), mh_pinned = me_pinned e,
           mh_status = Some (me_status e), mh_supersedes_id = me_supersedes_id e,
           mh_use_count = me_use_count e, mh_thread_id = me_thread_id e \<rparr>)"

definition clamp_nat :: "nat \<Rightarrow> nat \<Rightarrow> nat \<Rightarrow> nat" where
  "clamp_nat lo hi n = min hi (max lo n)"

fun duplicate_rank :: "memory_status \<Rightarrow> nat" where
  "duplicate_rank MemActive = 0"
| "duplicate_rank MemCandidate = 1"
| "duplicate_rank MemRejected = 2"
| "duplicate_rank _ = 3"

definition find_duplicate_memory_candidate_or_entry ::
  "string option \<Rightarrow> thread_id option \<Rightarrow> memory_input \<Rightarrow> memory_db \<Rightarrow> error + memory_entry option" where
  "find_duplicate_memory_candidate_or_entry project thread i db =
     (case validate_memory_write_scope (mi_scope i) project thread of
        Inl e \<Rightarrow> Inl e
      | Inr _ \<Rightarrow>
          let title = fst (redact_memory_text (mi_title i) 512);
              content = fst (redact_memory_text (mi_content i) (12 * 1024));
              in_scope = (\<lambda>e. case mi_scope i of
                  GlobalScope \<Rightarrow> me_project_id e = None \<and> me_thread_id e = None
                | ProjectScope \<Rightarrow> sql_eq (me_project_id e) project \<and> me_thread_id e = None
                | ThreadScope \<Rightarrow> sql_eq (me_project_id e) project \<and> sql_eq (me_thread_id e) thread);
              rows = filter (\<lambda>e. me_scope e = mi_scope i \<and> me_kind e = mi_kind i \<and>
                  me_title e = title \<and> me_content e = content \<and>
                  me_status e \<in> {MemCandidate, MemActive, MemRejected} \<and> in_scope e) (md_entries db)
          in case sort_key (\<lambda>e. (duplicate_rank (me_status e), - me_updated_at_ms e)) rows of
               [] \<Rightarrow> Inr None | e # _ \<Rightarrow> Inr (Some (entry_from_row e)))"

text \<open>\<open>json_text\<close> is the JSON text of a list of strings.\<close>

definition list_memory_entries_by_status ::
  "(string list \<Rightarrow> string) \<Rightarrow> memory_query \<Rightarrow> memory_status \<Rightarrow> memory_db \<Rightarrow> memory_entry list" where
  "list_memory_entries_by_status json_text q status db =
     (if \<not> mq_include_entries q then []
      else let term = trim (mq_query q);
               rows = filter (\<lambda>e. me_status e = status \<and>
                   scope_predicate (mq_scope q) (mq_project_id q) (mq_thread_id q) e \<and>
                   (term = [] \<or> str_contains term (me_title e) \<or> str_contains term (me_content e) \<or>
                    str_contains term (json_text (me_files e)) \<or>
                    str_contains term (json_text (me_concepts e)))) (md_entries db)
           in map entry_from_row (take (mq_limit q) (sort_key (\<lambda>e. - me_updated_at_ms e) rows)))"

definition inspect_memory_for_scope :: "memory_query \<Rightarrow> memory_db \<Rightarrow> memory_hit list" where
  "inspect_memory_for_scope q db =
     (if \<not> mq_include_entries q then []
      else map memory_entry_hit_from_row (take (clamp_nat 1 200 (mq_limit q))
        (sort_key (\<lambda>e. (\<not> me_pinned e, - me_updated_at_ms e))
          (filter (\<lambda>e. me_status e = MemActive \<and>
             scope_predicate (mq_scope q) (mq_project_id q) (mq_thread_id q) e) (md_entries db)))))"

section \<open>Stale references\<close>

text \<open>The root of the project, and the file system below it.\<close>

record code_view =
  cw_root :: "path option"
  cw_root_exists :: bool
  cw_exists :: "string \<Rightarrow> bool"
  cw_canonicalize :: "path \<Rightarrow> path option"

definition split_once :: "char \<Rightarrow> string \<Rightarrow> (string \<times> string) option" where
  "split_once c s = (case dropWhile (\<lambda>x. x \<noteq> c) s of
     [] \<Rightarrow> None | _ # rest \<Rightarrow> Some (takeWhile (\<lambda>x. x \<noteq> c) s, rest))"

definition ascii_digit :: "char \<Rightarrow> bool" where
  "ascii_digit c \<longleftrightarrow> 48 \<le> byte c \<and> byte c \<le> 57"

fun normal_names :: "path \<Rightarrow> string list option" where
  "normal_names [] = Some []"
| "normal_names (CCur # cs) = normal_names cs"
| "normal_names (CNormal x # cs) = map_option ((#) x) (normal_names cs)"
| "normal_names (_ # cs) = None"

definition normalize_relative_path :: "path \<Rightarrow> string option" where
  "normalize_relative_path p = (case normal_names p of
     None \<Rightarrow> None | Some [] \<Rightarrow> None | Some ns \<Rightarrow> Some (join ''/'' ns))"

definition strip_path_prefix :: "path \<Rightarrow> path \<Rightarrow> path option" where
  "strip_path_prefix root p = (if prefix root p then Some (drop (length root) p) else None)"

definition without_location :: "string \<Rightarrow> string" where
  "without_location raw =
     (let p = (case split_once (CHR ''#'') raw of Some (a, _) \<Rightarrow> a | None \<Rightarrow> raw)
      in trim (case split_once (CHR '':'') p of
           Some (a, line) \<Rightarrow> if list_all ascii_digit line then a else raw
         | None \<Rightarrow> raw))"

definition normalize_ref_path :: "code_view \<Rightarrow> string \<Rightarrow> string option" where
  "normalize_ref_path w raw =
     (let t = without_location raw
      in if t = [] then None
         else let p = path_of t
              in if is_absolute p
                 then (case cw_root w of
                     None \<Rightarrow> None
                   | Some root \<Rightarrow> (case strip_path_prefix root p of
                         Some r \<Rightarrow> normalize_relative_path r
                       | None \<Rightarrow> (case (cw_canonicalize w p, cw_canonicalize w root) of
                             (Some cp, Some croot) \<Rightarrow> (case strip_path_prefix croot cp of
                                 Some r \<Rightarrow> normalize_relative_path r | None \<Rightarrow> None)
                           | _ \<Rightarrow> None)))
                 else normalize_relative_path p)"

definition push_normalized_path :: "code_view \<Rightarrow> string \<Rightarrow> string list \<Rightarrow> string list" where
  "push_normalized_path w raw paths =
     (case normalize_ref_path w raw of
        Some p \<Rightarrow> if p \<in> set paths then paths else paths @ [p]
      | None \<Rightarrow> paths)"

definition referenced_paths :: "code_view \<Rightarrow> string list \<Rightarrow> code_ref list \<Rightarrow> string list" where
  "referenced_paths w files refs =
     fold (push_normalized_path w) (files @ map cf_path refs) []"

text \<open>One unit of the budget for each path asked for; the search ends with the first that is gone.\<close>

fun stale_scan :: "(string \<Rightarrow> bool) \<Rightarrow> nat \<Rightarrow> string list \<Rightarrow> bool \<times> nat" where
  "stale_scan ex budget [] = (False, budget)"
| "stale_scan ex budget (p # ps) =
     (if budget = 0 then (False, 0)
      else if \<not> ex p then (True, budget - 1) else stale_scan ex (budget - 1) ps)"

definition score_refs_with_budget ::
  "code_view \<Rightarrow> string list \<Rightarrow> code_ref list \<Rightarrow> nat \<Rightarrow> bool \<times> nat" where
  "score_refs_with_budget w files refs budget =
     (if cw_root w \<noteq> None \<and> cw_root_exists w
      then stale_scan (cw_exists w) budget (referenced_paths w files refs) else (False, budget))"

fun mark_stale :: "code_view \<Rightarrow> nat \<Rightarrow> memory_hit list \<Rightarrow> memory_hit list" where
  "mark_stale w budget [] = []"
| "mark_stale w budget (h # hs) =
     (let (stale, budget) = score_refs_with_budget w (mh_files h) (mh_code_refs h) budget
      in h\<lparr>mh_stale := stale\<rparr> # mark_stale w budget hs)"

section \<open>Pinned memories\<close>

definition usize_max :: nat where "usize_max = 2 ^ 64 - 1"

text \<open>\<open>root_of\<close> gives the view of the workspace of a registered project.\<close>

definition frozen_memory_for_scope ::
  "(string \<Rightarrow> code_view option) \<Rightarrow> string option \<Rightarrow> thread_id option \<Rightarrow> nat \<Rightarrow> memory_db \<Rightarrow> memory_hit list"
  where
  "frozen_memory_for_scope root_of project thread max_chars db =
     (let rows = filter (\<lambda>e. me_status e = MemActive \<and> me_pinned e \<and> \<not> me_suspicious e \<and>
            frozen_scope_predicate project thread e) (md_entries db);
          newest = sort_key (\<lambda>e. - me_updated_at_ms e) rows;
          ordered = rev (sort_key (\<lambda>e. memory_scope_as_str (me_scope e)) (rev newest));
          hits = map memory_entry_hit_from_row (take (clamp_nat 8 200 (max_chars div 160)) ordered)
      in case Option.bind project root_of of
           None \<Rightarrow> hits
         | Some w \<Rightarrow> filter (\<lambda>h. \<not> mh_stale h) (mark_stale w usize_max hits))"

section \<open>Search\<close>

definition max_query_terms :: nat where "max_query_terms = 12"

text \<open>At most twelve terms; preferred ones first when there are more, the order kept.\<close>

fun cap_loop :: "(string \<Rightarrow> bool) \<Rightarrow> nat \<Rightarrow> nat \<Rightarrow> nat \<Rightarrow> string list \<Rightarrow> string list \<Rightarrow> string list" where
  "cap_loop pref count budget used selected [] = selected"
| "cap_loop pref count budget used selected (t # ts) =
     (let (used', selected') =
        (if pref t then (used, if length selected < max_query_terms then selected @ [t] else selected)
         else if used < budget then (used + 1, selected @ [t]) else (used, selected))
      in if length selected' = max_query_terms \<and> used' = budget \<and>
            \<not> length (filter pref selected') < min count max_query_terms
         then selected' else cap_loop pref count budget used' selected' ts)"

definition cap_query_terms :: "(string \<Rightarrow> bool) \<Rightarrow> string list \<Rightarrow> string list" where
  "cap_query_terms pref terms =
     (if length terms \<le> max_query_terms then terms
      else let count = length (filter pref terms)
           in cap_loop pref count (max_query_terms - min count max_query_terms) 0 [] terms)"

definition fts_match_query :: "string list \<Rightarrow> string option" where
  "fts_match_query terms =
     (if terms = [] then None
      else Some (join '' OR '' (map (\<lambda>t. [CHR 0x22] @ replace_char (CHR 0x22) [CHR 0x22, CHR 0x22] t @
        [CHR 0x22]) terms)))"

text \<open>\<open>bm25\<close> is the full-text engine: the rank of a row that matches the expression.\<close>

definition memory_search_candidates_for_ranker ::
  "(string \<Rightarrow> fts_row \<Rightarrow> int option) \<Rightarrow> memory_query \<Rightarrow> string \<Rightarrow> memory_db \<Rightarrow> memory_hit list" where
  "memory_search_candidates_for_ranker bm25 q fts db =
     (if \<not> mq_include_entries q then []
      else let joined = concat (map (\<lambda>x. case bm25 fts x of
                 None \<Rightarrow> []
               | Some k \<Rightarrow> map (Pair k) (filter (\<lambda>e. me_id e = ft_id x \<and> me_status e = MemActive \<and>
                   scope_predicate (mq_scope q) (mq_project_id q) (mq_thread_id q) e) (md_entries db)))
               (md_fts db))
           in map (memory_entry_hit_from_row \<circ> snd) (take 200
                (sort_key (\<lambda>(k, e). (k, \<not> me_pinned e, - me_updated_at_ms e)) joined)))"

definition stale_check_budget_per_rank_pass :: nat where "stale_check_budget_per_rank_pass = 6"

record ranker =
  rk_terms :: "string \<Rightarrow> string list"
  rk_bm25 :: "string \<Rightarrow> fts_row \<Rightarrow> int option"
  rk_root :: "string \<Rightarrow> code_view option"
  rk_score :: "memory_query \<Rightarrow> memory_hit list \<Rightarrow> nat \<Rightarrow> int"
  rk_stale_min :: int

definition no_root :: code_view where
  "no_root = \<lparr> cw_root = None, cw_root_exists = False, cw_exists = \<lambda>_. False, cw_canonicalize = \<lambda>_. None \<rparr>"

definition search_and_rank :: "ranker \<Rightarrow> memory_query \<Rightarrow> memory_db \<Rightarrow> memory_hit list" where
  "search_and_rank K q db =
     (case fts_match_query (rk_terms K (mq_query q)) of
        None \<Rightarrow> []
      | Some fts \<Rightarrow>
          let limit = clamp_nat 1 50 (mq_limit q);
              w = (case Option.bind (mq_project_id q) (rk_root K) of None \<Rightarrow> no_root | Some w \<Rightarrow> w);
              hits = mark_stale w stale_check_budget_per_rank_pass
                (memory_search_candidates_for_ranker (rk_bm25 K) q fts db);
              scored = map (\<lambda>n. (rk_score K q hits n, hits ! n)) [0..<length hits];
              kept = (if mq_mode q = AutoInject
                then filter (\<lambda>(s, h). \<not> mh_quarantined h \<and> (\<not> mh_stale h \<or> rk_stale_min K \<le> s)) scored
                else scored)
          in map snd (take limit (sort_key (\<lambda>(s, h). (- s, mh_source_id h)) kept)))"

section \<open>Rendering\<close>

definition char_count :: "string \<Rightarrow> nat" where
  "char_count s = length (utf8_chars s)"

function split_whitespace :: "string \<Rightarrow> string list" where
  "split_whitespace s =
     (let t = trim_start s
      in if t = [] then []
         else let cs = takeWhile (\<lambda>c. \<not> white c) (utf8_chars t); w = concat cs
              in if w = [] then [] else w # split_whitespace (drop (length w) t))"
  by pat_completeness auto
termination
proof (relation "measure length", simp)
  fix s t cs w
  assume t: "t = trim_start s" "t \<noteq> []" and w: "w \<noteq> ([] :: string)"
  have "length t \<le> length s"
    using suffix_length_le [OF strip_ws_suffix] by (simp add: t trim_start_def)
  then show "(drop (length w) t, s) \<in> measure length"
    using t(2) w by (cases t; cases w) auto
qed

declare split_whitespace.simps [simp del]

definition single_line :: "string \<Rightarrow> string" where
  "single_line t = join '' '' (split_whitespace t)"

definition strictly_injectable :: "memory_hit \<Rightarrow> bool" where
  "strictly_injectable h \<longleftrightarrow> \<not> mh_quarantined h \<and> \<not> mh_stale h \<and>
     (case mh_status h of Some s \<Rightarrow> s = MemActive | None \<Rightarrow> mh_kind h \<noteq> ''candidate'')"

definition format_hit :: "memory_hit \<Rightarrow> string" where
  "format_hit h =
     (let body = trim (mh_body h)
      in ''- [entry:'' @ mh_kind h @ ''] '' @ single_line (trim (mh_title h)) @
         (if body = [] then [] else nl @ ''  body: '' @ single_line body) @
         (if mh_files h = [] then [] else nl @ ''  files: '' @ join '', '' (mh_files h)))"

text \<open>The lines that fit, from a number of characters already used.\<close>

fun fitting_lines :: "nat \<Rightarrow> nat \<Rightarrow> bool \<Rightarrow> memory_hit list \<Rightarrow> string list" where
  "fitting_lines limit used some [] = []"
| "fitting_lines limit used some (h # hs) =
     (if \<not> strictly_injectable h then fitting_lines limit used some hs
      else let line = format_hit h; n = (if some then 1 else 0) + char_count line
           in if limit < used + n then fitting_lines limit used some hs
              else line # fitting_lines limit (used + n) True hs)"

definition format_memory_context :: "string \<Rightarrow> memory_hit list \<Rightarrow> nat \<Rightarrow> string" where
  "format_memory_context header hits max_chars =
     (let header_chars = char_count header + 1
      in if max_chars \<le> header_chars then []
         else case fitting_lines max_chars header_chars False hits of
           [] \<Rightarrow> []
         | lines \<Rightarrow> trim_end (header @ nl @ join nl lines))"

definition format_auto_memory_context :: "memory_hit list \<Rightarrow> nat \<Rightarrow> string" where
  "format_auto_memory_context = format_memory_context ''Relevant project memory:''"

definition format_frozen_memory_block :: "memory_hit list \<Rightarrow> nat \<Rightarrow> string" where
  "format_frozen_memory_block = format_memory_context ''Pinned project memory:''"

section \<open>At the start of a turn\<close>

text \<open>The texts that \<^verbatim>\<open>ensure_frozen_memory_context\<close> and
  \<^verbatim>\<open>refresh_dynamic_memory_context\<close> put into the context, once memory is switched on and the
  project is known; an empty text is not put there.\<close>

definition frozen_memory_text :: "(string \<Rightarrow> code_view option) \<Rightarrow> nat \<Rightarrow> string option \<Rightarrow> memory_db \<Rightarrow> string" where
  "frozen_memory_text root_of max_chars project db =
     format_frozen_memory_block (frozen_memory_for_scope root_of project None max_chars db) max_chars"

definition auto_memory_text ::
  "ranker \<Rightarrow> nat \<Rightarrow> nat \<Rightarrow> string option \<Rightarrow> thread_id \<Rightarrow> string \<Rightarrow> memory_db \<Rightarrow> string" where
  "auto_memory_text K max_hits max_chars project thread prompt db =
     format_auto_memory_context (search_and_rank K
       \<lparr> mq_scope = ProjectScope, mq_project_id = project, mq_thread_id = Some thread,
         mq_query = prompt, mq_mode = AutoInject, mq_limit = max_hits, mq_include_entries = True \<rparr> db) max_chars"

section \<open>What reaches the model\<close>

lemma char_count_alt: "char_count s = (case s of [] \<Rightarrow> 0 | b # bs \<Rightarrow> 1 + length (filter (\<lambda>c. \<not> is_cont c) bs))"
proof (induction s rule: utf8_chars.induct)
  case (2 b bs)
  have t: "filter (\<lambda>c. \<not> is_cont c) (takeWhile is_cont bs) = []"
    by (auto simp: filter_empty_conv dest: set_takeWhileD)
  have "filter (\<lambda>c. \<not> is_cont c) bs = filter (\<lambda>c. \<not> is_cont c) (dropWhile is_cont bs)"
    by (metis t append_Nil filter_append takeWhile_dropWhile_id)
  moreover have "char_count (dropWhile is_cont bs) = length (filter (\<lambda>c. \<not> is_cont c) (dropWhile is_cont bs))"
  proof (cases "dropWhile is_cont bs")
    case Nil
    then show ?thesis by (simp only: list.simps filter.simps char_count_def utf8_chars.simps list.size)
  next
    case (Cons c cs)
    then have "\<not> is_cont c" using hd_dropWhile [of is_cont bs] by simp
    then show ?thesis using 2 Cons by (simp add: char_count_def)
  qed
  ultimately show ?case by (simp add: char_count_def)
qed (simp add: char_count_def)

lemma char_count_append: "char_count (a @ b) \<le> char_count a + char_count b" "char_count a \<le> char_count (a @ b)"
  by (cases a; cases b; simp add: char_count_alt)+

lemma char_count_nl [simp]: "char_count nl = 1"
  by (simp add: char_count_def nl_def)

lemma char_count_join:
  "char_count (join nl (l # ls)) \<le> char_count l + (if ls = [] then 0 else 1 + char_count (join nl ls))"
proof (cases ls)
  case (Cons m ms)
  have "char_count (l @ nl @ join nl ls) \<le> char_count l + char_count (nl @ join nl ls)"
    by (rule char_count_append)
  also have "char_count (nl @ join nl ls) \<le> 1 + char_count (join nl ls)"
    using char_count_append(1) [of nl "join nl ls"] by simp
  finally show ?thesis by (simp add: Cons)
qed simp

lemma fitting_lines_bound:
  "fitting_lines limit used some hs \<noteq> [] \<Longrightarrow>
   used + (if some then 1 else 0) + char_count (join nl (fitting_lines limit used some hs)) \<le> limit"
proof (induction hs arbitrary: used some)
  case (Cons h hs)
  let ?line = "format_hit h"
  let ?n = "(if some then 1 else 0) + char_count ?line"
  show ?case
  proof (cases "strictly_injectable h \<and> \<not> limit < used + ?n")
    case True
    let ?rest = "fitting_lines limit (used + ?n) True hs"
    have "fitting_lines limit used some (h # hs) = ?line # ?rest" using True by (simp add: Let_def)
    moreover have "?rest \<noteq> [] \<Longrightarrow> used + ?n + 1 + char_count (join nl ?rest) \<le> limit"
      using Cons.IH [of "used + ?n" True] by simp
    ultimately show ?thesis
      using char_count_join [of ?line ?rest] True by (cases "?rest = []") auto
  next
    case False
    then have e: "fitting_lines limit used some (h # hs) = fitting_lines limit used some hs"
      by (auto simp: Let_def)
    show ?thesis using Cons.IH [of used some] Cons.prems unfolding e .
  qed
qed simp

lemma fitting_lines_hits:
  "\<exists>sel. fitting_lines limit used some hs = map format_hit sel \<and> set sel \<subseteq> {h \<in> set hs. strictly_injectable h}"
proof (induction hs arbitrary: used some)
  case (Cons h hs)
  let ?n = "(if some then 1 else 0) + char_count (format_hit h)"
  consider (skip) "\<not> strictly_injectable h \<or> limit < used + ?n" | (take) "strictly_injectable h" "\<not> limit < used + ?n"
    by blast
  then show ?case
  proof cases
    case skip
    then have e: "fitting_lines limit used some (h # hs) = fitting_lines limit used some hs"
      by (auto simp: Let_def)
    obtain sel where "fitting_lines limit used some hs = map format_hit sel"
      "set sel \<subseteq> {h \<in> set hs. strictly_injectable h}"
      using Cons.IH [of used some] by blast
    then show ?thesis unfolding e by (intro exI [of _ sel]) auto
  next
    case take
    then have e: "fitting_lines limit used some (h # hs) = format_hit h # fitting_lines limit (used + ?n) True hs"
      by (simp add: Let_def)
    obtain sel where "fitting_lines limit (used + ?n) True hs = map format_hit sel"
      "set sel \<subseteq> {h \<in> set hs. strictly_injectable h}"
      using Cons.IH [of "used + ?n" True] by blast
    then show ?thesis unfolding e using take by (intro exI [of _ "h # sel"]) auto
  qed
qed simp

lemma format_memory_context_form:
  "format_memory_context header hits n = [] \<or>
   char_count (format_memory_context header hits n) \<le> n \<and>
   (\<exists>sel. format_memory_context header hits n = trim_end (join nl (header # map format_hit sel)) \<and>
      set sel \<subseteq> {h \<in> set hits. strictly_injectable h})"
proof -
  let ?ls = "fitting_lines n (char_count header + 1) False hits"
  show ?thesis
  proof (cases "n \<le> char_count header + 1 \<or> ?ls = []")
    case True
    then show ?thesis by (auto simp: format_memory_context_def Let_def)
  next
    case False
    obtain sel where sel: "?ls = map format_hit sel" "set sel \<subseteq> {h \<in> set hits. strictly_injectable h}"
      using fitting_lines_hits by blast
    have t: "format_memory_context header hits n = trim_end (header @ nl @ join nl ?ls)"
      using False by (cases ?ls) (auto simp: format_memory_context_def Let_def)
    have j: "header @ nl @ join nl ?ls = join nl (header # ?ls)" using False by (cases ?ls) auto
    obtain z where z: "join nl (header # ?ls) = trim_end (join nl (header # ?ls)) @ z"
      using trim_end_prefix by (metis prefixE)
    have "char_count (trim_end (join nl (header # ?ls))) \<le> char_count (join nl (header # ?ls))"
      by (subst (2) z) (rule char_count_append)
    also have "\<dots> \<le> char_count header + (1 + char_count (join nl ?ls))"
      using char_count_join [of header ?ls] False by simp
    also have "\<dots> \<le> n" using fitting_lines_bound [of n "char_count header + 1" False hits] False by simp
    finally show ?thesis using t j sel by auto
  qed
qed

text \<open>A hit is an entry of the store, but for the mark of its references.\<close>

definition hit_of :: "memory_entry list \<Rightarrow> (memory_entry \<Rightarrow> bool) \<Rightarrow> memory_hit \<Rightarrow> bool" where
  "hit_of es P h \<longleftrightarrow> (\<exists>e \<in> set es. P e \<and> (\<exists>b. h = (memory_entry_hit_from_row e)\<lparr>mh_stale := b\<rparr>))"

lemma mark_stale_hits: "h \<in> set (mark_stale w budget hs) \<Longrightarrow> \<exists>g b. g \<in> set hs \<and> h = g\<lparr>mh_stale := b\<rparr>"
proof (induction hs arbitrary: budget)
  case (Cons g hs)
  obtain s b where sb: "score_refs_with_budget w (mh_files g) (mh_code_refs g) budget = (s, b)"
    by (cases "score_refs_with_budget w (mh_files g) (mh_code_refs g) budget")
  with Cons.prems have "h = g\<lparr>mh_stale := s\<rparr> \<or> h \<in> set (mark_stale w b hs)" by (simp add: Let_def)
  with Cons.IH [of b] show ?case by auto
qed simp

lemma hit_of_stale: "hit_of es P g \<Longrightarrow> hit_of es P (g\<lparr>mh_stale := b\<rparr>)"
  unfolding hit_of_def by (metis memory_hit.update_convs(11) memory_hit.surjective)

lemma hit_of_row: "e \<in> set es \<Longrightarrow> P e \<Longrightarrow> hit_of es P (memory_entry_hit_from_row e)"
proof -
  assume "e \<in> set es" "P e"
  moreover have "memory_entry_hit_from_row e = (memory_entry_hit_from_row e)\<lparr>mh_stale := False\<rparr>"
    by (simp add: memory_entry_hit_from_row_def Let_def)
  ultimately show ?thesis unfolding hit_of_def by blast
qed

lemma frozen_hits:
  "h \<in> set (frozen_memory_for_scope root_of project thread n db) \<Longrightarrow>
   hit_of (md_entries db) (\<lambda>e. me_status e = MemActive \<and> frozen_scope_predicate project thread e) h"
  by (auto simp: frozen_memory_for_scope_def Let_def split: option.splits
      dest!: mark_stale_hits in_set_takeD intro!: hit_of_stale hit_of_row)

lemma candidate_hits:
  "h \<in> set (memory_search_candidates_for_ranker bm25 q fts db) \<Longrightarrow>
   hit_of (md_entries db) (\<lambda>e. me_status e = MemActive \<and>
     scope_predicate (mq_scope q) (mq_project_id q) (mq_thread_id q) e) h"
  by (auto simp: memory_search_candidates_for_ranker_def Let_def split: option.splits if_splits
      dest!: in_set_takeD intro!: hit_of_row)

lemma search_hits:
  "h \<in> set (search_and_rank K q db) \<Longrightarrow>
   hit_of (md_entries db) (\<lambda>e. me_status e = MemActive \<and>
     scope_predicate (mq_scope q) (mq_project_id q) (mq_thread_id q) e) h"
proof -
  assume h: "h \<in> set (search_and_rank K q db)"
  then obtain fts where f: "fts_match_query (rk_terms K (mq_query q)) = Some fts"
    by (cases "fts_match_query (rk_terms K (mq_query q))") (auto simp: search_and_rank_def)
  define w where "w = (case Option.bind (mq_project_id q) (rk_root K) of None \<Rightarrow> no_root | Some w \<Rightarrow> w)"
  define hits where "hits = mark_stale w stale_check_budget_per_rank_pass
      (memory_search_candidates_for_ranker (rk_bm25 K) q fts db)"
  define scored where "scored = map (\<lambda>n. (rk_score K q hits n, hits ! n)) [0..<length hits]"
  have "h \<in> snd ` set scored"
    using h unfolding search_and_rank_def f option.case Let_def
    unfolding w_def [symmetric] unfolding hits_def [symmetric] unfolding scored_def [symmetric]
    by (auto dest!: in_set_takeD split: if_splits)
  then have "h \<in> set hits" by (auto simp: scored_def)
  then show ?thesis unfolding hits_def by (auto dest!: mark_stale_hits candidate_hits intro: hit_of_stale)
qed

lemma injectable_hit:
  assumes "hit_of es P h" "strictly_injectable h"
  shows "\<exists>e \<in> set es. P e \<and> \<not> quarantined_entry e \<and> h = memory_entry_hit_from_row e"
proof -
  obtain e b where e: "e \<in> set es" "P e" "h = (memory_entry_hit_from_row e)\<lparr>mh_stale := b\<rparr>"
    using assms(1) by (auto simp: hit_of_def)
  have "\<not> b" "\<not> quarantined_entry e"
    using assms(2) e(3) by (auto simp: strictly_injectable_def memory_entry_hit_from_row_def Let_def)
  moreover have "(memory_entry_hit_from_row e)\<lparr>mh_stale := False\<rparr> = memory_entry_hit_from_row e"
    by (simp add: memory_entry_hit_from_row_def Let_def)
  ultimately show ?thesis using e by auto
qed

definition visible_in :: "string option \<Rightarrow> memory_entry \<Rightarrow> bool" where
  "visible_in project e \<longleftrightarrow> me_scope e = GlobalScope \<or>
     me_scope e = ProjectScope \<and> project \<noteq> None \<and> me_project_id e = project"

text \<open>A text of at most so many characters, whose lines under the header are those of active entries,
  visible in the project, that no scan has flagged.\<close>

definition safe_memory_text :: "memory_db \<Rightarrow> string option \<Rightarrow> nat \<Rightarrow> string \<Rightarrow> bool" where
  "safe_memory_text db project n t \<longleftrightarrow> t = [] \<or> char_count t \<le> n \<and>
     (\<exists>header es. t = trim_end (join nl (header # map (format_hit \<circ> memory_entry_hit_from_row) es)) \<and>
        set es \<subseteq> {e \<in> set (md_entries db). me_status e = MemActive \<and> \<not> quarantined_entry e \<and>
          visible_in project e})"

lemma safe_memory_textI:
  assumes "\<And>h. h \<in> set hits \<Longrightarrow> hit_of (md_entries db) (\<lambda>e. me_status e = MemActive \<and> P e) h"
    and "\<And>e. P e \<Longrightarrow> visible_in project e"
  shows "safe_memory_text db project n (format_memory_context header hits n)"
  using format_memory_context_form [of header hits n]
proof
  assume "char_count (format_memory_context header hits n) \<le> n \<and>
   (\<exists>sel. format_memory_context header hits n = trim_end (join nl (header # map format_hit sel)) \<and>
      set sel \<subseteq> {h \<in> set hits. strictly_injectable h})"
  then obtain sel where c: "char_count (format_memory_context header hits n) \<le> n"
    and t: "format_memory_context header hits n = trim_end (join nl (header # map format_hit sel))"
    and sel: "set sel \<subseteq> {h \<in> set hits. strictly_injectable h}" by blast
  define pick where "pick = (\<lambda>h. SOME e. e \<in> set (md_entries db) \<and> me_status e = MemActive \<and> P e \<and>
    \<not> quarantined_entry e \<and> h = memory_entry_hit_from_row e)"
  have p: "pick h \<in> set (md_entries db) \<and> me_status (pick h) = MemActive \<and> P (pick h) \<and>
    \<not> quarantined_entry (pick h) \<and> h = memory_entry_hit_from_row (pick h)" if "h \<in> set sel" for h
    unfolding pick_def
    by (rule someI_ex) (use injectable_hit [OF assms(1)] sel that in blast)
  have "map (format_hit \<circ> memory_entry_hit_from_row) (map pick sel) = map format_hit sel"
    using p by simp
  moreover have "set (map pick sel) \<subseteq> {e \<in> set (md_entries db). me_status e = MemActive \<and>
      \<not> quarantined_entry e \<and> visible_in project e}"
    using p assms(2) by auto
  ultimately show ?thesis unfolding safe_memory_text_def using c
    by (intro disjI2 conjI exI [of _ header] exI [of _ "map pick sel"]) (simp_all only: t)
qed (simp add: safe_memory_text_def)

text \<open>C0: What memory puts into a conversation on its own, pinned or recalled, keeps its limit and is made
  of entries that are active, belong to the project or to all, and carry no trace of an injected
  instruction: no candidate, archived, superseded, rejected or forgotten text reaches the model this
  way, whatever the full-text engine and the scores say.\<close>

theorem injected_memory_safe:
  "safe_memory_text db project m (frozen_memory_text root_of m project db) \<and>
   safe_memory_text db project n (auto_memory_text K max_hits n project thread prompt db)"
proof
  show "safe_memory_text db project m (frozen_memory_text root_of m project db)"
    unfolding frozen_memory_text_def format_frozen_memory_block_def
    by (rule safe_memory_textI [OF frozen_hits])
       (auto simp: frozen_scope_predicate_def visible_in_def split: option.splits)
  show "safe_memory_text db project n (auto_memory_text K max_hits n project thread prompt db)"
    unfolding auto_memory_text_def format_auto_memory_context_def
    by (rule safe_memory_textI [OF search_hits])
       (auto simp: scope_predicate_def visible_in_def sql_eq_def)
qed

section \<open>The terms of a query\<close>

text \<open>The preferred terms first, as many as fit, and the others up to twelve, in their order.\<close>

fun choose_terms :: "(string \<Rightarrow> bool) \<Rightarrow> nat \<Rightarrow> nat \<Rightarrow> string list \<Rightarrow> string list" where
  "choose_terms pref p f [] = []"
| "choose_terms pref p f (t # ts) =
     (if pref t then (if 0 < p then t # choose_terms pref (p - 1) f ts else choose_terms pref 0 f ts)
      else if 0 < f then t # choose_terms pref p (f - 1) ts else choose_terms pref p 0 ts)"

lemma choose_terms_none: "choose_terms pref 0 0 ts = []"
  by (induction ts) auto

definition preferred_count :: "(string \<Rightarrow> bool) \<Rightarrow> string list \<Rightarrow> nat" where
  "preferred_count pref ts = length (filter pref ts)"

lemma preferred_count_simps [simp]:
  "preferred_count pref [] = 0"
  "preferred_count pref (t # ts) = (if pref t then 1 else 0) + preferred_count pref ts"
  "preferred_count pref (xs @ ys) = preferred_count pref xs + preferred_count pref ys"
  by (simp_all add: preferred_count_def)

lemma cap_loop_choose:
  assumes "P = min count max_query_terms" "budget = max_query_terms - P"
    and "preferred_count pref sel \<le> P" "used \<le> budget" "length sel = preferred_count pref sel + used"
    and "preferred_count pref sel + preferred_count pref ts = count \<or> preferred_count pref sel = max_query_terms"
  shows "cap_loop pref count budget used sel ts
    = sel @ choose_terms pref (P - preferred_count pref sel) (budget - used) ts"
  using assms(3-6)
proof (induction ts arbitrary: used sel)
  case (Cons t ts)
  let ?c = "preferred_count pref"
  have stop: "length sel' = max_query_terms \<and> used' = budget \<and> \<not> ?c sel' < P \<Longrightarrow> ?c sel' \<le> P \<Longrightarrow>
    choose_terms pref (P - ?c sel') (budget - used') ts = []" for sel' :: "string list" and used'
    by (simp add: choose_terms_none)
  consider (room) "pref t" "?c sel < P" | (full) "pref t" "?c sel = P" | (other) "\<not> pref t" "used < budget"
    | (drop) "\<not> pref t" "used = budget" using Cons.prems by linarith
  then show ?case
  proof cases
    case room
    then have l: "length sel < max_query_terms" using Cons.prems assms(1,2) by simp
    have "cap_loop pref count budget used (sel @ [t]) ts
      = (sel @ [t]) @ choose_terms pref (P - ?c (sel @ [t])) (budget - used) ts"
      by (rule Cons.IH) (use Cons.prems room assms(1) in auto)
    then show ?thesis
      using room l stop [of "sel @ [t]" used] assms(1) by (auto simp: preferred_count_def Suc_diff_Suc)
  next
    case full
    then have P: "P = max_query_terms" "budget = 0" "used = 0" "\<not> length sel < max_query_terms"
      using Cons.prems assms(1,2) by (auto split: if_splits simp: min_def)
    have "cap_loop pref count budget used sel ts = sel @ choose_terms pref (P - ?c sel) (budget - used) ts"
      by (rule Cons.IH) (use Cons.prems full P in auto)
    then show ?thesis using full P stop [of sel used] assms(1) Cons.prems
      by (auto simp: preferred_count_def choose_terms_none)
  next
    case other
    have "cap_loop pref count budget (used + 1) (sel @ [t]) ts
      = (sel @ [t]) @ choose_terms pref (P - ?c (sel @ [t])) (budget - (used + 1)) ts"
      by (rule Cons.IH) (use Cons.prems other in auto)
    then show ?thesis
      using other stop [of "sel @ [t]" "used + 1"] assms(1) Cons.prems
      by (auto simp: preferred_count_def Suc_diff_Suc)
  next
    case drop
    have "cap_loop pref count budget used sel ts = sel @ choose_terms pref (P - ?c sel) (budget - used) ts"
      by (rule Cons.IH) (use Cons.prems drop in auto)
    then show ?thesis using drop stop [of sel used] assms(1) Cons.prems
      by (auto simp: preferred_count_def)
  qed
qed simp

lemma cap_query_terms_choose:
  "max_query_terms < length ts \<Longrightarrow> cap_query_terms pref ts
   = choose_terms pref (min (preferred_count pref ts) max_query_terms)
       (max_query_terms - min (preferred_count pref ts) max_query_terms) ts"
  using cap_loop_choose [of "min (preferred_count pref ts) max_query_terms" "preferred_count pref ts" _ pref "[]" 0 ts]
  by (simp add: cap_query_terms_def Let_def preferred_count_def)

lemma choose_terms_subseq: "subseq (choose_terms pref p f ts) ts"
  by (induction pref p f ts rule: choose_terms.induct) (auto intro: subseq_order.trans)

lemma choose_terms_counts:
  "preferred_count pref (choose_terms pref p f ts) = min p (preferred_count pref ts) \<and>
   length (choose_terms pref p f ts) = min p (preferred_count pref ts) + min f (length ts - preferred_count pref ts)"
proof (induction pref p f ts rule: choose_terms.induct)
  case (2 pref p f t ts)
  have "preferred_count pref ts \<le> length ts" by (simp add: preferred_count_def)
  with 2 show ?case by (auto simp: min_def)
qed simp

text \<open>A query keeps its terms when there are at most twelve; of more it keeps twelve, in their order,
  and drops a preferred one only for twelve others.\<close>

lemma cap_query_terms_spec:
  "subseq (cap_query_terms pref ts) ts" "length (cap_query_terms pref ts) = min max_query_terms (length ts)"
  "preferred_count pref (cap_query_terms pref ts) = min max_query_terms (preferred_count pref ts)"
proof -
  have "subseq (cap_query_terms pref ts) ts \<and> length (cap_query_terms pref ts) = min max_query_terms (length ts) \<and>
    preferred_count pref (cap_query_terms pref ts) = min max_query_terms (preferred_count pref ts)"
  proof (cases "max_query_terms < length ts")
    case True
    let ?p = "min (preferred_count pref ts) max_query_terms"
    have "preferred_count pref ts \<le> length ts" by (simp add: preferred_count_def)
    then show ?thesis
      using True choose_terms_counts [of pref ?p "max_query_terms - ?p" ts] choose_terms_subseq
      by (auto simp: cap_query_terms_choose min_def)
  next
    case False
    moreover have "preferred_count pref ts \<le> length ts" by (simp add: preferred_count_def)
    ultimately show ?thesis by (simp add: cap_query_terms_def min_def)
  qed
  then show "subseq (cap_query_terms pref ts) ts" "length (cap_query_terms pref ts) = min max_query_terms (length ts)"
    "preferred_count pref (cap_query_terms pref ts) = min max_query_terms (preferred_count pref ts)" by auto
qed

text \<open>A fragment without a line number is not cut off: the reference is looked up with it, and the
  memory counts as stale.\<close>

lemma fragment_is_kept:
  "without_location ''src/a.rs#L3'' = ''src/a.rs#L3''" "without_location ''src/a.rs:3#x'' = ''src/a.rs''"
  by code_simp+

end
