(* ===== verification/Spec2Isabelle.thy ===== *)
theory Spec2Isabelle
  imports Prelude Codec Types Session Protocol Events Rollout Mail ForkHistory Policy Edges Subagent
    GoalStore Forge ForgeGate Context Overlay ThreadSession AgentTools Orchestrator SessionRun
    Restart ThreadRuntime GoalPrompts GoalRuntime GoalApi GoalLaws TurnLoop
    ThreadProjection Workspace ApplyPatch
    WorkflowRun Scheduler DeepSearch DeepSearchRun WorkflowApi AgentJson WorkflowAgents MemoryText MemoryStore MemoryRecall
begin

text \<open>
  A model of the core of ExAgent, an agent runtime written in Rust.
\<close>

end
